(* ===== verification/Prelude.thy ===== *)
theory Prelude
  imports Complex_Main "HOL-Library.AList"
begin

text \<open>
  Shared vocabulary of the development: the exceptions of the program as one datatype, the
  result type every fallible operation returns, the loop combinator \<open>rfold\<close> (a Python
  \<^verbatim>\<open>for\<close> whose body may raise), dictionaries as insertion-ordered association lists,
  Python string helpers and timestamps. Strings are ASCII; message texts are the constant
  parts of the source's messages (the interpolated values of f-strings are dropped).
\<close>

section \<open>Exceptions and results\<close>

text \<open>
  \<open>weatherbot/domain/errors.py\<close> declares the domain classes; the other constructors are the
  Python and \<^verbatim>\<open>decimal\<close> exceptions the code raises or lets through, and the
  \<^verbatim>\<open>ValueError\<close> subclasses of the market and quoting layers and the persistence
  errors.
\<close>

datatype exc =
    ValueError string
  | TypeError string
  | KeyError
  | AssertionError
  | InvalidOperation
  | DivisionByZero
  | InvalidTransition string
  | InvariantViolation string
  | DuplicateEventConflict string
  | AggregateNotFound string
  | OrderBookError string
  | QuoteValidationError string
  | WeatherInputError string
  | TemperatureMarketError string
  | CorruptLedgerError string
  | SchemaVersionError string
  | PersistenceError string
  | DuplicateIntentError string
  | ConcurrentDecisionError string
  | RecoveryRequiredError string
  | DatabaseError string

type_synonym 'a result = "exc + 'a"

text \<open>What \<^verbatim>\<open>except ValueError\<close> catches.\<close>

fun is_value_error :: "exc \<Rightarrow> bool" where
  "is_value_error (ValueError _) = True"
| "is_value_error (OrderBookError _) = True"
| "is_value_error (QuoteValidationError _) = True"
| "is_value_error (WeatherInputError _) = True"
| "is_value_error (TemperatureMarketError _) = True"
| "is_value_error _ = False"

fun exc_text :: "exc \<Rightarrow> string" where
  "exc_text (ValueError s) = s"
| "exc_text (TypeError s) = s"
| "exc_text (InvalidTransition s) = s"
| "exc_text (InvariantViolation s) = s"
| "exc_text (DuplicateEventConflict s) = s"
| "exc_text (AggregateNotFound s) = s"
| "exc_text (OrderBookError s) = s"
| "exc_text (QuoteValidationError s) = s"
| "exc_text (WeatherInputError s) = s"
| "exc_text (TemperatureMarketError s) = s"
| "exc_text (CorruptLedgerError s) = s"
| "exc_text (SchemaVersionError s) = s"
| "exc_text (PersistenceError s) = s"
| "exc_text (DuplicateIntentError s) = s"
| "exc_text (ConcurrentDecisionError s) = s"
| "exc_text (RecoveryRequiredError s) = s"
| "exc_text (DatabaseError s) = s"
| "exc_text _ = []"

named_theorems result_simps \<open>elimination of the result monad\<close>
named_theorems wf_intros \<open>well-formedness of constructed values\<close>

definition rbind :: "'e + 'a \<Rightarrow> ('a \<Rightarrow> 'e + 'b) \<Rightarrow> 'e + 'b" where
  "rbind m f = (case m of Inl e \<Rightarrow> Inl e | Inr x \<Rightarrow> f x)"

lemma rbind_simps [simp]:
  "rbind (Inl e) f = Inl e"
  "rbind (Inr x) f = f x"
  by (simp_all add: rbind_def)

lemma rbind_eq_Inr [result_simps]:
  "rbind m f = Inr y \<longleftrightarrow> (\<exists>x. m = Inr x \<and> f x = Inr y)"
  by (cases m) auto

lemma rbind_eq_Inl [result_simps]:
  "rbind m f = Inl e \<longleftrightarrow> m = Inl e \<or> (\<exists>x. m = Inr x \<and> f x = Inl e)"
  by (cases m) auto

lemma rbind_assoc: "rbind (rbind m f) g = rbind m (\<lambda>x. rbind (f x) g)"
  by (cases m) auto

lemma rbind_cong [fundef_cong]:
  "m = m' \<Longrightarrow> (\<And>x. m' = Inr x \<Longrightarrow> f x = f' x) \<Longrightarrow> rbind m f = rbind m' f'"
  by (cases m') auto

lemma if_Inl_eq_Inr [result_simps]:
  "(if c then Inl e else m) = Inr y \<longleftrightarrow> \<not> c \<and> m = Inr y"
  by auto

lemma if_else_Inl_eq_Inr [result_simps]:
  "(if c then m else Inl e) = Inr y \<longleftrightarrow> c \<and> m = Inr y"
  by auto

definition is_ok :: "'e + 'a \<Rightarrow> bool" where
  "is_ok m = (case m of Inl _ \<Rightarrow> False | Inr _ \<Rightarrow> True)"

lemma is_ok_simps [simp]: "is_ok (Inr x)" "\<not> is_ok (Inl e)"
  by (simp_all add: is_ok_def)

lemma is_ok_iff: "is_ok m \<longleftrightarrow> (\<exists>x. m = Inr x)"
  by (cases m) auto

section \<open>Loops that may raise\<close>

fun rfold :: "('s \<Rightarrow> 'a \<Rightarrow> 'e + 's) \<Rightarrow> 's \<Rightarrow> 'a list \<Rightarrow> 'e + 's" where
  "rfold f s [] = Inr s"
| "rfold f s (x # xs) = rbind (f s x) (\<lambda>s'. rfold f s' xs)"

lemma rfold_append: "rfold f s (xs @ ys) = rbind (rfold f s xs) (\<lambda>t. rfold f t ys)"
  by (induction xs arbitrary: s) (auto simp: rbind_assoc)

lemma rfold_invariant:
  assumes "rfold f s xs = Inr t" and "I s"
    and "\<And>s x s'. I s \<Longrightarrow> x \<in> set xs \<Longrightarrow> f s x = Inr s' \<Longrightarrow> I s'"
  shows "I t"
  using assms
proof (induction xs arbitrary: s)
  case Nil
  then show ?case by simp
next
  case (Cons x xs)
  from Cons.prems(1) obtain s' where s': "f s x = Inr s'" "rfold f s' xs = Inr t"
    by (auto simp: rbind_eq_Inr)
  show ?case
    by (rule Cons.IH [OF s'(2)]) (use Cons.prems s'(1) in auto)
qed

fun rmap :: "('a \<Rightarrow> 'e + 'b) \<Rightarrow> 'a list \<Rightarrow> 'e + 'b list" where
  "rmap f [] = Inr []"
| "rmap f (x # xs) = rbind (f x) (\<lambda>y. rbind (rmap f xs) (\<lambda>ys. Inr (y # ys)))"

section \<open>Event-driven machines\<close>

text \<open>
  The contract between an event-sourced component and its clients: one fallible step per
  event, and a property every successful step keeps. The lemmas lift it to runs.
\<close>

locale event_machine =
  fixes step :: "'s \<Rightarrow> 'e \<Rightarrow> 'x + 's"
    and good :: "'e \<Rightarrow> bool"
    and inv :: "'s \<Rightarrow> bool"
  assumes step_inv: "inv s \<Longrightarrow> good e \<Longrightarrow> step s e = Inr s' \<Longrightarrow> inv s'"
begin

lemma run_inv:
  "rfold step s es = Inr s' \<Longrightarrow> inv s \<Longrightarrow> list_all good es \<Longrightarrow> inv s'"
  by (induction es arbitrary: s) (auto simp: rbind_eq_Inr intro: step_inv)

end

text \<open>
  A machine with a preorder every step respects (how a state may evolve); the run lemma
  says the start and the end of every run are related.
\<close>

locale evolving_machine = event_machine step good inv
  for step :: "'s \<Rightarrow> 'e \<Rightarrow> 'x + 's" and good :: "'e \<Rightarrow> bool" and inv :: "'s \<Rightarrow> bool" +
  fixes evolves :: "'s \<Rightarrow> 's \<Rightarrow> bool"
  assumes evolves_refl: "evolves s s"
    and evolves_trans: "evolves s t \<Longrightarrow> evolves t u \<Longrightarrow> evolves s u"
    and step_evolves: "inv s \<Longrightarrow> good e \<Longrightarrow> step s e = Inr s' \<Longrightarrow> evolves s s'"
begin

lemma run_evolves:
  "rfold step s es = Inr s' \<Longrightarrow> inv s \<Longrightarrow> list_all good es \<Longrightarrow> evolves s s'"
proof (induction es arbitrary: s)
  case Nil
  then show ?case by (simp add: evolves_refl)
next
  case (Cons e es)
  then obtain t where t: "step s e = Inr t" "rfold step t es = Inr s'"
    by (auto simp: rbind_eq_Inr)
  have "evolves s t" using t(1) Cons.prems by (auto intro: step_evolves)
  moreover have "evolves t s'"
    using t Cons.prems by (intro Cons.IH) (auto intro: step_inv)
  ultimately show ?case by (rule evolves_trans)
qed

end

section \<open>Dictionaries\<close>

text \<open>
  A Python \<^verbatim>\<open>dict\<close> keeps insertion order: an association list with distinct keys.
  \<open>AList.update\<close> overwrites in place or appends, as \<^verbatim>\<open>d[k] = v\<close> does.
\<close>

type_synonym ('k, 'v) dict = "('k \<times> 'v) list"

abbreviation dict_keys :: "('k, 'v) dict \<Rightarrow> 'k list" where
  "dict_keys d \<equiv> map fst d"

definition dict_ok :: "('k, 'v) dict \<Rightarrow> bool" where
  "dict_ok d \<longleftrightarrow> distinct (dict_keys d)"

abbreviation dict_get :: "('k, 'v) dict \<Rightarrow> 'k \<Rightarrow> 'v option" where
  "dict_get d k \<equiv> map_of d k"

abbreviation dict_set :: "('k, 'v) dict \<Rightarrow> 'k \<Rightarrow> 'v \<Rightarrow> ('k, 'v) dict" where
  "dict_set d k v \<equiv> AList.update k v d"

lemma dict_ok_Nil [simp]: "dict_ok []"
  by (simp add: dict_ok_def)

lemma dict_ok_set [simp]: "dict_ok d \<Longrightarrow> dict_ok (dict_set d k v)"
  by (simp add: dict_ok_def distinct_update)

lemma dict_get_set [simp]: "dict_get (dict_set d k v) k' = (if k' = k then Some v else dict_get d k')"
  by (simp add: update_conv')

lemma dict_entry_get: "dict_ok d \<Longrightarrow> (k, v) \<in> set d \<longleftrightarrow> dict_get d k = Some v"
  by (simp add: dict_ok_def map_of_eq_Some_iff)

lemma dict_set_entries:
  "dict_ok d \<Longrightarrow> (k', v') \<in> set (dict_set d k v) \<longleftrightarrow>
     (if k' = k then v' = v else (k', v') \<in> set d)"
  by (auto simp: dict_entry_get)

lemma dict_set_values:
  assumes "\<forall>(k, v) \<in> set d. P k v" and "P k v" and "dict_ok d"
  shows "\<forall>(k, v) \<in> set (dict_set d k v). P k v"
  using assms by (auto simp: dict_set_entries split: if_splits)

text \<open>Sums over a dictionary, and how an update changes them.\<close>

definition dict_sum :: "('k \<Rightarrow> 'v \<Rightarrow> 'a::comm_monoid_add) \<Rightarrow> ('k, 'v) dict \<Rightarrow> 'a" where
  "dict_sum f d = (\<Sum>(k, v) \<leftarrow> d. f k v)"

lemma dict_sum_simps [simp]:
  "dict_sum f [] = 0"
  "dict_sum f ((k, v) # d) = f k v + dict_sum f d"
  by (simp_all add: dict_sum_def)

lemma dict_sum_set_new: "dict_get d k = None \<Longrightarrow> dict_sum f (dict_set d k v) = dict_sum f d + f k v"
  by (induction d) (auto split: if_splits simp: ac_simps)

lemma dict_sum_set_old:
  fixes f :: "'k \<Rightarrow> 'v \<Rightarrow> 'a::ab_group_add"
  shows "dict_ok d \<Longrightarrow> dict_get d k = Some w \<Longrightarrow>
    dict_sum f (dict_set d k v) = dict_sum f d - f k w + f k v"
  by (induction d) (auto simp: dict_ok_def ac_simps algebra_simps split: if_splits)

lemma dict_sum_set:
  fixes f :: "'k \<Rightarrow> 'v \<Rightarrow> 'a::ab_group_add"
  assumes "dict_ok d"
  shows "dict_sum f (dict_set d k v) =
    dict_sum f d - (case dict_get d k of None \<Rightarrow> 0 | Some w \<Rightarrow> f k w) + f k v"
  using assms by (cases "dict_get d k") (simp_all add: dict_sum_set_new dict_sum_set_old)

lemma dict_sum_cong: "(\<And>k v. (k, v) \<in> set d \<Longrightarrow> f k v = g k v) \<Longrightarrow> dict_sum f d = dict_sum g d"
  by (induction d) auto

lemma dict_sum_nonneg:
  fixes f :: "'k \<Rightarrow> 'v \<Rightarrow> 'a::ordered_comm_monoid_add"
  shows "(\<And>k v. (k, v) \<in> set d \<Longrightarrow> 0 \<le> f k v) \<Longrightarrow> 0 \<le> dict_sum f d"
  by (induction d) auto

lemma dict_sum_ge:
  fixes f :: "'k \<Rightarrow> 'v \<Rightarrow> 'a::ordered_ab_group_add"
  assumes "\<And>k v. (k, v) \<in> set d \<Longrightarrow> 0 \<le> f k v" and "(k, v) \<in> set d"
  shows "f k v \<le> dict_sum f d"
  using assms
proof (induction d)
  case Nil
  then show ?case by simp
next
  case (Cons p d)
  obtain k' v' where p: "p = (k', v')" by force
  show ?case
  proof (cases "(k, v) = p")
    case True
    have "0 \<le> dict_sum f d" by (rule dict_sum_nonneg) (use Cons.prems in auto)
    with True p show ?thesis by simp
  next
    case False
    with Cons have "f k v \<le> dict_sum f d" by auto
    moreover have "0 \<le> f k' v'" using Cons.prems p by auto
    ultimately show ?thesis using p by (simp add: add_increasing)
  qed
qed

section \<open>Strings\<close>

definition whitespace :: "char list" where
  "whitespace = [CHR '' '', CHR 0x09, CHR 0x0A, CHR 0x0B, CHR 0x0C, CHR 0x0D,
     CHR 0x1C, CHR 0x1D, CHR 0x1E, CHR 0x1F]"

definition is_space :: "char \<Rightarrow> bool" where
  "is_space c \<longleftrightarrow> c \<in> set whitespace"

text \<open>\<^verbatim>\<open>str.strip()\<close>.\<close>

definition strip :: "string \<Rightarrow> string" where
  "strip s = rev (dropWhile is_space (rev (dropWhile is_space s)))"

definition case_table :: "(char \<times> char) list" where
  "case_table = zip ''abcdefghijklmnopqrstuvwxyz'' ''ABCDEFGHIJKLMNOPQRSTUVWXYZ''"

definition upper_char :: "char \<Rightarrow> char" where
  "upper_char c = (case map_of case_table c of None \<Rightarrow> c | Some d \<Rightarrow> d)"

definition lower_char :: "char \<Rightarrow> char" where
  "lower_char c = (case map_of (map prod.swap case_table) c of None \<Rightarrow> c | Some d \<Rightarrow> d)"

text \<open>\<^verbatim>\<open>str.upper()\<close> and \<^verbatim>\<open>str.lower()\<close> (\<^verbatim>\<open>casefold\<close> on ASCII).\<close>

definition upper :: "string \<Rightarrow> string" where
  "upper s = map upper_char s"

definition lower :: "string \<Rightarrow> string" where
  "lower s = map lower_char s"

lemma case_table_upper: "list_all (\<lambda>p. map_of case_table (snd p) = None) case_table"
  by code_simp

lemma case_table_lower:
  "list_all (\<lambda>p. map_of (map prod.swap case_table) (snd p) = None) (map prod.swap case_table)"
  by code_simp

lemma case_table_space: "list_all (\<lambda>p. \<not> is_space (fst p) \<and> \<not> is_space (snd p)) case_table"
  by code_simp

lemma upper_char_idem: "upper_char (upper_char c) = upper_char c"
proof (cases "map_of case_table c")
  case None
  then show ?thesis by (simp add: upper_char_def)
next
  case (Some d)
  then have "(c, d) \<in> set case_table" by (rule map_of_SomeD)
  then have "map_of case_table d = None"
    using case_table_upper by (auto simp: list_all_iff)
  with Some show ?thesis by (simp add: upper_char_def)
qed

lemma lower_char_idem: "lower_char (lower_char c) = lower_char c"
proof (cases "map_of (map prod.swap case_table) c")
  case None
  then show ?thesis by (simp add: lower_char_def)
next
  case (Some d)
  then have "(c, d) \<in> set (map prod.swap case_table)" by (rule map_of_SomeD)
  then have "map_of (map prod.swap case_table) d = None"
    using case_table_lower unfolding list_all_iff by fastforce
  with Some show ?thesis by (simp add: lower_char_def)
qed

lemma upper_idem [simp]: "upper (upper s) = upper s"
  by (simp add: upper_def upper_char_idem)

lemma lower_idem [simp]: "lower (lower s) = lower s"
  by (simp add: lower_def lower_char_idem)

lemma is_space_upper [simp]: "is_space (upper_char c) = is_space c"
proof (cases "map_of case_table c")
  case None
  then show ?thesis by (simp add: upper_char_def)
next
  case (Some d)
  then have "(c, d) \<in> set case_table" by (rule map_of_SomeD)
  then have "\<not> is_space c \<and> \<not> is_space d"
    using case_table_space by (auto simp: list_all_iff)
  with Some show ?thesis by (simp add: upper_char_def)
qed

lemma dropWhile_space_upper:
  "dropWhile is_space (map upper_char s) = map upper_char (dropWhile is_space s)"
  by (induction s) auto

lemma strip_upper: "strip (upper s) = upper (strip s)"
  by (simp add: strip_def upper_def dropWhile_space_upper rev_map)

lemma strip_idem [simp]: "strip (strip s) = strip s"
proof -
  define t where "t = dropWhile is_space s"
  define u where "u = dropWhile is_space (rev t)"
  have u: "u = [] \<or> \<not> is_space (hd u)"
    unfolding u_def by (metis hd_dropWhile)
  have "dropWhile is_space (rev u) = rev u"
  proof (cases "rev u")
    case (Cons c cs)
    have "t \<noteq> []" using Cons u_def by auto
    have "\<exists>v. t = rev u @ v"
      unfolding u_def by (metis rev_append rev_rev_ident takeWhile_dropWhile_id)
    then obtain v where "t = rev u @ v" by blast
    with Cons have "hd t = c" by simp
    moreover have "\<not> is_space (hd t)"
      using \<open>t \<noteq> []\<close> unfolding t_def by (metis hd_dropWhile)
    ultimately show ?thesis using Cons by simp
  qed simp
  then have "strip (rev u) = rev u"
    using u by (cases u) (auto simp: strip_def)
  then show ?thesis by (simp add: strip_def u_def t_def)
qed

definition contains :: "string \<Rightarrow> string \<Rightarrow> bool" where
  "contains needle hay \<longleftrightarrow> (\<exists>i \<in> set [0..<Suc (length hay)]. take (length needle) (drop i hay) = needle)"

section \<open>Timestamps\<close>

text \<open>
  A \<^verbatim>\<open>datetime\<close>: \<open>dt_micros\<close> is the UTC instant in microseconds of an aware value (the
  wall clock of a naive one) and \<open>dt_offset\<close> its UTC offset in microseconds, \<open>None\<close> when
  naive. Aware values compare by instant whatever their offsets. A \<^verbatim>\<open>date\<close> is its ordinal
  day, a \<^verbatim>\<open>timedelta\<close> its microseconds.
\<close>

record datetime =
  dt_micros :: int
  dt_offset :: "int option"

type_synonym date = int
type_synonym timedelta = int

definition dt_aware :: "datetime \<Rightarrow> bool" where
  "dt_aware d \<longleftrightarrow> dt_offset d \<noteq> None"

definition dt_eq :: "datetime \<Rightarrow> datetime \<Rightarrow> bool" where
  "dt_eq a b \<longleftrightarrow> dt_micros a = dt_micros b \<and> dt_aware a = dt_aware b"

definition seconds :: "int \<Rightarrow> timedelta" where
  "seconds n = n * 1000000"

definition to_utc :: "datetime \<Rightarrow> datetime" where
  "to_utc d = \<lparr>dt_micros = dt_micros d, dt_offset = Some 0\<rparr>"

lemma dt_eq_refl [simp]: "dt_eq a a"
  by (simp add: dt_eq_def)

lemma dt_eq_sym: "dt_eq a b \<Longrightarrow> dt_eq b a"
  by (simp add: dt_eq_def)

lemma dt_eq_trans: "dt_eq a b \<Longrightarrow> dt_eq b c \<Longrightarrow> dt_eq a c"
  by (simp add: dt_eq_def)

end
