(* ===== verification/Decimals.thy ===== *)
theory Decimals
  imports Prelude
begin

text \<open>
  Python's \<^verbatim>\<open>decimal.Decimal\<close> under the default context (28 significant digits,
  ROUND_HALF_EVEN) as the code uses it. A finite decimal is its rational value; comparisons are
  exact; \<open>ctx\<close> rounds the exact result of an arithmetic operation to 28 significant digits,
  and \<open>quantize\<close> rounds to a fixed number of places, raising InvalidOperation when the
  coefficient would need more than 28 digits. Not modelled: the sign of zero, trailing zeros, and
  the exponent range (results beyond \<open>10^999999\<close>).
\<close>

type_synonym decimal = rat

section \<open>Rounding to an integer\<close>

definition round_half_even :: "rat \<Rightarrow> int" where
  "round_half_even x =
     (let f = \<lfloor>x\<rfloor>; d = x - of_int f
      in if d < 1 / 2 then f else if 1 / 2 < d then f + 1 else if even f then f else f + 1)"

definition round_down :: "rat \<Rightarrow> int" where
  "round_down x = (if x < 0 then - \<lfloor>- x\<rfloor> else \<lfloor>x\<rfloor>)"

definition round_half_up :: "rat \<Rightarrow> int" where
  "round_half_up x = (if x < 0 then - \<lfloor>1 / 2 - x\<rfloor> else \<lfloor>x + 1 / 2\<rfloor>)"

text \<open>The contract of a rounding mode.\<close>

locale rounding_mode =
  fixes rnd :: "rat \<Rightarrow> int"
  assumes rnd_mono: "x \<le> y \<Longrightarrow> rnd x \<le> rnd y"
    and rnd_of_int: "rnd (of_int n) = n"
begin

lemma rnd_ge: "of_int n \<le> x \<Longrightarrow> n \<le> rnd x"
  using rnd_mono [of "of_int n" x] by (simp add: rnd_of_int)

lemma rnd_le: "x \<le> of_int n \<Longrightarrow> rnd x \<le> n"
  using rnd_mono [of x "of_int n"] by (simp add: rnd_of_int)

lemma rnd_floor: "\<lfloor>x\<rfloor> \<le> rnd x"
  by (rule rnd_ge) simp

lemma rnd_ceiling: "rnd x \<le> \<lceil>x\<rceil>"
  by (rule rnd_le) simp

lemma rnd_error: "\<bar>of_int (rnd x) - x\<bar> < 1"
proof -
  have "\<lceil>x\<rceil> \<le> \<lfloor>x\<rfloor> + 1" by (simp add: ceiling_altdef)
  then have a: "x - 1 < of_int (rnd x)" "of_int (rnd x) < x + 1"
    using rnd_floor [of x] rnd_ceiling [of x] by linarith+
  then show ?thesis by (simp add: abs_less_iff)
qed

end

lemma floor_add_one_le: "x \<le> (y::rat) \<Longrightarrow> \<lfloor>x\<rfloor> \<noteq> \<lfloor>y\<rfloor> \<Longrightarrow> \<lfloor>x\<rfloor> + 1 \<le> \<lfloor>y\<rfloor>"
  using floor_mono [of x y] by linarith

lemma round_half_even_bounds: "\<lfloor>x\<rfloor> \<le> round_half_even x \<and> round_half_even x \<le> \<lfloor>x\<rfloor> + 1"
  by (simp add: round_half_even_def Let_def)

interpretation half_even: rounding_mode round_half_even
proof
  fix x y :: rat
  assume le: "x \<le> y"
  show "round_half_even x \<le> round_half_even y"
  proof (cases "\<lfloor>x\<rfloor> = \<lfloor>y\<rfloor>")
    case True
    with le show ?thesis by (simp add: round_half_even_def Let_def)
  next
    case False
    with le have "\<lfloor>x\<rfloor> + 1 \<le> \<lfloor>y\<rfloor>" by (rule floor_add_one_le)
    then show ?thesis using round_half_even_bounds [of x] round_half_even_bounds [of y] by linarith
  qed
next
  fix n :: int
  show "round_half_even (of_int n) = n" by (simp add: round_half_even_def)
qed

interpretation down: rounding_mode round_down
proof
  fix x y :: rat
  assume le: "x \<le> y"
  have "0 \<le> \<lfloor>- x\<rfloor>" if "x < 0" using that by simp
  then show "round_down x \<le> round_down y"
    using le floor_mono [of x y] floor_mono [of "- y" "- x"]
    by (auto simp: round_down_def) (use zero_le_floor [of y] in linarith)
next
  fix n :: int
  show "round_down (of_int n) = n" by (simp add: round_down_def)
qed

interpretation half_up: rounding_mode round_half_up
proof
  fix x y :: rat
  assume le: "x \<le> y"
  have a: "x < 0 \<Longrightarrow> 0 \<le> \<lfloor>1 / 2 - x\<rfloor>" "\<not> y < 0 \<Longrightarrow> 0 \<le> \<lfloor>y + 1 / 2\<rfloor>"
    by simp_all
  have b: "\<lfloor>x + 1 / 2\<rfloor> \<le> \<lfloor>y + 1 / 2\<rfloor>" "\<lfloor>1 / 2 - y\<rfloor> \<le> \<lfloor>1 / 2 - x\<rfloor>"
    using le by (simp_all add: floor_mono)
  show "round_half_up x \<le> round_half_up y"
  proof (cases "x < 0 \<and> \<not> y < 0")
    case True
    then have "round_half_up x \<le> 0" "0 \<le> round_half_up y"
      using a by (auto simp: round_half_up_def)
    then show ?thesis by linarith
  next
    case False
    with b le show ?thesis by (auto simp: round_half_up_def)
  qed
next
  fix n :: int
  have "\<lfloor>of_int n + 1 / 2 :: rat\<rfloor> = n" "\<lfloor>1 / 2 - of_int n :: rat\<rfloor> = - n"
    by (simp_all add: floor_eq_iff)
  then show "round_half_up (of_int n) = n" by (simp add: round_half_up_def)
qed

lemma round_half_even_error: "\<bar>of_int (round_half_even x) - x\<bar> \<le> 1 / 2"
proof -
  obtain f where f: "\<lfloor>x\<rfloor> = f" by blast
  then have "of_int f \<le> x" "x < of_int f + 1" by linarith+
  then show ?thesis by (auto simp: round_half_even_def Let_def f abs_if)
qed

lemma round_half_even_minus: "round_half_even (- x) = - round_half_even x"
proof (cases "x = of_int \<lfloor>x\<rfloor>")
  case True
  then show ?thesis
    by (metis half_even.rnd_of_int of_int_minus)
next
  case False
  then have "\<lfloor>- x\<rfloor> = - \<lfloor>x\<rfloor> - 1"
    unfolding floor_eq_iff of_int_diff of_int_minus of_int_1
    using floor_correct [of x] by linarith
  then show ?thesis unfolding round_half_even_def Let_def by auto
qed

lemma round_down_nonneg: "0 \<le> x \<Longrightarrow> of_int (round_down x) \<le> x"
  by (simp add: round_down_def)

section \<open>The adjusted exponent\<close>

fun ndigits :: "nat \<Rightarrow> nat" where
  "ndigits n = (if n = 0 then 0 else Suc (ndigits (n div 10)))"

declare ndigits.simps [simp del]

lemma ndigits_bounds: "0 < n \<Longrightarrow> 10 ^ (ndigits n - 1) \<le> n \<and> n < 10 ^ ndigits n \<and> 0 < ndigits n"
proof (induction n rule: ndigits.induct)
  case (1 n)
  show ?case
  proof (cases "n div 10 = 0")
    case True
    then have "ndigits n = 1" using "1.prems" by (simp add: ndigits.simps)
    with True "1.prems" show ?thesis by simp
  next
    case False
    define k where "k = ndigits (n div 10)"
    have IH: "10 ^ (k - 1) \<le> n div 10 \<and> n div 10 < 10 ^ k \<and> 0 < k"
      unfolding k_def using "1.IH" "1.prems" False by simp
    have k: "ndigits n = Suc k" using "1.prems" by (simp add: ndigits.simps k_def)
    from IH obtain j where j: "k = Suc j" by (cases k) auto
    from IH j have "10 ^ j \<le> n div 10" "n div 10 < 10 ^ k" by auto
    then have "10 ^ k \<le> n" "n < 10 ^ Suc k" unfolding j by simp_all
    with k show ?thesis by simp
  qed
qed

text \<open>\<^verbatim>\<open>Decimal.adjusted()\<close>: the exponent of the leading digit.\<close>

definition adjusted :: "rat \<Rightarrow> int" where
  "adjusted x =
     (let y = \<bar>x\<bar>
      in if 1 \<le> y then int (ndigits (nat \<lfloor>y\<rfloor>)) - 1
         else - int (ndigits (nat (\<lceil>1 / y\<rceil> - 1))))"

text \<open>The same on binary integers, for evaluation.\<close>

function idigits :: "int \<Rightarrow> int" where
  "idigits k = (if k \<le> 0 then 0 else 1 + idigits (k div 10))"
  by pat_completeness auto
termination by (relation "measure nat") auto

declare idigits.simps [simp del]

lemma idigits_ndigits: "int (ndigits (nat k)) = idigits k"
proof (induction k rule: idigits.induct)
  case (1 k)
  show ?case
  proof (cases "k \<le> 0")
    case True
    then show ?thesis by (simp add: idigits.simps [of k] ndigits.simps [of 0])
  next
    case False
    then have "nat k div 10 = nat (k div 10)" by (simp add: nat_div_distrib)
    then show ?thesis
      using False 1 by (simp add: idigits.simps [of k] ndigits.simps [of "nat k"])
  qed
qed

lemma adjusted_code [code]:
  "adjusted x =
     (let y = \<bar>x\<bar> in if 1 \<le> y then idigits \<lfloor>y\<rfloor> - 1 else - idigits (\<lceil>1 / y\<rceil> - 1))"
  by (simp only: adjusted_def idigits_ndigits)

definition pow10 :: "int \<Rightarrow> rat" where
  "pow10 k = (if 0 \<le> k then 10 ^ nat k else 1 / 10 ^ nat (- k))"

lemma pow10_powi: "pow10 k = 10 powi k"
  by (simp add: pow10_def power_int_def field_simps)

lemma pow10_pos [simp]: "0 < pow10 k"
  by (simp add: pow10_powi)

lemma pow10_nz [simp]: "pow10 k \<noteq> 0"
  using pow10_pos [of k] by linarith

lemma pow10_add: "pow10 (a + b) = pow10 a * pow10 b"
  by (simp add: pow10_powi power_int_add)

lemma pow10_of_nat: "pow10 (int n) = 10 ^ n"
  by (simp add: pow10_def)

lemma pow10_neg: "pow10 (- int n) = 1 / 10 ^ n"
  by (simp add: pow10_powi power_int_minus divide_inverse)

lemma pow10_mono: "a \<le> b \<Longrightarrow> pow10 a \<le> pow10 b"
  by (simp add: pow10_powi power_int_increasing)

lemma pow10_less: "pow10 a < pow10 b \<Longrightarrow> a < b"
  by (meson linorder_not_less pow10_mono)

lemma pow10_int: "0 \<le> k \<Longrightarrow> \<exists>n::int. pow10 k = of_int n"
  by (rule exI [of _ "10 ^ nat k"]) (simp add: pow10_def)

lemma of_nat_ge_pow10: "10 ^ k \<le> n \<Longrightarrow> (10::rat) ^ k \<le> of_nat n"
proof -
  assume "10 ^ k \<le> n"
  then have "(of_nat (10 ^ k) :: rat) \<le> of_nat n" by (simp only: of_nat_le_iff)
  then show ?thesis by simp
qed

lemma of_nat_less_pow10: "n < 10 ^ k \<Longrightarrow> of_nat n + 1 \<le> (10::rat) ^ k"
proof -
  assume "n < 10 ^ k"
  then have "(of_nat (Suc n) :: rat) \<le> of_nat (10 ^ k)" by (simp only: of_nat_le_iff Suc_le_eq)
  then show ?thesis by (simp add: add.commute)
qed

lemma adjusted_bounds:
  assumes "x \<noteq> 0"
  shows "pow10 (adjusted x) \<le> \<bar>x\<bar> \<and> \<bar>x\<bar> < pow10 (adjusted x + 1)"
proof (cases "1 \<le> \<bar>x\<bar>")
  case True
  define n where "n = nat \<lfloor>\<bar>x\<bar>\<rfloor>"
  have "1 \<le> \<lfloor>\<bar>x\<bar>\<rfloor>" using True by (simp only: one_le_floor)
  then have f: "of_nat n = (of_int \<lfloor>\<bar>x\<bar>\<rfloor> :: rat)" "0 < n"
    unfolding n_def by (simp_all only: of_nat_nat zero_less_nat_eq)
  have e: "adjusted x = int (ndigits n) - 1" using True by (simp add: adjusted_def n_def)
  obtain k where k: "ndigits n = Suc k" using ndigits_bounds [OF f(2)] by (cases "ndigits n") auto
  have b: "10 ^ k \<le> n" "n < 10 ^ Suc k" using ndigits_bounds [OF f(2)] k by auto
  have "(10::rat) ^ k \<le> of_nat n" using b(1) by (rule of_nat_ge_pow10)
  then have lo: "10 ^ k \<le> \<bar>x\<bar>" using f(1) of_int_floor_le [of "\<bar>x\<bar>"] by linarith
  have "of_nat n + 1 \<le> (10::rat) ^ Suc k" using b(2) by (rule of_nat_less_pow10)
  then have hi: "\<bar>x\<bar> < 10 ^ Suc k" using f(1) floor_correct [of "\<bar>x\<bar>"] by linarith
  have "adjusted x = int k" "adjusted x + 1 = int (Suc k)" using e k by simp_all
  with lo hi show ?thesis by (simp only: pow10_of_nat)
next
  case False
  define y where "y = 1 / \<bar>x\<bar>"
  have y: "1 < y" "\<bar>x\<bar> = 1 / y" using False assms by (simp_all add: y_def)
  define n where "n = nat (\<lceil>y\<rceil> - 1)"
  have "2 \<le> \<lceil>y\<rceil>" using y(1) by (simp add: le_ceiling_iff)
  then have f: "of_nat n = (of_int \<lceil>y\<rceil> - 1 :: rat)" "0 < n" by (simp_all add: n_def)
  have e: "adjusted x = - int (ndigits n)" using False by (simp add: adjusted_def n_def y_def)
  obtain k where k: "ndigits n = Suc k" using ndigits_bounds [OF f(2)] by (cases "ndigits n") auto
  have b: "10 ^ k \<le> n" "n < 10 ^ Suc k" using ndigits_bounds [OF f(2)] k by auto
  have "(10::rat) ^ k \<le> of_nat n" using b(1) by (rule of_nat_ge_pow10)
  then have hi: "10 ^ k < y" using f(1) ceiling_correct [of y] by linarith
  have "of_nat n + 1 \<le> (10::rat) ^ Suc k" using b(2) by (rule of_nat_less_pow10)
  then have lo: "y \<le> 10 ^ Suc k" using f(1) ceiling_correct [of y] by linarith
  have "adjusted x = - int (Suc k)" "adjusted x + 1 = - int k" using e k by simp_all
  then have "pow10 (adjusted x) = 1 / 10 ^ Suc k" "pow10 (adjusted x + 1) = 1 / 10 ^ k"
    by (simp_all only: pow10_neg)
  moreover have "1 / 10 ^ Suc k \<le> 1 / y" using lo y(1) by (intro divide_left_mono) auto
  moreover have "1 / y < 1 / 10 ^ k" using hi y(1) by (intro divide_strict_left_mono) auto
  ultimately show ?thesis using y(2) by simp
qed

lemma adjusted_mono: "x \<noteq> 0 \<Longrightarrow> \<bar>x\<bar> \<le> \<bar>y\<bar> \<Longrightarrow> adjusted x \<le> adjusted y"
proof -
  assume x: "x \<noteq> 0" and le: "\<bar>x\<bar> \<le> \<bar>y\<bar>"
  then have "pow10 (adjusted x) < pow10 (adjusted y + 1)"
    using adjusted_bounds [of x] adjusted_bounds [of y] by fastforce
  then show ?thesis using pow10_less by fastforce
qed

section \<open>Arithmetic under the default context\<close>

definition ctx :: "rat \<Rightarrow> decimal" where
  "ctx x =
     (if x = 0 then 0
      else let q = pow10 (adjusted x - 27) in of_int (round_half_even (x / q)) * q)"

definition dec_add :: "decimal \<Rightarrow> decimal \<Rightarrow> decimal" where
  "dec_add a b = ctx (a + b)"

definition dec_sub :: "decimal \<Rightarrow> decimal \<Rightarrow> decimal" where
  "dec_sub a b = ctx (a - b)"

definition dec_mul :: "decimal \<Rightarrow> decimal \<Rightarrow> decimal" where
  "dec_mul a b = ctx (a * b)"

definition dec_neg :: "decimal \<Rightarrow> decimal" where
  "dec_neg a = ctx (- a)"

definition dec_div :: "decimal \<Rightarrow> decimal \<Rightarrow> decimal result" where
  "dec_div a b =
     (if b = 0 then Inl (if a = 0 then InvalidOperation else DivisionByZero)
      else Inr (ctx (a / b)))"

text \<open>
  \<^verbatim>\<open>Decimal.next_minus()\<close>: the largest 28-digit decimal below \<open>x\<close>; below zero it is the
  smallest subnormal of the context.
\<close>

definition next_minus :: "decimal \<Rightarrow> decimal" where
  "next_minus x =
     (if x = 0 then - (1 / 10 ^ 1000026)
      else let q = pow10 (adjusted x - 27); y = x / q; n = \<lfloor>y\<rfloor>
           in if of_int n \<noteq> y then of_int n * q
              else if n = 10 ^ 27 then x - q / 10
              else of_int (n - 1) * q)"

text \<open>
  \<^verbatim>\<open>x.quantize(Decimal("1e-k"), rounding=...)\<close>.
\<close>

definition quantize :: "(rat \<Rightarrow> int) \<Rightarrow> nat \<Rightarrow> rat \<Rightarrow> decimal result" where
  "quantize rnd k x =
     (let n = rnd (x * 10 ^ k)
      in if \<bar>n\<bar> < 10 ^ 28 then Inr (of_int n / 10 ^ k) else Inl InvalidOperation)"

text \<open>For evaluation: a multiple of the step needs no rational arithmetic.\<close>

lemma grid_numerator:
  assumes "quotient_of x = (a, b)" and "10 ^ k mod b = 0"
  shows "x * 10 ^ k = of_int (a * (10 ^ k div b))"
proof -
  have x: "x = of_int a / of_int b" "0 < b"
    using quotient_of_div [OF assms(1)] quotient_of_denom_pos [OF assms(1)] by simp_all
  have "b * (10 ^ k div b) = 10 ^ k" using assms(2) by (intro dvd_mult_div_cancel) (simp add: dvd_eq_mod_eq_0)
  then have r: "(of_int b :: rat) * of_int (10 ^ k div b) = 10 ^ k" by (metis of_int_mult of_int_numeral of_int_power)
  show ?thesis unfolding r [symmetric] using x by simp
qed

lemma quantize_code [code]:
  "quantize rnd k x = (case quotient_of x of (a, b) \<Rightarrow>
     if 10 ^ k mod b = 0
     then let m = a * (10 ^ k div b); n = rnd (of_int m)
          in if \<bar>n\<bar> < 10 ^ 28 then Inr (if n = m then x else of_int n / 10 ^ k) else Inl InvalidOperation
     else let n = rnd (x * 10 ^ k)
          in if \<bar>n\<bar> < 10 ^ 28 then Inr (of_int n / 10 ^ k) else Inl InvalidOperation)"
proof -
  obtain a b where q: "quotient_of x = (a, b)" by (cases "quotient_of x")
  show ?thesis
  proof (cases "10 ^ k mod b = 0")
    case True
    then have m: "x * 10 ^ k = of_int (a * (10 ^ k div b))" by (rule grid_numerator [OF q])
    then have "of_int (a * (10 ^ k div b)) / 10 ^ k = x" by (simp add: field_simps flip: m)
    then show ?thesis using True q m by (simp add: quantize_def Let_def)
  qed (simp add: q quantize_def)
qed

text \<open>A monotone map on decimals that fixes zero: what every rounding step is.\<close>

locale decimal_rounding =
  fixes r :: "rat \<Rightarrow> rat"
  assumes r_mono: "x \<le> y \<Longrightarrow> r x \<le> r y"
    and r_zero: "r 0 = 0"
begin

lemma r_nonneg: "0 \<le> x \<Longrightarrow> 0 \<le> r x"
  using r_mono [of 0 x] by (simp add: r_zero)

lemma r_nonpos: "x \<le> 0 \<Longrightarrow> r x \<le> 0"
  using r_mono [of x 0] by (simp add: r_zero)

lemma r_le_fixed: "r y = y \<Longrightarrow> x \<le> y \<Longrightarrow> r x \<le> y"
  using r_mono [of x y] by simp

lemma r_ge_fixed: "r y = y \<Longrightarrow> y \<le> x \<Longrightarrow> y \<le> r x"
  using r_mono [of y x] by simp

end

lemma ctx_zero [simp]: "ctx 0 = 0"
  by (simp add: ctx_def)

lemma adjusted_minus [simp]: "adjusted (- x) = adjusted x"
  by (simp add: adjusted_def)

lemma ctx_minus: "ctx (- x) = - ctx x"
  by (simp add: ctx_def Let_def round_half_even_minus)

lemma pow10_scaled: "pow10 (e - 27) * 10 ^ 27 = pow10 e" "pow10 (e - 27) * 10 ^ 28 = pow10 (e + 1)"
  by (simp_all add: pow10_powi power_int_diff power_int_add)

lemma scaled_bounds:
  assumes "0 < x"
  shows "10 ^ 27 \<le> x / pow10 (adjusted x - 27) \<and> x / pow10 (adjusted x - 27) < 10 ^ 28"
proof -
  have "pow10 (adjusted x) \<le> x \<and> x < pow10 (adjusted x + 1)"
    using adjusted_bounds [of x] assms by simp
  then have "pow10 (adjusted x - 27) * 10 ^ 27 \<le> x \<and> x < pow10 (adjusted x - 27) * 10 ^ 28"
    unfolding pow10_scaled .
  then show ?thesis
    unfolding pos_le_divide_eq [OF pow10_pos] pos_divide_less_eq [OF pow10_pos]
      mult.commute [of _ "pow10 (adjusted x - 27)"] .
qed

lemma ctx_decade:
  assumes "0 < x"
  shows "pow10 (adjusted x) \<le> ctx x \<and> ctx x \<le> pow10 (adjusted x + 1)"
proof -
  define q where "q = pow10 (adjusted x - 27)"
  define n where "n = round_half_even (x / q)"
  have b: "of_int (10 ^ 27) \<le> x / q" "x / q \<le> of_int (10 ^ 28)"
    using scaled_bounds [OF assms] by (simp_all add: q_def)
  have "10 ^ 27 \<le> n" unfolding n_def by (rule half_even.rnd_ge) (rule b(1))
  then have lo: "(10::rat) ^ 27 \<le> of_int n" by (metis of_int_le_iff of_int_numeral of_int_power)
  have "n \<le> 10 ^ 28" unfolding n_def by (rule half_even.rnd_le) (rule b(2))
  then have hi: "of_int n \<le> (10::rat) ^ 28" by (metis of_int_le_iff of_int_numeral of_int_power)
  have c: "ctx x = q * of_int n" using assms by (simp add: ctx_def Let_def q_def n_def)
  have "0 < q" by (simp add: q_def)
  then have "q * 10 ^ 27 \<le> q * of_int n" "q * of_int n \<le> q * 10 ^ 28"
    using lo hi by (auto intro: mult_left_mono)
  then show ?thesis unfolding c q_def pow10_scaled by (rule conjI)
qed

lemma ctx_pos: "0 < x \<Longrightarrow> 0 < ctx x"
  using ctx_decade [of x] pow10_pos [of "adjusted x"] by linarith

lemma ctx_mono_pos:
  assumes "0 < x" and "x \<le> y"
  shows "ctx x \<le> ctx y"
proof (cases "adjusted x = adjusted y")
  case True
  have "x / pow10 (adjusted x - 27) \<le> y / pow10 (adjusted x - 27)"
    using assms by (simp add: divide_right_mono less_imp_le)
  then show ?thesis
    using assms True by (simp add: ctx_def Let_def half_even.rnd_mono less_imp_le mult_right_mono)
next
  case False
  with adjusted_mono [of x y] assms have "adjusted x + 1 \<le> adjusted y" by simp
  then have "pow10 (adjusted x + 1) \<le> pow10 (adjusted y)" by (rule pow10_mono)
  moreover have "ctx x \<le> pow10 (adjusted x + 1)" using ctx_decade assms by blast
  moreover have "pow10 (adjusted y) \<le> ctx y" using ctx_decade [of y] assms by simp
  ultimately show ?thesis by linarith
qed

lemma ctx_mono: "x \<le> y \<Longrightarrow> ctx x \<le> ctx y"
proof -
  assume le: "x \<le> y"
  consider "0 < x" | "x = 0" | "x < 0" "0 \<le> y" | "x < 0" "y < 0" by linarith
  then show ?thesis
  proof cases
    case 1
    then show ?thesis using le by (rule ctx_mono_pos)
  next
    case 2
    then show ?thesis using le ctx_pos [of y] by (cases "y = 0") auto
  next
    case 3
    then have "ctx x < 0" using ctx_pos [of "- x"] by (simp add: ctx_minus)
    moreover have "0 \<le> ctx y" using 3 ctx_pos [of y] by (cases "y = 0") auto
    ultimately show ?thesis by linarith
  next
    case 4
    then show ?thesis using ctx_mono_pos [of "- y" "- x"] le by (simp add: ctx_minus)
  qed
qed

interpretation ctx_round: decimal_rounding ctx
  by unfold_locales (auto intro: ctx_mono)

text \<open>Values of at most 28 significant digits are left alone.\<close>

definition fits28 :: "rat \<Rightarrow> bool" where
  "fits28 x \<longleftrightarrow> (\<exists>n k. \<bar>n\<bar> \<le> 10 ^ 28 \<and> x = of_int n * pow10 k)"

lemma ctx_exact_pos:
  assumes "x = of_int n * pow10 k" and "0 < n" and "n < 10 ^ 28"
  shows "ctx x = x"
proof -
  have x: "0 < x" using assms by simp
  have "of_int n < (10::rat) ^ 28"
    using assms(3) by (metis of_int_less_iff of_int_numeral of_int_power)
  then have "x < 10 ^ 28 * pow10 k" using assms(1) by simp
  also have "\<dots> = pow10 (28 + k)" by (simp add: pow10_powi power_int_add)
  finally have "pow10 (adjusted x) < pow10 (28 + k)" using adjusted_bounds [of x] x by simp
  then have "adjusted x < 28 + k" by (rule pow10_less)
  then have "0 \<le> k - (adjusted x - 27)" by simp
  then obtain m where m: "pow10 (k - (adjusted x - 27)) = of_int m" using pow10_int by blast
  define q where "q = pow10 (adjusted x - 27)"
  have "pow10 k = q * of_int m"
    unfolding q_def m [symmetric] pow10_add [symmetric] by simp
  moreover have "q \<noteq> 0" by (simp add: q_def)
  ultimately have xq: "x / q = of_int (n * m)" "of_int (n * m) * q = x"
    using assms(1) by simp_all
  have "ctx x = of_int (n * m) * q"
    unfolding ctx_def Let_def q_def [symmetric] xq(1) half_even.rnd_of_int using x by simp
  also have "\<dots> = x" by (rule xq(2))
  finally show ?thesis .
qed

lemma ctx_exact: "fits28 x \<Longrightarrow> ctx x = x"
proof -
  assume "fits28 x"
  then obtain n k where n: "\<bar>n\<bar> \<le> 10 ^ 28" "x = of_int n * pow10 k" by (auto simp: fits28_def)
  have step: "ctx y = y" if y: "y = of_int m * pow10 k" and m: "0 < m" "m \<le> 10 ^ 28" for y m
  proof (cases "m = 10 ^ 28")
    case True
    then have "y = of_int 1 * pow10 (28 + k)" using y by (simp add: pow10_powi power_int_add)
    then show ?thesis by (rule ctx_exact_pos) simp_all
  next
    case False
    then show ?thesis using y m by (intro ctx_exact_pos) auto
  qed
  consider "n = 0" | "0 < n" | "n < 0" by linarith
  then show ?thesis
  proof cases
    case 1
    then show ?thesis using n by simp
  next
    case 2
    then show ?thesis using step [OF n(2)] n(1) by simp
  next
    case 3
    have "ctx (- x) = - x" by (rule step [of _ "- n"]) (use n 3 in auto)
    then show ?thesis by (simp add: ctx_minus)
  qed
qed

lemma next_minus_bounds:
  assumes "0 < x"
  shows "0 < next_minus x \<and> next_minus x < x"
proof -
  define q where "q = pow10 (adjusted x - 27)"
  define n where "n = \<lfloor>x / q\<rfloor>"
  have q: "0 < q" by (simp add: q_def)
  have "10 ^ 27 \<le> x / q" using scaled_bounds [OF assms] by (simp add: q_def)
  then have n: "10 ^ 27 \<le> n" by (simp add: n_def le_floor_iff)
  then have "(10::rat) ^ 27 \<le> of_int n" by (metis of_int_le_iff of_int_numeral of_int_power)
  then have big: "10 ^ 27 * q \<le> of_int n * q" using q by (simp add: mult_right_mono)
  have le: "of_int n * q \<le> x" using q by (simp add: n_def pos_le_divide_eq [symmetric])
  have eq: "next_minus x = (if of_int n \<noteq> x / q then of_int n * q
      else if n = 10 ^ 27 then x - q / 10 else of_int (n - 1) * q)"
    using assms by (simp add: next_minus_def Let_def q_def n_def)
  show ?thesis
  proof (cases "of_int n = x / q")
    case False
    then have "of_int n * q \<noteq> x" using q by (auto simp: field_simps)
    with le big q eq False show ?thesis by auto
  next
    case True
    then have x: "x = of_int n * q" using q by (simp add: field_simps)
    show ?thesis
    proof (cases "n = 10 ^ 27")
      case False
      then have "1 \<le> n - 1" using n by simp
      then have "0 < of_int (n - 1) * q" using q by (intro mult_pos_pos) auto
      moreover have "of_int (n - 1) * q < x" unfolding x using q by (intro mult_strict_right_mono) auto
      moreover have "next_minus x = of_int (n - 1) * q" using eq True False by metis
      ultimately show ?thesis by simp
    next
      case eq27: True
      have "q / 10 < 10 ^ 27 * q" using q by simp
      then have "q / 10 < x" unfolding x using big by linarith
      moreover have "next_minus x = x - q / 10" using eq True eq27 by metis
      ultimately show ?thesis using q by simp
    qed
  qed
qed

end
