(* ===== verification/Money.thy ===== *)
theory Money
  imports Decimals
begin

text \<open>
  \<open>weatherbot/domain/money.py\<close>: six-decimal amounts, their coercion from Python values, and
  currency-qualified money. \<open>dec6\<close> is the type invariant of every amount that went through
  \<open>as_decimal\<close>; money arithmetic is proved exact or raising, and the unit-price product
  monotone and bounded.
\<close>

section \<open>Coercion of Python values\<close>

text \<open>
  The Python values a decimal field may be given. A finite \<^verbatim>\<open>float\<close> carries its exact
  value and its \<^verbatim>\<open>str()\<close>, an infinity or NaN only the latter.
\<close>

datatype py_value =
    PyBool bool
  | PyFloat decimal string
  | PyFloatSpecial string
  | PyDecimal decimal
  | PyDecimalSpecial
  | PyInt int
  | PyStr string
  | PyOther

definition digit_table :: "(char \<times> nat) list" where
  "digit_table = zip ''0123456789'' [0..<10]"

definition is_digit :: "char \<Rightarrow> bool" where
  "is_digit c \<longleftrightarrow> map_of digit_table c \<noteq> None"

definition digit_value :: "char \<Rightarrow> nat" where
  "digit_value c = (case map_of digit_table c of None \<Rightarrow> 0 | Some n \<Rightarrow> n)"

definition nat_of_digits :: "string \<Rightarrow> nat" where
  "nat_of_digits s = foldl (\<lambda>n c. 10 * n + digit_value c) 0 s"

definition split_sign :: "string \<Rightarrow> bool \<times> string" where
  "split_sign s = (case s of
      [] \<Rightarrow> (False, [])
    | c # r \<Rightarrow> if c = CHR ''-'' then (True, r) else if c = CHR ''+'' then (False, r) else (False, s))"

definition is_special_name :: "string \<Rightarrow> bool" where
  "is_special_name t \<longleftrightarrow>
     (let l = lower t
      in l = ''inf'' \<or> l = ''infinity''
         \<or> (take 3 l = ''nan'' \<and> list_all is_digit (drop 3 l))
         \<or> (take 4 l = ''snan'' \<and> list_all is_digit (drop 4 l)))"

text \<open>
  The constructor \<^verbatim>\<open>Decimal(str)\<close>: \<open>None\<close> where it raises InvalidOperation,
  \<open>Some None\<close> for an infinity or a NaN.
\<close>

definition parse_exponent :: "string \<Rightarrow> int option" where
  "parse_exponent s = (case s of
      [] \<Rightarrow> Some 0
    | c # r \<Rightarrow>
        (let (neg, d) = split_sign r
         in if lower_char c = CHR ''e'' \<and> d \<noteq> [] \<and> list_all is_digit d
            then Some (if neg then - int (nat_of_digits d) else int (nat_of_digits d))
            else None))"

definition parse_decimal :: "string \<Rightarrow> decimal option option" where
  "parse_decimal s =
     (let (neg, t) = split_sign (filter (\<lambda>c. c \<noteq> CHR ''_'') (strip s));
          whole = takeWhile is_digit t;
          rest = dropWhile is_digit t;
          (frac, tail) =
            (case rest of
               [] \<Rightarrow> ([], [])
             | c # r \<Rightarrow> if c = CHR ''.'' then (takeWhile is_digit r, dropWhile is_digit r) else ([], rest))
      in if whole = [] \<and> frac = []
         then (if is_special_name t then Some None else None)
         else (case parse_exponent tail of
             None \<Rightarrow> None
           | Some e \<Rightarrow>
               (let v = of_nat (nat_of_digits (whole @ frac)) * pow10 (e - int (length frac))
                in Some (Some (if neg then - v else v)))))"

fun coerce_decimal :: "py_value \<Rightarrow> decimal result" where
  "coerce_decimal (PyBool _) = Inl (TypeError ''boolean values are not valid decimal amounts'')"
| "coerce_decimal (PyFloat _ _) =
     Inl (TypeError ''binary floating-point values are not valid decimal amounts'')"
| "coerce_decimal (PyFloatSpecial _) =
     Inl (TypeError ''binary floating-point values are not valid decimal amounts'')"
| "coerce_decimal PyOther = Inl (TypeError ''unsupported decimal value type'')"
| "coerce_decimal (PyDecimal x) = Inr x"
| "coerce_decimal PyDecimalSpecial = Inl (ValueError ''invalid decimal value'')"
| "coerce_decimal (PyInt n) = Inr (of_int n)"
| "coerce_decimal (PyStr s) =
     (case parse_decimal s of
        Some (Some x) \<Rightarrow> Inr x
      | _ \<Rightarrow> Inl (ValueError ''invalid decimal value''))"

abbreviation quantize6 :: "rat \<Rightarrow> decimal result" where
  "quantize6 x \<equiv> quantize round_half_even 6 x"

definition as_decimal :: "py_value \<Rightarrow> decimal result" where
  "as_decimal v = rbind (coerce_decimal v) (quantize round_half_even 6)"

lemma as_decimal_Decimal [simp]: "as_decimal (PyDecimal x) = quantize6 x"
  by (simp add: as_decimal_def)

section \<open>The six-decimal grid\<close>

definition on_grid :: "rat \<Rightarrow> bool" where
  "on_grid x \<longleftrightarrow> of_int \<lfloor>x * 10 ^ 6\<rfloor> = x * 10 ^ 6"

definition dec6 :: "rat \<Rightarrow> bool" where
  "dec6 x \<longleftrightarrow> on_grid x \<and> \<bar>x\<bar> < 10 ^ 22"

lemma on_grid_iff: "on_grid x \<longleftrightarrow> (\<exists>n. x = of_int n / 10 ^ 6)"
proof
  assume "on_grid x"
  have "x = x * 10 ^ 6 / 10 ^ 6" by simp
  also have "\<dots> = of_int \<lfloor>x * 10 ^ 6\<rfloor> / 10 ^ 6" using \<open>on_grid x\<close> by (simp only: on_grid_def)
  finally show "\<exists>n. x = of_int n / 10 ^ 6" by blast
next
  assume "\<exists>n. x = of_int n / 10 ^ 6"
  then obtain n where "x = of_int n / 10 ^ 6" by blast
  then have "x * 10 ^ 6 = of_int n" by simp
  then show "on_grid x" unfolding on_grid_def by (metis floor_of_int)
qed

lemma grid_bound: "(x::rat) = of_int n / 10 ^ 6 \<Longrightarrow> \<bar>x\<bar> < 10 ^ 22 \<longleftrightarrow> \<bar>n\<bar> < 10 ^ 28"
proof -
  assume x: "(x::rat) = of_int n / 10 ^ 6"
  have "\<bar>x\<bar> * 10 ^ 6 = of_int \<bar>n\<bar>" unfolding x by (simp add: abs_divide)
  have "\<bar>x\<bar> < 10 ^ 22 \<longleftrightarrow> \<bar>x\<bar> * 10 ^ 6 < of_int (10 ^ 28)" by simp
  also have "\<dots> \<longleftrightarrow> \<bar>n\<bar> < 10 ^ 28" unfolding \<open>\<bar>x\<bar> * 10 ^ 6 = of_int \<bar>n\<bar>\<close> by (simp only: of_int_less_iff)
  finally show ?thesis .
qed

lemma on_gridE: "on_grid x \<Longrightarrow> (\<And>n. x = of_int n / 10 ^ 6 \<Longrightarrow> P) \<Longrightarrow> P"
  by (auto simp: on_grid_iff)

lemma on_grid_of_int [simp]: "on_grid (of_int n / 10 ^ 6)"
  using on_grid_iff by blast

lemma on_grid_zero [simp]: "on_grid 0"
  by (simp add: on_grid_def)

lemma on_grid_add [simp]: "on_grid x \<Longrightarrow> on_grid y \<Longrightarrow> on_grid (x + y)"
  unfolding on_grid_iff by (metis add_divide_distrib of_int_add)

lemma on_grid_minus [simp]: "on_grid x \<Longrightarrow> on_grid (- x)"
  unfolding on_grid_iff by (metis minus_divide_left of_int_minus)

lemma on_grid_diff [simp]: "on_grid x \<Longrightarrow> on_grid y \<Longrightarrow> on_grid (x - y)"
  using on_grid_add [of x "- y"] by simp

lemma dec6_zero [simp]: "dec6 0"
  by (simp add: dec6_def)

lemma dec6_grid: "dec6 x \<Longrightarrow> on_grid x"
  by (simp add: dec6_def)

lemma quantize6_grid:
  assumes "on_grid x"
  shows "quantize6 x = (if \<bar>x\<bar> < 10 ^ 22 then Inr x else Inl InvalidOperation)"
proof -
  from assms obtain n where n: "x = of_int n / 10 ^ 6" by (rule on_gridE)
  then have r: "round_half_even (x * 10 ^ 6) = n"
    using half_even.rnd_of_int [of n] by simp
  show ?thesis unfolding quantize_def Let_def r grid_bound [OF n] by (simp only: n [symmetric])
qed

lemma quantize6_dec6 [simp]: "dec6 x \<Longrightarrow> quantize6 x = Inr x"
  by (simp add: quantize6_grid dec6_def)

lemma quantize6_result:
  assumes "quantize6 x = Inr y"
  shows "y = of_int (round_half_even (x * 10 ^ 6)) / 10 ^ 6 \<and> dec6 y"
proof -
  define n where "n = round_half_even (x * 10 ^ 6)"
  from assms have n: "\<bar>n\<bar> < 10 ^ 28" and y: "y = of_int n / 10 ^ 6"
    unfolding quantize_def Let_def n_def [symmetric] by (auto split: if_splits)
  have "\<bar>y\<bar> < 10 ^ 22" using n grid_bound [OF y] by simp
  moreover have "on_grid y" unfolding y by (rule on_grid_of_int)
  ultimately show ?thesis using y unfolding dec6_def n_def by blast
qed

lemma as_decimal_dec6: "as_decimal v = Inr x \<Longrightarrow> dec6 x"
  by (auto simp: as_decimal_def rbind_eq_Inr dest: quantize6_result)

lemma quantize6_mono:
  "quantize6 x = Inr x' \<Longrightarrow> quantize6 y = Inr y' \<Longrightarrow> x \<le> y \<Longrightarrow> x' \<le> y'"
  using half_even.rnd_mono [of "x * 10 ^ 6" "y * 10 ^ 6"]
  by (auto dest!: quantize6_result simp: divide_right_mono)

lemma fits28_grid: "on_grid x \<Longrightarrow> \<bar>x\<bar> \<le> 10 ^ 22 \<Longrightarrow> fits28 x"
proof -
  assume "on_grid x" and b: "\<bar>x\<bar> \<le> 10 ^ 22"
  then obtain n where n: "x = of_int n / 10 ^ 6" by (auto elim: on_gridE)
  have "\<bar>x\<bar> * 10 ^ 6 = of_int \<bar>n\<bar>" unfolding n by (simp add: abs_divide)
  then have "(of_int \<bar>n\<bar> :: rat) \<le> of_int (10 ^ 28)" using b by simp
  then have "\<bar>n\<bar> \<le> 10 ^ 28" by (simp only: of_int_le_iff)
  moreover have "x = of_int n * pow10 (- 6)" using n by (simp add: pow10_def)
  ultimately show ?thesis unfolding fits28_def by blast
qed

lemma ctx_grid: "on_grid x \<Longrightarrow> \<bar>x\<bar> \<le> 10 ^ 22 \<Longrightarrow> ctx x = x"
  by (intro ctx_exact fits28_grid)

text \<open>For evaluation: amounts on the grid need no rounding.\<close>

lemma grid_code:
  assumes "quotient_of x = (a, b)" and "10 ^ 6 mod b = 0" and "\<bar>a\<bar> \<le> 10 ^ 21"
  shows "on_grid x \<and> \<bar>x\<bar> \<le> 10 ^ 21"
proof -
  have x: "x = of_int a / of_int b" "0 < b"
    using quotient_of_div [OF assms(1)] quotient_of_denom_pos [OF assms(1)] by simp_all
  have "on_grid x" unfolding on_grid_def grid_numerator [OF assms(1,2)] by (simp only: floor_of_int)
  moreover have "\<bar>x\<bar> \<le> \<bar>of_int a\<bar>"
  proof -
    have "(1 :: rat) \<le> of_int b" using x(2) by simp
    then have "\<bar>of_int a\<bar> * 1 \<le> \<bar>of_int a\<bar> * (of_int b :: rat)" by (intro mult_left_mono) auto
    then show ?thesis unfolding x(1) using x(2) by (simp add: abs_divide divide_le_eq)
  qed
  moreover have "(of_int \<bar>a\<bar> :: rat) \<le> of_int (10 ^ 21)" using assms(3) by (simp only: of_int_le_iff)
  ultimately show ?thesis by simp
qed

lemma ctx_code [code]:
  "ctx x = (case quotient_of x of (a, b) \<Rightarrow>
     if 10 ^ 6 mod b = 0 \<and> \<bar>a\<bar> \<le> 10 ^ 21 then x
     else let q = pow10 (adjusted x - 27) in of_int (round_half_even (x / q)) * q)"
proof -
  obtain a b where q: "quotient_of x = (a, b)" by (cases "quotient_of x")
  show ?thesis
  proof (cases "10 ^ 6 mod b = 0 \<and> \<bar>a\<bar> \<le> 10 ^ 21")
    case True
    then have "on_grid x \<and> \<bar>x\<bar> \<le> 10 ^ 22" using grid_code [OF q] by fastforce
    then show ?thesis using True q ctx_grid by simp
  qed (auto simp: q ctx_def round_half_even_def)
qed

lemma ctx_dec6 [simp]: "dec6 x \<Longrightarrow> ctx x = x"
  by (rule ctx_grid) (auto simp: dec6_def)

lemma quantize6_large: "10 ^ 22 \<le> \<bar>x\<bar> \<Longrightarrow> quantize6 x = Inl InvalidOperation"
proof -
  assume b: "10 ^ 22 \<le> \<bar>x\<bar>"
  have "10 ^ 28 \<le> \<bar>round_half_even (x * 10 ^ 6)\<bar>"
  proof (cases "0 \<le> x")
    case True
    then have "of_int (10 ^ 28) \<le> x * 10 ^ 6" using b by simp
    then have "10 ^ 28 \<le> round_half_even (x * 10 ^ 6)" by (rule half_even.rnd_ge)
    then show ?thesis by linarith
  next
    case False
    then have "x * 10 ^ 6 \<le> of_int (- (10 ^ 28))" using b by simp
    then have "round_half_even (x * 10 ^ 6) \<le> - (10 ^ 28)" by (rule half_even.rnd_le)
    then show ?thesis by linarith
  qed
  then show ?thesis by (simp add: quantize_def Let_def)
qed

text \<open>
  The central fact of money arithmetic: a result on the grid survives the context rounding and
  the quantization unchanged, or the quantization raises.
\<close>

lemma quantize6_ctx_grid:
  assumes "on_grid x"
  shows "quantize6 (ctx x) = (if \<bar>x\<bar> < 10 ^ 22 then Inr x else Inl InvalidOperation)"
proof (cases "\<bar>x\<bar> < 10 ^ 22")
  case True
  then show ?thesis using assms by (simp add: ctx_grid quantize6_grid)
next
  case False
  have fix22: "ctx (10 ^ 22) = 10 ^ 22" "ctx (- (10 ^ 22)) = - (10 ^ 22)"
    by (rule ctx_grid; simp add: on_grid_def)+
  have "10 ^ 22 \<le> \<bar>ctx x\<bar>"
  proof (cases "0 \<le> x")
    case True
    with False have "10 ^ 22 \<le> ctx x" by (intro ctx_round.r_ge_fixed [OF fix22(1)]) simp
    then show ?thesis by linarith
  next
    case neg: False
    with False have "ctx x \<le> - (10 ^ 22)" by (intro ctx_round.r_le_fixed [OF fix22(2)]) simp
    then show ?thesis by linarith
  qed
  with False show ?thesis by (simp add: quantize6_large del: power_numeral)
qed

section \<open>Money\<close>

record money =
  amount :: decimal
  currency :: string

text \<open>The constructor with its normalisation (\<^verbatim>\<open>Money.__post_init__\<close>).\<close>

definition mk_money :: "py_value \<Rightarrow> string \<Rightarrow> money result" where
  "mk_money v cur =
     (let c = upper (strip cur)
      in if c = [] then Inl (ValueError ''currency must not be blank'')
         else rbind (as_decimal v) (\<lambda>a. Inr \<lparr>amount = a, currency = c\<rparr>))"

definition money_of :: "py_value \<Rightarrow> string \<Rightarrow> money result" where
  "money_of v cur = rbind (as_decimal v) (\<lambda>a. mk_money (PyDecimal a) cur)"

definition money_zero :: "string \<Rightarrow> money result" where
  "money_zero cur = mk_money (PyDecimal 0) cur"

definition require_same_currency :: "money \<Rightarrow> money \<Rightarrow> unit result" where
  "require_same_currency m n =
     (if currency m \<noteq> currency n then Inl (InvariantViolation ''currency mismatch'') else Inr ())"

definition money_add :: "money \<Rightarrow> money \<Rightarrow> money result" where
  "money_add m n =
     rbind (require_same_currency m n)
       (\<lambda>_. mk_money (PyDecimal (dec_add (amount m) (amount n))) (currency m))"

definition money_sub :: "money \<Rightarrow> money \<Rightarrow> money result" where
  "money_sub m n =
     rbind (require_same_currency m n)
       (\<lambda>_. mk_money (PyDecimal (dec_sub (amount m) (amount n))) (currency m))"

definition money_neg :: "money \<Rightarrow> money result" where
  "money_neg m = mk_money (PyDecimal (dec_neg (amount m))) (currency m)"

definition money_scale :: "money \<Rightarrow> py_value \<Rightarrow> money result" where
  "money_scale m factor =
     rbind (coerce_decimal factor)
       (\<lambda>f. mk_money (PyDecimal (dec_mul (amount m) f)) (currency m))"

definition is_negative :: "money \<Rightarrow> bool" where
  "is_negative m \<longleftrightarrow> amount m < 0"

definition is_zero :: "money \<Rightarrow> bool" where
  "is_zero m \<longleftrightarrow> amount m = 0"

definition money_from_unit_price :: "py_value \<Rightarrow> py_value \<Rightarrow> string \<Rightarrow> money result" where
  "money_from_unit_price unit_price quantity cur =
     rbind (as_decimal unit_price) (\<lambda>p.
     rbind (as_decimal quantity) (\<lambda>q.
     money_of (PyDecimal (dec_mul p q)) cur))"

definition require_nonnegative :: "money \<Rightarrow> string \<Rightarrow> unit result" where
  "require_nonnegative m label =
     (if is_negative m then Inl (InvariantViolation (label @ '' must not be negative'')) else Inr ())"

section \<open>The type invariant of money and exact arithmetic\<close>

definition cur_ok :: "string \<Rightarrow> bool" where
  "cur_ok c \<longleftrightarrow> c \<noteq> [] \<and> upper (strip c) = c"

definition wf_money :: "money \<Rightarrow> bool" where
  "wf_money m \<longleftrightarrow> dec6 (amount m) \<and> cur_ok (currency m)"

lemma cur_ok_normal: "upper (strip c) \<noteq> [] \<Longrightarrow> cur_ok (upper (strip c))"
  by (simp add: cur_ok_def strip_upper)

lemma wf_money_simps [simp]: "wf_money \<lparr>amount = a, currency = c\<rparr> \<longleftrightarrow> dec6 a \<and> cur_ok c"
  by (simp add: wf_money_def)

lemma wf_money_dest: "wf_money m \<Longrightarrow> dec6 (amount m)" "wf_money m \<Longrightarrow> cur_ok (currency m)"
  by (simp_all add: wf_money_def)

lemma mk_money_wf: "mk_money v cur = Inr m \<Longrightarrow> wf_money m"
  by (auto simp: mk_money_def Let_def result_simps cur_ok_normal as_decimal_dec6)

lemma mk_money_ok [simp]:
  "cur_ok c \<Longrightarrow> mk_money (PyDecimal x) c = rbind (quantize6 x) (\<lambda>a. Inr \<lparr>amount = a, currency = c\<rparr>)"
  by (simp add: mk_money_def cur_ok_def)

lemma money_zero_ok [simp]: "cur_ok c \<Longrightarrow> money_zero c = Inr \<lparr>amount = 0, currency = c\<rparr>"
  by (simp add: money_zero_def)

lemma money_add_eq:
  assumes "wf_money m" and "wf_money n"
  shows "money_add m n =
    (if currency m \<noteq> currency n then Inl (InvariantViolation ''currency mismatch'')
     else if \<bar>amount m + amount n\<bar> < 10 ^ 22
     then Inr \<lparr>amount = amount m + amount n, currency = currency m\<rparr>
     else Inl InvalidOperation)"
proof -
  have "on_grid (amount m + amount n)" using assms by (simp add: wf_money_def dec6_def)
  then show ?thesis
    using assms wf_money_dest(2) [OF assms(1)]
    by (simp add: money_add_def require_same_currency_def dec_add_def quantize6_ctx_grid)
qed

lemma money_sub_eq:
  assumes "wf_money m" and "wf_money n"
  shows "money_sub m n =
    (if currency m \<noteq> currency n then Inl (InvariantViolation ''currency mismatch'')
     else if \<bar>amount m - amount n\<bar> < 10 ^ 22
     then Inr \<lparr>amount = amount m - amount n, currency = currency m\<rparr>
     else Inl InvalidOperation)"
proof -
  have "on_grid (amount m - amount n)" using assms by (simp add: wf_money_def dec6_def)
  then show ?thesis
    using assms wf_money_dest(2) [OF assms(1)]
    by (simp add: money_sub_def require_same_currency_def dec_sub_def quantize6_ctx_grid)
qed

lemma money_add_InrD:
  assumes "money_add m n = Inr r" and "wf_money m" and "wf_money n"
  shows "currency m = currency n \<and> r = \<lparr>amount = amount m + amount n, currency = currency n\<rparr>
    \<and> wf_money r"
proof -
  have "on_grid (amount m + amount n)" using assms by (simp add: wf_money_def dec6_def)
  then show ?thesis
    using assms by (auto simp: money_add_eq wf_money_def dec6_def split: if_splits)
qed

lemma money_sub_InrD:
  assumes "money_sub m n = Inr r" and "wf_money m" and "wf_money n"
  shows "currency m = currency n \<and> r = \<lparr>amount = amount m - amount n, currency = currency n\<rparr>
    \<and> wf_money r"
proof -
  have "on_grid (amount m - amount n)" using assms by (simp add: wf_money_def dec6_def)
  then show ?thesis
    using assms by (auto simp: money_sub_eq wf_money_def dec6_def split: if_splits)
qed

text \<open>Subtracting a smaller nonnegative amount never raises.\<close>

lemma money_sub_le:
  assumes "wf_money m" and "wf_money n" and "currency m = currency n"
    and "0 \<le> amount n" and "amount n \<le> amount m"
  shows "money_sub m n = Inr \<lparr>amount = amount m - amount n, currency = currency m\<rparr>"
  using assms by (auto simp: money_sub_eq wf_money_def dec6_def)

text \<open>The rounded product of a unit price and a quantity.\<close>

definition unit_product :: "rat \<Rightarrow> rat \<Rightarrow> rat" where
  "unit_product p q = of_int (round_half_even (ctx (p * q) * 10 ^ 6)) / 10 ^ 6"

lemma on_grid_unit_product [simp]: "on_grid (unit_product p q)"
  unfolding unit_product_def by (rule on_grid_of_int)

lemma unit_product_mono: "p * q \<le> p' * q' \<Longrightarrow> unit_product p q \<le> unit_product p' q'"
  unfolding unit_product_def
  by (intro divide_right_mono) (auto intro!: half_even.rnd_mono mult_right_mono ctx_mono)

lemma unit_product_zero [simp]: "unit_product p 0 = 0"
  using half_even.rnd_of_int [of 0] by (simp add: unit_product_def)

lemma unit_product_nonneg: "0 \<le> p * q \<Longrightarrow> 0 \<le> unit_product p q"
  using unit_product_mono [of p 0 p q] by simp

lemma unit_product_one: "dec6 q \<Longrightarrow> unit_product 1 q = q"
  using quantize6_result [of q q] by (simp add: unit_product_def)

lemma unit_product_le:
  assumes "dec6 q" and "0 \<le> q" and "p \<le> 1"
  shows "unit_product p q \<le> q"
proof -
  have "p * q \<le> 1 * q" using assms by (intro mult_right_mono) auto
  then have "unit_product p q \<le> unit_product 1 q" by (rule unit_product_mono)
  then show ?thesis using assms by (simp add: unit_product_one)
qed

lemma unit_product_dec6 [simp]:
  assumes "dec6 q" and "0 \<le> q" and "0 \<le> p" and "p \<le> 1"
  shows "dec6 (unit_product p q)"
proof -
  have "0 \<le> unit_product p q" "unit_product p q \<le> q"
    using assms by (auto intro: unit_product_nonneg unit_product_le)
  with assms(1) show ?thesis by (simp add: dec6_def)
qed

lemma quantize6_of_grid: "on_grid x \<Longrightarrow> \<bar>x\<bar> < 10 ^ 22 \<Longrightarrow> quantize6 x = Inr x"
  by (simp add: quantize6_grid)

lemma quantize6_unit_product:
  "quantize6 (ctx (p * q)) =
     (if \<bar>unit_product p q\<bar> < 10 ^ 22 then Inr (unit_product p q) else Inl InvalidOperation)"
  unfolding quantize_def Let_def unit_product_def grid_bound [OF refl] by simp

lemma money_from_unit_price_eq:
  assumes "dec6 p" and "dec6 q" and "cur_ok c"
  shows "money_from_unit_price (PyDecimal p) (PyDecimal q) c =
    (if \<bar>unit_product p q\<bar> < 10 ^ 22 then Inr \<lparr>amount = unit_product p q, currency = c\<rparr>
     else Inl InvalidOperation)"
  using assms
  by (simp add: money_from_unit_price_def money_of_def dec_mul_def quantize6_unit_product
      quantize6_of_grid)

lemma money_from_unit_price_InrD:
  assumes "money_from_unit_price (PyDecimal p) (PyDecimal q) c = Inr m"
    and "dec6 p" and "dec6 q" and "cur_ok c"
  shows "m = \<lparr>amount = unit_product p q, currency = c\<rparr> \<and> wf_money m"
  using assms by (auto simp: money_from_unit_price_eq dec6_def split: if_splits)

text \<open>Prices of at most one never raise, and the cost never exceeds the quantity.\<close>

lemma money_from_unit_price_ok:
  assumes "dec6 p" and "dec6 q" and "cur_ok c" and "0 \<le> p" and "p \<le> 1" and "0 \<le> q"
  shows "money_from_unit_price (PyDecimal p) (PyDecimal q) c =
    Inr \<lparr>amount = unit_product p q, currency = c\<rparr>"
proof -
  have "0 \<le> unit_product p q" "unit_product p q \<le> q"
    using assms by (auto intro: unit_product_nonneg unit_product_le)
  moreover have "q < 10 ^ 22" using assms by (simp add: dec6_def)
  ultimately show ?thesis using assms by (simp add: money_from_unit_price_eq)
qed

end
