(* ===== verification/Text_Format.thy ===== *)
theory Text_Format
  imports Money
begin

text \<open>
  The text formats the program derives identifiers from: decimal digits, fixed-point amounts
  (\<^verbatim>\<open>format(x, "f")\<close> of a six-decimal value), zero padding, ISO dates and the JSON
  encoding of flat string objects (\<^verbatim>\<open>json.dumps\<close> with sorted keys and compact
  separators).
\<close>

section \<open>Digits\<close>

definition digit_char :: "nat \<Rightarrow> char" where
  "digit_char n = ''0123456789'' ! (n mod 10)"

fun show_nat :: "nat \<Rightarrow> string" where
  "show_nat n = (if n < 10 then [digit_char n] else show_nat (n div 10) @ [digit_char n])"

declare show_nat.simps [simp del]

text \<open>The same on binary integers, for evaluation.\<close>

function show_digits :: "int \<Rightarrow> string" where
  "show_digits k =
     (if k < 10 then [digit_char (nat k)] else show_digits (k div 10) @ [digit_char (nat (k mod 10))])"
  by pat_completeness auto
termination by (relation "measure nat") auto

declare show_digits.simps [simp del]

lemma show_digits_nat: "show_nat (nat k) = show_digits k"
proof (induction k rule: show_digits.induct)
  case (1 k)
  show ?case
  proof (cases "k < 10")
    case True
    then have "nat k < 10" by simp
    with True show ?thesis by (simp add: show_digits.simps [of k] show_nat.simps [of "nat k"])
  next
    case False
    then have "nat k div 10 = nat (k div 10)" "digit_char (nat k) = digit_char (nat (k mod 10))"
      by (simp_all add: nat_div_distrib digit_char_def nat_mod_distrib)
    moreover have "\<not> nat k < 10" using False by simp
    ultimately show ?thesis
      using False 1 by (simp add: show_digits.simps [of k] show_nat.simps [of "nat k"])
  qed
qed

definition show_int :: "int \<Rightarrow> string" where
  "show_int k = (if k < 0 then CHR ''-'' # show_nat (nat (- k)) else show_nat (nat k))"

definition pad_left :: "nat \<Rightarrow> string \<Rightarrow> string" where
  "pad_left k s = replicate (k - length s) (CHR ''0'') @ s"

lemma digit_table_nth:
  "list_all (\<lambda>n. digit_value (''0123456789'' ! n) = n \<and> is_digit (''0123456789'' ! n)) [0..<10]"
  by code_simp

lemma digit_value_char [simp]: "digit_value (digit_char n) = n mod 10"
  and is_digit_char [simp]: "is_digit (digit_char n)"
  using digit_table_nth by (simp_all add: digit_char_def list_all_iff)

lemma nat_of_digits_snoc: "nat_of_digits (s @ [c]) = 10 * nat_of_digits s + digit_value c"
  by (simp add: nat_of_digits_def)

lemma nat_of_digits_show: "nat_of_digits (show_nat n) = n"
proof (induction n rule: show_nat.induct)
  case (1 n)
  show ?case
  proof (cases "n < 10")
    case True
    then show ?thesis by (simp add: show_nat.simps [of n] nat_of_digits_def)
  next
    case False
    then show ?thesis
      using "1.IH" by (simp add: show_nat.simps [of n] nat_of_digits_snoc)
  qed
qed

lemma show_nat_digits: "list_all is_digit (show_nat n)"
proof (induction n rule: show_nat.induct)
  case (1 n)
  then show ?case by (cases "n < 10") (simp_all add: show_nat.simps [of n])
qed

lemma show_nat_nonempty [simp]: "show_nat n \<noteq> []"
  by (subst show_nat.simps) simp

lemma show_nat_inj: "show_nat m = show_nat n \<Longrightarrow> m = n"
  by (metis nat_of_digits_show)

lemma length_show_nat: "n < 10 ^ k \<Longrightarrow> 0 < k \<Longrightarrow> length (show_nat n) \<le> k"
proof (induction n arbitrary: k rule: show_nat.induct)
  case (1 n)
  show ?case
  proof (cases "n < 10")
    case True
    then show ?thesis using "1.prems" by (simp add: show_nat.simps [of n])
  next
    case False
    then obtain j where j: "k = Suc j" "0 < j" using "1.prems" by (cases k; cases "k - 1") auto
    then have "n div 10 < 10 ^ j" using "1.prems" by auto
    then have "length (show_nat (n div 10)) \<le> j" using "1.IH" False j by blast
    then show ?thesis using False j by (simp add: show_nat.simps [of n])
  qed
qed

lemma nat_of_digits_acc:
  "foldl (\<lambda>n c. 10 * n + digit_value c) a s = a * 10 ^ length s + nat_of_digits s"
proof (induction s arbitrary: a)
  case (Cons c s)
  show ?case using Cons [of "10 * a + digit_value c"] Cons [of "digit_value c"]
    by (simp add: nat_of_digits_def algebra_simps)
qed (simp add: nat_of_digits_def)

lemma nat_of_digits_append:
  "nat_of_digits (s @ t) = nat_of_digits s * 10 ^ length t + nat_of_digits t"
  using nat_of_digits_acc [of "nat_of_digits s" t] by (simp add: nat_of_digits_def)

lemma nat_of_digits_zeros: "nat_of_digits (replicate k (CHR ''0'')) = 0"
proof (induction k)
  case (Suc k)
  have "digit_value (CHR ''0'') = 0" by code_simp
  then show ?case
    using Suc nat_of_digits_append [of "replicate k (CHR ''0'')" "[CHR ''0'']"]
    by (simp add: replicate_append_same nat_of_digits_def)
qed (simp add: nat_of_digits_def)

lemma nat_of_digits_pad: "nat_of_digits (pad_left k (show_nat n)) = n"
  by (simp add: pad_left_def nat_of_digits_append nat_of_digits_zeros nat_of_digits_show)

lemma pad_left_digits: "list_all is_digit (pad_left k (show_nat n))"
proof -
  have "is_digit (CHR ''0'')" by code_simp
  then show ?thesis using show_nat_digits by (auto simp: pad_left_def list_all_iff)
qed

lemma length_pad_left: "n < 10 ^ k \<Longrightarrow> 0 < k \<Longrightarrow> length (pad_left k (show_nat n)) = k"
  using length_show_nat [of n k] by (simp add: pad_left_def)

section \<open>Fixed-point amounts\<close>

text \<open>\<^verbatim>\<open>format(x, "f")\<close> of a value quantized to six places.\<close>

definition fmt6 :: "decimal \<Rightarrow> string" where
  "fmt6 x =
     (let n = \<lfloor>x * 10 ^ 6\<rfloor>; a = nat \<bar>n\<bar>
      in (if n < 0 then ''-'' else []) @ show_nat (a div 10 ^ 6) @ ''.'' @
         pad_left 6 (show_nat (a mod 10 ^ 6)))"

lemma show_int_code [code]:
  "show_int k = (if k < 0 then CHR ''-'' # show_digits (- k) else show_digits k)"
  by (simp add: show_int_def show_digits_nat)

lemma fmt6_code [code]:
  "fmt6 x =
     (let n = \<lfloor>x * 10 ^ 6\<rfloor>; a = \<bar>n\<bar>
      in (if n < 0 then ''-'' else []) @ show_digits (a div 10 ^ 6) @ ''.'' @
         pad_left 6 (show_digits (a mod 10 ^ 6)))"
proof -
  have "nat a div 10 ^ 6 = nat (a div 10 ^ 6) \<and> nat a mod 10 ^ 6 = nat (a mod 10 ^ 6)" if "0 \<le> a" for a :: int
    using that by (simp add: nat_div_distrib nat_mod_distrib)
  then show ?thesis by (simp only: fmt6_def Let_def abs_ge_zero show_digits_nat)
qed

lemma takeWhile_digits: "list_all is_digit s \<Longrightarrow> \<not> is_digit c \<Longrightarrow> takeWhile is_digit (s @ c # r) = s"
  by (induction s) auto

lemma dropWhile_digits: "list_all is_digit s \<Longrightarrow> \<not> is_digit c \<Longrightarrow> dropWhile is_digit (s @ c # r) = c # r"
  by (induction s) auto

lemma digit_props:
  "is_digit c \<Longrightarrow> \<not> is_space c \<and> c \<noteq> CHR ''_'' \<and> c \<noteq> CHR ''-'' \<and> c \<noteq> CHR ''+'' \<and> c \<noteq> CHR ''.''"
proof -
  have "list_all (\<lambda>p. \<not> is_space (fst p) \<and> fst p \<noteq> CHR ''_'' \<and> fst p \<noteq> CHR ''-''
      \<and> fst p \<noteq> CHR ''+'' \<and> fst p \<noteq> CHR ''.'') digit_table" by code_simp
  moreover assume "is_digit c"
  then obtain n where "(c, n) \<in> set digit_table" by (auto simp: is_digit_def dest: map_of_SomeD)
  ultimately show ?thesis by (auto simp: list_all_iff)
qed

lemma strip_no_space: "list_all (\<lambda>c. \<not> is_space c) s \<Longrightarrow> strip s = s"
proof -
  have drop: "dropWhile is_space t = t" if "list_all (\<lambda>c. \<not> is_space c) t" for t
    using that by (cases t) auto
  assume "list_all (\<lambda>c. \<not> is_space c) s"
  then show ?thesis by (simp add: strip_def drop list_all_iff)
qed

definition signed_text :: "bool \<Rightarrow> string \<Rightarrow> string" where
  "signed_text neg s = (if neg then CHR ''-'' # s else s)"

lemma parse_fixed_point:
  assumes "list_all is_digit w" and "list_all is_digit f" and "w \<noteq> []"
  shows "parse_decimal (signed_text neg (w @ CHR ''.'' # f)) =
    (let v = of_nat (nat_of_digits (w @ f)) * pow10 (- int (length f))
     in Some (Some (if neg then - v else v)))"
proof -
  have chars: "\<not> is_space (CHR ''.'')" "\<not> is_space (CHR ''-'')" "\<not> is_digit (CHR ''.'')" by code_simp+
  let ?body = "w @ CHR ''.'' # f"
  let ?t = "signed_text neg ?body"
  have "list_all (\<lambda>c. \<not> is_space c \<and> c \<noteq> CHR ''_'') ?t"
    using assms chars digit_props by (auto simp: signed_text_def list_all_iff)
  then have norm: "filter (\<lambda>c. c \<noteq> CHR ''_'') (strip ?t) = ?t"
    using strip_no_space [of ?t] by (simp add: list_all_iff)
  obtain c w' where w: "w = c # w'" using assms(3) by (cases w) auto
  then have "is_digit c" using assms(1) by simp
  then have sign: "split_sign ?t = (neg, ?body)"
    using digit_props [of c] w by (simp add: split_sign_def signed_text_def)
  have whole: "takeWhile is_digit ?body = w" "dropWhile is_digit ?body = CHR ''.'' # f"
    by (rule takeWhile_digits [OF assms(1) chars(3)], rule dropWhile_digits [OF assms(1) chars(3)])
  have frac: "takeWhile is_digit f = f" "dropWhile is_digit f = []"
    using assms(2) by (simp_all add: list_all_iff)
  show ?thesis
    unfolding parse_decimal_def norm sign
    by (simp add: whole frac assms(3) parse_exponent_def)
qed

lemma fmt6_signed:
  "fmt6 x = signed_text (\<lfloor>x * 10 ^ 6\<rfloor> < 0)
     (show_nat (nat \<bar>\<lfloor>x * 10 ^ 6\<rfloor>\<bar> div 10 ^ 6) @ CHR ''.'' #
      pad_left 6 (show_nat (nat \<bar>\<lfloor>x * 10 ^ 6\<rfloor>\<bar> mod 10 ^ 6)))"
  by (simp add: fmt6_def Let_def signed_text_def)

text \<open>Reading a printed amount back gives the amount.\<close>

lemma parse_fmt6:
  assumes "on_grid x"
  shows "parse_decimal (fmt6 x) = Some (Some x)"
proof -
  obtain n where n: "x = of_int n / 10 ^ 6" using assms by (rule on_gridE)
  then have fl: "\<lfloor>x * 10 ^ 6\<rfloor> = n" by simp
  define a where "a = nat \<bar>n\<bar>"
  define w where "w = show_nat (a div 10 ^ 6)"
  define f where "f = pad_left 6 (show_nat (a mod 10 ^ 6))"
  have len: "length f = 6" unfolding f_def by (rule length_pad_left) simp_all
  have "nat_of_digits (w @ f) = a div 10 ^ 6 * 10 ^ 6 + a mod 10 ^ 6"
    unfolding nat_of_digits_append len unfolding w_def f_def nat_of_digits_show nat_of_digits_pad ..
  then have "nat_of_digits (w @ f) = a" by simp
  moreover have "pow10 (- int 6) = 1 / 10 ^ 6" by (rule pow10_neg)
  ultimately have "parse_decimal (signed_text (n < 0) (w @ CHR ''.'' # f)) =
      Some (Some (if n < 0 then - (of_nat a / 10 ^ 6) else of_nat a / 10 ^ 6))"
    using parse_fixed_point [of w f "n < 0"] len show_nat_digits pad_left_digits
    by (simp add: w_def f_def Let_def)
  moreover have "(of_nat a :: rat) = of_int \<bar>n\<bar>" by (simp add: a_def)
  ultimately show ?thesis
    unfolding fmt6_signed fl a_def [symmetric] w_def [symmetric] f_def [symmetric]
    using n by (auto simp: abs_if)
qed

lemma as_decimal_fmt6: "dec6 x \<Longrightarrow> as_decimal (PyStr (fmt6 x)) = Inr x"
  by (simp add: as_decimal_def parse_fmt6 dec6_grid)

lemma fmt6_inj: "on_grid x \<Longrightarrow> on_grid y \<Longrightarrow> fmt6 x = fmt6 y \<Longrightarrow> x = y"
  by (metis option.inject parse_fmt6)

section \<open>Dates\<close>

text \<open>
  \<^verbatim>\<open>date.isoformat()\<close>: a date is its number of days since 1970-01-01; the civil year,
  month and day follow the proleptic Gregorian calendar.
\<close>

definition civil_of_days :: "date \<Rightarrow> int \<times> int \<times> int" where
  "civil_of_days d =
     (let z = d + 719468;
          era = z div 146097;
          doe = z mod 146097;
          yoe = (doe - doe div 1460 + doe div 36524 - doe div 146096) div 365;
          doy = doe - (365 * yoe + yoe div 4 - yoe div 100);
          mp = (5 * doy + 2) div 153;
          day = doy - (153 * mp + 2) div 5 + 1;
          month = (if mp < 10 then mp + 3 else mp - 9)
      in (yoe + era * 400 + (if month \<le> 2 then 1 else 0), month, day))"

definition iso_date :: "date \<Rightarrow> string" where
  "iso_date d =
     (case civil_of_days d of (y, m, dd) \<Rightarrow>
        pad_left 4 (show_nat (nat y)) @ ''-'' @ pad_left 2 (show_nat (nat m)) @ ''-'' @
        pad_left 2 (show_nat (nat dd)))"

lemma iso_date_code [code]:
  "iso_date d =
     (case civil_of_days d of (y, m, dd) \<Rightarrow>
        pad_left 4 (show_digits y) @ ''-'' @ pad_left 2 (show_digits m) @ ''-'' @
        pad_left 2 (show_digits dd))"
  by (simp add: iso_date_def show_digits_nat split: prod.split)

text \<open>The calendar day of a wall-clock instant.\<close>

definition micros_per_day :: int where
  "micros_per_day = 86400000000"

definition day_of :: "int \<Rightarrow> date" where
  "day_of micros = micros div micros_per_day"

section \<open>JSON text\<close>

definition hex_table :: "(char \<times> nat) list" where
  "hex_table = zip ''0123456789abcdef'' [0..<16]"

definition hex_char :: "nat \<Rightarrow> char" where
  "hex_char n = ''0123456789abcdef'' ! (n mod 16)"

definition hex_value :: "char \<Rightarrow> nat" where
  "hex_value c = (case map_of hex_table c of None \<Rightarrow> 0 | Some n \<Rightarrow> n)"

definition is_lower_hex :: "char \<Rightarrow> bool" where
  "is_lower_hex c \<longleftrightarrow> map_of hex_table c \<noteq> None"

definition escape_table :: "(char \<times> char) list" where
  "escape_table = [(CHR 0x22, CHR 0x22), (CHR 0x5C, CHR 0x5C), (CHR 0x0A, CHR ''n''),
     (CHR 0x0D, CHR ''r''), (CHR 0x09, CHR ''t''), (CHR 0x08, CHR ''b''), (CHR 0x0C, CHR ''f'')]"

definition json_escape :: "char \<Rightarrow> string" where
  "json_escape c =
     (case map_of escape_table c of
        Some d \<Rightarrow> [CHR 0x5C, d]
      | None \<Rightarrow>
          (let n = of_char c :: nat
           in if n < 32 \<or> 126 < n
              then [CHR 0x5C, CHR ''u'', CHR ''0'', CHR ''0'', hex_char (n div 16), hex_char n]
              else [c]))"

definition json_chars :: "string \<Rightarrow> string" where
  "json_chars s = concat (map json_escape s)"

definition json_string :: "string \<Rightarrow> string" where
  "json_string s = CHR 0x22 # json_chars s @ [CHR 0x22]"

text \<open>An object whose values are already encoded; the keys are plain field names.\<close>

fun json_members :: "(string \<times> string) list \<Rightarrow> string" where
  "json_members [] = []"
| "json_members [(k, v)] = json_string k @ CHR '':'' # v"
| "json_members ((k, v) # m # ms) = json_string k @ CHR '':'' # v @ CHR '','' # json_members (m # ms)"

definition json_object :: "(string \<times> string) list \<Rightarrow> string" where
  "json_object ms = CHR ''{'' # json_members ms @ ''}''"

text \<open>The reader that shows the encoding is uniquely decodable.\<close>

definition json_unescape :: "string \<Rightarrow> (char \<times> string) option" where
  "json_unescape s = (case s of
      [] \<Rightarrow> None
    | c # r \<Rightarrow>
        if c = CHR 0x22 then None
        else if c \<noteq> CHR 0x5C then Some (c, r)
        else (case r of
            d # r1 \<Rightarrow>
              (if d = CHR ''u''
               then (case r1 of _ # _ # h # l # r2 \<Rightarrow> Some (char_of (16 * hex_value h + hex_value l), r2)
                     | _ \<Rightarrow> None)
               else (case map_of (map prod.swap escape_table) d of
                       Some e \<Rightarrow> Some (e, r1) | None \<Rightarrow> None))
          | [] \<Rightarrow> None))"

lemma hex_value_nth: "list_all (\<lambda>n. hex_value (''0123456789abcdef'' ! n) = n) [0..<16]"
  by code_simp

lemma hex_value_char [simp]: "hex_value (hex_char n) = n mod 16"
  using hex_value_nth by (simp add: hex_char_def list_all_iff)

lemma escape_table_inverse:
  "list_all (\<lambda>(c, d). d \<noteq> CHR ''u'' \<and> map_of (map prod.swap escape_table) d = Some c) escape_table"
  by code_simp

lemma escape_table_quotes:
  "map_of escape_table (CHR 0x22) \<noteq> None" "map_of escape_table (CHR 0x5C) \<noteq> None"
  by (simp_all add: escape_table_def)

lemma json_unescape_escape: "json_unescape (json_escape c @ u) = Some (c, u)"
proof (cases "map_of escape_table c")
  case (Some d)
  then have "(c, d) \<in> set escape_table" by (rule map_of_SomeD)
  then have "d \<noteq> CHR ''u''" "map_of (map prod.swap escape_table) d = Some c"
    using escape_table_inverse by (auto simp: list_all_iff)
  with Some show ?thesis by (simp add: json_escape_def json_unescape_def)
next
  case None
  then have q: "c \<noteq> CHR 0x22" "c \<noteq> CHR 0x5C" using escape_table_quotes by auto
  have "of_char c div 16 < (16::nat)"
    using nat_of_char_less_256 [of c] by (intro less_mult_imp_div_less) simp
  then have "16 * (of_char c div 16 mod 16) + of_char c mod 16 = (of_char c :: nat)" by simp
  then show ?thesis using None q
    by (simp add: json_escape_def json_unescape_def Let_def)
qed

lemma json_escape_not_quote: "json_escape c \<noteq> [] \<and> hd (json_escape c) \<noteq> CHR 0x22"
  using escape_table_quotes by (auto simp: json_escape_def Let_def split: option.split)

lemma json_chars_decode:
  "json_chars s @ CHR 0x22 # x = json_chars t @ CHR 0x22 # y \<Longrightarrow> s = t \<and> x = y"
proof (induction s arbitrary: t)
  case Nil
  show ?case
  proof (cases t)
    case (Cons d t')
    with Nil json_escape_not_quote [of d] show ?thesis
      by (cases "json_escape d") (auto simp: json_chars_def)
  qed (use Nil in \<open>simp add: json_chars_def\<close>)
next
  case (Cons c s)
  show ?case
  proof (cases t)
    case Nil
    with Cons.prems json_escape_not_quote [of c] show ?thesis
      by (cases "json_escape c") (auto simp: json_chars_def)
  next
    case t: (Cons d t')
    let ?u = "json_chars s @ CHR 0x22 # x" and ?v = "json_chars t' @ CHR 0x22 # y"
    have "json_escape c @ ?u = json_escape d @ ?v" using Cons.prems t by (simp add: json_chars_def)
    then have "Some (c, ?u) = Some (d, ?v)" by (metis json_unescape_escape)
    then show ?thesis using Cons.IH [of t'] t by simp
  qed
qed

lemma json_string_decode: "json_string s @ x = json_string t @ y \<Longrightarrow> s = t \<and> x = y"
  using json_chars_decode [of s x t y] by (simp add: json_string_def)

end
