(* ===== verification/Domain_Model.thy ===== *)
theory Domain_Model
  imports Text_Format
begin

text \<open>
  \<open>weatherbot/domain/model.py\<close>: the order lifecycle states and their transition table,
  signals, pre-trade decisions, order intents and their stable identifiers, order and position
  aggregates, and market resolutions. A record holds a dataclass's fields; an \<open>_init\<close>
  function is its \<^verbatim>\<open>__post_init__\<close>: it validates the given fields and returns the
  record with the normalised ones. SHA-256 is a parameter (\<open>sha\<close>, the hexadecimal digest of
  an encoded text).
\<close>

section \<open>Validation helpers\<close>

definition require_text :: "string \<Rightarrow> string \<Rightarrow> string result" where
  "require_text v label =
     (let normalized = strip v
      in if normalized = [] then Inl (ValueError (label @ '' must not be blank''))
         else Inr normalized)"

definition require_aware :: "datetime \<Rightarrow> string \<Rightarrow> unit result" where
  "require_aware d label =
     (if \<not> dt_aware d then Inl (ValueError (label @ '' must be timezone-aware'')) else Inr ())"

lemma require_text_InrD: "require_text v l = Inr t \<Longrightarrow> t = strip v \<and> strip v \<noteq> []"
  by (auto simp: require_text_def Let_def split: if_splits)

lemma require_aware_Inr [simp]: "require_aware d l = Inr u \<longleftrightarrow> dt_aware d"
  by (simp add: require_aware_def)

section \<open>Order lifecycle\<close>

datatype side = BUY | SELL

datatype risk_decision_status = RISK_APPROVED | RISK_REJECTED

datatype order_state =
    CREATED | SUBMITTED | ACKNOWLEDGED | PARTIALLY_FILLED | FILLED | REJECTED | CANCELLED | UNKNOWN

fun is_terminal :: "order_state \<Rightarrow> bool" where
  "is_terminal s \<longleftrightarrow> s \<in> {FILLED, REJECTED, CANCELLED}"

datatype position_status = OPEN | SETTLED

fun allowed_transitions :: "order_state \<Rightarrow> order_state set" where
  "allowed_transitions CREATED = {SUBMITTED, REJECTED, CANCELLED}"
| "allowed_transitions SUBMITTED =
     {ACKNOWLEDGED, PARTIALLY_FILLED, FILLED, REJECTED, CANCELLED, UNKNOWN}"
| "allowed_transitions ACKNOWLEDGED = {PARTIALLY_FILLED, FILLED, CANCELLED, UNKNOWN}"
| "allowed_transitions PARTIALLY_FILLED = {PARTIALLY_FILLED, FILLED, CANCELLED, UNKNOWN}"
| "allowed_transitions UNKNOWN =
     {ACKNOWLEDGED, PARTIALLY_FILLED, FILLED, REJECTED, CANCELLED, UNKNOWN}"
| "allowed_transitions FILLED = {}"
| "allowed_transitions REJECTED = {}"
| "allowed_transitions CANCELLED = {}"

definition require_transition :: "order_state \<Rightarrow> order_state \<Rightarrow> unit result" where
  "require_transition current target =
     (if target \<notin> allowed_transitions current
      then Inl (InvalidTransition ''order transition is invalid'') else Inr ())"

lemma require_transition_Inr [simp]:
  "require_transition c t = Inr u \<longleftrightarrow> t \<in> allowed_transitions c"
  by (simp add: require_transition_def)

lemma transition_from_terminal: "is_terminal s \<Longrightarrow> allowed_transitions s = {}"
  by auto

section \<open>Signals and decisions\<close>

record signal =
  sg_strategy_id :: string
  sg_decision_id :: string
  sg_market_id :: string
  sg_outcome_id :: string
  sg_probability :: decimal
  sg_observed_price :: decimal
  sg_generated_at :: datetime

definition signal_init :: "signal \<Rightarrow> signal result" where
  "signal_init s =
     rbind (require_text (sg_strategy_id s) ''strategy_id'') (\<lambda>_.
     rbind (require_text (sg_decision_id s) ''decision_id'') (\<lambda>_.
     rbind (require_text (sg_market_id s) ''market_id'') (\<lambda>_.
     rbind (require_text (sg_outcome_id s) ''outcome_id'') (\<lambda>_.
     rbind (quantize6 (sg_probability s)) (\<lambda>probability.
     rbind (quantize6 (sg_observed_price s)) (\<lambda>observed_price.
     if \<not> (0 \<le> probability \<and> probability \<le> 1)
     then Inl (ValueError ''probability must be between zero and one'')
     else if \<not> (0 < observed_price \<and> observed_price \<le> 1)
     then Inl (ValueError ''observed_price must be greater than zero and at most one'')
     else rbind (require_aware (sg_generated_at s) ''generated_at'') (\<lambda>_.
       Inr (s\<lparr>sg_probability := probability, sg_observed_price := observed_price\<rparr>))))))))"

record pre_trade_decision =
  pd_signal :: signal
  pd_status :: risk_decision_status
  pd_max_cash :: money
  pd_reason :: string

definition pre_trade_decision_init :: "pre_trade_decision \<Rightarrow> pre_trade_decision result" where
  "pre_trade_decision_init d =
     rbind (require_nonnegative (pd_max_cash d) ''max_cash'') (\<lambda>_.
     if pd_status d = RISK_APPROVED \<and> is_zero (pd_max_cash d)
     then Inl (InvariantViolation ''approved decisions require positive max_cash'')
     else if pd_status d = RISK_REJECTED \<and> \<not> is_zero (pd_max_cash d)
     then Inl (InvariantViolation ''rejected decisions must reserve no cash'')
     else rbind (require_text (pd_reason d) ''reason'') (\<lambda>_. Inr d))"

section \<open>Order intents\<close>

record order_intent =
  oi_intent_id :: string
  oi_strategy_id :: string
  oi_decision_id :: string
  oi_market_id :: string
  oi_outcome_id :: string
  oi_side :: side
  oi_quantity :: decimal
  oi_limit_price :: decimal
  oi_fee_reserve :: money
  oi_created_at :: datetime

fun side_value :: "side \<Rightarrow> string" where
  "side_value BUY = ''buy''"
| "side_value SELL = ''sell''"

text \<open>The canonical payload of an intent's identity, in sorted key order.\<close>

definition intent_payload ::
    "string \<Rightarrow> string \<Rightarrow> string \<Rightarrow> string \<Rightarrow> side \<Rightarrow> decimal \<Rightarrow> decimal \<Rightarrow> string" where
  "intent_payload strategy_id decision_id market_id outcome_id s quantity limit_price =
     json_object [
       (''decision_id'', json_string decision_id),
       (''limit_price'', json_string (fmt6 limit_price)),
       (''market_id'', json_string market_id),
       (''outcome_id'', json_string outcome_id),
       (''quantity'', json_string (fmt6 quantity)),
       (''side'', json_string (side_value s)),
       (''strategy_id'', json_string strategy_id)]"

definition build_order_intent_id ::
    "(string \<Rightarrow> string) \<Rightarrow> string \<Rightarrow> string \<Rightarrow> string \<Rightarrow> string \<Rightarrow> side \<Rightarrow> decimal \<Rightarrow> decimal \<Rightarrow>
     string result" where
  "build_order_intent_id sha strategy_id decision_id market_id outcome_id s quantity limit_price =
     rbind (require_text decision_id ''decision_id'') (\<lambda>decision.
     rbind (quantize6 limit_price) (\<lambda>limit.
     rbind (require_text market_id ''market_id'') (\<lambda>market.
     rbind (require_text outcome_id ''outcome_id'') (\<lambda>outcome.
     rbind (quantize6 quantity) (\<lambda>qty.
     rbind (require_text strategy_id ''strategy_id'') (\<lambda>strategy.
     Inr (''intent_'' @ sha (intent_payload strategy decision market outcome s qty limit))))))))"

definition order_intent_init :: "order_intent \<Rightarrow> order_intent result" where
  "order_intent_init i =
     rbind (require_text (oi_intent_id i) ''intent_id'') (\<lambda>_.
     rbind (require_text (oi_strategy_id i) ''strategy_id'') (\<lambda>_.
     rbind (require_text (oi_decision_id i) ''decision_id'') (\<lambda>_.
     rbind (require_text (oi_market_id i) ''market_id'') (\<lambda>_.
     rbind (require_text (oi_outcome_id i) ''outcome_id'') (\<lambda>_.
     rbind (quantize6 (oi_quantity i)) (\<lambda>quantity.
     rbind (quantize6 (oi_limit_price i)) (\<lambda>limit_price.
     if quantity \<le> 0 then Inl (ValueError ''order quantity must be positive'')
     else if \<not> (0 < limit_price \<and> limit_price \<le> 1)
     then Inl (ValueError ''limit_price must be greater than zero and at most one'')
     else rbind (require_nonnegative (oi_fee_reserve i) ''fee_reserve'') (\<lambda>_.
       if oi_side i = SELL \<and> \<not> is_zero (oi_fee_reserve i)
       then Inl (InvariantViolation ''sell orders must not reserve cash fees'')
       else rbind (require_aware (oi_created_at i) ''created_at'') (\<lambda>_.
         Inr (i\<lparr>oi_quantity := quantity, oi_limit_price := limit_price\<rparr>))))))))))"

text \<open>The classmethod \<^verbatim>\<open>OrderIntent.create\<close>; the given record's identifier is ignored.\<close>

definition order_intent_create :: "(string \<Rightarrow> string) \<Rightarrow> order_intent \<Rightarrow> order_intent result" where
  "order_intent_create sha i =
     rbind (build_order_intent_id sha (oi_strategy_id i) (oi_decision_id i) (oi_market_id i)
              (oi_outcome_id i) (oi_side i) (oi_quantity i) (oi_limit_price i))
       (\<lambda>intent_id. order_intent_init (i\<lparr>oi_intent_id := intent_id\<rparr>))"

definition limit_notional :: "order_intent \<Rightarrow> money result" where
  "limit_notional i =
     money_from_unit_price (PyDecimal (oi_limit_price i)) (PyDecimal (oi_quantity i))
       (currency (oi_fee_reserve i))"

definition cash_reservation :: "order_intent \<Rightarrow> money result" where
  "cash_reservation i =
     (if oi_side i = SELL then money_zero (currency (oi_fee_reserve i))
      else rbind (limit_notional i) (\<lambda>n. money_add n (oi_fee_reserve i)))"

text \<open>Dataclass equality of intents: aware timestamps compare by instant.\<close>

definition order_intent_eq :: "order_intent \<Rightarrow> order_intent \<Rightarrow> bool" where
  "order_intent_eq i j \<longleftrightarrow>
     i\<lparr>oi_created_at := oi_created_at j\<rparr> = j \<and> dt_eq (oi_created_at i) (oi_created_at j)"

section \<open>Aggregates\<close>

record order_aggregate =
  oa_intent :: order_intent
  oa_state :: order_state
  oa_filled_quantity :: decimal
  oa_gross_value :: money
  oa_fees :: money
  oa_reserved_cash :: money
  oa_reserved_quantity :: decimal
  oa_backend_order_id :: "string option"
  oa_terminal_reason :: "string option"
  oa_unknown_reason :: "string option"
  oa_fill_fingerprints :: "(string, string) dict"

definition new_order :: "order_intent \<Rightarrow> order_aggregate result" where
  "new_order i =
     rbind (money_zero (currency (oi_fee_reserve i))) (\<lambda>z.
     rbind (cash_reservation i) (\<lambda>reserved.
     Inr \<lparr>oa_intent = i, oa_state = CREATED, oa_filled_quantity = 0, oa_gross_value = z,
          oa_fees = z, oa_reserved_cash = reserved,
          oa_reserved_quantity = (if oi_side i = SELL then oi_quantity i else 0),
          oa_backend_order_id = None, oa_terminal_reason = None, oa_unknown_reason = None,
          oa_fill_fingerprints = []\<rparr>))"

definition remaining_quantity :: "order_aggregate \<Rightarrow> decimal result" where
  "remaining_quantity ord = quantize6 (dec_sub (oi_quantity (oa_intent ord)) (oa_filled_quantity ord))"

record position =
  pos_market_id :: string
  pos_outcome_id :: string
  pos_quantity :: decimal
  pos_reserved_quantity :: decimal
  pos_cost_basis :: money
  pos_realized_pnl :: money
  pos_status :: position_status
  pos_settlement_payout :: "decimal option"

definition empty_position :: "string \<Rightarrow> string \<Rightarrow> string \<Rightarrow> position result" where
  "empty_position market_id outcome_id cur =
     rbind (money_zero cur) (\<lambda>z.
     Inr \<lparr>pos_market_id = market_id, pos_outcome_id = outcome_id, pos_quantity = 0,
          pos_reserved_quantity = 0, pos_cost_basis = z, pos_realized_pnl = z,
          pos_status = OPEN, pos_settlement_payout = None\<rparr>)"

definition available_quantity :: "position \<Rightarrow> decimal result" where
  "available_quantity p = quantize6 (dec_sub (pos_quantity p) (pos_reserved_quantity p))"

section \<open>Market resolutions\<close>

record outcome_payout =
  op_outcome_id :: string
  op_payout :: decimal

definition outcome_payout_init :: "outcome_payout \<Rightarrow> outcome_payout result" where
  "outcome_payout_init p =
     rbind (quantize6 (op_payout p)) (\<lambda>payout.
     if \<not> (0 \<le> payout \<and> payout \<le> 1)
     then Inl (ValueError ''outcome payout must be between zero and one'')
     else Inr (p\<lparr>op_payout := payout\<rparr>))"

record market_resolution =
  mr_market_id :: string
  mr_payouts :: "outcome_payout list"
  mr_resolved_at :: datetime

definition market_resolution_init :: "market_resolution \<Rightarrow> market_resolution result" where
  "market_resolution_init r =
     rbind (require_text (mr_market_id r) ''market_id'') (\<lambda>_.
     rbind (require_aware (mr_resolved_at r) ''resolved_at'') (\<lambda>_.
     if mr_payouts r = []
     then Inl (ValueError ''market resolution requires at least one outcome payout'')
     else if \<not> distinct (map op_outcome_id (mr_payouts r))
     then Inl (ValueError ''market resolution contains duplicate outcome payouts'')
     else Inr r))"

fun payout_in :: "outcome_payout list \<Rightarrow> string \<Rightarrow> decimal result" where
  "payout_in [] outcome_id = Inl (InvariantViolation ''resolution has no payout for outcome'')"
| "payout_in (p # ps) outcome_id =
     (if op_outcome_id p = outcome_id then Inr (op_payout p) else payout_in ps outcome_id)"

definition payout_for :: "market_resolution \<Rightarrow> string \<Rightarrow> decimal result" where
  "payout_for r outcome_id = payout_in (mr_payouts r) outcome_id"

definition market_resolution_eq :: "market_resolution \<Rightarrow> market_resolution \<Rightarrow> bool" where
  "market_resolution_eq r s \<longleftrightarrow>
     mr_market_id r = mr_market_id s \<and> mr_payouts r = mr_payouts s
     \<and> dt_eq (mr_resolved_at r) (mr_resolved_at s)"

section \<open>Well-formed values\<close>

definition wf_intent :: "order_intent \<Rightarrow> bool" where
  "wf_intent i \<longleftrightarrow> dec6 (oi_quantity i) \<and> 0 < oi_quantity i \<and> dec6 (oi_limit_price i)
     \<and> 0 < oi_limit_price i \<and> oi_limit_price i \<le> 1 \<and> wf_money (oi_fee_reserve i)
     \<and> 0 \<le> amount (oi_fee_reserve i)
     \<and> (oi_side i = SELL \<longrightarrow> amount (oi_fee_reserve i) = 0)"

definition wf_payout :: "outcome_payout \<Rightarrow> bool" where
  "wf_payout p \<longleftrightarrow> dec6 (op_payout p) \<and> 0 \<le> op_payout p \<and> op_payout p \<le> 1"

definition wf_resolution :: "market_resolution \<Rightarrow> bool" where
  "wf_resolution r \<longleftrightarrow> list_all wf_payout (mr_payouts r)"

lemma order_intent_init_wf:
  assumes "order_intent_init i = Inr j" and "wf_money (oi_fee_reserve i)"
  shows "wf_intent j"
  using assms
  by (auto simp: order_intent_init_def result_simps require_nonnegative_def is_negative_def
      is_zero_def wf_intent_def dest!: quantize6_result)

lemma outcome_payout_init_wf: "outcome_payout_init p = Inr q \<Longrightarrow> wf_payout q"
  by (auto simp: outcome_payout_init_def result_simps wf_payout_def dest!: quantize6_result)

lemma payout_in_wf: "payout_in ps oc = Inr x \<Longrightarrow> list_all wf_payout ps \<Longrightarrow> dec6 x \<and> 0 \<le> x \<and> x \<le> 1"
  by (induction ps) (auto simp: wf_payout_def split: if_splits)

lemma limit_notional_ok:
  assumes "wf_intent i"
  shows "limit_notional i = Inr \<lparr>amount = unit_product (oi_limit_price i) (oi_quantity i),
    currency = currency (oi_fee_reserve i)\<rparr>"
  using assms by (simp add: limit_notional_def wf_intent_def wf_money_def money_from_unit_price_ok)

lemma cash_reservation_InrD:
  assumes "cash_reservation i = Inr m" and "wf_intent i"
  shows "m = \<lparr>amount = (if oi_side i = SELL then 0 else
      unit_product (oi_limit_price i) (oi_quantity i) + amount (oi_fee_reserve i)),
      currency = currency (oi_fee_reserve i)\<rparr> \<and> wf_money m"
proof (cases "oi_side i = SELL")
  case True
  then show ?thesis using assms by (auto simp: cash_reservation_def wf_intent_def wf_money_def)
next
  case False
  have n: "wf_money \<lparr>amount = unit_product (oi_limit_price i) (oi_quantity i),
      currency = currency (oi_fee_reserve i)\<rparr>"
    using assms(2) by (simp add: wf_intent_def wf_money_def)
  from False assms have "money_add \<lparr>amount = unit_product (oi_limit_price i) (oi_quantity i),
      currency = currency (oi_fee_reserve i)\<rparr> (oi_fee_reserve i) = Inr m"
    by (simp add: cash_reservation_def limit_notional_ok)
  from money_add_InrD [OF this n] False assms(2) show ?thesis by (auto simp: wf_intent_def)
qed

lemma order_intent_eq_refl [simp]: "order_intent_eq i i"
  by (simp add: order_intent_eq_def)

section \<open>Intent identifiers\<close>

lemma intent_payload_inj:
  assumes "intent_payload st d m oc s q l = intent_payload st' d' m' oc' s' q' l'"
    and "on_grid q" and "on_grid q'" and "on_grid l" and "on_grid l'"
  shows "st = st' \<and> d = d' \<and> m = m' \<and> oc = oc' \<and> s = s' \<and> q = q' \<and> l = l'"
proof -
  have strip: "json_string u @ x = json_string v @ y \<longleftrightarrow> u = v \<and> x = y" for u v x y
    using json_string_decode by blast
  have last: "json_string u = json_string v \<longleftrightarrow> u = v" for u v
    using strip [of u "[]" v "[]"] by simp
  have "side_value s = side_value s' \<Longrightarrow> s = s'" by (cases s; cases s') simp_all
  moreover have "d = d' \<and> fmt6 l = fmt6 l' \<and> m = m' \<and> oc = oc' \<and> fmt6 q = fmt6 q'
      \<and> side_value s = side_value s' \<and> st = st'"
    using assms(1) by (simp add: intent_payload_def json_object_def strip last)
  ultimately show ?thesis using assms(2-) fmt6_inj by blast
qed

end
