(* ===== verification/Evidence.thy ===== *)
theory Evidence
  imports Domain_Model "HOL-Library.List_Lexorder" "HOL-Library.Char_ord"
begin

text \<open>
  \<open>weatherbot/domain/observation.py\<close>, \<open>resolution.py\<close> and \<open>risk.py\<close>: immutable weather and
  resolution evidence, risk scopes and portfolio valuations, each with the validation of its
  constructor. The IANA time-zone database is a parameter: a zone maps UTC microseconds to its wall
  clock and back (the earlier reading of an ambiguous wall time).
\<close>

record zone =
  z_local :: "int \<Rightarrow> int"
  z_utc :: "int \<Rightarrow> int"

type_synonym tzdb = "string \<Rightarrow> zone option"

section \<open>Text, URL and digest checks\<close>

definition scheme_chars :: string where
  "scheme_chars = ''abcdefghijklmnopqrstuvwxyzABCDEFGHIJKLMNOPQRSTUVWXYZ0123456789+-.''"

definition alpha_chars :: string where
  "alpha_chars = ''abcdefghijklmnopqrstuvwxyzABCDEFGHIJKLMNOPQRSTUVWXYZ''"

text \<open>\<^verbatim>\<open>urlparse\<close>: the scheme and the network location of a URL.\<close>

definition url_split :: "string \<Rightarrow> (string \<times> string) result" where
  "url_split url =
     (let u = filter (\<lambda>c. c \<notin> {CHR 0x09, CHR 0x0A, CHR 0x0D}) url;
          pre = takeWhile (\<lambda>c. c \<noteq> CHR '':'') u;
          has_scheme = (length pre < length u \<and> pre \<noteq> [] \<and> hd pre \<in> set alpha_chars
                        \<and> list_all (\<lambda>c. c \<in> set scheme_chars) pre);
          scheme = (if has_scheme then lower pre else []);
          rest = (if has_scheme then drop (Suc (length pre)) u else u);
          netloc = (if take 2 rest = ''//''
                    then takeWhile (\<lambda>c. c \<notin> {CHR ''/'', CHR ''?'', CHR ''#''}) (drop 2 rest) else [])
      in if (CHR ''['' \<in> set netloc) \<noteq> (CHR '']'' \<in> set netloc)
         then Inl (ValueError ''Invalid IPv6 URL'')
         else Inr (scheme, netloc))"

definition require_url :: "string \<Rightarrow> string \<Rightarrow> string result" where
  "require_url v label =
     rbind (require_text v label) (\<lambda>normalized.
     rbind (url_split normalized) (\<lambda>(scheme, netloc).
     if scheme \<notin> {''http'', ''https''} \<or> netloc = []
     then Inl (ValueError (label @ '' must be an HTTP(S) URL''))
     else Inr normalized))"

definition is_sha256 :: "string \<Rightarrow> bool" where
  "is_sha256 s \<longleftrightarrow> length s = 64 \<and> list_all is_lower_hex s"

definition require_hash :: "string \<Rightarrow> string \<Rightarrow> string result" where
  "require_hash v label =
     rbind (require_text v label) (\<lambda>t.
     let normalized = lower t
     in if \<not> is_sha256 normalized
        then Inl (ValueError (label @ '' must be a lowercase SHA-256 digest'')) else Inr normalized)"

definition require_zone :: "tzdb \<Rightarrow> string \<Rightarrow> zone result" where
  "require_zone tz name =
     (case tz name of None \<Rightarrow> Inl (ValueError ''unknown IANA timezone'') | Some z \<Rightarrow> Inr z)"

definition local_date :: "zone \<Rightarrow> datetime \<Rightarrow> date" where
  "local_date z d = day_of (z_local z (dt_micros d))"

section \<open>Weather observation evidence\<close>

datatype observation_status = PROVISIONAL | FINAL | REVISED

fun status_learning_eligible :: "observation_status \<Rightarrow> bool" where
  "status_learning_eligible s \<longleftrightarrow> s \<in> {FINAL, REVISED}"

record weather_evidence =
  wo_market_id :: string
  wo_source_name :: string
  wo_source_url :: string
  wo_station_id :: string
  wo_measurement_basis :: string
  wo_market_date :: date
  wo_market_timezone :: string
  wo_temperature :: decimal
  wo_unit :: string
  wo_retrieved_at :: datetime
  wo_source_timestamp :: "datetime option"
  wo_source_revision :: string
  wo_status :: observation_status
  wo_payload_hash :: string
  wo_supersedes :: "string option"

definition wo_learning_eligible :: "weather_evidence \<Rightarrow> bool" where
  "wo_learning_eligible w = status_learning_eligible (wo_status w)"

text \<open>The given temperature is a Python value; \<^verbatim>\<open>Decimal(value)\<close> must be finite.\<close>

definition finite_temperature :: "py_value \<Rightarrow> decimal result" where
  "finite_temperature v = (case v of
      PyDecimal x \<Rightarrow> Inr x
    | PyInt n \<Rightarrow> Inr (of_int n)
    | PyBool b \<Rightarrow> Inr (if b then 1 else 0)
    | PyStr s \<Rightarrow> (case parse_decimal s of
          None \<Rightarrow> Inl (ValueError ''temperature must be decimal'')
        | Some None \<Rightarrow> Inl (ValueError ''temperature must be finite'')
        | Some (Some x) \<Rightarrow> Inr x)
    | PyDecimalSpecial \<Rightarrow> Inl (ValueError ''temperature must be finite'')
    | PyFloat x _ \<Rightarrow> Inr x
    | PyFloatSpecial _ \<Rightarrow> Inl (ValueError ''temperature must be finite'')
    | _ \<Rightarrow> Inl (TypeError ''conversion to Decimal is not supported''))"

definition source_timestamp_check :: "zone \<Rightarrow> weather_evidence \<Rightarrow> unit result" where
  "source_timestamp_check z w = (case wo_source_timestamp w of
      None \<Rightarrow> Inr ()
    | Some t \<Rightarrow>
        rbind (require_aware t ''source_timestamp'') (\<lambda>_.
        if local_date z t \<noteq> wo_market_date w
        then Inl (InvariantViolation ''source timestamp local date differs from the market date'')
        else Inr ()))"

definition supersedes_check ::
    "observation_status \<Rightarrow> string \<Rightarrow> string option \<Rightarrow> string option result" where
  "supersedes_check status payload_hash given =
     rbind (case given of
         None \<Rightarrow> Inr None
       | Some g \<Rightarrow>
           rbind (require_hash g ''supersedes_payload_hash'') (\<lambda>h.
           if h = payload_hash
           then Inl (InvariantViolation ''an observation revision cannot supersede itself'')
           else Inr (Some h)))
       (\<lambda>supersedes.
         if status = REVISED \<and> supersedes = None
         then Inl (InvariantViolation ''revised observation requires a superseded payload hash'')
         else if status \<noteq> REVISED \<and> supersedes \<noteq> None
         then Inl (InvariantViolation
                ''only revised observations may name a superseded payload hash'')
         else Inr supersedes)"

definition weather_evidence_init :: "tzdb \<Rightarrow> py_value \<Rightarrow> weather_evidence \<Rightarrow> weather_evidence result" where
  "weather_evidence_init tz raw_temperature w =
     (if strip (wo_market_id w) = [] then Inl (ValueError ''market_id must not be blank'') else
     rbind (require_text (wo_source_name w) ''source_name'') (\<lambda>source_name.
     rbind (require_url (wo_source_url w) ''source_url'') (\<lambda>source_url.
     rbind (require_text (wo_station_id w) ''station_id'') (\<lambda>station_id.
     rbind (require_text (wo_measurement_basis w) ''measurement_basis'') (\<lambda>measurement_basis.
     rbind (require_text (wo_market_timezone w) ''market_timezone'') (\<lambda>timezone_name.
     rbind (require_zone tz timezone_name) (\<lambda>z.
     rbind (finite_temperature raw_temperature) (\<lambda>temperature.
     rbind (require_text (wo_unit w) ''unit'') (\<lambda>raw_unit.
     let u = upper raw_unit in
     if u \<notin> {''C'', ''F''} then Inl (ValueError ''unit must be C or F'') else
     rbind (require_aware (wo_retrieved_at w) ''retrieved_at'') (\<lambda>_.
     rbind (source_timestamp_check z w) (\<lambda>_.
     rbind (require_text (wo_source_revision w) ''source_revision'') (\<lambda>source_revision.
     rbind (require_hash (wo_payload_hash w) ''payload_hash'') (\<lambda>payload_hash.
     rbind (supersedes_check (wo_status w) payload_hash (wo_supersedes w)) (\<lambda>supersedes.
     Inr (w\<lparr>wo_source_name := source_name, wo_source_url := source_url,
            wo_station_id := station_id, wo_measurement_basis := measurement_basis,
            wo_market_timezone := timezone_name, wo_temperature := temperature, wo_unit := u,
            wo_source_revision := source_revision, wo_payload_hash := payload_hash,
            wo_supersedes := supersedes\<rparr>)))))))))))))))"

definition opt_dt_eq :: "datetime option \<Rightarrow> datetime option \<Rightarrow> bool" where
  "opt_dt_eq a b = (case (a, b) of
      (None, None) \<Rightarrow> True | (Some x, Some y) \<Rightarrow> dt_eq x y | _ \<Rightarrow> False)"

text \<open>Dataclass equality.\<close>

definition weather_evidence_eq :: "weather_evidence \<Rightarrow> weather_evidence \<Rightarrow> bool" where
  "weather_evidence_eq v w \<longleftrightarrow>
     v\<lparr>wo_retrieved_at := wo_retrieved_at w, wo_source_timestamp := wo_source_timestamp w\<rparr> = w
     \<and> dt_eq (wo_retrieved_at v) (wo_retrieved_at w)
     \<and> opt_dt_eq (wo_source_timestamp v) (wo_source_timestamp w)"

lemma opt_dt_eq_refl [simp]: "opt_dt_eq a a"
  by (cases a) (simp_all add: opt_dt_eq_def)

lemma weather_evidence_eq_refl [simp]: "weather_evidence_eq w w"
  by (simp add: weather_evidence_eq_def)

lemma weather_evidence_eq_fields:
  "weather_evidence_eq v w \<Longrightarrow> wo_payload_hash v = wo_payload_hash w \<and> wo_status v = wo_status w
     \<and> wo_supersedes v = wo_supersedes w \<and> wo_market_id v = wo_market_id w"
  by (cases v; cases w) (simp add: weather_evidence_eq_def)

section \<open>Market resolution evidence\<close>

datatype resolution_status = VERIFIED | VOID

record resolution_evidence =
  re_market_id :: string
  re_condition_id :: string
  re_source_name :: string
  re_source_url :: string
  re_declared_resolution_source :: string
  re_retrieved_at :: datetime
  re_finalized_at :: datetime
  re_market_date :: date
  re_market_timezone :: string
  re_status :: resolution_status
  re_resolution_value :: string
  re_payouts :: "outcome_payout list"
  re_payload_hash :: string

definition is_condition_id :: "string \<Rightarrow> bool" where
  "is_condition_id s \<longleftrightarrow> take 2 s = ''0x'' \<and> is_sha256 (drop 2 s)"

text \<open>\<^verbatim>\<open>sum(values, Decimal("0"))\<close>.\<close>

definition dec_sum :: "decimal list \<Rightarrow> decimal" where
  "dec_sum xs = foldl dec_add 0 xs"

definition payout_vector_check :: "resolution_status \<Rightarrow> outcome_payout list \<Rightarrow> unit result" where
  "payout_vector_check status payouts =
     (if length payouts \<noteq> 2
      then Inl (InvariantViolation ''binary resolution evidence requires exactly two payouts'')
      else if card (set (map op_outcome_id payouts)) \<noteq> 2
      then Inl (InvariantViolation ''resolution evidence contains duplicate outcome IDs'')
      else (let values = map op_payout payouts in
        if dec_sum values \<noteq> 1
        then Inl (InvariantViolation ''binary resolution payouts must sum exactly to one'')
        else (let is_void = (values = [hd values, hd values]) in
          if status = VOID
          then (if \<not> is_void \<or> hd values \<noteq> 1 / 2
                then Inl (InvariantViolation ''void evidence requires a 0.5/0.5 payout vector'')
                else Inr ())
          else (if sort values \<noteq> [0, 1]
                then Inl (InvariantViolation ''verified evidence requires a 1/0 payout vector'')
                else Inr ()))))"

definition resolution_evidence_init ::
    "tzdb \<Rightarrow> resolution_evidence \<Rightarrow> resolution_evidence result" where
  "resolution_evidence_init tz e =
     (if strip (re_market_id e) = [] then Inl (ValueError ''market_id must not be blank'') else
     rbind (require_text (re_condition_id e) ''condition_id'') (\<lambda>raw_condition.
     let condition_id = lower raw_condition in
     if \<not> is_condition_id condition_id
     then Inl (ValueError ''condition_id must be a 32-byte hexadecimal identifier'') else
     rbind (require_text (re_source_name e) ''source_name'') (\<lambda>source_name.
     rbind (require_url (re_source_url e) ''source_url'') (\<lambda>source_url.
     rbind (require_url (re_declared_resolution_source e) ''declared_resolution_source'')
       (\<lambda>declared_source.
     rbind (require_aware (re_retrieved_at e) ''retrieved_at'') (\<lambda>_.
     rbind (require_aware (re_finalized_at e) ''finalized_at'') (\<lambda>_.
     if dt_micros (re_retrieved_at e) < dt_micros (re_finalized_at e)
     then Inl (InvariantViolation ''resolution finalization cannot occur after retrieval'') else
     rbind (require_text (re_market_timezone e) ''market_timezone'') (\<lambda>timezone_name.
     rbind (require_zone tz timezone_name) (\<lambda>_.
     rbind (require_text (re_resolution_value e) ''resolution_value'') (\<lambda>resolution_value.
     rbind (require_text (re_payload_hash e) ''payload_hash'') (\<lambda>raw_hash.
     let payload_hash = lower raw_hash in
     if \<not> is_sha256 payload_hash
     then Inl (ValueError ''payload_hash must be a lowercase SHA-256 digest'') else
     rbind (payout_vector_check (re_status e) (re_payouts e)) (\<lambda>_.
     Inr (e\<lparr>re_condition_id := condition_id, re_source_name := source_name,
            re_source_url := source_url, re_declared_resolution_source := declared_source,
            re_market_timezone := timezone_name, re_resolution_value := resolution_value,
            re_payload_hash := payload_hash\<rparr>)))))))))))))"

definition re_learning_eligible :: "resolution_evidence \<Rightarrow> bool" where
  "re_learning_eligible e \<longleftrightarrow> re_status e = VERIFIED"

definition resolution_evidence_eq :: "resolution_evidence \<Rightarrow> resolution_evidence \<Rightarrow> bool" where
  "resolution_evidence_eq d e \<longleftrightarrow>
     d\<lparr>re_retrieved_at := re_retrieved_at e, re_finalized_at := re_finalized_at e\<rparr> = e
     \<and> dt_eq (re_retrieved_at d) (re_retrieved_at e)
     \<and> dt_eq (re_finalized_at d) (re_finalized_at e)"

lemma resolution_evidence_eq_refl [simp]: "resolution_evidence_eq e e"
  by (simp add: resolution_evidence_eq_def)

section \<open>Risk scopes and valuations\<close>

type_synonym position_key = "string \<times> string"

record risk_scope =
  rs_market_id :: string
  rs_outcome_id :: string
  rs_event_id :: string
  rs_city_key :: string
  rs_market_date :: date
  rs_correlation_groups :: "string list"

text \<open>\<^verbatim>\<open>tuple(sorted({...}))\<close>.\<close>

definition sorted_set :: "string list \<Rightarrow> string list" where
  "sorted_set xs = sort (remdups xs)"

definition risk_scope_init :: "risk_scope \<Rightarrow> risk_scope result" where
  "risk_scope_init s =
     rbind (require_text (rs_market_id s) ''market_id'') (\<lambda>_.
     rbind (require_text (rs_outcome_id s) ''outcome_id'') (\<lambda>_.
     rbind (require_text (rs_event_id s) ''event_id'') (\<lambda>event_id.
     rbind (require_text (rs_city_key s) ''city_key'') (\<lambda>raw_city.
     rbind (rmap (\<lambda>group. require_text group ''correlation group'') (rs_correlation_groups s))
       (\<lambda>groups.
     Inr (s\<lparr>rs_event_id := event_id, rs_city_key := lower raw_city,
            rs_correlation_groups := sorted_set (map lower groups)\<rparr>))))))"

definition rs_position_key :: "risk_scope \<Rightarrow> position_key" where
  "rs_position_key s = (rs_market_id s, rs_outcome_id s)"

definition city_date_key :: "risk_scope \<Rightarrow> string" where
  "city_date_key s = rs_city_key s @ '':'' @ iso_date (rs_market_date s)"

definition all_correlation_groups :: "risk_scope \<Rightarrow> string list" where
  "all_correlation_groups s =
     sorted_set (
       (''date:'' @ iso_date (rs_market_date s)) #
       (''event:'' @ lower (rs_event_id s)) #
       rs_correlation_groups s)"

definition risk_scope_event_id :: "(string \<Rightarrow> string) \<Rightarrow> risk_scope \<Rightarrow> string" where
  "risk_scope_event_id sha s =
     ''risk_scope_'' @ sha (rs_market_id s @ [CHR 0x0A] @ rs_outcome_id s)"

record position_valuation =
  pv_market_id :: string
  pv_outcome_id :: string
  pv_quantity :: decimal
  pv_liquidation_value :: money
  pv_observed_at :: datetime

definition position_valuation_init :: "position_valuation \<Rightarrow> position_valuation result" where
  "position_valuation_init v =
     rbind (require_text (pv_market_id v) ''market_id'') (\<lambda>_.
     rbind (require_text (pv_outcome_id v) ''outcome_id'') (\<lambda>_.
     rbind (quantize6 (pv_quantity v)) (\<lambda>quantity.
     if quantity \<le> 0 then Inl (ValueError ''valuation quantity must be positive'') else
     rbind (require_nonnegative (pv_liquidation_value v) ''liquidation_value'') (\<lambda>_.
     rbind (require_aware (pv_observed_at v) ''valuation observed_at'') (\<lambda>_.
     Inr (v\<lparr>pv_quantity := quantity\<rparr>))))))"

definition pv_position_key :: "position_valuation \<Rightarrow> position_key" where
  "pv_position_key v = (pv_market_id v, pv_outcome_id v)"

record portfolio_valuation =
  pf_positions :: "position_valuation list"
  pf_equity :: money
  pf_assembled_at :: datetime
  pf_source :: string

definition mark_check :: "portfolio_valuation \<Rightarrow> unit \<Rightarrow> position_valuation \<Rightarrow> unit result" where
  "mark_check v u mark =
     (if currency (pv_liquidation_value mark) \<noteq> currency (pf_equity v)
      then Inl (ValueError ''portfolio valuation mixes currencies'')
      else if dt_micros (pf_assembled_at v) < dt_micros (pv_observed_at mark)
      then Inl (ValueError ''position valuation cannot be observed after assembly'')
      else Inr ())"

definition portfolio_valuation_init :: "portfolio_valuation \<Rightarrow> portfolio_valuation result" where
  "portfolio_valuation_init v =
     rbind (require_nonnegative (pf_equity v) ''portfolio equity'') (\<lambda>_.
     rbind (require_aware (pf_assembled_at v) ''valuation assembled_at'') (\<lambda>_.
     rbind (require_text (pf_source v) ''valuation source'') (\<lambda>source.
     if \<not> distinct (map pv_position_key (pf_positions v))
     then Inl (ValueError ''portfolio valuation contains duplicate position keys'') else
     rbind (rfold (mark_check v) () (pf_positions v)) (\<lambda>_.
     Inr (v\<lparr>pf_source := source\<rparr>)))))"

section \<open>What the constructors guarantee\<close>

lemma set_sorted_set [simp]: "set (sorted_set xs) = set xs"
  by (simp add: sorted_set_def)

lemma sorted_set_canonical:
  assumes "set xs = set ys"
  shows "sorted_set xs = sorted_set ys"
  unfolding sorted_set_def
  by (rule sorted_distinct_set_unique) (use assms in auto)

lemma scope_own_groups:
  "(''date:'' @ iso_date (rs_market_date s)) \<in> set (all_correlation_groups s)"
  "(''event:'' @ lower (rs_event_id s)) \<in> set (all_correlation_groups s)"
  by (simp_all add: all_correlation_groups_def)

lemma payout_vector_binary:
  assumes "payout_vector_check st ps = Inr u" and "list_all wf_payout ps"
  shows "\<exists>a b. map op_payout ps = [a, b] \<and> (st = VOID \<longrightarrow> a = 1 / 2 \<and> b = 1 / 2)
    \<and> (st = VERIFIED \<longrightarrow> {a, b} = {0, 1}) \<and> distinct (map op_outcome_id ps)"
proof -
  obtain p q where ps: "ps = [p, q]"
    using assms(1) by (auto simp: payout_vector_check_def numeral_2_eq_2 length_Suc_conv split: if_splits)
  have d: "distinct (map op_outcome_id ps)"
    using assms(1) by (intro card_distinct) (auto simp: payout_vector_check_def split: if_splits)
  show ?thesis
  proof (cases st)
    case VOID
    then show ?thesis using assms(1) ps d
      by (auto simp: payout_vector_check_def Let_def split: if_splits)
  next
    case VERIFIED
    then have "sort [op_payout p, op_payout q] = [0, 1]"
      using assms(1) ps by (auto simp: payout_vector_check_def Let_def split: if_splits)
    then have "set [op_payout p, op_payout q] = {0, 1}" by (metis list.simps(15) set_sort empty_set)
    with VERIFIED ps d show ?thesis by auto
  qed
qed

lemma supersedes_check_InrD:
  "supersedes_check st h g = Inr s \<Longrightarrow> (st = REVISED \<longleftrightarrow> s \<noteq> None) \<and> s \<noteq> Some h"
  by (auto simp: supersedes_check_def result_simps split: option.splits if_splits)

definition wf_valuation :: "portfolio_valuation \<Rightarrow> bool" where
  "wf_valuation v \<longleftrightarrow> wf_money (pf_equity v) \<and> distinct (map pv_position_key (pf_positions v))
     \<and> list_all (\<lambda>m. dec6 (pv_quantity m) \<and> wf_money (pv_liquidation_value m)
                     \<and> 0 \<le> amount (pv_liquidation_value m)) (pf_positions v)"

end
