(* ===== verification/Events.thy ===== *)
theory Events
  imports Evidence
begin

text \<open>
  \<open>weatherbot/domain/events.py\<close>: the fourteen ledger events, the validation of their
  constructors and the delivery fingerprint of a fill. A \<open>ledger_event\<close> has the fields of
  \<^verbatim>\<open>DomainEvent\<close> and a body, whose constructor is the event class. SHA-256 is the
  parameter \<open>sha\<close>.
\<close>

record fill =
  fl_intent_id :: string
  fl_fill_id :: string
  fl_quantity :: decimal
  fl_price :: decimal
  fl_fee :: money

datatype event_body =
    AccountOpened money
  | OrderIntentCreated order_intent
  | OrderSubmitted string string
  | OrderAcknowledged string
  | FillReceived fill
  | OrderRejected string string
  | OrderCancelled string string
  | OrderOutcomeUnknown string string
  | WeatherObservationRecorded weather_evidence
  | MarketResolutionEvidenceRecorded resolution_evidence
  | MarketResolved market_resolution
  | PositionSettled string string money
  | RiskScopeRegistered risk_scope
  | PortfolioValuationRecorded portfolio_valuation

record ledger_event =
  ev_event_id :: string
  ev_occurred_at :: datetime
  ev_body :: event_body

section \<open>Constructors\<close>

definition domain_event_init :: "ledger_event \<Rightarrow> unit result" where
  "domain_event_init e =
     (if strip (ev_event_id e) = [] then Inl (ValueError ''event_id must not be blank'')
      else require_aware (ev_occurred_at e) ''occurred_at'')"

definition fill_init :: "fill \<Rightarrow> fill result" where
  "fill_init f =
     rbind (quantize6 (fl_quantity f)) (\<lambda>quantity.
     rbind (quantize6 (fl_price f)) (\<lambda>price.
     if quantity \<le> 0 then Inl (ValueError ''fill quantity must be positive'')
     else if \<not> (0 < price \<and> price \<le> 1)
     then Inl (ValueError ''fill price must be greater than zero and at most one'')
     else if strip (fl_fill_id f) = [] then Inl (ValueError ''fill_id must not be blank'')
     else rbind (require_nonnegative (fl_fee f) ''fill fee'') (\<lambda>_.
       Inr (f\<lparr>fl_quantity := quantity, fl_price := price\<rparr>))))"

definition require_reason :: "string \<Rightarrow> string \<Rightarrow> unit result" where
  "require_reason reason label =
     (if strip reason = [] then Inl (ValueError (label @ '' must not be blank'')) else Inr ())"

fun event_body_init ::
    "(string \<Rightarrow> string) \<Rightarrow> string \<Rightarrow> datetime \<Rightarrow> event_body \<Rightarrow> event_body result" where
  "event_body_init sha eid t (AccountOpened m) =
     rbind (require_nonnegative m ''initial_cash'') (\<lambda>_. Inr (AccountOpened m))"
| "event_body_init sha eid t (OrderIntentCreated i) = Inr (OrderIntentCreated i)"
| "event_body_init sha eid t (OrderSubmitted i b) =
     (if strip b = [] then Inl (ValueError ''backend_order_id must not be blank'')
      else Inr (OrderSubmitted i b))"
| "event_body_init sha eid t (OrderAcknowledged i) = Inr (OrderAcknowledged i)"
| "event_body_init sha eid t (FillReceived f) = rbind (fill_init f) (\<lambda>g. Inr (FillReceived g))"
| "event_body_init sha eid t (OrderRejected i r) =
     rbind (require_reason r ''rejection reason'') (\<lambda>_. Inr (OrderRejected i r))"
| "event_body_init sha eid t (OrderCancelled i r) =
     rbind (require_reason r ''cancellation reason'') (\<lambda>_. Inr (OrderCancelled i r))"
| "event_body_init sha eid t (OrderOutcomeUnknown i r) =
     rbind (require_reason r ''unknown-outcome reason'') (\<lambda>_. Inr (OrderOutcomeUnknown i r))"
| "event_body_init sha eid t (WeatherObservationRecorded w) = Inr (WeatherObservationRecorded w)"
| "event_body_init sha eid t (MarketResolutionEvidenceRecorded v) =
     Inr (MarketResolutionEvidenceRecorded v)"
| "event_body_init sha eid t (MarketResolved r) = Inr (MarketResolved r)"
| "event_body_init sha eid t (PositionSettled m oc fee) =
     rbind (require_nonnegative fee ''settlement fee'') (\<lambda>_. Inr (PositionSettled m oc fee))"
| "event_body_init sha eid t (RiskScopeRegistered s) =
     (if eid \<noteq> risk_scope_event_id sha s
      then Inl (ValueError ''risk scope event_id must be stable for its position key'')
      else Inr (RiskScopeRegistered s))"
| "event_body_init sha eid t (PortfolioValuationRecorded v) =
     (if \<not> dt_eq t (pf_assembled_at v)
      then Inl (ValueError ''valuation event time must equal valuation assembly time'')
      else Inr (PortfolioValuationRecorded v))"

definition event_init :: "(string \<Rightarrow> string) \<Rightarrow> ledger_event \<Rightarrow> ledger_event result" where
  "event_init sha e =
     rbind (domain_event_init e) (\<lambda>_.
     rbind (event_body_init sha (ev_event_id e) (ev_occurred_at e) (ev_body e)) (\<lambda>b.
     Inr (e\<lparr>ev_body := b\<rparr>)))"

section \<open>The delivery fingerprint of a fill\<close>

text \<open>The canonical payload, in sorted key order, with the fee as a tagged dataclass.\<close>

definition money_json :: "money \<Rightarrow> string" where
  "money_json m = json_object [
     (''__type__'', json_string ''weatherbot.domain.money.Money''),
     (''amount'', json_string (fmt6 (amount m))),
     (''currency'', json_string (currency m))]"

definition fill_payload :: "fill \<Rightarrow> string" where
  "fill_payload f = json_object [
     (''fee'', money_json (fl_fee f)),
     (''fill_id'', json_string (fl_fill_id f)),
     (''intent_id'', json_string (fl_intent_id f)),
     (''price'', json_string (fmt6 (fl_price f))),
     (''quantity'', json_string (fmt6 (fl_quantity f)))]"

definition delivery_fingerprint :: "(string \<Rightarrow> string) \<Rightarrow> fill \<Rightarrow> string" where
  "delivery_fingerprint sha f = sha (fill_payload f)"

section \<open>What the constructors guarantee\<close>

definition wf_fill :: "fill \<Rightarrow> bool" where
  "wf_fill f \<longleftrightarrow> dec6 (fl_quantity f) \<and> 0 < fl_quantity f \<and> dec6 (fl_price f)
     \<and> 0 < fl_price f \<and> fl_price f \<le> 1 \<and> wf_money (fl_fee f) \<and> 0 \<le> amount (fl_fee f)"

fun wf_body :: "event_body \<Rightarrow> bool" where
  "wf_body (AccountOpened m) = (wf_money m \<and> 0 \<le> amount m)"
| "wf_body (OrderIntentCreated i) = wf_intent i"
| "wf_body (FillReceived f) = wf_fill f"
| "wf_body (MarketResolved r) = wf_resolution r"
| "wf_body (PositionSettled m oc fee) = (wf_money fee \<and> 0 \<le> amount fee)"
| "wf_body (PortfolioValuationRecorded v) = wf_valuation v"
| "wf_body _ = True"

text \<open>The nested values are built by their own constructors before the event is.\<close>

fun wf_parts :: "event_body \<Rightarrow> bool" where
  "wf_parts (AccountOpened m) = wf_money m"
| "wf_parts (OrderIntentCreated i) = wf_intent i"
| "wf_parts (FillReceived f) = wf_money (fl_fee f)"
| "wf_parts (MarketResolved r) = wf_resolution r"
| "wf_parts (PositionSettled m oc fee) = wf_money fee"
| "wf_parts (PortfolioValuationRecorded v) = wf_valuation v"
| "wf_parts _ = True"

definition wf_event :: "ledger_event \<Rightarrow> bool" where
  "wf_event e = wf_body (ev_body e)"

lemma fill_init_wf: "fill_init f = Inr g \<Longrightarrow> wf_money (fl_fee f) \<Longrightarrow> wf_fill g"
  by (auto simp: fill_init_def result_simps require_nonnegative_def is_negative_def wf_fill_def
      dest!: quantize6_result)

lemma event_init_wf:
  assumes "event_init sha e = Inr e'" and "wf_parts (ev_body e)"
  shows "wf_event e' \<and> strip (ev_event_id e') \<noteq> [] \<and> dt_aware (ev_occurred_at e')"
  using assms
  by (cases "ev_body e")
    (auto simp: event_init_def domain_event_init_def result_simps wf_event_def
      require_nonnegative_def is_negative_def fill_init_wf split: if_splits)

text \<open>
  The payload determines the delivery: two fills with amounts on the grid and the same payload
  are equal, so a reused fill identifier with other data has another payload.
\<close>

lemma json_string_append_eq:
  "json_string u @ x = json_string v @ y \<longleftrightarrow> u = v \<and> x = y"
  using json_string_decode by blast

lemma json_string_eq: "json_string u = json_string v \<longleftrightarrow> u = v"
  using json_string_append_eq [of u "[]" v "[]"] by simp

lemma fill_payload_inj:
  assumes "fill_payload f = fill_payload g"
    and "wf_fill f" and "wf_fill g"
  shows "f = g"
proof -
  have "fl_intent_id f = fl_intent_id g \<and> fl_fill_id f = fl_fill_id g
      \<and> fmt6 (fl_quantity f) = fmt6 (fl_quantity g) \<and> fmt6 (fl_price f) = fmt6 (fl_price g)
      \<and> fmt6 (amount (fl_fee f)) = fmt6 (amount (fl_fee g))
      \<and> currency (fl_fee f) = currency (fl_fee g)"
    using assms(1)
    by (simp add: fill_payload_def money_json_def json_object_def json_string_append_eq json_string_eq)
  then show ?thesis
    using assms(2,3) fmt6_inj
    by (cases f; cases g; cases "fl_fee f"; cases "fl_fee g")
      (auto simp: wf_fill_def wf_money_def dest: dec6_grid)
qed

end
