(* ===== verification/Ledger_State.thy ===== *)
theory Ledger_State
  imports Events
begin

text \<open>
  \<open>weatherbot/domain/state.py\<close>: the ledger state and \<open>assert_invariants\<close>, the check that
  runs after every event. The check is modelled as it is written, three loops with accumulators
  that may raise; \<open>ledger_ok\<close> states declaratively what it accepts and the two are
  proved equivalent on states whose amounts passed \<open>as_decimal\<close>.
\<close>

record ledger_state =
  ls_currency :: string
  ls_opened :: bool
  ls_cash :: money
  ls_reserved_cash :: money
  ls_orders :: "(string, order_aggregate) dict"
  ls_positions :: "(position_key, position) dict"
  ls_resolutions :: "(string, market_resolution) dict"
  ls_resolution_evidence :: "(string, resolution_evidence) dict"
  ls_weather :: "(string, weather_evidence list) dict"
  ls_fingerprints :: "(string, string) dict"

definition position_key :: "string \<Rightarrow> string \<Rightarrow> position_key" where
  "position_key market_id outcome_id = (market_id, outcome_id)"

text \<open>
  \<^verbatim>\<open>__post_init__\<close>; it runs again at every \<^verbatim>\<open>dataclasses.replace\<close>, where
  the currency is already normal (\<open>ledger_state_init_normal\<close>). Freezing the mappings has no
  counterpart: values are immutable here.
\<close>

definition ledger_state_init :: "ledger_state \<Rightarrow> ledger_state result" where
  "ledger_state_init s =
     (let c = upper (strip (ls_currency s))
      in if c = [] then Inl (ValueError ''ledger currency must not be blank'')
         else Inr (s\<lparr>ls_currency := c\<rparr>))"

definition ledger_empty :: "string \<Rightarrow> ledger_state result" where
  "ledger_empty cur =
     (let normalized = upper (strip cur)
      in rbind (money_zero normalized) (\<lambda>cash.
         rbind (money_zero normalized) (\<lambda>reserved.
         ledger_state_init
           \<lparr>ls_currency = normalized, ls_opened = False, ls_cash = cash, ls_reserved_cash = reserved,
            ls_orders = [], ls_positions = [], ls_resolutions = [], ls_resolution_evidence = [],
            ls_weather = [], ls_fingerprints = []\<rparr>)))"

definition available_cash :: "ledger_state \<Rightarrow> money result" where
  "available_cash s = money_sub (ls_cash s) (ls_reserved_cash s)"

lemma ledger_state_init_normal: "cur_ok (ls_currency s) \<Longrightarrow> ledger_state_init s = Inr s"
  by (simp add: ledger_state_init_def cur_ok_def Let_def)

section \<open>The invariant check as it is written\<close>

definition require_order_money :: "string \<Rightarrow> unit \<Rightarrow> string \<times> money \<Rightarrow> unit result" where
  "require_order_money cur u x =
     (if currency (snd x) \<noteq> cur then Inl (InvariantViolation (fst x @ '' uses a different currency''))
      else require_nonnegative (snd x) (fst x))"

definition check_buy_order :: "string \<Rightarrow> order_aggregate \<Rightarrow> unit result" where
  "check_buy_order cur ord =
     (if oa_reserved_quantity ord \<noteq> 0
      then Inl (InvariantViolation ''buy orders must not reserve position quantity'')
      else rbind (money_sub (oi_fee_reserve (oa_intent ord)) (oa_fees ord)) (\<lambda>remaining_fee_reserve.
        rbind (require_nonnegative remaining_fee_reserve ''remaining fee reserve'') (\<lambda>_.
        if is_terminal (oa_state ord) then Inr ()
        else rbind (remaining_quantity ord) (\<lambda>remaining.
          rbind (money_from_unit_price (PyDecimal (oi_limit_price (oa_intent ord)))
                   (PyDecimal remaining) cur) (\<lambda>notional.
          rbind (money_add notional remaining_fee_reserve) (\<lambda>expected.
          if oa_reserved_cash ord \<noteq> expected
          then Inl (InvariantViolation
                 ''buy order reservation does not cover remaining quantity and fees'')
          else Inr ()))))))"

definition check_sell_order :: "order_aggregate \<Rightarrow> unit result" where
  "check_sell_order ord =
     (if \<not> is_zero (oa_reserved_cash ord)
      then Inl (InvariantViolation ''sell orders must not reserve cash'')
      else if is_terminal (oa_state ord) then Inr ()
      else rbind (remaining_quantity ord) (\<lambda>remaining.
        if oa_reserved_quantity ord \<noteq> remaining
        then Inl (InvariantViolation ''sell order reservation does not equal remaining quantity'')
        else Inr ()))"

definition check_order_common :: "string \<Rightarrow> string \<Rightarrow> order_aggregate \<Rightarrow> unit result" where
  "check_order_common cur intent_id ord =
     (if intent_id \<noteq> oi_intent_id (oa_intent ord)
      then Inl (InvariantViolation ''order map key does not match intent identifier'')
      else if oa_filled_quantity ord < 0 \<or> oi_quantity (oa_intent ord) < oa_filled_quantity ord
      then Inl (InvariantViolation ''order filled quantity is outside valid bounds'')
      else rbind (rfold (require_order_money cur) ()
             [(''order gross value'', oa_gross_value ord), (''order fees'', oa_fees ord),
              (''order reserved cash'', oa_reserved_cash ord),
              (''order fee reserve'', oi_fee_reserve (oa_intent ord))]) (\<lambda>_.
        if oa_reserved_quantity ord < 0
        then Inl (InvariantViolation ''order reserved quantity must not be negative'')
        else if is_terminal (oa_state ord)
                \<and> (\<not> is_zero (oa_reserved_cash ord) \<or> oa_reserved_quantity ord \<noteq> 0)
        then Inl (InvariantViolation ''terminal orders must retain no reservation'')
        else Inr ()))"

text \<open>A \<^verbatim>\<open>defaultdict(lambda: as_decimal(0))\<close>.\<close>

definition sell_get :: "(position_key, decimal) dict \<Rightarrow> position_key \<Rightarrow> decimal" where
  "sell_get d k = (case dict_get d k of None \<Rightarrow> 0 | Some q \<Rightarrow> q)"

definition order_key :: "order_aggregate \<Rightarrow> position_key" where
  "order_key ord = position_key (oi_market_id (oa_intent ord)) (oi_outcome_id (oa_intent ord))"

definition check_order ::
    "string \<Rightarrow> money \<times> (position_key, decimal) dict \<Rightarrow> string \<times> order_aggregate \<Rightarrow>
     (money \<times> (position_key, decimal) dict) result" where
  "check_order cur acc entry =
     (let (expected, sells) = acc; (intent_id, ord) = entry
      in rbind (check_order_common cur intent_id ord) (\<lambda>_.
         if oi_side (oa_intent ord) = BUY
         then rbind (check_buy_order cur ord) (\<lambda>_.
           rbind (money_add expected (oa_reserved_cash ord)) (\<lambda>expected'.
           Inr (expected', sells)))
         else rbind (check_sell_order ord) (\<lambda>_.
           let key = order_key ord
           in Inr (expected, dict_set sells key (dec_add (sell_get sells key) (oa_reserved_quantity ord))))))"

definition check_position ::
    "(position_key, decimal) dict \<Rightarrow> unit \<Rightarrow> position_key \<times> position \<Rightarrow> unit result" where
  "check_position sells u entry =
     (let (key, p) = entry
      in if key \<noteq> position_key (pos_market_id p) (pos_outcome_id p)
         then Inl (InvariantViolation ''position map key does not match position identity'')
         else if pos_quantity p < 0 \<or> pos_reserved_quantity p < 0
         then Inl (InvariantViolation ''position quantities must not be negative'')
         else if pos_quantity p < pos_reserved_quantity p
         then Inl (InvariantViolation ''reserved position quantity exceeds total quantity'')
         else rbind (require_nonnegative (pos_cost_basis p) ''position cost basis'') (\<lambda>_.
           if pos_reserved_quantity p \<noteq> sell_get sells key
           then Inl (InvariantViolation
                  ''position reservation does not equal active sell-order reservations'')
           else if pos_status p = SETTLED
                   \<and> (pos_quantity p \<noteq> 0 \<or> pos_reserved_quantity p \<noteq> 0 \<or> \<not> is_zero (pos_cost_basis p))
           then Inl (InvariantViolation ''settled positions must have zero open exposure'')
           else Inr ()))"

definition check_sell_key ::
    "(position_key, position) dict \<Rightarrow> unit \<Rightarrow> position_key \<times> decimal \<Rightarrow> unit result" where
  "check_sell_key positions u entry =
     (if snd entry \<noteq> 0 \<and> dict_get positions (fst entry) = None
      then Inl (InvariantViolation ''sell order reserves a missing position'') else Inr ())"

definition check_evidence ::
    "(string, market_resolution) dict \<Rightarrow> unit \<Rightarrow> string \<times> resolution_evidence \<Rightarrow> unit result" where
  "check_evidence resolutions u entry =
     (let (market_id, evidence) = entry
      in if market_id \<noteq> re_market_id evidence
         then Inl (InvariantViolation ''resolution evidence map key does not match market'')
         else case dict_get resolutions market_id of
             None \<Rightarrow> Inr ()
           | Some resolution \<Rightarrow>
               if mr_payouts resolution \<noteq> re_payouts evidence
               then Inl (InvariantViolation
                      ''recorded resolution differs from its authoritative evidence'')
               else Inr ())"

text \<open>
  The weather history of one market: the loop carries the payload hashes seen so far and the
  terminal observations; afterwards the terminal history must be one linear chain.
\<close>

definition check_observation ::
    "string \<Rightarrow> string list \<times> weather_evidence list \<Rightarrow> weather_evidence \<Rightarrow>
     (string list \<times> weather_evidence list) result" where
  "check_observation market_id acc w =
     (let (hashes, terminal) = acc
      in if wo_market_id w \<noteq> market_id
         then Inl (InvariantViolation ''weather observation map key does not match market'')
         else if wo_payload_hash w \<in> set hashes
         then Inl (InvariantViolation
                ''weather observation history contains a duplicate payload hash'')
         else if wo_supersedes w \<noteq> None \<and> the (wo_supersedes w) \<notin> set hashes
         then Inl (InvariantViolation
                ''weather observation revision supersedes an unknown prior payload'')
         else Inr (wo_payload_hash w # hashes,
                   if wo_learning_eligible w then terminal @ [w] else terminal))"

fun chain_ok :: "weather_evidence list \<Rightarrow> bool" where
  "chain_ok (v # w # ws) \<longleftrightarrow>
     wo_status w = REVISED \<and> wo_supersedes w = Some (wo_payload_hash v) \<and> chain_ok (w # ws)"
| "chain_ok ws \<longleftrightarrow> True"

definition check_terminal :: "weather_evidence list \<Rightarrow> unit result" where
  "check_terminal terminal = (case terminal of
      [] \<Rightarrow> Inr ()
    | first # rest \<Rightarrow>
        if wo_status first \<noteq> FINAL \<or> wo_supersedes first \<noteq> None
        then Inl (InvariantViolation
               ''weather observation terminal history must begin with one final root'')
        else if \<not> chain_ok (first # rest)
        then Inl (InvariantViolation
               ''weather observation terminal revisions must form one linear chain'')
        else Inr ())"

definition check_weather :: "unit \<Rightarrow> string \<times> weather_evidence list \<Rightarrow> unit result" where
  "check_weather u entry =
     rbind (rfold (check_observation (fst entry)) ([], []) (snd entry)) (\<lambda>acc.
     check_terminal (snd acc))"

definition assert_invariants :: "ledger_state \<Rightarrow> unit result" where
  "assert_invariants s =
     (if currency (ls_cash s) \<noteq> ls_currency s \<or> currency (ls_reserved_cash s) \<noteq> ls_currency s
      then Inl (InvariantViolation ''ledger money uses a different currency'') else
      rbind (require_nonnegative (ls_cash s) ''cash'') (\<lambda>_.
      rbind (require_nonnegative (ls_reserved_cash s) ''reserved_cash'') (\<lambda>_.
      rbind (available_cash s) (\<lambda>available.
      rbind (require_nonnegative available ''available_cash'') (\<lambda>_.
      rbind (money_zero (ls_currency s)) (\<lambda>z.
      rbind (rfold (check_order (ls_currency s)) (z, []) (ls_orders s)) (\<lambda>(expected, sells).
      if expected \<noteq> ls_reserved_cash s
      then Inl (InvariantViolation
             ''ledger reserved cash does not equal active order reservations'') else
      rbind (rfold (check_position sells) () (ls_positions s)) (\<lambda>_.
      rbind (rfold (check_sell_key (ls_positions s)) () sells) (\<lambda>_.
      rbind (rfold (check_evidence (ls_resolutions s)) () (ls_resolution_evidence s)) (\<lambda>_.
      rbind (rfold check_weather () (ls_weather s)) (\<lambda>_.
      if \<not> ls_opened s \<and> (\<not> is_zero (ls_cash s) \<or> \<not> is_zero (ls_reserved_cash s)
           \<or> ls_orders s \<noteq> [] \<or> ls_positions s \<noteq> [] \<or> ls_resolutions s \<noteq> []
           \<or> ls_resolution_evidence s \<noteq> [] \<or> ls_weather s \<noteq> [])
      then Inl (InvariantViolation ''an unopened ledger must have no financial state'')
      else Inr ())))))))))))"


section \<open>What the check accepts\<close>

definition buy_reserved :: "order_aggregate \<Rightarrow> rat" where
  "buy_reserved ord = (if oi_side (oa_intent ord) = BUY then amount (oa_reserved_cash ord) else 0)"

definition sell_reserved :: "position_key \<Rightarrow> order_aggregate \<Rightarrow> rat" where
  "sell_reserved key ord =
     (if oi_side (oa_intent ord) = SELL \<and> order_key ord = key then oa_reserved_quantity ord else 0)"

definition order_money_ok :: "string \<Rightarrow> money \<Rightarrow> bool" where
  "order_money_ok cur m \<longleftrightarrow> currency m = cur \<and> 0 \<le> amount m"

definition order_ok :: "string \<Rightarrow> string \<Rightarrow> order_aggregate \<Rightarrow> bool" where
  "order_ok cur k ord \<longleftrightarrow>
     k = oi_intent_id (oa_intent ord)
     \<and> 0 \<le> oa_filled_quantity ord \<and> oa_filled_quantity ord \<le> oi_quantity (oa_intent ord)
     \<and> order_money_ok cur (oa_gross_value ord) \<and> order_money_ok cur (oa_fees ord)
     \<and> order_money_ok cur (oa_reserved_cash ord)
     \<and> order_money_ok cur (oi_fee_reserve (oa_intent ord))
     \<and> 0 \<le> oa_reserved_quantity ord
     \<and> (is_terminal (oa_state ord) \<longrightarrow>
          amount (oa_reserved_cash ord) = 0 \<and> oa_reserved_quantity ord = 0)
     \<and> (oi_side (oa_intent ord) = BUY \<longrightarrow>
          oa_reserved_quantity ord = 0
          \<and> amount (oa_fees ord) \<le> amount (oi_fee_reserve (oa_intent ord))
          \<and> (\<not> is_terminal (oa_state ord) \<longrightarrow>
               amount (oa_reserved_cash ord) =
                 unit_product (oi_limit_price (oa_intent ord))
                   (oi_quantity (oa_intent ord) - oa_filled_quantity ord)
                 + (amount (oi_fee_reserve (oa_intent ord)) - amount (oa_fees ord))))
     \<and> (oi_side (oa_intent ord) = SELL \<longrightarrow>
          amount (oa_reserved_cash ord) = 0
          \<and> (\<not> is_terminal (oa_state ord) \<longrightarrow>
               oa_reserved_quantity ord = oi_quantity (oa_intent ord) - oa_filled_quantity ord))"

definition position_ok :: "position_key \<Rightarrow> position \<Rightarrow> rat \<Rightarrow> bool" where
  "position_ok key p reserved \<longleftrightarrow>
     key = (pos_market_id p, pos_outcome_id p)
     \<and> 0 \<le> pos_reserved_quantity p \<and> pos_reserved_quantity p \<le> pos_quantity p
     \<and> 0 \<le> amount (pos_cost_basis p) \<and> pos_reserved_quantity p = reserved
     \<and> (pos_status p = SETTLED \<longrightarrow> pos_quantity p = 0 \<and> amount (pos_cost_basis p) = 0)"

fun hist_ok :: "string set \<Rightarrow> string \<Rightarrow> weather_evidence list \<Rightarrow> bool" where
  "hist_ok hs m [] \<longleftrightarrow> True"
| "hist_ok hs m (w # ws) \<longleftrightarrow>
     wo_market_id w = m \<and> wo_payload_hash w \<notin> hs
     \<and> (\<forall>h \<in> set_option (wo_supersedes w). h \<in> hs)
     \<and> hist_ok (insert (wo_payload_hash w) hs) m ws"

definition terminal_ok :: "weather_evidence list \<Rightarrow> bool" where
  "terminal_ok ts \<longleftrightarrow>
     ts = [] \<or> wo_status (hd ts) = FINAL \<and> wo_supersedes (hd ts) = None \<and> chain_ok ts"

definition weather_ok :: "string \<Rightarrow> weather_evidence list \<Rightarrow> bool" where
  "weather_ok m ws \<longleftrightarrow> hist_ok {} m ws \<and> terminal_ok (filter wo_learning_eligible ws)"

definition evidence_ok :: "(string, market_resolution) dict \<Rightarrow> string \<Rightarrow> resolution_evidence \<Rightarrow> bool" where
  "evidence_ok resolutions m v \<longleftrightarrow>
     m = re_market_id v \<and> (\<forall>r. dict_get resolutions m = Some r \<longrightarrow> mr_payouts r = re_payouts v)"

definition ledger_ok :: "ledger_state \<Rightarrow> bool" where
  "ledger_ok s \<longleftrightarrow>
     currency (ls_cash s) = ls_currency s \<and> currency (ls_reserved_cash s) = ls_currency s
     \<and> 0 \<le> amount (ls_reserved_cash s) \<and> amount (ls_reserved_cash s) \<le> amount (ls_cash s)
     \<and> (\<forall>(k, ord) \<in> set (ls_orders s). order_ok (ls_currency s) k ord)
     \<and> amount (ls_reserved_cash s) = dict_sum (\<lambda>_. buy_reserved) (ls_orders s)
     \<and> (\<forall>(key, p) \<in> set (ls_positions s).
          position_ok key p (dict_sum (\<lambda>_. sell_reserved key) (ls_orders s)))
     \<and> (\<forall>(k, ord) \<in> set (ls_orders s).
          oi_side (oa_intent ord) = SELL \<and> oa_reserved_quantity ord \<noteq> 0 \<longrightarrow>
          dict_get (ls_positions s) (order_key ord) \<noteq> None)
     \<and> (\<forall>(m, v) \<in> set (ls_resolution_evidence s). evidence_ok (ls_resolutions s) m v)
     \<and> (\<forall>(m, ws) \<in> set (ls_weather s). weather_ok m ws)
     \<and> (ls_opened s \<or> amount (ls_cash s) = 0 \<and> ls_orders s = [] \<and> ls_positions s = []
          \<and> ls_resolutions s = [] \<and> ls_resolution_evidence s = [] \<and> ls_weather s = [])"

section \<open>Typed states\<close>

text \<open>Every amount is on the six-decimal grid and every mapping has distinct keys.\<close>

definition wf_order :: "order_aggregate \<Rightarrow> bool" where
  "wf_order ord \<longleftrightarrow> wf_intent (oa_intent ord) \<and> dec6 (oa_filled_quantity ord)
     \<and> wf_money (oa_gross_value ord) \<and> wf_money (oa_fees ord) \<and> wf_money (oa_reserved_cash ord)
     \<and> dec6 (oa_reserved_quantity ord) \<and> dict_ok (oa_fill_fingerprints ord)"

definition wf_position :: "string \<Rightarrow> position \<Rightarrow> bool" where
  "wf_position cur p \<longleftrightarrow> dec6 (pos_quantity p) \<and> dec6 (pos_reserved_quantity p)
     \<and> wf_money (pos_cost_basis p) \<and> wf_money (pos_realized_pnl p)
     \<and> currency (pos_cost_basis p) = cur \<and> currency (pos_realized_pnl p) = cur"

definition wf_ledger :: "ledger_state \<Rightarrow> bool" where
  "wf_ledger s \<longleftrightarrow>
     cur_ok (ls_currency s) \<and> wf_money (ls_cash s) \<and> wf_money (ls_reserved_cash s)
     \<and> dict_ok (ls_orders s) \<and> dict_ok (ls_positions s) \<and> dict_ok (ls_resolutions s)
     \<and> dict_ok (ls_resolution_evidence s) \<and> dict_ok (ls_weather s) \<and> dict_ok (ls_fingerprints s)
     \<and> (\<forall>(k, ord) \<in> set (ls_orders s). wf_order ord)
     \<and> (\<forall>(k, p) \<in> set (ls_positions s). wf_position (ls_currency s) p)
     \<and> (\<forall>(k, r) \<in> set (ls_resolutions s). wf_resolution r)"

end
