(* ===== verification/Ledger_Invariant.thy ===== *)
theory Ledger_Invariant
  imports Ledger_State
begin

text \<open>
  The equivalence of \<open>assert_invariants\<close> with \<open>ledger_ok\<close>: one lemma per check, one per
  loop, and the accumulators of the order loop against exact sums.
\<close>

section \<open>Orders\<close>

lemma remaining_quantity_eq:
  assumes "dec6 (oi_quantity (oa_intent ord))" and "dec6 (oa_filled_quantity ord)"
    and "0 \<le> oa_filled_quantity ord" and "oa_filled_quantity ord \<le> oi_quantity (oa_intent ord)"
  shows "remaining_quantity ord = Inr (oi_quantity (oa_intent ord) - oa_filled_quantity ord)"
proof -
  let ?x = "oi_quantity (oa_intent ord) - oa_filled_quantity ord"
  have "\<bar>?x\<bar> < 10 ^ 22" using assms by (simp add: dec6_def)
  then show ?thesis
    using assms by (simp add: remaining_quantity_def dec_sub_def quantize6_ctx_grid dec6_def)
qed

lemma check_order_common_iff:
  "check_order_common cur k ord = Inr u \<longleftrightarrow>
     k = oi_intent_id (oa_intent ord)
     \<and> 0 \<le> oa_filled_quantity ord \<and> oa_filled_quantity ord \<le> oi_quantity (oa_intent ord)
     \<and> order_money_ok cur (oa_gross_value ord) \<and> order_money_ok cur (oa_fees ord)
     \<and> order_money_ok cur (oa_reserved_cash ord)
     \<and> order_money_ok cur (oi_fee_reserve (oa_intent ord))
     \<and> 0 \<le> oa_reserved_quantity ord
     \<and> (is_terminal (oa_state ord) \<longrightarrow>
          amount (oa_reserved_cash ord) = 0 \<and> oa_reserved_quantity ord = 0)"
  by (auto simp: check_order_common_def require_order_money_def require_nonnegative_def
      is_negative_def is_zero_def order_money_ok_def result_simps simp del: is_terminal.simps)

lemma check_buy_order_iff:
  assumes "wf_order ord" and "0 \<le> oa_filled_quantity ord"
    and "oa_filled_quantity ord \<le> oi_quantity (oa_intent ord)"
    and "order_money_ok cur (oa_fees ord)" and "order_money_ok cur (oa_reserved_cash ord)"
    and "order_money_ok cur (oi_fee_reserve (oa_intent ord))"
  shows "check_buy_order cur ord = Inr u \<longleftrightarrow>
     oa_reserved_quantity ord = 0
     \<and> amount (oa_fees ord) \<le> amount (oi_fee_reserve (oa_intent ord))
     \<and> (\<not> is_terminal (oa_state ord) \<longrightarrow>
          amount (oa_reserved_cash ord) =
            unit_product (oi_limit_price (oa_intent ord))
              (oi_quantity (oa_intent ord) - oa_filled_quantity ord)
            + (amount (oi_fee_reserve (oa_intent ord)) - amount (oa_fees ord)))"
proof -
  let ?i = "oa_intent ord"
  let ?q = "oi_quantity ?i - oa_filled_quantity ord"
  let ?n = "\<lparr>amount = unit_product (oi_limit_price ?i) ?q, currency = cur\<rparr>"
  let ?f = "\<lparr>amount = amount (oi_fee_reserve ?i) - amount (oa_fees ord), currency = cur\<rparr>"
  have w: "wf_intent ?i" "wf_money (oa_fees ord)" "wf_money (oi_fee_reserve ?i)"
    "dec6 (oa_filled_quantity ord)" "wf_money (oa_reserved_cash ord)"
    using assms(1) by (auto simp: wf_order_def wf_intent_def)
  have c: "cur_ok cur" "currency (oa_fees ord) = cur" "currency (oi_fee_reserve ?i) = cur"
    "currency (oa_reserved_cash ord) = cur"
    using assms w by (auto simp: order_money_ok_def wf_money_def)
  have a: "0 \<le> amount (oa_fees ord)" "0 \<le> amount (oi_fee_reserve ?i)"
    "amount (oi_fee_reserve ?i) < 10 ^ 22" "amount (oa_fees ord) < 10 ^ 22"
    using assms w by (auto simp: order_money_ok_def wf_money_def dec6_def)
  have f: "money_sub (oi_fee_reserve ?i) (oa_fees ord) = Inr ?f"
    using a c w by (simp add: money_sub_eq)
  have r: "remaining_quantity ord = Inr ?q"
    using assms w by (intro remaining_quantity_eq) (auto simp: wf_intent_def)
  have dq: "dec6 ?q" using assms w by (auto simp: dec6_def wf_intent_def)
  have n: "money_from_unit_price (PyDecimal (oi_limit_price ?i)) (PyDecimal ?q) cur = Inr ?n"
    using w(1) dq c(1) assms(2,3) by (intro money_from_unit_price_ok) (auto simp: wf_intent_def)
  have "wf_money ?f" using a c w by (auto simp: wf_money_def dec6_def)
  moreover have "wf_money ?n"
    using w(1) dq c(1) assms(2,3) by (auto simp: wf_intent_def)
  moreover have "amount (oa_reserved_cash ord) < 10 ^ 22" using w(5) by (auto simp: wf_money_def dec6_def)
  moreover have "0 \<le> amount ?n"
    using w(1) assms(3) by (auto simp: wf_intent_def intro!: unit_product_nonneg mult_nonneg_nonneg)
  ultimately show ?thesis
    using c(4) unfolding check_buy_order_def f r
    by (cases "oa_reserved_cash ord")
      (auto simp: n money_add_eq require_nonnegative_def is_negative_def result_simps
        simp del: is_terminal.simps)
qed

lemma check_sell_order_iff:
  assumes "wf_order ord" and "0 \<le> oa_filled_quantity ord"
    and "oa_filled_quantity ord \<le> oi_quantity (oa_intent ord)"
  shows "check_sell_order ord = Inr u \<longleftrightarrow>
     amount (oa_reserved_cash ord) = 0
     \<and> (\<not> is_terminal (oa_state ord) \<longrightarrow>
          oa_reserved_quantity ord = oi_quantity (oa_intent ord) - oa_filled_quantity ord)"
proof -
  have "remaining_quantity ord = Inr (oi_quantity (oa_intent ord) - oa_filled_quantity ord)"
    using assms by (intro remaining_quantity_eq) (auto simp: wf_order_def wf_intent_def)
  then show ?thesis
    by (auto simp: check_sell_order_def is_zero_def simp del: is_terminal.simps)
qed

definition sell_step ::
    "(position_key, decimal) dict \<Rightarrow> string \<times> order_aggregate \<Rightarrow> (position_key, decimal) dict" where
  "sell_step sells entry =
     (if oi_side (oa_intent (snd entry)) = SELL
      then dict_set sells (order_key (snd entry))
             (dec_add (sell_get sells (order_key (snd entry))) (oa_reserved_quantity (snd entry)))
      else sells)"

lemma check_order_iff:
  assumes w: "wf_order ord" and m: "wf_money m" "currency m = cur"
  shows "check_order cur (m, sells) (k, ord) = Inr acc \<longleftrightarrow>
     order_ok cur k ord
     \<and> (oi_side (oa_intent ord) = BUY \<longrightarrow> \<bar>amount m + buy_reserved ord\<bar> < 10 ^ 22)
     \<and> acc = (\<lparr>amount = amount m + buy_reserved ord, currency = cur\<rparr>, sell_step sells (k, ord))"
    (is "?l \<longleftrightarrow> ?r")
proof (cases "\<exists>u. check_order_common cur k ord = Inr u")
  case False
  then have "\<not> ?l" by (auto simp: check_order_def rbind_eq_Inr)
  moreover have "\<not> ?r" using False unfolding check_order_common_iff order_ok_def by blast
  ultimately show ?thesis by simp
next
  case True
  then obtain u where u: "check_order_common cur k ord = Inr u" by blast
  note c = u [unfolded check_order_common_iff]
  have w': "wf_money (oa_reserved_cash ord)" using w by (simp add: wf_order_def)
  have cm: "currency (oa_reserved_cash ord) = cur" using c by (simp add: order_money_ok_def)
  show ?thesis
  proof (cases "oi_side (oa_intent ord)")
    case BUY
    then have "?l \<longleftrightarrow> check_buy_order cur ord = Inr ()
        \<and> \<bar>amount m + amount (oa_reserved_cash ord)\<bar> < 10 ^ 22
        \<and> acc = (\<lparr>amount = amount m + amount (oa_reserved_cash ord), currency = cur\<rparr>, sells)"
      using u m w' cm by (auto simp: check_order_def money_add_eq result_simps)
    then show ?thesis
      using BUY w c by (auto simp: check_buy_order_iff order_ok_def buy_reserved_def sell_step_def
          simp del: is_terminal.simps)
  next
    case SELL
    then have "?l \<longleftrightarrow> check_sell_order ord = Inr () \<and> acc = (m, sell_step sells (k, ord))"
      using u by (auto simp: check_order_def sell_step_def Let_def result_simps)
    then show ?thesis
      using SELL w c m(2) by (auto simp: check_sell_order_iff order_ok_def buy_reserved_def
          simp del: is_terminal.simps)
  qed
qed

lemma buy_reserved_nonneg: "order_ok cur k ord \<Longrightarrow> 0 \<le> buy_reserved ord"
  by (auto simp: order_ok_def order_money_ok_def buy_reserved_def)

lemma buy_reserved_grid: "wf_order ord \<Longrightarrow> on_grid (buy_reserved ord)"
  by (auto simp: wf_order_def wf_money_def buy_reserved_def dec6_grid)

lemma check_orders_iff:
  assumes "\<forall>(k, ord) \<in> set os. wf_order ord" and "wf_money m" and "currency m = cur"
    and "0 \<le> amount m"
  shows "rfold (check_order cur) (m, sells) os = Inr acc \<longleftrightarrow>
     (\<forall>(k, ord) \<in> set os. order_ok cur k ord)
     \<and> amount m + dict_sum (\<lambda>_. buy_reserved) os < 10 ^ 22
     \<and> acc = (\<lparr>amount = amount m + dict_sum (\<lambda>_. buy_reserved) os, currency = cur\<rparr>,
              foldl sell_step sells os)"
  using assms
proof (induction os arbitrary: m sells)
  case Nil
  then show ?case by (cases m) (auto simp: wf_money_def dec6_def)
next
  case (Cons e os)
  obtain k ord where e: "e = (k, ord)" by force
  let ?m = "\<lparr>amount = amount m + buy_reserved ord, currency = cur\<rparr>"
  let ?T = "dict_sum (\<lambda>_. buy_reserved) os"
  have w: "wf_order ord" using Cons.prems(1) e by auto
  show ?case
  proof (cases "order_ok cur k ord \<and> amount m + buy_reserved ord < 10 ^ 22")
    case True
    then have nn: "0 \<le> buy_reserved ord" using buy_reserved_nonneg by blast
    have st: "check_order cur (m, sells) e = Inr (?m, sell_step sells e)"
      using True nn Cons.prems by (simp add: e check_order_iff w)
    have "wf_money ?m"
      using True nn w Cons.prems buy_reserved_grid [OF w] by (auto simp: wf_money_def dec6_def)
    then have "rfold (check_order cur) (?m, sell_step sells e) os = Inr acc \<longleftrightarrow>
        (\<forall>(k, ord) \<in> set os. order_ok cur k ord) \<and> amount ?m + ?T < 10 ^ 22
        \<and> acc = (\<lparr>amount = amount ?m + ?T, currency = cur\<rparr>, foldl sell_step (sell_step sells e) os)"
      using Cons.prems nn by (intro Cons.IH) auto
    then show ?thesis using st True by (auto simp: e add.assoc)
  next
    case False
    have "\<not> (\<exists>acc'. check_order cur (m, sells) e = Inr acc')"
    proof
      assume "\<exists>acc'. check_order cur (m, sells) e = Inr acc'"
      then have o: "order_ok cur k ord"
        and b: "oi_side (oa_intent ord) = BUY \<longrightarrow> \<bar>amount m + buy_reserved ord\<bar> < 10 ^ 22"
        using Cons.prems by (auto simp: e check_order_iff w)
      with False have "oi_side (oa_intent ord) = SELL" by (cases "oi_side (oa_intent ord)") auto
      then have "buy_reserved ord = 0" by (simp add: buy_reserved_def)
      then show False using False o Cons.prems by (auto simp: wf_money_def dec6_def)
    qed
    then have l: "rfold (check_order cur) (m, sells) (e # os) \<noteq> Inr acc" by (auto simp: rbind_eq_Inr)
    have "0 \<le> ?T" if "\<forall>(k, ord) \<in> set os. order_ok cur k ord"
      using that by (intro dict_sum_nonneg) (auto intro: buy_reserved_nonneg)
    then show ?thesis using l False by (auto simp: e)
  qed
qed

section \<open>Reserved quantities per position\<close>

text \<open>
  The accumulated quantity is the exact sum, or both are beyond every representable quantity.
\<close>

definition approximates :: "(position_key, decimal) dict \<Rightarrow> (position_key \<Rightarrow> rat) \<Rightarrow> bool" where
  "approximates d g \<longleftrightarrow>
     (\<forall>k. if g k < 10 ^ 22 then sell_get d k = g k else 10 ^ 22 \<le> sell_get d k)"

lemma approximatesD:
  assumes "approximates d g"
  shows "g k < 10 ^ 22 \<Longrightarrow> sell_get d k = g k" "10 ^ 22 \<le> g k \<Longrightarrow> 10 ^ 22 \<le> sell_get d k"
  using spec [OF assms [unfolded approximates_def], of k] by (auto split: if_splits)

lemma ctx_ge22: "10 ^ 22 \<le> x \<Longrightarrow> 10 ^ 22 \<le> ctx x"
  by (intro ctx_round.r_ge_fixed ctx_grid) (simp_all add: on_grid_def)

lemma sell_get_set [simp]: "sell_get (dict_set d k v) k' = (if k' = k then v else sell_get d k')"
  by (simp add: sell_get_def)

lemma approximates_step:
  assumes "approximates d g" and "\<forall>k. 0 \<le> g k \<and> on_grid (g k)"
    and "0 \<le> oa_reserved_quantity ord" and "dec6 (oa_reserved_quantity ord)"
  shows "approximates (sell_step d (k, ord)) (\<lambda>key. g key + sell_reserved key ord)"
proof (cases "oi_side (oa_intent ord) = SELL")
  case False
  then show ?thesis using assms(1) by (simp add: sell_step_def sell_reserved_def approximates_def)
next
  case True
  let ?K = "order_key ord" and ?q = "oa_reserved_quantity ord"
  have other: "key \<noteq> ?K \<Longrightarrow> sell_reserved key ord = 0" for key
    by (simp add: sell_reserved_def)
  have "if g ?K + ?q < 10 ^ 22 then dec_add (sell_get d ?K) ?q = g ?K + ?q
        else 10 ^ 22 \<le> dec_add (sell_get d ?K) ?q"
  proof (cases "g ?K < 10 ^ 22")
    case True
    then have s: "sell_get d ?K = g ?K"
      by (rule approximatesD(1) [OF assms(1)])
    have "on_grid (g ?K + ?q)" using spec [OF assms(2), of ?K] assms(4) by (simp add: dec6_def)
    moreover have "0 \<le> g ?K" using spec [OF assms(2), of ?K] by simp
    ultimately show ?thesis
      using assms(3) s ctx_ge22 [of "g ?K + ?q"] ctx_grid [of "g ?K + ?q"]
      by (auto simp: dec_add_def not_less)
  next
    case False
    then have "10 ^ 22 \<le> sell_get d ?K"
      by (intro approximatesD(2) [OF assms(1)]) simp
    then show ?thesis
      using False assms(3) ctx_ge22 [of "sell_get d ?K + ?q"] by (auto simp: dec_add_def)
  qed
  moreover have "sell_reserved ?K ord = ?q" using True by (simp add: sell_reserved_def)
  ultimately have "if g k' + sell_reserved k' ord < 10 ^ 22
      then sell_get (sell_step d (k, ord)) k' = g k' + sell_reserved k' ord
      else 10 ^ 22 \<le> sell_get (sell_step d (k, ord)) k'" for k'
    using True other [of k'] approximatesD [OF assms(1), of k']
    by (cases "k' = ?K") (auto simp: sell_step_def)
  then show ?thesis unfolding approximates_def by blast
qed

lemma approximates_fold:
  assumes "approximates d g" and "\<forall>k. 0 \<le> g k \<and> on_grid (g k)"
    and "\<forall>(k, ord) \<in> set os. 0 \<le> oa_reserved_quantity ord \<and> dec6 (oa_reserved_quantity ord)"
  shows "approximates (foldl sell_step d os) (\<lambda>key. g key + dict_sum (\<lambda>_. sell_reserved key) os)"
  using assms
proof (induction os arbitrary: d g)
  case Nil
  then show ?case by simp
next
  case (Cons e os)
  obtain k ord where e: "e = (k, ord)" by force
  have "0 \<le> sell_reserved key ord \<and> on_grid (sell_reserved key ord)" for key
    using Cons.prems(3) e by (auto simp: sell_reserved_def dec6_grid)
  then have "approximates (foldl sell_step (sell_step d e) os)
      (\<lambda>key. (g key + sell_reserved key ord) + dict_sum (\<lambda>_. sell_reserved key) os)"
    using Cons.prems e by (intro Cons.IH) (auto intro!: approximates_step)
  then show ?case by (simp add: e add.assoc)
qed

lemma dict_ok_sell_fold: "dict_ok d \<Longrightarrow> dict_ok (foldl sell_step d os)"
  by (induction os arbitrary: d) (auto simp: sell_step_def)

lemma sell_sum_zero_iff:
  assumes "\<forall>(k, ord) \<in> set os. 0 \<le> oa_reserved_quantity ord"
  shows "dict_sum (\<lambda>_. sell_reserved key) os = 0 \<longleftrightarrow>
    (\<forall>(k, ord) \<in> set os. oi_side (oa_intent ord) = SELL \<and> order_key ord = key \<longrightarrow>
       oa_reserved_quantity ord = 0)"
  using assms
proof (induction os)
  case Nil
  then show ?case by simp
next
  case (Cons e os)
  obtain k ord where e: "e = (k, ord)" by force
  have "0 \<le> dict_sum (\<lambda>_. sell_reserved key) os"
    using Cons.prems by (intro dict_sum_nonneg) (auto simp: sell_reserved_def)
  moreover have "0 \<le> sell_reserved key ord" using Cons.prems e by (auto simp: sell_reserved_def)
  moreover have "sell_reserved key ord = 0 \<longleftrightarrow>
      (oi_side (oa_intent ord) = SELL \<and> order_key ord = key \<longrightarrow> oa_reserved_quantity ord = 0)"
    by (auto simp: sell_reserved_def)
  ultimately show ?case
    using Cons e by (simp add: add_nonneg_eq_0_iff)
qed


section \<open>Positions, evidence and weather histories\<close>

lemma rfold_unit_iff:
  assumes "\<And>x u. f () x = Inr u \<longleftrightarrow> P x"
  shows "rfold f () xs = Inr u \<longleftrightarrow> (\<forall>x \<in> set xs. P x)"
  by (induction xs) (auto simp: assms rbind_eq_Inr)

lemma check_position_iff:
  "check_position sells () (key, p) = Inr u \<longleftrightarrow> position_ok key p (sell_get sells key)"
  by (auto simp: check_position_def position_ok_def position_key_def require_nonnegative_def
      is_negative_def is_zero_def result_simps)

lemma check_positions_iff:
  "rfold (check_position sells) () ps = Inr u \<longleftrightarrow>
     (\<forall>(key, p) \<in> set ps. position_ok key p (sell_get sells key))"
  by (subst rfold_unit_iff [where P = "\<lambda>(key, p). position_ok key p (sell_get sells key)"])
    (auto simp: check_position_iff split: prod.split)

lemma check_sell_keys_iff:
  "rfold (check_sell_key positions) () ss = Inr u \<longleftrightarrow>
     (\<forall>(key, q) \<in> set ss. q \<noteq> 0 \<longrightarrow> dict_get positions key \<noteq> None)"
  by (subst rfold_unit_iff [where P = "\<lambda>(key, q). q \<noteq> 0 \<longrightarrow> dict_get positions key \<noteq> None"])
    (auto simp: check_sell_key_def)

lemma check_evidences_iff:
  "rfold (check_evidence resolutions) () vs = Inr u \<longleftrightarrow>
     (\<forall>(m, v) \<in> set vs. evidence_ok resolutions m v)"
  by (subst rfold_unit_iff [where P = "\<lambda>(m, v). evidence_ok resolutions m v"])
    (auto simp: check_evidence_def evidence_ok_def split: option.splits if_splits)

lemma check_observation_eq:
  "check_observation m (hs, t) w = Inr acc \<longleftrightarrow>
     wo_market_id w = m \<and> wo_payload_hash w \<notin> set hs \<and> (\<forall>h \<in> set_option (wo_supersedes w). h \<in> set hs)
     \<and> acc = (wo_payload_hash w # hs, if wo_learning_eligible w then t @ [w] else t)"
  by (cases "wo_supersedes w") (auto simp: check_observation_def)

lemma check_observations_iff:
  "rfold (check_observation m) (hs, t) ws = Inr acc \<longleftrightarrow>
     hist_ok (set hs) m ws
     \<and> acc = (rev (map wo_payload_hash ws) @ hs, t @ filter wo_learning_eligible ws)"
proof (induction ws arbitrary: hs t)
  case Nil
  then show ?case by auto
next
  case (Cons w ws)
  show ?case
    by (auto simp: rbind_eq_Inr check_observation_eq Cons.IH)
qed

lemma check_terminal_iff: "check_terminal ts = Inr u \<longleftrightarrow> terminal_ok ts"
  by (auto simp: check_terminal_def terminal_ok_def split: list.split)

lemma check_weathers_iff:
  "rfold check_weather () ws = Inr u \<longleftrightarrow> (\<forall>(m, w) \<in> set ws. weather_ok m w)"
  by (subst rfold_unit_iff [where P = "\<lambda>(m, w). weather_ok m w"])
    (auto simp: check_weather_def rbind_eq_Inr check_observations_iff check_terminal_iff
      weather_ok_def)

section \<open>The equivalence\<close>

lemma positions_exact:
  assumes "approximates sells (\<lambda>key. dict_sum (\<lambda>_. sell_reserved key) os)"
    and "\<forall>(k, p) \<in> set ps. wf_position cur p" and "(key, p) \<in> set ps"
  shows "position_ok key p (sell_get sells key) \<longleftrightarrow>
    position_ok key p (dict_sum (\<lambda>_. sell_reserved key) os)"
proof -
  let ?g = "dict_sum (\<lambda>_. sell_reserved key) os"
  note a = approximatesD [OF assms(1), of key]
  have "pos_reserved_quantity p < 10 ^ 22" using assms(2,3) by (auto simp: wf_position_def dec6_def)
  with a show ?thesis by (cases "?g < 10 ^ 22") (auto simp: position_ok_def)
qed

lemma sell_keys_exact:
  assumes "approximates sells (\<lambda>key. dict_sum (\<lambda>_. sell_reserved key) os)" and "dict_ok sells"
    and "\<forall>(k, ord) \<in> set os. 0 \<le> oa_reserved_quantity ord"
  shows "(\<forall>(key, q) \<in> set sells. q \<noteq> 0 \<longrightarrow> dict_get ps key \<noteq> None) \<longleftrightarrow>
    (\<forall>(k, ord) \<in> set os. oi_side (oa_intent ord) = SELL \<and> oa_reserved_quantity ord \<noteq> 0 \<longrightarrow>
       dict_get ps (order_key ord) \<noteq> None)"
proof -
  have z: "sell_get sells key = 0 \<longleftrightarrow> dict_sum (\<lambda>_. sell_reserved key) os = 0" for key
    using approximatesD [OF assms(1), of key] by (cases "dict_sum (\<lambda>_. sell_reserved key) os < 10 ^ 22") auto
  have "(\<forall>(key, q) \<in> set sells. q \<noteq> 0 \<longrightarrow> dict_get ps key \<noteq> None) \<longleftrightarrow>
      (\<forall>key. sell_get sells key \<noteq> 0 \<longrightarrow> dict_get ps key \<noteq> None)"
    using assms(2) by (fastforce simp: sell_get_def dict_entry_get split: option.splits)
  also have "\<dots> \<longleftrightarrow> (\<forall>(k, ord) \<in> set os.
      oi_side (oa_intent ord) = SELL \<and> oa_reserved_quantity ord \<noteq> 0 \<longrightarrow>
       dict_get ps (order_key ord) \<noteq> None)"
    unfolding z sell_sum_zero_iff [OF assms(3)] by fastforce
  finally show ?thesis .
qed


lemma money_record_eq: "(\<lparr>amount = a, currency = c\<rparr> = m) \<longleftrightarrow> amount m = a \<and> currency m = c"
  by (cases m) auto

theorem assert_invariants_ok:
  assumes w: "wf_ledger s"
  shows "assert_invariants s = Inr u \<longleftrightarrow> ledger_ok s"
proof -
  let ?cur = "ls_currency s" and ?os = "ls_orders s"
  let ?sells = "foldl sell_step [] ?os" and ?z = "\<lparr>amount = 0, currency = ls_currency s\<rparr>"
  let ?B = "dict_sum (\<lambda>_. buy_reserved) ?os"
  have typed: "cur_ok ?cur" "\<forall>(k, ord) \<in> set ?os. wf_order ord"
    "\<forall>(k, p) \<in> set (ls_positions s). wf_position ?cur p"
    "wf_money (ls_cash s)" "wf_money (ls_reserved_cash s)"
    using w by (auto simp: wf_ledger_def)
  have bounds: "\<bar>amount (ls_cash s)\<bar> < 10 ^ 22" "\<bar>amount (ls_reserved_cash s)\<bar> < 10 ^ 22"
    using typed by (auto simp: wf_money_def dec6_def)
  have avail: "available_cash s = Inr \<lparr>amount = amount (ls_cash s) - amount (ls_reserved_cash s),
      currency = ?cur\<rparr>"
    if "currency (ls_cash s) = ?cur" "currency (ls_reserved_cash s) = ?cur"
      "0 \<le> amount (ls_cash s)" "0 \<le> amount (ls_reserved_cash s)"
    using that typed bounds by (simp add: available_cash_def money_sub_eq)
  have loop: "rfold (check_order ?cur) (?z, []) ?os = Inr acc \<longleftrightarrow>
      (\<forall>(k, ord) \<in> set ?os. order_ok ?cur k ord) \<and> ?B < 10 ^ 22
      \<and> acc = (\<lparr>amount = ?B, currency = ?cur\<rparr>, ?sells)" for acc
    using check_orders_iff [of ?os ?z ?cur "[]" acc] typed by simp
  have zero: "money_zero ?cur = Inr ?z" using typed by simp
  have front: "assert_invariants s = Inr u \<longleftrightarrow>
      currency (ls_cash s) = ?cur \<and> currency (ls_reserved_cash s) = ?cur
      \<and> 0 \<le> amount (ls_reserved_cash s) \<and> amount (ls_reserved_cash s) \<le> amount (ls_cash s)
      \<and> (\<forall>(k, ord) \<in> set ?os. order_ok ?cur k ord)
      \<and> amount (ls_reserved_cash s) = ?B
      \<and> (\<forall>(key, p) \<in> set (ls_positions s). position_ok key p (sell_get ?sells key))
      \<and> (\<forall>(key, q) \<in> set ?sells. q \<noteq> 0 \<longrightarrow> dict_get (ls_positions s) key \<noteq> None)
      \<and> (\<forall>(m, v) \<in> set (ls_resolution_evidence s). evidence_ok (ls_resolutions s) m v)
      \<and> (\<forall>(m, ws) \<in> set (ls_weather s). weather_ok m ws)
      \<and> (ls_opened s \<or> amount (ls_cash s) = 0 \<and> ?os = [] \<and> ls_positions s = []
          \<and> ls_resolutions s = [] \<and> ls_resolution_evidence s = [] \<and> ls_weather s = [])"
    (is "_ \<longleftrightarrow> ?R")
  proof
    assume "assert_invariants s = Inr u"
    then show ?R
      unfolding assert_invariants_def zero rbind_simps
      by (clarsimp simp: money_record_eq rbind_eq_Inr if_Inl_eq_Inr require_nonnegative_def is_negative_def is_zero_def
          avail loop check_positions_iff check_sell_keys_iff check_evidences_iff check_weathers_iff
          simp del: power_numeral rfold.simps)
  next
    assume R: ?R
    then have "?B < 10 ^ 22" using bounds by linarith
    moreover from R have "ls_reserved_cash s = \<lparr>amount = ?B, currency = ?cur\<rparr>"
      by (cases "ls_reserved_cash s") simp
    ultimately show "assert_invariants s = Inr u"
      using R
      unfolding assert_invariants_def zero rbind_simps
      by (clarsimp simp: rbind_eq_Inr if_Inl_eq_Inr require_nonnegative_def is_negative_def is_zero_def
          avail loop check_positions_iff check_sell_keys_iff check_evidences_iff check_weathers_iff
          simp del: power_numeral rfold.simps)
  qed
  have reserved: "\<forall>(k, ord) \<in> set ?os. 0 \<le> oa_reserved_quantity ord \<and> dec6 (oa_reserved_quantity ord)"
    if "\<forall>(k, ord) \<in> set ?os. order_ok ?cur k ord"
    using that typed(2) by (auto simp: order_ok_def wf_order_def)
  have "approximates ?sells (\<lambda>key. dict_sum (\<lambda>_. sell_reserved key) ?os)"
    if "\<forall>(k, ord) \<in> set ?os. order_ok ?cur k ord"
    using approximates_fold [of "[]" "\<lambda>_. 0" ?os] reserved [OF that]
    by (simp add: approximates_def sell_get_def)
  note approx = this
  have pos: "(\<forall>(key, p) \<in> set (ls_positions s). position_ok key p (sell_get ?sells key)) \<longleftrightarrow>
      (\<forall>(key, p) \<in> set (ls_positions s).
         position_ok key p (dict_sum (\<lambda>_. sell_reserved key) ?os))"
    if "\<forall>(k, ord) \<in> set ?os. order_ok ?cur k ord"
    using positions_exact [OF approx [OF that] typed(3)] by blast
  have keys: "(\<forall>(key, q) \<in> set ?sells. q \<noteq> 0 \<longrightarrow> dict_get (ls_positions s) key \<noteq> None) \<longleftrightarrow>
      (\<forall>(k, ord) \<in> set ?os. oi_side (oa_intent ord) = SELL \<and> oa_reserved_quantity ord \<noteq> 0 \<longrightarrow>
         dict_get (ls_positions s) (order_key ord) \<noteq> None)"
    if "\<forall>(k, ord) \<in> set ?os. order_ok ?cur k ord"
    using reserved [OF that] by (intro sell_keys_exact [OF approx [OF that]] dict_ok_sell_fold) auto
  show ?thesis
    unfolding front ledger_ok_def 
    by (intro conj_cong refl pos keys; assumption?)
qed


text \<open>C3. The invariant check of the ledger, three loops over mutable accumulators that raise on
  the first violation, accepts exactly the states that satisfy the declarative invariant: the
  reserved cash is the sum of the active buy reservations and never exceeds cash, each active buy
  order reserves its remaining notional and fees, every position's reserved quantity is the sum of
  the active sell orders on it, evidence and resolutions agree, and every weather history is one
  linear chain of revisions.\<close>

theorem invariant_check_exact:
  assumes "wf_ledger s"
  shows "assert_invariants s = Inr () \<longleftrightarrow> ledger_ok s"
  using assms by (rule assert_invariants_ok)

end
