(* ===== verification/Reducers.thy ===== *)
theory Reducers
  imports Ledger_Invariant
begin

text \<open>
  \<open>weatherbot/domain/reducers.py\<close>: one handler per event, \<open>apply_event\<close> and \<open>replay\<close>.
  The digest \<open>sha\<close> gives a fill's delivery fingerprint; \<open>fp\<close> is the canonical fingerprint of
  a whole event (JSON and SHA-256), of which the reducers only use equality.
\<close>

section \<open>Helpers\<close>

definition require_opened :: "ledger_state \<Rightarrow> unit result" where
  "require_opened s =
     (if \<not> ls_opened s
      then Inl (InvalidTransition ''ledger must be opened before financial events are applied'')
      else Inr ())"

definition get_order :: "ledger_state \<Rightarrow> string \<Rightarrow> order_aggregate result" where
  "get_order s intent_id =
     (case dict_get (ls_orders s) intent_id of
        None \<Rightarrow> Inl (AggregateNotFound ''order intent not found'')
      | Some ord \<Rightarrow> Inr ord)"

definition replace_order :: "ledger_state \<Rightarrow> order_aggregate \<Rightarrow> ledger_state" where
  "replace_order s ord = s\<lparr>ls_orders := dict_set (ls_orders s) (oi_intent_id (oa_intent ord)) ord\<rparr>"

definition replace_position :: "ledger_state \<Rightarrow> position \<Rightarrow> ledger_state" where
  "replace_position s p =
     s\<lparr>ls_positions := dict_set (ls_positions s) (position_key (pos_market_id p) (pos_outcome_id p)) p\<rparr>"

definition get_position :: "ledger_state \<Rightarrow> position_key \<Rightarrow> position result" where
  "get_position s key =
     (case dict_get (ls_positions s) key of
        None \<Rightarrow> Inl (AggregateNotFound ''position not found'')
      | Some p \<Rightarrow> Inr p)"

definition record_event :: "ledger_state \<Rightarrow> ledger_event \<Rightarrow> string \<Rightarrow> ledger_state" where
  "record_event s e event_fp =
     s\<lparr>ls_fingerprints := dict_set (ls_fingerprints s) (ev_event_id e) event_fp\<rparr>"

definition release_reservations ::
    "ledger_state \<Rightarrow> order_aggregate \<Rightarrow> (ledger_state \<times> order_aggregate) result" where
  "release_reservations s ord =
     (if oi_side (oa_intent ord) = BUY
      then rbind (money_sub (ls_reserved_cash s) (oa_reserved_cash ord)) (\<lambda>reserved.
        rbind (money_zero (ls_currency s)) (\<lambda>z.
        Inr (s\<lparr>ls_reserved_cash := reserved\<rparr>, ord\<lparr>oa_reserved_cash := z\<rparr>)))
      else rbind (get_position s (order_key ord)) (\<lambda>p.
        if pos_reserved_quantity p < oa_reserved_quantity ord
        then Inl (InvariantViolation ''order reservation exceeds position reservation'')
        else rbind (quantize6 (dec_sub (pos_reserved_quantity p) (oa_reserved_quantity ord))) (\<lambda>r.
          Inr (replace_position s (p\<lparr>pos_reserved_quantity := r\<rparr>),
               ord\<lparr>oa_reserved_quantity := 0\<rparr>))))"

section \<open>Accounts and intents\<close>

definition apply_account_opened :: "ledger_state \<Rightarrow> money \<Rightarrow> ledger_state result" where
  "apply_account_opened s initial_cash =
     (if ls_opened s then Inl (InvalidTransition ''ledger is already opened'')
      else if currency initial_cash \<noteq> ls_currency s
      then Inl (InvariantViolation ''initial cash currency differs from ledger currency'')
      else Inr (s\<lparr>ls_opened := True, ls_cash := initial_cash\<rparr>))"

definition reserve_intent ::
    "ledger_state \<Rightarrow> order_intent \<Rightarrow> order_aggregate \<Rightarrow> ledger_state result" where
  "reserve_intent s intent ord =
     (if oi_side intent = BUY
      then rbind (available_cash s) (\<lambda>available.
        if amount available < amount (oa_reserved_cash ord)
        then Inl (InvariantViolation ''insufficient available cash for order reservation'')
        else rbind (money_add (ls_reserved_cash s) (oa_reserved_cash ord)) (\<lambda>reserved.
          Inr (s\<lparr>ls_reserved_cash := reserved\<rparr>)))
      else rbind (get_position s (position_key (oi_market_id intent) (oi_outcome_id intent))) (\<lambda>p.
        if pos_status p \<noteq> OPEN then Inl (InvalidTransition ''cannot reserve a settled position'')
        else rbind (available_quantity p) (\<lambda>available.
          if available < oi_quantity intent
          then Inl (InvariantViolation ''insufficient available position quantity'')
          else rbind (quantize6 (dec_add (pos_reserved_quantity p) (oi_quantity intent))) (\<lambda>r.
            Inr (replace_position s (p\<lparr>pos_reserved_quantity := r\<rparr>))))))"

definition apply_intent_created :: "ledger_state \<Rightarrow> order_intent \<Rightarrow> ledger_state result" where
  "apply_intent_created s intent =
     rbind (require_opened s) (\<lambda>_.
     case dict_get (ls_orders s) (oi_intent_id intent) of
       Some existing \<Rightarrow>
         if order_intent_eq (oa_intent existing) intent then Inr s
         else Inl (DuplicateEventConflict ''intent identifier was reused with different data'')
     | None \<Rightarrow>
         if currency (oi_fee_reserve intent) \<noteq> ls_currency s
         then Inl (InvariantViolation ''order intent currency differs from ledger currency'')
         else rbind (new_order intent) (\<lambda>ord.
           rbind (reserve_intent s intent ord) (\<lambda>s'.
           Inr (replace_order s' ord))))"

section \<open>Order lifecycle\<close>

definition apply_submitted :: "ledger_state \<Rightarrow> string \<Rightarrow> string \<Rightarrow> ledger_state result" where
  "apply_submitted s intent_id backend_order_id =
     rbind (get_order s intent_id) (\<lambda>ord.
     rbind (require_transition (oa_state ord) SUBMITTED) (\<lambda>_.
     if oa_backend_order_id ord \<notin> {None, Some backend_order_id}
     then Inl (DuplicateEventConflict ''order has a different backend identifier'')
     else Inr (replace_order s
            (ord\<lparr>oa_state := SUBMITTED, oa_backend_order_id := Some backend_order_id\<rparr>))))"

definition apply_acknowledged :: "ledger_state \<Rightarrow> string \<Rightarrow> ledger_state result" where
  "apply_acknowledged s intent_id =
     rbind (get_order s intent_id) (\<lambda>ord.
     rbind (require_transition (oa_state ord) ACKNOWLEDGED) (\<lambda>_.
     Inr (replace_order s (ord\<lparr>oa_state := ACKNOWLEDGED, oa_unknown_reason := None\<rparr>))))"

definition apply_unknown :: "ledger_state \<Rightarrow> string \<Rightarrow> string \<Rightarrow> ledger_state result" where
  "apply_unknown s intent_id reason =
     rbind (get_order s intent_id) (\<lambda>ord.
     rbind (require_transition (oa_state ord) UNKNOWN) (\<lambda>_.
     Inr (replace_order s (ord\<lparr>oa_state := UNKNOWN, oa_unknown_reason := Some reason\<rparr>))))"

definition apply_terminal ::
    "ledger_state \<Rightarrow> string \<Rightarrow> order_state \<Rightarrow> string \<Rightarrow> ledger_state result" where
  "apply_terminal s intent_id target reason =
     rbind (get_order s intent_id) (\<lambda>ord.
     rbind (require_transition (oa_state ord) target) (\<lambda>_.
     rbind (release_reservations s ord) (\<lambda>(s', ord').
     Inr (replace_order s'
       (ord'\<lparr>oa_state := target, oa_terminal_reason := Some reason, oa_unknown_reason := None\<rparr>)))))"

section \<open>Fills\<close>

definition position_or_empty :: "ledger_state \<Rightarrow> order_aggregate \<Rightarrow> position result" where
  "position_or_empty s ord =
     (case dict_get (ls_positions s) (order_key ord) of
        Some p \<Rightarrow> Inr p
      | None \<Rightarrow> empty_position (oi_market_id (oa_intent ord)) (oi_outcome_id (oa_intent ord))
                 (ls_currency s))"

definition apply_buy_fill ::
    "ledger_state \<Rightarrow> order_aggregate \<Rightarrow> fill \<Rightarrow> money \<Rightarrow> (ledger_state \<times> order_aggregate) result" where
  "apply_buy_fill s ord f gross =
     (if oi_limit_price (oa_intent ord) < fl_price f
      then Inl (InvariantViolation ''buy fill price exceeds order limit'') else
      rbind (money_sub (oi_fee_reserve (oa_intent ord)) (oa_fees ord)) (\<lambda>remaining_fee_reserve.
      if amount remaining_fee_reserve < amount (fl_fee f)
      then Inl (InvariantViolation ''fill fee exceeds the remaining fee reserve'') else
      rbind (remaining_quantity ord) (\<lambda>remaining.
      rbind (quantize6 (dec_sub remaining (fl_quantity f))) (\<lambda>remaining_after.
      rbind (money_from_unit_price (PyDecimal (oi_limit_price (oa_intent ord)))
               (PyDecimal remaining_after) (ls_currency s)) (\<lambda>notional.
      rbind (money_sub remaining_fee_reserve (fl_fee f)) (\<lambda>fee_left.
      rbind (money_add notional fee_left) (\<lambda>remaining_reservation.
      if amount (oa_reserved_cash ord) < amount remaining_reservation
      then Inl (InvariantViolation ''remaining reservation exceeds current reservation'') else
      rbind (money_sub (oa_reserved_cash ord) remaining_reservation) (\<lambda>reservation_release.
      rbind (money_add gross (fl_fee f)) (\<lambda>debit.
      if amount (ls_cash s) < amount debit
      then Inl (InvariantViolation ''fill would make cash negative'') else
      rbind (money_sub (ls_cash s) debit) (\<lambda>cash.
      rbind (money_sub (ls_reserved_cash s) reservation_release) (\<lambda>reserved.
      let s' = s\<lparr>ls_cash := cash, ls_reserved_cash := reserved\<rparr>;
          ord' = ord\<lparr>oa_reserved_cash := remaining_reservation\<rparr>
      in rbind (position_or_empty s' ord') (\<lambda>p.
      if pos_status p \<noteq> OPEN
      then Inl (InvalidTransition ''cannot add a fill to a settled position'') else
      rbind (quantize6 (dec_add (pos_quantity p) (fl_quantity f))) (\<lambda>q.
      rbind (money_add (pos_cost_basis p) debit) (\<lambda>basis.
      Inr (replace_position s' (p\<lparr>pos_quantity := q, pos_cost_basis := basis\<rparr>), ord')))))))))))))))"

text \<open>The cost share of a sold quantity.\<close>

definition allocated_cost :: "position \<Rightarrow> decimal \<Rightarrow> money result" where
  "allocated_cost p quantity =
     (if quantity = pos_quantity p then Inr (pos_cost_basis p)
      else rbind (dec_div quantity (pos_quantity p)) (\<lambda>share.
        money_scale (pos_cost_basis p) (PyDecimal share)))"

definition apply_sell_fill ::
    "ledger_state \<Rightarrow> order_aggregate \<Rightarrow> fill \<Rightarrow> money \<Rightarrow> (ledger_state \<times> order_aggregate) result" where
  "apply_sell_fill s ord f gross =
     (if fl_price f < oi_limit_price (oa_intent ord)
      then Inl (InvariantViolation ''sell fill price is below order limit'') else
      rbind (get_position s (order_key ord)) (\<lambda>p.
      if pos_status p \<noteq> OPEN
      then Inl (InvalidTransition ''cannot sell a settled position'')
      else if pos_quantity p < fl_quantity f
      then Inl (InvariantViolation ''sell fill exceeds position quantity'')
      else if pos_reserved_quantity p < fl_quantity f
      then Inl (InvariantViolation ''sell fill exceeds reserved position quantity'')
      else if oa_reserved_quantity ord < fl_quantity f
      then Inl (InvariantViolation ''sell fill exceeds order reservation'')
      else if amount gross < amount (fl_fee f)
      then Inl (InvariantViolation ''sell fee exceeds gross proceeds'') else
      rbind (money_sub gross (fl_fee f)) (\<lambda>net_proceeds.
      rbind (allocated_cost p (fl_quantity f)) (\<lambda>allocated.
      rbind (quantize6 (dec_sub (pos_quantity p) (fl_quantity f))) (\<lambda>remaining.
      rbind (quantize6 (dec_sub (pos_reserved_quantity p) (fl_quantity f))) (\<lambda>reserved.
      rbind (if remaining = 0 then money_zero (ls_currency s)
             else money_sub (pos_cost_basis p) allocated) (\<lambda>basis.
      rbind (money_add (pos_realized_pnl p) net_proceeds) (\<lambda>pnl_gross.
      rbind (money_sub pnl_gross allocated) (\<lambda>pnl.
      rbind (quantize6 (dec_sub (oa_reserved_quantity ord) (fl_quantity f))) (\<lambda>order_reserved.
      rbind (money_add (ls_cash s) net_proceeds) (\<lambda>cash.
      Inr (replace_position (s\<lparr>ls_cash := cash\<rparr>)
             (p\<lparr>pos_quantity := remaining, pos_reserved_quantity := reserved,
                pos_cost_basis := basis, pos_realized_pnl := pnl\<rparr>),
           ord\<lparr>oa_reserved_quantity := order_reserved\<rparr>))))))))))))"

definition record_fill ::
    "(string \<Rightarrow> string) \<Rightarrow> order_aggregate \<Rightarrow> fill \<Rightarrow> order_state \<Rightarrow> decimal \<Rightarrow> money \<Rightarrow> money \<Rightarrow>
     order_aggregate" where
  "record_fill sha ord f target filled gross_value fees =
     ord\<lparr>oa_state := target, oa_filled_quantity := filled, oa_gross_value := gross_value,
         oa_fees := fees,
         oa_fill_fingerprints :=
           dict_set (oa_fill_fingerprints ord) (fl_fill_id f) (delivery_fingerprint sha f),
         oa_unknown_reason := None\<rparr>"

definition apply_fill :: "(string \<Rightarrow> string) \<Rightarrow> ledger_state \<Rightarrow> fill \<Rightarrow> ledger_state result" where
  "apply_fill sha s f =
     rbind (get_order s (fl_intent_id f)) (\<lambda>ord.
     case dict_get (oa_fill_fingerprints ord) (fl_fill_id f) of
       Some existing \<Rightarrow>
         if existing = delivery_fingerprint sha f then Inr s
         else Inl (DuplicateEventConflict ''fill identifier was reused with different data'')
     | None \<Rightarrow>
         rbind (quantize6 (dec_add (oa_filled_quantity ord) (fl_quantity f))) (\<lambda>filled.
         if oi_quantity (oa_intent ord) < filled
         then Inl (InvariantViolation ''fill would exceed order quantity'') else
         let target = (if filled = oi_quantity (oa_intent ord) then FILLED else PARTIALLY_FILLED)
         in rbind (require_transition (oa_state ord) target) (\<lambda>_.
         if currency (fl_fee f) \<noteq> ls_currency s
         then Inl (InvariantViolation ''fill fee currency differs from ledger currency'') else
         rbind (money_from_unit_price (PyDecimal (fl_price f)) (PyDecimal (fl_quantity f))
                  (ls_currency s)) (\<lambda>gross.
         rbind (if oi_side (oa_intent ord) = BUY then apply_buy_fill s ord f gross
                else apply_sell_fill s ord f gross) (\<lambda>(s1, ord1).
         rbind (money_add (oa_gross_value ord1) gross) (\<lambda>gross_value.
         rbind (money_add (oa_fees ord1) (fl_fee f)) (\<lambda>fees.
         let ord2 = record_fill sha ord1 f target filled gross_value fees
         in rbind (if target = FILLED then release_reservations s1 ord2 else Inr (s1, ord2))
              (\<lambda>(s2, ord3). Inr (replace_order s2 ord3)))))))))"

section \<open>Weather observations and resolutions\<close>

fun first_with_hash :: "string option \<Rightarrow> weather_evidence list \<Rightarrow> weather_evidence option" where
  "first_with_hash h [] = None"
| "first_with_hash h (w # ws) = (if Some (wo_payload_hash w) = h then Some w else first_with_hash h ws)"

definition same_measurement :: "weather_evidence \<Rightarrow> weather_evidence \<Rightarrow> bool" where
  "same_measurement v w \<longleftrightarrow>
     wo_source_name v = wo_source_name w \<and> wo_source_url v = wo_source_url w
     \<and> wo_station_id v = wo_station_id w \<and> wo_measurement_basis v = wo_measurement_basis w
     \<and> wo_market_date v = wo_market_date w \<and> wo_market_timezone v = wo_market_timezone w
     \<and> wo_unit v = wo_unit w"

definition observation_chain_check ::
    "weather_evidence list \<Rightarrow> weather_evidence \<Rightarrow> unit result" where
  "observation_chain_check existing w =
     (let terminal = filter wo_learning_eligible existing
      in case wo_status w of
        FINAL \<Rightarrow>
          if terminal \<noteq> []
          then Inl (DuplicateEventConflict ''weather observation history already has a final root'')
          else Inr ()
      | REVISED \<Rightarrow>
          if first_with_hash (wo_supersedes w) existing = None
          then Inl (DuplicateEventConflict ''weather observation revision supersedes an unknown payload'')
          else if terminal = []
          then Inl (DuplicateEventConflict
                 ''weather observation revision requires an existing final root'')
          else if wo_supersedes w \<noteq> Some (wo_payload_hash (last terminal))
          then Inl (DuplicateEventConflict
                 ''weather observation revision must supersede the latest terminal payload'')
          else if \<not> same_measurement (last terminal) w
          then Inl (DuplicateEventConflict
                 ''weather observation revision changed source or measurement identity'')
          else Inr ()
      | PROVISIONAL \<Rightarrow> Inr ())"

definition apply_weather_observation ::
    "ledger_state \<Rightarrow> weather_evidence \<Rightarrow> ledger_state result" where
  "apply_weather_observation s evidence =
     rbind (require_opened s) (\<lambda>_.
     let existing = (case dict_get (ls_weather s) (wo_market_id evidence) of
                       None \<Rightarrow> [] | Some ws \<Rightarrow> ws)
     in case first_with_hash (Some (wo_payload_hash evidence)) existing of
       Some prior \<Rightarrow>
         if weather_evidence_eq prior evidence then Inr s
         else Inl (DuplicateEventConflict
                ''weather observation payload hash was reused with different evidence'')
     | None \<Rightarrow>
         rbind (observation_chain_check existing evidence) (\<lambda>_.
         Inr (s\<lparr>ls_weather :=
                dict_set (ls_weather s) (wo_market_id evidence) (existing @ [evidence])\<rparr>)))"

definition apply_resolution_evidence ::
    "ledger_state \<Rightarrow> resolution_evidence \<Rightarrow> ledger_state result" where
  "apply_resolution_evidence s v =
     rbind (require_opened s) (\<lambda>_.
     let market_id = re_market_id v
     in case dict_get (ls_resolution_evidence s) market_id of
       Some existing \<Rightarrow>
         if resolution_evidence_eq existing v then Inr s
         else Inl (DuplicateEventConflict
                ''authoritative market resolution evidence changed after recording'')
     | None \<Rightarrow>
         (case dict_get (ls_resolutions s) market_id of
            Some r \<Rightarrow>
              if mr_payouts r \<noteq> re_payouts v
              then Inl (DuplicateEventConflict
                     ''authoritative evidence conflicts with the recorded payout vector'')
              else Inr (s\<lparr>ls_resolution_evidence :=
                          dict_set (ls_resolution_evidence s) market_id v\<rparr>)
          | None \<Rightarrow> Inr (s\<lparr>ls_resolution_evidence :=
                          dict_set (ls_resolution_evidence s) market_id v\<rparr>)))"

definition apply_resolution :: "ledger_state \<Rightarrow> market_resolution \<Rightarrow> ledger_state result" where
  "apply_resolution s r =
     (if (case dict_get (ls_resolution_evidence s) (mr_market_id r) of
            None \<Rightarrow> False | Some v \<Rightarrow> re_payouts v \<noteq> mr_payouts r)
      then Inl (DuplicateEventConflict
             ''market resolution payout differs from authoritative evidence'')
      else case dict_get (ls_resolutions s) (mr_market_id r) of
          Some existing \<Rightarrow>
            if market_resolution_eq existing r then Inr s
            else Inl (DuplicateEventConflict ''market resolution changed after being recorded'')
        | None \<Rightarrow> Inr (s\<lparr>ls_resolutions := dict_set (ls_resolutions s) (mr_market_id r) r\<rparr>))"

section \<open>Settlement, scopes and valuations\<close>

definition apply_settlement ::
    "ledger_state \<Rightarrow> string \<Rightarrow> string \<Rightarrow> money \<Rightarrow> ledger_state result" where
  "apply_settlement s market_id outcome_id fee =
     rbind (get_position s (position_key market_id outcome_id)) (\<lambda>p.
     if pos_status p \<noteq> OPEN \<or> pos_quantity p \<le> 0
     then Inl (InvalidTransition ''position is not open for settlement'')
     else if pos_reserved_quantity p \<noteq> 0
     then Inl (InvariantViolation ''position cannot settle while quantity is reserved'')
     else case dict_get (ls_resolutions s) market_id of
         None \<Rightarrow> Inl (AggregateNotFound ''market resolution not found'')
       | Some r \<Rightarrow>
           if currency fee \<noteq> ls_currency s
           then Inl (InvariantViolation ''settlement fee currency differs from ledger currency'') else
           rbind (payout_for r outcome_id) (\<lambda>payout.
           rbind (money_from_unit_price (PyDecimal payout) (PyDecimal (pos_quantity p))
                    (ls_currency s)) (\<lambda>gross.
           if amount gross < amount fee
           then Inl (InvariantViolation ''settlement fee exceeds gross proceeds'') else
           rbind (money_sub gross fee) (\<lambda>net.
           rbind (money_zero (ls_currency s)) (\<lambda>z.
           rbind (money_add (pos_realized_pnl p) net) (\<lambda>pnl_net.
           rbind (money_sub pnl_net (pos_cost_basis p)) (\<lambda>pnl.
           rbind (money_add (ls_cash s) net) (\<lambda>cash.
           Inr (replace_position (s\<lparr>ls_cash := cash\<rparr>)
             (p\<lparr>pos_quantity := 0, pos_reserved_quantity := 0, pos_cost_basis := z,
                pos_realized_pnl := pnl, pos_status := SETTLED,
                pos_settlement_payout := Some payout\<rparr>))))))))))"

definition apply_risk_scope_registered :: "ledger_state \<Rightarrow> risk_scope \<Rightarrow> ledger_state result" where
  "apply_risk_scope_registered s scope = rbind (require_opened s) (\<lambda>_. Inr s)"

definition open_positions :: "ledger_state \<Rightarrow> (position_key, position) dict" where
  "open_positions s = filter (\<lambda>(key, p). pos_status p = OPEN \<and> 0 < pos_quantity p) (ls_positions s)"

definition check_mark ::
    "string \<Rightarrow> (position_key, position_valuation) dict \<Rightarrow> money \<Rightarrow> position_key \<times> position \<Rightarrow>
     money result" where
  "check_mark cur marks acc entry =
     (case dict_get marks (fst entry) of
        None \<Rightarrow> Inl KeyError
      | Some mark \<Rightarrow>
          if pv_quantity mark \<noteq> pos_quantity (snd entry)
          then Inl (InvariantViolation ''portfolio valuation quantity differs from ledger position'')
          else if currency (pv_liquidation_value mark) \<noteq> cur
          then Inl (InvariantViolation ''position valuation currency differs from ledger currency'')
          else money_add acc (pv_liquidation_value mark))"

definition apply_portfolio_valuation ::
    "ledger_state \<Rightarrow> portfolio_valuation \<Rightarrow> ledger_state result" where
  "apply_portfolio_valuation s v =
     rbind (require_opened s) (\<lambda>_.
     if currency (pf_equity v) \<noteq> ls_currency s
     then Inl (InvariantViolation ''portfolio valuation currency differs from ledger currency'') else
     let marks = fold (\<lambda>m d. dict_set d (pv_position_key m) m) (pf_positions v) []
     in if set (dict_keys marks) \<noteq> set (dict_keys (open_positions s))
        then Inl (InvariantViolation
               ''portfolio valuation does not cover exactly the open positions'') else
     rbind (money_zero (ls_currency s)) (\<lambda>z.
     rbind (rfold (check_mark (ls_currency s) marks) z (open_positions s)) (\<lambda>marked.
     rbind (money_add (ls_cash s) marked) (\<lambda>equity.
     if pf_equity v \<noteq> equity
     then Inl (InvariantViolation
            ''portfolio valuation equity does not reconcile to cash plus marks'')
     else Inr s))))"

section \<open>Events\<close>

fun apply_body :: "(string \<Rightarrow> string) \<Rightarrow> ledger_state \<Rightarrow> event_body \<Rightarrow> ledger_state result" where
  "apply_body sha s (AccountOpened m) = apply_account_opened s m"
| "apply_body sha s (OrderIntentCreated i) = apply_intent_created s i"
| "apply_body sha s (OrderSubmitted i b) = apply_submitted s i b"
| "apply_body sha s (OrderAcknowledged i) = apply_acknowledged s i"
| "apply_body sha s (FillReceived f) = apply_fill sha s f"
| "apply_body sha s (OrderRejected i r) = apply_terminal s i REJECTED r"
| "apply_body sha s (OrderCancelled i r) = apply_terminal s i CANCELLED r"
| "apply_body sha s (OrderOutcomeUnknown i r) = apply_unknown s i r"
| "apply_body sha s (WeatherObservationRecorded w) = apply_weather_observation s w"
| "apply_body sha s (MarketResolutionEvidenceRecorded v) = apply_resolution_evidence s v"
| "apply_body sha s (MarketResolved r) = apply_resolution s r"
| "apply_body sha s (PositionSettled m oc fee) = apply_settlement s m oc fee"
| "apply_body sha s (RiskScopeRegistered sc) = apply_risk_scope_registered s sc"
| "apply_body sha s (PortfolioValuationRecorded v) = apply_portfolio_valuation s v"

definition apply_event ::
    "(string \<Rightarrow> string) \<Rightarrow> (ledger_event \<Rightarrow> string) \<Rightarrow> ledger_state \<Rightarrow> ledger_event \<Rightarrow>
     ledger_state result" where
  "apply_event sha fp s e =
     (let event_fp = fp e
      in case dict_get (ls_fingerprints s) (ev_event_id e) of
        Some existing \<Rightarrow>
          if existing = event_fp then Inr s
          else Inl (DuplicateEventConflict ''event identifier was reused with different data'')
      | None \<Rightarrow>
          rbind (apply_body sha s (ev_body e)) (\<lambda>s'.
          let s'' = record_event s' e event_fp
          in rbind (assert_invariants s'') (\<lambda>_. Inr s'')))"

definition replay ::
    "(string \<Rightarrow> string) \<Rightarrow> (ledger_event \<Rightarrow> string) \<Rightarrow> string \<Rightarrow> ledger_event list \<Rightarrow>
     ledger_state result" where
  "replay sha fp cur es = rbind (ledger_empty cur) (\<lambda>s. rfold (apply_event sha fp) s es)"

end
