(* ===== verification/Ledger_Spec.thy ===== *)
theory Ledger_Spec
  imports Reducers
begin

text \<open>
  An abstract specification of the ledger: \<open>ledger_step b s s'\<close> relates the states before and
  after an accepted event body, one rule per way an event is accepted, with exact rational
  amounts instead of rounded, range-checked arithmetic. \<open>apply_body_refines\<close> shows that every
  state the reducers return is one the specification allows.
\<close>

abbreviation coins :: "ledger_state \<Rightarrow> rat \<Rightarrow> money" where
  "coins s x \<equiv> \<lparr>amount = x, currency = ls_currency s\<rparr>"

abbreviation fresh_position :: "ledger_state \<Rightarrow> position_key \<Rightarrow> position" where
  "fresh_position s key \<equiv>
     \<lparr>pos_market_id = fst key, pos_outcome_id = snd key, pos_quantity = 0,
      pos_reserved_quantity = 0, pos_cost_basis = coins s 0, pos_realized_pnl = coins s 0,
      pos_status = OPEN, pos_settlement_payout = None\<rparr>"

definition spec_new_order :: "ledger_state \<Rightarrow> order_intent \<Rightarrow> order_aggregate" where
  "spec_new_order s i =
     \<lparr>oa_intent = i, oa_state = CREATED, oa_filled_quantity = 0, oa_gross_value = coins s 0,
      oa_fees = coins s 0,
      oa_reserved_cash = coins s (if oi_side i = SELL then 0 else
        unit_product (oi_limit_price i) (oi_quantity i) + amount (oi_fee_reserve i)),
      oa_reserved_quantity = (if oi_side i = SELL then oi_quantity i else 0),
      oa_backend_order_id = None, oa_terminal_reason = None, oa_unknown_reason = None,
      oa_fill_fingerprints = []\<rparr>"

definition fill_total :: "order_aggregate \<Rightarrow> fill \<Rightarrow> rat" where
  "fill_total ord f = oa_filled_quantity ord + fl_quantity f"

definition fill_target :: "order_aggregate \<Rightarrow> fill \<Rightarrow> order_state" where
  "fill_target ord f =
     (if fill_total ord f = oi_quantity (oa_intent ord) then FILLED else PARTIALLY_FILLED)"

definition fill_gross :: "fill \<Rightarrow> rat" where
  "fill_gross f = unit_product (fl_price f) (fl_quantity f)"

text \<open>What a buy order still reserves after a fill.\<close>

definition reservation_after :: "order_aggregate \<Rightarrow> fill \<Rightarrow> rat" where
  "reservation_after ord f =
     unit_product (oi_limit_price (oa_intent ord))
       (oi_quantity (oa_intent ord) - oa_filled_quantity ord - fl_quantity f)
     + (amount (oi_fee_reserve (oa_intent ord)) - amount (oa_fees ord) - amount (fl_fee f))"

definition filled_order :: "(string \<Rightarrow> string) \<Rightarrow> ledger_state \<Rightarrow> order_aggregate \<Rightarrow> fill \<Rightarrow> order_aggregate" where
  "filled_order sha s ord f =
     ord\<lparr>oa_state := fill_target ord f, oa_filled_quantity := fill_total ord f,
         oa_gross_value := coins s (amount (oa_gross_value ord) + fill_gross f),
         oa_fees := coins s (amount (oa_fees ord) + amount (fl_fee f)),
         oa_fill_fingerprints :=
           dict_set (oa_fill_fingerprints ord) (fl_fill_id f) (delivery_fingerprint sha f),
         oa_unknown_reason := None\<rparr>"

definition closed_order :: "order_aggregate \<Rightarrow> order_state \<Rightarrow> string \<Rightarrow> order_aggregate" where
  "closed_order ord target reason =
     ord\<lparr>oa_state := target, oa_terminal_reason := Some reason, oa_unknown_reason := None\<rparr>"

text \<open>Rejections and cancellations, with the state they lead to.\<close>

fun closes :: "event_body \<Rightarrow> (string \<times> order_state \<times> string) option" where
  "closes (OrderRejected i r) = Some (i, REJECTED, r)"
| "closes (OrderCancelled i r) = Some (i, CANCELLED, r)"
| "closes _ = None"

inductive ledger_step ::
    "(string \<Rightarrow> string) \<Rightarrow> event_body \<Rightarrow> ledger_state \<Rightarrow> ledger_state \<Rightarrow> bool" for sha where
  open_account: "\<lbrakk>\<not> ls_opened s; currency m = ls_currency s\<rbrakk> \<Longrightarrow>
    ledger_step sha (AccountOpened m) s (s\<lparr>ls_opened := True, ls_cash := m\<rparr>)"
| intent_again: "\<lbrakk>dict_get (ls_orders s) (oi_intent_id i) = Some ord; order_intent_eq (oa_intent ord) i\<rbrakk> \<Longrightarrow>
    ledger_step sha (OrderIntentCreated i) s s"
| reserve_buy: "\<lbrakk>ls_opened s; dict_get (ls_orders s) (oi_intent_id i) = None; oi_side i = BUY;
     currency (oi_fee_reserve i) = ls_currency s; ord = spec_new_order s i;
     amount (oa_reserved_cash ord) \<le> amount (ls_cash s) - amount (ls_reserved_cash s)\<rbrakk> \<Longrightarrow>
    ledger_step sha (OrderIntentCreated i) s
      (replace_order (s\<lparr>ls_reserved_cash :=
         coins s (amount (ls_reserved_cash s) + amount (oa_reserved_cash ord))\<rparr>) ord)"
| reserve_sell: "\<lbrakk>ls_opened s; dict_get (ls_orders s) (oi_intent_id i) = None; oi_side i = SELL;
     currency (oi_fee_reserve i) = ls_currency s; ord = spec_new_order s i;
     dict_get (ls_positions s) (order_key ord) = Some p; pos_status p = OPEN;
     oi_quantity i \<le> pos_quantity p - pos_reserved_quantity p\<rbrakk> \<Longrightarrow>
    ledger_step sha (OrderIntentCreated i) s
      (replace_order (replace_position s
        (p\<lparr>pos_reserved_quantity := pos_reserved_quantity p + oi_quantity i\<rparr>)) ord)"
| submit: "\<lbrakk>dict_get (ls_orders s) i = Some ord; SUBMITTED \<in> allowed_transitions (oa_state ord);
     oa_backend_order_id ord \<in> {None, Some b}\<rbrakk> \<Longrightarrow>
    ledger_step sha (OrderSubmitted i b) s
      (replace_order s (ord\<lparr>oa_state := SUBMITTED, oa_backend_order_id := Some b\<rparr>))"
| acknowledge: "\<lbrakk>dict_get (ls_orders s) i = Some ord; ACKNOWLEDGED \<in> allowed_transitions (oa_state ord)\<rbrakk> \<Longrightarrow>
    ledger_step sha (OrderAcknowledged i) s
      (replace_order s (ord\<lparr>oa_state := ACKNOWLEDGED, oa_unknown_reason := None\<rparr>))"
| lose_track: "\<lbrakk>dict_get (ls_orders s) i = Some ord; UNKNOWN \<in> allowed_transitions (oa_state ord)\<rbrakk> \<Longrightarrow>
    ledger_step sha (OrderOutcomeUnknown i r) s
      (replace_order s (ord\<lparr>oa_state := UNKNOWN, oa_unknown_reason := Some r\<rparr>))"
| close_buy: "\<lbrakk>closes b = Some (i, target, r); dict_get (ls_orders s) i = Some ord;
     target \<in> allowed_transitions (oa_state ord); oi_side (oa_intent ord) = BUY\<rbrakk> \<Longrightarrow>
    ledger_step sha b s
      (replace_order (s\<lparr>ls_reserved_cash :=
          coins s (amount (ls_reserved_cash s) - amount (oa_reserved_cash ord))\<rparr>)
        (closed_order (ord\<lparr>oa_reserved_cash := coins s 0\<rparr>) target r))"
| close_sell: "\<lbrakk>closes b = Some (i, target, r); dict_get (ls_orders s) i = Some ord;
     target \<in> allowed_transitions (oa_state ord); oi_side (oa_intent ord) = SELL;
     dict_get (ls_positions s) (order_key ord) = Some p;
     oa_reserved_quantity ord \<le> pos_reserved_quantity p\<rbrakk> \<Longrightarrow>
    ledger_step sha b s
      (replace_order (replace_position s
          (p\<lparr>pos_reserved_quantity := pos_reserved_quantity p - oa_reserved_quantity ord\<rparr>))
        (closed_order (ord\<lparr>oa_reserved_quantity := 0\<rparr>) target r))"
| fill_again: "\<lbrakk>dict_get (ls_orders s) (fl_intent_id f) = Some ord;
     dict_get (oa_fill_fingerprints ord) (fl_fill_id f) = Some (delivery_fingerprint sha f)\<rbrakk> \<Longrightarrow>
    ledger_step sha (FillReceived f) s s"
| fill_buy: "\<lbrakk>dict_get (ls_orders s) (fl_intent_id f) = Some ord;
     dict_get (oa_fill_fingerprints ord) (fl_fill_id f) = None;
     oi_side (oa_intent ord) = BUY; fill_total ord f \<le> oi_quantity (oa_intent ord);
     fill_target ord f \<in> allowed_transitions (oa_state ord); currency (fl_fee f) = ls_currency s;
     fl_price f \<le> oi_limit_price (oa_intent ord);
     amount (fl_fee f) \<le> amount (oi_fee_reserve (oa_intent ord)) - amount (oa_fees ord);
     reservation_after ord f \<le> amount (oa_reserved_cash ord);
     debit = fill_gross f + amount (fl_fee f); debit \<le> amount (ls_cash s);
     p = (case dict_get (ls_positions s) (order_key ord) of
            None \<Rightarrow> fresh_position s (order_key ord) | Some p \<Rightarrow> p);
     pos_status p = OPEN;
     kept = (if fill_target ord f = FILLED then 0 else reservation_after ord f)\<rbrakk> \<Longrightarrow>
    ledger_step sha (FillReceived f) s
      (replace_order (replace_position
         (s\<lparr>ls_cash := coins s (amount (ls_cash s) - debit),
            ls_reserved_cash := coins s (amount (ls_reserved_cash s)
              - (amount (oa_reserved_cash ord) - kept))\<rparr>)
         (p\<lparr>pos_quantity := pos_quantity p + fl_quantity f,
            pos_cost_basis := coins s (amount (pos_cost_basis p) + debit)\<rparr>))
        (filled_order sha s (ord\<lparr>oa_reserved_cash := coins s kept\<rparr>) f))"
| fill_sell: "\<lbrakk>dict_get (ls_orders s) (fl_intent_id f) = Some ord;
     dict_get (oa_fill_fingerprints ord) (fl_fill_id f) = None;
     oi_side (oa_intent ord) = SELL; fill_total ord f \<le> oi_quantity (oa_intent ord);
     fill_target ord f \<in> allowed_transitions (oa_state ord); currency (fl_fee f) = ls_currency s;
     oi_limit_price (oa_intent ord) \<le> fl_price f;
     dict_get (ls_positions s) (order_key ord) = Some p; pos_status p = OPEN;
     fl_quantity f \<le> pos_quantity p; fl_quantity f \<le> pos_reserved_quantity p;
     fl_quantity f \<le> oa_reserved_quantity ord; amount (fl_fee f) \<le> fill_gross f;
     net = fill_gross f - amount (fl_fee f);
     allocated_cost p (fl_quantity f) = Inr cost;
     kept = (if fill_target ord f = FILLED then 0 else oa_reserved_quantity ord - fl_quantity f)\<rbrakk> \<Longrightarrow>
    ledger_step sha (FillReceived f) s
      (replace_order (replace_position
         (s\<lparr>ls_cash := coins s (amount (ls_cash s) + net)\<rparr>)
         (p\<lparr>pos_quantity := pos_quantity p - fl_quantity f,
            pos_reserved_quantity := pos_reserved_quantity p - (oa_reserved_quantity ord - kept),
            pos_cost_basis := coins s (amount (pos_cost_basis p) - amount cost),
            pos_realized_pnl := coins s (amount (pos_realized_pnl p) + net - amount cost)\<rparr>))
        (filled_order sha s (ord\<lparr>oa_reserved_quantity := kept\<rparr>) f))"
| observation_again: "\<lbrakk>ls_opened s; dict_get (ls_weather s) (wo_market_id w) = Some ws;
     first_with_hash (Some (wo_payload_hash w)) ws = Some v; weather_evidence_eq v w\<rbrakk> \<Longrightarrow>
    ledger_step sha (WeatherObservationRecorded w) s s"
| observe: "\<lbrakk>ls_opened s;
     ws = (case dict_get (ls_weather s) (wo_market_id w) of None \<Rightarrow> [] | Some ws \<Rightarrow> ws);
     first_with_hash (Some (wo_payload_hash w)) ws = None; observation_chain_check ws w = Inr ()\<rbrakk> \<Longrightarrow>
    ledger_step sha (WeatherObservationRecorded w) s
      (s\<lparr>ls_weather := dict_set (ls_weather s) (wo_market_id w) (ws @ [w])\<rparr>)"
| evidence_again: "\<lbrakk>ls_opened s; dict_get (ls_resolution_evidence s) (re_market_id v) = Some v';
     resolution_evidence_eq v' v\<rbrakk> \<Longrightarrow>
    ledger_step sha (MarketResolutionEvidenceRecorded v) s s"
| record_evidence: "\<lbrakk>ls_opened s; dict_get (ls_resolution_evidence s) (re_market_id v) = None;
     \<forall>r. dict_get (ls_resolutions s) (re_market_id v) = Some r \<longrightarrow> mr_payouts r = re_payouts v\<rbrakk> \<Longrightarrow>
    ledger_step sha (MarketResolutionEvidenceRecorded v) s
      (s\<lparr>ls_resolution_evidence := dict_set (ls_resolution_evidence s) (re_market_id v) v\<rparr>)"
| resolution_again: "\<lbrakk>dict_get (ls_resolutions s) (mr_market_id r) = Some r'; market_resolution_eq r' r\<rbrakk> \<Longrightarrow>
    ledger_step sha (MarketResolved r) s s"
| resolve: "\<lbrakk>dict_get (ls_resolutions s) (mr_market_id r) = None;
     \<forall>v. dict_get (ls_resolution_evidence s) (mr_market_id r) = Some v \<longrightarrow> re_payouts v = mr_payouts r\<rbrakk> \<Longrightarrow>
    ledger_step sha (MarketResolved r) s
      (s\<lparr>ls_resolutions := dict_set (ls_resolutions s) (mr_market_id r) r\<rparr>)"
| settle: "\<lbrakk>dict_get (ls_positions s) (m, oc) = Some p; pos_status p = OPEN; 0 < pos_quantity p;
     pos_reserved_quantity p = 0; dict_get (ls_resolutions s) m = Some r;
     payout_for r oc = Inr payout; currency fee = ls_currency s;
     amount fee \<le> unit_product payout (pos_quantity p);
     net = unit_product payout (pos_quantity p) - amount fee\<rbrakk> \<Longrightarrow>
    ledger_step sha (PositionSettled m oc fee) s
      (replace_position (s\<lparr>ls_cash := coins s (amount (ls_cash s) + net)\<rparr>)
        (p\<lparr>pos_quantity := 0, pos_reserved_quantity := 0, pos_cost_basis := coins s 0,
           pos_realized_pnl := coins s (amount (pos_realized_pnl p) + net - amount (pos_cost_basis p)),
           pos_status := SETTLED, pos_settlement_payout := Some payout\<rparr>))"
| register_scope: "ls_opened s \<Longrightarrow> ledger_step sha (RiskScopeRegistered sc) s s"
| record_valuation: "\<lbrakk>ls_opened s;
     set (map pv_position_key (pf_positions v)) = set (dict_keys (open_positions s));
     \<forall>m \<in> set (pf_positions v). \<forall>p. dict_get (ls_positions s) (pv_position_key m) = Some p \<longrightarrow>
       pv_quantity m = pos_quantity p;
     pf_equity v = coins s (amount (ls_cash s)
       + (\<Sum>m \<leftarrow> pf_positions v. amount (pv_liquidation_value m)))\<rbrakk> \<Longrightarrow>
    ledger_step sha (PortfolioValuationRecorded v) s s"

inductive_cases ledger_stepE: "ledger_step sha b s s'"


section \<open>Exact quantities\<close>

lemma quantize_add_InrD:
  assumes "quantize6 (dec_add x y) = Inr z" and "dec6 x" and "dec6 y"
  shows "z = x + y \<and> dec6 z"
proof -
  have g: "on_grid (x + y)" using assms by (simp add: dec6_def)
  have "quantize6 (ctx (x + y)) = Inr z" using assms(1) by (simp only: dec_add_def)
  then show ?thesis using g unfolding quantize6_ctx_grid [OF g] dec6_def by (simp split: if_splits)
qed

lemma quantize_sub_InrD:
  assumes "quantize6 (dec_sub x y) = Inr z" and "dec6 x" and "dec6 y"
  shows "z = x - y \<and> dec6 z"
proof -
  have g: "on_grid (x - y)" using assms by (simp add: dec6_def)
  have "quantize6 (ctx (x - y)) = Inr z" using assms(1) by (simp only: dec_sub_def)
  then show ?thesis using g unfolding quantize6_ctx_grid [OF g] dec6_def by (simp split: if_splits)
qed

lemma remaining_quantity_InrD:
  assumes "remaining_quantity ord = Inr r" and "wf_order ord"
  shows "r = oi_quantity (oa_intent ord) - oa_filled_quantity ord \<and> dec6 r"
  using assms by (intro quantize_sub_InrD) (auto simp: remaining_quantity_def wf_order_def wf_intent_def)

lemma available_quantity_InrD:
  assumes "available_quantity p = Inr r" and "wf_position cur p"
  shows "r = pos_quantity p - pos_reserved_quantity p \<and> dec6 r"
  using assms by (intro quantize_sub_InrD) (auto simp: available_quantity_def wf_position_def)

lemma get_order_Inr [simp]: "get_order s i = Inr ord \<longleftrightarrow> dict_get (ls_orders s) i = Some ord"
  by (simp add: get_order_def split: option.splits)

lemma get_position_Inr [simp]: "get_position s k = Inr p \<longleftrightarrow> dict_get (ls_positions s) k = Some p"
  by (simp add: get_position_def split: option.splits)

lemma require_opened_Inr [simp]: "require_opened s = Inr u \<longleftrightarrow> ls_opened s"
  by (simp add: require_opened_def)

lemma wf_get_order: "wf_ledger s \<Longrightarrow> dict_get (ls_orders s) i = Some ord \<Longrightarrow> wf_order ord"
  by (auto simp: wf_ledger_def dest!: map_of_SomeD)

lemma wf_get_position:
  "wf_ledger s \<Longrightarrow> dict_get (ls_positions s) k = Some p \<Longrightarrow> wf_position (ls_currency s) p"
  by (auto simp: wf_ledger_def dest!: map_of_SomeD)

lemma wf_get_resolution:
  "wf_ledger s \<Longrightarrow> dict_get (ls_resolutions s) k = Some r \<Longrightarrow> wf_resolution r"
  by (auto simp: wf_ledger_def dest!: map_of_SomeD)

lemma wf_replace_order [wf_intros]:
  "wf_ledger s \<Longrightarrow> wf_order ord \<Longrightarrow> wf_ledger (replace_order s ord)"
  by (auto simp: wf_ledger_def replace_order_def dict_set_entries split: if_splits)

lemma wf_replace_position [wf_intros]:
  "wf_ledger s \<Longrightarrow> wf_position (ls_currency s) p \<Longrightarrow> wf_ledger (replace_position s p)"
  by (auto simp: wf_ledger_def replace_position_def dict_set_entries split: if_splits)

lemma wf_set_cash [wf_intros]: "wf_ledger s \<Longrightarrow> wf_money c \<Longrightarrow> wf_ledger (s\<lparr>ls_cash := c\<rparr>)"
  by (simp add: wf_ledger_def)

lemma wf_set_reserved [wf_intros]:
  "wf_ledger s \<Longrightarrow> wf_money c \<Longrightarrow> wf_ledger (s\<lparr>ls_reserved_cash := c\<rparr>)"
  by (simp add: wf_ledger_def)

lemma new_order_InrD:
  assumes "new_order i = Inr ord" and "wf_intent i" and "currency (oi_fee_reserve i) = ls_currency s"
  shows "ord = spec_new_order s i \<and> wf_order ord"
proof -
  have c: "cur_ok (currency (oi_fee_reserve i))" using assms(2) by (simp add: wf_intent_def wf_money_def)
  obtain m where m: "cash_reservation i = Inr m"
    using assms(1) by (auto simp: new_order_def rbind_eq_Inr)
  note m' = cash_reservation_InrD [OF m assms(2)]
  show ?thesis
    using assms m m' c
    by (auto simp: new_order_def spec_new_order_def wf_order_def wf_intent_def wf_money_def)
qed

section \<open>The handlers refine the specification\<close>

lemma money_eqI: "amount m = a \<Longrightarrow> currency m = c \<Longrightarrow> m = \<lparr>amount = a, currency = c\<rparr>"
  by (cases m) simp

lemma intent_created_refines:
  assumes "apply_intent_created s i = Inr s'" and "wf_ledger s" and "wf_intent i"
  shows "ledger_step sha (OrderIntentCreated i) s s'"
proof (cases "dict_get (ls_orders s) (oi_intent_id i)")
  case (Some ord)
  then show ?thesis
    using assms(1)
    by (auto simp: apply_intent_created_def result_simps intro: ledger_step.intent_again)
next
  case None
  then obtain ord t where o: "ls_opened s" "currency (oi_fee_reserve i) = ls_currency s"
    "new_order i = Inr ord" "reserve_intent s i ord = Inr t" "s' = replace_order t ord"
    using assms(1) by (auto simp: apply_intent_created_def result_simps)
  have ord: "ord = spec_new_order s i" "wf_order ord" using new_order_InrD [OF o(3) assms(3) o(2)] by auto
  show ?thesis
  proof (cases "oi_side i")
    case BUY
    then obtain a r where a: "available_cash s = Inr a" "amount (oa_reserved_cash ord) \<le> amount a"
      and r: "money_add (ls_reserved_cash s) (oa_reserved_cash ord) = Inr r"
      and t: "t = s\<lparr>ls_reserved_cash := r\<rparr>"
      using o(4) by (auto simp: reserve_intent_def result_simps not_less)
    have w: "wf_money (ls_cash s)" "wf_money (ls_reserved_cash s)" "wf_money (oa_reserved_cash ord)"
      using assms(2) ord(2) by (auto simp: wf_ledger_def wf_order_def)
    have "amount a = amount (ls_cash s) - amount (ls_reserved_cash s)"
      using money_sub_InrD [OF a(1) [unfolded available_cash_def] w(1,2)] by simp
    moreover have "r = coins s (amount (ls_reserved_cash s) + amount (oa_reserved_cash ord))"
      using money_add_InrD [OF r w(2,3)] ord(1) by (simp add: spec_new_order_def)
    ultimately show ?thesis
      using ledger_step.reserve_buy [of s i ord sha] o None BUY ord(1) a(2) t by simp
  next
    case SELL
    have key: "order_key ord = position_key (oi_market_id i) (oi_outcome_id i)"
      by (simp add: ord(1) order_key_def spec_new_order_def)
    from SELL obtain p av q where p: "dict_get (ls_positions s) (order_key ord) = Some p"
      "pos_status p = OPEN" "available_quantity p = Inr av" "oi_quantity i \<le> av"
      "quantize6 (dec_add (pos_reserved_quantity p) (oi_quantity i)) = Inr q"
      "t = replace_position s (p\<lparr>pos_reserved_quantity := q\<rparr>)"
      using o(4) by (auto simp: reserve_intent_def result_simps not_less key)
    have w: "wf_position (ls_currency s) p" using wf_get_position [OF assms(2) p(1)] .
    have "q = pos_reserved_quantity p + oi_quantity i"
      using quantize_add_InrD [OF p(5)] w assms(3) by (auto simp: wf_position_def wf_intent_def)
    moreover have "av = pos_quantity p - pos_reserved_quantity p"
      using available_quantity_InrD [OF p(3) w] by simp
    ultimately show ?thesis
      using ledger_step.reserve_sell [of s i ord p sha] o None SELL ord(1) p by simp
  qed
qed

lemma release_reservations_InrD:
  assumes "release_reservations s ord = Inr (s1, ord1)"
    and "cur_ok (ls_currency s)" and "wf_money (ls_reserved_cash s)" and "wf_money (oa_reserved_cash ord)"
    and "dec6 (oa_reserved_quantity ord)"
    and "\<forall>k p. dict_get (ls_positions s) k = Some p \<longrightarrow> wf_position (ls_currency s) p"
    and "currency (ls_reserved_cash s) = ls_currency s"
  shows "if oi_side (oa_intent ord) = BUY
    then s1 = s\<lparr>ls_reserved_cash := coins s (amount (ls_reserved_cash s) - amount (oa_reserved_cash ord))\<rparr>
      \<and> ord1 = ord\<lparr>oa_reserved_cash := coins s 0\<rparr>
    else \<exists>p. dict_get (ls_positions s) (order_key ord) = Some p
      \<and> oa_reserved_quantity ord \<le> pos_reserved_quantity p
      \<and> s1 = replace_position s
          (p\<lparr>pos_reserved_quantity := pos_reserved_quantity p - oa_reserved_quantity ord\<rparr>)
      \<and> ord1 = ord\<lparr>oa_reserved_quantity := 0\<rparr>"
proof (cases "oi_side (oa_intent ord)")
  case BUY
  then obtain r where r: "money_sub (ls_reserved_cash s) (oa_reserved_cash ord) = Inr r"
    and s1: "s1 = s\<lparr>ls_reserved_cash := r\<rparr>" "ord1 = ord\<lparr>oa_reserved_cash := coins s 0\<rparr>"
    using assms(1,2) by (auto simp: release_reservations_def result_simps)
  then show ?thesis using money_sub_InrD [OF r assms(3,4)] assms(7) BUY by simp
next
  case SELL
  then obtain p q where p: "dict_get (ls_positions s) (order_key ord) = Some p"
    "oa_reserved_quantity ord \<le> pos_reserved_quantity p"
    "quantize6 (dec_sub (pos_reserved_quantity p) (oa_reserved_quantity ord)) = Inr q"
    "s1 = replace_position s (p\<lparr>pos_reserved_quantity := q\<rparr>)" "ord1 = ord\<lparr>oa_reserved_quantity := 0\<rparr>"
    using assms(1) by (auto simp: release_reservations_def result_simps not_less)
  have "q = pos_reserved_quantity p - oa_reserved_quantity ord"
    using quantize_sub_InrD [OF p(3) _ assms(5)] assms(6) [rule_format, OF p(1)]
    by (simp add: wf_position_def)
  then show ?thesis using p SELL by auto
qed

lemma terminal_refines:
  assumes "apply_terminal s i target r = Inr s'" and "wf_ledger s" and "closes b = Some (i, target, r)"
    and "currency (ls_reserved_cash s) = ls_currency s"
  shows "ledger_step sha b s s'"
proof -
  obtain ord s1 ord1 where o: "dict_get (ls_orders s) i = Some ord"
    "target \<in> allowed_transitions (oa_state ord)" "release_reservations s ord = Inr (s1, ord1)"
    and s': "s' = replace_order s1 (closed_order ord1 target r)"
    using assms(1) by (auto simp: apply_terminal_def result_simps closed_order_def)
  note w = wf_get_order [OF assms(2) o(1)]
  have "if oi_side (oa_intent ord) = BUY
    then s1 = s\<lparr>ls_reserved_cash := coins s (amount (ls_reserved_cash s) - amount (oa_reserved_cash ord))\<rparr>
      \<and> ord1 = ord\<lparr>oa_reserved_cash := coins s 0\<rparr>
    else \<exists>p. dict_get (ls_positions s) (order_key ord) = Some p
      \<and> oa_reserved_quantity ord \<le> pos_reserved_quantity p
      \<and> s1 = replace_position s
          (p\<lparr>pos_reserved_quantity := pos_reserved_quantity p - oa_reserved_quantity ord\<rparr>)
      \<and> ord1 = ord\<lparr>oa_reserved_quantity := 0\<rparr>"
    using assms(2,4) w wf_get_position [OF assms(2)]
    by (intro release_reservations_InrD [OF o(3)]) (auto simp: wf_ledger_def wf_order_def)
  then show ?thesis
    using o(1,2) s' assms(3)
    by (cases "oi_side (oa_intent ord)")
      (auto intro: ledger_step.close_buy ledger_step.close_sell)
qed


lemma buy_fill_InrD:
  assumes fill: "apply_buy_fill s ord f gross = Inr (s1, ord1)"
    and s: "wf_ledger s" "currency (ls_cash s) = ls_currency s" "currency (ls_reserved_cash s) = ls_currency s"
    and o: "wf_order ord" "currency (oi_fee_reserve (oa_intent ord)) = ls_currency s"
    and f: "wf_fill f" "currency (fl_fee f) = ls_currency s"
    and g: "gross = coins s (fill_gross f)" "wf_money gross"
  shows "\<exists>p. p = (case dict_get (ls_positions s) (order_key ord) of
        None \<Rightarrow> fresh_position s (order_key ord) | Some p \<Rightarrow> p)
    \<and> pos_status p = OPEN \<and> fl_price f \<le> oi_limit_price (oa_intent ord)
    \<and> amount (fl_fee f) \<le> amount (oi_fee_reserve (oa_intent ord)) - amount (oa_fees ord)
    \<and> reservation_after ord f \<le> amount (oa_reserved_cash ord)
    \<and> fill_gross f + amount (fl_fee f) \<le> amount (ls_cash s)
    \<and> s1 = replace_position
        (s\<lparr>ls_cash := coins s (amount (ls_cash s) - (fill_gross f + amount (fl_fee f))),
           ls_reserved_cash := coins s (amount (ls_reserved_cash s)
             - (amount (oa_reserved_cash ord) - reservation_after ord f))\<rparr>)
        (p\<lparr>pos_quantity := pos_quantity p + fl_quantity f,
           pos_cost_basis := coins s (amount (pos_cost_basis p) + (fill_gross f + amount (fl_fee f)))\<rparr>)
    \<and> ord1 = ord\<lparr>oa_reserved_cash := coins s (reservation_after ord f)\<rparr>
    \<and> wf_ledger s1 \<and> wf_order ord1"
proof -
  let ?i = "oa_intent ord"
  have typed: "wf_money (oi_fee_reserve ?i)" "wf_money (oa_fees ord)" "wf_money (oa_reserved_cash ord)"
    "wf_money (fl_fee f)" "wf_money (ls_cash s)" "wf_money (ls_reserved_cash s)" "dec6 (fl_quantity f)"
    "dec6 (oi_limit_price ?i)" "cur_ok (ls_currency s)"
    using s o f by (auto simp: wf_order_def wf_intent_def wf_fill_def wf_ledger_def)
  obtain fee_left0 rem rem' notional fee_left R release debit cash reserved p q basis where
    price: "fl_price f \<le> oi_limit_price ?i"
    and b1: "money_sub (oi_fee_reserve ?i) (oa_fees ord) = Inr fee_left0"
    and fee: "amount (fl_fee f) \<le> amount fee_left0"
    and b2: "remaining_quantity ord = Inr rem"
    and b3: "quantize6 (dec_sub rem (fl_quantity f)) = Inr rem'"
    and b4: "money_from_unit_price (PyDecimal (oi_limit_price ?i)) (PyDecimal rem') (ls_currency s)
      = Inr notional"
    and b5: "money_sub fee_left0 (fl_fee f) = Inr fee_left"
    and b6: "money_add notional fee_left = Inr R"
    and resv: "amount R \<le> amount (oa_reserved_cash ord)"
    and b7: "money_sub (oa_reserved_cash ord) R = Inr release"
    and b8: "money_add gross (fl_fee f) = Inr debit"
    and cash_ok: "amount debit \<le> amount (ls_cash s)"
    and b9: "money_sub (ls_cash s) debit = Inr cash"
    and b10: "money_sub (ls_reserved_cash s) release = Inr reserved"
    and b11: "position_or_empty (s\<lparr>ls_cash := cash, ls_reserved_cash := reserved\<rparr>)
      (ord\<lparr>oa_reserved_cash := R\<rparr>) = Inr p"
    and op: "pos_status p = OPEN"
    and b12: "quantize6 (dec_add (pos_quantity p) (fl_quantity f)) = Inr q"
    and b13: "money_add (pos_cost_basis p) debit = Inr basis"
    and s1: "s1 = replace_position (s\<lparr>ls_cash := cash, ls_reserved_cash := reserved\<rparr>)
      (p\<lparr>pos_quantity := q, pos_cost_basis := basis\<rparr>)"
    and o1: "ord1 = ord\<lparr>oa_reserved_cash := R\<rparr>"
    using fill unfolding apply_buy_fill_def Let_def result_simps not_less prod.inject sum.inject
    by (auto simp: not_less)
  note d1 = money_sub_InrD [OF b1 typed(1,2)]
  note d2 = remaining_quantity_InrD [OF b2 o(1)]
  note d3 = quantize_sub_InrD [OF b3 _ typed(7)]
  have rem': "rem' = oi_quantity ?i - oa_filled_quantity ord - fl_quantity f" "dec6 rem'"
    using d2 d3 by auto
  note d4 = money_from_unit_price_InrD [OF b4 typed(8) rem'(2) typed(9)]
  have d5: "fee_left = coins s (amount (oi_fee_reserve ?i) - amount (oa_fees ord) - amount (fl_fee f))"
    "wf_money fee_left"
    using money_sub_InrD [OF b5 _ typed(4)] d1 f(2) by auto
  have R: "R = coins s (reservation_after ord f)" "wf_money R"
    using money_add_InrD [OF b6 _ d5(2)] d4 d5 rem' by (auto simp: reservation_after_def)
  have rel: "release = coins s (amount (oa_reserved_cash ord) - reservation_after ord f)" "wf_money release"
    using money_sub_InrD [OF b7 typed(3) R(2)] R by auto
  have debit: "debit = coins s (fill_gross f + amount (fl_fee f))" "wf_money debit"
    using money_add_InrD [OF b8 g(2) typed(4)] g f(2) by auto
  have cash: "cash = coins s (amount (ls_cash s) - (fill_gross f + amount (fl_fee f)))" "wf_money cash"
    using money_sub_InrD [OF b9 typed(5) debit(2)] debit by auto
  have reserved: "reserved = coins s (amount (ls_reserved_cash s)
      - (amount (oa_reserved_cash ord) - reservation_after ord f))" "wf_money reserved"
    using money_sub_InrD [OF b10 typed(6) rel(2)] rel by auto
  have key: "order_key (ord\<lparr>oa_reserved_cash := R\<rparr>) = order_key ord" by (simp add: order_key_def)
  have p: "p = (case dict_get (ls_positions s) (order_key ord) of
        None \<Rightarrow> fresh_position s (order_key ord) | Some p \<Rightarrow> p)"
    using b11 typed(9) key
    by (auto simp: position_or_empty_def empty_position_def order_key_def position_key_def
        result_simps split: option.splits)
  have wp: "wf_position (ls_currency s) p"
    using p wf_get_position [OF s(1)] typed(9)
    by (auto simp: wf_position_def split: option.splits)
  then have q: "q = pos_quantity p + fl_quantity f" "dec6 q"
    using quantize_add_InrD [OF b12 _ typed(7)] by (auto simp: wf_position_def)
  have basis: "basis = coins s (amount (pos_cost_basis p) + (fill_gross f + amount (fl_fee f)))"
    "wf_money basis"
    using money_add_InrD [OF b13 _ debit(2)] wp debit by (auto simp: wf_position_def)
  have "wf_position (ls_currency s) (p\<lparr>pos_quantity := q, pos_cost_basis := basis\<rparr>)"
    using wp q basis by (auto simp: wf_position_def)
  then have "wf_ledger s1"
    unfolding s1 using s(1) cash(2) reserved(2) by (intro wf_intros) simp_all
  moreover have "wf_order ord1" using o(1) R unfolding o1 by (auto simp: wf_order_def)
  ultimately show ?thesis
    using p op price fee d1 resv R cash_ok debit s1 o1 cash reserved q basis by auto
qed


lemma money_scale_wf: "money_scale m v = Inr r \<Longrightarrow> wf_money m \<Longrightarrow> wf_money r \<and> currency r = currency m"
  by (auto simp: money_scale_def result_simps wf_money_def cur_ok_def dest!: quantize6_result)

lemma allocated_cost_wf:
  assumes "allocated_cost p x = Inr cost" and "wf_position cur p"
  shows "wf_money cost \<and> currency cost = cur"
  using assms money_scale_wf [of "pos_cost_basis p"]
  by (auto simp: allocated_cost_def result_simps wf_position_def split: if_splits)

lemma sell_fill_InrD:
  assumes fill: "apply_sell_fill s ord f gross = Inr (s1, ord1)"
    and s: "wf_ledger s" "currency (ls_cash s) = ls_currency s"
    and o: "wf_order ord"
    and f: "wf_fill f" "currency (fl_fee f) = ls_currency s"
    and g: "gross = coins s (fill_gross f)" "wf_money gross"
  shows "\<exists>p cost. dict_get (ls_positions s) (order_key ord) = Some p
    \<and> pos_status p = OPEN \<and> oi_limit_price (oa_intent ord) \<le> fl_price f
    \<and> fl_quantity f \<le> pos_quantity p \<and> fl_quantity f \<le> pos_reserved_quantity p
    \<and> fl_quantity f \<le> oa_reserved_quantity ord \<and> amount (fl_fee f) \<le> fill_gross f
    \<and> allocated_cost p (fl_quantity f) = Inr cost
    \<and> s1 = replace_position
        (s\<lparr>ls_cash := coins s (amount (ls_cash s) + (fill_gross f - amount (fl_fee f)))\<rparr>)
        (p\<lparr>pos_quantity := pos_quantity p - fl_quantity f,
           pos_reserved_quantity := pos_reserved_quantity p - fl_quantity f,
           pos_cost_basis := coins s (amount (pos_cost_basis p) - amount cost),
           pos_realized_pnl := coins s (amount (pos_realized_pnl p)
             + (fill_gross f - amount (fl_fee f)) - amount cost)\<rparr>)
    \<and> ord1 = ord\<lparr>oa_reserved_quantity := oa_reserved_quantity ord - fl_quantity f\<rparr>
    \<and> wf_ledger s1 \<and> wf_order ord1"
proof -
  have typed: "wf_money (fl_fee f)" "wf_money (ls_cash s)" "dec6 (fl_quantity f)"
    "dec6 (oa_reserved_quantity ord)" "cur_ok (ls_currency s)"
    using s o f by (auto simp: wf_order_def wf_fill_def wf_ledger_def)
  obtain p net cost rem resv basis pnl_gross pnl ores cash where
    price: "oi_limit_price (oa_intent ord) \<le> fl_price f"
    and p: "dict_get (ls_positions s) (order_key ord) = Some p" "pos_status p = OPEN"
    and le: "fl_quantity f \<le> pos_quantity p" "fl_quantity f \<le> pos_reserved_quantity p"
      "fl_quantity f \<le> oa_reserved_quantity ord" "amount (fl_fee f) \<le> amount gross"
    and b1: "money_sub gross (fl_fee f) = Inr net"
    and b2: "allocated_cost p (fl_quantity f) = Inr cost"
    and b3: "quantize6 (dec_sub (pos_quantity p) (fl_quantity f)) = Inr rem"
    and b4: "quantize6 (dec_sub (pos_reserved_quantity p) (fl_quantity f)) = Inr resv"
    and b5: "(if rem = 0 then money_zero (ls_currency s) else money_sub (pos_cost_basis p) cost) = Inr basis"
    and b6: "money_add (pos_realized_pnl p) net = Inr pnl_gross"
    and b7: "money_sub pnl_gross cost = Inr pnl"
    and b8: "quantize6 (dec_sub (oa_reserved_quantity ord) (fl_quantity f)) = Inr ores"
    and b9: "money_add (ls_cash s) net = Inr cash"
    and s1: "s1 = replace_position (s\<lparr>ls_cash := cash\<rparr>)
      (p\<lparr>pos_quantity := rem, pos_reserved_quantity := resv, pos_cost_basis := basis,
         pos_realized_pnl := pnl\<rparr>)"
    and o1: "ord1 = ord\<lparr>oa_reserved_quantity := ores\<rparr>"
    using fill unfolding apply_sell_fill_def Let_def result_simps not_less prod.inject sum.inject
    by (auto simp: not_less)
  have wp: "wf_position (ls_currency s) p" by (rule wf_get_position [OF s(1) p(1)])
  have tp: "dec6 (pos_quantity p)" "dec6 (pos_reserved_quantity p)" "wf_money (pos_cost_basis p)"
    "wf_money (pos_realized_pnl p)" "currency (pos_cost_basis p) = ls_currency s"
    "currency (pos_realized_pnl p) = ls_currency s"
    using wp by (auto simp: wf_position_def)
  note c = allocated_cost_wf [OF b2 wp]
  note q = quantize_sub_InrD [OF b3 tp(1) typed(3)] quantize_sub_InrD [OF b4 tp(2) typed(3)]
    quantize_sub_InrD [OF b8 typed(4) typed(3)]
  have net: "net = coins s (fill_gross f - amount (fl_fee f))" "wf_money net"
    using money_sub_InrD [OF b1 g(2) typed(1)] g f(2) by auto
  have basis: "basis = coins s (amount (pos_cost_basis p) - amount cost) \<and> wf_money basis"
  proof (cases "rem = 0")
    case True
    then have "fl_quantity f = pos_quantity p" using q(1) by simp
    then have "cost = pos_cost_basis p" using b2 by (simp add: allocated_cost_def)
    then show ?thesis using True b5 typed(5) by auto
  next
    case False
    then show ?thesis using money_sub_InrD [OF _ tp(3) conjunct1 [OF c]] b5 c by auto
  qed
  have pg: "pnl_gross = coins s (amount (pos_realized_pnl p) + (fill_gross f - amount (fl_fee f)))"
    "wf_money pnl_gross"
    using money_add_InrD [OF b6 tp(4) net(2)] net by auto
  have pnl: "pnl = coins s (amount (pos_realized_pnl p) + (fill_gross f - amount (fl_fee f)) - amount cost)"
    "wf_money pnl"
    using money_sub_InrD [OF b7 pg(2)] c pg by auto
  have cash: "cash = coins s (amount (ls_cash s) + (fill_gross f - amount (fl_fee f)))" "wf_money cash"
    using money_add_InrD [OF b9 typed(2) net(2)] net by auto
  have "wf_ledger s1"
    unfolding s1 using s(1) cash(2) q basis pnl by (intro wf_intros) (auto simp: wf_position_def)
  moreover have "wf_order ord1" using o q(3) unfolding o1 by (auto simp: wf_order_def)
  ultimately show ?thesis
    using p price le g b2 s1 o1 q basis pnl cash by auto
qed


lemma dict_set_twice [simp]: "dict_set (dict_set d k v) k w = dict_set d k w"
  by (induction d) auto

lemma replace_position_twice:
  assumes "position_key (pos_market_id q) (pos_outcome_id q) = position_key (pos_market_id p) (pos_outcome_id p)"
  shows "replace_position (replace_position s p) q = replace_position s q"
  using assms by (simp add: replace_position_def)

lemma get_position_replaced:
  "dict_get (ls_positions (replace_position s p)) k =
     (if k = position_key (pos_market_id p) (pos_outcome_id p) then Some p else dict_get (ls_positions s) k)"
  by (simp add: replace_position_def)

lemma replace_position_fields [simp]:
  "ls_cash (replace_position s p) = ls_cash s" "ls_currency (replace_position s p) = ls_currency s"
  "ls_reserved_cash (replace_position s p) = ls_reserved_cash s"
  "ls_orders (replace_position s p) = ls_orders s" "ls_opened (replace_position s p) = ls_opened s"
  "ls_resolutions (replace_position s p) = ls_resolutions s"
  "ls_resolution_evidence (replace_position s p) = ls_resolution_evidence s"
  "ls_weather (replace_position s p) = ls_weather s"
  "ls_fingerprints (replace_position s p) = ls_fingerprints s"
  by (simp_all add: replace_position_def)

lemma replace_order_fields [simp]:
  "ls_cash (replace_order s ord) = ls_cash s" "ls_currency (replace_order s ord) = ls_currency s"
  "ls_reserved_cash (replace_order s ord) = ls_reserved_cash s"
  "ls_positions (replace_order s ord) = ls_positions s" "ls_opened (replace_order s ord) = ls_opened s"
  "ls_resolutions (replace_order s ord) = ls_resolutions s"
  "ls_resolution_evidence (replace_order s ord) = ls_resolution_evidence s"
  "ls_weather (replace_order s ord) = ls_weather s"
  "ls_fingerprints (replace_order s ord) = ls_fingerprints s"
  by (simp_all add: replace_order_def)

lemma get_order_replaced:
  "dict_get (ls_orders (replace_order s ord)) i =
     (if i = oi_intent_id (oa_intent ord) then Some ord else dict_get (ls_orders s) i)"
  by (simp add: replace_order_def)

lemma replace_position_reserved:
  "replace_position s p\<lparr>ls_reserved_cash := r\<rparr> = replace_position (s\<lparr>ls_reserved_cash := r\<rparr>) p"
  by (simp add: replace_position_def)

lemma filled_order_reserved:
  "filled_order sha s (ord\<lparr>oa_reserved_cash := r\<rparr>) f = (filled_order sha s ord f)\<lparr>oa_reserved_cash := r\<rparr>"
  "filled_order sha s (ord\<lparr>oa_reserved_quantity := q\<rparr>) f =
     (filled_order sha s ord f)\<lparr>oa_reserved_quantity := q\<rparr>"
  by (simp_all add: filled_order_def fill_target_def fill_total_def)

lemma filled_order_fields [simp]:
  "oa_intent (filled_order sha s ord f) = oa_intent ord"
  "oa_reserved_cash (filled_order sha s ord f) = oa_reserved_cash ord"
  "oa_reserved_quantity (filled_order sha s ord f) = oa_reserved_quantity ord"
  "order_key (filled_order sha s ord f) = order_key ord"
  "oa_state (filled_order sha s ord f) = fill_target ord f"
  "oa_filled_quantity (filled_order sha s ord f) = fill_total ord f"
  by (simp_all add: filled_order_def order_key_def)

lemma order_key_reserved [simp]:
  "order_key (ord\<lparr>oa_reserved_cash := r\<rparr>) = order_key ord"
  "order_key (ord\<lparr>oa_reserved_quantity := q\<rparr>) = order_key ord"
  by (simp_all add: order_key_def)

lemma ledger_ok_currency:
  "ledger_ok s \<Longrightarrow> currency (ls_cash s) = ls_currency s \<and> currency (ls_reserved_cash s) = ls_currency s"
  by (simp add: ledger_ok_def)

lemma ledger_ok_order: "ledger_ok s \<Longrightarrow> dict_get (ls_orders s) i = Some ord \<Longrightarrow> order_ok (ls_currency s) i ord"
  by (auto simp: ledger_ok_def dest!: map_of_SomeD)

lemma ledger_ok_position:
  "ledger_ok s \<Longrightarrow> dict_get (ls_positions s) k = Some p \<Longrightarrow>
     position_ok k p (dict_sum (\<lambda>_. sell_reserved k) (ls_orders s))"
  by (auto simp: ledger_ok_def dest!: map_of_SomeD)

text \<open>The parts of \<open>apply_fill\<close> before its last step.\<close>

lemma apply_fill_InrE:
  assumes "apply_fill sha s f = Inr s'" and w: "wf_ledger s" and f: "wf_fill f"
  obtains (again) ord where "dict_get (ls_orders s) (fl_intent_id f) = Some ord"
      "dict_get (oa_fill_fingerprints ord) (fl_fill_id f) = Some (delivery_fingerprint sha f)" "s' = s"
  | (fill) ord gross s1 ord1 gv fees s2 ord3
    where "dict_get (ls_orders s) (fl_intent_id f) = Some ord"
      "dict_get (oa_fill_fingerprints ord) (fl_fill_id f) = None"
      "fill_total ord f \<le> oi_quantity (oa_intent ord)" "dec6 (fill_total ord f)"
      "fill_target ord f \<in> allowed_transitions (oa_state ord)" "currency (fl_fee f) = ls_currency s"
      "gross = coins s (fill_gross f)" "wf_money gross"
      "(if oi_side (oa_intent ord) = BUY then apply_buy_fill s ord f gross
        else apply_sell_fill s ord f gross) = Inr (s1, ord1)"
      "money_add (oa_gross_value ord1) gross = Inr gv" "money_add (oa_fees ord1) (fl_fee f) = Inr fees"
      "(if fill_target ord f = FILLED
        then release_reservations s1
          (record_fill sha ord1 f (fill_target ord f) (fill_total ord f) gv fees)
        else Inr (s1, record_fill sha ord1 f (fill_target ord f) (fill_total ord f) gv fees))
       = Inr (s2, ord3)"
      "s' = replace_order s2 ord3"
proof -
  obtain ord where o: "dict_get (ls_orders s) (fl_intent_id f) = Some ord"
    using assms(1) by (auto simp: apply_fill_def result_simps)
  show ?thesis
  proof (cases "dict_get (oa_fill_fingerprints ord) (fl_fill_id f)")
    case (Some x)
    then show ?thesis
      using assms(1) o by (intro again) (auto simp: apply_fill_def get_order_def result_simps)
  next
    case None
    have wo: "wf_order ord" by (rule wf_get_order [OF w o])
    obtain filled where filled: "quantize6 (dec_add (oa_filled_quantity ord) (fl_quantity f)) = Inr filled"
      using assms(1) o None by (auto simp: apply_fill_def get_order_def result_simps)
    have q: "filled = fill_total ord f" "dec6 filled"
      using quantize_add_InrD [OF filled] wo f by (auto simp: wf_order_def wf_fill_def fill_total_def)
    note body = assms(1) [unfolded apply_fill_def get_order_def o option.case None filled rbind_simps Let_def
      q(1) fill_target_def [symmetric]]
    obtain gross where gross: "money_from_unit_price (PyDecimal (fl_price f)) (PyDecimal (fl_quantity f))
        (ls_currency s) = Inr gross"
      using body by (auto simp: result_simps)
    have g: "gross = coins s (fill_gross f) \<and> wf_money gross"
      using money_from_unit_price_InrD [OF gross] f w by (auto simp: wf_fill_def wf_ledger_def fill_gross_def)
    obtain s1 ord1 gv fees s2 ord3 where
      "(if oi_side (oa_intent ord) = BUY then apply_buy_fill s ord f gross
        else apply_sell_fill s ord f gross) = Inr (s1, ord1)"
      "money_add (oa_gross_value ord1) gross = Inr gv" "money_add (oa_fees ord1) (fl_fee f) = Inr fees"
      "(if fill_target ord f = FILLED
        then release_reservations s1
          (record_fill sha ord1 f (fill_target ord f) (fill_total ord f) gv fees)
        else Inr (s1, record_fill sha ord1 f (fill_target ord f) (fill_total ord f) gv fees))
       = Inr (s2, ord3)"
      "s' = replace_order s2 ord3"
      using body unfolding gross rbind_simps by (auto simp: result_simps split del: if_split)
    moreover have "fill_total ord f \<le> oi_quantity (oa_intent ord)"
      "fill_target ord f \<in> allowed_transitions (oa_state ord)" "currency (fl_fee f) = ls_currency s"
      using body by (auto simp: result_simps not_less)
    ultimately show ?thesis using fill o None q g by blast
  qed
qed


lemma record_fill_eq:
  assumes "money_add (oa_gross_value ord) gross = Inr gv" and "gross = coins s (fill_gross f)"
    and "money_add (oa_fees ord) (fl_fee f) = Inr fees" and "currency (fl_fee f) = ls_currency s"
    and "wf_order ord" and "wf_money gross" and "wf_fill f"
  shows "record_fill sha ord f (fill_target ord f) (fill_total ord f) gv fees = filled_order sha s ord f
    \<and> wf_money gv \<and> wf_money fees"
proof -
  have w: "wf_money (oa_gross_value ord)" "wf_money (oa_fees ord)" "wf_money (fl_fee f)"
    using assms by (auto simp: wf_order_def wf_fill_def)
  show ?thesis
    using money_add_InrD [OF assms(1) w(1) assms(6)] money_add_InrD [OF assms(3) w(2,3)] assms(2,4)
    by (auto simp: record_fill_def filled_order_def)
qed

lemma fill_fields_reserved [simp]:
  "fill_total (ord\<lparr>oa_reserved_cash := r\<rparr>) f = fill_total ord f"
  "fill_target (ord\<lparr>oa_reserved_cash := r\<rparr>) f = fill_target ord f"
  "fill_total (ord\<lparr>oa_reserved_quantity := q\<rparr>) f = fill_total ord f"
  "fill_target (ord\<lparr>oa_reserved_quantity := q\<rparr>) f = fill_target ord f"
  by (simp_all add: fill_total_def fill_target_def)

lemma filled_order_wf:
  assumes "record_fill sha ord f (fill_target ord f) (fill_total ord f) gv fees = filled_order sha s ord f"
    and "wf_money gv" and "wf_money fees" and "wf_order ord" and "dec6 (fill_total ord f)"
  shows "wf_order (filled_order sha s ord f)"
  unfolding assms(1) [symmetric] using assms(2-) by (simp add: record_fill_def wf_order_def)


lemma release_wf:
  assumes "release_reservations s ord = Inr (s1, ord1)" and w: "wf_ledger s" and o: "wf_order ord"
    and c: "currency (ls_reserved_cash s) = ls_currency s"
  shows "wf_ledger s1 \<and> wf_order ord1 \<and> oa_intent ord1 = oa_intent ord"
proof (cases "oi_side (oa_intent ord)")
  case BUY
  then obtain r where r: "money_sub (ls_reserved_cash s) (oa_reserved_cash ord) = Inr r"
    and s1: "s1 = s\<lparr>ls_reserved_cash := r\<rparr>" "ord1 = ord\<lparr>oa_reserved_cash := coins s 0\<rparr>"
    using assms(1) w by (auto simp: release_reservations_def result_simps wf_ledger_def)
  have "wf_money r" using money_sub_InrD [OF r] w o by (auto simp: wf_ledger_def wf_order_def)
  then show ?thesis using s1 w o by (auto simp: wf_order_def wf_ledger_def)
next
  case SELL
  then obtain p q where p: "dict_get (ls_positions s) (order_key ord) = Some p"
    "quantize6 (dec_sub (pos_reserved_quantity p) (oa_reserved_quantity ord)) = Inr q"
    "s1 = replace_position s (p\<lparr>pos_reserved_quantity := q\<rparr>)" "ord1 = ord\<lparr>oa_reserved_quantity := 0\<rparr>"
    using assms(1) by (auto simp: release_reservations_def result_simps)
  have "dec6 q" using quantize6_result [OF p(2)] by simp
  with wf_get_position [OF w p(1)] have "wf_position (ls_currency s) (p\<lparr>pos_reserved_quantity := q\<rparr>)"
    by (simp add: wf_position_def)
  then show ?thesis using p w o by (auto simp: wf_order_def intro: wf_intros)
qed

lemma buy_fill_refines:
  assumes b: "apply_buy_fill s ord f gross = Inr (s1, ord1)" and w: "wf_ledger s" and ok: "ledger_ok s"
    and o: "dict_get (ls_orders s) (fl_intent_id f) = Some ord" "oi_side (oa_intent ord) = BUY"
      "dict_get (oa_fill_fingerprints ord) (fl_fill_id f) = None"
    and f: "wf_fill f" "currency (fl_fee f) = ls_currency s"
    and t: "fill_total ord f \<le> oi_quantity (oa_intent ord)" "dec6 (fill_total ord f)"
      "fill_target ord f \<in> allowed_transitions (oa_state ord)"
    and g: "gross = coins s (fill_gross f)" "wf_money gross"
    and m: "money_add (oa_gross_value ord1) gross = Inr gv" "money_add (oa_fees ord1) (fl_fee f) = Inr fees"
    and r: "(if fill_target ord f = FILLED
      then release_reservations s1
        (record_fill sha ord1 f (fill_target ord f) (fill_total ord f) gv fees)
      else Inr (s1, record_fill sha ord1 f (fill_target ord f) (fill_total ord f) gv fees)) = Inr (s2, ord3)"
  shows "ledger_step sha (FillReceived f) s (replace_order s2 ord3) \<and> wf_ledger (replace_order s2 ord3)"
proof -
  have wo: "wf_order ord" by (rule wf_get_order [OF w o(1)])
  have cs: "currency (ls_cash s) = ls_currency s" "currency (ls_reserved_cash s) = ls_currency s"
    "currency (oi_fee_reserve (oa_intent ord)) = ls_currency s"
    using ledger_ok_currency [OF ok] ledger_ok_order [OF ok o(1)]
    by (auto simp: order_ok_def order_money_ok_def)
  obtain p where p: "p = (case dict_get (ls_positions s) (order_key ord) of
        None \<Rightarrow> fresh_position s (order_key ord) | Some p \<Rightarrow> p)"
    and D: "pos_status p = OPEN" "fl_price f \<le> oi_limit_price (oa_intent ord)"
      "amount (fl_fee f) \<le> amount (oi_fee_reserve (oa_intent ord)) - amount (oa_fees ord)"
      "reservation_after ord f \<le> amount (oa_reserved_cash ord)"
      "fill_gross f + amount (fl_fee f) \<le> amount (ls_cash s)"
    and s1: "s1 = replace_position
        (s\<lparr>ls_cash := coins s (amount (ls_cash s) - (fill_gross f + amount (fl_fee f))),
           ls_reserved_cash := coins s (amount (ls_reserved_cash s)
             - (amount (oa_reserved_cash ord) - reservation_after ord f))\<rparr>)
        (p\<lparr>pos_quantity := pos_quantity p + fl_quantity f,
           pos_cost_basis := coins s (amount (pos_cost_basis p) + (fill_gross f + amount (fl_fee f)))\<rparr>)"
    and o1: "ord1 = ord\<lparr>oa_reserved_cash := coins s (reservation_after ord f)\<rparr>"
    and w1: "wf_ledger s1" "wf_order ord1"
    using buy_fill_InrD [OF b w cs(1,2) wo cs(3) f g] by metis
  have rf: "record_fill sha ord1 f (fill_target ord f) (fill_total ord f) gv fees
      = filled_order sha s ord1 f" "wf_money gv" "wf_money fees"
    using record_fill_eq [OF m(1) g(1) m(2) f(2) w1(2) g(2) f(1), where sha = sha] by (simp_all add: o1)
  have wf1: "wf_order (filled_order sha s ord1 f)"
    using filled_order_wf [OF _ rf(2,3) w1(2), where sha = sha and f = f and s = s] rf(1) t(2)
    by (simp add: o1)
  let ?kept = "if fill_target ord f = FILLED then 0 else reservation_after ord f"
  have step: "ledger_step sha (FillReceived f) s
      (replace_order (replace_position
         (s\<lparr>ls_cash := coins s (amount (ls_cash s) - (fill_gross f + amount (fl_fee f))),
            ls_reserved_cash := coins s (amount (ls_reserved_cash s)
              - (amount (oa_reserved_cash ord) - ?kept))\<rparr>)
         (p\<lparr>pos_quantity := pos_quantity p + fl_quantity f,
            pos_cost_basis := coins s (amount (pos_cost_basis p) + (fill_gross f + amount (fl_fee f)))\<rparr>))
        (filled_order sha s (ord\<lparr>oa_reserved_cash := coins s ?kept\<rparr>) f))"
    by (rule ledger_step.fill_buy [OF o(1,3,2) t(1,3) f(2) D(2,3,4) refl D(5) p D(1) refl])
  show ?thesis
  proof (cases "fill_target ord f = FILLED")
    case False
    then have "s2 = s1" "ord3 = filled_order sha s ord1 f" using r rf(1) by auto
    then show ?thesis using step False w1(1) wf1 s1 o1 by (auto intro: wf_intros)
  next
    case True
    then have rel: "release_reservations s1 (filled_order sha s ord1 f) = Inr (s2, ord3)"
      using r rf(1) by simp
    have "wf_ledger (replace_order s2 ord3)"
      using release_wf [OF rel w1(1) wf1] by (auto simp: s1 intro: wf_intros)
    moreover have "wf_money (oa_reserved_cash ord1)" "cur_ok (ls_currency s)" "wf_money (ls_reserved_cash s1)"
      using w1 w by (auto simp: wf_order_def wf_ledger_def)
    then have "s2 = s1\<lparr>ls_reserved_cash := coins s1 (amount (ls_reserved_cash s1) - reservation_after ord f)\<rparr>
        \<and> ord3 = (filled_order sha s ord1 f)\<lparr>oa_reserved_cash := coins s1 0\<rparr>"
      using rel o(2) money_sub_InrD [of "ls_reserved_cash s1" "oa_reserved_cash ord1"]
      by (auto simp: release_reservations_def result_simps o1 s1)
    then have "replace_order s2 ord3 = (replace_order (replace_position
         (s\<lparr>ls_cash := coins s (amount (ls_cash s) - (fill_gross f + amount (fl_fee f))),
            ls_reserved_cash := coins s (amount (ls_reserved_cash s)
              - (amount (oa_reserved_cash ord) - 0))\<rparr>)
         (p\<lparr>pos_quantity := pos_quantity p + fl_quantity f,
            pos_cost_basis := coins s (amount (pos_cost_basis p) + (fill_gross f + amount (fl_fee f)))\<rparr>))
        (filled_order sha s (ord\<lparr>oa_reserved_cash := coins s 0\<rparr>) f))"
      by (simp add: s1 o1 replace_position_reserved filled_order_reserved)
    ultimately show ?thesis using step True by simp
  qed
qed


lemma sell_fill_refines:
  assumes b: "apply_sell_fill s ord f gross = Inr (s1, ord1)" and w: "wf_ledger s" and ok: "ledger_ok s"
    and o: "dict_get (ls_orders s) (fl_intent_id f) = Some ord" "oi_side (oa_intent ord) = SELL"
      "dict_get (oa_fill_fingerprints ord) (fl_fill_id f) = None"
    and f: "wf_fill f" "currency (fl_fee f) = ls_currency s"
    and t: "fill_total ord f \<le> oi_quantity (oa_intent ord)" "dec6 (fill_total ord f)"
      "fill_target ord f \<in> allowed_transitions (oa_state ord)"
    and g: "gross = coins s (fill_gross f)" "wf_money gross"
    and m: "money_add (oa_gross_value ord1) gross = Inr gv" "money_add (oa_fees ord1) (fl_fee f) = Inr fees"
    and r: "(if fill_target ord f = FILLED
      then release_reservations s1
        (record_fill sha ord1 f (fill_target ord f) (fill_total ord f) gv fees)
      else Inr (s1, record_fill sha ord1 f (fill_target ord f) (fill_total ord f) gv fees)) = Inr (s2, ord3)"
  shows "ledger_step sha (FillReceived f) s (replace_order s2 ord3) \<and> wf_ledger (replace_order s2 ord3)"
proof -
  have wo: "wf_order ord" by (rule wf_get_order [OF w o(1)])
  have cs: "currency (ls_cash s) = ls_currency s" "currency (ls_reserved_cash s) = ls_currency s"
    using ledger_ok_currency [OF ok] by auto
  let ?net = "fill_gross f - amount (fl_fee f)"
  obtain p cost where p: "dict_get (ls_positions s) (order_key ord) = Some p"
    and D: "pos_status p = OPEN" "oi_limit_price (oa_intent ord) \<le> fl_price f"
      "fl_quantity f \<le> pos_quantity p" "fl_quantity f \<le> pos_reserved_quantity p"
      "fl_quantity f \<le> oa_reserved_quantity ord" "amount (fl_fee f) \<le> fill_gross f"
      "allocated_cost p (fl_quantity f) = Inr cost"
    and s1: "s1 = replace_position
        (s\<lparr>ls_cash := coins s (amount (ls_cash s) + ?net)\<rparr>)
        (p\<lparr>pos_quantity := pos_quantity p - fl_quantity f,
           pos_reserved_quantity := pos_reserved_quantity p - fl_quantity f,
           pos_cost_basis := coins s (amount (pos_cost_basis p) - amount cost),
           pos_realized_pnl := coins s (amount (pos_realized_pnl p) + ?net - amount cost)\<rparr>)"
    and o1: "ord1 = ord\<lparr>oa_reserved_quantity := oa_reserved_quantity ord - fl_quantity f\<rparr>"
    and w1: "wf_ledger s1" "wf_order ord1"
    using sell_fill_InrD [OF b w cs(1) wo f g] by metis
  have key: "position_key (pos_market_id p) (pos_outcome_id p) = order_key ord"
    using ledger_ok_position [OF ok p] by (simp add: position_ok_def position_key_def)
  have rf: "record_fill sha ord1 f (fill_target ord f) (fill_total ord f) gv fees
      = filled_order sha s ord1 f" "wf_money gv" "wf_money fees"
    using record_fill_eq [OF m(1) g(1) m(2) f(2) w1(2) g(2) f(1), where sha = sha] by (simp_all add: o1)
  have wf1: "wf_order (filled_order sha s ord1 f)"
    using filled_order_wf [OF _ rf(2,3) w1(2), where sha = sha and f = f and s = s] rf(1) t(2)
    by (simp add: o1)
  let ?kept = "if fill_target ord f = FILLED then 0 else oa_reserved_quantity ord - fl_quantity f"
  have step: "ledger_step sha (FillReceived f) s
      (replace_order (replace_position
         (s\<lparr>ls_cash := coins s (amount (ls_cash s) + ?net)\<rparr>)
         (p\<lparr>pos_quantity := pos_quantity p - fl_quantity f,
            pos_reserved_quantity := pos_reserved_quantity p - (oa_reserved_quantity ord - ?kept),
            pos_cost_basis := coins s (amount (pos_cost_basis p) - amount cost),
            pos_realized_pnl := coins s (amount (pos_realized_pnl p) + ?net - amount cost)\<rparr>))
        (filled_order sha s (ord\<lparr>oa_reserved_quantity := ?kept\<rparr>) f))"
    by (rule ledger_step.fill_sell [OF o(1,3,2) t(1,3) f(2) D(2) p D(1,3,4,5,6) refl D(7) refl])
  show ?thesis
  proof (cases "fill_target ord f = FILLED")
    case False
    then have "s2 = s1" "ord3 = filled_order sha s ord1 f" using r rf(1) by auto
    then show ?thesis using step False w1(1) wf1 s1 o1 by (auto intro: wf_intros)
  next
    case True
    then have rel: "release_reservations s1 (filled_order sha s ord1 f) = Inr (s2, ord3)"
      using r rf(1) by simp
    have "wf_ledger (replace_order s2 ord3)"
      using release_wf [OF rel w1(1) wf1] cs by (auto simp: s1 intro: wf_intros)
    moreover
    let ?p1 = "p\<lparr>pos_quantity := pos_quantity p - fl_quantity f,
           pos_reserved_quantity := pos_reserved_quantity p - fl_quantity f,
           pos_cost_basis := coins s (amount (pos_cost_basis p) - amount cost),
           pos_realized_pnl := coins s (amount (pos_realized_pnl p) + ?net - amount cost)\<rparr>"
    let ?q = "oa_reserved_quantity ord - fl_quantity f"
    have p1: "dict_get (ls_positions s1) (order_key ord) = Some ?p1"
      by (simp add: s1 get_position_replaced key)
    then obtain q where q: "quantize6 (dec_sub (pos_reserved_quantity ?p1) ?q) = Inr q"
      and rs: "s2 = replace_position s1 (?p1\<lparr>pos_reserved_quantity := q\<rparr>)"
        "ord3 = (filled_order sha s ord1 f)\<lparr>oa_reserved_quantity := 0\<rparr>"
      using rel o(2) by (auto simp: release_reservations_def result_simps o1)
    have "dec6 (pos_reserved_quantity ?p1)" "dec6 ?q"
      using wf_get_position [OF w1(1) p1] w1(2) by (auto simp: wf_position_def wf_order_def o1)
    then have "q = pos_reserved_quantity p - (oa_reserved_quantity ord - 0)"
      using quantize_sub_InrD [OF q] by simp
    then have "replace_order s2 ord3 = (replace_order (replace_position
         (s\<lparr>ls_cash := coins s (amount (ls_cash s) + ?net)\<rparr>)
         (p\<lparr>pos_quantity := pos_quantity p - fl_quantity f,
            pos_reserved_quantity := pos_reserved_quantity p - (oa_reserved_quantity ord - 0),
            pos_cost_basis := coins s (amount (pos_cost_basis p) - amount cost),
            pos_realized_pnl := coins s (amount (pos_realized_pnl p) + ?net - amount cost)\<rparr>))
        (filled_order sha s (ord\<lparr>oa_reserved_quantity := 0\<rparr>) f))"
      by (cases p) (simp add: rs s1 o1 replace_position_twice filled_order_reserved)
    ultimately show ?thesis using step True by simp
  qed
qed

lemma fill_refines:
  assumes "apply_fill sha s f = Inr s'" and w: "wf_ledger s" and ok: "ledger_ok s" and f: "wf_fill f"
  shows "ledger_step sha (FillReceived f) s s' \<and> wf_ledger s'"
  using assms(1) w f
proof (cases rule: apply_fill_InrE)
  case (again ord)
  then show ?thesis using w ledger_step.fill_again [of s f ord sha] by simp
next
  case (fill ord gross s1 ord1 gv fees s2 ord3)
  show ?thesis
  proof (cases "oi_side (oa_intent ord)")
    case BUY
    then show ?thesis
      unfolding fill(13) using fill(9)
      by (intro buy_fill_refines [OF _ w ok fill(1) BUY fill(2) f fill(6) fill(3,4,5,7,8,10,11,12)]) simp
  next
    case SELL
    then show ?thesis
      unfolding fill(13) using fill(9)
      by (intro sell_fill_refines [OF _ w ok fill(1) SELL fill(2) f fill(6) fill(3,4,5,7,8,10,11,12)]) simp
  qed
qed


section \<open>Valuations\<close>

definition mark_dict :: "position_valuation list \<Rightarrow> (position_key, position_valuation) dict" where
  "mark_dict ms = fold (\<lambda>m d. dict_set d (pv_position_key m) m) ms []"

lemma mark_fold_get:
  "distinct (map pv_position_key ms) \<Longrightarrow>
   dict_get (fold (\<lambda>m d. dict_set d (pv_position_key m) m) ms d) k =
     (if k \<in> pv_position_key ` set ms then find (\<lambda>m. pv_position_key m = k) ms else dict_get d k)"
  by (induction ms arbitrary: d) auto

lemma mark_dict_get:
  assumes "distinct (map pv_position_key ms)"
  shows "dict_get (mark_dict ms) k = Some m \<longleftrightarrow> m \<in> set ms \<and> pv_position_key m = k"
proof -
  have "find (\<lambda>m. pv_position_key m = k) ms = Some m \<longleftrightarrow> m \<in> set ms \<and> pv_position_key m = k"
    if "distinct (map pv_position_key ms)"
    using that by (induction ms) (auto simp: image_iff)
  then show ?thesis using assms by (auto simp: mark_dict_def mark_fold_get find_None_iff)
qed

lemma dict_keys_set: "set (dict_keys (dict_set d k v)) = insert k (set (dict_keys d))"
  by (induction d) auto

lemma mark_dict_keys: "set (dict_keys (mark_dict ms)) = pv_position_key ` set ms"
proof -
  have "set (dict_keys (fold (\<lambda>m d. dict_set d (pv_position_key m) m) ms d))
      = pv_position_key ` set ms \<union> set (dict_keys d)" for d :: "(position_key, position_valuation) dict"
    by (induction ms arbitrary: d) (auto simp: dict_keys_set simp del: set_map)
  then show ?thesis by (simp add: mark_dict_def)
qed

lemma check_mark_eq:
  "check_mark cur marks acc (k, p) = Inr a \<longleftrightarrow>
     (\<exists>v. dict_get marks k = Some v \<and> pv_quantity v = pos_quantity p
        \<and> currency (pv_liquidation_value v) = cur \<and> money_add acc (pv_liquidation_value v) = Inr a)"
  by (auto simp: check_mark_def split: option.splits)

lemma check_marks_InrD:
  assumes "rfold (check_mark cur marks) acc ps = Inr m" and "wf_money acc" and "currency acc = cur"
    and "\<forall>k v. dict_get marks k = Some v \<longrightarrow> wf_money (pv_liquidation_value v)"
  shows "m = \<lparr>amount = amount acc
        + (\<Sum>(k, p) \<leftarrow> ps. amount (pv_liquidation_value (the (dict_get marks k)))), currency = cur\<rparr>
    \<and> wf_money m
    \<and> (\<forall>(k, p) \<in> set ps. \<exists>v. dict_get marks k = Some v \<and> pv_quantity v = pos_quantity p)"
  using assms
proof (induction ps arbitrary: acc)
  case Nil
  then show ?case by (cases m) auto
next
  case (Cons e ps)
  obtain k p where e: "e = (k, p)" by (cases e)
  obtain v a where v: "dict_get marks k = Some v" "pv_quantity v = pos_quantity p"
    and a: "money_add acc (pv_liquidation_value v) = Inr a"
    and rest: "rfold (check_mark cur marks) a ps = Inr m"
    using Cons.prems(1) by (auto simp: e check_mark_eq rbind_eq_Inr)
  have wv: "wf_money (pv_liquidation_value v)" using Cons.prems(4) v by blast
  note d = money_add_InrD [OF a Cons.prems(2) wv]
  have "wf_money a" "currency a = cur" using d Cons.prems(3) by auto
  from Cons.IH [OF rest this Cons.prems(4)] show ?case using d v Cons.prems(3) by (auto simp: e)
qed

lemma valuation_refines:
  assumes a: "apply_portfolio_valuation s v = Inr s'" and w: "wf_ledger s" and v: "wf_valuation v"
    and c: "currency (ls_cash s) = ls_currency s"
  shows "ledger_step sha (PortfolioValuationRecorded v) s s' \<and> s' = s"
proof -
  let ?marks = "mark_dict (pf_positions v)" and ?ps = "open_positions s"
  have cur: "cur_ok (ls_currency s)" using w by (simp add: wf_ledger_def)
  obtain m eq where o: "ls_opened s" and keys: "set (dict_keys ?marks) = set (dict_keys ?ps)"
    and r: "rfold (check_mark (ls_currency s) ?marks) (coins s 0) ?ps = Inr m"
    and e: "money_add (ls_cash s) m = Inr eq" "pf_equity v = eq" and s': "s' = s"
    using a cur by (auto simp: apply_portfolio_valuation_def mark_dict_def [symmetric] Let_def result_simps)
  have dm: "distinct (map pv_position_key (pf_positions v))" using v by (simp add: wf_valuation_def)
  have dp: "distinct (dict_keys ?ps)"
    using w by (auto simp: open_positions_def wf_ledger_def dict_ok_def distinct_map_filter)
  note D = check_marks_InrD [OF r]
  have D: "m = coins s (\<Sum>(k, p) \<leftarrow> ?ps. amount (pv_liquidation_value (the (dict_get ?marks k))))"
    "wf_money m" "\<forall>(k, p) \<in> set ?ps. \<exists>u. dict_get ?marks k = Some u \<and> pv_quantity u = pos_quantity p"
    using check_marks_InrD [OF r] cur v mark_dict_get [OF dm]
    by (auto simp: wf_valuation_def list_all_iff)
  let ?val = "\<lambda>k. amount (pv_liquidation_value (the (dict_get ?marks k)))"
  have "(\<Sum>(k, p) \<leftarrow> ?ps. ?val k) = (\<Sum>k \<leftarrow> dict_keys ?ps. ?val k)"
    by (simp add: case_prod_beta' comp_def)
  also have "\<dots> = (\<Sum>k \<in> set (dict_keys ?ps). ?val k)" by (rule sum_list_distinct_conv_sum_set [OF dp])
  also have "set (dict_keys ?ps) = set (map pv_position_key (pf_positions v))"
    using keys mark_dict_keys [of "pf_positions v"] by simp
  also have "(\<Sum>k \<in> set (map pv_position_key (pf_positions v)). ?val k)
      = (\<Sum>k \<leftarrow> map pv_position_key (pf_positions v). ?val k)"
    by (rule sum_list_distinct_conv_sum_set [OF dm, symmetric])
  also have "\<dots> = (\<Sum>u \<leftarrow> pf_positions v. amount (pv_liquidation_value u))"
  proof (intro arg_cong [where f = sum_list])
    have "dict_get ?marks (pv_position_key u) = Some u" if "u \<in> set (pf_positions v)" for u
      using mark_dict_get [OF dm] that by blast
    then show "map ?val (map pv_position_key (pf_positions v))
        = map (\<lambda>u. amount (pv_liquidation_value u)) (pf_positions v)"
      by simp
  qed
  finally have tot: "(\<Sum>(k, p) \<leftarrow> ?ps. ?val k) = (\<Sum>u \<leftarrow> pf_positions v. amount (pv_liquidation_value u))" .
  have "pf_equity v = coins s (amount (ls_cash s) + (\<Sum>u \<leftarrow> pf_positions v. amount (pv_liquidation_value u)))"
    using money_add_InrD [OF e(1) _ D(2)] e(2) w c D(1) tot by (auto simp: wf_ledger_def)
  moreover have "set (map pv_position_key (pf_positions v)) = set (dict_keys ?ps)"
    using keys mark_dict_keys [of "pf_positions v"] by simp
  moreover have "pv_quantity u = pos_quantity p"
    if u: "u \<in> set (pf_positions v)" "dict_get (ls_positions s) (pv_position_key u) = Some p" for u p
  proof -
    have "pv_position_key u \<in> set (dict_keys ?ps)"
      using u(1) keys mark_dict_keys [of "pf_positions v"] by blast
    then obtain p' where p': "(pv_position_key u, p') \<in> set ?ps" by auto
    then have "dict_get (ls_positions s) (pv_position_key u) = Some p'"
      using w by (auto simp: open_positions_def wf_ledger_def dict_entry_get)
    with u(2) have "p' = p" by simp
    moreover have "dict_get ?marks (pv_position_key u) = Some u" using mark_dict_get [OF dm] u(1) by blast
    ultimately show ?thesis using bspec [OF D(3) p'] by simp
  qed
  ultimately show ?thesis using ledger_step.record_valuation [of s v sha] o s' by simp
qed

section \<open>Every accepted event body is a step of the specification\<close>

lemma weather_refines:
  assumes "apply_weather_observation s e = Inr s'"
  shows "ledger_step sha (WeatherObservationRecorded e) s s'"
proof -
  define ws where "ws = (case dict_get (ls_weather s) (wo_market_id e) of None \<Rightarrow> [] | Some ws \<Rightarrow> ws)"
  note a = assms [unfolded apply_weather_observation_def Let_def ws_def [symmetric]]
  show ?thesis
  proof (cases "first_with_hash (Some (wo_payload_hash e)) ws")
    case None
    then show ?thesis
      using a ledger_step.observe [of s ws e sha] by (auto simp: result_simps ws_def)
  next
    case (Some v)
    then have "dict_get (ls_weather s) (wo_market_id e) = Some ws"
      by (auto simp: ws_def split: option.splits)
    then show ?thesis
      using a Some ledger_step.observation_again [of s e ws v sha] by (auto simp: result_simps)
  qed
qed

lemma wf_set_order_state [wf_intros]:
  "wf_order ord \<Longrightarrow> wf_order (ord\<lparr>oa_state := t, oa_unknown_reason := u\<rparr>)"
  "wf_order ord \<Longrightarrow> wf_order (ord\<lparr>oa_state := t, oa_backend_order_id := u\<rparr>)"
  "wf_order ord \<Longrightarrow> wf_order (closed_order ord t r)"
  by (simp_all add: wf_order_def closed_order_def)

lemma intent_created_wf:
  assumes "apply_intent_created s i = Inr s'" and w: "wf_ledger s" and "wf_intent i"
  shows "wf_ledger s'"
proof (cases "dict_get (ls_orders s) (oi_intent_id i)")
  case (Some ord)
  then show ?thesis using assms(1) w by (auto simp: apply_intent_created_def result_simps)
next
  case None
  then obtain ord t where o: "currency (oi_fee_reserve i) = ls_currency s"
    "new_order i = Inr ord" "reserve_intent s i ord = Inr t" "s' = replace_order t ord"
    using assms(1) by (auto simp: apply_intent_created_def result_simps)
  have wo: "wf_order ord" using new_order_InrD [OF o(2) assms(3) o(1)] by blast
  have "wf_ledger t"
  proof (cases "oi_side i")
    case BUY
    then obtain r where "money_add (ls_reserved_cash s) (oa_reserved_cash ord) = Inr r"
      and t: "t = s\<lparr>ls_reserved_cash := r\<rparr>" using o(3) by (auto simp: reserve_intent_def result_simps)
    then have "wf_money r"
      using money_add_InrD w wo by (auto simp: wf_ledger_def wf_order_def)
    then show ?thesis using w t by (simp add: wf_intros)
  next
    case SELL
    then obtain p q x where p: "dict_get (ls_positions s) (position_key (oi_market_id i) (oi_outcome_id i)) = Some p"
      "quantize6 x = Inr q" "t = replace_position s (p\<lparr>pos_reserved_quantity := q\<rparr>)"
      using o(3) by (auto simp: reserve_intent_def result_simps)
    have "dec6 q" using quantize6_result [OF p(2)] by simp
    with wf_get_position [OF w p(1)] have "wf_position (ls_currency s) (p\<lparr>pos_reserved_quantity := q\<rparr>)"
      by (simp add: wf_position_def)
    then show ?thesis using w p(3) by (simp add: wf_intros)
  qed
  then show ?thesis using o(4) wo by (simp add: wf_intros)
qed

lemma settlement_refines:
  assumes a: "apply_settlement s m oc fee = Inr s'" and w: "wf_ledger s" and f: "wf_money fee"
    and c: "currency (ls_cash s) = ls_currency s"
  shows "ledger_step sha (PositionSettled m oc fee) s s' \<and> wf_ledger s'"
proof -
  have cur: "cur_ok (ls_currency s)" using w by (simp add: wf_ledger_def)
  obtain p r where p: "dict_get (ls_positions s) (m, oc) = Some p" "pos_status p = OPEN" "0 < pos_quantity p"
      "pos_reserved_quantity p = 0"
    and r: "dict_get (ls_resolutions s) m = Some r" and fc: "currency fee = ls_currency s"
    using a by (auto simp: apply_settlement_def position_key_def result_simps not_le split: option.splits)
  have "apply_settlement s m oc fee =
     rbind (payout_for r oc) (\<lambda>payout.
     rbind (money_from_unit_price (PyDecimal payout) (PyDecimal (pos_quantity p)) (ls_currency s)) (\<lambda>gross.
     if amount gross < amount fee
     then Inl (InvariantViolation ''settlement fee exceeds gross proceeds'') else
     rbind (money_sub gross fee) (\<lambda>net.
     rbind (money_add (pos_realized_pnl p) net) (\<lambda>pnl_net.
     rbind (money_sub pnl_net (pos_cost_basis p)) (\<lambda>pnl.
     rbind (money_add (ls_cash s) net) (\<lambda>cash.
     Inr (replace_position (s\<lparr>ls_cash := cash\<rparr>)
       (p\<lparr>pos_quantity := 0, pos_reserved_quantity := 0, pos_cost_basis := coins s 0,
          pos_realized_pnl := pnl, pos_status := SETTLED,
          pos_settlement_payout := Some payout\<rparr>))))))))"
    using p r fc unfolding apply_settlement_def money_zero_ok [OF cur] rbind_simps
    by (simp add: position_key_def get_position_def)
  with a obtain payout gross net pnl_net pnl cash where
    payout: "payout_for r oc = Inr payout"
    and gross: "money_from_unit_price (PyDecimal payout) (PyDecimal (pos_quantity p)) (ls_currency s) = Inr gross"
    and le: "amount fee \<le> amount gross" and net: "money_sub gross fee = Inr net"
    and pn: "money_add (pos_realized_pnl p) net = Inr pnl_net"
    and pnl: "money_sub pnl_net (pos_cost_basis p) = Inr pnl" and cash: "money_add (ls_cash s) net = Inr cash"
    and s': "s' = replace_position (s\<lparr>ls_cash := cash\<rparr>)
       (p\<lparr>pos_quantity := 0, pos_reserved_quantity := 0, pos_cost_basis := coins s 0,
          pos_realized_pnl := pnl, pos_status := SETTLED, pos_settlement_payout := Some payout\<rparr>)"
    by (auto simp: result_simps not_less)
  have wp: "wf_position (ls_currency s) p" by (rule wf_get_position [OF w p(1)])
  have "dec6 payout"
    using payout_in_wf [OF payout [unfolded payout_for_def]] wf_get_resolution [OF w r] by (simp add: wf_resolution_def)
  note g = money_from_unit_price_InrD [OF gross this _ cur]
  have g: "gross = coins s (unit_product payout (pos_quantity p))" "wf_money gross"
    using g wp by (auto simp: wf_position_def)
  have n: "net = coins s (unit_product payout (pos_quantity p) - amount fee)" "wf_money net"
    using money_sub_InrD [OF net g(2) f] g fc by auto
  have pg: "pnl_net = coins s (amount (pos_realized_pnl p) + amount net)" "wf_money pnl_net"
    using money_add_InrD [OF pn _ n(2)] wp n by (auto simp: wf_position_def)
  have pl: "pnl = coins s (amount (pos_realized_pnl p) + amount net - amount (pos_cost_basis p))" "wf_money pnl"
  proof -
    have b: "wf_money (pos_cost_basis p)" "currency (pos_cost_basis p) = ls_currency s"
      using wp by (auto simp: wf_position_def)
    from conjunct2 [OF money_sub_InrD [OF pnl pg(2) b(1)]]
    show "pnl = coins s (amount (pos_realized_pnl p) + amount net - amount (pos_cost_basis p))" "wf_money pnl"
      by (auto simp: b(2) pg(1))
  qed
  have ca: "cash = coins s (amount (ls_cash s) + amount net)" "wf_money cash"
    using money_add_InrD [OF cash _ n(2)] w n by (auto simp: wf_ledger_def)
  have "wf_ledger s'"
    unfolding s' using w ca pl wp cur by (intro wf_intros) (auto simp: wf_position_def)
  moreover have "ledger_step sha (PositionSettled m oc fee) s s'"
  proof -
    have "amount fee \<le> unit_product payout (pos_quantity p)" using le g by simp
    from ledger_step.settle [OF p r payout fc this refl, where sha = sha]
    show ?thesis unfolding s' ca(1) pl(1) n(1) by simp
  qed
  ultimately show ?thesis by simp
qed


lemma lifecycle_InrD:
  "apply_submitted s i b = Inr s' \<Longrightarrow> \<exists>ord. dict_get (ls_orders s) i = Some ord
     \<and> SUBMITTED \<in> allowed_transitions (oa_state ord) \<and> oa_backend_order_id ord \<in> {None, Some b}
     \<and> s' = replace_order s (ord\<lparr>oa_state := SUBMITTED, oa_backend_order_id := Some b\<rparr>)"
  "apply_acknowledged s i = Inr s' \<Longrightarrow> \<exists>ord. dict_get (ls_orders s) i = Some ord
     \<and> ACKNOWLEDGED \<in> allowed_transitions (oa_state ord)
     \<and> s' = replace_order s (ord\<lparr>oa_state := ACKNOWLEDGED, oa_unknown_reason := None\<rparr>)"
  "apply_unknown s i r = Inr s' \<Longrightarrow> \<exists>ord. dict_get (ls_orders s) i = Some ord
     \<and> UNKNOWN \<in> allowed_transitions (oa_state ord)
     \<and> s' = replace_order s (ord\<lparr>oa_state := UNKNOWN, oa_unknown_reason := Some r\<rparr>)"
  by (auto simp: apply_submitted_def apply_acknowledged_def apply_unknown_def result_simps)

lemma terminal_wf:
  assumes "apply_terminal s i t r = Inr s'" and w: "wf_ledger s"
    and c: "currency (ls_reserved_cash s) = ls_currency s"
  shows "wf_ledger s'"
proof -
  obtain ord s1 ord1 where o: "dict_get (ls_orders s) i = Some ord"
    "release_reservations s ord = Inr (s1, ord1)" and s': "s' = replace_order s1 (closed_order ord1 t r)"
    using assms(1) by (auto simp: apply_terminal_def result_simps closed_order_def)
  show ?thesis
    unfolding s' using release_wf [OF o(2) w wf_get_order [OF w o(1)] c] by (intro wf_intros) auto
qed

lemma evidence_refines:
  assumes "apply_resolution_evidence s v = Inr s'"
  shows "ledger_step sha (MarketResolutionEvidenceRecorded v) s s'"
proof (cases "dict_get (ls_resolution_evidence s) (re_market_id v)")
  case None
  then have "ls_opened s"
    and "\<forall>r. dict_get (ls_resolutions s) (re_market_id v) = Some r \<longrightarrow> mr_payouts r = re_payouts v"
    and "s' = s\<lparr>ls_resolution_evidence := dict_set (ls_resolution_evidence s) (re_market_id v) v\<rparr>"
    using assms by (auto simp: apply_resolution_evidence_def Let_def result_simps split: option.splits)
  then show ?thesis using ledger_step.record_evidence [OF _ None, where sha = sha] by blast
next
  case (Some v')
  then show ?thesis
    using assms ledger_step.evidence_again [OF _ Some, where sha = sha]
    by (auto simp: apply_resolution_evidence_def result_simps)
qed

lemma resolution_refines:
  assumes "apply_resolution s r = Inr s'"
  shows "ledger_step sha (MarketResolved r) s s'"
proof (cases "dict_get (ls_resolutions s) (mr_market_id r)")
  case None
  then have
    "\<forall>v. dict_get (ls_resolution_evidence s) (mr_market_id r) = Some v \<longrightarrow> re_payouts v = mr_payouts r"
    "s' = s\<lparr>ls_resolutions := dict_set (ls_resolutions s) (mr_market_id r) r\<rparr>"
    using assms by (auto simp: apply_resolution_def result_simps split: option.splits)
  then show ?thesis using ledger_step.resolve [OF None, where sha = sha] by blast
next
  case (Some r')
  then show ?thesis
    using assms ledger_step.resolution_again [OF Some, where sha = sha]
    by (auto simp: apply_resolution_def result_simps split: option.splits)
qed

lemma apply_body_refines_wf:
  assumes a: "apply_body sha s b = Inr s'" and w: "wf_ledger s" and ok: "ledger_ok s" and b: "wf_body b"
  shows "ledger_step sha b s s' \<and> wf_ledger s'"
proof -
  have c: "currency (ls_cash s) = ls_currency s" "currency (ls_reserved_cash s) = ls_currency s"
    using ledger_ok_currency [OF ok] by auto
  show ?thesis
  proof (cases b)
    case (AccountOpened m)
    then have "\<not> ls_opened s" "currency m = ls_currency s" "s' = s\<lparr>ls_opened := True, ls_cash := m\<rparr>"
      using a by (auto simp: apply_account_opened_def result_simps)
    then show ?thesis
      using AccountOpened w b by (auto intro: ledger_step.open_account simp: wf_ledger_def)
  next
    case (OrderIntentCreated i)
    then show ?thesis
      using a w b intent_created_refines [of s i s' sha] intent_created_wf [of s i s'] by simp
  next
    case (OrderSubmitted i x)
    then obtain ord where o: "dict_get (ls_orders s) i = Some ord"
      "SUBMITTED \<in> allowed_transitions (oa_state ord)" "oa_backend_order_id ord \<in> {None, Some x}"
      and s': "s' = replace_order s (ord\<lparr>oa_state := SUBMITTED, oa_backend_order_id := Some x\<rparr>)"
      using a lifecycle_InrD(1) [of s i x s'] by auto
    show ?thesis
      unfolding s' OrderSubmitted
      using ledger_step.submit [OF o] wf_get_order [OF w o(1)] w by (auto intro: wf_intros)
  next
    case (OrderAcknowledged i)
    then obtain ord where o: "dict_get (ls_orders s) i = Some ord"
      "ACKNOWLEDGED \<in> allowed_transitions (oa_state ord)"
      and s': "s' = replace_order s (ord\<lparr>oa_state := ACKNOWLEDGED, oa_unknown_reason := None\<rparr>)"
      using a lifecycle_InrD(2) [of s i s'] by auto
    show ?thesis
      unfolding s' OrderAcknowledged
      using ledger_step.acknowledge [OF o] wf_get_order [OF w o(1)] w by (auto intro: wf_intros)
  next
    case (OrderOutcomeUnknown i r)
    then obtain ord where o: "dict_get (ls_orders s) i = Some ord"
      "UNKNOWN \<in> allowed_transitions (oa_state ord)"
      and s': "s' = replace_order s (ord\<lparr>oa_state := UNKNOWN, oa_unknown_reason := Some r\<rparr>)"
      using a lifecycle_InrD(3) [of s i r s'] by auto
    show ?thesis
      unfolding s' OrderOutcomeUnknown
      using ledger_step.lose_track [OF o] wf_get_order [OF w o(1)] w by (auto intro: wf_intros)
  next
    case (FillReceived f)
    then show ?thesis using a b fill_refines [OF _ w ok, of sha f s'] by simp
  next
    case (OrderRejected i r)
    then have t: "apply_terminal s i REJECTED r = Inr s'" using a by simp
    show ?thesis
      using terminal_refines [OF t w _ c(2), of b sha] terminal_wf [OF t w c(2)] OrderRejected by simp
  next
    case (OrderCancelled i r)
    then have t: "apply_terminal s i CANCELLED r = Inr s'" using a by simp
    show ?thesis
      using terminal_refines [OF t w _ c(2), of b sha] terminal_wf [OF t w c(2)] OrderCancelled by simp
  next
    case (WeatherObservationRecorded e)
    then have "wf_ledger s'"
      using a w by (auto simp: apply_weather_observation_def Let_def wf_ledger_def result_simps
          split: option.splits)
    then show ?thesis using WeatherObservationRecorded a weather_refines by simp
  next
    case (MarketResolutionEvidenceRecorded v)
    then have "wf_ledger s'"
      using a w by (auto simp: apply_resolution_evidence_def Let_def wf_ledger_def result_simps
          split: option.splits)
    then show ?thesis using MarketResolutionEvidenceRecorded a evidence_refines by simp
  next
    case (MarketResolved r)
    then have "wf_ledger s'"
      using a w b by (auto simp: apply_resolution_def wf_ledger_def result_simps dict_set_entries
          split: option.splits if_splits)
    then show ?thesis using MarketResolved a resolution_refines by simp
  next
    case (PositionSettled m oc fee)
    then show ?thesis using a b settlement_refines [OF _ w _ c(1), of m oc fee s' sha] by simp
  next
    case (RiskScopeRegistered sc)
    then show ?thesis
      using a w by (auto simp: apply_risk_scope_registered_def result_simps intro: ledger_step.register_scope)
  next
    case (PortfolioValuationRecorded v)
    then show ?thesis using a w b valuation_refines [OF _ w _ c(1), of v s' sha] by auto
  qed
qed

lemma record_event_fields [simp]:
  "ls_cash (record_event s e h) = ls_cash s" "ls_currency (record_event s e h) = ls_currency s"
  "ls_reserved_cash (record_event s e h) = ls_reserved_cash s"
  "ls_orders (record_event s e h) = ls_orders s" "ls_positions (record_event s e h) = ls_positions s"
  "ls_opened (record_event s e h) = ls_opened s"
  "ls_resolutions (record_event s e h) = ls_resolutions s"
  "ls_resolution_evidence (record_event s e h) = ls_resolution_evidence s"
  "ls_weather (record_event s e h) = ls_weather s"
  by (simp_all add: record_event_def)

lemma wf_record_event [simp]: "wf_ledger s \<Longrightarrow> wf_ledger (record_event s e h)"
  by (simp add: wf_ledger_def record_event_def)

definition ledger_inv :: "ledger_state \<Rightarrow> bool" where
  "ledger_inv s \<longleftrightarrow> wf_ledger s \<and> ledger_ok s"

text \<open>An event is either a redelivery or a step of the specification that is then recorded.\<close>

lemma apply_event_InrE:
  assumes "apply_event sha fp s e = Inr s'" and "ledger_inv s" and "wf_event e"
  obtains (redelivery) "dict_get (ls_fingerprints s) (ev_event_id e) = Some (fp e)" "s' = s"
  | (accepted) t where "dict_get (ls_fingerprints s) (ev_event_id e) = None"
      "apply_body sha s (ev_body e) = Inr t" "ledger_step sha (ev_body e) s t" "wf_ledger t"
      "s' = record_event t e (fp e)" "ledger_ok s'"
proof (cases "dict_get (ls_fingerprints s) (ev_event_id e)")
  case (Some h)
  then have "fp e = h \<and> s' = s" using assms(1) by (auto simp: apply_event_def Let_def split: if_splits)
  then show ?thesis using redelivery Some by blast
next
  case None
  then obtain t u where t: "apply_body sha s (ev_body e) = Inr t" "s' = record_event t e (fp e)"
    "assert_invariants s' = Inr u"
  proof -
    have "rbind (apply_body sha s (ev_body e)) (\<lambda>t. rbind (assert_invariants (record_event t e (fp e)))
        (\<lambda>_. Inr (record_event t e (fp e)))) = Inr s'"
      using assms(1) None by (simp add: apply_event_def Let_def)
    then show ?thesis using that unfolding rbind_eq_Inr by blast
  qed
  have r: "ledger_step sha (ev_body e) s t" "wf_ledger t"
    using apply_body_refines_wf [OF t(1)] assms(2,3) by (auto simp: ledger_inv_def wf_event_def)
  then have "wf_ledger s'" unfolding t(2) by simp
  then have "ledger_ok s'" using assert_invariants_ok t(3) by blast
  then show ?thesis using accepted None t r by blast
qed

lemma apply_event_inv:
  assumes "apply_event sha fp s e = Inr s'" and "ledger_inv s" and "wf_event e"
  shows "ledger_inv s'"
  using assms(1-3) by (cases rule: apply_event_InrE) (use assms in \<open>auto simp: ledger_inv_def\<close>)

end
