(* ===== verification/Ledger_Props.thy ===== *)
theory Ledger_Props
  imports Ledger_Spec
begin

text \<open>
  What every run of the ledger guarantees: the check is an invariant of replays, histories only
  grow, closed orders and settled positions are frozen, cash reconciles with positions, and
  redelivery changes nothing. The results are proved on the specification's steps and lifted to
  \<open>apply_event\<close> and \<open>replay\<close> through the two machine interfaces of the prelude.
\<close>

section \<open>How a ledger may evolve\<close>

definition transition_rel :: "(order_state \<times> order_state) set" where
  "transition_rel = {(a, b). b \<in> allowed_transitions a}"

definition order_evolves :: "order_aggregate \<Rightarrow> order_aggregate \<Rightarrow> bool" where
  "order_evolves x y \<longleftrightarrow>
     oa_intent y = oa_intent x \<and> oa_filled_quantity x \<le> oa_filled_quantity y
     \<and> (is_terminal (oa_state x) \<longrightarrow> y = x)
     \<and> (oa_state x, oa_state y) \<in> transition_rel\<^sup>*
     \<and> (\<forall>k h. dict_get (oa_fill_fingerprints x) k = Some h \<longrightarrow> dict_get (oa_fill_fingerprints y) k = Some h)
     \<and> (\<forall>b. oa_backend_order_id x = Some b \<longrightarrow> oa_backend_order_id y = Some b)"

definition position_evolves :: "position \<Rightarrow> position \<Rightarrow> bool" where
  "position_evolves p q \<longleftrightarrow>
     pos_market_id q = pos_market_id p \<and> pos_outcome_id q = pos_outcome_id p
     \<and> (pos_status p = SETTLED \<longrightarrow> q = p)"

definition extends :: "('a \<Rightarrow> 'a \<Rightarrow> bool) \<Rightarrow> ('k, 'a) dict \<Rightarrow> ('k, 'a) dict \<Rightarrow> bool" where
  "extends R d e \<longleftrightarrow> (\<forall>k v. dict_get d k = Some v \<longrightarrow> (\<exists>w. dict_get e k = Some w \<and> R v w))"

definition grows :: "'a list \<Rightarrow> 'a list \<Rightarrow> bool" where
  "grows xs ys \<longleftrightarrow> take (length xs) ys = xs"

definition ledger_evolves :: "ledger_state \<Rightarrow> ledger_state \<Rightarrow> bool" where
  "ledger_evolves s t \<longleftrightarrow>
     ls_currency t = ls_currency s \<and> (ls_opened s \<longrightarrow> ls_opened t)
     \<and> extends order_evolves (ls_orders s) (ls_orders t)
     \<and> extends position_evolves (ls_positions s) (ls_positions t)
     \<and> extends (=) (ls_resolutions s) (ls_resolutions t)
     \<and> extends (=) (ls_resolution_evidence s) (ls_resolution_evidence t)
     \<and> extends grows (ls_weather s) (ls_weather t)
     \<and> extends (=) (ls_fingerprints s) (ls_fingerprints t)"

lemma order_evolves_refl [simp]: "order_evolves x x"
  by (simp add: order_evolves_def)

lemma order_evolves_trans: "order_evolves x y \<Longrightarrow> order_evolves y z \<Longrightarrow> order_evolves x z"
  unfolding order_evolves_def by (metis order_trans rtrancl_trans)

lemma position_evolves_refl [simp]: "position_evolves p p"
  by (simp add: position_evolves_def)

lemma position_evolves_trans: "position_evolves p q \<Longrightarrow> position_evolves q r \<Longrightarrow> position_evolves p r"
  unfolding position_evolves_def by metis

lemma grows_iff: "grows xs ys \<longleftrightarrow> (\<exists>zs. ys = xs @ zs)"
  by (metis append_eq_conv_conj grows_def append_take_drop_id)

lemma extends_refl [simp]: "(\<And>v. R v v) \<Longrightarrow> extends R d d"
  by (auto simp: extends_def)

lemma extends_trans:
  "extends R d e \<Longrightarrow> extends R e f \<Longrightarrow> (\<And>x y z. R x y \<Longrightarrow> R y z \<Longrightarrow> R x z) \<Longrightarrow> extends R d f"
  unfolding extends_def by metis

lemma extends_set:
  "(\<And>v. R v v) \<Longrightarrow> (\<And>v. dict_get d k = Some v \<Longrightarrow> R v w) \<Longrightarrow> extends R d (dict_set d k w)"
  by (auto simp: extends_def)

lemma ledger_evolves_refl [simp]: "ledger_evolves s s"
  by (simp add: ledger_evolves_def grows_iff)

lemma ledger_evolves_trans: "ledger_evolves s t \<Longrightarrow> ledger_evolves t u \<Longrightarrow> ledger_evolves s u"
  unfolding ledger_evolves_def
  by (auto intro: order_evolves_trans position_evolves_trans elim!: extends_trans simp: grows_iff)

text \<open>One updated order, one updated position.\<close>

lemma orders_extend:
  assumes "ledger_ok s" and "dict_get (ls_orders s) i = Some ord" and "order_evolves ord ord'"
  shows "extends order_evolves (ls_orders s) (dict_set (ls_orders s) (oi_intent_id (oa_intent ord')) ord')"
proof -
  have "oi_intent_id (oa_intent ord') = i"
    using ledger_ok_order [OF assms(1,2)] assms(3) by (simp add: order_ok_def order_evolves_def)
  then show ?thesis using assms(2,3) by (intro extends_set) auto
qed

lemma positions_extend:
  assumes "ledger_ok s" and "dict_get (ls_positions s) k = Some p" and "position_evolves p q"
  shows "extends position_evolves (ls_positions s)
    (dict_set (ls_positions s) (position_key (pos_market_id q) (pos_outcome_id q)) q)"
proof -
  have "position_key (pos_market_id q) (pos_outcome_id q) = k"
    using ledger_ok_position [OF assms(1,2)] assms(3)
    by (simp add: position_ok_def position_evolves_def position_key_def)
  then show ?thesis using assms(2,3) by (intro extends_set) auto
qed

lemma transition_step: "b \<in> allowed_transitions a \<Longrightarrow> (a, b) \<in> transition_rel\<^sup>* \<and> \<not> is_terminal a"
  using transition_from_terminal [of a] by (auto simp: transition_rel_def simp del: is_terminal.simps)


lemma order_update_evolves:
  assumes "ledger_ok s" and "dict_get (ls_orders s) i = Some ord" and "order_evolves ord ord'"
    and "ls_orders t = ls_orders s" and "ls_currency t = ls_currency s" and "ls_opened t = ls_opened s"
    and "extends position_evolves (ls_positions s) (ls_positions t)"
    and "ls_resolutions t = ls_resolutions s" and "ls_resolution_evidence t = ls_resolution_evidence s"
    and "ls_weather t = ls_weather s" and "ls_fingerprints t = ls_fingerprints s"
  shows "ledger_evolves s (replace_order t ord')"
  using assms orders_extend [OF assms(1-3)]
  by (simp add: ledger_evolves_def replace_order_def grows_iff)

lemma position_update_evolves:
  assumes "ledger_ok s" and "dict_get (ls_positions s) k = Some p" and "position_evolves p q"
    and "ls_positions t = ls_positions s"
  shows "extends position_evolves (ls_positions s) (ls_positions (replace_position t q))"
  using assms positions_extend [OF assms(1-3)] by (simp add: replace_position_def)

lemma new_order_evolves:
  assumes "dict_get (ls_orders s) (oi_intent_id (oa_intent ord)) = None"
    and "ls_orders t = ls_orders s" and "ls_currency t = ls_currency s" and "ls_opened t = ls_opened s"
    and "extends position_evolves (ls_positions s) (ls_positions t)"
    and "ls_resolutions t = ls_resolutions s" and "ls_resolution_evidence t = ls_resolution_evidence s"
    and "ls_weather t = ls_weather s" and "ls_fingerprints t = ls_fingerprints s"
  shows "ledger_evolves s (replace_order t ord)"
  using assms
  by (auto simp: ledger_evolves_def replace_order_def grows_iff intro!: extends_set)

lemma filled_order_evolves:
  assumes "fill_target ord f \<in> allowed_transitions (oa_state ord)" and "wf_fill f"
    and "dict_get (oa_fill_fingerprints ord) (fl_fill_id f) = None"
  shows "order_evolves ord (filled_order sha s (ord\<lparr>oa_reserved_cash := r, oa_reserved_quantity := q\<rparr>) f)"
proof -
  have "0 \<le> fl_quantity f" using assms(2) by (simp add: wf_fill_def)
  then show ?thesis
    using assms(3) transition_step [OF assms(1)]
    by (auto simp: order_evolves_def filled_order_def fill_total_def fill_target_def
        simp del: is_terminal.simps)
qed

lemma settled_empty:
  assumes "ledger_ok s" and "dict_get (ls_positions s) k = Some p" and "pos_status p = SETTLED"
  shows "pos_quantity p = 0 \<and> pos_reserved_quantity p = 0"
  using ledger_ok_position [OF assms(1,2)] assms(3) by (auto simp: position_ok_def)

theorem step_evolves:
  assumes "ledger_step sha b s t" and ok: "ledger_ok s" and b: "wf_body b"
  shows "ledger_evolves s t"
  using assms
proof (induction rule: ledger_step.induct)
  case (open_account s m)
  then show ?case by (simp add: ledger_evolves_def grows_iff)
next
  case (reserve_buy s i ord)
  show ?case using reserve_buy
    by (intro new_order_evolves) (simp_all add: spec_new_order_def)
next
  case (reserve_sell s i ord p)
  show ?case using reserve_sell
    by (intro new_order_evolves position_update_evolves [OF reserve_sell.prems(1) reserve_sell.hyps(6)])
      (simp_all add: spec_new_order_def position_evolves_def)
next
  case (submit s i ord x)
  show ?case
    using submit transition_step [OF submit.hyps(2)]
    by (intro order_update_evolves [OF submit.prems(1) submit.hyps(1)])
      (auto simp: order_evolves_def simp del: is_terminal.simps)
next
  case (acknowledge s i ord)
  show ?case
    using acknowledge transition_step [OF acknowledge.hyps(2)]
    by (intro order_update_evolves [OF acknowledge.prems(1) acknowledge.hyps(1)])
      (auto simp: order_evolves_def simp del: is_terminal.simps)
next
  case (lose_track s i ord r)
  show ?case
    using lose_track transition_step [OF lose_track.hyps(2)]
    by (intro order_update_evolves [OF lose_track.prems(1) lose_track.hyps(1)])
      (auto simp: order_evolves_def simp del: is_terminal.simps)
next
  case (close_buy b i target r s ord)
  show ?case
    using close_buy transition_step [OF close_buy.hyps(3)]
    by (intro order_update_evolves [OF close_buy.prems(1) close_buy.hyps(2)])
      (auto simp: order_evolves_def closed_order_def simp del: is_terminal.simps)
next
  case (close_sell b i target r s ord p)
  have "position_evolves p (p\<lparr>pos_reserved_quantity := pos_reserved_quantity p - oa_reserved_quantity ord\<rparr>)"
    using settled_empty [OF close_sell.prems(1) close_sell.hyps(5)] close_sell.hyps(6) ledger_ok_order [OF close_sell.prems(1) close_sell.hyps(2)]
    by (cases p) (auto simp: position_evolves_def order_ok_def)
  then show ?case
    using close_sell transition_step [OF close_sell.hyps(3)]
    by (intro order_update_evolves [OF close_sell.prems(1) close_sell.hyps(2)] position_update_evolves [OF close_sell.prems(1) close_sell.hyps(5)])
      (auto simp: order_evolves_def closed_order_def simp del: is_terminal.simps)
next
  case (fill_buy s f ord debit p kept)
  let ?q = "p\<lparr>pos_quantity := pos_quantity p + fl_quantity f,
    pos_cost_basis := coins s (amount (pos_cost_basis p) + debit)\<rparr>"
  have pe: "extends position_evolves (ls_positions s) (ls_positions (replace_position t' ?q))"
    if "ls_positions t' = ls_positions s" for t'
  proof (cases "dict_get (ls_positions s) (order_key ord)")
    case None
    with fill_buy.hyps(12) that show ?thesis
      by (auto simp: replace_position_def position_key_def intro!: extends_set)
  next
    case (Some p')
    with fill_buy.hyps(12,13) that show ?thesis
      by (intro position_update_evolves [OF fill_buy.prems(1) Some]) (auto simp: position_evolves_def)
  qed
  show ?case
    using filled_order_evolves [OF fill_buy.hyps(5) _ fill_buy.hyps(2),
        where sha = sha and s = s and r = "coins s kept" and q = "oa_reserved_quantity ord"]
      fill_buy fill_buy.prems(2)
    by (intro order_update_evolves [OF fill_buy.prems(1) fill_buy.hyps(1)] pe) simp_all
next
  case (fill_sell s f ord p net cost kept)
  show ?case
    using filled_order_evolves [OF fill_sell.hyps(5) _ fill_sell.hyps(2),
        where sha = sha and s = s and r = "oa_reserved_cash ord" and q = kept]
      fill_sell fill_sell.prems(2)
    by (intro order_update_evolves [OF fill_sell.prems(1) fill_sell.hyps(1)] position_update_evolves [OF fill_sell.prems(1) fill_sell.hyps(8)])
      (simp_all add: position_evolves_def)
next
  case (observe s ws w)
  then show ?case
    by (auto simp: ledger_evolves_def grows_iff intro!: extends_set split: option.splits)
next
  case (record_evidence s v)
  then show ?case by (auto simp: ledger_evolves_def grows_iff intro!: extends_set)
next
  case (resolve s r)
  then show ?case by (auto simp: ledger_evolves_def grows_iff intro!: extends_set)
next
  case (settle s m oc p r payout fee net)
  let ?q = "p\<lparr>pos_quantity := 0, pos_reserved_quantity := 0, pos_cost_basis := coins s 0,
     pos_realized_pnl := coins s (amount (pos_realized_pnl p) + net - amount (pos_cost_basis p)),
     pos_status := SETTLED, pos_settlement_payout := Some payout\<rparr>"
  have "extends position_evolves (ls_positions s)
      (ls_positions (replace_position (s\<lparr>ls_cash := coins s (amount (ls_cash s) + net)\<rparr>) ?q))"
    using settle.hyps by (auto intro!: position_update_evolves [OF settle.prems(1) settle.hyps(1)] simp: position_evolves_def)
  then show ?case using settle by (simp add: ledger_evolves_def grows_iff)
qed simp_all


section \<open>The ledger is an evolving machine\<close>

lemma record_event_evolves:
  assumes "ledger_evolves s t" and "dict_get (ls_fingerprints t) (ev_event_id e) = None"
  shows "ledger_evolves s (record_event t e h)"
proof -
  have "extends (=) (ls_fingerprints s) (ls_fingerprints (record_event t e h))"
    using assms by (force simp: ledger_evolves_def extends_def record_event_def)
  then show ?thesis using assms(1) by (simp add: ledger_evolves_def)
qed

lemma step_fingerprints: "ledger_step sha b s t \<Longrightarrow> ls_fingerprints t = ls_fingerprints s"
  by (induction rule: ledger_step.induct) simp_all

lemma apply_event_evolves:
  assumes "apply_event sha fp s e = Inr s'" and "ledger_inv s" and "wf_event e"
  shows "ledger_evolves s s'"
  using assms
proof (cases rule: apply_event_InrE)
  case redelivery
  then show ?thesis by simp
next
  case (accepted t)
  have "ledger_evolves s t"
    using step_evolves [OF accepted(3)] assms by (simp add: ledger_inv_def wf_event_def)
  then show ?thesis
    using record_event_evolves accepted(1,5) step_fingerprints [OF accepted(3)] by simp
qed

interpretation ledger: evolving_machine "apply_event sha fp" wf_event ledger_inv ledger_evolves
  for sha fp
  by unfold_locales
    (auto intro: apply_event_inv apply_event_evolves ledger_evolves_trans)

lemma ledger_empty_InrD:
  assumes "ledger_empty cur = Inr s"
  shows "ledger_inv s \<and> \<not> ls_opened s \<and> amount (ls_cash s) = 0 \<and> ls_positions s = []
    \<and> ls_fingerprints s = [] \<and> ls_orders s = []"
proof -
  let ?c = "upper (strip cur)"
  have c: "?c \<noteq> []"
    using assms by (auto simp: ledger_empty_def Let_def money_zero_def mk_money_def strip_upper result_simps)
  then have ok: "cur_ok ?c" by (rule cur_ok_normal)
  then have "s = \<lparr>ls_currency = ?c, ls_opened = False, ls_cash = \<lparr>amount = 0, currency = ?c\<rparr>,
      ls_reserved_cash = \<lparr>amount = 0, currency = ?c\<rparr>, ls_orders = [], ls_positions = [],
      ls_resolutions = [], ls_resolution_evidence = [], ls_weather = [], ls_fingerprints = []\<rparr>"
    using assms by (simp add: ledger_empty_def Let_def ledger_state_init_normal)
  then show ?thesis using ok by (simp add: ledger_inv_def wf_ledger_def ledger_ok_def)
qed

lemma replay_InrE:
  assumes "replay sha fp cur es = Inr s"
  obtains s0 where "ledger_empty cur = Inr s0" "rfold (apply_event sha fp) s0 es = Inr s" "ledger_inv s0"
  using assms ledger_empty_InrD by (auto simp: replay_def rbind_eq_Inr)

section \<open>Cash reconciles with positions\<close>

definition ledger_value :: "ledger_state \<Rightarrow> rat" where
  "ledger_value s = amount (ls_cash s) + dict_sum (\<lambda>_ p. amount (pos_cost_basis p)) (ls_positions s)
     - dict_sum (\<lambda>_ p. amount (pos_realized_pnl p)) (ls_positions s)"

definition position_value :: "position \<Rightarrow> rat" where
  "position_value p = amount (pos_cost_basis p) - amount (pos_realized_pnl p)"

lemma ledger_value_alt:
  "ledger_value s = amount (ls_cash s) + dict_sum (\<lambda>_. position_value) (ls_positions s)"
proof -
  have "dict_sum (\<lambda>_. position_value) d = dict_sum (\<lambda>_ p. amount (pos_cost_basis p)) d
      - dict_sum (\<lambda>_ p. amount (pos_realized_pnl p)) d" for d :: "(position_key, position) dict"
    by (induction d) (auto simp: position_value_def)
  then show ?thesis by (simp add: ledger_value_def)
qed

lemma replace_position_value:
  assumes "ledger_inv s" and "dict_get (ls_positions s) k = Some p"
    and "pos_market_id q = pos_market_id p" and "pos_outcome_id q = pos_outcome_id p"
    and "ls_positions t = ls_positions s"
  shows "dict_sum (\<lambda>_. position_value) (ls_positions (replace_position t q)) =
    dict_sum (\<lambda>_. position_value) (ls_positions s) - position_value p + position_value q"
proof -
  have "position_key (pos_market_id q) (pos_outcome_id q) = k"
    using ledger_ok_position [OF _ assms(2)] assms by (simp add: position_ok_def position_key_def ledger_inv_def)
  then show ?thesis
    using assms by (simp add: replace_position_def dict_sum_set_old ledger_inv_def wf_ledger_def)
qed

lemma step_value:
  assumes "ledger_step sha b s t" and "ledger_inv s"
  shows "ledger_value t = (case b of AccountOpened m \<Rightarrow> amount m | _ \<Rightarrow> ledger_value s)"
  using assms
proof (induction rule: ledger_step.induct)
  case (open_account s m)
  then show ?case by (auto simp: ledger_value_def ledger_inv_def ledger_ok_def)
next
  case (reserve_sell s i ord p)
  then show ?case
    by (simp add: ledger_value_alt replace_position_value [OF reserve_sell.prems reserve_sell.hyps(6)]
        position_value_def)
next
  case (close_buy b i target r s ord)
  then show ?case by (cases b) (simp_all add: ledger_value_alt)
next
  case (close_sell b i target r s ord p)
  then show ?case
    by (cases b) (simp_all add: ledger_value_alt position_value_def
        replace_position_value [OF close_sell.prems close_sell.hyps(5)])
next
  case (fill_buy s f ord debit p kept)
  let ?q = "p\<lparr>pos_quantity := pos_quantity p + fl_quantity f,
    pos_cost_basis := coins s (amount (pos_cost_basis p) + debit)\<rparr>"
  have "dict_sum (\<lambda>_. position_value) (ls_positions (replace_position t' ?q)) =
      dict_sum (\<lambda>_. position_value) (ls_positions s) + debit"
    if "ls_positions t' = ls_positions s" for t'
  proof (cases "dict_get (ls_positions s) (order_key ord)")
    case None
    with fill_buy.hyps(12) that show ?thesis
      by (simp add: replace_position_def position_key_def dict_sum_set_new position_value_def)
  next
    case (Some p')
    with fill_buy.hyps(12) that show ?thesis
      by (simp add: replace_position_value [OF fill_buy.prems Some] position_value_def)
  qed
  then show ?case by (simp add: ledger_value_alt)
next
  case (fill_sell s f ord p net cost kept)
  then show ?case
    by (simp add: ledger_value_alt position_value_def
        replace_position_value [OF fill_sell.prems fill_sell.hyps(8)])
next
  case (settle s m oc p r payout fee net)
  then show ?case
    by (simp add: ledger_value_alt position_value_def
        replace_position_value [OF settle.prems settle.hyps(1)])
qed (simp_all add: ledger_value_alt)


text \<open>
  A ledger that is not opened accepts only the opening, so the first event of every replay that
  returns opens the account.
\<close>

lemma unopened_step:
  assumes "ledger_step sha b s t" and "\<not> ls_opened s" and "ledger_ok s"
  shows "(\<exists>m. b = AccountOpened m) \<or> \<not> ls_opened t \<and> (\<exists>r. b = MarketResolved r \<and> ls_resolutions t \<noteq> [])"
proof -
  have e: "ls_orders s = []" "ls_positions s = []" "ls_resolutions s = []"
    using assms(2,3) by (auto simp: ledger_ok_def)
  have "AList.update k v d \<noteq> []" for k v and d :: "(string, market_resolution) dict"
    by (cases d) auto
  with assms(1,2) e show ?thesis by (induction rule: ledger_step.induct) auto
qed

lemma first_event_opens:
  assumes "apply_event sha fp s e = Inr t" and "ledger_inv s" and "wf_event e"
    and "\<not> ls_opened s" and "ls_fingerprints s = []"
  shows "\<exists>m. ev_body e = AccountOpened m \<and> ledger_value t = amount m \<and> ls_opened t"
  using assms(1-3)
proof (cases rule: apply_event_InrE)
  case redelivery
  then show ?thesis using assms(5) by simp
next
  case (accepted u)
  have "\<not> (\<not> ls_opened u \<and> (\<exists>r. ev_body e = MarketResolved r \<and> ls_resolutions u \<noteq> []))"
    using accepted(5,6) by (auto simp: ledger_ok_def)
  then obtain m where m: "ev_body e = AccountOpened m"
    using unopened_step [OF accepted(3) assms(4)] assms(2) by (auto simp: ledger_inv_def)
  have "ledger_value u = amount m" using step_value [OF accepted(3) assms(2)] m by simp
  moreover have "ls_opened u"
    using accepted(3) unfolding m by (cases rule: ledger_step.cases) auto
  ultimately show ?thesis using m accepted(5) by (simp add: ledger_value_def)
qed

lemma opened_event_value:
  assumes "apply_event sha fp s e = Inr t" and "ledger_inv s" and "wf_event e" and "ls_opened s"
  shows "ledger_value t = ledger_value s"
  using assms(1-3)
proof (cases rule: apply_event_InrE)
  case (accepted u)
  have "\<not> (\<exists>m. ev_body e = AccountOpened m)"
    using accepted(3) assms(4) by (auto elim: ledger_step.cases)
  then show ?thesis
    using step_value [OF accepted(3) assms(2)] accepted(5)
    by (auto simp: ledger_value_def split: event_body.splits)
qed simp

lemma opened_run_value:
  assumes "rfold (apply_event sha fp) s es = Inr t" and "ledger_inv s" and "list_all wf_event es"
    and "ls_opened s"
  shows "ledger_value t = ledger_value s"
  using assms
proof (induction es arbitrary: s)
  case Nil
  then show ?case by simp
next
  case (Cons e es)
  then obtain u where u: "apply_event sha fp s e = Inr u" "rfold (apply_event sha fp) u es = Inr t"
    by (auto simp: rbind_eq_Inr)
  have w: "wf_event e" using Cons.prems(3) by simp
  have "ledger_inv u" by (rule apply_event_inv [OF u(1) Cons.prems(2) w])
  moreover have "ls_opened u"
    using apply_event_evolves [OF u(1) Cons.prems(2) w] Cons.prems(4) by (simp add: ledger_evolves_def)
  ultimately have "ledger_value t = ledger_value u" using Cons.IH [OF u(2)] Cons.prems(3) by simp
  then show ?case using opened_event_value [OF u(1) Cons.prems(2) w Cons.prems(4)] by simp
qed

text \<open>Which orders are complete.\<close>

definition fills_ok :: "ledger_state \<Rightarrow> bool" where
  "fills_ok s \<longleftrightarrow>
     (\<forall>(k, ord) \<in> set (ls_orders s).
        (oa_state ord = FILLED \<longleftrightarrow> oa_filled_quantity ord = oi_quantity (oa_intent ord))
        \<and> (oa_filled_quantity ord \<noteq> 0 \<longrightarrow> oa_state ord \<notin> {CREATED, SUBMITTED}))"

lemma fills_ok_order:
  assumes "fills_ok s" and "ledger_inv s" and "dict_ok (ls_orders t)" and "ls_orders t = ls_orders s"
    and "(oa_state ord = FILLED \<longleftrightarrow> oa_filled_quantity ord = oi_quantity (oa_intent ord))
        \<and> (oa_filled_quantity ord \<noteq> 0 \<longrightarrow> oa_state ord \<notin> {CREATED, SUBMITTED})"
  shows "fills_ok (replace_order t ord)"
  using assms by (auto simp: fills_ok_def replace_order_def dict_set_entries split: if_splits)


lemma fills_ok_get:
  assumes "fills_ok s" and "dict_get (ls_orders s) i = Some ord"
  shows "(oa_state ord = FILLED \<longleftrightarrow> oa_filled_quantity ord = oi_quantity (oa_intent ord))
    \<and> (oa_filled_quantity ord \<noteq> 0 \<longrightarrow> oa_state ord \<notin> {CREATED, SUBMITTED})"
  using assms by (auto simp: fills_ok_def dest!: map_of_SomeD)

lemma not_filled_transition:
  assumes "fills_ok s" and "dict_get (ls_orders s) i = Some ord" and "t \<in> allowed_transitions (oa_state ord)"
  shows "oa_filled_quantity ord \<noteq> oi_quantity (oa_intent ord)
    \<and> (t = SUBMITTED \<longrightarrow> oa_filled_quantity ord = 0) \<and> t \<noteq> CREATED"
  using fills_ok_get [OF assms(1,2)] assms(3) by (cases "oa_state ord") auto

lemma step_fills_ok:
  assumes "ledger_step sha b s t" and "ledger_inv s" and "fills_ok s" and "wf_body b"
  shows "fills_ok t"
  using assms
proof (induction rule: ledger_step.induct)
  case (open_account s m)
  then show ?case by (simp add: fills_ok_def)
next
  case (reserve_buy s i ord)
  then show ?case
    by (intro fills_ok_order) (auto simp: spec_new_order_def wf_intent_def ledger_inv_def wf_ledger_def)
next
  case (reserve_sell s i ord p)
  then show ?case
    by (intro fills_ok_order) (auto simp: spec_new_order_def wf_intent_def ledger_inv_def wf_ledger_def)
next
  case (submit s i ord x)
  show ?case using submit not_filled_transition [OF submit.prems(2) submit.hyps(1,2)]
    by (intro fills_ok_order) (auto simp: ledger_inv_def wf_ledger_def)
next
  case (acknowledge s i ord)
  show ?case using acknowledge not_filled_transition [OF acknowledge.prems(2) acknowledge.hyps(1,2)]
    by (intro fills_ok_order) (auto simp: ledger_inv_def wf_ledger_def)
next
  case (lose_track s i ord r)
  show ?case using lose_track not_filled_transition [OF lose_track.prems(2) lose_track.hyps(1,2)]
    by (intro fills_ok_order) (auto simp: ledger_inv_def wf_ledger_def)
next
  case (close_buy b i target r s ord)
  have "target \<in> {REJECTED, CANCELLED}" using close_buy.hyps(1) by (cases b) auto
  then show ?case using close_buy not_filled_transition [OF close_buy.prems(2) close_buy.hyps(2,3)]
    by (intro fills_ok_order) (auto simp: ledger_inv_def wf_ledger_def closed_order_def)
next
  case (close_sell b i target r s ord p)
  have "target \<in> {REJECTED, CANCELLED}" using close_sell.hyps(1) by (cases b) auto
  then show ?case using close_sell not_filled_transition [OF close_sell.prems(2) close_sell.hyps(2,3)]
    by (intro fills_ok_order) (auto simp: ledger_inv_def wf_ledger_def closed_order_def)
next
  case (fill_buy s f ord debit p kept)
  show ?case using fill_buy.hyps fill_buy.prems(1,2)
    by (intro fills_ok_order) (auto simp: ledger_inv_def wf_ledger_def fill_target_def)
next
  case (fill_sell s f ord p net cost kept)
  show ?case using fill_sell.hyps fill_sell.prems(1,2)
    by (intro fills_ok_order) (auto simp: ledger_inv_def wf_ledger_def fill_target_def)
qed (simp_all add: fills_ok_def)

lemma apply_event_fills_ok:
  assumes "apply_event sha fp s e = Inr t" and "ledger_inv s" and "fills_ok s" and "wf_event e"
  shows "fills_ok t"
  using assms(1,2,4)
proof (cases rule: apply_event_InrE)
  case redelivery
  then show ?thesis using assms by simp
next
  case (accepted u)
  then show ?thesis
    using step_fills_ok [OF accepted(3) assms(2,3)] assms(4) by (simp add: fills_ok_def wf_event_def)
qed

interpretation fills: event_machine "apply_event sha fp" wf_event "\<lambda>s. ledger_inv s \<and> fills_ok s"
  for sha fp
  by unfold_locales (auto intro: apply_event_inv apply_event_fills_ok)

lemma replay_inv:
  assumes "replay sha fp cur es = Inr s" and "list_all wf_event es"
  shows "ledger_inv s \<and> fills_ok s"
  using assms(1)
proof (rule replay_InrE)
  fix s0
  assume "ledger_empty cur = Inr s0" and r: "rfold (apply_event sha fp) s0 es = Inr s" and i: "ledger_inv s0"
  then have "fills_ok s0" using ledger_empty_InrD by (auto simp: fills_ok_def)
  then show ?thesis using fills.run_inv [OF r _ assms(2)] i by simp
qed

lemma replay_append:
  "replay sha fp cur (es @ fs) = rbind (replay sha fp cur es) (\<lambda>s. rfold (apply_event sha fp) s fs)"
  by (simp add: replay_def rfold_append rbind_assoc)

lemma event_recorded:
  assumes "apply_event sha fp s e = Inr t"
  shows "dict_get (ls_fingerprints t) (ev_event_id e) = Some (fp e)"
proof (cases "dict_get (ls_fingerprints s) (ev_event_id e)")
  case (Some h)
  then show ?thesis using assms by (auto simp: apply_event_def Let_def split: if_splits)
next
  case None
  then have "rbind (apply_body sha s (ev_body e)) (\<lambda>t. rbind (assert_invariants (record_event t e (fp e)))
        (\<lambda>_. Inr (record_event t e (fp e)))) = Inr t"
    using assms by (simp add: apply_event_def Let_def)
  then show ?thesis unfolding rbind_eq_Inr by (auto simp: record_event_def)
qed

lemma replay_recorded:
  assumes "replay sha fp cur es = Inr s" and "list_all wf_event es" and "e \<in> set es"
  shows "dict_get (ls_fingerprints s) (ev_event_id e) = Some (fp e)"
proof -
  obtain es1 es2 where es: "es = es1 @ e # es2" using assms(3) by (meson split_list)
  obtain s1 s2 where s1: "replay sha fp cur es1 = Inr s1" "apply_event sha fp s1 e = Inr s2"
    and s2: "rfold (apply_event sha fp) s2 es2 = Inr s"
    using assms(1) unfolding es replay_append by (auto simp: rbind_eq_Inr)
  have w: "list_all wf_event es1" "wf_event e" "list_all wf_event es2" using assms(2) es by auto
  have "ledger_inv s2" using apply_event_inv [OF s1(2)] replay_inv [OF s1(1) w(1)] w(2) by simp
  then have "ledger_evolves s2 s" using ledger.run_evolves [OF s2] w(3) by simp
  then show ?thesis using event_recorded [OF s1(2)] by (auto simp: ledger_evolves_def extends_def)
qed

section \<open>Properties of replays\<close>

text \<open>C1. Every state a replay returns passes the invariant check: the ledger never overspends,
  reservations equal what the active orders need, every mapping key matches its value.\<close>

theorem replay_invariant:
  assumes "replay sha fp cur es = Inr s" and "list_all wf_event es"
  shows "wf_ledger s \<and> assert_invariants s = Inr ()"
  using replay_inv [OF assms] assert_invariants_ok by (auto simp: ledger_inv_def)

text \<open>C2. Every accepted event is either the redelivery of a recorded event, which changes
  nothing, or a step of the abstract specification whose result is recorded under the event's
  identifier.\<close>

theorem apply_event_refines:
  assumes "apply_event sha fp s e = Inr s'" and "ledger_inv s" and "wf_event e"
  shows "dict_get (ls_fingerprints s) (ev_event_id e) = Some (fp e) \<and> s' = s
    \<or> (\<exists>t. ledger_step sha (ev_body e) s t \<and> s' = record_event t e (fp e))"
  using assms by (cases rule: apply_event_InrE) auto

text \<open>C4. Cash reconciles with the positions at every moment: what the account was opened with
  equals cash plus the cost of what is held minus what was realized.\<close>

theorem replay_accounting:
  assumes "replay sha fp cur (e # es) = Inr s" and "list_all wf_event (e # es)"
  shows "\<exists>initial. ev_body e = AccountOpened initial \<and>
    amount (ls_cash s) + dict_sum (\<lambda>_ p. amount (pos_cost_basis p)) (ls_positions s)
      - dict_sum (\<lambda>_ p. amount (pos_realized_pnl p)) (ls_positions s) = amount initial"
  using assms(1)
proof (rule replay_InrE)
  fix s0
  assume s0: "ledger_empty cur = Inr s0" "rfold (apply_event sha fp) s0 (e # es) = Inr s" "ledger_inv s0"
  then obtain t where t: "apply_event sha fp s0 e = Inr t" "rfold (apply_event sha fp) t es = Inr s"
    by (auto simp: rbind_eq_Inr)
  have e0: "\<not> ls_opened s0" "ls_fingerprints s0 = []" and we: "wf_event e" "list_all wf_event es"
    using ledger_empty_InrD [OF s0(1)] assms(2) by auto
  obtain m where m: "ev_body e = AccountOpened m" "ledger_value t = amount m" "ls_opened t"
    using first_event_opens [OF t(1) s0(3) we(1) e0] by blast
  have "ledger_value s = ledger_value t"
    using opened_run_value [OF t(2) _ we(2) m(3)] apply_event_inv [OF t(1) s0(3) we(1)] by simp
  then show ?thesis using m by (simp add: ledger_value_def)
qed

text \<open>C5. History only grows: between two moments of a replay no order loses its intent, fills or
  backend identifier, a closed order and a settled position never change, and resolutions,
  evidence, weather histories and event fingerprints are append-only.\<close>

theorem replay_evolves:
  assumes "replay sha fp cur es = Inr s" and "replay sha fp cur (es @ fs) = Inr t"
    and "list_all wf_event (es @ fs)"
  shows "ledger_evolves s t"
  using assms(1)
proof (rule replay_InrE)
  fix s0
  assume s0: "ledger_empty cur = Inr s0" "rfold (apply_event sha fp) s0 es = Inr s"
  have "rfold (apply_event sha fp) s fs = Inr t"
    using assms(2) s0 by (simp add: replay_def rfold_append)
  moreover have "ledger_inv s" using replay_inv [OF assms(1)] assms(3) by simp
  ultimately show ?thesis using ledger.run_evolves assms(3) by simp
qed


text \<open>C9. Delivery is idempotent: after a replay, delivering any of its events again, at any later
  time, returns the same state.\<close>

theorem redelivery_idempotent:
  assumes "replay sha fp cur (es @ fs) = Inr s" and "list_all wf_event (es @ fs)" and "e \<in> set es"
  shows "apply_event sha fp s e = Inr s"
  using replay_recorded [OF assms(1,2)] assms(3) by (simp add: apply_event_def)

text \<open>C11. In every replay an order is in state FILLED exactly when its whole quantity is filled,
  an order that is not yet acknowledged has no fills, and a closed order keeps no reservation.\<close>

theorem replay_orders_complete:
  assumes "replay sha fp cur es = Inr s" and "list_all wf_event es"
    and "dict_get (ls_orders s) i = Some ord"
  shows "(oa_state ord = FILLED \<longleftrightarrow> oa_filled_quantity ord = oi_quantity (oa_intent ord))
    \<and> oa_filled_quantity ord \<le> oi_quantity (oa_intent ord)
    \<and> (oa_state ord \<in> {CREATED, SUBMITTED} \<longrightarrow> oa_filled_quantity ord = 0)
    \<and> (is_terminal (oa_state ord) \<longrightarrow>
         amount (oa_reserved_cash ord) = 0 \<and> oa_reserved_quantity ord = 0)"
  using replay_inv [OF assms(1,2)] fills_ok_get [OF _ assms(3)] ledger_ok_order [OF _ assms(3)]
  by (auto simp: ledger_inv_def order_ok_def simp del: is_terminal.simps)

text \<open>C12. A closed order accepts no further lifecycle event: every submission, acknowledgement,
  rejection, cancellation or unknown outcome is an invalid transition, and a fill is either the
  redelivery of a recorded fill or refused.\<close>

theorem closed_order_refuses:
  assumes "dict_get (ls_orders s) i = Some ord" and "is_terminal (oa_state ord)"
  shows "(\<forall>b \<in> {OrderSubmitted i x, OrderAcknowledged i, OrderRejected i r, OrderCancelled i r,
      OrderOutcomeUnknown i r}.
      apply_body sha s b = Inl (InvalidTransition ''order transition is invalid''))
    \<and> (\<forall>f s'. fl_intent_id f = i \<and> apply_body sha s (FillReceived f) = Inr s' \<longrightarrow>
      s' = s \<and> dict_get (oa_fill_fingerprints ord) (fl_fill_id f) = Some (delivery_fingerprint sha f))"
proof -
  have none: "require_transition (oa_state ord) t = Inl (InvalidTransition ''order transition is invalid'')" for t
    using transition_from_terminal [OF assms(2)] by (simp add: require_transition_def)
  have "\<forall>b \<in> {OrderSubmitted i x, OrderAcknowledged i, OrderRejected i r, OrderCancelled i r,
      OrderOutcomeUnknown i r}.
      apply_body sha s b = Inl (InvalidTransition ''order transition is invalid'')"
    using assms(1)
    by (auto simp: apply_submitted_def apply_acknowledged_def apply_terminal_def apply_unknown_def
        get_order_def none)
  moreover have "\<forall>f s'. fl_intent_id f = i \<and> apply_body sha s (FillReceived f) = Inr s' \<longrightarrow>
      s' = s \<and> dict_get (oa_fill_fingerprints ord) (fl_fill_id f) = Some (delivery_fingerprint sha f)"
    using assms(1)
    by (auto simp: apply_fill_def get_order_def transition_from_terminal [OF assms(2)] Let_def
        result_simps split: option.splits)
  ultimately show ?thesis by blast
qed


section \<open>Reservations, fills and settlements\<close>

text \<open>C8. Closing an active buy order by rejection or cancellation releases exactly its reservation:
  cash and positions are untouched, the available cash grows by what the order reserved, and the
  order keeps the fills it had.\<close>

theorem close_releases_reservation:
  assumes "apply_event sha fp s e = Inr s'" and "ledger_inv s" and "wf_event e"
    and "dict_get (ls_fingerprints s) (ev_event_id e) = None"
    and "ev_body e = OrderRejected i r \<or> ev_body e = OrderCancelled i r"
    and "dict_get (ls_orders s) i = Some ord" and "oi_side (oa_intent ord) = BUY"
  shows "ls_cash s' = ls_cash s \<and> ls_positions s' = ls_positions s
    \<and> amount (ls_cash s') - amount (ls_reserved_cash s')
      = amount (ls_cash s) - amount (ls_reserved_cash s) + amount (oa_reserved_cash ord)
    \<and> (\<exists>ord'. dict_get (ls_orders s') i = Some ord' \<and> is_terminal (oa_state ord')
        \<and> oa_terminal_reason ord' = Some r \<and> oa_filled_quantity ord' = oa_filled_quantity ord
        \<and> oa_gross_value ord' = oa_gross_value ord \<and> oa_fees ord' = oa_fees ord)"
  using assms(1-3)
proof (cases rule: apply_event_InrE)
  case redelivery
  then show ?thesis using assms(4) by simp
next
  case (accepted t)
  have i: "oi_intent_id (oa_intent ord) = i"
    using ledger_ok_order [OF _ assms(6)] assms(2) by (simp add: order_ok_def ledger_inv_def)
  from accepted(3) assms(5-7) obtain target where
    "t = replace_order (s\<lparr>ls_reserved_cash :=
          coins s (amount (ls_reserved_cash s) - amount (oa_reserved_cash ord))\<rparr>)
        (closed_order (ord\<lparr>oa_reserved_cash := coins s 0\<rparr>) target r)"
    "target = REJECTED \<or> target = CANCELLED"
    by (auto elim: ledger_step.cases)
  then show ?thesis
    using accepted(5) i by (auto simp: closed_order_def get_order_replaced)
qed

text \<open>C7. Settling a position pays exactly its payout: cash grows by the payout per unit times the
  quantity, rounded to the micro-unit, less the fee, never shrinks, and the position is closed with
  its cost written off against the proceeds.\<close>

theorem settlement_pays_payout:
  assumes "apply_event sha fp s e = Inr s'" and "ledger_inv s" and "wf_event e"
    and "dict_get (ls_fingerprints s) (ev_event_id e) = None"
    and "ev_body e = PositionSettled m oc fee"
  shows "\<exists>p r payout q. dict_get (ls_positions s) (m, oc) = Some p \<and> pos_status p = OPEN
    \<and> dict_get (ls_resolutions s) m = Some r \<and> payout_for r oc = Inr payout
    \<and> amount (ls_cash s') = amount (ls_cash s) + unit_product payout (pos_quantity p) - amount fee
    \<and> amount (ls_cash s) \<le> amount (ls_cash s')
    \<and> dict_get (ls_positions s') (m, oc) = Some q \<and> pos_status q = SETTLED \<and> pos_quantity q = 0
    \<and> pos_settlement_payout q = Some payout
    \<and> amount (pos_realized_pnl q) - amount (pos_realized_pnl p)
      = amount (ls_cash s') - amount (ls_cash s) - amount (pos_cost_basis p)"
  using assms(1-3)
proof (cases rule: apply_event_InrE)
  case redelivery
  then show ?thesis using assms(4) by simp
next
  case (accepted t)
  from accepted(3) assms(5) obtain p r payout net where
    p: "dict_get (ls_positions s) (m, oc) = Some p" "pos_status p = OPEN"
      "dict_get (ls_resolutions s) m = Some r" "payout_for r oc = Inr payout"
      "amount fee \<le> unit_product payout (pos_quantity p)"
    and n: "net = unit_product payout (pos_quantity p) - amount fee"
    and t: "t = replace_position (s\<lparr>ls_cash := coins s (amount (ls_cash s) + net)\<rparr>)
        (p\<lparr>pos_quantity := 0, pos_reserved_quantity := 0, pos_cost_basis := coins s 0,
           pos_realized_pnl := coins s (amount (pos_realized_pnl p) + net - amount (pos_cost_basis p)),
           pos_status := SETTLED, pos_settlement_payout := Some payout\<rparr>)"
    by (auto elim: ledger_step.cases)
  have "position_key (pos_market_id p) (pos_outcome_id p) = (m, oc)"
    using ledger_ok_position [OF _ p(1)] assms(2) by (simp add: position_ok_def position_key_def ledger_inv_def)
  then have "dict_get (ls_positions s') (m, oc) =
      Some (p\<lparr>pos_quantity := 0, pos_reserved_quantity := 0, pos_cost_basis := coins s 0,
           pos_realized_pnl := coins s (amount (pos_realized_pnl p) + net - amount (pos_cost_basis p)),
           pos_status := SETTLED, pos_settlement_payout := Some payout\<rparr>)"
    using accepted(5) t by (simp add: get_position_replaced)
  moreover have "amount (ls_cash s') = amount (ls_cash s) + net" using accepted(5) t by simp
  ultimately show ?thesis using p n by (intro exI) (auto simp: algebra_simps)
qed


text \<open>Products of a price and a quantity below $10^{16}$ are exact before the rounding to six places.\<close>

lemma unit_product_error:
  assumes "dec6 p" and "0 \<le> p" and "p \<le> 1" and "on_grid q" and "0 \<le> q" and "q \<le> 10 ^ 16"
  shows "\<bar>unit_product p q - p * q\<bar> \<le> 1 / 2 / 10 ^ 6"
proof -
  obtain a where a: "p = of_int a / 10 ^ 6" using on_gridE [OF dec6_grid [OF assms(1)]] by blast
  obtain b where b: "q = of_int b / 10 ^ 6" using on_gridE [OF assms(4)] by blast
  have "0 \<le> a" using assms(2) a by (simp add: zero_le_divide_iff)
  moreover have "(of_int a :: rat) \<le> of_int (10 ^ 6)" using assms(3) a by simp
  then have "a \<le> 10 ^ 6" by (simp only: of_int_le_iff)
  moreover have "0 \<le> b" using assms(5) b by (simp add: zero_le_divide_iff)
  moreover have "(of_int b :: rat) \<le> of_int (10 ^ 22)" using assms(6) b by simp
  then have "b \<le> 10 ^ 22" by (simp only: of_int_le_iff)
  ultimately have "0 \<le> a * b \<and> a * b \<le> 10 ^ 6 * 10 ^ 22" using mult_mono [of a "10 ^ 6" b "10 ^ 22"] by simp
  then have "\<bar>a * b\<bar> \<le> 10 ^ 6 * 10 ^ 22" by simp
  moreover have "p * q = of_int (a * b) * pow10 (- 12)" by (simp add: a b pow10_def)
  ultimately have "fits28 (p * q)" unfolding fits28_def by (intro exI [of _ "a * b"] exI [of _ "- 12"]) simp
  then have c: "ctx (p * q) = p * q" by (rule ctx_exact)
  have "\<bar>of_int (round_half_even (p * q * 10 ^ 6)) - p * q * 10 ^ 6\<bar> \<le> 1 / 2"
    by (rule round_half_even_error)
  then have "\<bar>(of_int (round_half_even (p * q * 10 ^ 6)) - p * q * 10 ^ 6) / 10 ^ 6\<bar> \<le> 1 / 2 / 10 ^ 6"
    unfolding abs_divide by (simp add: divide_right_mono)
  then show ?thesis unfolding unit_product_def c by (simp add: diff_divide_distrib)
qed

lemma on_grid_small:
  assumes "on_grid x" and "x < 2 / 10 ^ 6"
  shows "x \<le> 1 / 10 ^ 6"
proof -
  obtain n where n: "x = of_int n / 10 ^ 6" using on_gridE [OF assms(1)] by blast
  then have "(of_int n :: rat) < of_int 2" using assms(2) by simp
  then have "n < 2" by (simp only: of_int_less_iff)
  then have "(of_int n :: rat) \<le> 1" by simp
  then show ?thesis unfolding n by simp
qed

text \<open>A fill within an active buy order's limits is covered by the order's reservation: what
  remains reserved never exceeds what was reserved, and the debit exceeds the released reservation
  by at most one micro-unit, the rounding of the reservations.\<close>

lemma fill_reservation_bound:
  assumes "ledger_inv s" and "dict_get (ls_orders s) i = Some ord" and "oi_side (oa_intent ord) = BUY"
    and "\<not> is_terminal (oa_state ord)" and "wf_fill f"
    and "fill_total ord f \<le> oi_quantity (oa_intent ord)" and "oi_quantity (oa_intent ord) \<le> 10 ^ 16"
    and "fl_price f \<le> oi_limit_price (oa_intent ord)"
    and "amount (fl_fee f) \<le> amount (oi_fee_reserve (oa_intent ord)) - amount (oa_fees ord)"
  shows "reservation_after ord f \<le> amount (oa_reserved_cash ord)
    \<and> fill_gross f + amount (fl_fee f)
        \<le> amount (oa_reserved_cash ord) - reservation_after ord f + 1 / 10 ^ 6"
proof -
  let ?L = "oi_limit_price (oa_intent ord)" and ?q = "fl_quantity f"
  let ?rem = "oi_quantity (oa_intent ord) - oa_filled_quantity ord"
  have w: "wf_order ord" using wf_get_order assms(1,2) by (auto simp: ledger_inv_def)
  have ok: "order_ok (ls_currency s) i ord" using ledger_ok_order assms(1,2) by (auto simp: ledger_inv_def)
  have res: "amount (oa_reserved_cash ord) = unit_product ?L ?rem
      + (amount (oi_fee_reserve (oa_intent ord)) - amount (oa_fees ord))"
    using ok assms(3,4) by (simp add: order_ok_def del: is_terminal.simps)
  have L: "dec6 ?L" "0 \<le> ?L" "?L \<le> 1" using w by (auto simp: wf_order_def wf_intent_def)
  have q: "0 \<le> ?q" "?q \<le> ?rem" "on_grid ?q" "0 \<le> fl_price f" "0 \<le> amount (fl_fee f)"
    using assms(5,6) by (auto simp: wf_fill_def fill_total_def dec6_grid)
  have r: "on_grid ?rem" "?rem \<le> 10 ^ 16"
    using w ok assms(7) by (auto simp: wf_order_def wf_intent_def dec6_grid order_ok_def)
  note e = unit_product_error [OF L]
  have e1: "\<bar>unit_product ?L ?rem - ?L * ?rem\<bar> \<le> 1 / 2 / 10 ^ 6"
    using q r by (intro e) auto
  have e2: "\<bar>unit_product ?L (?rem - ?q) - ?L * (?rem - ?q)\<bar> \<le> 1 / 2 / 10 ^ 6"
    using q r by (intro e) auto
  have e3: "\<bar>unit_product ?L ?q - ?L * ?q\<bar> \<le> 1 / 2 / 10 ^ 6"
    using q r by (intro e) auto
  have "?L * ?q + ?L * (?rem - ?q) = ?L * ?rem" by (simp add: algebra_simps)
  then have "unit_product ?L ?q + unit_product ?L (?rem - ?q) - unit_product ?L ?rem \<le> 3 * (1 / 2 / 10 ^ 6)"
    using e1 e2 e3 by linarith
  then have "unit_product ?L ?q + unit_product ?L (?rem - ?q) - unit_product ?L ?rem \<le> 1 / 10 ^ 6"
    by (intro on_grid_small) simp_all
  moreover have "fill_gross f \<le> unit_product ?L ?q"
    unfolding fill_gross_def using assms(8) q by (intro unit_product_mono mult_right_mono) auto
  moreover have "unit_product ?L (?rem - ?q) \<le> unit_product ?L ?rem"
    using L q by (intro unit_product_mono mult_left_mono) auto
  ultimately show ?thesis unfolding reservation_after_def res using q by linarith
qed

lemma filled_reservation:
  assumes "fill_target ord f = FILLED"
    and "amount (fl_fee f) \<le> amount (oi_fee_reserve (oa_intent ord)) - amount (oa_fees ord)"
  shows "0 \<le> reservation_after ord f"
proof -
  have "oi_quantity (oa_intent ord) - oa_filled_quantity ord - fl_quantity f = 0"
    using assms(1) by (simp add: fill_target_def fill_total_def split: if_splits)
  then show ?thesis unfolding reservation_after_def using assms(2) by simp
qed

text \<open>C6. An accepted fill of a buy order, recorded for the first time, takes from cash exactly its
  price times its quantity, rounded to the micro-unit, plus its fee. That debit is covered by
  reserved cash: the ledger's reservation shrinks by as much as the order's, never grows, and the
  debit exceeds what was released by at most one micro-unit, the rounding of the reservations, so
  the available cash drops by at most one micro-unit. (Orders of at most $10^{16}$ shares.)\<close>

theorem buy_fill_covered:
  assumes "apply_event sha fp s e = Inr s'" and "ledger_inv s" and "wf_event e"
    and "dict_get (ls_fingerprints s) (ev_event_id e) = None"
    and "ev_body e = FillReceived f"
    and "dict_get (ls_orders s) (fl_intent_id f) = Some ord"
    and "dict_get (oa_fill_fingerprints ord) (fl_fill_id f) = None"
    and "oi_side (oa_intent ord) = BUY" and "oi_quantity (oa_intent ord) \<le> 10 ^ 16"
  shows "amount (ls_cash s) - amount (ls_cash s')
      = unit_product (fl_price f) (fl_quantity f) + amount (fl_fee f)
    \<and> amount (ls_reserved_cash s') \<le> amount (ls_reserved_cash s)
    \<and> amount (ls_cash s) - amount (ls_cash s')
        \<le> amount (ls_reserved_cash s) - amount (ls_reserved_cash s') + 1 / 10 ^ 6
    \<and> (\<exists>ord'. dict_get (ls_orders s') (fl_intent_id f) = Some ord'
        \<and> oa_filled_quantity ord' = oa_filled_quantity ord + fl_quantity f
        \<and> amount (oa_reserved_cash ord) - amount (oa_reserved_cash ord')
          = amount (ls_reserved_cash s) - amount (ls_reserved_cash s'))"
  using assms(1-3)
proof (cases rule: apply_event_InrE)
  case redelivery
  then show ?thesis using assms(4) by simp
next
  case (accepted t)
  have i: "oi_intent_id (oa_intent ord) = fl_intent_id f"
    using ledger_ok_order [OF _ assms(6)] assms(2) by (simp add: order_ok_def ledger_inv_def)
  have f: "wf_fill f" using assms(3,5) by (simp add: wf_event_def)
  have step: "ledger_step sha (FillReceived f) s t" using accepted(3) assms(5) by simp
  obtain q kept where
    k: "kept = (if fill_target ord f = FILLED then 0 else reservation_after ord f)"
    and lim: "fill_total ord f \<le> oi_quantity (oa_intent ord)"
      "fill_target ord f \<in> allowed_transitions (oa_state ord)"
      "fl_price f \<le> oi_limit_price (oa_intent ord)"
      "amount (fl_fee f) \<le> amount (oi_fee_reserve (oa_intent ord)) - amount (oa_fees ord)"
    and t: "t = replace_order (replace_position
         (s\<lparr>ls_cash := coins s (amount (ls_cash s) - (fill_gross f + amount (fl_fee f))),
            ls_reserved_cash := coins s (amount (ls_reserved_cash s)
              - (amount (oa_reserved_cash ord) - kept))\<rparr>) q)
        (filled_order sha s (ord\<lparr>oa_reserved_cash := coins s kept\<rparr>) f)"
    using step
  proof (cases rule: ledger_step.cases)
    case (fill_buy ord0 debit p kept)
    then have e: "ord0 = ord" using assms(6) by simp
    show ?thesis by (rule that) (use fill_buy in \<open>simp_all only: e\<close>)
  qed (use assms(6-8) in \<open>simp_all del: is_terminal.simps\<close>)
  note b = fill_reservation_bound [OF assms(2,6,8) _ f lim(1) assms(9) lim(3,4)]
  have "kept \<le> amount (oa_reserved_cash ord)
      \<and> fill_gross f + amount (fl_fee f) \<le> amount (oa_reserved_cash ord) - kept + 1 / 10 ^ 6"
    using b transition_step [OF lim(2)] filled_reservation [OF _ lim(4)] k by (auto split: if_splits)
  then show ?thesis
    using accepted(5) t i
    by (auto simp: filled_order_def get_order_replaced fill_total_def fill_gross_def)
qed

end
