(* ===== verification/Ledger_Samples.thy ===== *)
theory Ledger_Samples
  imports Ledger_Props
begin

text \<open>
  Concrete histories on which the properties of the ledger are instantiated, evaluated one event at
  a time: an account is opened, a buy order submitted and partly filled; a second account with
  almost no cash shows the rounding edge of reservations; a settled position. Each state is written
  out, so that every evaluation is a small one.
\<close>

definition usdc :: "rat \<Rightarrow> money" where
  "usdc x = \<lparr>amount = x, currency = ''USDC''\<rparr>"

definition at_second :: "int \<Rightarrow> datetime" where
  "at_second n = \<lparr>dt_micros = seconds n, dt_offset = Some 0\<rparr>"

definition sample_event :: "string \<Rightarrow> event_body \<Rightarrow> ledger_event" where
  "sample_event i b = \<lparr>ev_event_id = i, ev_occurred_at = at_second 1, ev_body = b\<rparr>"

text \<open>A digest and a fingerprint that tell the sample events apart.\<close>

definition sample_sha :: "string \<Rightarrow> string" where
  "sample_sha x = x"

definition sample_fp :: "ledger_event \<Rightarrow> string" where
  "sample_fp e = (case ev_body e of OrderCancelled i r \<Rightarrow> r | _ \<Rightarrow> ''h'')"

text \<open>One buy order of quantity \<open>q\<close> at limit 1/2, and the states of an account opened with \<open>c\<close>.\<close>

definition buy_intent :: "rat \<Rightarrow> rat \<Rightarrow> order_intent" where
  "buy_intent q fee =
     \<lparr>oi_intent_id = ''b'', oi_strategy_id = ''s'', oi_decision_id = ''d'', oi_market_id = ''m'',
      oi_outcome_id = ''y'', oi_side = BUY, oi_quantity = q, oi_limit_price = 1 / 2,
      oi_fee_reserve = usdc fee, oi_created_at = at_second 0\<rparr>"

definition buy_order :: "rat \<Rightarrow> rat \<Rightarrow> order_state \<Rightarrow> order_aggregate" where
  "buy_order q fee st =
     \<lparr>oa_intent = buy_intent q fee, oa_state = st, oa_filled_quantity = 0,
      oa_gross_value = usdc 0, oa_fees = usdc 0, oa_reserved_cash = usdc (q / 2 + fee),
      oa_reserved_quantity = 0, oa_backend_order_id = (if st = CREATED then None else Some ''x''),
      oa_terminal_reason = None, oa_unknown_reason = None, oa_fill_fingerprints = []\<rparr>"

definition state_empty :: ledger_state where
  "state_empty =
     \<lparr>ls_currency = ''USDC'', ls_opened = False, ls_cash = usdc 0, ls_reserved_cash = usdc 0,
      ls_orders = [], ls_positions = [], ls_resolutions = [], ls_resolution_evidence = [],
      ls_weather = [], ls_fingerprints = []\<rparr>"

definition state_opened :: "rat \<Rightarrow> ledger_state" where
  "state_opened c =
     state_empty\<lparr>ls_opened := True, ls_cash := usdc c, ls_fingerprints := [(''1'', ''h'')]\<rparr>"

definition state_ordered :: "rat \<Rightarrow> rat \<Rightarrow> rat \<Rightarrow> ledger_state" where
  "state_ordered c q fee =
     (state_opened c)\<lparr>ls_reserved_cash := usdc (q / 2 + fee), ls_orders := [(''b'', buy_order q fee CREATED)],
       ls_fingerprints := [(''1'', ''h''), (''2'', ''h'')]\<rparr>"

definition state_submitted :: "rat \<Rightarrow> rat \<Rightarrow> rat \<Rightarrow> ledger_state" where
  "state_submitted c q fee =
     (state_ordered c q fee)\<lparr>ls_orders := [(''b'', buy_order q fee SUBMITTED)],
       ls_fingerprints := [(''1'', ''h''), (''2'', ''h''), (''3'', ''h'')]\<rparr>"

definition open_event :: "rat \<Rightarrow> ledger_event" where
  "open_event c = sample_event ''1'' (AccountOpened (usdc c))"

definition order_event :: "rat \<Rightarrow> rat \<Rightarrow> ledger_event" where
  "order_event q fee = sample_event ''2'' (OrderIntentCreated (buy_intent q fee))"

definition submit_event :: ledger_event where
  "submit_event = sample_event ''3'' (OrderSubmitted ''b'' ''x'')"

definition sample_fill :: "rat \<Rightarrow> rat \<Rightarrow> rat \<Rightarrow> fill" where
  "sample_fill q p fee =
     \<lparr>fl_intent_id = ''b'', fl_fill_id = ''f'', fl_quantity = q, fl_price = p, fl_fee = usdc fee\<rparr>"

definition fill_event :: "rat \<Rightarrow> rat \<Rightarrow> rat \<Rightarrow> ledger_event" where
  "fill_event q p fee = sample_event ''4'' (FillReceived (sample_fill q p fee))"

definition cancel_event :: ledger_event where
  "cancel_event = sample_event ''5'' (OrderCancelled ''b'' ''r'')"

lemma eval_empty: "ledger_empty ''usdc'' = Inr state_empty"
  by code_simp

lemma eval_opened:
  "apply_event sample_sha sample_fp state_empty (open_event 100) = Inr (state_opened 100)"
  by code_simp

lemma eval_ordered:
  "apply_event sample_sha sample_fp (state_opened 100) (order_event 10 (1 / 10)) =
     Inr (state_ordered 100 10 (1 / 10))"
  by code_simp

lemma eval_submitted:
  "apply_event sample_sha sample_fp (state_ordered 100 10 (1 / 10)) submit_event =
     Inr (state_submitted 100 10 (1 / 10))"
  by code_simp

definition filled_part :: order_aggregate where
  "filled_part = (buy_order 10 (1 / 10) PARTIALLY_FILLED)\<lparr>oa_filled_quantity := 4,
     oa_gross_value := usdc (8 / 5), oa_fees := usdc (1 / 100), oa_reserved_cash := usdc (309 / 100),
     oa_fill_fingerprints := [(''f'', fill_payload (sample_fill 4 (2 / 5) (1 / 100)))]\<rparr>"

definition held_position :: position where
  "held_position =
     \<lparr>pos_market_id = ''m'', pos_outcome_id = ''y'', pos_quantity = 4, pos_reserved_quantity = 0,
      pos_cost_basis = usdc (161 / 100), pos_realized_pnl = usdc 0, pos_status = OPEN,
      pos_settlement_payout = None\<rparr>"

definition state_filled :: ledger_state where
  "state_filled = (state_submitted 100 10 (1 / 10))\<lparr>ls_cash := usdc (9839 / 100),
     ls_reserved_cash := usdc (309 / 100), ls_orders := [(''b'', filled_part)],
     ls_positions := [((''m'', ''y''), held_position)],
     ls_fingerprints := [(''1'', ''h''), (''2'', ''h''), (''3'', ''h''), (''4'', ''h'')]\<rparr>"

lemma eval_filled:
  "apply_event sample_sha sample_fp (state_submitted 100 10 (1 / 10)) (fill_event 4 (2 / 5) (1 / 100)) =
     Inr state_filled"
  by code_simp

text \<open>An account that holds three micro-units and spends them all on one order.\<close>

lemma eval_edge_opened:
  "apply_event sample_sha sample_fp state_empty (open_event (3 / 10 ^ 6)) = Inr (state_opened (3 / 10 ^ 6))"
  by code_simp

lemma eval_edge_ordered:
  "apply_event sample_sha sample_fp (state_opened (3 / 10 ^ 6)) (order_event (6 / 10 ^ 6) 0) =
     Inr (state_ordered (3 / 10 ^ 6) (6 / 10 ^ 6) 0)"
  by code_simp

lemma eval_edge_submitted:
  "apply_event sample_sha sample_fp (state_ordered (3 / 10 ^ 6) (6 / 10 ^ 6) 0) submit_event =
     Inr (state_submitted (3 / 10 ^ 6) (6 / 10 ^ 6) 0)"
  by code_simp

lemma eval_edge_fill:
  "apply_event sample_sha sample_fp (state_submitted (3 / 10 ^ 6) (6 / 10 ^ 6) 0)
     (fill_event (3 / 10 ^ 6) (1 / 2) 0) =
     Inl (InvariantViolation ''available_cash must not be negative'')"
  by code_simp

end
