(* ===== verification/Ledger_Witnesses.thy ===== *)
theory Ledger_Witnesses
  imports Ledger_Samples
begin

text \<open>
  The properties of the ledger applied to the sample histories, and the rounding edge on which a
  covered fill is refused.
\<close>

definition sample_events :: "ledger_event list" where
  "sample_events = [open_event 100, order_event 10 (1 / 10), submit_event]"

lemma sample_replay:
  "replay sample_sha sample_fp ''usdc'' sample_events = Inr (state_submitted 100 10 (1 / 10))"
  by (simp add: replay_def sample_events_def eval_empty eval_opened eval_ordered eval_submitted)

lemma sample_replay_filled:
  "replay sample_sha sample_fp ''usdc'' (sample_events @ [fill_event 4 (2 / 5) (1 / 100)]) = Inr state_filled"
  by (simp add: replay_append sample_replay eval_filled)

lemma sample_wf: "list_all wf_event (sample_events @ [fill_event 4 (2 / 5) (1 / 100), cancel_event])"
  by code_simp

lemma sample_wf_prefix: "list_all wf_event sample_events"
  "list_all wf_event (sample_events @ [fill_event 4 (2 / 5) (1 / 100)])"
  using sample_wf by simp_all

lemma submitted_inv: "ledger_inv (state_submitted 100 10 (1 / 10))"
  using replay_inv [OF sample_replay sample_wf_prefix(1)] by simp

lemma filled_inv: "ledger_inv state_filled"
  using replay_inv [OF sample_replay_filled sample_wf_prefix(2)] by simp

lemma invariant_check_exact_witness:
  "wf_ledger state_filled \<and> (assert_invariants state_filled = Inr () \<longleftrightarrow> ledger_ok state_filled)"
  using invariant_check_exact [of state_filled] filled_inv by (simp add: ledger_inv_def)

lemma replay_invariant_witness:
  "wf_ledger state_filled \<and> assert_invariants state_filled = Inr ()"
  by (rule replay_invariant [OF sample_replay_filled sample_wf_prefix(2)])

lemma apply_event_refines_witness:
  "\<exists>t. ledger_step sample_sha (ev_body (fill_event 4 (2 / 5) (1 / 100))) (state_submitted 100 10 (1 / 10)) t
     \<and> state_filled = record_event t (fill_event 4 (2 / 5) (1 / 100)) ''h''"
proof -
  have f: "wf_event (fill_event 4 (2 / 5) (1 / 100))" using sample_wf by simp
  have n: "dict_get (ls_fingerprints (state_submitted 100 10 (1 / 10))) (ev_event_id (fill_event 4 (2 / 5) (1 / 100)))
      = None"
    by code_simp
  have "sample_fp (fill_event 4 (2 / 5) (1 / 100)) = ''h''" by code_simp
  then show ?thesis
    using apply_event_refines [OF eval_filled submitted_inv f] n by simp
qed

lemma replay_accounting_witness:
  "amount (ls_cash state_filled) + dict_sum (\<lambda>_ p. amount (pos_cost_basis p)) (ls_positions state_filled)
     - dict_sum (\<lambda>_ p. amount (pos_realized_pnl p)) (ls_positions state_filled) = 100"
proof -
  let ?es = "[order_event 10 (1 / 10), submit_event, fill_event 4 (2 / 5) (1 / 100)]"
  have "replay sample_sha sample_fp ''usdc'' (open_event 100 # ?es) = Inr state_filled"
    using sample_replay_filled by (simp add: sample_events_def)
  from replay_accounting [OF this] show ?thesis
    using sample_wf by (auto simp: sample_events_def open_event_def sample_event_def usdc_def)
qed

lemma replay_evolves_witness: "ledger_evolves (state_submitted 100 10 (1 / 10)) state_filled"
  by (rule replay_evolves [OF sample_replay sample_replay_filled sample_wf_prefix(2)])

lemma redelivery_idempotent_witness:
  "apply_event sample_sha sample_fp state_filled submit_event = Inr state_filled"
  by (rule redelivery_idempotent [OF sample_replay_filled sample_wf_prefix(2)]) (simp add: sample_events_def)

lemma replay_orders_complete_witness:
  "oa_state filled_part \<noteq> FILLED \<and> oa_filled_quantity filled_part \<noteq> oi_quantity (oa_intent filled_part)"
proof -
  have "dict_get (ls_orders state_filled) ''b'' = Some filled_part" by (simp add: state_filled_def)
  from replay_orders_complete [OF sample_replay_filled sample_wf_prefix(2) this]
  show ?thesis by (simp add: filled_part_def buy_order_def buy_intent_def)
qed

definition state_closed :: ledger_state where
  "state_closed = state_filled\<lparr>ls_orders := [(''b'', filled_part\<lparr>oa_state := CANCELLED\<rparr>)]\<rparr>"

lemma closed_order_refuses_witness:
  "apply_body sample_sha state_closed (OrderAcknowledged ''b'') =
     Inl (InvalidTransition ''order transition is invalid'')"
proof -
  have "dict_get (ls_orders state_closed) ''b'' = Some (filled_part\<lparr>oa_state := CANCELLED\<rparr>)"
    by (simp add: state_closed_def)
  from closed_order_refuses [OF this, of "[]" "[]" sample_sha] show ?thesis by simp
qed

definition state_cancelled :: ledger_state where
  "state_cancelled = state_filled\<lparr>ls_reserved_cash := usdc 0,
     ls_orders := [(''b'', filled_part\<lparr>oa_state := CANCELLED, oa_reserved_cash := usdc 0,
        oa_terminal_reason := Some ''r''\<rparr>)],
     ls_fingerprints := [(''1'', ''h''), (''2'', ''h''), (''3'', ''h''), (''4'', ''h''), (''5'', ''r'')]\<rparr>"

lemma eval_cancelled: "apply_event sample_sha sample_fp state_filled cancel_event = Inr state_cancelled"
  by code_simp

lemma close_releases_reservation_witness:
  "amount (ls_cash state_cancelled) - amount (ls_reserved_cash state_cancelled)
     = amount (ls_cash state_filled) - amount (ls_reserved_cash state_filled)
       + amount (oa_reserved_cash filled_part)"
proof -
  have "dict_get (ls_orders state_filled) ''b'' = Some filled_part" by (simp add: state_filled_def)
  moreover have "dict_get (ls_fingerprints state_filled) (ev_event_id cancel_event) = None"
    "ev_body cancel_event = OrderCancelled ''b'' ''r''" "wf_event cancel_event"
    "oi_side (oa_intent filled_part) = BUY"
    by (simp_all add: state_filled_def cancel_event_def sample_event_def wf_event_def filled_part_def
        buy_order_def buy_intent_def usdc_def)
  ultimately show ?thesis
    using close_releases_reservation [OF eval_cancelled filled_inv, of "''b''" "''r''" filled_part] by blast
qed

definition sample_resolution :: market_resolution where
  "sample_resolution = \<lparr>mr_market_id = ''m'',
     mr_payouts = [\<lparr>op_outcome_id = ''y'', op_payout = 1\<rparr>, \<lparr>op_outcome_id = ''n'', op_payout = 0\<rparr>],
     mr_resolved_at = at_second 9\<rparr>"

definition resolve_event :: ledger_event where
  "resolve_event = sample_event ''6'' (MarketResolved sample_resolution)"

definition settle_event :: ledger_event where
  "settle_event = sample_event ''7'' (PositionSettled ''m'' ''y'' (usdc (1 / 20)))"

definition state_resolved :: ledger_state where
  "state_resolved = state_cancelled\<lparr>ls_resolutions := [(''m'', sample_resolution)],
     ls_fingerprints := ls_fingerprints state_cancelled @ [(''6'', ''h'')]\<rparr>"

definition state_settled :: ledger_state where
  "state_settled = state_resolved\<lparr>ls_cash := usdc (10234 / 100),
     ls_positions := [((''m'', ''y''), held_position\<lparr>pos_quantity := 0, pos_cost_basis := usdc 0,
        pos_realized_pnl := usdc (234 / 100), pos_status := SETTLED, pos_settlement_payout := Some 1\<rparr>)],
     ls_fingerprints := ls_fingerprints state_resolved @ [(''7'', ''h'')]\<rparr>"

lemma eval_resolved: "apply_event sample_sha sample_fp state_cancelled resolve_event = Inr state_resolved"
  by code_simp

lemma eval_settled: "apply_event sample_sha sample_fp state_resolved settle_event = Inr state_settled"
  by code_simp

lemma resolved_inv: "ledger_inv state_resolved"
proof -
  have "wf_event cancel_event" "wf_event resolve_event" by code_simp+
  then show ?thesis
    using apply_event_inv [OF eval_resolved apply_event_inv [OF eval_cancelled filled_inv]] by simp
qed

lemma settlement_pays_payout_witness:
  "amount (ls_cash state_resolved) \<le> amount (ls_cash state_settled)"
proof -
  have "wf_event settle_event" "dict_get (ls_fingerprints state_resolved) (ev_event_id settle_event) = None"
    by code_simp+
  moreover have "ev_body settle_event = PositionSettled ''m'' ''y'' (usdc (1 / 20))"
    by (simp add: settle_event_def sample_event_def)
  ultimately show ?thesis
    using settlement_pays_payout [OF eval_settled resolved_inv] by blast
qed

lemma buy_fill_covered_witness:
  "amount (ls_cash (state_submitted 100 10 (1 / 10))) - amount (ls_cash state_filled)
     \<le> amount (ls_reserved_cash (state_submitted 100 10 (1 / 10))) - amount (ls_reserved_cash state_filled)
       + 1 / 10 ^ 6"
proof -
  have "dict_get (ls_orders (state_submitted 100 10 (1 / 10))) ''b'' = Some (buy_order 10 (1 / 10) SUBMITTED)"
    by (simp add: state_submitted_def)
  moreover have "ev_body (fill_event 4 (2 / 5) (1 / 100)) = FillReceived (sample_fill 4 (2 / 5) (1 / 100))"
    "wf_event (fill_event 4 (2 / 5) (1 / 100))"
    "dict_get (ls_fingerprints (state_submitted 100 10 (1 / 10))) (ev_event_id (fill_event 4 (2 / 5) (1 / 100))) = None"
    using sample_wf by (simp_all add: fill_event_def sample_event_def state_submitted_def)
  ultimately show ?thesis
    using buy_fill_covered [OF eval_filled submitted_inv, of "sample_fill 4 (2 / 5) (1 / 100)"
        "buy_order 10 (1 / 10) SUBMITTED"]
    by (simp add: buy_order_def buy_intent_def sample_fill_def)
qed

text \<open>The bound of one micro-unit is reached, and then the ledger refuses the fill: an account
  with three micro-units of cash reserves all of them for an order of six micro-units at 1/2; half
  of it filled at the limit price debits two and leaves two reserved, each rounded half to even,
  so the event is rejected although it is within every limit of the order.\<close>

theorem covered_fill_refused:
  "replay sample_sha sample_fp ''usdc''
     [open_event (3 / 10 ^ 6), order_event (6 / 10 ^ 6) 0, submit_event]
     = Inr (state_submitted (3 / 10 ^ 6) (6 / 10 ^ 6) 0)
   \<and> wf_fill (sample_fill (3 / 10 ^ 6) (1 / 2) 0)
   \<and> apply_event sample_sha sample_fp (state_submitted (3 / 10 ^ 6) (6 / 10 ^ 6) 0)
       (fill_event (3 / 10 ^ 6) (1 / 2) 0)
     = Inl (InvariantViolation ''available_cash must not be negative'')"
proof -
  have "wf_fill (sample_fill (3 / 10 ^ 6) (1 / 2) 0)" by code_simp
  then show ?thesis
    by (simp only: replay_def rfold.simps rbind_simps eval_empty eval_edge_opened eval_edge_ordered
        eval_edge_submitted eval_edge_fill simp_thms)
qed

end
