(* ===== verification/Json.thy ===== *)
theory Json
  imports Text_Format "HOL-Library.List_Lexorder" "HOL-Library.Char_ord"
begin

text \<open>
  JSON values and the two library functions the persistence layer uses: \<^verbatim>\<open>json.dumps\<close>
  with \<^verbatim>\<open>ensure_ascii=False\<close>, sorted keys and compact separators, and
  \<^verbatim>\<open>json.loads\<close> with a hook that rejects duplicate keys. A float keeps its literal text.
  Characters are 8-bit, so an escape beyond them does not decode. The parser counts down a fuel that
  starts above the length of the text: each call consumes at least one character.
\<close>

datatype json = JNull | JBool bool | JInt int | JFloat string | JStr string | JArr "json list"
  | JObj "(string \<times> json) list"

definition jget :: "(string \<times> json) list \<Rightarrow> string \<Rightarrow> json option" where
  "jget d k = map_of d k"

section \<open>Printing\<close>

definition raw_escape :: "char \<Rightarrow> string" where
  "raw_escape c =
     (case map_of escape_table c of
        Some d \<Rightarrow> [CHR 0x5C, d]
      | None \<Rightarrow>
          (let n = of_char c :: nat
           in if n < 32
              then [CHR 0x5C, CHR ''u'', CHR ''0'', CHR ''0'', hex_char (n div 16), hex_char n]
              else [c]))"

definition print_string :: "string \<Rightarrow> string" where
  "print_string s = CHR 0x22 # concat (map raw_escape s) @ [CHR 0x22]"

fun join :: "string list \<Rightarrow> string" where
  "join [] = []"
| "join [s] = s"
| "join (s # t # ts) = s @ CHR '','' # join (t # ts)"

primrec print_json :: "json \<Rightarrow> string" where
  "print_json JNull = ''null''"
| "print_json (JBool b) = (if b then ''true'' else ''false'')"
| "print_json (JInt n) = show_int n"
| "print_json (JFloat s) = s"
| "print_json (JStr s) = print_string s"
| "print_json (JArr vs) = CHR ''['' # join (map print_json vs) @ '']''"
| "print_json (JObj ps) =
     CHR ''{'' # join (map (\<lambda>p. print_string (fst p) @ CHR '':'' # snd p) (map (map_prod id print_json) ps)) @ ''}''"

primrec sort_json :: "json \<Rightarrow> json" where
  "sort_json JNull = JNull"
| "sort_json (JBool b) = JBool b"
| "sort_json (JInt n) = JInt n"
| "sort_json (JFloat s) = JFloat s"
| "sort_json (JStr s) = JStr s"
| "sort_json (JArr vs) = JArr (map sort_json vs)"
| "sort_json (JObj ps) = JObj (sort_key fst (map (map_prod id sort_json) ps))"

definition canonical_json :: "json \<Rightarrow> string" where
  "canonical_json v = print_json (sort_json v)"

section \<open>Parsing\<close>

datatype json_error = JSONDecodeError | DuplicateKey

type_synonym 'a parse = "json_error + ('a \<times> string)"

definition is_ws :: "char \<Rightarrow> bool" where
  "is_ws c \<longleftrightarrow> c \<in> {CHR '' '', CHR 0x09, CHR 0x0A, CHR 0x0D}"

definition skip_ws :: "string \<Rightarrow> string" where
  "skip_ws s = dropWhile is_ws s"

definition hex_digit :: "char \<Rightarrow> nat option" where
  "hex_digit c = map_of hex_table (lower_char c)"

text \<open>The body of a string literal, after the opening quote.\<close>

fun parse_chars :: "string \<Rightarrow> string \<Rightarrow> string parse" where
  "parse_chars acc [] = Inl JSONDecodeError"
| "parse_chars acc (c # s) =
     (if c = CHR 0x22 then Inr (rev acc, s)
      else if c = CHR 0x5C
      then (case s of
          [] \<Rightarrow> Inl JSONDecodeError
        | d # r \<Rightarrow>
            if d = CHR ''u''
            then (case r of
                a # b # h # l # r' \<Rightarrow>
                  (case (hex_digit a, hex_digit b, hex_digit h, hex_digit l) of
                     (Some 0, Some 0, Some m, Some n) \<Rightarrow> parse_chars (char_of (16 * m + n) # acc) r'
                   | _ \<Rightarrow> Inl JSONDecodeError)
              | _ \<Rightarrow> Inl JSONDecodeError)
            else if d = CHR ''/'' then parse_chars (CHR ''/'' # acc) r
            else (case map_of (map prod.swap escape_table) d of
                Some e \<Rightarrow> parse_chars (e # acc) r
              | None \<Rightarrow> Inl JSONDecodeError))
      else if of_char c < (32::nat) then Inl JSONDecodeError
      else parse_chars (c # acc) s)"

definition parse_int_part :: "string \<Rightarrow> (string \<times> string) option" where
  "parse_int_part s =
     (let sign = (case s of c # _ \<Rightarrow> if c = CHR ''-'' then ''-'' else [] | [] \<Rightarrow> []);
          r = drop (length sign) s
      in case r of
           [] \<Rightarrow> None
         | c # r' \<Rightarrow>
             if c = CHR ''0'' then Some (sign @ ''0'', r')
             else if is_digit c then Some (sign @ takeWhile is_digit r, dropWhile is_digit r)
             else None)"

definition parse_fraction :: "string \<Rightarrow> string \<times> string" where
  "parse_fraction s =
     (case s of
        c # r \<Rightarrow> if c = CHR ''.'' \<and> takeWhile is_digit r \<noteq> []
                 then (CHR ''.'' # takeWhile is_digit r, dropWhile is_digit r) else ([], s)
      | [] \<Rightarrow> ([], s))"

definition parse_exp :: "string \<Rightarrow> string \<times> string" where
  "parse_exp s =
     (case s of
        c # r \<Rightarrow>
          if c \<in> {CHR ''e'', CHR ''E''}
          then (let sign = (case r of d # _ \<Rightarrow> if d \<in> {CHR ''+'', CHR ''-''} then [d] else [] | [] \<Rightarrow> []);
                    ds = takeWhile is_digit (drop (length sign) r)
                in if ds = [] then ([], s) else (c # sign @ ds, drop (Suc (length sign + length ds)) s))
          else ([], s)
      | [] \<Rightarrow> ([], s))"

definition int_value :: "string \<Rightarrow> int" where
  "int_value s =
     (case s of c # r \<Rightarrow> if c = CHR ''-'' then - int (nat_of_digits r) else int (nat_of_digits s) | [] \<Rightarrow> 0)"

definition parse_number :: "string \<Rightarrow> json parse" where
  "parse_number s =
     (case parse_int_part s of
        None \<Rightarrow> Inl JSONDecodeError
      | Some (i, r) \<Rightarrow>
          (case parse_fraction r of (f, r1) \<Rightarrow>
             (case parse_exp r1 of (e, r2) \<Rightarrow>
                Inr (if f = [] \<and> e = [] then JInt (int_value i) else JFloat (i @ f @ e), r2))))"

definition literals :: "(string \<times> json) list" where
  "literals = [(''null'', JNull), (''true'', JBool True), (''false'', JBool False),
     (''NaN'', JFloat ''NaN''), (''Infinity'', JFloat ''Infinity''), (''-Infinity'', JFloat ''-Infinity'')]"

fun parse_literal :: "(string \<times> json) list \<Rightarrow> string \<Rightarrow> json parse" where
  "parse_literal [] s = parse_number s"
| "parse_literal ((l, v) # ls) s =
     (if take (length l) s = l then Inr (v, drop (length l) s) else parse_literal ls s)"

fun parse_value :: "nat \<Rightarrow> string \<Rightarrow> json parse"
  and parse_items :: "nat \<Rightarrow> json list \<Rightarrow> string \<Rightarrow> json parse"
  and parse_members :: "nat \<Rightarrow> (string \<times> json) list \<Rightarrow> string \<Rightarrow> json parse" where
  "parse_value 0 s = Inl JSONDecodeError"
| "parse_value (Suc n) s =
     (case s of
        [] \<Rightarrow> Inl JSONDecodeError
      | c # r \<Rightarrow>
          if c = CHR 0x22 then rbind (parse_chars [] r) (\<lambda>p. Inr (JStr (fst p), snd p))
          else if c = CHR ''{''
          then (case skip_ws r of
              [] \<Rightarrow> Inl JSONDecodeError
            | d # r' \<Rightarrow> if d = CHR ''}'' then Inr (JObj [], r') else parse_members n [] (d # r'))
          else if c = CHR ''[''
          then (case skip_ws r of
              [] \<Rightarrow> Inl JSONDecodeError
            | d # r' \<Rightarrow> if d = CHR '']'' then Inr (JArr [], r') else parse_items n [] (d # r'))
          else parse_literal literals s)"
| "parse_items 0 acc s = Inl JSONDecodeError"
| "parse_items (Suc n) acc s =
     rbind (parse_value n s) (\<lambda>p.
       case skip_ws (snd p) of
         [] \<Rightarrow> Inl JSONDecodeError
       | c # r \<Rightarrow>
           if c = CHR '']'' then Inr (JArr (rev (fst p # acc)), r)
           else if c = CHR '','' then parse_items n (fst p # acc) (skip_ws r)
           else Inl JSONDecodeError)"
| "parse_members 0 acc s = Inl JSONDecodeError"
| "parse_members (Suc n) acc s =
     (case s of
        [] \<Rightarrow> Inl JSONDecodeError
      | q # s' \<Rightarrow>
          if q \<noteq> CHR 0x22 then Inl JSONDecodeError
          else rbind (parse_chars [] s') (\<lambda>k.
            case skip_ws (snd k) of
              [] \<Rightarrow> Inl JSONDecodeError
            | c # r \<Rightarrow>
                if c \<noteq> CHR '':'' then Inl JSONDecodeError
                else rbind (parse_value n (skip_ws r)) (\<lambda>p.
                  case skip_ws (snd p) of
                    [] \<Rightarrow> Inl JSONDecodeError
                  | e # t \<Rightarrow>
                      let ps = (fst k, fst p) # acc in
                      if e = CHR ''}''
                      then (if distinct (map fst ps) then Inr (JObj (rev ps), t) else Inl DuplicateKey)
                      else if e = CHR '','' then parse_members n ps (skip_ws t)
                      else Inl JSONDecodeError)))"

definition load_json :: "string \<Rightarrow> json_error + json" where
  "load_json s =
     rbind (parse_value (Suc (length s)) (skip_ws s)) (\<lambda>p.
       if skip_ws (snd p) = [] then Inr (fst p) else Inl JSONDecodeError)"

section \<open>Reading back what was printed\<close>

text \<open>Values without floats and with distinct keys; the calls their parse needs.\<close>

primrec valid_json :: "json \<Rightarrow> bool" where
  "valid_json JNull = True"
| "valid_json (JBool b) = True"
| "valid_json (JInt n) = True"
| "valid_json (JFloat s) = False"
| "valid_json (JStr s) = True"
| "valid_json (JArr vs) = list_all id (map valid_json vs)"
| "valid_json (JObj ps) = (distinct (map fst ps) \<and> list_all snd (map (map_prod id valid_json) ps))"

primrec json_calls :: "json \<Rightarrow> nat" where
  "json_calls JNull = 1"
| "json_calls (JBool b) = 1"
| "json_calls (JInt n) = 1"
| "json_calls (JFloat s) = 1"
| "json_calls (JStr s) = 1"
| "json_calls (JArr vs) = Suc (sum_list (map Suc (map json_calls vs)))"
| "json_calls (JObj ps) = Suc (sum_list (map (\<lambda>p. Suc (snd p)) (map (map_prod id json_calls) ps)))"

lemma escape_chars_plain:
  "list_all (\<lambda>(c, d). d \<noteq> CHR ''u'' \<and> d \<noteq> CHR ''/'' \<and> map_of (map prod.swap escape_table) d = Some c) escape_table"
  by code_simp

lemma hex_digit_table:
  "list_all (\<lambda>n. hex_digit (''0123456789abcdef'' ! n) = Some n) [0..<16] \<and> hex_digit (CHR ''0'') = Some 0"
  by code_simp

lemma hex_digit_char: "hex_digit (hex_char n) = Some (n mod 16)"
  using hex_digit_table by (simp add: hex_char_def list_all_iff)

lemma parse_chars_escape: "parse_chars acc (raw_escape c @ s) = parse_chars (c # acc) s"
proof (cases "map_of escape_table c")
  case (Some d)
  then have "(c, d) \<in> set escape_table" by (rule map_of_SomeD)
  then have "d \<noteq> CHR ''u''" "d \<noteq> CHR ''/''" "map_of (map prod.swap escape_table) d = Some c"
    using escape_chars_plain by (auto simp: list_all_iff)
  with Some show ?thesis by (simp add: raw_escape_def)
next
  case None
  then have q: "c \<noteq> CHR 0x22" "c \<noteq> CHR 0x5C" using escape_table_quotes by auto
  have "of_char c div 16 < (16::nat)"
    using nat_of_char_less_256 [of c] by (intro less_mult_imp_div_less) simp
  then have "16 * (of_char c div 16 mod 16) + of_char c mod 16 = (of_char c :: nat)" by simp
  then show ?thesis using None q hex_digit_table
    by (simp add: raw_escape_def Let_def hex_digit_char)
qed

lemma parse_print_string: "parse_chars acc (concat (map raw_escape s) @ CHR 0x22 # rest) = Inr (rev acc @ s, rest)"
  by (induction s arbitrary: acc) (simp_all add: parse_chars_escape)

definition delimited :: "string \<Rightarrow> bool" where
  "delimited rest \<longleftrightarrow> rest = [] \<or> hd rest \<in> {CHR '','', CHR '']'', CHR ''}''}"

lemma delimiter_plain:
  "delimited rest \<Longrightarrow> takeWhile is_digit rest = [] \<and> dropWhile is_digit rest = rest
     \<and> parse_fraction rest = ([], rest) \<and> parse_exp rest = ([], rest)"
proof -
  have "\<not> is_digit (CHR '','') \<and> \<not> is_digit (CHR '']'') \<and> \<not> is_digit (CHR ''}'')" by code_simp
  moreover assume "delimited rest"
  ultimately show ?thesis
    by (cases rest) (auto simp: delimited_def parse_fraction_def parse_exp_def)
qed

lemma show_nat_leading: "hd (show_nat n) = CHR ''0'' \<Longrightarrow> n = 0"
proof (induction n rule: show_nat.induct)
  case (1 n)
  show ?case
  proof (cases "n < 10")
    case True
    then have "digit_char n = CHR ''0''" using "1.prems" by (simp add: show_nat.simps [of n])
    moreover have "digit_value (CHR ''0'') = 0" by code_simp
    ultimately have "n mod 10 = 0" using digit_value_char [of n] by simp
    with True show ?thesis by simp
  next
    case False
    then have "n div 10 = 0" using 1 by (simp add: show_nat.simps [of n])
    with False show ?thesis by simp
  qed
qed

lemma takeWhile_digits_delimited:
  "list_all is_digit s \<Longrightarrow> delimited rest \<Longrightarrow> takeWhile is_digit (s @ rest) = s \<and> dropWhile is_digit (s @ rest) = rest"
  using delimiter_plain [of rest] by (induction s) auto

lemma parse_nat_part:
  assumes "delimited rest"
  shows "parse_int_part (signed_text neg (show_nat n) @ rest) = Some (signed_text neg (show_nat n), rest)"
proof -
  obtain c ds where c: "show_nat n = c # ds" by (cases "show_nat n") auto
  have digits: "is_digit c" "list_all is_digit (c # ds)"
    using show_nat_digits [of n] c by simp_all
  have m: "\<not> is_digit (CHR ''-'')" by code_simp
  have "c = CHR ''0'' \<Longrightarrow> ds = []"
    using show_nat_leading [of n] c by (auto simp: show_nat.simps [of 0])
  then show ?thesis
    using digits m c takeWhile_digits_delimited [OF digits(2) assms]
    by (auto simp: parse_int_part_def signed_text_def Let_def)
qed

lemma show_int_signed: "show_int k = signed_text (k < 0) (show_nat (nat \<bar>k\<bar>))"
  by (simp add: show_int_def signed_text_def)

lemma int_value_show: "int_value (show_int k) = k"
proof -
  obtain c ds where c: "show_nat (nat \<bar>k\<bar>) = c # ds" by (cases "show_nat (nat \<bar>k\<bar>)") auto
  have "is_digit c" using show_nat_digits [of "nat \<bar>k\<bar>"] c by simp
  moreover have "\<not> is_digit (CHR ''-'')" by code_simp
  ultimately show ?thesis
    using nat_of_digits_show [of "nat \<bar>k\<bar>"] c
    by (auto simp: show_int_signed signed_text_def int_value_def)
qed

lemma literals_digits:
  assumes "is_digit c"
  shows "parse_literal literals (signed_text neg (c # s)) = parse_number (signed_text neg (c # s))"
proof -
  have "list_all (\<lambda>d. \<not> is_digit d) ''ntfNI-''" by code_simp
  then show ?thesis using assms by (auto simp: literals_def signed_text_def)
qed

lemma parse_print_int:
  assumes "delimited rest"
  shows "parse_literal literals (show_int k @ rest) = Inr (JInt k, rest)"
proof -
  obtain c ds where c: "show_nat (nat \<bar>k\<bar>) = c # ds" by (cases "show_nat (nat \<bar>k\<bar>)") auto
  then have "is_digit c" using show_nat_digits [of "nat \<bar>k\<bar>"] by simp
  moreover have "show_int k @ rest = signed_text (k < 0) (c # ds @ rest)"
    unfolding show_int_signed c by (simp add: signed_text_def)
  ultimately have "parse_literal literals (show_int k @ rest) = parse_number (show_int k @ rest)"
    by (metis literals_digits)
  also have "\<dots> = Inr (JInt k, rest)"
    using parse_nat_part [OF assms, of "k < 0" "nat \<bar>k\<bar>"] delimiter_plain [OF assms] int_value_show [of k]
    by (simp add: parse_number_def show_int_signed [symmetric])
  finally show ?thesis .
qed

definition opens :: "char \<Rightarrow> bool" where
  "opens c \<longleftrightarrow> \<not> is_ws c \<and> c \<noteq> CHR '']'' \<and> c \<noteq> CHR ''}''"

lemma digit_opens: "is_digit c \<Longrightarrow> opens c \<and> c \<noteq> CHR 0x22 \<and> c \<noteq> CHR ''{'' \<and> c \<noteq> CHR ''[''"
proof -
  have "list_all (\<lambda>p. opens (fst p) \<and> fst p \<noteq> CHR 0x22 \<and> fst p \<noteq> CHR ''{'' \<and> fst p \<noteq> CHR ''['') digit_table"
    by code_simp
  moreover assume "is_digit c"
  then obtain n where "(c, n) \<in> set digit_table" by (auto simp: is_digit_def dest: map_of_SomeD)
  ultimately show ?thesis by (auto simp: list_all_iff)
qed

lemma show_int_opens:
  "\<exists>c cs. show_int k = c # cs \<and> opens c \<and> c \<noteq> CHR 0x22 \<and> c \<noteq> CHR ''{'' \<and> c \<noteq> CHR ''[''"
proof -
  obtain c ds where c: "show_nat (nat \<bar>k\<bar>) = c # ds" by (cases "show_nat (nat \<bar>k\<bar>)") auto
  then have "is_digit c" using show_nat_digits [of "nat \<bar>k\<bar>"] by simp
  moreover have "opens (CHR ''-'')" by code_simp
  ultimately show ?thesis using digit_opens [of c] c by (auto simp: show_int_signed signed_text_def)
qed

lemma print_opens:
  assumes "valid_json v"
  obtains c cs where "print_json v = c # cs" and "opens c"
proof -
  have "list_all opens (''ntf[{'' @ [CHR 0x22])" by code_simp
  then have "\<exists>c cs. print_json v = c # cs \<and> opens c"
    using assms by (cases v) (auto simp: print_string_def, use show_int_opens in blast)
  then show ?thesis using that by blast
qed

lemma skip_ws_opens: "opens c \<Longrightarrow> skip_ws (c # s) = c # s"
  by (simp add: skip_ws_def opens_def)

lemma skip_ws_delims [simp]:
  "skip_ws (CHR '']'' # s) = CHR '']'' # s" "skip_ws (CHR ''}'' # s) = CHR ''}'' # s"
  "skip_ws (CHR '','' # s) = CHR '','' # s" "skip_ws (CHR '':'' # s) = CHR '':'' # s"
  "skip_ws (CHR 0x22 # s) = CHR 0x22 # s"
  by (simp_all add: skip_ws_def is_ws_def)

text \<open>What the parser does with a printed value, whatever delimiter follows.\<close>

definition reads :: "json \<Rightarrow> bool" where
  "reads v \<longleftrightarrow> (\<forall>n rest. json_calls v \<le> n \<longrightarrow> delimited rest \<longrightarrow>
     parse_value n (print_json v @ rest) = Inr (v, rest))"

lemma readsI:
  assumes "\<And>m rest. json_calls v \<le> Suc m \<Longrightarrow> delimited rest \<Longrightarrow>
    parse_value (Suc m) (print_json v @ rest) = Inr (v, rest)"
  shows "reads v"
proof -
  have "0 < json_calls v" by (cases v) simp_all
  then show ?thesis
    unfolding reads_def using assms by (metis gr0_conv_Suc less_le_trans)
qed

lemma delimited_simps [simp]:
  "delimited (CHR '','' # s)" "delimited (CHR '']'' # s)" "delimited (CHR ''}'' # s)" "delimited []"
  by (simp_all add: delimited_def)

lemma parse_print_items:
  assumes "vs \<noteq> []" and "\<And>v. v \<in> set vs \<Longrightarrow> reads v \<and> valid_json v"
    and "sum_list (map Suc (map json_calls vs)) \<le> n"
  shows "parse_items n acc (join (map print_json vs) @ CHR '']'' # rest) = Inr (JArr (rev acc @ vs), rest)"
  using assms
proof (induction vs arbitrary: acc n)
  case Nil
  then show ?case by simp
next
  case (Cons v vs)
  obtain m where n: "n = Suc m" "json_calls v \<le> m" "sum_list (map Suc (map json_calls vs)) \<le> m"
    using Cons.prems(3) by (cases n) auto
  have v: "parse_value m (print_json v @ r) = Inr (v, r)" if "delimited r" for r
    using Cons.prems(2) [of v] n(2) that by (simp add: reads_def)
  show ?case
  proof (cases vs)
    case Nil
    then show ?thesis using v n(1) by simp
  next
    case (Cons w ws)
    then have "valid_json w" using Cons.prems(2) by simp
    then obtain c cs where c: "print_json w = c # cs" "opens c" by (rule print_opens)
    have "join (map print_json (v # vs)) @ CHR '']'' # rest =
        print_json v @ CHR '','' # join (map print_json vs) @ CHR '']'' # rest"
      using Cons by simp
    moreover have "skip_ws (join (map print_json vs) @ CHR '']'' # rest) = join (map print_json vs) @ CHR '']'' # rest"
      using Cons c by (cases ws) (simp_all add: skip_ws_opens)
    moreover have "parse_items m (v # acc) (join (map print_json vs) @ CHR '']'' # rest) =
        Inr (JArr (rev (v # acc) @ vs), rest)"
      by (rule Cons.IH) (use Cons Cons.prems n(3) in auto)
    ultimately show ?thesis using v n(1) by simp
  qed
qed

definition print_member :: "string \<times> json \<Rightarrow> string" where
  "print_member p = print_string (fst p) @ CHR '':'' # print_json (snd p)"

lemma print_members: "map (\<lambda>p. print_string (fst p) @ CHR '':'' # snd p) (map (map_prod id print_json) ps) = map print_member ps"
  by (simp add: print_member_def)

lemma parse_print_members:
  assumes "ps \<noteq> []" and "\<And>p. p \<in> set ps \<Longrightarrow> reads (snd p) \<and> valid_json (snd p)"
    and "sum_list (map (\<lambda>p. Suc (json_calls (snd p))) ps) \<le> n"
    and "distinct (map fst (rev acc @ ps))"
  shows "parse_members n acc (join (map print_member ps) @ CHR ''}'' # rest) = Inr (JObj (rev acc @ ps), rest)"
  using assms
proof (induction ps arbitrary: acc n)
  case Nil
  then show ?case by simp
next
  case (Cons p ps)
  obtain m where n: "n = Suc m" "json_calls (snd p) \<le> m" "sum_list (map (\<lambda>p. Suc (json_calls (snd p))) ps) \<le> m"
    using Cons.prems(3) by (cases n) auto
  have v: "parse_value m (print_json (snd p) @ r) = Inr (snd p, r)" if "delimited r" for r
    using Cons.prems(2) [of p] n(2) that by (simp add: reads_def)
  have "valid_json (snd p)" using Cons.prems(2) by simp
  then obtain c cs where c: "print_json (snd p) = c # cs" "opens c" by (rule print_opens)
  have ws: "skip_ws (print_json (snd p) @ r) = print_json (snd p) @ r" for r
    using c by (simp add: skip_ws_opens)
  have k: "parse_chars [] (concat (map raw_escape (fst p)) @ CHR 0x22 # r) = Inr (fst p, r)" for r
    by (simp add: parse_print_string)
  show ?case
  proof (cases ps)
    case Nil
    then show ?thesis
      using v n(1) ws k Cons.prems(4)
      by (simp add: print_member_def print_string_def rev_map [symmetric])
  next
    case (Cons q qs)
    define J where "J = join (map print_member ps) @ CHR ''}'' # rest"
    have eq: "join (map print_member (p # ps)) @ CHR ''}'' # rest =
        CHR 0x22 # concat (map raw_escape (fst p)) @ CHR 0x22 # CHR '':'' # print_json (snd p) @ CHR '','' # J"
      using Cons by (simp add: J_def print_member_def print_string_def)
    have "skip_ws J = J"
      unfolding J_def using Cons by (cases qs) (simp_all add: print_member_def print_string_def)
    moreover have "parse_members m (p # acc) J = Inr (JObj (rev (p # acc) @ ps), rest)"
      unfolding J_def by (rule Cons.IH) (use Cons Cons.prems n(3) in auto)
    ultimately show ?thesis
      unfolding eq n(1) using v ws k by (simp add: Let_def)
  qed
qed

lemma reads_valid: "valid_json v \<Longrightarrow> reads v"
proof (induction v)
  case (JInt k)
  obtain c cs where "show_int k = c # cs" "opens c" "c \<noteq> CHR 0x22" "c \<noteq> CHR ''{''" "c \<noteq> CHR ''[''"
    using show_int_opens by blast
  then have "parse_value (Suc n) (show_int k @ rest) = parse_literal literals (show_int k @ rest)" for n rest
    by simp
  then show ?case
    unfolding reads_def using parse_print_int by (auto simp: Suc_le_eq gr0_conv_Suc)
next
  case (JStr s)
  then show ?case
    by (auto simp: reads_def print_string_def parse_print_string Suc_le_eq gr0_conv_Suc)
next
  case (JArr vs)
  have ok: "reads v \<and> valid_json v" if "v \<in> set vs" for v
    using JArr that by (auto simp: list_all_iff)
  show ?case
  proof (cases vs)
    case Nil
    then show ?thesis by (auto simp: reads_def Suc_le_eq gr0_conv_Suc)
  next
    case (Cons w ws)
    then have "valid_json w" using ok by simp
    then obtain c cs where c: "print_json w = c # cs" "opens c" by (rule print_opens)
    obtain ds where ds: "join (map print_json vs) = c # ds"
      using c(1) Cons by (cases ws) auto
    have "parse_value (Suc m) (print_json (JArr vs) @ rest) = Inr (JArr vs, rest)"
      if "sum_list (map Suc (map json_calls vs)) \<le> m" for m rest
    proof -
      have "parse_items m [] (join (map print_json vs) @ CHR '']'' # rest) = Inr (JArr vs, rest)"
        using parse_print_items [of vs m "[]" rest] ok that Cons by simp
      then show ?thesis
        using c(2) unfolding opens_def by (simp add: ds skip_ws_opens [OF c(2)])
    qed
    then show ?thesis by (intro readsI) simp
  qed
next
  case (JObj ps)
  have ok: "reads (snd p) \<and> valid_json (snd p)" if "p \<in> set ps" for p
    using JObj that by (cases p) (auto simp: list_all_iff)
  have keys: "distinct (map fst ps)" using JObj.prems by simp
  show ?case
  proof (cases ps)
    case Nil
    then show ?thesis by (auto simp: reads_def Suc_le_eq gr0_conv_Suc)
  next
    case (Cons q qs)
    obtain ds where ds: "join (map print_member ps) = CHR 0x22 # ds"
      using Cons by (cases qs) (auto simp: print_member_def print_string_def)
    have "parse_value (Suc m) (print_json (JObj ps) @ rest) = Inr (JObj ps, rest)"
      if "sum_list (map (\<lambda>p. Suc (json_calls (snd p))) ps) \<le> m" for m rest
    proof -
      have "parse_members m [] (join (map print_member ps) @ CHR ''}'' # rest) = Inr (JObj ps, rest)"
        using parse_print_members [of ps m "[]" rest] ok that Cons keys by simp
      then show ?thesis
        unfolding print_json.simps print_members by (simp add: ds)
    qed
    then show ?thesis by (intro readsI) (simp add: comp_def)
  qed
qed (auto simp: literals_def intro!: readsI)

text \<open>The fuel is enough: a value needs at most as many calls as it has characters.\<close>

lemma length_join: "length (join ss) = sum_list (map length ss) + (length ss - 1)"
  by (induction ss rule: join.induct) simp_all

lemma sum_list_le: "(\<And>x. x \<in> set xs \<Longrightarrow> (f x::nat) \<le> g x) \<Longrightarrow> sum_list (map f xs) \<le> sum_list (map g xs)"
  by (rule sum_list_mono)

lemma calls_length: "valid_json v \<Longrightarrow> json_calls v \<le> length (print_json v)"
proof (induction v)
  case (JInt k)
  show ?case using show_int_opens [of k] by auto
next
  case (JArr vs)
  have "sum_list (map json_calls vs) \<le> sum_list (map (length \<circ> print_json) vs)"
    by (rule sum_list_le) (use JArr in \<open>auto simp: list_all_iff\<close>)
  moreover have "sum_list (map Suc (map json_calls vs)) = sum_list (map json_calls vs) + length vs"
    by (induction vs) simp_all
  ultimately show ?case by (simp add: length_join comp_def)
next
  case (JObj ps)
  have "json_calls (snd p) \<le> length (print_json (snd p))" if "p \<in> set ps" for p
    using JObj that by (cases p) (auto simp: list_all_iff)
  then have "sum_list (map (\<lambda>p. json_calls (snd p)) ps) \<le> sum_list (map (\<lambda>p. length (print_json (snd p))) ps)"
    by (rule sum_list_le)
  also have "\<dots> \<le> sum_list (map (\<lambda>p. length (print_member p)) ps)"
    by (rule sum_list_le) (simp add: print_member_def)
  finally have "sum_list (map (\<lambda>p. json_calls (snd p)) ps) \<le> sum_list (map length (map print_member ps))"
    by (simp add: comp_def)
  moreover have "sum_list (map (\<lambda>p. Suc (snd p)) (map (map_prod id json_calls) ps)) =
      sum_list (map (\<lambda>p. json_calls (snd p)) ps) + length ps"
    by (induction ps) auto
  ultimately show ?case
    unfolding print_json.simps print_members json_calls.simps by (simp add: length_join)
qed (auto simp: print_string_def)

lemma load_print_json:
  assumes "valid_json v"
  shows "load_json (print_json v) = Inr v"
proof -
  obtain c cs where c: "print_json v = c # cs" "opens c" by (rule print_opens [OF assms])
  have "json_calls v \<le> Suc (length (print_json v))" using calls_length [OF assms] by simp
  then have "parse_value (Suc (length (print_json v))) (print_json v @ []) = Inr (v, [])"
    using reads_valid [OF assms] delimited_simps(4) unfolding reads_def by blast
  moreover have "skip_ws (print_json v) = print_json v" "skip_ws [] = []"
    using c by (simp_all add: skip_ws_opens) (simp add: skip_ws_def)
  ultimately show ?thesis
    by (simp add: load_json_def del: parse_value.simps)
qed

section \<open>Sorting keys\<close>

lemma distinct_sort_keys: "distinct (map fst (sort_key fst d)) \<longleftrightarrow> distinct (map fst d)"
  by (simp add: distinct_map)

lemma valid_sort_json: "valid_json v \<Longrightarrow> valid_json (sort_json v)"
proof (induction v)
  case (JObj ps)
  have "distinct (map fst (map (map_prod id sort_json) ps))"
    using JObj.prems by (simp add: comp_def)
  then have "distinct (map fst (sort_key fst (map (map_prod id sort_json) ps)))"
    by (simp only: distinct_sort_keys)
  moreover have "valid_json (sort_json v)" if "(k, v) \<in> set ps" for k v
    using JObj that by (fastforce simp: list_all_iff)
  ultimately show ?case by (fastforce simp: list_all_iff)
qed (auto simp: list_all_iff)

lemma load_canonical_json: "valid_json v \<Longrightarrow> load_json (canonical_json v) = Inr (sort_json v)"
  by (simp add: canonical_json_def load_print_json valid_sort_json)

lemma map_of_sort_key:
  assumes "distinct (map fst d)"
  shows "map_of (sort_key fst d) k = map_of d k"
proof -
  have "map_of (sort_key fst d) k = Some v \<longleftrightarrow> map_of d k = Some v" for v
    using assms by (simp add: map_of_eq_Some_iff distinct_sort_keys)
  then show ?thesis by (metis option.exhaust)
qed

end
