(* ===== verification/Wire_Text.thy ===== *)
theory Wire_Text
  imports Text_Format
begin

text \<open>
  The texts of the persistence layer: \<^verbatim>\<open>format(x, "f")\<close> of a decimal (without trailing
  zeros), \<^verbatim>\<open>isoformat()\<close> of dates and datetimes, and their readers. Of the layouts
  \<^verbatim>\<open>fromisoformat\<close> accepts, the one \<^verbatim>\<open>isoformat\<close> writes is modelled (with any
  separator and \<^verbatim>\<open>Z\<close>); the others do not parse here.
\<close>

section \<open>Calendar dates\<close>

definition days_of_civil :: "int \<Rightarrow> int \<Rightarrow> int \<Rightarrow> date" where
  "days_of_civil y m d =
     (let y' = (if m \<le> 2 then y - 1 else y);
          era = y' div 400;
          yoe = y' mod 400;
          doy = (153 * (if 2 < m then m - 3 else m + 9) + 2) div 5 + d - 1;
          doe = yoe * 365 + yoe div 4 - yoe div 100 + doy
      in era * 146097 + doe - 719468)"

definition year_start :: "int \<Rightarrow> int" where
  "year_start y = 365 * y + y div 4 - y div 100"

definition year_of_era_day :: "int \<Rightarrow> int" where
  "year_of_era_day x = (x - x div 1460 + x div 36524 - x div 146096) div 365"

text \<open>
  An era is split into centuries of 36524 days and four-year blocks of 1461; within a block the year
  is the number of whole years of 365 days, at most three.
\<close>

lemma year_of_era_day_split:
  assumes x: "x = 36524 * c + (1461 * k + v)" and c: "0 \<le> c" "c \<le> 3" and k: "0 \<le> k" "k \<le> 24"
    and v: "0 \<le> v" "v \<le> 1460" and r: "1461 * k + v < 36524"
  shows "year_of_era_day x = 100 * c + 4 * k + min (v div 365) 3"
proof -
  define e where "e = (24 * c + k + v) div 1460"
  have "x = 1460 * (25 * c + k) + (24 * c + k + v)" using x by simp
  then have a: "x div 1460 = 25 * c + k + e"
    unfolding e_def by (metis add.commute div_mult_self2 zero_neq_numeral)
  have b: "x div 36524 = c" using int_div_pos_eq [OF x] k v r by simp
  have "0 \<le> x" "x < 146096" using x c k v r by linarith+
  then have d: "x div 146096 = 0" by simp
  have "x - x div 1460 + x div 36524 - x div 146096 = 365 * (100 * c + 4 * k) + (v - e)"
    unfolding a b d using x by simp
  then have y: "year_of_era_day x = 100 * c + 4 * k + (v - e) div 365"
    unfolding year_of_era_day_def by (metis add.commute div_mult_self2 zero_neq_numeral)
  have "(v - e) div 365 = min (v div 365) 3"
  proof (cases "24 * c + k + v < 1460")
    case True
    then have "e = 0" "v < 1460" unfolding e_def using c k v by auto
    then have "v div 365 \<le> 3" using zdiv_mono1 [of v 1459 365] by simp
    with \<open>e = 0\<close> show ?thesis by simp
  next
    case False
    have "24 * c + k + v = 1460 * 1 + (24 * c + k + v - 1460)" by simp
    then have "e = 1" unfolding e_def by (rule int_div_pos_eq) (use False c k v in linarith)+
    have "1364 \<le> v" using False c k by linarith
    with \<open>e = 1\<close> have "3 \<le> (v - e) div 365" "(v - e) div 365 \<le> 3" "3 \<le> v div 365"
      using v zdiv_mono1 [of 1363 "v - e" 365] zdiv_mono1 [of "v - e" 1459 365] zdiv_mono1 [of 1364 v 365]
      by simp_all
    then show ?thesis by (simp add: min_def)
  qed
  with y show ?thesis by simp
qed

lemma year_of_era_day:
  assumes "0 \<le> x" and "x \<le> 146096"
  shows "0 \<le> year_of_era_day x \<and> year_of_era_day x \<le> 399
    \<and> year_start (year_of_era_day x) \<le> x \<and> x - year_start (year_of_era_day x) \<le> 365"
proof (cases "x = 146096")
  case True
  then show ?thesis by (simp add: year_of_era_day_def year_start_def)
next
  case False
  define c where "c = x div 36524"
  define k where "k = x mod 36524 div 1461"
  define v where "v = x mod 36524 mod 1461"
  define m where "m = min (v div 365) 3"
  have x: "x = 36524 * c + (1461 * k + v)" unfolding c_def k_def v_def by simp
  have c: "0 \<le> c" "c \<le> 3" unfolding c_def using assms False by auto
  have r: "0 \<le> x mod 36524" "x mod 36524 < 36524" by simp_all
  have k: "0 \<le> k" "k \<le> 24" unfolding k_def using r zdiv_mono1 [of "x mod 36524" 36523 1461] by simp_all
  have v: "0 \<le> v" "v \<le> 1460" unfolding v_def by simp_all
  have lt: "1461 * k + v < 36524" unfolding k_def v_def using r by simp
  have y: "year_of_era_day x = 100 * c + (4 * k + m)"
    using year_of_era_day_split [OF x c k v lt] by (simp add: m_def)
  have m: "0 \<le> m" "m \<le> 3" "0 \<le> v - 365 * m" "v - 365 * m \<le> 365"
    unfolding m_def using v pos_imp_zdiv_nonneg_iff [of 365 v] mult_div_mod_eq [of 365 v]
      pos_mod_sign [of 365 v] pos_mod_bound [of 365 v]
    by (auto simp: min_def)
  have q: "4 * k + m < 100" using k m by simp
  have "100 * c + (4 * k + m) = 4 * (25 * c + k) + m" by simp
  then have "(100 * c + (4 * k + m)) div 4 = 25 * c + k"
    by (rule int_div_pos_eq) (use m in simp_all)
  moreover have "(100 * c + (4 * k + m)) div 100 = c"
    by (rule int_div_pos_eq [OF refl]) (use k m q in simp_all)
  ultimately have "year_start (year_of_era_day x) = 36524 * c + 1461 * k + 365 * m"
    unfolding y year_start_def by simp
  then show ?thesis using y c k m x by linarith
qed

lemma civil_parts:
  assumes "civil_of_days d = (y, m, dd)"
  shows "1 \<le> m \<and> m \<le> 12 \<and> 1 \<le> dd \<and> dd \<le> 31 \<and> days_of_civil y m dd = d"
proof -
  define z where "z = d + 719468"
  define era where "era = z div 146097"
  define doe where "doe = z mod 146097"
  define yoe where "yoe = year_of_era_day doe"
  define doy where "doy = doe - year_start yoe"
  define mp where "mp = (5 * doy + 2) div 153"
  define day where "day = doy - (153 * mp + 2) div 5 + 1"
  define month where "month = (if mp < 10 then mp + 3 else mp - 9)"
  have "civil_of_days d = (yoe + era * 400 + (if month \<le> 2 then 1 else 0), month, day)"
    by (simp only: civil_of_days_def Let_def z_def era_def doe_def yoe_def doy_def mp_def day_def
      month_def year_of_era_day_def year_start_def)
  then have c: "y = yoe + era * 400 + (if month \<le> 2 then 1 else 0)" "m = month" "dd = day"
    using assms by simp_all
  have "0 \<le> doe" "doe \<le> 146096" unfolding doe_def by simp_all
  then have yoe: "0 \<le> yoe" "yoe \<le> 399" "0 \<le> doy" "doy \<le> 365"
    using year_of_era_day unfolding yoe_def doy_def by force+
  have mp: "0 \<le> mp" "mp \<le> 11" unfolding mp_def using yoe zdiv_mono1 [of "5 * doy + 2" 1827 153] by simp_all
  define q where "q = (153 * mp + 2) div 5"
  have a: "153 * mp \<le> 5 * doy + 2" "5 * doy + 2 < 153 * mp + 153"
    unfolding mp_def using mult_div_mod_eq [of 153 "5 * doy + 2"] pos_mod_sign [of 153 "5 * doy + 2"]
      pos_mod_bound [of 153 "5 * doy + 2"] by linarith+
  have b: "5 * q \<le> 153 * mp + 2" "153 * mp + 2 < 5 * q + 5"
    unfolding q_def using mult_div_mod_eq [of 5 "153 * mp + 2"] pos_mod_sign [of 5 "153 * mp + 2"]
      pos_mod_bound [of 5 "153 * mp + 2"] by linarith+
  have "5 * q \<le> 5 * doy + 4" using a(1) b(1) by linarith
  moreover have "5 * doy \<le> 5 * q + 154" using a(2) b(2) by linarith
  ultimately have "q \<le> doy" "doy - q \<le> 30" by presburger+
  then have day: "1 \<le> day" "day \<le> 31" unfolding day_def q_def [symmetric] by linarith+
  have y': "(if month \<le> 2 then y - 1 else y) = yoe + era * 400" using c(1) by simp
  have mp': "(if 2 < month then month - 3 else month + 9) = mp" unfolding month_def using mp by auto
  have "era * 146097 + doe = z" unfolding era_def doe_def by simp
  then have "days_of_civil y m dd = d"
    using yoe unfolding days_of_civil_def c(2,3) y' mp'
    by (simp add: Let_def day_def z_def doy_def year_start_def)
  then show ?thesis using c day mp unfolding month_def by auto
qed

text \<open>Fixed-width fields.\<close>

definition two_digits :: "int \<Rightarrow> string" where
  "two_digits n = pad_left 2 (show_digits n)"

definition take_digits :: "nat \<Rightarrow> string \<Rightarrow> (int \<times> string) option" where
  "take_digits k s =
     (if length (take k s) = k \<and> list_all is_digit (take k s)
      then Some (int (nat_of_digits (take k s)), drop k s) else None)"

definition expect :: "char \<Rightarrow> string \<Rightarrow> string option" where
  "expect c s = (case s of d # r \<Rightarrow> if d = c then Some r else None | [] \<Rightarrow> None)"

lemma expect_simp [simp]: "expect c (c # r) = Some r"
  by (simp add: expect_def)

lemma take_digits_pad:
  assumes "0 \<le> n" and "n < 10 ^ k" and "0 < k"
  shows "take_digits k (pad_left k (show_digits n) @ rest) = Some (n, rest)"
proof -
  have "nat n < 10 ^ k" using assms by (simp add: nat_less_iff)
  then have "length (pad_left k (show_nat (nat n))) = k" using assms(3) by (rule length_pad_left)
  then show ?thesis
    using assms(1) pad_left_digits [of k "nat n"] nat_of_digits_pad [of k "nat n"]
    by (simp add: take_digits_def show_digits_nat [symmetric])
qed

definition parse_date :: "string \<Rightarrow> (date \<times> string) option" where
  "parse_date s =
     Option.bind (take_digits 4 s) (\<lambda>(y, s1).
     Option.bind (expect (CHR ''-'') s1) (\<lambda>s2.
     Option.bind (take_digits 2 s2) (\<lambda>(m, s3).
     Option.bind (expect (CHR ''-'') s3) (\<lambda>s4.
     Option.bind (take_digits 2 s4) (\<lambda>(d, s5).
     let day = days_of_civil y m d in
     if civil_of_days day = (y, m, d) \<and> 1 \<le> y then Some (day, s5) else None)))))"

definition date_fromisoformat :: "string \<Rightarrow> date option" where
  "date_fromisoformat s = (case parse_date s of Some (d, []) \<Rightarrow> Some d | _ \<Rightarrow> None)"

definition iso_year :: "date \<Rightarrow> bool" where
  "iso_year d \<longleftrightarrow> 1 \<le> fst (civil_of_days d) \<and> fst (civil_of_days d) \<le> 9999"

lemma parse_iso_date:
  assumes "iso_year d"
  shows "parse_date (iso_date d @ rest) = Some (d, rest)"
proof -
  obtain y m dd where c: "civil_of_days d = (y, m, dd)" by (cases "civil_of_days d") auto
  have b: "1 \<le> y" "y \<le> 9999" using assms c by (simp_all add: iso_year_def)
  have p: "1 \<le> m" "m \<le> 12" "1 \<le> dd" "dd \<le> 31" "days_of_civil y m dd = d"
    using civil_parts [OF c] by simp_all
  show ?thesis
    using b p c by (simp add: iso_date_code parse_date_def take_digits_pad Let_def)
qed

section \<open>Clock times and offsets\<close>

text \<open>Microseconds of a day (or of an offset) as \<^verbatim>\<open>HH:MM:SS[.ffffff]\<close>.\<close>

definition micros_text :: "int \<Rightarrow> string" where
  "micros_text us = (if us = 0 then [] else CHR ''.'' # pad_left 6 (show_digits us))"

definition clock_text :: "int \<Rightarrow> string" where
  "clock_text t =
     two_digits (t div 3600000000) @ CHR '':'' # two_digits (t div 60000000 mod 60) @ CHR '':'' #
     two_digits (t div 1000000 mod 60) @ micros_text (t mod 1000000)"

text \<open>An offset leaves out seconds that are zero.\<close>

definition offset_body :: "int \<Rightarrow> string" where
  "offset_body t =
     two_digits (t div 3600000000) @ CHR '':'' # two_digits (t div 60000000 mod 60) @
     (if t mod 60000000 = 0 then []
      else CHR '':'' # two_digits (t div 1000000 mod 60) @ micros_text (t mod 1000000))"

definition offset_text :: "int option \<Rightarrow> string" where
  "offset_text z =
     (case z of None \<Rightarrow> []
      | Some k \<Rightarrow> (if k < 0 then CHR ''-'' else CHR ''+'') # offset_body \<bar>k\<bar>)"

definition local_micros :: "datetime \<Rightarrow> int" where
  "local_micros d = dt_micros d + (case dt_offset d of None \<Rightarrow> 0 | Some k \<Rightarrow> k)"

definition isoformat :: "datetime \<Rightarrow> string" where
  "isoformat d =
     iso_date (day_of (local_micros d)) @ CHR ''T'' # clock_text (local_micros d mod micros_per_day) @
     offset_text (dt_offset d)"

definition parse_micros :: "string \<Rightarrow> (int \<times> string) option" where
  "parse_micros s =
     (case expect (CHR ''.'') s of
        None \<Rightarrow> Some (0, s)
      | Some r \<Rightarrow> take_digits 6 r)"

text \<open>Seconds and a fraction: always present in a time, optional in an offset.\<close>

definition parse_seconds :: "string \<Rightarrow> (int \<times> string) option" where
  "parse_seconds s =
     Option.bind (expect (CHR '':'') s) (\<lambda>s1.
     Option.bind (take_digits 2 s1) (\<lambda>(sec, s2).
     Option.bind (parse_micros s2) (\<lambda>(us, s3).
     if sec < 60 then Some (sec * 1000000 + us, s3) else None)))"

definition parse_minutes :: "string \<Rightarrow> (int \<times> string) option" where
  "parse_minutes s =
     Option.bind (take_digits 2 s) (\<lambda>(h, s1).
     Option.bind (expect (CHR '':'') s1) (\<lambda>s2.
     Option.bind (take_digits 2 s2) (\<lambda>(m, s3).
     if h < 24 \<and> m < 60 then Some (h * 3600000000 + m * 60000000, s3) else None)))"

definition parse_clock :: "string \<Rightarrow> (int \<times> string) option" where
  "parse_clock s =
     Option.bind (parse_minutes s) (\<lambda>(a, s1).
     Option.bind (parse_seconds s1) (\<lambda>(b, s2). Some (a + b, s2)))"

definition parse_offset_body :: "string \<Rightarrow> int option" where
  "parse_offset_body s =
     Option.bind (parse_minutes s) (\<lambda>(a, s1).
     if s1 = [] then Some a
     else Option.bind (parse_seconds s1) (\<lambda>(b, s2). if s2 = [] then Some (a + b) else None))"

definition parse_offset :: "string \<Rightarrow> int option option" where
  "parse_offset s =
     (case s of
        [] \<Rightarrow> Some None
      | c # r \<Rightarrow>
          if c = CHR ''Z'' \<and> r = [] then Some (Some 0)
          else if c = CHR ''+'' then map_option Some (parse_offset_body r)
          else if c = CHR ''-'' then map_option (\<lambda>k. Some (- k)) (parse_offset_body r)
          else None)"

definition datetime_fromisoformat :: "string \<Rightarrow> datetime option" where
  "datetime_fromisoformat s =
     Option.bind (parse_date s) (\<lambda>(day, s1).
     case s1 of
       [] \<Rightarrow> Some \<lparr>dt_micros = day * micros_per_day, dt_offset = None\<rparr>
     | _ # s2 \<Rightarrow>
         Option.bind (parse_clock s2) (\<lambda>(t, s3).
         Option.bind (parse_offset s3) (\<lambda>z.
         Some \<lparr>dt_micros = day * micros_per_day + t - (case z of None \<Rightarrow> 0 | Some k \<Rightarrow> k), dt_offset = z\<rparr>)))"

text \<open>A value of the library's range: a year it can print, an offset of less than a day.\<close>

definition valid_datetime :: "datetime \<Rightarrow> bool" where
  "valid_datetime d \<longleftrightarrow> iso_year (day_of (local_micros d))
     \<and> (case dt_offset d of None \<Rightarrow> True | Some k \<Rightarrow> \<bar>k\<bar> < micros_per_day)"

lemma take_two [simp]:
  "0 \<le> n \<Longrightarrow> n < 100 \<Longrightarrow> take_digits 2 (two_digits n @ s) = Some (n, s)"
  using take_digits_pad [of n 2 s] by (simp add: two_digits_def)

lemma clock_split:
  assumes "0 \<le> t" and "t < micros_per_day"
  shows "0 \<le> t div 3600000000" and "t div 3600000000 < 24"
    and "t div 3600000000 * 3600000000 + t div 60000000 mod 60 * 60000000
      + (t div 1000000 mod 60 * 1000000 + t mod 1000000) = t"
    and "t mod 60000000 = t div 1000000 mod 60 * 1000000 + t mod 1000000"
proof -
  define s where "s = t div 1000000"
  define us where "us = t mod 1000000"
  have t: "t = s * 1000000 + us" "0 \<le> us" "us < 1000000" unfolding s_def us_def by simp_all
  define m where "m = s div 60"
  have m: "t div 60000000 = m"
    unfolding m_def s_def by (simp add: zdiv_zmult2_eq [symmetric])
  have h: "t div 3600000000 = m div 60"
    unfolding m [symmetric] by (simp add: zdiv_zmult2_eq [symmetric])
  have s: "s = m * 60 + s mod 60" unfolding m_def by simp
  have mm: "m = m div 60 * 60 + m mod 60" by simp
  show "t div 3600000000 * 3600000000 + t div 60000000 mod 60 * 60000000
      + (t div 1000000 mod 60 * 1000000 + t mod 1000000) = t"
    unfolding h m s_def [symmetric] us_def [symmetric] using t(1) s mm by linarith
  have "t mod 60000000 = t - m * 60000000" using mult_div_mod_eq [of 60000000 t] m by simp
  then show "t mod 60000000 = t div 1000000 mod 60 * 1000000 + t mod 1000000"
    unfolding s_def [symmetric] us_def [symmetric] using t(1) s by linarith
  show "0 \<le> t div 3600000000" using assms(1) by (simp add: pos_imp_zdiv_nonneg_iff)
  show "t div 3600000000 < 24"
    using zdiv_mono1 [of t 86399999999 3600000000] assms(2) by (simp add: micros_per_day_def)
qed

definition undotted :: "string \<Rightarrow> bool" where
  "undotted s \<longleftrightarrow> expect (CHR ''.'') s = None"

lemma parse_micros_text:
  assumes "undotted rest" and "0 \<le> us" and "us < 1000000"
  shows "parse_micros (micros_text us @ rest) = Some (us, rest)"
  using assms take_digits_pad [of us 6 rest]
  by (auto simp: parse_micros_def micros_text_def undotted_def)

lemma parse_seconds_text:
  assumes "undotted rest"
  shows "parse_seconds (CHR '':'' # two_digits (t div 1000000 mod 60) @ micros_text (t mod 1000000) @ rest) =
    Some (t div 1000000 mod 60 * 1000000 + t mod 1000000, rest)"
proof -
  have "t div 1000000 mod 60 < 100" using pos_mod_bound [of 60 "t div 1000000"] by simp
  then show ?thesis
    using assms by (simp add: parse_seconds_def parse_micros_text)
qed

lemma parse_minutes_text:
  assumes "0 \<le> t" and "t < micros_per_day"
  shows "parse_minutes (two_digits (t div 3600000000) @ CHR '':'' # two_digits (t div 60000000 mod 60) @ rest) =
    Some (t div 3600000000 * 3600000000 + t div 60000000 mod 60 * 60000000, rest)"
proof -
  have "t div 60000000 mod 60 < 100" using pos_mod_bound [of 60 "t div 60000000"] by simp
  then show ?thesis
    using clock_split(1,2) [OF assms] by (simp add: parse_minutes_def)
qed

lemma parse_clock_text:
  assumes "0 \<le> t" and "t < micros_per_day" and "undotted rest"
  shows "parse_clock (clock_text t @ rest) = Some (t, rest)"
proof -
  have "clock_text t @ rest = two_digits (t div 3600000000) @ CHR '':'' # two_digits (t div 60000000 mod 60) @
      CHR '':'' # two_digits (t div 1000000 mod 60) @ micros_text (t mod 1000000) @ rest"
    by (simp only: clock_text_def append_assoc append_Cons)
  then show ?thesis
    by (simp only: parse_clock_def parse_minutes_text [OF assms(1,2)] parse_seconds_text [OF assms(3)]
      Option.bind.simps split_conv clock_split(3) [OF assms(1,2)])
qed

lemma parse_offset_body_text:
  assumes "0 \<le> t" and "t < micros_per_day"
  shows "parse_offset_body (offset_body t) = Some t"
proof (cases "t mod 60000000 = 0")
  case True
  then have "t div 3600000000 * 3600000000 + t div 60000000 mod 60 * 60000000 = t"
    using clock_split(3,4) [OF assms] by linarith
  then show ?thesis
    unfolding parse_offset_body_def offset_body_def if_P [OF True] parse_minutes_text [OF assms]
    by simp
next
  case False
  define a where "a = t div 3600000000 * 3600000000 + t div 60000000 mod 60 * 60000000"
  define b where "b = t div 1000000 mod 60 * 1000000 + t mod 1000000"
  let ?r = "CHR '':'' # two_digits (t div 1000000 mod 60) @ micros_text (t mod 1000000)"
  have "undotted []" by (simp add: undotted_def expect_def)
  then have "parse_seconds ?r = Some (b, [])"
    using parse_seconds_text [of "[]" t] by (simp only: append_Nil2 b_def)
  moreover have "parse_minutes (offset_body t) = Some (a, ?r)"
    unfolding offset_body_def if_not_P [OF False] a_def by (rule parse_minutes_text [OF assms])
  moreover have "a + b = t" using clock_split(3) [OF assms] by (simp only: a_def b_def)
  ultimately show ?thesis by (simp only: parse_offset_body_def Option.bind.simps split_conv) simp
qed

lemma parse_offset_text:
  assumes "case z of None \<Rightarrow> True | Some k \<Rightarrow> \<bar>k\<bar> < micros_per_day"
  shows "parse_offset (offset_text z) = Some z"
proof (cases z)
  case None
  then show ?thesis by (simp add: parse_offset_def offset_text_def)
next
  case (Some k)
  have "parse_offset_body (offset_body \<bar>k\<bar>) = Some \<bar>k\<bar>"
    by (rule parse_offset_body_text) (use assms Some in simp_all)
  then show ?thesis using Some by (cases "k < 0") (simp_all add: parse_offset_def offset_text_def)
qed

lemma undotted_offset: "undotted (offset_text z)"
  by (cases z) (auto simp: undotted_def offset_text_def expect_def)

text \<open>A printed datetime reads back as itself, offset included.\<close>

lemma fromisoformat_isoformat:
  assumes "valid_datetime d"
  shows "datetime_fromisoformat (isoformat d) = Some d"
proof -
  define l where "l = local_micros d"
  have pos: "(0::int) < micros_per_day" by (simp add: micros_per_day_def)
  have clock: "parse_clock (clock_text (l mod micros_per_day) @ offset_text (dt_offset d)) =
      Some (l mod micros_per_day, offset_text (dt_offset d))"
    using pos by (intro parse_clock_text undotted_offset) simp_all
  have date: "parse_date (iso_date (day_of l) @ rest) = Some (day_of l, rest)" for rest
    using assms by (intro parse_iso_date) (simp add: valid_datetime_def l_def)
  have "parse_offset (offset_text (dt_offset d)) = Some (dt_offset d)"
    using assms by (intro parse_offset_text) (simp add: valid_datetime_def)
  moreover have "day_of l * micros_per_day + l mod micros_per_day = l"
    by (simp add: day_of_def)
  ultimately show ?thesis
    by (simp add: isoformat_def datetime_fromisoformat_def l_def [symmetric] clock date)
      (simp add: l_def local_micros_def)
qed

lemma fromisoformat_date: "iso_year d \<Longrightarrow> date_fromisoformat (iso_date d) = Some d"
  using parse_iso_date [of d "[]"] by (simp add: date_fromisoformat_def)

section \<open>Decimals\<close>

text \<open>
  \<^verbatim>\<open>format(x, "f")\<close> of a finite decimal: as many places as its value needs. (A Python
  decimal also remembers trailing zeros, which the model's values do not.)
\<close>

function places :: "int \<Rightarrow> nat" where
  "places d = (if d \<le> 1 \<or> gcd d 10 = 1 then 0 else Suc (places (d div gcd d 10)))"
  by pat_completeness auto
termination
proof (relation "measure nat")
  fix d :: int
  assume "\<not> (d \<le> 1 \<or> gcd d 10 = 1)"
  then have d: "1 < d" "gcd d 10 \<noteq> 1" by auto
  moreover have "gcd d 10 \<noteq> 0" using d by simp
  moreover have "0 \<le> gcd d 10" by simp
  ultimately have "1 < gcd d 10" by linarith
  then have "d div gcd d 10 < d" using d(1) by (intro int_div_less_self) simp_all
  then show "(d div gcd d 10, d) \<in> measure nat" using d(1) by simp
qed simp

declare places.simps [simp del]

definition decimal_text :: "rat \<Rightarrow> string" where
  "decimal_text x =
     (case quotient_of x of (n, d) \<Rightarrow>
        let k = places d; a = \<bar>n\<bar> * (10 ^ k div d)
        in signed_text (n < 0)
             (if k = 0 then show_digits a
              else show_digits (a div 10 ^ k) @ CHR ''.'' # pad_left k (show_digits (a mod 10 ^ k))))"

definition is_decimal :: "rat \<Rightarrow> bool" where
  "is_decimal x \<longleftrightarrow> (\<exists>n j. x = of_int n / 10 ^ j)"

lemma places_dvd: "1 \<le> d \<Longrightarrow> d dvd 10 ^ j \<Longrightarrow> d dvd 10 ^ places d"
proof (induction d rule: places.induct)
  case (1 d)
  show ?case
  proof (cases "d \<le> 1 \<or> gcd d 10 = 1")
    case True
    have "d = 1"
    proof (cases "d \<le> 1")
      case False
      then have "coprime d 10" using True by (simp add: coprime_iff_gcd_eq_1)
      then have "coprime d (10 ^ j)" by simp
      then have "is_unit d" using "1.prems"(2) by (meson coprime_common_divisor dvd_refl)
      then show ?thesis using "1.prems"(1) by simp
    qed (use "1.prems" in simp)
    then show ?thesis by simp
  next
    case False
    define g where "g = gcd d 10"
    have d: "d = g * (d div g)" unfolding g_def by simp
    have g: "g dvd 10" unfolding g_def by simp
    have "0 < g" unfolding g_def using "1.prems"(1) by simp
    have le: "1 \<le> d div g"
      using "1.prems"(1) d \<open>0 < g\<close> by (metis int_one_le_iff_zero_less zero_less_mult_pos)
    have "d div g dvd 10 ^ j" using "1.prems"(2) d by (metis dvd_mult_right)
    then have "d div g dvd 10 ^ places (d div g)" using "1.IH" False le unfolding g_def by blast
    then have "g * (d div g) dvd 10 * 10 ^ places (d div g)" using g by (rule mult_dvd_mono [rotated])
    moreover have "places d = Suc (places (d div g))"
      using False by (simp add: places.simps [of d] g_def)
    ultimately show ?thesis using d by simp
  qed
qed

lemma quotient_decimal:
  assumes "is_decimal x" and "quotient_of x = (n, d)"
  shows "1 \<le> d \<and> d dvd 10 ^ places d"
proof -
  obtain m j where x: "x = of_int m / 10 ^ j" using assms(1) by (auto simp: is_decimal_def)
  have q: "x = of_int n / of_int d" "0 < d" "coprime n d"
    using assms(2) quotient_of_div quotient_of_denom_pos quotient_of_coprime by blast+
  have "of_int n * (10::rat) ^ j = of_int (m * d)"
    using x q(1,2) by (simp add: field_simps)
  then have "(of_int (n * 10 ^ j) :: rat) = of_int (m * d)" by simp
  then have "n * 10 ^ j = m * d" by (simp only: of_int_eq_iff)
  then have "d dvd n * 10 ^ j" by simp
  then have "d dvd 10 ^ j" using q(3) by (simp add: coprime_commute coprime_dvd_mult_right_iff)
  then show ?thesis using q(2) places_dvd [of d j] by simp
qed

lemma is_decimal_code [code]:
  "is_decimal x \<longleftrightarrow> (case quotient_of x of (n, d) \<Rightarrow> d dvd 10 ^ places d)"
proof -
  obtain n d where q: "quotient_of x = (n, d)" by force
  have "is_decimal x" if dvd: "d dvd 10 ^ places d"
  proof -
    have d: "0 < d" "x = of_int n / of_int d"
      using quotient_of_denom_pos [OF q] quotient_of_div [OF q] by simp_all
    obtain c where c: "10 ^ places d = d * c" using dvd by blast
    then have "(10::rat) ^ places d = of_int d * of_int c"
      by (metis of_int_mult of_int_numeral of_int_power)
    moreover have "c \<noteq> 0" using c by auto
    ultimately have "x = of_int (n * c) / 10 ^ places d" using d by simp
    then show ?thesis unfolding is_decimal_def by blast
  qed
  then show ?thesis using quotient_decimal [OF _ q] q by auto
qed

lemma parse_whole:
  assumes "list_all is_digit w" and "w \<noteq> []"
  shows "parse_decimal (signed_text neg w) =
    Some (Some (if neg then - of_nat (nat_of_digits w) else of_nat (nat_of_digits w)))"
proof -
  have chars: "\<not> is_space (CHR ''-'')" by code_simp
  have "list_all (\<lambda>c. \<not> is_space c \<and> c \<noteq> CHR ''_'') (signed_text neg w)"
    using assms chars digit_props by (auto simp: signed_text_def list_all_iff)
  then have norm: "filter (\<lambda>c. c \<noteq> CHR ''_'') (strip (signed_text neg w)) = signed_text neg w"
    using strip_no_space [of "signed_text neg w"] by (simp add: list_all_iff)
  obtain c w' where w: "w = c # w'" using assms(2) by (cases w) auto
  then have "is_digit c" using assms(1) by simp
  then have sign: "split_sign (signed_text neg w) = (neg, w)"
    using digit_props [of c] w by (simp add: split_sign_def signed_text_def)
  have whole: "takeWhile is_digit w = w" "dropWhile is_digit w = []"
    using assms(1) by (simp_all add: list_all_iff)
  show ?thesis
    unfolding parse_decimal_def norm sign by (simp add: whole assms(2) parse_exponent_def pow10_def)
qed

lemma parse_decimal_text:
  assumes "is_decimal x"
  shows "parse_decimal (decimal_text x) = Some (Some x)"
proof -
  obtain n d where q: "quotient_of x = (n, d)" by force
  define k where "k = places d"
  define a where "a = \<bar>n\<bar> * (10 ^ k div d)"
  have d: "1 \<le> d" "d dvd 10 ^ k" using quotient_decimal [OF assms q] by (simp_all add: k_def)
  have "0 \<le> (10::int) ^ k div d" using d(1) by (simp add: pos_imp_zdiv_nonneg_iff)
  then have a: "0 \<le> a" unfolding a_def by simp
  have "of_int (10 ^ k div d) * (of_int d :: rat) = 10 ^ k"
    using d(2) by (metis dvd_div_mult_self of_int_mult of_int_numeral of_int_power)
  then have "of_int a * (of_int d :: rat) = of_int \<bar>n\<bar> * 10 ^ k"
    unfolding a_def of_int_mult by (simp add: mult.assoc)
  moreover have "(of_int \<bar>n\<bar> :: rat) = \<bar>x\<bar> * of_int d"
    using d(1) quotient_of_div [OF q] by (simp add: abs_divide)
  ultimately have "of_int a * (of_int d :: rat) = \<bar>x\<bar> * 10 ^ k * of_int d" by simp
  then have "of_int a = \<bar>x\<bar> * 10 ^ k" using d(1) by (metis mult_right_cancel not_one_le_zero of_int_eq_0_iff)
  then have val: "of_int a / 10 ^ k = \<bar>x\<bar>" by simp
  have neg: "n < 0 \<longleftrightarrow> x < 0"
    using d(1) quotient_of_div [OF q] by (simp add: divide_less_0_iff)
  have show_a: "show_digits m = show_nat (nat m)" for m by (simp add: show_digits_nat)
  show ?thesis
  proof (cases "k = 0")
    case True
    then have "decimal_text x = signed_text (n < 0) (show_nat (nat a))"
      by (simp add: decimal_text_def q Let_def k_def [symmetric] a_def show_a)
    then show ?thesis
      using parse_whole [OF show_nat_digits show_nat_nonempty] val a neg True
      by (auto simp: nat_of_digits_show abs_if)
  next
    case False
    define w where "w = show_nat (nat (a div 10 ^ k))"
    define f where "f = pad_left k (show_nat (nat (a mod 10 ^ k)))"
    have t: "decimal_text x = signed_text (n < 0) (w @ CHR ''.'' # f)"
      using False by (simp add: decimal_text_def q Let_def k_def [symmetric] a_def [symmetric] show_a w_def f_def)
    have lt: "nat (a mod 10 ^ k) < 10 ^ k" by (simp add: nat_less_iff)
    have len: "length f = k" unfolding f_def by (rule length_pad_left [OF lt]) (use False in simp)
    have "int (nat_of_digits (w @ f)) = a div 10 ^ k * 10 ^ k + a mod 10 ^ k"
      unfolding nat_of_digits_append len unfolding w_def f_def nat_of_digits_show nat_of_digits_pad
      using a by (simp add: pos_imp_zdiv_nonneg_iff)
    then have "int (nat_of_digits (w @ f)) = a" by (simp only: div_mult_mod_eq)
    then have "(of_nat (nat_of_digits (w @ f)) :: rat) = of_int a"
      by (metis of_int_of_nat_eq)
    moreover have "pow10 (- int k) = 1 / 10 ^ k" by (rule pow10_neg)
    moreover have "list_all is_digit w" "list_all is_digit f" "w \<noteq> []"
      unfolding w_def f_def by (simp_all add: show_nat_digits pad_left_digits)
    ultimately show ?thesis
      using parse_fixed_point [of w f "n < 0"] val neg by (auto simp: t len Let_def abs_if)
  qed
qed

lemma grid_is_decimal: "on_grid x \<Longrightarrow> is_decimal x"
  unfolding is_decimal_def on_grid_iff by blast

end
