(* ===== verification/Codec.thy ===== *)
theory Codec
  imports Events Json Wire_Text
begin

text \<open>
  \<open>weatherbot/persistence/codec.py\<close>: the versioned JSON encoding of ledger events, its decoder
  with the schema checks (each object must have exactly its keys), the hash chain and the metadata
  codec. SHA-256 is the parameter \<open>sha\<close>; the decoder rebuilds every value through its
  constructor. Labels of array entries leave out the index.
\<close>

definition event_schema_version :: int where
  "event_schema_version = 1"

section \<open>Encoding\<close>

fun event_type :: "event_body \<Rightarrow> string" where
  "event_type (AccountOpened _) = ''account_opened''"
| "event_type (OrderIntentCreated _) = ''order_intent_created''"
| "event_type (OrderSubmitted _ _) = ''order_submitted''"
| "event_type (OrderAcknowledged _) = ''order_acknowledged''"
| "event_type (FillReceived _) = ''fill_received''"
| "event_type (OrderRejected _ _) = ''order_rejected''"
| "event_type (OrderCancelled _ _) = ''order_cancelled''"
| "event_type (OrderOutcomeUnknown _ _) = ''order_outcome_unknown''"
| "event_type (WeatherObservationRecorded _) = ''weather_observation_recorded''"
| "event_type (MarketResolutionEvidenceRecorded _) = ''market_resolution_evidence_recorded''"
| "event_type (MarketResolved _) = ''market_resolved''"
| "event_type (PositionSettled _ _ _) = ''position_settled''"
| "event_type (RiskScopeRegistered _) = ''risk_scope_registered''"
| "event_type (PortfolioValuationRecorded _) = ''portfolio_valuation_recorded''"

definition money_to_data :: "money \<Rightarrow> json" where
  "money_to_data m = JObj [(''amount'', JStr (fmt6 (amount m))), (''currency'', JStr (currency m))]"

definition intent_to_data :: "order_intent \<Rightarrow> json" where
  "intent_to_data i = JObj
     [(''intent_id'', JStr (oi_intent_id i)), (''strategy_id'', JStr (oi_strategy_id i)),
      (''decision_id'', JStr (oi_decision_id i)), (''market_id'', JStr (oi_market_id i)),
      (''outcome_id'', JStr (oi_outcome_id i)), (''side'', JStr (side_value (oi_side i))),
      (''quantity'', JStr (fmt6 (oi_quantity i))), (''limit_price'', JStr (fmt6 (oi_limit_price i))),
      (''fee_reserve'', money_to_data (oi_fee_reserve i)),
      (''created_at'', JStr (isoformat (oi_created_at i)))]"

definition risk_scope_to_data :: "risk_scope \<Rightarrow> json" where
  "risk_scope_to_data s = JObj
     [(''market_id'', JStr (rs_market_id s)), (''outcome_id'', JStr (rs_outcome_id s)),
      (''event_id'', JStr (rs_event_id s)), (''city_key'', JStr (rs_city_key s)),
      (''market_date'', JStr (iso_date (rs_market_date s))),
      (''correlation_groups'', JArr (map JStr (rs_correlation_groups s)))]"

definition position_valuation_to_data :: "position_valuation \<Rightarrow> json" where
  "position_valuation_to_data v = JObj
     [(''market_id'', JStr (pv_market_id v)), (''outcome_id'', JStr (pv_outcome_id v)),
      (''quantity'', JStr (fmt6 (pv_quantity v))),
      (''liquidation_value'', money_to_data (pv_liquidation_value v)),
      (''observed_at'', JStr (isoformat (pv_observed_at v)))]"

definition portfolio_valuation_to_data :: "portfolio_valuation \<Rightarrow> json" where
  "portfolio_valuation_to_data v = JObj
     [(''positions'', JArr (map position_valuation_to_data (pf_positions v))),
      (''equity'', money_to_data (pf_equity v)),
      (''assembled_at'', JStr (isoformat (pf_assembled_at v))), (''source'', JStr (pf_source v))]"

fun observation_status_value :: "observation_status \<Rightarrow> string" where
  "observation_status_value PROVISIONAL = ''provisional''"
| "observation_status_value FINAL = ''final''"
| "observation_status_value REVISED = ''revised''"

fun resolution_status_value :: "resolution_status \<Rightarrow> string" where
  "resolution_status_value VERIFIED = ''verified''"
| "resolution_status_value VOID = ''void''"

definition opt_json :: "string option \<Rightarrow> json" where
  "opt_json v = (case v of None \<Rightarrow> JNull | Some s \<Rightarrow> JStr s)"

definition observation_to_data :: "weather_evidence \<Rightarrow> json" where
  "observation_to_data w = JObj
     [(''market_id'', JStr (wo_market_id w)), (''source_name'', JStr (wo_source_name w)),
      (''source_url'', JStr (wo_source_url w)), (''station_id'', JStr (wo_station_id w)),
      (''measurement_basis'', JStr (wo_measurement_basis w)),
      (''market_date'', JStr (iso_date (wo_market_date w))),
      (''market_timezone'', JStr (wo_market_timezone w)),
      (''temperature'', JStr (decimal_text (wo_temperature w))), (''unit'', JStr (wo_unit w)),
      (''retrieved_at'', JStr (isoformat (wo_retrieved_at w))),
      (''source_timestamp'', opt_json (map_option isoformat (wo_source_timestamp w))),
      (''source_revision'', JStr (wo_source_revision w)),
      (''status'', JStr (observation_status_value (wo_status w))),
      (''payload_hash'', JStr (wo_payload_hash w)),
      (''supersedes_payload_hash'', opt_json (wo_supersedes w))]"

definition payout_to_data :: "outcome_payout \<Rightarrow> json" where
  "payout_to_data p = JObj [(''outcome_id'', JStr (op_outcome_id p)), (''payout'', JStr (fmt6 (op_payout p)))]"

definition evidence_to_data :: "resolution_evidence \<Rightarrow> json" where
  "evidence_to_data e = JObj
     [(''market_id'', JStr (re_market_id e)), (''condition_id'', JStr (re_condition_id e)),
      (''source_name'', JStr (re_source_name e)), (''source_url'', JStr (re_source_url e)),
      (''declared_resolution_source'', JStr (re_declared_resolution_source e)),
      (''retrieved_at'', JStr (isoformat (re_retrieved_at e))),
      (''finalized_at'', JStr (isoformat (re_finalized_at e))),
      (''market_date'', JStr (iso_date (re_market_date e))),
      (''market_timezone'', JStr (re_market_timezone e)),
      (''status'', JStr (resolution_status_value (re_status e))),
      (''resolution_value'', JStr (re_resolution_value e)),
      (''payouts'', JArr (map payout_to_data (re_payouts e))),
      (''payload_hash'', JStr (re_payload_hash e))]"

definition resolution_to_data :: "market_resolution \<Rightarrow> json" where
  "resolution_to_data r = JObj
     [(''market_id'', JStr (mr_market_id r)), (''payouts'', JArr (map payout_to_data (mr_payouts r))),
      (''resolved_at'', JStr (isoformat (mr_resolved_at r)))]"

fun body_data :: "event_body \<Rightarrow> (string \<times> json) list" where
  "body_data (AccountOpened m) = [(''initial_cash'', money_to_data m)]"
| "body_data (OrderIntentCreated i) = [(''intent'', intent_to_data i)]"
| "body_data (OrderSubmitted i b) = [(''intent_id'', JStr i), (''backend_order_id'', JStr b)]"
| "body_data (OrderAcknowledged i) = [(''intent_id'', JStr i)]"
| "body_data (FillReceived f) =
     [(''intent_id'', JStr (fl_intent_id f)), (''fill_id'', JStr (fl_fill_id f)),
      (''quantity'', JStr (fmt6 (fl_quantity f))), (''price'', JStr (fmt6 (fl_price f))),
      (''fee'', money_to_data (fl_fee f))]"
| "body_data (OrderRejected i r) = [(''intent_id'', JStr i), (''reason'', JStr r)]"
| "body_data (OrderCancelled i r) = [(''intent_id'', JStr i), (''reason'', JStr r)]"
| "body_data (OrderOutcomeUnknown i r) = [(''intent_id'', JStr i), (''reason'', JStr r)]"
| "body_data (WeatherObservationRecorded w) = [(''evidence'', observation_to_data w)]"
| "body_data (MarketResolutionEvidenceRecorded e) = [(''evidence'', evidence_to_data e)]"
| "body_data (MarketResolved r) = [(''resolution'', resolution_to_data r)]"
| "body_data (PositionSettled m oc fee) =
     [(''market_id'', JStr m), (''outcome_id'', JStr oc), (''fee'', money_to_data fee)]"
| "body_data (RiskScopeRegistered s) = [(''scope'', risk_scope_to_data s)]"
| "body_data (PortfolioValuationRecorded v) = [(''valuation'', portfolio_valuation_to_data v)]"

definition event_data :: "ledger_event \<Rightarrow> json" where
  "event_data e = JObj
     ([(''event_id'', JStr (ev_event_id e)), (''occurred_at'', JStr (isoformat (ev_occurred_at e)))]
      @ body_data (ev_body e))"

fun index_fields ::
    "event_body \<Rightarrow> string option \<times> string option \<times> string option \<times> string option" where
  "index_fields (OrderIntentCreated i) =
     (Some (oi_intent_id i), Some (oi_decision_id i), Some (oi_market_id i), Some (oi_outcome_id i))"
| "index_fields (OrderSubmitted i _) = (Some i, None, None, None)"
| "index_fields (OrderAcknowledged i) = (Some i, None, None, None)"
| "index_fields (FillReceived f) = (Some (fl_intent_id f), None, None, None)"
| "index_fields (OrderRejected i _) = (Some i, None, None, None)"
| "index_fields (OrderCancelled i _) = (Some i, None, None, None)"
| "index_fields (OrderOutcomeUnknown i _) = (Some i, None, None, None)"
| "index_fields (WeatherObservationRecorded w) = (None, None, Some (wo_market_id w), None)"
| "index_fields (MarketResolutionEvidenceRecorded e) = (None, None, Some (re_market_id e), None)"
| "index_fields (MarketResolved r) = (None, None, Some (mr_market_id r), None)"
| "index_fields (PositionSettled m oc _) = (None, None, Some m, Some oc)"
| "index_fields (RiskScopeRegistered s) = (None, None, Some (rs_market_id s), Some (rs_outcome_id s))"
| "index_fields _ = (None, None, None, None)"

record encoded_event =
  en_event :: ledger_event
  en_event_type :: string
  en_schema_version :: int
  en_payload_json :: string
  en_payload_hash :: string
  en_event_id :: string
  en_occurred_at :: string
  en_intent_id :: "string option"
  en_decision_id :: "string option"
  en_market_id :: "string option"
  en_outcome_id :: "string option"

definition event_envelope :: "ledger_event \<Rightarrow> json" where
  "event_envelope e = JObj
     [(''event_schema_version'', JInt event_schema_version),
      (''event_type'', JStr (event_type (ev_body e))), (''data'', event_data e)]"

definition encode_event :: "(string \<Rightarrow> string) \<Rightarrow> ledger_event \<Rightarrow> encoded_event" where
  "encode_event sha e =
     (let payload_json = canonical_json (event_envelope e)
      in case index_fields (ev_body e) of (intent_id, decision_id, market_id, outcome_id) \<Rightarrow>
        \<lparr>en_event = e, en_event_type = event_type (ev_body e), en_schema_version = event_schema_version,
         en_payload_json = payload_json, en_payload_hash = sha payload_json,
         en_event_id = ev_event_id e, en_occurred_at = isoformat (ev_occurred_at e),
         en_intent_id = intent_id, en_decision_id = decision_id, en_market_id = market_id,
         en_outcome_id = outcome_id\<rparr>)"

definition chain_hash :: "(string \<Rightarrow> string) \<Rightarrow> string \<Rightarrow> int \<Rightarrow> string \<Rightarrow> string \<Rightarrow> string" where
  "chain_hash sha previous schema_version etype payload_hash =
     sha (previous @ CHR 0x0A # show_int schema_version @ CHR 0x0A # etype @ CHR 0x0A # payload_hash)"

section \<open>Schema checks\<close>

definition corrupt :: "string \<Rightarrow> 'a result" where
  "corrupt msg = Inl (CorruptLedgerError msg)"

lemma rbind_corrupt [simp]: "rbind (corrupt msg) f = corrupt msg"
  by (simp add: corrupt_def)

definition load_json_object :: "string \<Rightarrow> string \<Rightarrow> (string \<times> json) list result" where
  "load_json_object text label =
     (case load_json text of
        Inl DuplicateKey \<Rightarrow> corrupt ''JSON object contains duplicate key''
      | Inl JSONDecodeError \<Rightarrow> corrupt (label @ '' is not valid JSON'')
      | Inr (JObj d) \<Rightarrow> Inr d
      | Inr _ \<Rightarrow> corrupt (label @ '' must contain a JSON object''))"

definition expect_keys :: "(string \<times> json) list \<Rightarrow> string list \<Rightarrow> string \<Rightarrow> unit result" where
  "expect_keys d required label =
     (if list_all (\<lambda>k. k \<in> set required) (map fst d) \<and> list_all (\<lambda>k. k \<in> set (map fst d)) required
      then Inr () else corrupt (label @ '' keys differ from schema''))"

definition item :: "(string \<times> json) list \<Rightarrow> string \<Rightarrow> json result" where
  "item d k = (case jget d k of None \<Rightarrow> Inl KeyError | Some v \<Rightarrow> Inr v)"

fun as_mapping :: "json \<Rightarrow> string \<Rightarrow> (string \<times> json) list result" where
  "as_mapping (JObj d) label = Inr d"
| "as_mapping _ label = corrupt (label @ '' must be an object'')"

fun as_sequence :: "json \<Rightarrow> string \<Rightarrow> json list result" where
  "as_sequence (JArr vs) label = Inr vs"
| "as_sequence _ label = corrupt (label @ '' must be an array'')"

fun as_text :: "json \<Rightarrow> string \<Rightarrow> string result" where
  "as_text (JStr s) label =
     (if strip s = [] then corrupt (label @ '' must be a non-blank string'') else Inr s)"
| "as_text _ label = corrupt (label @ '' must be a non-blank string'')"

declare as_text.simps(1) [simp del]

fun as_optional_text :: "json \<Rightarrow> string \<Rightarrow> string option result" where
  "as_optional_text JNull label = Inr None"
| "as_optional_text v label = rbind (as_text v label) (\<lambda>s. Inr (Some s))"

fun as_integer :: "json \<Rightarrow> string \<Rightarrow> int result" where
  "as_integer (JInt n) label = Inr n"
| "as_integer _ label = corrupt (label @ '' must be an integer'')"

definition text_decimal :: "string \<Rightarrow> string \<Rightarrow> decimal result" where
  "text_decimal s label =
     (case parse_decimal s of
        None \<Rightarrow> corrupt (label @ '' is not a decimal string'')
      | Some None \<Rightarrow> corrupt (label @ '' must be a finite decimal string'')
      | Some (Some x) \<Rightarrow> Inr x)"

definition text_date :: "string \<Rightarrow> string \<Rightarrow> date result" where
  "text_date s label =
     (case date_fromisoformat s of
        None \<Rightarrow> corrupt (label @ '' is not an ISO-8601 date'') | Some d \<Rightarrow> Inr d)"

definition text_datetime :: "string \<Rightarrow> string \<Rightarrow> datetime result" where
  "text_datetime s label =
     (case datetime_fromisoformat s of
        None \<Rightarrow> corrupt (label @ '' is not an ISO-8601 timestamp'') | Some d \<Rightarrow> Inr d)"

text \<open>The entry \<open>k\<close> of an object, read as text, decimal, date or timestamp.\<close>

definition text_at :: "(string \<times> json) list \<Rightarrow> string \<Rightarrow> string \<Rightarrow> string result" where
  "text_at d label k = rbind (item d k) (\<lambda>v. as_text v (label @ ''.'' @ k))"

definition decimal_at :: "(string \<times> json) list \<Rightarrow> string \<Rightarrow> string \<Rightarrow> decimal result" where
  "decimal_at d label k = rbind (text_at d label k) (\<lambda>s. text_decimal s (label @ ''.'' @ k))"

definition date_at :: "(string \<times> json) list \<Rightarrow> string \<Rightarrow> string \<Rightarrow> date result" where
  "date_at d label k = rbind (text_at d label k) (\<lambda>s. text_date s (label @ ''.'' @ k))"

definition datetime_at :: "(string \<times> json) list \<Rightarrow> string \<Rightarrow> string \<Rightarrow> datetime result" where
  "datetime_at d label k = rbind (text_at d label k) (\<lambda>s. text_datetime s (label @ ''.'' @ k))"

definition money_from_data :: "json \<Rightarrow> string \<Rightarrow> money result" where
  "money_from_data v label =
     rbind (as_mapping v label) (\<lambda>d.
     rbind (expect_keys d [''amount'', ''currency''] label) (\<lambda>_.
     rbind (decimal_at d label ''amount'') (\<lambda>a.
     rbind (text_at d label ''currency'') (\<lambda>c. mk_money (PyDecimal a) c))))"

definition money_at :: "(string \<times> json) list \<Rightarrow> string \<Rightarrow> string \<Rightarrow> money result" where
  "money_at d label k = rbind (item d k) (\<lambda>v. money_from_data v (label @ ''.'' @ k))"

section \<open>Decoding the values\<close>

definition side_of :: "string \<Rightarrow> side result" where
  "side_of s = (if s = ''buy'' then Inr BUY else if s = ''sell'' then Inr SELL
     else corrupt ''intent.side is unsupported'')"

definition intent_from_data :: "json \<Rightarrow> order_intent result" where
  "intent_from_data v =
     rbind (as_mapping v ''intent'') (\<lambda>d.
     rbind (expect_keys d [''intent_id'', ''strategy_id'', ''decision_id'', ''market_id'', ''outcome_id'',
       ''side'', ''quantity'', ''limit_price'', ''fee_reserve'', ''created_at''] ''intent'') (\<lambda>_.
     rbind (text_at d ''intent'' ''side'') (\<lambda>side_text.
     rbind (side_of side_text) (\<lambda>side.
     rbind (text_at d ''intent'' ''intent_id'') (\<lambda>intent_id.
     rbind (text_at d ''intent'' ''strategy_id'') (\<lambda>strategy_id.
     rbind (text_at d ''intent'' ''decision_id'') (\<lambda>decision_id.
     rbind (text_at d ''intent'' ''market_id'') (\<lambda>market_id.
     rbind (text_at d ''intent'' ''outcome_id'') (\<lambda>outcome_id.
     rbind (decimal_at d ''intent'' ''quantity'') (\<lambda>quantity.
     rbind (decimal_at d ''intent'' ''limit_price'') (\<lambda>limit_price.
     rbind (money_at d ''intent'' ''fee_reserve'') (\<lambda>fee_reserve.
     rbind (datetime_at d ''intent'' ''created_at'') (\<lambda>created_at.
     order_intent_init
       \<lparr>oi_intent_id = intent_id, oi_strategy_id = strategy_id, oi_decision_id = decision_id,
        oi_market_id = market_id, oi_outcome_id = outcome_id, oi_side = side, oi_quantity = quantity,
        oi_limit_price = limit_price, oi_fee_reserve = fee_reserve, oi_created_at = created_at\<rparr>)))))))))))))"

definition risk_scope_from_data :: "json \<Rightarrow> risk_scope result" where
  "risk_scope_from_data v =
     rbind (as_mapping v ''risk_scope'') (\<lambda>d.
     rbind (expect_keys d [''market_id'', ''outcome_id'', ''event_id'', ''city_key'', ''market_date'',
       ''correlation_groups''] ''risk_scope'') (\<lambda>_.
     rbind (item d ''correlation_groups'') (\<lambda>raw_groups.
     rbind (as_sequence raw_groups ''risk_scope.correlation_groups'') (\<lambda>raw.
     rbind (rmap (\<lambda>g. as_text g ''risk_scope.correlation_groups'') raw) (\<lambda>groups.
     rbind (text_at d ''risk_scope'' ''market_id'') (\<lambda>market_id.
     rbind (text_at d ''risk_scope'' ''outcome_id'') (\<lambda>outcome_id.
     rbind (text_at d ''risk_scope'' ''event_id'') (\<lambda>event_id.
     rbind (text_at d ''risk_scope'' ''city_key'') (\<lambda>city_key.
     rbind (date_at d ''risk_scope'' ''market_date'') (\<lambda>market_date.
     risk_scope_init
       \<lparr>rs_market_id = market_id, rs_outcome_id = outcome_id, rs_event_id = event_id,
        rs_city_key = city_key, rs_market_date = market_date, rs_correlation_groups = groups\<rparr>))))))))))"

definition mark_from_data :: "json \<Rightarrow> position_valuation result" where
  "mark_from_data v =
     (let label = ''portfolio_valuation.positions'' in
     rbind (as_mapping v label) (\<lambda>d.
     rbind (expect_keys d [''market_id'', ''outcome_id'', ''quantity'', ''liquidation_value'',
       ''observed_at''] label) (\<lambda>_.
     rbind (text_at d label ''market_id'') (\<lambda>market_id.
     rbind (text_at d label ''outcome_id'') (\<lambda>outcome_id.
     rbind (decimal_at d label ''quantity'') (\<lambda>quantity.
     rbind (money_at d label ''liquidation_value'') (\<lambda>liquidation_value.
     rbind (datetime_at d label ''observed_at'') (\<lambda>observed_at.
     position_valuation_init
       \<lparr>pv_market_id = market_id, pv_outcome_id = outcome_id, pv_quantity = quantity,
        pv_liquidation_value = liquidation_value, pv_observed_at = observed_at\<rparr>))))))))"

definition portfolio_valuation_from_data :: "json \<Rightarrow> portfolio_valuation result" where
  "portfolio_valuation_from_data v =
     rbind (as_mapping v ''portfolio_valuation'') (\<lambda>d.
     rbind (expect_keys d [''positions'', ''equity'', ''assembled_at'', ''source''] ''portfolio_valuation'') (\<lambda>_.
     rbind (item d ''positions'') (\<lambda>raw_positions.
     rbind (as_sequence raw_positions ''portfolio_valuation.positions'') (\<lambda>raw.
     rbind (rmap mark_from_data raw) (\<lambda>marks.
     rbind (money_at d ''portfolio_valuation'' ''equity'') (\<lambda>equity.
     rbind (datetime_at d ''portfolio_valuation'' ''assembled_at'') (\<lambda>assembled_at.
     rbind (text_at d ''portfolio_valuation'' ''source'') (\<lambda>source.
     portfolio_valuation_init
       \<lparr>pf_positions = marks, pf_equity = equity, pf_assembled_at = assembled_at, pf_source = source\<rparr>))))))))"

definition observation_status_of :: "string \<Rightarrow> observation_status result" where
  "observation_status_of s = (if s = ''provisional'' then Inr PROVISIONAL
     else if s = ''final'' then Inr FINAL else if s = ''revised'' then Inr REVISED
     else corrupt ''weather_observation.status is unsupported'')"

definition optional_text_at :: "(string \<times> json) list \<Rightarrow> string \<Rightarrow> string \<Rightarrow> string option result" where
  "optional_text_at d label k = rbind (item d k) (\<lambda>v. as_optional_text v (label @ ''.'' @ k))"

definition optional_datetime :: "string option \<Rightarrow> string \<Rightarrow> datetime option result" where
  "optional_datetime s label =
     (case s of None \<Rightarrow> Inr None | Some t \<Rightarrow> rbind (text_datetime t label) (\<lambda>d. Inr (Some d)))"

definition observation_from_data :: "tzdb \<Rightarrow> json \<Rightarrow> weather_evidence result" where
  "observation_from_data tz v =
     (let label = ''weather_observation'' in
     rbind (as_mapping v label) (\<lambda>d.
     rbind (expect_keys d [''market_id'', ''source_name'', ''source_url'', ''station_id'',
       ''measurement_basis'', ''market_date'', ''market_timezone'', ''temperature'', ''unit'',
       ''retrieved_at'', ''source_timestamp'', ''source_revision'', ''status'', ''payload_hash'',
       ''supersedes_payload_hash''] label) (\<lambda>_.
     rbind (text_at d label ''status'') (\<lambda>status_text.
     rbind (observation_status_of status_text) (\<lambda>status.
     rbind (optional_text_at d label ''source_timestamp'') (\<lambda>timestamp_text.
     rbind (text_at d label ''market_id'') (\<lambda>market_id.
     rbind (text_at d label ''source_name'') (\<lambda>source_name.
     rbind (text_at d label ''source_url'') (\<lambda>source_url.
     rbind (text_at d label ''station_id'') (\<lambda>station_id.
     rbind (text_at d label ''measurement_basis'') (\<lambda>measurement_basis.
     rbind (date_at d label ''market_date'') (\<lambda>market_date.
     rbind (text_at d label ''market_timezone'') (\<lambda>market_timezone.
     rbind (decimal_at d label ''temperature'') (\<lambda>temperature.
     rbind (text_at d label ''unit'') (\<lambda>unit.
     rbind (datetime_at d label ''retrieved_at'') (\<lambda>retrieved_at.
     rbind (optional_datetime timestamp_text (label @ ''.source_timestamp'')) (\<lambda>source_timestamp.
     rbind (text_at d label ''source_revision'') (\<lambda>source_revision.
     rbind (text_at d label ''payload_hash'') (\<lambda>payload_hash.
     rbind (optional_text_at d label ''supersedes_payload_hash'') (\<lambda>supersedes.
     weather_evidence_init tz (PyDecimal temperature)
       \<lparr>wo_market_id = market_id, wo_source_name = source_name, wo_source_url = source_url,
        wo_station_id = station_id, wo_measurement_basis = measurement_basis,
        wo_market_date = market_date, wo_market_timezone = market_timezone,
        wo_temperature = temperature, wo_unit = unit, wo_retrieved_at = retrieved_at,
        wo_source_timestamp = source_timestamp, wo_source_revision = source_revision,
        wo_status = status, wo_payload_hash = payload_hash, wo_supersedes = supersedes\<rparr>))))))))))))))))))))"

definition payout_from_data :: "string \<Rightarrow> json \<Rightarrow> outcome_payout result" where
  "payout_from_data label v =
     rbind (as_mapping v label) (\<lambda>d.
     rbind (expect_keys d [''outcome_id'', ''payout''] label) (\<lambda>_.
     rbind (text_at d label ''outcome_id'') (\<lambda>outcome_id.
     rbind (decimal_at d label ''payout'') (\<lambda>payout.
     outcome_payout_init \<lparr>op_outcome_id = outcome_id, op_payout = payout\<rparr>))))"

definition payouts_at :: "(string \<times> json) list \<Rightarrow> string \<Rightarrow> outcome_payout list result" where
  "payouts_at d label =
     rbind (item d ''payouts'') (\<lambda>v.
     rbind (as_sequence v (label @ ''.payouts'')) (\<lambda>raw.
     rmap (payout_from_data (label @ ''.payouts'')) raw))"

definition resolution_status_of :: "string \<Rightarrow> resolution_status result" where
  "resolution_status_of s = (if s = ''verified'' then Inr VERIFIED else if s = ''void'' then Inr VOID
     else corrupt ''evidence.status is unsupported'')"

definition evidence_from_data :: "tzdb \<Rightarrow> json \<Rightarrow> resolution_evidence result" where
  "evidence_from_data tz v =
     (let label = ''evidence'' in
     rbind (as_mapping v label) (\<lambda>d.
     rbind (expect_keys d [''market_id'', ''condition_id'', ''source_name'', ''source_url'',
       ''declared_resolution_source'', ''retrieved_at'', ''finalized_at'', ''market_date'',
       ''market_timezone'', ''status'', ''resolution_value'', ''payouts'', ''payload_hash''] label) (\<lambda>_.
     rbind (payouts_at d label) (\<lambda>payouts.
     rbind (text_at d label ''status'') (\<lambda>status_text.
     rbind (resolution_status_of status_text) (\<lambda>status.
     rbind (text_at d label ''market_id'') (\<lambda>market_id.
     rbind (text_at d label ''condition_id'') (\<lambda>condition_id.
     rbind (text_at d label ''source_name'') (\<lambda>source_name.
     rbind (text_at d label ''source_url'') (\<lambda>source_url.
     rbind (text_at d label ''declared_resolution_source'') (\<lambda>declared.
     rbind (datetime_at d label ''retrieved_at'') (\<lambda>retrieved_at.
     rbind (datetime_at d label ''finalized_at'') (\<lambda>finalized_at.
     rbind (date_at d label ''market_date'') (\<lambda>market_date.
     rbind (text_at d label ''market_timezone'') (\<lambda>market_timezone.
     rbind (text_at d label ''resolution_value'') (\<lambda>resolution_value.
     rbind (text_at d label ''payload_hash'') (\<lambda>payload_hash.
     resolution_evidence_init tz
       \<lparr>re_market_id = market_id, re_condition_id = condition_id, re_source_name = source_name,
        re_source_url = source_url, re_declared_resolution_source = declared,
        re_retrieved_at = retrieved_at, re_finalized_at = finalized_at, re_market_date = market_date,
        re_market_timezone = market_timezone, re_status = status,
        re_resolution_value = resolution_value, re_payouts = payouts, re_payload_hash = payload_hash\<rparr>)))))))))))))))))"

definition resolution_from_data :: "json \<Rightarrow> market_resolution result" where
  "resolution_from_data v =
     rbind (as_mapping v ''resolution'') (\<lambda>d.
     rbind (expect_keys d [''market_id'', ''payouts'', ''resolved_at''] ''resolution'') (\<lambda>_.
     rbind (payouts_at d ''resolution'') (\<lambda>payouts.
     rbind (text_at d ''resolution'' ''market_id'') (\<lambda>market_id.
     rbind (datetime_at d ''resolution'' ''resolved_at'') (\<lambda>resolved_at.
     market_resolution_init
       \<lparr>mr_market_id = market_id, mr_payouts = payouts, mr_resolved_at = resolved_at\<rparr>)))))"

section \<open>Decoding events\<close>

text \<open>\<^verbatim>\<open>_common\<close>: the keys of the event, its identifier and its time.\<close>

definition common :: "(string \<times> json) list \<Rightarrow> string list \<Rightarrow> (string \<times> datetime) result" where
  "common d required =
     rbind (expect_keys d (required @ [''event_id'', ''occurred_at'']) ''event.data'') (\<lambda>_.
     rbind (text_at d ''event.data'' ''event_id'') (\<lambda>eid.
     rbind (datetime_at d ''event.data'' ''occurred_at'') (\<lambda>t. Inr (eid, t))))"

definition plain_text :: "(string \<times> json) list \<Rightarrow> string \<Rightarrow> string result" where
  "plain_text d k = rbind (item d k) (\<lambda>v. as_text v k)"

definition plain_decimal :: "(string \<times> json) list \<Rightarrow> string \<Rightarrow> decimal result" where
  "plain_decimal d k = rbind (plain_text d k) (\<lambda>s. text_decimal s k)"

definition plain_money :: "(string \<times> json) list \<Rightarrow> string \<Rightarrow> money result" where
  "plain_money d k = rbind (item d k) (\<lambda>v. money_from_data v k)"

definition reason_body :: "(string \<times> json) list \<Rightarrow> (string \<Rightarrow> string \<Rightarrow> event_body) \<Rightarrow> event_body result" where
  "reason_body d mk =
     rbind (plain_text d ''intent_id'') (\<lambda>i. rbind (plain_text d ''reason'') (\<lambda>r. Inr (mk i r)))"

text \<open>The fields of each event type: its keys and its body.\<close>

definition body_decoder ::
    "tzdb \<Rightarrow> string \<Rightarrow> (string list \<times> ((string \<times> json) list \<Rightarrow> event_body result)) option" where
  "body_decoder tz etype = map_of
     [(''account_opened'', ([''initial_cash''], \<lambda>d.
         rbind (plain_money d ''initial_cash'') (\<lambda>m. Inr (AccountOpened m)))),
      (''order_intent_created'', ([''intent''], \<lambda>d.
         rbind (item d ''intent'') (\<lambda>v. rbind (intent_from_data v) (\<lambda>i. Inr (OrderIntentCreated i))))),
      (''order_submitted'', ([''intent_id'', ''backend_order_id''], \<lambda>d.
         rbind (plain_text d ''intent_id'') (\<lambda>i.
         rbind (plain_text d ''backend_order_id'') (\<lambda>b. Inr (OrderSubmitted i b))))),
      (''order_acknowledged'', ([''intent_id''], \<lambda>d.
         rbind (plain_text d ''intent_id'') (\<lambda>i. Inr (OrderAcknowledged i)))),
      (''fill_received'', ([''intent_id'', ''fill_id'', ''quantity'', ''price'', ''fee''], \<lambda>d.
         rbind (plain_text d ''intent_id'') (\<lambda>i.
         rbind (plain_text d ''fill_id'') (\<lambda>f.
         rbind (plain_decimal d ''quantity'') (\<lambda>q.
         rbind (plain_decimal d ''price'') (\<lambda>p.
         rbind (plain_money d ''fee'') (\<lambda>fee.
         Inr (FillReceived \<lparr>fl_intent_id = i, fl_fill_id = f, fl_quantity = q, fl_price = p, fl_fee = fee\<rparr>)))))))),
      (''order_rejected'', ([''intent_id'', ''reason''], \<lambda>d. reason_body d OrderRejected)),
      (''order_cancelled'', ([''intent_id'', ''reason''], \<lambda>d. reason_body d OrderCancelled)),
      (''order_outcome_unknown'', ([''intent_id'', ''reason''], \<lambda>d. reason_body d OrderOutcomeUnknown)),
      (''weather_observation_recorded'', ([''evidence''], \<lambda>d.
         rbind (item d ''evidence'') (\<lambda>v.
         rbind (observation_from_data tz v) (\<lambda>w. Inr (WeatherObservationRecorded w))))),
      (''market_resolution_evidence_recorded'', ([''evidence''], \<lambda>d.
         rbind (item d ''evidence'') (\<lambda>v.
         rbind (evidence_from_data tz v) (\<lambda>e. Inr (MarketResolutionEvidenceRecorded e))))),
      (''market_resolved'', ([''resolution''], \<lambda>d.
         rbind (item d ''resolution'') (\<lambda>v.
         rbind (resolution_from_data v) (\<lambda>r. Inr (MarketResolved r))))),
      (''position_settled'', ([''market_id'', ''outcome_id'', ''fee''], \<lambda>d.
         rbind (plain_text d ''market_id'') (\<lambda>m.
         rbind (plain_text d ''outcome_id'') (\<lambda>oc.
         rbind (plain_money d ''fee'') (\<lambda>fee. Inr (PositionSettled m oc fee)))))),
      (''risk_scope_registered'', ([''scope''], \<lambda>d.
         rbind (item d ''scope'') (\<lambda>v.
         rbind (risk_scope_from_data v) (\<lambda>s. Inr (RiskScopeRegistered s))))),
      (''portfolio_valuation_recorded'', ([''valuation''], \<lambda>d.
         rbind (item d ''valuation'') (\<lambda>v.
         rbind (portfolio_valuation_from_data v) (\<lambda>p. Inr (PortfolioValuationRecorded p)))))] etype"

definition decode_envelope ::
    "tzdb \<Rightarrow> (string \<Rightarrow> string) \<Rightarrow> (string \<times> json) list \<Rightarrow> ledger_event result" where
  "decode_envelope tz sha env =
     rbind (expect_keys env [''event_schema_version'', ''event_type'', ''data''] ''event payload'') (\<lambda>_.
     rbind (item env ''event_schema_version'') (\<lambda>raw_version.
     rbind (as_integer raw_version ''event_schema_version'') (\<lambda>version.
     if version \<noteq> event_schema_version then Inl (SchemaVersionError ''event schema version is unsupported'')
     else
     rbind (plain_text env ''event_type'') (\<lambda>etype.
     rbind (item env ''data'') (\<lambda>raw_data.
     rbind (as_mapping raw_data ''event.data'') (\<lambda>d.
     case body_decoder tz etype of
       None \<Rightarrow> Inl (SchemaVersionError ''unsupported event type'')
     | Some (required, decoder) \<Rightarrow>
         rbind (common d required) (\<lambda>(eid, t).
         rbind (decoder d) (\<lambda>body.
         event_init sha \<lparr>ev_event_id = eid, ev_occurred_at = t, ev_body = body\<rparr>))))))))"

definition decode_event :: "tzdb \<Rightarrow> (string \<Rightarrow> string) \<Rightarrow> string \<Rightarrow> ledger_event result" where
  "decode_event tz sha payload_json =
     rbind (load_json_object payload_json ''event payload'') (\<lambda>env. decode_envelope tz sha env)"

section \<open>Metadata\<close>

text \<open>
  A Python value of the metadata: \<open>MetaOther\<close> stands for any other class; a key that is not a
  string is \<open>None\<close>.
\<close>

datatype meta = MetaNone | MetaStr string | MetaBool bool | MetaInt int | MetaFloat | MetaDecimal decimal
  | MetaMapping "(string option \<times> meta) list" | MetaSequence "meta list" | MetaOther

lemma rmap_cong [fundef_cong]:
  "xs = ys \<Longrightarrow> (\<And>y. y \<in> set ys \<Longrightarrow> f y = g y) \<Longrightarrow> rmap f xs = rmap g ys"
proof (induction xs arbitrary: ys)
  case (Cons x xs)
  then show ?case by (cases ys) (auto intro!: rbind_cong)
qed simp

fun metadata_value :: "meta \<Rightarrow> json result" where
  "metadata_value MetaNone = Inr JNull"
| "metadata_value (MetaStr s) = Inr (JStr s)"
| "metadata_value (MetaBool b) = Inr (JBool b)"
| "metadata_value (MetaInt n) = Inr (JInt n)"
| "metadata_value MetaFloat = Inl (TypeError ''must not contain binary floating-point values'')"
| "metadata_value (MetaDecimal x) = Inr (JStr (decimal_text x))"
| "metadata_value (MetaMapping ps) =
     rbind (rmap (\<lambda>p.
         case fst p of
           None \<Rightarrow> Inl (TypeError ''contains a non-string or blank key'')
         | Some k \<Rightarrow>
             if k = [] then Inl (TypeError ''contains a non-string or blank key'')
             else rbind (metadata_value (snd p)) (\<lambda>v. Inr (k, v))) ps)
       (\<lambda>d. Inr (JObj d))"
| "metadata_value (MetaSequence vs) = rbind (rmap metadata_value vs) (\<lambda>xs. Inr (JArr xs))"
| "metadata_value MetaOther = Inl (TypeError ''contains unsupported value type'')"

definition encode_metadata ::
    "(string \<Rightarrow> string) \<Rightarrow> (string option \<times> meta) list option \<Rightarrow> (string \<times> string) result" where
  "encode_metadata sha value =
     rbind (metadata_value (MetaMapping (case value of None \<Rightarrow> [] | Some ps \<Rightarrow> ps))) (\<lambda>normalized.
     let payload_json = canonical_json normalized in Inr (payload_json, sha payload_json))"

definition decode_metadata ::
    "(string \<Rightarrow> string) \<Rightarrow> string \<Rightarrow> string \<Rightarrow> (string \<times> json) list result" where
  "decode_metadata sha payload_json payload_hash =
     (if sha payload_json \<noteq> payload_hash then corrupt ''metadata hash mismatch''
      else load_json_object payload_json ''metadata payload'')"

end
