(* ===== verification/Codec_Props.thy ===== *)
theory Codec_Props
  imports Codec
begin

text \<open>
  Reading back what was written: the decoder does not depend on the order of keys, each value read
  from its own data is that value, and so an encoded event decodes to itself.
\<close>

section \<open>Key order\<close>

definition sort_data :: "(string \<times> json) list \<Rightarrow> (string \<times> json) list" where
  "sort_data d = sort_key fst (map (map_prod id sort_json) d)"

lemma map_of_filter: "map_of d k = (case filter (\<lambda>p. fst p = k) d of [] \<Rightarrow> None | p # _ \<Rightarrow> Some (snd p))"
  by (induction d) auto

lemma jget_sort: "jget (sort_data d) k = map_option sort_json (jget d k)"
proof -
  have "map_of (sort_data d) k = map_of (map (map_prod id sort_json) d) k"
    unfolding sort_data_def map_of_filter [of "sort_key fst _"] sort_key_stable
    by (rule map_of_filter [symmetric])
  moreover have "map_of (map (map_prod id sort_json) d) k = map_option sort_json (map_of d k)"
    by (induction d) auto
  ultimately show ?thesis by (simp add: jget_def)
qed

named_theorems sort_invariant \<open>decoders do not see the order of keys\<close>

lemma item_sort [sort_invariant]: "rbind (item (sort_data d) k) f = rbind (item d k) (\<lambda>v. f (sort_json v))"
  by (cases "jget d k") (simp_all add: item_def jget_sort)

lemma expect_keys_sort [sort_invariant]: "expect_keys (sort_data d) ks label = expect_keys d ks label"
proof -
  have "set (map fst (sort_data d)) = set (map fst d)"
    by (force simp: sort_data_def image_iff)
  then show ?thesis unfolding expect_keys_def list_all_iff by presburger
qed

lemma as_mapping_sort [sort_invariant]:
  "rbind (as_mapping (sort_json v) label) f = rbind (as_mapping v label) (\<lambda>d. f (sort_data d))"
  by (cases v) (simp_all add: corrupt_def sort_data_def)

lemma as_sequence_sort [sort_invariant]:
  "rbind (as_sequence (sort_json v) label) f = rbind (as_sequence v label) (\<lambda>vs. f (map sort_json vs))"
  by (cases v) (simp_all add: corrupt_def)

lemma as_text_sort [sort_invariant]:
  "as_text (sort_json v) label = as_text v label"
  "as_optional_text (sort_json v) label = as_optional_text v label"
  "as_integer (sort_json v) label = as_integer v label"
  by (cases v; simp)+

lemma rmap_map: "rmap f (map g xs) = rmap (\<lambda>x. f (g x)) xs"
  by (induction xs) simp_all

lemma text_at_sort [sort_invariant]:
  "text_at (sort_data d) label k = text_at d label k"
  "optional_text_at (sort_data d) label k = optional_text_at d label k"
  "plain_text (sort_data d) k = plain_text d k"
  by (simp_all add: text_at_def optional_text_at_def plain_text_def sort_invariant)

lemma value_at_sort [sort_invariant]:
  "decimal_at (sort_data d) label k = decimal_at d label k"
  "date_at (sort_data d) label k = date_at d label k"
  "datetime_at (sort_data d) label k = datetime_at d label k"
  "plain_decimal (sort_data d) k = plain_decimal d k"
  by (simp_all add: decimal_at_def date_at_def datetime_at_def plain_decimal_def sort_invariant)

lemma money_sort [sort_invariant]: "money_from_data (sort_json v) label = money_from_data v label"
  by (simp add: money_from_data_def sort_invariant)

lemma money_at_sort [sort_invariant]:
  "money_at (sort_data d) label k = money_at d label k"
  "plain_money (sort_data d) k = plain_money d k"
  by (simp_all add: money_at_def plain_money_def sort_invariant)

lemma payout_sort [sort_invariant]: "payout_from_data label (sort_json v) = payout_from_data label v"
  by (simp add: payout_from_data_def sort_invariant)

lemma payouts_at_sort [sort_invariant]: "payouts_at (sort_data d) label = payouts_at d label"
  by (simp add: payouts_at_def sort_invariant rmap_map)

lemma mark_sort [sort_invariant]: "mark_from_data (sort_json v) = mark_from_data v"
  by (simp add: mark_from_data_def sort_invariant Let_def)

lemma values_sort [sort_invariant]:
  "intent_from_data (sort_json v) = intent_from_data v"
  "risk_scope_from_data (sort_json v) = risk_scope_from_data v"
  "portfolio_valuation_from_data (sort_json v) = portfolio_valuation_from_data v"
  "observation_from_data tz (sort_json v) = observation_from_data tz v"
  "evidence_from_data tz (sort_json v) = evidence_from_data tz v"
  "resolution_from_data (sort_json v) = resolution_from_data v"
  by (simp_all add: intent_from_data_def risk_scope_from_data_def portfolio_valuation_from_data_def
    observation_from_data_def evidence_from_data_def resolution_from_data_def sort_invariant rmap_map Let_def)

lemma common_sort [sort_invariant]: "common (sort_data d) required = common d required"
  by (simp add: common_def sort_invariant)

lemma reason_sort [sort_invariant]: "reason_body (sort_data d) mk = reason_body d mk"
  by (simp add: reason_body_def sort_invariant)

lemma body_decoder_sort:
  "body_decoder tz etype = Some (required, decoder) \<Longrightarrow> decoder (sort_data d) = decoder d"
  by (auto simp: body_decoder_def sort_invariant split: if_splits)

lemma decode_envelope_sort: "decode_envelope tz sha (sort_data env) = decode_envelope tz sha env"
  by (auto simp: decode_envelope_def sort_invariant body_decoder_sort intro!: rbind_cong split: option.split)

section \<open>Values that can be stored\<close>

text \<open>
  What the codec needs of a value besides its constructor's checks: printable instants and dates, and
  the identifiers the constructors leave unchecked must not be blank.
\<close>

definition nonblank :: "string \<Rightarrow> bool" where
  "nonblank s \<longleftrightarrow> strip s \<noteq> []"

definition storable_intent :: "order_intent \<Rightarrow> bool" where
  "storable_intent i \<longleftrightarrow> order_intent_init i = Inr i \<and> wf_money (oi_fee_reserve i)
     \<and> valid_datetime (oi_created_at i)"

definition storable_scope :: "risk_scope \<Rightarrow> bool" where
  "storable_scope s \<longleftrightarrow> risk_scope_init s = Inr s \<and> iso_year (rs_market_date s)"

definition storable_mark :: "position_valuation \<Rightarrow> bool" where
  "storable_mark v \<longleftrightarrow> position_valuation_init v = Inr v \<and> wf_money (pv_liquidation_value v)
     \<and> valid_datetime (pv_observed_at v)"

definition storable_valuation :: "portfolio_valuation \<Rightarrow> bool" where
  "storable_valuation v \<longleftrightarrow> portfolio_valuation_init v = Inr v \<and> wf_money (pf_equity v)
     \<and> valid_datetime (pf_assembled_at v) \<and> list_all storable_mark (pf_positions v)"

definition storable_observation :: "tzdb \<Rightarrow> weather_evidence \<Rightarrow> bool" where
  "storable_observation tz w \<longleftrightarrow> weather_evidence_init tz (PyDecimal (wo_temperature w)) w = Inr w
     \<and> is_decimal (wo_temperature w) \<and> iso_year (wo_market_date w) \<and> valid_datetime (wo_retrieved_at w)
     \<and> (case wo_source_timestamp w of None \<Rightarrow> True | Some t \<Rightarrow> valid_datetime t)"

definition storable_payout :: "outcome_payout \<Rightarrow> bool" where
  "storable_payout p \<longleftrightarrow> outcome_payout_init p = Inr p \<and> nonblank (op_outcome_id p)"

definition storable_evidence :: "tzdb \<Rightarrow> resolution_evidence \<Rightarrow> bool" where
  "storable_evidence tz e \<longleftrightarrow> resolution_evidence_init tz e = Inr e \<and> iso_year (re_market_date e)
     \<and> valid_datetime (re_retrieved_at e) \<and> valid_datetime (re_finalized_at e)
     \<and> list_all storable_payout (re_payouts e)"

definition storable_resolution :: "market_resolution \<Rightarrow> bool" where
  "storable_resolution r \<longleftrightarrow> market_resolution_init r = Inr r \<and> valid_datetime (mr_resolved_at r)
     \<and> list_all storable_payout (mr_payouts r)"

fun storable_body :: "tzdb \<Rightarrow> event_body \<Rightarrow> bool" where
  "storable_body tz (AccountOpened m) = wf_money m"
| "storable_body tz (OrderIntentCreated i) = storable_intent i"
| "storable_body tz (OrderSubmitted i _) = nonblank i"
| "storable_body tz (OrderAcknowledged i) = nonblank i"
| "storable_body tz (FillReceived f) = (nonblank (fl_intent_id f) \<and> wf_money (fl_fee f))"
| "storable_body tz (OrderRejected i _) = nonblank i"
| "storable_body tz (OrderCancelled i _) = nonblank i"
| "storable_body tz (OrderOutcomeUnknown i _) = nonblank i"
| "storable_body tz (WeatherObservationRecorded w) = storable_observation tz w"
| "storable_body tz (MarketResolutionEvidenceRecorded e) = storable_evidence tz e"
| "storable_body tz (MarketResolved r) = storable_resolution r"
| "storable_body tz (PositionSettled m oc fee) = (nonblank m \<and> nonblank oc \<and> wf_money fee)"
| "storable_body tz (RiskScopeRegistered s) = storable_scope s"
| "storable_body tz (PortfolioValuationRecorded v) = storable_valuation v"

definition storable :: "tzdb \<Rightarrow> (string \<Rightarrow> string) \<Rightarrow> ledger_event \<Rightarrow> bool" where
  "storable tz sha e \<longleftrightarrow> event_init sha e = Inr e \<and> valid_datetime (ev_occurred_at e)
     \<and> storable_body tz (ev_body e)"

section \<open>Reading values back\<close>

named_theorems codec_read \<open>values read from their own data\<close>

lemma as_text_nonblank [codec_read]: "nonblank s \<Longrightarrow> as_text (JStr s) label = Inr s"
  by (simp add: nonblank_def as_text.simps(1))

lemma text_decimal_fmt6 [codec_read]: "dec6 x \<Longrightarrow> text_decimal (fmt6 x) label = Inr x"
  by (simp add: text_decimal_def parse_fmt6 dec6_grid)

lemma text_decimal_text [codec_read]: "is_decimal x \<Longrightarrow> text_decimal (decimal_text x) label = Inr x"
  by (simp add: text_decimal_def parse_decimal_text)

lemma text_date_iso [codec_read]: "iso_year d \<Longrightarrow> text_date (iso_date d) label = Inr d"
  by (simp add: text_date_def fromisoformat_date)

lemma text_datetime_iso [codec_read]: "valid_datetime d \<Longrightarrow> text_datetime (isoformat d) label = Inr d"
  by (simp add: text_datetime_def fromisoformat_isoformat)

lemma nonblank_chars: "c \<in> set s \<Longrightarrow> \<not> is_space c \<Longrightarrow> nonblank s"
  unfolding nonblank_def strip_def
  by (metis (no_types, lifting) dropWhile_eq_Nil_conv rev_is_Nil_conv set_rev set_dropWhileD dropWhile_eq_self_iff list.set_sel(1) hd_dropWhile)

lemma nonblank_decimal [codec_read]:
  "dec6 x \<Longrightarrow> nonblank (fmt6 x)" "is_decimal y \<Longrightarrow> nonblank (decimal_text y)"
proof -
  have read: "nonblank s" if "parse_decimal s \<noteq> None" for s
  proof (rule ccontr)
    assume "\<not> nonblank s"
    then have "strip s = strip []" by (simp add: nonblank_def strip_def)
    then have "parse_decimal s = parse_decimal []" by (simp only: parse_decimal_def)
    moreover have "parse_decimal [] = None" by code_simp
    ultimately show False using that by simp
  qed
  show "dec6 x \<Longrightarrow> nonblank (fmt6 x)" by (rule read) (simp add: parse_fmt6 dec6_grid)
  show "is_decimal y \<Longrightarrow> nonblank (decimal_text y)" by (rule read) (simp add: parse_decimal_text)
qed

lemma nonblank_iso [codec_read]: "nonblank (iso_date d)" "nonblank (isoformat t)"
proof -
  have "CHR ''-'' \<in> set (iso_date d)" for d
    by (cases "civil_of_days d") (simp add: iso_date_def)
  moreover have "\<not> is_space (CHR ''-'')" by code_simp
  ultimately show "nonblank (iso_date d)" "nonblank (isoformat t)"
    by (auto intro!: nonblank_chars [of "CHR ''-''"] simp: isoformat_def)
qed

lemma nonblank_literals:
  "nonblank ''buy''" "nonblank ''sell''" "nonblank ''provisional''" "nonblank ''final''"
  "nonblank ''revised''" "nonblank ''verified''" "nonblank ''void''"
  by code_simp+

lemma side_read [codec_read]: "nonblank (side_value s)" "side_of (side_value s) = Inr s"
  by (cases s; simp add: nonblank_literals side_of_def)+

lemma observation_status_read [codec_read]:
  "nonblank (observation_status_value st)" "observation_status_of (observation_status_value st) = Inr st"
  by (cases st; simp add: nonblank_literals observation_status_of_def)+

lemma resolution_status_read [codec_read]:
  "nonblank (resolution_status_value r)" "resolution_status_of (resolution_status_value r) = Inr r"
  by (cases r; simp add: nonblank_literals resolution_status_of_def)+

lemma expect_keys_same [codec_read]: "set (map fst d) = set ks \<Longrightarrow> expect_keys d ks label = Inr ()"
  by (simp add: expect_keys_def list_all_iff)

lemma item_Cons [codec_read]: "item ((k, v) # d) k' = (if k = k' then Inr v else item d k')"
  by (simp add: item_def jget_def)

lemma field_Cons [codec_read]:
  "text_at ((k, v) # d) label k' = (if k = k' then as_text v (label @ ''.'' @ k) else text_at d label k')"
  "optional_text_at ((k, v) # d) label k' =
     (if k = k' then as_optional_text v (label @ ''.'' @ k) else optional_text_at d label k')"
  "plain_text ((k, v) # d) k' = (if k = k' then as_text v k else plain_text d k')"
  by (simp_all add: text_at_def optional_text_at_def plain_text_def item_Cons)

lemma optional_text_read [codec_read]:
  "(case s of None \<Rightarrow> True | Some t \<Rightarrow> nonblank t) \<Longrightarrow> as_optional_text (opt_json s) label = Inr s"
  by (cases s) (simp_all add: opt_json_def codec_read)

lemma required_nonblank:
  "require_text s label = Inr t \<Longrightarrow> nonblank s" "require_url s label = Inr t \<Longrightarrow> nonblank s"
  "require_hash s label = Inr t \<Longrightarrow> nonblank s"
  by (auto simp: nonblank_def require_url_def require_hash_def rbind_eq_Inr dest!: require_text_InrD)

lemma money_read [codec_read]: "wf_money m \<Longrightarrow> money_from_data (money_to_data m) label = Inr m"
proof -
  assume m: "wf_money m"
  then have "nonblank (currency m)"
    by (auto simp: wf_money_def cur_ok_def nonblank_def upper_def)
  then show ?thesis using wf_money_dest [OF m]
    by (cases m) (simp add: money_from_data_def money_to_data_def decimal_at_def codec_read mk_money_ok)
qed

lemma money_field [codec_read]:
  "money_at ((k, v) # d) label k' = (if k = k' then money_from_data v (label @ ''.'' @ k) else money_at d label k')"
  "plain_money ((k, v) # d) k' = (if k = k' then money_from_data v k else plain_money d k')"
  by (simp_all add: money_at_def plain_money_def item_Cons)

lemmas read_defs = decimal_at_def date_at_def datetime_at_def plain_decimal_def

lemma intent_read:
  assumes "storable_intent i"
  shows "intent_from_data (intent_to_data i) = Inr i"
proof -
  have init: "order_intent_init i = Inr i" and fee: "wf_money (oi_fee_reserve i)"
    and at: "valid_datetime (oi_created_at i)"
    using assms by (simp_all add: storable_intent_def)
  have names: "nonblank (oi_intent_id i)" "nonblank (oi_strategy_id i)" "nonblank (oi_decision_id i)"
    "nonblank (oi_market_id i)" "nonblank (oi_outcome_id i)"
    using init by (auto simp: order_intent_init_def result_simps dest!: required_nonblank)
  have "wf_intent i" by (rule order_intent_init_wf [OF init fee])
  then have dec: "dec6 (oi_quantity i)" "dec6 (oi_limit_price i)" by (simp_all add: wf_intent_def)
  show ?thesis
    using init fee at names dec
    by (cases i) (simp add: intent_from_data_def intent_to_data_def read_defs codec_read)
qed

lemma rmap_id: "(\<And>x. x \<in> set xs \<Longrightarrow> f (g x) = Inr x) \<Longrightarrow> rmap (\<lambda>x. f (g x)) xs = Inr xs"
  by (induction xs) simp_all

lemma rmap_InrD: "rmap f xs = Inr ys \<Longrightarrow> x \<in> set xs \<Longrightarrow> \<exists>y. f x = Inr y"
  by (induction xs arbitrary: ys) (auto simp: rbind_eq_Inr)

lemma scope_read:
  assumes "storable_scope s"
  shows "risk_scope_from_data (risk_scope_to_data s) = Inr s"
proof -
  have init: "risk_scope_init s = Inr s" and day: "iso_year (rs_market_date s)"
    using assms by (simp_all add: storable_scope_def)
  have names: "nonblank (rs_market_id s)" "nonblank (rs_outcome_id s)" "nonblank (rs_event_id s)"
    "nonblank (rs_city_key s)"
    using init by (auto simp: risk_scope_init_def result_simps dest!: required_nonblank)
  have "nonblank g" if "g \<in> set (rs_correlation_groups s)" for g
    using init that by (auto simp: risk_scope_init_def result_simps dest!: rmap_InrD required_nonblank)
  then have groups: "rmap (\<lambda>g. as_text (JStr g) label) (rs_correlation_groups s) = Inr (rs_correlation_groups s)" for label
    by (intro rmap_id as_text_nonblank)
  show ?thesis
    using init day names groups
    by (cases s) (simp add: risk_scope_from_data_def risk_scope_to_data_def read_defs codec_read rmap_map)
qed

lemma mark_read:
  assumes "storable_mark v"
  shows "mark_from_data (position_valuation_to_data v) = Inr v"
proof -
  have init: "position_valuation_init v = Inr v" and money: "wf_money (pv_liquidation_value v)"
    and at: "valid_datetime (pv_observed_at v)"
    using assms by (simp_all add: storable_mark_def)
  have names: "nonblank (pv_market_id v)" "nonblank (pv_outcome_id v)"
    using init by (auto simp: position_valuation_init_def result_simps dest!: required_nonblank)
  have "\<exists>q. quantize6 (pv_quantity v) = Inr q \<and> v\<lparr>pv_quantity := q\<rparr> = v"
    using init by (auto simp: position_valuation_init_def result_simps)
  then have dec: "dec6 (pv_quantity v)"
    by (metis position_valuation.select_convs(3) position_valuation.surjective position_valuation.update_convs(3) quantize6_result)
  show ?thesis
    using init money at names dec
    by (cases v) (simp add: mark_from_data_def position_valuation_to_data_def read_defs codec_read)
qed

lemma valuation_read:
  assumes "storable_valuation v"
  shows "portfolio_valuation_from_data (portfolio_valuation_to_data v) = Inr v"
proof -
  have init: "portfolio_valuation_init v = Inr v" and money: "wf_money (pf_equity v)"
    and at: "valid_datetime (pf_assembled_at v)" and marks: "list_all storable_mark (pf_positions v)"
    using assms by (simp_all add: storable_valuation_def)
  have names: "nonblank (pf_source v)"
    using init by (auto simp: portfolio_valuation_init_def result_simps dest!: required_nonblank)
  have "rmap (\<lambda>m. mark_from_data (position_valuation_to_data m)) (pf_positions v) = Inr (pf_positions v)"
    using marks by (intro rmap_id mark_read) (simp add: list_all_iff)
  then show ?thesis
    using init money at names
    by (cases v) (simp add: portfolio_valuation_from_data_def portfolio_valuation_to_data_def read_defs codec_read rmap_map)
qed

lemma observation_read:
  assumes "storable_observation tz w"
  shows "observation_from_data tz (observation_to_data w) = Inr w"
proof -
  have init: "weather_evidence_init tz (PyDecimal (wo_temperature w)) w = Inr w"
    and dec: "is_decimal (wo_temperature w)" and at: "iso_year (wo_market_date w)" "valid_datetime (wo_retrieved_at w)"
    and source: "case wo_source_timestamp w of None \<Rightarrow> True | Some t \<Rightarrow> valid_datetime t"
    using assms by (simp_all add: storable_observation_def)
  have names: "nonblank (wo_market_id w)" "nonblank (wo_source_name w)" "nonblank (wo_source_url w)"
    "nonblank (wo_station_id w)" "nonblank (wo_measurement_basis w)" "nonblank (wo_market_timezone w)"
    "nonblank (wo_unit w)" "nonblank (wo_source_revision w)" "nonblank (wo_payload_hash w)"
    using init by (auto simp: weather_evidence_init_def result_simps Let_def nonblank_def [of "wo_market_id w"]
      dest!: required_nonblank split: if_splits)
  have given: "case wo_supersedes w of None \<Rightarrow> True | Some h \<Rightarrow> nonblank h"
    using init by (auto simp: weather_evidence_init_def supersedes_check_def result_simps Let_def
      dest!: required_nonblank split: if_splits option.splits)
  have stamp: "optional_datetime (map_option isoformat (wo_source_timestamp w)) label = Inr (wo_source_timestamp w)"
    "case map_option isoformat (wo_source_timestamp w) of None \<Rightarrow> True | Some t \<Rightarrow> nonblank t" for label
    using source by (cases "wo_source_timestamp w"; simp add: optional_datetime_def codec_read)+
  show ?thesis
    using init dec at names given stamp
    by (cases w) (simp add: observation_from_data_def observation_to_data_def read_defs codec_read)
qed

lemma payouts_read:
  assumes "list_all storable_payout ps"
  shows "rmap (\<lambda>p. payout_from_data label (payout_to_data p)) ps = Inr ps"
proof (rule rmap_id)
  fix p assume "p \<in> set ps"
  then have p: "outcome_payout_init p = Inr p" "nonblank (op_outcome_id p)"
    using assms by (simp_all add: storable_payout_def list_all_iff)
  then have "dec6 (op_payout p)" using outcome_payout_init_wf [of p p] by (simp add: wf_payout_def)
  then show "payout_from_data label (payout_to_data p) = Inr p"
    using p by (cases p) (simp add: payout_from_data_def payout_to_data_def read_defs codec_read)
qed

lemma payouts_at_Cons [codec_read]:
  "payouts_at ((k, v) # d) label =
     (if k = ''payouts'' then rbind (as_sequence v (label @ ''.payouts'')) (rmap (payout_from_data (label @ ''.payouts'')))
      else payouts_at d label)"
  by (simp add: payouts_at_def item_Cons)

lemma evidence_read:
  assumes "storable_evidence tz e"
  shows "evidence_from_data tz (evidence_to_data e) = Inr e"
proof -
  have init: "resolution_evidence_init tz e = Inr e"
    and at: "iso_year (re_market_date e)" "valid_datetime (re_retrieved_at e)" "valid_datetime (re_finalized_at e)"
    and payouts: "list_all storable_payout (re_payouts e)"
    using assms by (simp_all add: storable_evidence_def)
  have names: "nonblank (re_market_id e)" "nonblank (re_condition_id e)" "nonblank (re_source_name e)"
    "nonblank (re_source_url e)" "nonblank (re_declared_resolution_source e)" "nonblank (re_market_timezone e)"
    "nonblank (re_resolution_value e)" "nonblank (re_payload_hash e)"
    using init by (auto simp: resolution_evidence_init_def result_simps Let_def nonblank_def [of "re_market_id e"]
      dest!: required_nonblank split: if_splits)
  show ?thesis
    using init at names payouts_read [OF payouts]
    by (cases e) (simp add: evidence_from_data_def evidence_to_data_def read_defs codec_read rmap_map)
qed

lemma resolution_read:
  assumes "storable_resolution r"
  shows "resolution_from_data (resolution_to_data r) = Inr r"
proof -
  have init: "market_resolution_init r = Inr r" and at: "valid_datetime (mr_resolved_at r)"
    and payouts: "list_all storable_payout (mr_payouts r)"
    using assms by (simp_all add: storable_resolution_def)
  have names: "nonblank (mr_market_id r)"
    using init by (auto simp: market_resolution_init_def result_simps dest!: required_nonblank)
  show ?thesis
    using init at names payouts_read [OF payouts]
    by (cases r) (simp add: resolution_from_data_def resolution_to_data_def read_defs codec_read rmap_map)
qed

section \<open>Reading events back\<close>

lemma body_read:
  assumes "event_body_init sha eid t b = Inr b" and "storable_body tz b"
  shows "\<exists>required decoder. body_decoder tz (event_type b) = Some (required, decoder)
    \<and> set (map fst (body_data b)) = set required
    \<and> decoder ((''event_id'', x) # (''occurred_at'', y) # body_data b) = Inr b"
proof (cases b)
  case (FillReceived f)
  then have "fill_init f = Inr f" "wf_money (fl_fee f)" "nonblank (fl_intent_id f)"
    using assms by (auto simp: rbind_eq_Inr)
  moreover from this have "wf_fill f" by (blast intro: fill_init_wf)
  moreover have "nonblank (fl_fill_id f)"
    using \<open>fill_init f = Inr f\<close> by (auto simp: fill_init_def result_simps nonblank_def split: if_splits)
  ultimately show ?thesis
    using FillReceived by (cases f) (simp add: body_decoder_def read_defs codec_read wf_fill_def)
qed (use assms in \<open>simp add: body_decoder_def reason_body_def require_reason_def codec_read intent_read
  scope_read valuation_read observation_read evidence_read resolution_read result_simps
  nonblank_def [symmetric] split: if_splits\<close>)+

lemma common_read:
  assumes "event_init sha e = Inr e" and "valid_datetime (ev_occurred_at e)"
    and "set (map fst (body_data (ev_body e))) = set required"
  shows "common ([(''event_id'', JStr (ev_event_id e)), (''occurred_at'', JStr (isoformat (ev_occurred_at e)))]
    @ body_data (ev_body e)) required = Inr (ev_event_id e, ev_occurred_at e)"
proof -
  have "nonblank (ev_event_id e)"
    using assms(1) by (auto simp: event_init_def domain_event_init_def rbind_eq_Inr nonblank_def split: if_splits)
  then show ?thesis
    using assms(2,3) by (auto simp: common_def read_defs codec_read)
qed

lemma nonblank_event_type: "nonblank (event_type b)"
  by (cases b; simp; code_simp)

lemma decode_envelope_read:
  assumes "storable tz sha e" and "event_envelope e = JObj d"
  shows "decode_envelope tz sha d = Inr e"
proof -
  have e: "event_init sha e = Inr e" "valid_datetime (ev_occurred_at e)" "storable_body tz (ev_body e)"
    using assms(1) by (simp_all add: storable_def)
  then have "event_body_init sha (ev_event_id e) (ev_occurred_at e) (ev_body e) = Inr (ev_body e)"
    by (cases e) (auto simp: event_init_def rbind_eq_Inr)
  then obtain required decoder where
    "body_decoder tz (event_type (ev_body e)) = Some (required, decoder)"
    "set (map fst (body_data (ev_body e))) = set required"
    "decoder ([(''event_id'', JStr (ev_event_id e)), (''occurred_at'', JStr (isoformat (ev_occurred_at e)))]
       @ body_data (ev_body e)) = Inr (ev_body e)"
    using body_read [OF _ e(3)] by fastforce
  then show ?thesis
    using e(1) common_read [OF e(1,2)] assms(2)
    by (cases e) (auto simp: decode_envelope_def event_envelope_def event_data_def codec_read nonblank_event_type)
qed

text \<open>Every encoded event is JSON with distinct keys and without floats.\<close>

lemma valid_opt_json [simp]: "valid_json (opt_json s)"
  by (cases s) (simp_all add: opt_json_def)

lemma valid_list [simp]: "(\<And>x. valid_json (f x)) \<Longrightarrow> valid_json (JArr (map f xs))"
  by (simp add: list_all_iff)

lemma valid_values [simp]:
  "valid_json (money_to_data m)" "valid_json (payout_to_data p)"
  by (simp_all add: money_to_data_def payout_to_data_def)

lemma valid_events [simp]:
  "valid_json (intent_to_data i)" "valid_json (risk_scope_to_data s)"
  "valid_json (position_valuation_to_data v)" "valid_json (observation_to_data w)"
  "valid_json (evidence_to_data ev)" "valid_json (resolution_to_data r)"
  by (simp_all add: intent_to_data_def risk_scope_to_data_def position_valuation_to_data_def
    observation_to_data_def evidence_to_data_def resolution_to_data_def list_all_iff)

lemma valid_valuation [simp]: "valid_json (portfolio_valuation_to_data v)"
  by (simp add: portfolio_valuation_to_data_def list_all_iff)

lemma valid_envelope: "valid_json (event_envelope e)"
  by (cases "ev_body e") (simp_all add: event_envelope_def event_data_def)

lemma decode_encode:
  assumes "storable tz sha e"
  shows "decode_event tz sha (en_payload_json (encode_event sha e)) = Inr e"
proof -
  obtain d where d: "event_envelope e = JObj d" by (simp add: event_envelope_def)
  have "en_payload_json (encode_event sha e) = canonical_json (event_envelope e)"
    by (simp add: encode_event_def Let_def split: prod.split)
  moreover have "load_json (canonical_json (event_envelope e)) = Inr (JObj (sort_data d))"
    using load_canonical_json [OF valid_envelope [of e]] d by (simp add: sort_data_def)
  ultimately show ?thesis
    using decode_envelope_read [OF assms d]
    by (simp add: decode_event_def load_json_object_def decode_envelope_sort)
qed

text \<open>A storable event is well formed.\<close>

lemma storable_wf: "storable tz sha e \<Longrightarrow> wf_event e"
proof -
  assume s: "storable tz sha e"
  have "wf_parts (ev_body e)"
  proof (cases "ev_body e")
    case (OrderIntentCreated i)
    then show ?thesis using s by (auto simp: storable_def storable_intent_def intro: order_intent_init_wf)
  next
    case (MarketResolved r)
    then have "list_all storable_payout (mr_payouts r)" using s by (simp add: storable_def storable_resolution_def)
    then show ?thesis
      using MarketResolved
      by (auto simp: wf_resolution_def storable_payout_def list_all_iff intro: outcome_payout_init_wf)
  next
    case (PortfolioValuationRecorded v)
    then have v: "storable_valuation v" using s by (simp add: storable_def)
    have "dec6 (pv_quantity m) \<and> wf_money (pv_liquidation_value m) \<and> 0 \<le> amount (pv_liquidation_value m)"
      if mark: "storable_mark m" for m
    proof -
      obtain x where x: "quantize6 (pv_quantity m) = Inr x" "m\<lparr>pv_quantity := x\<rparr> = m"
        and rest: "wf_money (pv_liquidation_value m)" "0 \<le> amount (pv_liquidation_value m)"
        using mark
        by (auto simp: storable_mark_def position_valuation_init_def rbind_eq_Inr require_nonnegative_def
            is_negative_def split: if_splits)
      have "pv_quantity m = x" using arg_cong [OF x(2), of pv_quantity] by simp
      then show ?thesis using x(1) rest quantize6_result by blast
    qed
    then show ?thesis
      using PortfolioValuationRecorded v
      by (auto simp: wf_valuation_def storable_valuation_def portfolio_valuation_init_def rbind_eq_Inr list_all_iff
          split: if_splits)
  qed (use s in \<open>simp_all add: storable_def\<close>)
  then show ?thesis using event_init_wf [of sha e e] s by (simp add: storable_def)
qed

text \<open>C24. The ledger codec loses nothing: an event that its constructor accepts, with printable times and
  no blank identifier, is decoded from its canonical JSON as the same event, through every key and type
  check; so two such events have the same payload only if they are the same event.\<close>

theorem codec_roundtrip:
  assumes "storable tz sha e" and "storable tz sha f"
  shows "decode_event tz sha (en_payload_json (encode_event sha e)) = Inr e
    \<and> (en_payload_json (encode_event sha e) = en_payload_json (encode_event sha f) \<longleftrightarrow> e = f)"
proof (intro conjI iffI)
  show e: "decode_event tz sha (en_payload_json (encode_event sha e)) = Inr e"
    by (rule decode_encode [OF assms(1)])
  assume "en_payload_json (encode_event sha e) = en_payload_json (encode_event sha f)"
  then have "(Inr e :: ledger_event result) = Inr f"
    unfolding e [symmetric] decode_encode [OF assms(2), symmetric] by (rule arg_cong)
  then show "e = f" by simp
qed simp

end
