(* ===== verification/Fingerprints.thy ===== *)
theory Fingerprints
  imports Codec_Props Ledger_Props
begin

text \<open>
  \<^verbatim>\<open>_canonicalize\<close> and \<^verbatim>\<open>fingerprint\<close> of \<open>weatherbot/domain/events.py\<close>: the canonical
  JSON of an event, with every dataclass tagged by its qualified name, printed in ASCII with sorted
  keys and hashed. The canonical text determines the event, so the ledger tells an event identifier
  that is delivered again from one that is reused.
\<close>

section \<open>Canonical values\<close>

text \<open>
  A Python value as \<^verbatim>\<open>_canonicalize\<close> tells them apart. A decimal kept at six places prints six
  digits, any other one its shortest text; the keys of a mapping are strings.
\<close>

datatype domain_value = VData string "(string \<times> domain_value) list" | VAmount decimal | VDecimal decimal
  | VTime datetime | VDate date | VEnum string | VMap "(string \<times> domain_value) list"
  | VSeq "domain_value list" | VText string | VNone

primrec canonicalize :: "domain_value \<Rightarrow> json" where
  "canonicalize (VData name fs) =
     JObj ((''__type__'', JStr name) # map (map_prod id canonicalize) fs)"
| "canonicalize (VAmount x) = JStr (fmt6 x)"
| "canonicalize (VDecimal x) = JStr (decimal_text x)"
| "canonicalize (VTime t) = JStr (isoformat t)"
| "canonicalize (VDate d) = JStr (iso_date d)"
| "canonicalize (VEnum v) = JStr v"
| "canonicalize (VMap entries) = JObj (sort_key fst (map (map_prod id canonicalize) entries))"
| "canonicalize (VSeq vs) = JArr (map canonicalize vs)"
| "canonicalize (VText s) = JStr s"
| "canonicalize VNone = JNull"

text \<open>\<^verbatim>\<open>json.dumps\<close> with its default \<^verbatim>\<open>ensure_ascii\<close>.\<close>

primrec ascii_json :: "json \<Rightarrow> string" where
  "ascii_json JNull = ''null''"
| "ascii_json (JBool b) = (if b then ''true'' else ''false'')"
| "ascii_json (JInt n) = show_int n"
| "ascii_json (JFloat s) = s"
| "ascii_json (JStr s) = json_string s"
| "ascii_json (JArr vs) = CHR ''['' # join (map ascii_json vs) @ '']''"
| "ascii_json (JObj ps) =
     CHR ''{'' # join (map (\<lambda>p. json_string (fst p) @ CHR '':'' # snd p) (map (map_prod id ascii_json) ps)) @ ''}''"

definition canonical_text :: "domain_value \<Rightarrow> string" where
  "canonical_text v = ascii_json (sort_json (canonicalize v))"

definition fingerprint :: "(string \<Rightarrow> string) \<Rightarrow> domain_value \<Rightarrow> string" where
  "fingerprint sha v = sha (canonical_text v)"

section \<open>The fields of the dataclasses\<close>

definition money_value :: "money \<Rightarrow> domain_value" where
  "money_value m = VData ''weatherbot.domain.money.Money''
     [(''amount'', VAmount (amount m)), (''currency'', VText (currency m))]"

definition intent_value :: "order_intent \<Rightarrow> domain_value" where
  "intent_value i = VData ''weatherbot.domain.model.OrderIntent''
     [(''intent_id'', VText (oi_intent_id i)), (''strategy_id'', VText (oi_strategy_id i)),
      (''decision_id'', VText (oi_decision_id i)), (''market_id'', VText (oi_market_id i)),
      (''outcome_id'', VText (oi_outcome_id i)), (''side'', VEnum (side_value (oi_side i))),
      (''quantity'', VAmount (oi_quantity i)), (''limit_price'', VAmount (oi_limit_price i)),
      (''fee_reserve'', money_value (oi_fee_reserve i)), (''created_at'', VTime (oi_created_at i))]"

definition scope_value :: "risk_scope \<Rightarrow> domain_value" where
  "scope_value s = VData ''weatherbot.domain.risk.RiskScope''
     [(''market_id'', VText (rs_market_id s)), (''outcome_id'', VText (rs_outcome_id s)),
      (''event_id'', VText (rs_event_id s)), (''city_key'', VText (rs_city_key s)),
      (''market_date'', VDate (rs_market_date s)),
      (''correlation_groups'', VSeq (map VText (rs_correlation_groups s)))]"

definition mark_value :: "position_valuation \<Rightarrow> domain_value" where
  "mark_value v = VData ''weatherbot.domain.risk.PositionValuation''
     [(''market_id'', VText (pv_market_id v)), (''outcome_id'', VText (pv_outcome_id v)),
      (''quantity'', VAmount (pv_quantity v)),
      (''liquidation_value'', money_value (pv_liquidation_value v)),
      (''observed_at'', VTime (pv_observed_at v))]"

definition valuation_value :: "portfolio_valuation \<Rightarrow> domain_value" where
  "valuation_value v = VData ''weatherbot.domain.risk.PortfolioValuation''
     [(''positions'', VSeq (map mark_value (pf_positions v))), (''equity'', money_value (pf_equity v)),
      (''assembled_at'', VTime (pf_assembled_at v)), (''source'', VText (pf_source v))]"

definition optional_field :: "('a \<Rightarrow> domain_value) \<Rightarrow> 'a option \<Rightarrow> domain_value" where
  "optional_field f v = (case v of None \<Rightarrow> VNone | Some x \<Rightarrow> f x)"

definition observation_value :: "weather_evidence \<Rightarrow> domain_value" where
  "observation_value w = VData ''weatherbot.domain.observation.WeatherObservationEvidence''
     [(''market_id'', VText (wo_market_id w)), (''source_name'', VText (wo_source_name w)),
      (''source_url'', VText (wo_source_url w)), (''station_id'', VText (wo_station_id w)),
      (''measurement_basis'', VText (wo_measurement_basis w)),
      (''market_date'', VDate (wo_market_date w)), (''market_timezone'', VText (wo_market_timezone w)),
      (''temperature'', VDecimal (wo_temperature w)), (''unit'', VText (wo_unit w)),
      (''retrieved_at'', VTime (wo_retrieved_at w)),
      (''source_timestamp'', optional_field VTime (wo_source_timestamp w)),
      (''source_revision'', VText (wo_source_revision w)),
      (''status'', VEnum (observation_status_value (wo_status w))),
      (''payload_hash'', VText (wo_payload_hash w)),
      (''supersedes_payload_hash'', optional_field VText (wo_supersedes w))]"

definition payout_value :: "outcome_payout \<Rightarrow> domain_value" where
  "payout_value p = VData ''weatherbot.domain.model.OutcomePayout''
     [(''outcome_id'', VText (op_outcome_id p)), (''payout'', VAmount (op_payout p))]"

definition evidence_value :: "resolution_evidence \<Rightarrow> domain_value" where
  "evidence_value e = VData ''weatherbot.domain.resolution.MarketResolutionEvidence''
     [(''market_id'', VText (re_market_id e)), (''condition_id'', VText (re_condition_id e)),
      (''source_name'', VText (re_source_name e)), (''source_url'', VText (re_source_url e)),
      (''declared_resolution_source'', VText (re_declared_resolution_source e)),
      (''retrieved_at'', VTime (re_retrieved_at e)), (''finalized_at'', VTime (re_finalized_at e)),
      (''market_date'', VDate (re_market_date e)), (''market_timezone'', VText (re_market_timezone e)),
      (''status'', VEnum (resolution_status_value (re_status e))),
      (''resolution_value'', VText (re_resolution_value e)),
      (''payouts'', VSeq (map payout_value (re_payouts e))), (''payload_hash'', VText (re_payload_hash e))]"

definition resolution_value :: "market_resolution \<Rightarrow> domain_value" where
  "resolution_value r = VData ''weatherbot.domain.model.MarketResolution''
     [(''market_id'', VText (mr_market_id r)), (''payouts'', VSeq (map payout_value (mr_payouts r))),
      (''resolved_at'', VTime (mr_resolved_at r))]"

fun event_class :: "event_body \<Rightarrow> string" where
  "event_class (AccountOpened _) = ''AccountOpened''"
| "event_class (OrderIntentCreated _) = ''OrderIntentCreated''"
| "event_class (OrderSubmitted _ _) = ''OrderSubmitted''"
| "event_class (OrderAcknowledged _) = ''OrderAcknowledged''"
| "event_class (FillReceived _) = ''FillReceived''"
| "event_class (OrderRejected _ _) = ''OrderRejected''"
| "event_class (OrderCancelled _ _) = ''OrderCancelled''"
| "event_class (OrderOutcomeUnknown _ _) = ''OrderOutcomeUnknown''"
| "event_class (WeatherObservationRecorded _) = ''WeatherObservationRecorded''"
| "event_class (MarketResolutionEvidenceRecorded _) = ''MarketResolutionEvidenceRecorded''"
| "event_class (MarketResolved _) = ''MarketResolved''"
| "event_class (PositionSettled _ _ _) = ''PositionSettled''"
| "event_class (RiskScopeRegistered _) = ''RiskScopeRegistered''"
| "event_class (PortfolioValuationRecorded _) = ''PortfolioValuationRecorded''"

fun body_fields :: "event_body \<Rightarrow> (string \<times> domain_value) list" where
  "body_fields (AccountOpened m) = [(''initial_cash'', money_value m)]"
| "body_fields (OrderIntentCreated i) = [(''intent'', intent_value i)]"
| "body_fields (OrderSubmitted i b) = [(''intent_id'', VText i), (''backend_order_id'', VText b)]"
| "body_fields (OrderAcknowledged i) = [(''intent_id'', VText i)]"
| "body_fields (FillReceived f) =
     [(''intent_id'', VText (fl_intent_id f)), (''fill_id'', VText (fl_fill_id f)),
      (''quantity'', VAmount (fl_quantity f)), (''price'', VAmount (fl_price f)),
      (''fee'', money_value (fl_fee f))]"
| "body_fields (OrderRejected i r) = [(''intent_id'', VText i), (''reason'', VText r)]"
| "body_fields (OrderCancelled i r) = [(''intent_id'', VText i), (''reason'', VText r)]"
| "body_fields (OrderOutcomeUnknown i r) = [(''intent_id'', VText i), (''reason'', VText r)]"
| "body_fields (WeatherObservationRecorded w) = [(''evidence'', observation_value w)]"
| "body_fields (MarketResolutionEvidenceRecorded e) = [(''evidence'', evidence_value e)]"
| "body_fields (MarketResolved r) = [(''resolution'', resolution_value r)]"
| "body_fields (PositionSettled m oc fee) =
     [(''market_id'', VText m), (''outcome_id'', VText oc), (''fee'', money_value fee)]"
| "body_fields (RiskScopeRegistered s) = [(''scope'', scope_value s)]"
| "body_fields (PortfolioValuationRecorded v) = [(''valuation'', valuation_value v)]"

definition event_value :: "ledger_event \<Rightarrow> domain_value" where
  "event_value e = VData (''weatherbot.domain.events.'' @ event_class (ev_body e))
     ((''event_id'', VText (ev_event_id e)) # (''occurred_at'', VTime (ev_occurred_at e))
      # body_fields (ev_body e))"

definition event_fingerprint :: "(string \<Rightarrow> string) \<Rightarrow> ledger_event \<Rightarrow> string" where
  "event_fingerprint sha e = fingerprint sha (event_value e)"

text \<open>The delivery payload of a fill is the canonical text of its mapping.\<close>

lemma fill_payload_canonical:
  "fill_payload f = canonical_text (VMap
     [(''intent_id'', VText (fl_intent_id f)), (''fill_id'', VText (fl_fill_id f)),
      (''quantity'', VAmount (fl_quantity f)), (''price'', VAmount (fl_price f)),
      (''fee'', money_value (fl_fee f))])"
  by (simp add: fill_payload_def money_json_def canonical_text_def money_value_def json_object_def)

section \<open>The text determines the value\<close>

text \<open>Canonical values hold no numbers or booleans, and such values print prefix-free.\<close>

primrec textual :: "json \<Rightarrow> bool" where
  "textual JNull = True"
| "textual (JBool b) = False"
| "textual (JInt n) = False"
| "textual (JFloat s) = False"
| "textual (JStr s) = True"
| "textual (JArr vs) = list_all id (map textual vs)"
| "textual (JObj ps) = list_all snd (map (map_prod id textual) ps)"

definition prefix_free :: "json \<Rightarrow> bool" where
  "prefix_free v \<longleftrightarrow> (\<forall>w x y. textual w \<longrightarrow> ascii_json v @ x = ascii_json w @ y \<longrightarrow> v = w \<and> x = y)"

definition ascii_member :: "string \<times> json \<Rightarrow> string" where
  "ascii_member p = json_string (fst p) @ CHR '':'' # ascii_json (snd p)"

lemma ascii_members:
  "map (\<lambda>p. json_string (fst p) @ CHR '':'' # snd p) (map (map_prod id ascii_json) ps) = map ascii_member ps"
  by (simp add: ascii_member_def)

lemma join_Cons: "join (s # ss) = s @ (if ss = [] then [] else CHR '','' # join ss)"
  by (cases ss) simp_all

lemma ascii_json_starts:
  assumes "textual v"
  shows "\<exists>c cs. ascii_json v = c # cs \<and> c \<noteq> CHR '']'' \<and> c \<noteq> CHR ''}'' \<and> c \<noteq> CHR '',''"
  using assms by (cases v) (simp_all add: json_string_def)

lemma join_prefix_free:
  assumes "\<And>a. a \<in> set as \<Longrightarrow> P a \<and> (\<forall>b x y. P b \<longrightarrow> p a @ x = p b @ y \<longrightarrow> a = b \<and> x = y)"
    and "list_all P bs" and starts: "\<And>a. P a \<Longrightarrow> \<exists>c cs. p a = c # cs \<and> c \<noteq> z" and "z \<noteq> CHR '',''"
    and "join (map p as) @ z # x = join (map p bs) @ z # y"
  shows "as = bs \<and> x = y"
  using assms(1,2,5)
proof (induction as arbitrary: bs)
  case Nil
  show ?case
  proof (cases bs)
    case (Cons b bs')
    then obtain c cs where "p b = c # cs" "c \<noteq> z" using Nil.prems(2) starts [of b] by auto
    then show ?thesis using Nil.prems(3) Cons by (simp add: join_Cons)
  qed (use Nil.prems(3) in simp)
next
  case (Cons a as)
  have a: "P a" "\<And>b x y. P b \<Longrightarrow> p a @ x = p b @ y \<Longrightarrow> a = b \<and> x = y"
    using Cons.prems(1) [of a] by auto
  show ?case
  proof (cases bs)
    case Nil
    then show ?thesis using Cons.prems(3) starts [OF a(1)] by (auto simp: join_Cons)
  next
    case (Cons b bs')
    let ?tail = "\<lambda>es u. (if es = [] then [] else CHR '','' # join (map p es)) @ z # u"
    have eq: "p a @ ?tail as x = p b @ ?tail bs' y" using Cons.prems(3) Cons by (simp add: join_Cons)
    have "P b" using Cons.prems(2) Cons by simp
    then have ab: "a = b" "?tail as x = ?tail bs' y" using a(2) [OF _ eq] by blast+
    then have e: "as = [] \<longleftrightarrow> bs' = []" using assms(4) by (auto split: if_splits)
    show ?thesis
    proof (cases "as = []")
      case True
      then show ?thesis using ab e Cons by simp
    next
      case False
      then have "join (map p as) @ z # x = join (map p bs') @ z # y" using ab(2) e by simp
      then have "as = bs' \<and> x = y"
        by (intro Cons.IH) (use Cons.prems(1,2) Cons in auto)
      then show ?thesis using ab(1) Cons by simp
    qed
  qed
qed

lemma textual_prefix_free: "textual v \<Longrightarrow> prefix_free v"
proof (induction v)
  case JNull
  show ?case
  proof (unfold prefix_free_def, intro allI impI)
    fix w x y
    assume "textual w" "ascii_json JNull @ x = ascii_json w @ y"
    then show "JNull = w \<and> x = y" by (cases w) (simp_all add: json_string_def)
  qed
next
  case (JStr s)
  show ?case
  proof (unfold prefix_free_def, intro allI impI)
    fix w x y
    assume "textual w" "ascii_json (JStr s) @ x = ascii_json w @ y"
    then show "JStr s = w \<and> x = y"
      by (cases w) (auto simp: json_string_append_eq, simp_all add: json_string_def)
  qed
next
  case (JArr vs)
  show ?case
  proof (unfold prefix_free_def, intro allI impI)
    fix w x y
    assume w: "textual w" "ascii_json (JArr vs) @ x = ascii_json w @ y"
    then obtain ws where ws: "w = JArr ws" "list_all textual ws"
      "join (map ascii_json vs) @ CHR '']'' # x = join (map ascii_json ws) @ CHR '']'' # y"
      by (cases w) (simp_all add: json_string_def list_all_iff)
    have "textual v \<and> (\<forall>u x y. textual u \<longrightarrow> ascii_json v @ x = ascii_json u @ y \<longrightarrow> v = u \<and> x = y)"
      if "v \<in> set vs" for v
    proof -
      have v: "textual v" using JArr.prems that by (simp add: list_all_iff)
      show ?thesis using v JArr.IH [OF that v] unfolding prefix_free_def by blast
    qed
    moreover have "\<exists>c cs. ascii_json v = c # cs \<and> c \<noteq> CHR '']''" if "textual v" for v
      using ascii_json_starts [OF that] by blast
    ultimately have "vs = ws \<and> x = y" by (rule join_prefix_free [OF _ ws(2) _ _ ws(3)]) simp_all
    then show "JArr vs = w \<and> x = y" using ws(1) by simp
  qed
next
  case (JObj ps)
  have member: "fst p = fst q \<and> snd p = snd q \<and> x = y"
    if "p \<in> set ps" "textual (snd q)" "ascii_member p @ x = ascii_member q @ y" for p q x y
  proof -
    have "textual (snd p)" using JObj.prems that(1) by (auto simp: list_all_iff)
    then have "prefix_free (snd p)" using JObj.IH [of p "snd p"] that(1) by (cases p) auto
    then show ?thesis
      using that(2,3) by (auto simp: ascii_member_def json_string_append_eq prefix_free_def)
  qed
  show ?case
  proof (unfold prefix_free_def, intro allI impI)
    fix w x y
    assume w: "textual w" "ascii_json (JObj ps) @ x = ascii_json w @ y"
    then obtain qs where w': "w = JObj qs" by (cases w) (simp_all add: json_string_def)
    then have qs: "w = JObj qs" "list_all (\<lambda>q. textual (snd q)) qs"
      "join (map ascii_member ps) @ CHR ''}'' # x = join (map ascii_member qs) @ CHR ''}'' # y"
      using w unfolding ascii_json.simps ascii_members w' by (simp_all add: list_all_iff)
    have "textual (snd p) \<and> (\<forall>q x y. textual (snd q) \<longrightarrow> ascii_member p @ x = ascii_member q @ y \<longrightarrow>
        p = q \<and> x = y)" if "p \<in> set ps" for p
      using JObj.prems that member [OF that] by (auto simp: list_all_iff prod_eq_iff)
    then have "ps = qs \<and> x = y"
      by (rule join_prefix_free [OF _ qs(2) _ _ qs(3)]) (simp_all add: ascii_member_def json_string_def)
    then show "JObj ps = w \<and> x = y" using qs(1) by simp
  qed
qed simp_all

lemma ascii_json_inj:
  assumes "textual v" and "textual w" and "ascii_json v = ascii_json w"
  shows "v = w"
  using textual_prefix_free [OF assms(1)] assms(2,3) unfolding prefix_free_def by (metis append_Nil2)

lemma textual_sort: "textual v \<Longrightarrow> textual (sort_json v)"
proof (induction v)
  case (JObj ps)
  then have "textual (sort_json u)" if "(k, u) \<in> set ps" for k u
    using that by (fastforce simp: list_all_iff)
  then show ?case by (auto simp: list_all_iff)
qed (auto simp: list_all_iff)

lemma textual_canonicalize: "textual (canonicalize v)"
proof (induction v)
  case (VData name fs)
  then have "textual (canonicalize u)" if "(k, u) \<in> set fs" for k u using that by fastforce
  then show ?case by (auto simp: list_all_iff)
next
  case (VMap entries)
  then have "textual (canonicalize u)" if "(k, u) \<in> set entries" for k u using that by fastforce
  then show ?case by (auto simp: list_all_iff)
qed (auto simp: list_all_iff)

lemma canonical_text_inj:
  "canonical_text v = canonical_text w \<Longrightarrow> sort_json (canonicalize v) = sort_json (canonicalize w)"
  unfolding canonical_text_def
  by (rule ascii_json_inj) (simp_all add: textual_sort textual_canonicalize)

section \<open>Canonical events and the codec's data\<close>

text \<open>Without its type tags, the canonical JSON of an event is the data the codec writes.\<close>

primrec untagged :: "json \<Rightarrow> json" where
  "untagged JNull = JNull"
| "untagged (JBool b) = JBool b"
| "untagged (JInt n) = JInt n"
| "untagged (JFloat s) = JFloat s"
| "untagged (JStr s) = JStr s"
| "untagged (JArr vs) = JArr (map untagged vs)"
| "untagged (JObj ps) = JObj (filter (\<lambda>p. fst p \<noteq> ''__type__'') (map (map_prod id untagged) ps))"

lemma map_sort_key: "(\<And>p. fst (h p) = fst p) \<Longrightarrow> map h (sort_key fst ps) = sort_key fst (map h ps)"
proof (induction ps)
  case (Cons p ps)
  have "map h (insort_key fst p qs) = insort_key fst (h p) (map h qs)" for qs
    using Cons.prems by (induction qs) simp_all
  then show ?case using Cons by simp
qed simp

lemma untagged_sort: "untagged (sort_json v) = sort_json (untagged v)"
proof (induction v)
  case (JObj ps)
  let ?P = "\<lambda>p. fst p \<noteq> ''__type__''" and ?u = "map_prod id untagged" and ?s = "map_prod id sort_json"
  have "map ?u (map ?s ps) = map ?s (map ?u ps)" using JObj by fastforce
  moreover have "filter ?P (map ?s qs) = map ?s (filter ?P qs)" for qs
    by (simp add: filter_map comp_def)
  ultimately show ?case by (simp add: map_sort_key filter_sort del: map_map)
qed simp_all

lemma untagged_opt [simp]:
  "untagged (canonicalize (optional_field VText s)) = opt_json s"
  "untagged (canonicalize (optional_field VTime t)) = opt_json (map_option isoformat t)"
  by (cases s; simp add: optional_field_def opt_json_def)
    (cases t; simp add: optional_field_def opt_json_def)

lemma untagged_values [simp]:
  "untagged (canonicalize (money_value m)) = money_to_data m"
  "untagged (canonicalize (payout_value p)) = payout_to_data p"
  "untagged (canonicalize (scope_value s)) = risk_scope_to_data s"
  "untagged (canonicalize (observation_value w)) = observation_to_data w"
  by (simp_all add: money_value_def money_to_data_def payout_value_def payout_to_data_def
    scope_value_def risk_scope_to_data_def observation_value_def observation_to_data_def comp_def)

lemma untagged_nested [simp]:
  "untagged (canonicalize (intent_value i)) = intent_to_data i"
  "untagged (canonicalize (mark_value v)) = position_valuation_to_data v"
  "untagged (canonicalize (evidence_value e)) = evidence_to_data e"
  "untagged (canonicalize (resolution_value r)) = resolution_to_data r"
  by (simp_all add: intent_value_def intent_to_data_def mark_value_def position_valuation_to_data_def
    evidence_value_def evidence_to_data_def resolution_value_def resolution_to_data_def comp_def)

lemma untagged_valuation [simp]:
  "untagged (canonicalize (valuation_value v)) = portfolio_valuation_to_data v"
  by (simp add: valuation_value_def portfolio_valuation_to_data_def comp_def)

lemma untagged_event: "untagged (canonicalize (event_value e)) = event_data e"
  by (cases "ev_body e") (simp_all add: event_value_def event_data_def)

definition class_types :: "(string \<times> string) list" where
  "class_types =
     [(''AccountOpened'', ''account_opened''), (''OrderIntentCreated'', ''order_intent_created''),
      (''OrderSubmitted'', ''order_submitted''), (''OrderAcknowledged'', ''order_acknowledged''),
      (''FillReceived'', ''fill_received''), (''OrderRejected'', ''order_rejected''),
      (''OrderCancelled'', ''order_cancelled''), (''OrderOutcomeUnknown'', ''order_outcome_unknown''),
      (''WeatherObservationRecorded'', ''weather_observation_recorded''),
      (''MarketResolutionEvidenceRecorded'', ''market_resolution_evidence_recorded''),
      (''MarketResolved'', ''market_resolved''), (''PositionSettled'', ''position_settled''),
      (''RiskScopeRegistered'', ''risk_scope_registered''),
      (''PortfolioValuationRecorded'', ''portfolio_valuation_recorded'')]"

lemma class_type: "map_of class_types (event_class b) = Some (event_type b)"
  by (cases b) (simp_all add: class_types_def)

lemma sorted_tag:
  assumes "sort_json (JObj d) = sort_json (JObj d')"
  shows "map_option sort_json (map_of d k) = map_option sort_json (map_of d' k)"
proof -
  have "sort_data d = sort_data d'" using assms by (simp add: sort_data_def)
  then show ?thesis using jget_sort [of d k] jget_sort [of d' k] by (simp add: jget_def)
qed

lemma event_tag:
  obtains d where "canonicalize (event_value e) = JObj d"
    "map_of d ''__type__'' = Some (JStr (''weatherbot.domain.events.'' @ event_class (ev_body e)))"
  by (simp add: event_value_def)

text \<open>The canonical text of an event that the ledger can store determines the event.\<close>

lemma event_text_inj:
  assumes "storable tz sha e" and "storable tz sha f"
    and "canonical_text (event_value e) = canonical_text (event_value f)"
  shows "e = f"
proof -
  have s: "sort_json (canonicalize (event_value e)) = sort_json (canonicalize (event_value f))"
    by (rule canonical_text_inj [OF assms(3)])
  obtain d where d: "canonicalize (event_value e) = JObj d"
    "map_of d ''__type__'' = Some (JStr (''weatherbot.domain.events.'' @ event_class (ev_body e)))"
    by (rule event_tag)
  obtain d' where d': "canonicalize (event_value f) = JObj d'"
    "map_of d' ''__type__'' = Some (JStr (''weatherbot.domain.events.'' @ event_class (ev_body f)))"
    by (rule event_tag)
  have "event_class (ev_body e) = event_class (ev_body f)"
    using sorted_tag [OF s [unfolded d(1) d'(1)], of "''__type__''"] unfolding d(2) d'(2) by simp
  then have t: "event_type (ev_body e) = event_type (ev_body f)"
    using class_type [of "ev_body e"] class_type [of "ev_body f"] by simp
  have "sort_json (event_data e) = sort_json (event_data f)"
    using arg_cong [OF s, of untagged] by (simp only: untagged_sort untagged_event)
  then have "canonical_json (event_envelope e) = canonical_json (event_envelope f)"
    using t by (simp add: canonical_json_def event_envelope_def)
  then have "en_payload_json (encode_event sha e) = en_payload_json (encode_event sha f)"
    by (simp add: encode_event_def Let_def split: prod.split)
  then have "(Inr e :: ledger_event result) = Inr f"
    unfolding decode_encode [OF assms(1), symmetric] decode_encode [OF assms(2), symmetric]
    by (rule arg_cong)
  then show ?thesis by simp
qed

text \<open>C10. An event identifier is never reused. After a replay over the code's own fingerprint, an
  event with the identifier of a replayed event and any other contents is refused as a conflict: two
  different events have different canonical texts, so unless SHA-256 collides on the two texts their
  fingerprints differ. (Both events come from their constructors and can be stored: printable times,
  no blank identifiers.)\<close>

theorem identifier_conflict:
  assumes "replay sha (event_fingerprint sha) cur es = Inr s" and "list_all (storable tz sha) es"
    and "e \<in> set es" and "storable tz sha e'" and "ev_event_id e' = ev_event_id e" and "e' \<noteq> e"
    and "sha (canonical_text (event_value e')) = sha (canonical_text (event_value e)) \<longrightarrow>
      canonical_text (event_value e') = canonical_text (event_value e)"
  shows "apply_event sha (event_fingerprint sha) s e' =
    Inl (DuplicateEventConflict ''event identifier was reused with different data'')"
proof -
  have e: "storable tz sha e" and wf: "list_all wf_event es"
    using assms(2,3) storable_wf by (auto simp: list_all_iff)
  have "event_fingerprint sha e' \<noteq> event_fingerprint sha e"
    using event_text_inj [OF assms(4) e] assms(6,7) by (auto simp: event_fingerprint_def fingerprint_def)
  then show ?thesis
    using replay_recorded [OF assms(1) wf assms(3)] assms(5) by (simp add: apply_event_def)
qed

end
