(* ===== verification/Strict_Input.thy ===== *)
theory Strict_Input
  imports Money
begin

text \<open>
  The strict decimal parser that \<open>markets/orderbook.py\<close>, \<open>quoting/model.py\<close>,
  \<open>forecasting/model.py\<close> and the ratio parsers of \<open>risk/\<close> repeat, each with its own
  error class: unlike the money coercion it accepts floats (through \<^verbatim>\<open>str\<close>) and does
  not quantize.
\<close>

text \<open>
  \<^verbatim>\<open>Decimal(str(value))\<close>: \<open>None\<close> where the constructor raises, \<open>Some None\<close> for a
  value that is not finite. The \<^verbatim>\<open>str()\<close> of any other object is taken not to be a
  numeral.
\<close>

fun decimal_of_text :: "py_value \<Rightarrow> decimal option option" where
  "decimal_of_text (PyDecimal x) = Some (Some x)"
| "decimal_of_text PyDecimalSpecial = Some None"
| "decimal_of_text (PyInt n) = Some (Some (of_int n))"
| "decimal_of_text (PyStr s) = parse_decimal s"
| "decimal_of_text (PyFloat _ s) = parse_decimal s"
| "decimal_of_text (PyFloatSpecial s) = parse_decimal s"
| "decimal_of_text (PyBool _) = None"
| "decimal_of_text PyOther = None"

definition strict_decimal :: "(string \<Rightarrow> exc) \<Rightarrow> py_value \<Rightarrow> string \<Rightarrow> decimal result" where
  "strict_decimal err v label =
     (case decimal_of_text v of
        None \<Rightarrow> Inl (err (label @ '' must be decimal''))
      | Some None \<Rightarrow> Inl (err (label @ '' must be finite''))
      | Some (Some x) \<Rightarrow> Inr x)"

lemma strict_decimal_Decimal [simp]: "strict_decimal err (PyDecimal x) label = Inr x"
  by (simp add: strict_decimal_def)

lemma to_utc_idem [simp]: "to_utc (to_utc d) = to_utc d" "dt_aware (to_utc d)"
    "dt_micros (to_utc d) = dt_micros d"
  by (simp_all add: to_utc_def dt_aware_def)

end
