(* ===== verification/Weather_Snapshot.thy ===== *)
theory Weather_Snapshot
  imports Evidence Strict_Input
begin

text \<open>
  The point-in-time weather inputs of \<open>forecasting/model.py\<close>: daily-high forecasts that cover
  exactly one local day, station observations and the snapshot that joins them.
\<close>

section \<open>Decimals and timestamps\<close>

definition weather_decimal :: "py_value \<Rightarrow> string \<Rightarrow> decimal result" where
  "weather_decimal = strict_decimal WeatherInputError"

definition weather_utc :: "datetime \<Rightarrow> string \<Rightarrow> datetime result" where
  "weather_utc d label =
     (if \<not> dt_aware d then Inl (WeatherInputError (label @ '' must be timezone-aware''))
      else Inr (to_utc d))"

section \<open>Forecasts and observations\<close>

text \<open>The trimmed name of a zone and its rules.\<close>

definition weather_timezone :: "tzdb \<Rightarrow> string \<Rightarrow> (string \<times> zone) result" where
  "weather_timezone tz name =
     (let normalized = strip name
      in if normalized = [] then Inl (WeatherInputError ''market timezone must not be blank'')
         else case tz normalized of
             None \<Rightarrow> Inl (WeatherInputError ''unknown IANA timezone'')
           | Some z \<Rightarrow> Inr (normalized, z))"

text \<open>Local midnight of a day in a zone, as a UTC instant.\<close>

definition local_midnight :: "zone \<Rightarrow> date \<Rightarrow> int" where
  "local_midnight z d = z_utc z (d * micros_per_day)"

text \<open>The age of a datum in microseconds.\<close>

definition weather_age :: "datetime \<Rightarrow> datetime \<Rightarrow> string \<Rightarrow> timedelta result" where
  "weather_age reference datum_time label =
     rbind (weather_utc reference ''age reference'') (\<lambda>r.
     rbind (weather_utc datum_time label) (\<lambda>d.
     let age = dt_micros r - dt_micros d
     in if age < - seconds 5
        then Inl (WeatherInputError (label @ '' is unexpectedly in the future''))
        else Inr (max 0 age)))"

record forecast =
  fc_temperature :: decimal
  fc_market_date :: date
  fc_market_timezone :: string
  fc_issued_at :: datetime
  fc_valid_from :: datetime
  fc_valid_until :: datetime
  fc_retrieved_at :: datetime
  fc_model_run :: "datetime option"

definition utc_option :: "datetime option \<Rightarrow> string \<Rightarrow> datetime option result" where
  "utc_option d label =
     (case d of None \<Rightarrow> Inr None | Some t \<Rightarrow> rbind (weather_utc t label) (\<lambda>u. Inr (Some u)))"

definition model_run_check :: "datetime \<Rightarrow> datetime option \<Rightarrow> unit result" where
  "model_run_check retrieved run =
     (case run of
        None \<Rightarrow> Inr ()
      | Some r \<Rightarrow>
          if dt_micros retrieved + seconds 5 < dt_micros r
          then Inl (WeatherInputError ''forecast model run is later than retrieval time'')
          else Inr ())"

definition forecast_init :: "tzdb \<Rightarrow> py_value \<Rightarrow> forecast \<Rightarrow> forecast result" where
  "forecast_init tz raw_temperature f =
     rbind (weather_decimal raw_temperature ''forecast temperature'') (\<lambda>temperature.
     rbind (weather_timezone tz (fc_market_timezone f)) (\<lambda>(name, z).
     rbind (weather_utc (fc_issued_at f) ''forecast issue time'') (\<lambda>issued.
     rbind (weather_utc (fc_valid_from f) ''forecast valid-from time'') (\<lambda>valid_from.
     rbind (weather_utc (fc_valid_until f) ''forecast valid-until time'') (\<lambda>valid_until.
     rbind (weather_utc (fc_retrieved_at f) ''forecast retrieval time'') (\<lambda>retrieved.
     rbind (utc_option (fc_model_run f) ''forecast model-run initialization time'') (\<lambda>run.
     rbind (model_run_check retrieved run) (\<lambda>_.
     if dt_micros retrieved + seconds 5 < dt_micros issued
     then Inl (WeatherInputError ''forecast issue time is later than retrieval time'')
     else if dt_micros valid_until \<le> dt_micros valid_from
     then Inl (WeatherInputError ''forecast valid interval must be positive'')
     else if dt_micros valid_from \<noteq> local_midnight z (fc_market_date f)
             \<or> dt_micros valid_until \<noteq> local_midnight z (fc_market_date f + 1)
     then Inl (WeatherInputError
            ''daily-high forecast validity must cover exactly one market-local day'')
     else Inr (f\<lparr>fc_temperature := temperature, fc_market_timezone := name,
            fc_issued_at := issued, fc_valid_from := valid_from, fc_valid_until := valid_until,
            fc_retrieved_at := retrieved, fc_model_run := run\<rparr>)))))))))"

definition forecast_age_at :: "forecast \<Rightarrow> datetime \<Rightarrow> timedelta result" where
  "forecast_age_at f reference = weather_age reference (fc_issued_at f) ''forecast issue time''"

record observation =
  ob_temperature :: decimal
  ob_station_id :: string
  ob_market_timezone :: string
  ob_issued_at :: datetime
  ob_valid_at :: datetime
  ob_retrieved_at :: datetime
  ob_provider_received :: "datetime option"

definition observation_time_check :: "datetime \<Rightarrow> unit \<Rightarrow> string \<times> datetime option \<Rightarrow> unit result" where
  "observation_time_check retrieved u entry =
     (case snd entry of
        None \<Rightarrow> Inr ()
      | Some t \<Rightarrow>
          if dt_micros retrieved + seconds 300 < dt_micros t
          then Inl (WeatherInputError (fst entry @ '' is later than retrieval time'')) else Inr ())"

definition observation_init :: "tzdb \<Rightarrow> py_value \<Rightarrow> observation \<Rightarrow> observation result" where
  "observation_init tz raw_temperature w =
     rbind (weather_decimal raw_temperature ''observation temperature'') (\<lambda>temperature.
     let station = upper (strip (ob_station_id w))
     in if station = [] then Inl (WeatherInputError ''observation station must not be blank'') else
     rbind (weather_timezone tz (ob_market_timezone w)) (\<lambda>(name, z).
     rbind (weather_utc (ob_issued_at w) ''observation issue time'') (\<lambda>issued.
     rbind (weather_utc (ob_valid_at w) ''observation valid time'') (\<lambda>valid.
     rbind (weather_utc (ob_retrieved_at w) ''observation retrieval time'') (\<lambda>retrieved.
     rbind (utc_option (ob_provider_received w) ''observation provider-received time'') (\<lambda>received.
     rbind (rfold (observation_time_check retrieved) ()
              [(''observation issue time'', Some issued), (''observation valid time'', Some valid),
               (''observation provider-received time'', received)]) (\<lambda>_.
     Inr (w\<lparr>ob_temperature := temperature, ob_station_id := station, ob_market_timezone := name,
            ob_issued_at := issued, ob_valid_at := valid, ob_retrieved_at := retrieved,
            ob_provider_received := received\<rparr>))))))))"

definition observation_market_date :: "tzdb \<Rightarrow> observation \<Rightarrow> date result" where
  "observation_market_date tz w =
     rbind (weather_timezone tz (ob_market_timezone w)) (\<lambda>(name, z).
     Inr (local_date z (ob_valid_at w)))"

section \<open>The snapshot\<close>

record weather_snapshot =
  ws_forecast :: forecast
  ws_observation :: "observation option"
  ws_assembled_at :: datetime

definition snapshot_observation_check ::
    "tzdb \<Rightarrow> forecast \<Rightarrow> datetime \<Rightarrow> observation option \<Rightarrow> unit result" where
  "snapshot_observation_check tz f assembled w =
     (case w of
        None \<Rightarrow> Inr ()
      | Some x \<Rightarrow>
          if ob_market_timezone x \<noteq> fc_market_timezone f
          then Inl (WeatherInputError ''forecast and observation timezones do not match'')
          else rbind (observation_market_date tz x) (\<lambda>d.
            if d \<noteq> fc_market_date f
            then Inl (WeatherInputError ''observation local date does not match forecast market date'')
            else if dt_micros assembled + seconds 5 < dt_micros (ob_retrieved_at x)
            then Inl (WeatherInputError ''weather snapshot predates its observation retrieval'')
            else Inr ()))"

definition weather_snapshot_init :: "tzdb \<Rightarrow> weather_snapshot \<Rightarrow> weather_snapshot result" where
  "weather_snapshot_init tz w =
     rbind (weather_utc (ws_assembled_at w) ''weather snapshot assembly time'') (\<lambda>assembled.
     if dt_micros assembled + seconds 5 < dt_micros (fc_retrieved_at (ws_forecast w))
     then Inl (WeatherInputError ''weather snapshot predates its forecast retrieval'') else
     rbind (snapshot_observation_check tz (ws_forecast w) assembled (ws_observation w)) (\<lambda>_.
     Inr (w\<lparr>ws_assembled_at := assembled\<rparr>)))"

text \<open>The signal input: an observation never replaces the forecast.\<close>

definition signal_temperature :: "weather_snapshot \<Rightarrow> decimal" where
  "signal_temperature w = fc_temperature (ws_forecast w)"

section \<open>What a constructed snapshot guarantees\<close>

lemma weather_utc_InrD: "weather_utc d l = Inr u \<Longrightarrow> dt_aware d \<and> u = to_utc d"
  by (auto simp: weather_utc_def split: if_splits)

definition wf_forecast :: "tzdb \<Rightarrow> forecast \<Rightarrow> bool" where
  "wf_forecast tz f \<longleftrightarrow>
     dt_aware (fc_issued_at f) \<and> dt_aware (fc_retrieved_at f)
     \<and> dt_micros (fc_issued_at f) \<le> dt_micros (fc_retrieved_at f) + seconds 5
     \<and> (case tz (fc_market_timezone f) of
          None \<Rightarrow> False
        | Some z \<Rightarrow>
            dt_micros (fc_valid_from f) = local_midnight z (fc_market_date f)
            \<and> dt_micros (fc_valid_until f) = local_midnight z (fc_market_date f + 1)
            \<and> dt_micros (fc_valid_from f) < dt_micros (fc_valid_until f))"

lemma forecast_init_wf: "forecast_init tz v f = Inr g \<Longrightarrow> wf_forecast tz g"
  by (auto simp: forecast_init_def wf_forecast_def result_simps weather_timezone_def Let_def
      split: option.splits if_splits dest!: weather_utc_InrD)

lemma weather_snapshot_init_aware:
  "weather_snapshot_init tz w = Inr v \<Longrightarrow> dt_aware (ws_assembled_at v)
     \<and> ws_forecast v = ws_forecast w
     \<and> dt_micros (fc_retrieved_at (ws_forecast v)) \<le> dt_micros (ws_assembled_at v) + seconds 5"
  by (auto simp: weather_snapshot_init_def result_simps dest!: weather_utc_InrD)

lemma snapshot_same_day:
  assumes "weather_snapshot_init tz w = Inr v" and "ws_observation v = Some x"
  shows "observation_market_date tz x = Inr (fc_market_date (ws_forecast v))"
  using assms
  by (auto simp: weather_snapshot_init_def snapshot_observation_check_def result_simps)

end
