(* ===== verification/Quoting.thy ===== *)
theory Quoting
  imports Weather_Snapshot Order_Book
begin

text \<open>
  \<open>weatherbot/quoting/model.py\<close> and \<open>weatherbot/quoting/evaluator.py\<close>: freshness and cost
  policies, the validated executable quote with every check of its constructor, and the evaluation
  and revalidation of a buy. Ages are kept in microseconds (the code compares their
  \<^verbatim>\<open>total_seconds()\<close>, which orders them alike below \<open>2 ^ 33\<close> seconds). Decimal fields
  of a constructed object hold finite decimals, on which \<^verbatim>\<open>as_decimal\<close> is the identity.
  The fingerprint and metadata renderings are not modelled.
\<close>

section \<open>Inputs and policies\<close>

definition quote_decimal :: "py_value \<Rightarrow> string \<Rightarrow> decimal result" where
  "quote_decimal v label = strict_decimal QuoteValidationError v label"

definition quote_utc :: "datetime \<Rightarrow> string \<Rightarrow> datetime result" where
  "quote_utc d label =
     (if \<not> dt_aware d then Inl (QuoteValidationError (label @ '' must be timezone-aware''))
      else Inr (to_utc d))"

datatype depth_policy = REJECT | REDUCE

datatype quote_rejection_reason =
    INVALID_INPUT | SNAPSHOT_MISMATCH | STALE_FORECAST | STALE_EVENT | STALE_ORDER_BOOK
  | STALE_BALANCE | INSUFFICIENT_BALANCE | INSUFFICIENT_DEPTH | BELOW_MINIMUM_ORDER
  | PRICE_EXCEEDED | SLIPPAGE_EXCEEDED | NON_POSITIVE_EDGE | FEE_ERASED_EDGE
  | EXPECTED_RETURN_BELOW_FLOOR

record freshness_policy =
  fp_forecast_age :: timedelta
  fp_event_age :: timedelta
  fp_order_book_age :: timedelta
  fp_balance_age :: timedelta
  fp_future_tolerance :: timedelta

definition require_positive_age :: "unit \<Rightarrow> string \<times> timedelta \<Rightarrow> unit result" where
  "require_positive_age u entry =
     (if snd entry \<le> 0 then Inl (QuoteValidationError (fst entry @ '' must be positive'')) else Inr ())"

definition freshness_policy_init :: "freshness_policy \<Rightarrow> freshness_policy result" where
  "freshness_policy_init p =
     rbind (rfold require_positive_age ()
              [(''maximum forecast age'', fp_forecast_age p), (''maximum event age'', fp_event_age p),
               (''maximum order-book age'', fp_order_book_age p),
               (''maximum balance age'', fp_balance_age p)]) (\<lambda>_.
     if fp_future_tolerance p < 0
     then Inl (QuoteValidationError ''future tolerance must not be negative'') else Inr p)"

record cost_policy =
  cp_platform_fee_rate :: decimal
  cp_transaction_cost :: decimal
  cp_safety_margin_rate :: decimal
  cp_maximum_average_slippage :: decimal
  cp_maximum_worst_slippage :: decimal
  cp_maximum_all_in_price :: decimal
  cp_minimum_expected_return :: decimal
  cp_depth_policy :: depth_policy

definition require_not_negative :: "unit \<Rightarrow> string \<times> decimal \<Rightarrow> unit result" where
  "require_not_negative u entry =
     (if snd entry < 0 then Inl (QuoteValidationError (fst entry @ '' must not be negative''))
      else Inr ())"

definition cost_policy_init ::
    "py_value \<Rightarrow> py_value \<Rightarrow> py_value \<Rightarrow> py_value \<Rightarrow> py_value \<Rightarrow> py_value \<Rightarrow> py_value \<Rightarrow> depth_policy \<Rightarrow>
     cost_policy result" where
  "cost_policy_init fee_rate transaction_cost safety_rate average worst price ret policy =
     rbind (quote_decimal fee_rate ''platform fee rate'') (\<lambda>fee_rate.
     rbind (quote_decimal transaction_cost ''transaction cost'') (\<lambda>transaction_cost.
     rbind (quote_decimal safety_rate ''safety margin rate'') (\<lambda>safety_rate.
     rbind (quote_decimal average ''maximum average slippage'') (\<lambda>average.
     rbind (quote_decimal worst ''maximum worst slippage'') (\<lambda>worst.
     rbind (quote_decimal price ''maximum all-in price'') (\<lambda>price.
     rbind (quote_decimal ret ''minimum expected return'') (\<lambda>ret.
     rbind (rfold require_not_negative ()
              [(''platform fee rate'', fee_rate), (''transaction cost'', transaction_cost),
               (''safety margin rate'', safety_rate), (''maximum average slippage'', average),
               (''maximum worst slippage'', worst), (''minimum expected return'', ret)]) (\<lambda>_.
     if price \<le> 0 \<or> 1 \<le> price
     then Inl (QuoteValidationError ''maximum all-in price must be greater than zero and less than one'')
     else if worst < average
     then Inl (QuoteValidationError ''maximum average slippage cannot exceed maximum worst slippage'')
     else Inr \<lparr>cp_platform_fee_rate = fee_rate, cp_transaction_cost = transaction_cost,
            cp_safety_margin_rate = safety_rate, cp_maximum_average_slippage = average,
            cp_maximum_worst_slippage = worst, cp_maximum_all_in_price = price,
            cp_minimum_expected_return = ret, cp_depth_policy = policy\<rparr>))))))))"

record market_event =
  me_event_id :: string
  me_retrieved_at :: datetime
  me_source_updated_at :: "datetime option"

definition source_update_check :: "datetime \<Rightarrow> datetime option \<Rightarrow> datetime option result" where
  "source_update_check retrieved updated =
     (case updated of
        None \<Rightarrow> Inr None
      | Some u \<Rightarrow>
          rbind (quote_utc u ''event source update time'') (\<lambda>u.
          if dt_micros retrieved + seconds 5 < dt_micros u
          then Inl (QuoteValidationError ''event source update time is later than retrieval time'')
          else Inr (Some u)))"

definition market_event_init :: "market_event \<Rightarrow> market_event result" where
  "market_event_init e =
     (let event_id = strip (me_event_id e)
      in if event_id = [] then Inl (QuoteValidationError ''event id must not be blank'') else
      rbind (quote_utc (me_retrieved_at e) ''event retrieval time'') (\<lambda>retrieved.
      rbind (source_update_check retrieved (me_source_updated_at e)) (\<lambda>updated.
      Inr (e\<lparr>me_event_id := event_id, me_retrieved_at := retrieved,
             me_source_updated_at := updated\<rparr>))))"

record balance_snapshot =
  bs_available_cash :: decimal
  bs_reserved_cash :: decimal
  bs_observed_at :: datetime
  bs_source :: string

definition balance_snapshot_init ::
    "py_value \<Rightarrow> py_value \<Rightarrow> balance_snapshot \<Rightarrow> balance_snapshot result" where
  "balance_snapshot_init raw_available raw_reserved s =
     rbind (quote_decimal raw_available ''available cash'') (\<lambda>available.
     rbind (quote_decimal raw_reserved ''reserved cash'') (\<lambda>reserved.
     if available < 0 \<or> reserved < 0
     then Inl (QuoteValidationError ''balance amounts must not be negative'')
     else if strip (bs_source s) = []
     then Inl (QuoteValidationError ''balance source must not be blank'') else
     rbind (quote_utc (bs_observed_at s) ''balance observation time'') (\<lambda>observed.
     Inr (s\<lparr>bs_available_cash := available, bs_reserved_cash := reserved,
            bs_observed_at := observed, bs_source := strip (bs_source s)\<rparr>))))"

record freshness_check =
  fk_label :: string
  fk_observed_at :: datetime
  fk_age :: timedelta
  fk_maximum_age :: timedelta

definition freshness_check_init :: "freshness_check \<Rightarrow> freshness_check result" where
  "freshness_check_init c =
     (let label = strip (fk_label c)
      in if label = [] then Inl (QuoteValidationError ''freshness label must not be blank'') else
      rbind (quote_utc (fk_observed_at c) (label @ '' observation time'')) (\<lambda>observed.
      if fk_age c < 0 \<or> fk_maximum_age c \<le> 0
      then Inl (QuoteValidationError ''freshness ages must be non-negative and bounded'')
      else Inr (c\<lparr>fk_label := label, fk_observed_at := observed\<rparr>)))"

definition is_fresh :: "freshness_check \<Rightarrow> bool" where
  "is_fresh c \<longleftrightarrow> fk_age c \<le> fk_maximum_age c"

section \<open>The validated quote\<close>

record validated_quote =
  vq_quote :: executable_quote
  vq_model_probability :: decimal
  vq_requested_budget :: decimal
  vq_book_budget_limit :: decimal
  vq_executable_budget :: decimal
  vq_freshness_policy :: freshness_policy
  vq_cost_policy :: cost_policy
  vq_platform_fee :: decimal
  vq_transaction_cost :: decimal
  vq_safety_margin :: decimal
  vq_total_all_in_cost :: decimal
  vq_all_in_average_price :: decimal
  vq_gross_expected_payout :: decimal
  vq_expected_profit :: decimal
  vq_expected_return :: decimal
  vq_probability_edge :: decimal
  vq_average_slippage :: decimal
  vq_worst_slippage :: decimal
  vq_depth_reduced :: bool
  vq_evaluated_at :: datetime
  vq_event_id :: string
  vq_freshness :: "(string, freshness_check) dict"

text \<open>The constructor's checks, in the code's order and in four groups.\<close>

definition check_budgets :: "validated_quote \<Rightarrow> unit result" where
  "check_budgets v =
     (if vq_model_probability v \<le> 0 \<or> 1 \<le> vq_model_probability v
      then Inl (QuoteValidationError ''model probability must be between zero and one'')
      else if vq_requested_budget v \<le> 0
      then Inl (QuoteValidationError ''requested budget must be positive'')
      else if vq_book_budget_limit v \<le> 0 \<or> vq_requested_budget v < vq_book_budget_limit v
      then Inl (QuoteValidationError ''book budget limit must be positive and within request'')
      else if vq_executable_budget v \<le> 0 \<or> vq_book_budget_limit v < vq_executable_budget v
      then Inl (QuoteValidationError
             ''executable budget must be positive and within the book budget limit'')
      else rfold require_not_negative ()
             [(''platform fee'', vq_platform_fee v), (''transaction cost'', vq_transaction_cost v),
              (''safety margin'', vq_safety_margin v), (''total all in cost'', vq_total_all_in_cost v),
              (''all in average price'', vq_all_in_average_price v),
              (''gross expected payout'', vq_gross_expected_payout v),
              (''average slippage'', vq_average_slippage v),
              (''worst slippage'', vq_worst_slippage v)])"

definition check_costs :: "validated_quote \<Rightarrow> unit result" where
  "check_costs v =
     (let q = vq_quote v; p = vq_cost_policy v
      in if vq_executable_budget v \<noteq> xq_total_cost q
         then Inl (QuoteValidationError ''executable budget must equal order-book cost'')
         else if vq_platform_fee v \<noteq> dec_mul (xq_total_cost q) (cp_platform_fee_rate p)
         then Inl (QuoteValidationError ''platform fee does not match the recorded policy'')
         else if vq_transaction_cost v \<noteq> cp_transaction_cost p
         then Inl (QuoteValidationError ''transaction cost does not match the recorded policy'')
         else if vq_safety_margin v \<noteq> dec_mul (xq_total_cost q) (cp_safety_margin_rate p)
         then Inl (QuoteValidationError ''safety margin does not match the recorded policy'')
         else if vq_average_slippage v \<noteq> dec_sub (xq_average_price q) (xq_best_ask q)
         then Inl (QuoteValidationError ''average slippage does not reconcile'')
         else if vq_worst_slippage v \<noteq> dec_sub (xq_worst_price q) (xq_best_ask q)
         then Inl (QuoteValidationError ''worst slippage does not reconcile'')
         else if cp_maximum_average_slippage p < vq_average_slippage v
         then Inl (QuoteValidationError ''average slippage exceeds the recorded policy'')
         else if cp_maximum_worst_slippage p < vq_worst_slippage v
         then Inl (QuoteValidationError ''worst slippage exceeds the recorded policy'')
         else if vq_total_all_in_cost v < xq_total_cost q
         then Inl (QuoteValidationError ''all-in cost cannot be below order-book cost'')
         else if vq_requested_budget v < vq_total_all_in_cost v
         then Inl (QuoteValidationError ''all-in cost exceeds the approved budget'')
         else Inr ())"

definition check_edge :: "validated_quote \<Rightarrow> unit result" where
  "check_edge v =
     (let q = vq_quote v; p = vq_cost_policy v in
      rbind (dec_div (vq_total_all_in_cost v) (xq_shares q)) (\<lambda>average.
      if vq_all_in_average_price v \<noteq> average
      then Inl (QuoteValidationError ''all-in average price does not reconcile'')
      else if vq_gross_expected_payout v \<noteq> dec_mul (vq_model_probability v) (xq_shares q)
      then Inl (QuoteValidationError ''expected payout does not reconcile'')
      else if vq_expected_profit v \<noteq> dec_sub (vq_gross_expected_payout v) (vq_total_all_in_cost v)
      then Inl (QuoteValidationError ''expected profit does not reconcile'') else
      rbind (dec_div (vq_expected_profit v) (vq_total_all_in_cost v)) (\<lambda>ret.
      if vq_expected_return v \<noteq> ret
      then Inl (QuoteValidationError ''expected return does not reconcile'')
      else if vq_probability_edge v \<noteq> dec_sub (vq_model_probability v) (vq_all_in_average_price v)
      then Inl (QuoteValidationError ''probability edge does not reconcile'')
      else if cp_maximum_all_in_price p \<le> vq_all_in_average_price v
      then Inl (QuoteValidationError ''all-in price exceeds the recorded policy'')
      else if vq_expected_profit v \<le> 0 \<or> vq_probability_edge v \<le> 0
      then Inl (QuoteValidationError ''validated quote must retain positive executable edge'')
      else if vq_expected_return v < cp_minimum_expected_return p
      then Inl (QuoteValidationError ''expected return is below the recorded policy'')
      else if vq_depth_reduced v \<noteq> (vq_executable_budget v < vq_book_budget_limit v)
      then Inl (QuoteValidationError ''depth reduction flag does not match the book budget'')
      else if vq_depth_reduced v \<and> cp_depth_policy p = REJECT
      then Inl (QuoteValidationError ''reject-depth policy cannot produce a reduced quote'')
      else Inr ())))"

definition expected_maximum_age :: "freshness_policy \<Rightarrow> string \<Rightarrow> timedelta option" where
  "expected_maximum_age p label =
     map_of [(''forecast'', fp_forecast_age p), (''event'', fp_event_age p),
             (''order_book'', fp_order_book_age p), (''balance'', fp_balance_age p)] label"

definition check_freshness_entry ::
    "freshness_policy \<Rightarrow> unit \<Rightarrow> string \<times> freshness_check \<Rightarrow> unit result" where
  "check_freshness_entry p u entry =
     (case expected_maximum_age p (fst entry) of
        None \<Rightarrow> Inl (QuoteValidationError ''unsupported freshness label'')
      | Some maximum \<Rightarrow>
          if fk_maximum_age (snd entry) \<noteq> maximum
          then Inl (QuoteValidationError ''freshness limit differs from the recorded policy'')
          else Inr ())"

definition check_quote_freshness :: "validated_quote \<Rightarrow> unit result" where
  "check_quote_freshness v =
     (if \<not> list_all (\<lambda>(label, c). is_fresh c) (vq_freshness v)
      then Inl (QuoteValidationError ''validated quote contains a stale freshness check'')
      else rfold (check_freshness_entry (vq_freshness_policy v)) () (vq_freshness v))"

definition validated_quote_init :: "validated_quote \<Rightarrow> validated_quote result" where
  "validated_quote_init v =
     rbind (check_budgets v) (\<lambda>_.
     rbind (quote_utc (vq_evaluated_at v) ''quote evaluation time'') (\<lambda>evaluated.
     let event_id = strip (vq_event_id v)
     in if event_id = [] then Inl (QuoteValidationError ''quote event id must not be blank'') else
     rbind (check_costs v) (\<lambda>_.
     rbind (check_edge v) (\<lambda>_.
     rbind (check_quote_freshness v) (\<lambda>_.
     Inr (v\<lparr>vq_evaluated_at := evaluated, vq_event_id := event_id\<rparr>))))))"

record quote_evaluation =
  qe_evaluated_at :: datetime
  qe_quote :: "validated_quote option"
  qe_rejection_reason :: "quote_rejection_reason option"
  qe_detail :: "string option"
  qe_freshness :: "(string, freshness_check) dict"

definition quote_evaluation_init :: "quote_evaluation \<Rightarrow> quote_evaluation result" where
  "quote_evaluation_init e =
     rbind (quote_utc (qe_evaluated_at e) ''quote evaluation time'') (\<lambda>evaluated.
     let ok = (qe_quote e \<noteq> None)
     in if ok = (qe_rejection_reason e \<noteq> None)
        then Inl (QuoteValidationError
               ''quote evaluation must contain either an accepted quote or a rejection'')
        else if ok \<and> qe_detail e \<noteq> None
        then Inl (QuoteValidationError ''accepted quote cannot contain rejection detail'')
        else if \<not> ok \<and> (case qe_detail e of None \<Rightarrow> True | Some d \<Rightarrow> strip d = [])
        then Inl (QuoteValidationError ''rejected quote requires a non-blank detail'')
        else Inr (e\<lparr>qe_evaluated_at := evaluated\<rparr>))"

definition accepted :: "quote_evaluation \<Rightarrow> bool" where
  "accepted e \<longleftrightarrow> qe_quote e \<noteq> None"

end
