(* ===== verification/Evaluator.thy ===== *)
theory Evaluator
  imports Quoting
begin

text \<open>
  \<open>weatherbot/quoting/evaluator.py\<close>: the freshness gates, the evaluation of one executable buy
  against the snapshots of decision time, and its revalidation against a refreshed book. A raised
  QuoteValidationError that the code does not catch is an \<open>Inl\<close>; a rejection is a value.
\<close>

section \<open>Freshness\<close>

definition age_check ::
    "datetime \<Rightarrow> datetime \<Rightarrow> timedelta \<Rightarrow> timedelta \<Rightarrow> string \<Rightarrow> freshness_check result" where
  "age_check observed_at evaluated_at maximum_age future_tolerance label =
     rbind (quote_utc observed_at (label @ '' observation time'')) (\<lambda>observed.
     rbind (quote_utc evaluated_at ''quote evaluation time'') (\<lambda>evaluated.
     let difference = dt_micros evaluated - dt_micros observed
     in if difference < - future_tolerance
        then Inl (QuoteValidationError (label @ '' timestamp is unexpectedly in the future''))
        else freshness_check_init
          \<lparr>fk_label = label, fk_observed_at = observed, fk_age = max 0 difference,
           fk_maximum_age = maximum_age\<rparr>))"

definition reject ::
    "datetime \<Rightarrow> quote_rejection_reason \<Rightarrow> string \<Rightarrow> (string, freshness_check) dict \<Rightarrow>
     quote_evaluation result" where
  "reject evaluated_at reason detail freshness =
     quote_evaluation_init
       \<lparr>qe_evaluated_at = evaluated_at, qe_quote = None, qe_rejection_reason = Some reason,
        qe_detail = Some detail, qe_freshness = freshness\<rparr>"

definition freshness_definitions ::
    "weather_snapshot \<Rightarrow> market_event \<Rightarrow> order_book \<Rightarrow> balance_snapshot option \<Rightarrow> freshness_policy \<Rightarrow>
     (string \<times> datetime \<times> timedelta \<times> quote_rejection_reason) list" where
  "freshness_definitions weather event book balance p =
     [(''forecast'', fc_issued_at (ws_forecast weather), fp_forecast_age p, STALE_FORECAST),
      (''event'', me_retrieved_at event, fp_event_age p, STALE_EVENT),
      (''order_book'', bk_observed_at book, fp_order_book_age p, STALE_ORDER_BOOK)] @
     (case balance of
        None \<Rightarrow> []
      | Some s \<Rightarrow> [(''balance'', bs_observed_at s, fp_balance_age p, STALE_BALANCE)])"

text \<open>
  The loop over these entries: it stops at the first stale datum; an error of a timestamp is
  caught and becomes an INVALID_INPUT rejection that carries the checks made so far.
\<close>

fun freshness_loop ::
    "datetime \<Rightarrow> timedelta \<Rightarrow> (string \<times> datetime \<times> timedelta \<times> quote_rejection_reason) list \<Rightarrow>
     (string, freshness_check) dict \<Rightarrow>
     ((string, freshness_check) dict \<times> quote_evaluation option) result" where
  "freshness_loop evaluated tolerance [] checks = Inr (checks, None)"
| "freshness_loop evaluated tolerance ((label, observed, maximum_age, reason) # ds) checks =
     (case age_check observed evaluated maximum_age tolerance label of
        Inl (QuoteValidationError message) \<Rightarrow>
          rbind (reject evaluated INVALID_INPUT message checks) (\<lambda>r. Inr (checks, Some r))
      | Inl e \<Rightarrow> Inl e
      | Inr check \<Rightarrow>
          let checks' = dict_set checks label check
          in if is_fresh check then freshness_loop evaluated tolerance ds checks'
             else rbind (reject evaluated reason (label @ '' age exceeds'') checks') (\<lambda>r.
               Inr (checks', Some r)))"

definition check_freshness ::
    "weather_snapshot \<Rightarrow> market_event \<Rightarrow> order_book \<Rightarrow> balance_snapshot option \<Rightarrow> datetime \<Rightarrow>
     freshness_policy \<Rightarrow> ((string, freshness_check) dict \<times> quote_evaluation option) result" where
  "check_freshness weather event book balance evaluated p =
     freshness_loop evaluated (fp_future_tolerance p)
       (freshness_definitions weather event book balance p) []"

section \<open>Evaluation\<close>

text \<open>The economics of a book quote: slippage, costs, edge and return, then the validated quote.\<close>

definition judge_quote ::
    "decimal \<Rightarrow> decimal \<Rightarrow> decimal \<Rightarrow> string \<Rightarrow> datetime \<Rightarrow> freshness_policy \<Rightarrow> cost_policy \<Rightarrow>
     (string, freshness_check) dict \<Rightarrow> executable_quote \<Rightarrow> quote_evaluation result" where
  "judge_quote probability budget limit event_id evaluated fp cp checks q =
     (let average_slippage = dec_sub (xq_average_price q) (xq_best_ask q);
          worst_slippage = dec_sub (xq_worst_price q) (xq_best_ask q);
          platform_fee = dec_mul (xq_total_cost q) (cp_platform_fee_rate cp);
          safety_margin = dec_mul (xq_total_cost q) (cp_safety_margin_rate cp);
          all_in_cost = dec_add (dec_add (dec_add (xq_total_cost q) platform_fee)
                          (cp_transaction_cost cp)) safety_margin
      in if cp_maximum_average_slippage cp < average_slippage
         then reject evaluated SLIPPAGE_EXCEEDED ''average slippage exceeds'' checks
         else if cp_maximum_worst_slippage cp < worst_slippage
         then reject evaluated SLIPPAGE_EXCEEDED ''worst slippage exceeds'' checks
         else if budget < all_in_cost
         then reject evaluated INVALID_INPUT ''calculated all-in cost exceeds the approved budget'' checks
         else rbind (dec_div all_in_cost (xq_shares q)) (\<lambda>all_in_price.
         if cp_maximum_all_in_price cp \<le> all_in_price
         then reject evaluated PRICE_EXCEEDED ''all-in average price reaches or exceeds'' checks
         else
           let raw_edge = dec_sub probability (xq_average_price q);
               edge = dec_sub probability all_in_price;
               payout = dec_mul probability (xq_shares q);
               profit = dec_sub payout all_in_cost
           in rbind (dec_div profit all_in_cost) (\<lambda>ret.
              if raw_edge \<le> 0
              then reject evaluated NON_POSITIVE_EDGE
                     ''model probability does not exceed executable price'' checks
              else if edge \<le> 0 \<or> profit \<le> 0
              then reject evaluated FEE_ERASED_EDGE
                     ''fees, transaction cost, or safety margin erase the executable edge'' checks
              else if ret < cp_minimum_expected_return cp
              then reject evaluated EXPECTED_RETURN_BELOW_FLOOR ''net expected return is below'' checks
              else rbind (validated_quote_init
                \<lparr>vq_quote = q, vq_model_probability = probability, vq_requested_budget = budget,
                 vq_book_budget_limit = limit, vq_executable_budget = xq_total_cost q,
                 vq_freshness_policy = fp, vq_cost_policy = cp, vq_platform_fee = platform_fee,
                 vq_transaction_cost = cp_transaction_cost cp, vq_safety_margin = safety_margin,
                 vq_total_all_in_cost = all_in_cost, vq_all_in_average_price = all_in_price,
                 vq_gross_expected_payout = payout, vq_expected_profit = profit,
                 vq_expected_return = ret, vq_probability_edge = edge,
                 vq_average_slippage = average_slippage, vq_worst_slippage = worst_slippage,
                 vq_depth_reduced = (xq_total_cost q < limit), vq_evaluated_at = evaluated,
                 vq_event_id = event_id, vq_freshness = checks\<rparr>) (\<lambda>v.
              quote_evaluation_init
                \<lparr>qe_evaluated_at = evaluated, qe_quote = Some v, qe_rejection_reason = None,
                 qe_detail = None, qe_freshness = []\<rparr>))))"

text \<open>The cash the book may be offered once fees and margins are set aside.\<close>

definition book_budget_limit :: "decimal \<Rightarrow> cost_policy \<Rightarrow> decimal result" where
  "book_budget_limit after_fixed_cost cp =
     rbind (dec_div after_fixed_cost
              (dec_add (dec_add 1 (cp_platform_fee_rate cp)) (cp_safety_margin_rate cp)))
       (\<lambda>x. Inr (next_minus x))"

definition available_notional :: "order_book \<Rightarrow> decimal" where
  "available_notional b =
     foldl (\<lambda>acc l. dec_add acc (dec_mul (lv_price l) (lv_size l))) 0 (bk_asks b)"

definition price_buy ::
    "decimal \<Rightarrow> decimal \<Rightarrow> market_event \<Rightarrow> order_book \<Rightarrow> datetime \<Rightarrow> freshness_policy \<Rightarrow> cost_policy \<Rightarrow>
     (string, freshness_check) dict \<Rightarrow> quote_evaluation result" where
  "price_buy probability budget event book evaluated fp cp checks =
     (let after_fixed_cost = dec_sub budget (cp_transaction_cost cp)
      in if after_fixed_cost \<le> 0
         then reject evaluated BELOW_MINIMUM_ORDER
                ''approved budget does not cover the fixed transaction-cost reserve'' checks
         else rbind (book_budget_limit after_fixed_cost cp) (\<lambda>limit.
           let notional = available_notional book
           in if notional < limit \<and> cp_depth_policy cp = REJECT
              then reject evaluated INSUFFICIENT_DEPTH ''book budget exceeds displayed ask notional'' checks
              else
                let executable = (if notional < limit then notional else limit)
                in case quote_buy_budget book (PyDecimal executable) of
                     Inl (OrderBookError message) \<Rightarrow>
                       reject evaluated
                         (if contains ''below minimum'' message then BELOW_MINIMUM_ORDER
                          else INSUFFICIENT_DEPTH) message checks
                   | Inl e \<Rightarrow> Inl e
                   | Inr q \<Rightarrow>
                       judge_quote probability budget limit (me_event_id event) evaluated fp cp checks q))"

definition parse_inputs :: "py_value \<Rightarrow> py_value \<Rightarrow> (decimal \<times> decimal) result" where
  "parse_inputs probability budget =
     rbind (quote_decimal probability ''model probability'') (\<lambda>p.
     rbind (quote_decimal budget ''requested budget'') (\<lambda>b. Inr (p, b)))"

definition evaluate_executable_buy ::
    "py_value \<Rightarrow> py_value \<Rightarrow> weather_snapshot \<Rightarrow> market_event \<Rightarrow> order_book \<Rightarrow> datetime \<Rightarrow>
     freshness_policy \<Rightarrow> cost_policy \<Rightarrow> balance_snapshot option \<Rightarrow> quote_evaluation result" where
  "evaluate_executable_buy probability requested_budget weather event book evaluated_at fp cp balance =
     rbind (quote_utc evaluated_at ''quote evaluation time'') (\<lambda>evaluated.
     case parse_inputs probability requested_budget of
       Inl (QuoteValidationError message) \<Rightarrow> reject evaluated INVALID_INPUT message []
     | Inl e \<Rightarrow> Inl e
     | Inr (model_probability, budget) \<Rightarrow>
         if model_probability \<le> 0 \<or> 1 \<le> model_probability
         then reject evaluated INVALID_INPUT ''model probability must be between zero and one'' []
         else if budget \<le> 0
         then reject evaluated INVALID_INPUT ''requested budget must be positive'' []
         else if dt_micros evaluated + fp_future_tolerance fp < dt_micros (ws_assembled_at weather)
         then reject evaluated SNAPSHOT_MISMATCH
                ''weather snapshot was assembled after quote evaluation'' []
         else rbind (check_freshness weather event book balance evaluated fp) (\<lambda>(checks, rejection).
           case rejection of
             Some r \<Rightarrow> Inr r
           | None \<Rightarrow>
               if (case balance of None \<Rightarrow> False | Some s \<Rightarrow> bs_available_cash s < budget)
               then reject evaluated INSUFFICIENT_BALANCE
                      ''requested budget exceeds available cash'' checks
               else price_buy model_probability budget event book evaluated fp cp checks))"

section \<open>Revalidation\<close>

definition revalidation_mismatch ::
    "validated_quote \<Rightarrow> decimal \<Rightarrow> decimal \<Rightarrow> market_event \<Rightarrow> order_book \<Rightarrow> freshness_policy \<Rightarrow>
     cost_policy \<Rightarrow> string option" where
  "revalidation_mismatch previous probability budget event book fp cp =
     (if bk_token_id book \<noteq> xq_token_id (vq_quote previous)
      then Some ''refreshed token does not match validated token''
      else if me_event_id event \<noteq> vq_event_id previous
      then Some ''refreshed event does not match validated event''
      else if probability \<noteq> vq_model_probability previous
      then Some ''model probability changed after quote validation''
      else if budget \<noteq> vq_requested_budget previous
      then Some ''requested budget changed after quote validation''
      else if fp \<noteq> vq_freshness_policy previous
      then Some ''freshness policy changed after quote validation''
      else if cp \<noteq> vq_cost_policy previous
      then Some ''cost policy changed after quote validation''
      else None)"

definition revalidate_executable_buy ::
    "validated_quote \<Rightarrow> py_value \<Rightarrow> py_value \<Rightarrow> weather_snapshot \<Rightarrow> market_event \<Rightarrow> order_book \<Rightarrow>
     datetime \<Rightarrow> freshness_policy \<Rightarrow> cost_policy \<Rightarrow> balance_snapshot option \<Rightarrow> quote_evaluation result" where
  "revalidate_executable_buy previous probability requested_budget weather event book evaluated_at
     fp cp balance =
     rbind (quote_utc evaluated_at ''quote evaluation time'') (\<lambda>evaluated.
     case parse_inputs probability requested_budget of
       Inl (QuoteValidationError message) \<Rightarrow> reject evaluated INVALID_INPUT message []
     | Inl e \<Rightarrow> Inl e
     | Inr (p, budget) \<Rightarrow>
         (case revalidation_mismatch previous p budget event book fp cp of
            Some mismatch \<Rightarrow> reject evaluated SNAPSHOT_MISMATCH mismatch []
          | None \<Rightarrow>
              evaluate_executable_buy probability requested_budget weather event book evaluated_at
                fp cp balance))"

end
