(* ===== verification/Sizing.thy ===== *)
theory Sizing
  imports Ledger_State Evaluator
begin

text \<open>
  \<open>weatherbot/risk/model.py\<close> and \<open>weatherbot/risk/sizing.py\<close>: the bankroll view of the
  ledger, the sizing policy and decision with their constructors, and the loop that sizes a buy by
  fractional Kelly and reprices it through the executable quote until the budget stops shrinking.
\<close>

section \<open>Inputs\<close>

text \<open>\<^verbatim>\<open>_ratio\<close>; a float has its exact decimal value.\<close>

fun ratio :: "py_value \<Rightarrow> string \<Rightarrow> decimal result" where
  "ratio (PyBool _) label = Inl (TypeError (label @ '' must not be boolean''))"
| "ratio (PyDecimal x) label = Inr x"
| "ratio (PyInt n) label = Inr (of_int n)"
| "ratio (PyFloat x _) label = Inr x"
| "ratio PyDecimalSpecial label = Inl (ValueError (label @ '' must be finite''))"
| "ratio (PyFloatSpecial _) label = Inl (ValueError (label @ '' must be finite''))"
| "ratio (PyStr s) label =
     (case parse_decimal s of
        None \<Rightarrow> Inl (ValueError (label @ '' must be decimal''))
      | Some None \<Rightarrow> Inl (ValueError (label @ '' must be finite''))
      | Some (Some x) \<Rightarrow> Inr x)"
| "ratio PyOther label = Inl (TypeError ''conversion to Decimal is not supported'')"

datatype binding_cap =
    KELLY | MAX_CASH_PER_TRADE | AVAILABLE_CASH | EXECUTABLE_DEPTH | EXECUTABLE_SLIPPAGE
  | MINIMUM_ORDER

datatype sizing_rejection_reason =
    INVALID_PROBABILITY | INVALID_PRICE | NO_AVAILABLE_CASH | SIZE_NON_POSITIVE_EDGE
  | SIZE_BELOW_MINIMUM_ORDER | QUOTE_REJECTED | NON_CONVERGENT

definition require_not_negative_cash :: "money \<Rightarrow> string \<Rightarrow> unit result" where
  "require_not_negative_cash m label =
     (if is_negative m then Inl (ValueError (label @ '' must not be negative'')) else Inr ())"

definition check_amount :: "string \<Rightarrow> unit \<Rightarrow> string \<times> money \<Rightarrow> unit result" where
  "check_amount cur u entry =
     (if currency (snd entry) \<noteq> cur then Inl (ValueError (fst entry @ '' uses a different currency''))
      else require_not_negative_cash (snd entry) (fst entry))"

record risk_capital =
  ca_cash :: money
  ca_reserved_cash :: money
  ca_available_cash :: money
  ca_open_cost_basis :: money
  ca_open_count :: int

definition risk_capital_init :: "risk_capital \<Rightarrow> risk_capital result" where
  "risk_capital_init c =
     rbind (rfold (check_amount (currency (ca_cash c))) ()
              [(''cash'', ca_cash c), (''reserved_cash'', ca_reserved_cash c),
               (''available_cash'', ca_available_cash c),
               (''open_position_cost_basis'', ca_open_cost_basis c)]) (\<lambda>_.
     rbind (money_sub (ca_cash c) (ca_reserved_cash c)) (\<lambda>available.
     if ca_available_cash c \<noteq> available
     then Inl (ValueError ''available_cash must equal cash - reserved_cash'')
     else if ca_open_count c < 0
     then Inl (ValueError ''open_position_count must be a non-negative integer'')
     else if ca_open_count c = 0 \<and> \<not> is_zero (ca_open_cost_basis c)
     then Inl (ValueError ''zero open positions cannot have positive open cost basis'')
     else Inr c))"

definition capital_from_ledger :: "ledger_state \<Rightarrow> risk_capital result" where
  "capital_from_ledger s =
     rbind (assert_invariants s) (\<lambda>_.
     let held = filter (\<lambda>p. pos_status p = OPEN \<and> 0 < pos_quantity p) (map snd (ls_positions s))
     in rbind (money_zero (ls_currency s)) (\<lambda>z.
        rbind (rfold (\<lambda>acc p. money_add acc (pos_cost_basis p)) z held) (\<lambda>basis.
        rbind (available_cash s) (\<lambda>available.
        risk_capital_init
          \<lparr>ca_cash = ls_cash s, ca_reserved_cash = ls_reserved_cash s, ca_available_cash = available,
           ca_open_cost_basis = basis, ca_open_count = int (length held)\<rparr>))))"

record sizing_policy =
  sp_kelly_multiplier :: decimal
  sp_maximum_cash :: money
  sp_maximum_iterations :: int

definition sizing_policy_init :: "py_value \<Rightarrow> money \<Rightarrow> int \<Rightarrow> sizing_policy result" where
  "sizing_policy_init raw_multiplier maximum_cash maximum_iterations =
     rbind (ratio raw_multiplier ''fractional Kelly multiplier'') (\<lambda>multiplier.
     if multiplier \<le> 0 \<or> 1 < multiplier
     then Inl (ValueError ''fractional Kelly multiplier must be greater than zero and at most one'')
     else if amount maximum_cash \<le> 0
     then Inl (ValueError ''maximum_cash_per_trade must be positive'')
     else if maximum_iterations \<le> 0
     then Inl (ValueError ''maximum_iterations must be a positive integer'')
     else Inr \<lparr>sp_kelly_multiplier = multiplier, sp_maximum_cash = maximum_cash,
            sp_maximum_iterations = maximum_iterations\<rparr>)"

section \<open>The decision\<close>

record sizing_decision =
  sd_status :: risk_decision_status
  sd_capital :: risk_capital
  sd_policy :: sizing_policy
  sd_model_probability :: "decimal option"
  sd_seed_price :: decimal
  sd_final_price :: "decimal option"
  sd_raw_kelly :: decimal
  sd_fractional_kelly :: decimal
  sd_uncapped_cash :: money
  sd_target_cash :: money
  sd_binding_cap :: "binding_cap option"
  sd_iterations :: int
  sd_quote :: "validated_quote option"
  sd_reason :: "sizing_rejection_reason option"
  sd_quote_reason :: "quote_rejection_reason option"
  sd_detail :: "string option"
  sd_depth_reduced :: bool

definition check_decision_status :: "sizing_decision \<Rightarrow> unit result" where
  "check_decision_status d =
     (if sd_status d = RISK_APPROVED
      then if sd_quote d = None \<or> is_zero (sd_target_cash d)
           then Inl (ValueError ''approved sizing requires a positive target and validated quote'')
           else if sd_reason d \<noteq> None \<or> sd_quote_reason d \<noteq> None
           then Inl (ValueError ''approved sizing cannot contain a rejection reason'')
           else if sd_final_price d = None
           then Inl (ValueError ''approved sizing requires a final all-in price'')
           else Inr ()
      else if sd_quote d \<noteq> None \<or> \<not> is_zero (sd_target_cash d)
           then Inl (ValueError ''rejected sizing must contain no quote or target cash'')
           else if sd_reason d = None
           then Inl (ValueError ''rejected sizing requires a rejection reason'')
           else Inr ())"

definition sizing_decision_init :: "sizing_decision \<Rightarrow> sizing_decision result" where
  "sizing_decision_init d =
     rbind (rfold (check_amount (currency (ca_cash (sd_capital d)))) ()
              [(''uncapped_kelly_cash'', sd_uncapped_cash d), (''target_cash'', sd_target_cash d),
               (''maximum_cash_per_trade'', sp_maximum_cash (sd_policy d))]) (\<lambda>_.
     if sd_iterations d < 0 then Inl (ValueError ''iterations must not be negative'') else
     rbind (check_decision_status d) (\<lambda>_.
     if amount (ca_available_cash (sd_capital d)) < amount (sd_target_cash d)
     then Inl (ValueError ''target cash exceeds available cash'')
     else if amount (sp_maximum_cash (sd_policy d)) < amount (sd_target_cash d)
     then Inl (ValueError ''target cash exceeds maximum cash per trade'')
     else if (case sd_quote d of None \<Rightarrow> False | Some q \<Rightarrow> vq_requested_budget q < amount (sd_target_cash d))
     then Inl (ValueError ''target cash exceeds final validated quote budget'')
     else Inr d))"

section \<open>Kelly sizing\<close>

text \<open>\<^verbatim>\<open>_floor_money\<close>: a positive budget is rounded toward zero to the micro-unit.\<close>

definition floor_money :: "decimal \<Rightarrow> string \<Rightarrow> money result" where
  "floor_money value cur =
     (if value \<le> 0 then money_zero cur
      else rbind (quantize round_down 6 value) (\<lambda>floored. money_of (PyDecimal floored) cur))"

definition kelly :: "decimal \<Rightarrow> decimal \<Rightarrow> decimal result" where
  "kelly probability all_in_price =
     (if all_in_price \<le> 0 \<or> 1 \<le> all_in_price
      then Inl (ValueError ''Kelly price must be greater than zero and less than one'')
      else if probability \<le> all_in_price then Inr 0
      else dec_div (dec_sub probability all_in_price) (dec_sub 1 all_in_price))"

definition cash_from_kelly ::
    "risk_capital \<Rightarrow> sizing_policy \<Rightarrow> decimal \<Rightarrow> decimal \<times> decimal \<times> decimal \<times> binding_cap" where
  "cash_from_kelly capital policy raw_kelly =
     (let fractional = dec_mul raw_kelly (sp_kelly_multiplier policy);
          uncapped = dec_mul (amount (ca_available_cash capital)) fractional;
          available = amount (ca_available_cash capital);
          per_trade = amount (sp_maximum_cash policy)
      in if available \<le> per_trade \<and> available \<le> uncapped
         then (fractional, uncapped, available, AVAILABLE_CASH)
         else if per_trade \<le> uncapped then (fractional, uncapped, per_trade, MAX_CASH_PER_TRADE)
         else (fractional, uncapped, uncapped, KELLY))"

text \<open>The largest prefix of the book inside both slippage limits; \<open>None\<close> is a break.\<close>

definition slippage_take ::
    "decimal \<Rightarrow> order_level \<Rightarrow> decimal \<Rightarrow> decimal \<Rightarrow> decimal option result" where
  "slippage_take maximum_average l shares cost =
     (if lv_price l \<le> maximum_average then Inr (Some (lv_size l))
      else let headroom = dec_sub (dec_mul maximum_average shares) cost
           in if headroom \<le> 0 then Inr None
              else rbind (dec_div headroom (dec_sub (lv_price l) maximum_average)) (\<lambda>x.
                Inr (Some (min (lv_size l) (next_minus x)))))"

fun slippage_loop ::
    "decimal \<Rightarrow> decimal \<Rightarrow> order_level list \<Rightarrow> decimal \<Rightarrow> decimal \<Rightarrow> (decimal \<times> decimal) result" where
  "slippage_loop maximum_average maximum_worst [] shares cost = Inr (shares, cost)"
| "slippage_loop maximum_average maximum_worst (l # ls) shares cost =
     (if maximum_worst < lv_price l then Inr (shares, cost)
      else rbind (slippage_take maximum_average l shares cost) (\<lambda>t.
        case t of
          None \<Rightarrow> Inr (shares, cost)
        | Some taken \<Rightarrow>
            if taken \<le> 0 then Inr (shares, cost)
            else let shares' = dec_add shares taken;
                     cost' = dec_add cost (dec_mul taken (lv_price l))
                 in if taken < lv_size l \<or> maximum_average < lv_price l then Inr (shares', cost')
                    else slippage_loop maximum_average maximum_worst ls shares' cost'))"

definition slippage_limited_budget :: "order_book \<Rightarrow> cost_policy \<Rightarrow> decimal result" where
  "slippage_limited_budget book cp =
     rbind (slippage_loop (dec_add (best_ask book) (cp_maximum_average_slippage cp))
              (dec_add (best_ask book) (cp_maximum_worst_slippage cp)) (bk_asks book) 0 0)
       (\<lambda>(shares, cost).
         if shares < bk_minimum_order_size book then Inr 0
         else Inr (dec_add
                (dec_mul cost (dec_add (dec_add 1 (cp_platform_fee_rate cp)) (cp_safety_margin_rate cp)))
                (cp_transaction_cost cp)))"

section \<open>The sizing loop\<close>

text \<open>What the loop carries from one iteration to the next.\<close>

record sizing_state =
  ss_budget :: money
  ss_binding :: binding_cap
  ss_depth_reduced :: bool
  ss_final_price :: "decimal option"
  ss_raw_kelly :: decimal
  ss_fractional_kelly :: decimal
  ss_uncapped_cash :: decimal

text \<open>\<^verbatim>\<open>_decision\<close>: the rejected decision without quote, and the approved one.\<close>

definition decide :: "decimal \<Rightarrow> sizing_decision \<Rightarrow> sizing_decision result" where
  "decide uncapped d =
     rbind (money_of (PyDecimal uncapped) (currency (ca_cash (sd_capital d)))) (\<lambda>u.
     sizing_decision_init (d\<lparr>sd_uncapped_cash := u\<rparr>))"

definition rejected ::
    "risk_capital \<Rightarrow> sizing_policy \<Rightarrow> decimal option \<Rightarrow> decimal \<Rightarrow> decimal \<Rightarrow> decimal \<Rightarrow> decimal \<Rightarrow>
     binding_cap option \<Rightarrow> int \<Rightarrow> decimal option \<Rightarrow> sizing_rejection_reason \<Rightarrow>
     quote_rejection_reason option \<Rightarrow> string option \<Rightarrow> bool \<Rightarrow> sizing_decision result" where
  "rejected capital policy probability seed raw fractional uncapped binding iterations final_price
     reason quote_reason detail depth_reduced =
     rbind (money_zero (currency (ca_cash capital))) (\<lambda>z.
     decide uncapped
       \<lparr>sd_status = RISK_REJECTED, sd_capital = capital, sd_policy = policy,
        sd_model_probability = probability, sd_seed_price = seed, sd_final_price = final_price,
        sd_raw_kelly = raw, sd_fractional_kelly = fractional, sd_uncapped_cash = z,
        sd_target_cash = z, sd_binding_cap = binding, sd_iterations = iterations, sd_quote = None,
        sd_reason = Some reason, sd_quote_reason = quote_reason, sd_detail = detail,
        sd_depth_reduced = depth_reduced\<rparr>)"

definition approved ::
    "risk_capital \<Rightarrow> sizing_policy \<Rightarrow> decimal \<Rightarrow> decimal \<Rightarrow> sizing_state \<Rightarrow> int \<Rightarrow> validated_quote \<Rightarrow>
     sizing_decision result" where
  "approved capital policy probability seed st iteration q =
     decide (ss_uncapped_cash st)
       \<lparr>sd_status = RISK_APPROVED, sd_capital = capital, sd_policy = policy,
        sd_model_probability = Some probability, sd_seed_price = seed,
        sd_final_price = ss_final_price st, sd_raw_kelly = ss_raw_kelly st,
        sd_fractional_kelly = ss_fractional_kelly st, sd_uncapped_cash = ss_budget st,
        sd_target_cash = ss_budget st, sd_binding_cap = Some (ss_binding st),
        sd_iterations = iteration, sd_quote = Some q, sd_reason = None, sd_quote_reason = None,
        sd_detail = None, sd_depth_reduced = ss_depth_reduced st\<rparr>"

text \<open>A rejection that keeps the figures of the loop state.\<close>

definition reject_state ::
    "risk_capital \<Rightarrow> sizing_policy \<Rightarrow> decimal \<Rightarrow> decimal \<Rightarrow> sizing_state \<Rightarrow> binding_cap \<Rightarrow> int \<Rightarrow>
     sizing_rejection_reason \<Rightarrow> quote_rejection_reason option \<Rightarrow> string option \<Rightarrow> sizing_decision result" where
  "reject_state capital policy probability seed st binding iterations reason quote_reason detail =
     rejected capital policy (Some probability) seed (ss_raw_kelly st) (ss_fractional_kelly st)
       (ss_uncapped_cash st) (Some binding) iterations (ss_final_price st) reason quote_reason detail
       (ss_depth_reduced st)"

text \<open>What a quote rejection means for the size.\<close>

fun rejection_for :: "quote_rejection_reason option \<Rightarrow> binding_cap \<Rightarrow> sizing_rejection_reason \<times> binding_cap" where
  "rejection_for (Some BELOW_MINIMUM_ORDER) b = (SIZE_BELOW_MINIMUM_ORDER, MINIMUM_ORDER)"
| "rejection_for (Some INSUFFICIENT_DEPTH) b = (QUOTE_REJECTED, EXECUTABLE_DEPTH)"
| "rejection_for (Some SLIPPAGE_EXCEEDED) b = (QUOTE_REJECTED, EXECUTABLE_SLIPPAGE)"
| "rejection_for r b = (QUOTE_REJECTED, b)"

text \<open>The budget after a quote: Kelly at its all-in price, never more than a reduced depth takes.\<close>

definition candidate_budget ::
    "risk_capital \<Rightarrow> decimal \<Rightarrow> binding_cap \<Rightarrow> validated_quote \<Rightarrow> (money \<times> binding_cap) result" where
  "candidate_budget capital candidate binding q =
     rbind (floor_money candidate (currency (ca_cash capital))) (\<lambda>budget.
     if vq_depth_reduced q
     then rbind (floor_money (vq_total_all_in_cost q) (currency (ca_cash capital))) (\<lambda>depth_budget.
       Inr (if amount depth_budget < amount budget then (depth_budget, EXECUTABLE_DEPTH)
            else (budget, binding)))
     else Inr (budget, binding))"

fun size_loop ::
    "(decimal \<Rightarrow> quote_evaluation result) \<Rightarrow> decimal result \<Rightarrow> risk_capital \<Rightarrow> sizing_policy \<Rightarrow> decimal \<Rightarrow>
     decimal \<Rightarrow> nat \<Rightarrow> int \<Rightarrow> sizing_state \<Rightarrow> sizing_decision result" where
  "size_loop quote_at slippage capital policy probability seed 0 iteration st =
     reject_state capital policy probability seed st (ss_binding st) (sp_maximum_iterations policy)
       NON_CONVERGENT None
       (Some ''downward-only bankroll sizing did not converge within the iteration limit'')"
| "size_loop quote_at slippage capital policy probability seed (Suc n) iteration st =
     rbind (quote_at (amount (ss_budget st))) (\<lambda>evaluation.
     case qe_quote evaluation of
       None \<Rightarrow>
         rbind (if qe_rejection_reason evaluation = Some SLIPPAGE_EXCEEDED
                then rbind slippage (\<lambda>x. floor_money x (currency (ca_cash capital)))
                else money_zero (currency (ca_cash capital))) (\<lambda>slippage_budget.
         if qe_rejection_reason evaluation = Some SLIPPAGE_EXCEEDED
            \<and> \<not> is_zero slippage_budget \<and> amount slippage_budget < amount (ss_budget st)
         then size_loop quote_at slippage capital policy probability seed n (iteration + 1)
                (st\<lparr>ss_budget := slippage_budget, ss_binding := EXECUTABLE_SLIPPAGE\<rparr>)
         else case rejection_for (qe_rejection_reason evaluation) (ss_binding st) of
           (reason, binding) \<Rightarrow>
             reject_state capital policy probability seed st binding iteration reason
               (qe_rejection_reason evaluation) (qe_detail evaluation))
     | Some q \<Rightarrow>
         let price = vq_all_in_average_price q
         in rbind (kelly probability price) (\<lambda>raw.
            if raw \<le> 0
            then rejected capital policy (Some probability) seed raw 0 0 (Some KELLY) iteration
                   (Some price) SIZE_NON_POSITIVE_EDGE None
                   (Some ''executable all-in price leaves no positive Kelly fraction'')
                   (ss_depth_reduced st)
            else case cash_from_kelly capital policy raw of
              (fractional, uncapped, candidate, binding) \<Rightarrow>
                rbind (candidate_budget capital candidate binding q) (\<lambda>(budget, binding').
                let st' = st\<lparr>ss_depth_reduced := ss_depth_reduced st \<or> vq_depth_reduced q,
                       ss_final_price := Some price, ss_raw_kelly := raw,
                       ss_fractional_kelly := fractional, ss_uncapped_cash := uncapped\<rparr>
                in if is_zero budget
                   then reject_state capital policy probability seed st' MINIMUM_ORDER iteration
                          SIZE_BELOW_MINIMUM_ORDER None
                          (Some ''converged Kelly cash rounds below the six-decimal money quantum'')
                   else if amount budget < amount (ss_budget st)
                   then size_loop quote_at slippage capital policy probability seed n (iteration + 1)
                          (st'\<lparr>ss_budget := budget, ss_binding := binding'\<rparr>)
                   else approved capital policy probability seed st' iteration q)))"

text \<open>The evaluation of a buy at a given budget.\<close>

definition buy_quotes ::
    "decimal \<Rightarrow> weather_snapshot \<Rightarrow> market_event \<Rightarrow> order_book \<Rightarrow> datetime \<Rightarrow> freshness_policy \<Rightarrow>
     cost_policy \<Rightarrow> balance_snapshot option \<Rightarrow> decimal \<Rightarrow> quote_evaluation result" where
  "buy_quotes probability weather event book evaluated_at fp cp balance budget =
     evaluate_executable_buy (PyDecimal probability) (PyDecimal budget) weather event book
       evaluated_at fp cp balance"

definition size_executable_buy ::
    "risk_capital \<Rightarrow> py_value \<Rightarrow> weather_snapshot \<Rightarrow> market_event \<Rightarrow> order_book \<Rightarrow> datetime \<Rightarrow>
     freshness_policy \<Rightarrow> cost_policy \<Rightarrow> sizing_policy \<Rightarrow> balance_snapshot option \<Rightarrow>
     sizing_decision result" where
  "size_executable_buy capital raw_probability weather event book evaluated_at fp cp policy balance =
     (let seed = best_ask book in
      case ratio raw_probability ''model probability'' of
        Inl e \<Rightarrow>
          rejected capital policy None seed 0 0 0 None 0 None INVALID_PROBABILITY None
            (Some (exc_text e)) False
      | Inr p \<Rightarrow>
          if p \<le> 0 \<or> 1 \<le> p
          then rejected capital policy (Some p) seed 0 0 0 None 0 None INVALID_PROBABILITY None
                 (Some ''model probability must be greater than zero and less than one'') False
          else if is_zero (ca_available_cash capital)
          then rejected capital policy (Some p) seed 0 0 0 (Some AVAILABLE_CASH) 0 None
                 NO_AVAILABLE_CASH None (Some ''available cash is zero after active reservations'') False
          else if p \<le> seed
          then rejected capital policy (Some p) seed 0 0 0 None 0 None SIZE_NON_POSITIVE_EDGE None
                 (Some ''model probability does not exceed the best displayed ask'') False
          else case kelly p seed of
            Inl (ValueError message) \<Rightarrow>
              rejected capital policy (Some p) seed 0 0 0 None 0 None INVALID_PRICE None
                (Some message) False
          | Inl e \<Rightarrow> Inl e
          | Inr raw \<Rightarrow>
              (case cash_from_kelly capital policy raw of
                 (fractional, uncapped, target, binding) \<Rightarrow>
                   rbind (floor_money target (currency (ca_cash capital))) (\<lambda>budget.
                   if is_zero budget
                   then rejected capital policy (Some p) seed raw fractional uncapped
                          (Some MINIMUM_ORDER) 0 None SIZE_BELOW_MINIMUM_ORDER None
                          (Some ''Kelly cash rounds below the six-decimal money quantum'') False
                   else size_loop (buy_quotes p weather event book evaluated_at fp cp balance)
                          (slippage_limited_budget book cp) capital policy p seed
                          (nat (sp_maximum_iterations policy)) 1
                          \<lparr>ss_budget = budget, ss_binding = binding, ss_depth_reduced = False,
                           ss_final_price = None, ss_raw_kelly = raw,
                           ss_fractional_kelly = fractional, ss_uncapped_cash = uncapped\<rparr>)))"

end
