(* ===== verification/Order_Book_Props.thy ===== *)
theory Order_Book_Props
  imports Order_Book
begin

text \<open>
  What the quotes of \<open>Order_Book\<close> guarantee. Decimal arithmetic is exact on multiples of a
  power of ten below \<open>10 ^ 28\<close> units (\<open>grain\<close>); on a book of six-decimal prices and sizes
  both quoting loops therefore compute the greedy allocation \<open>greedy_cost\<close>, which is the cheapest
  one because the asks are sorted.
\<close>

section \<open>Exact decimal arithmetic on a grain\<close>

definition grain :: "int \<Rightarrow> rat \<Rightarrow> bool" where
  "grain k x \<longleftrightarrow> (\<exists>n. x = of_int n * pow10 k)"

lemma grain_zero [simp]: "grain k 0"
  unfolding grain_def by (rule exI [of _ 0]) simp

lemma grain_add: "grain k x \<Longrightarrow> grain k y \<Longrightarrow> grain k (x + y)"
  unfolding grain_def by (metis distrib_right of_int_add)

lemma grain_diff: "grain k x \<Longrightarrow> grain k y \<Longrightarrow> grain k (x - y)"
  unfolding grain_def by (metis left_diff_distrib of_int_diff)

lemma grain_mult: "grain j x \<Longrightarrow> grain k y \<Longrightarrow> grain (j + k) (x * y)"
  unfolding grain_def pow10_add by (metis (no_types, opaque_lifting) mult.assoc mult.left_commute of_int_mult)

lemma grain_finer:
  assumes "grain k x" and "j \<le> k"
  shows "grain j x"
proof -
  obtain m where m: "pow10 (k - j) = of_int m" using pow10_int [of "k - j"] assms(2) by auto
  obtain n where "x = of_int n * pow10 k" using assms(1) by (auto simp: grain_def)
  moreover have "pow10 k = of_int m * pow10 j"
    unfolding m [symmetric] pow10_add [symmetric] by simp
  ultimately have "x = of_int (n * m) * pow10 j" by simp
  then show ?thesis unfolding grain_def by blast
qed

lemma grain_on_grid: "on_grid x \<Longrightarrow> grain (- 6) x"
proof (erule on_gridE)
  fix n assume "x = of_int n / 10 ^ 6"
  then have "x = of_int n * pow10 (- 6)" by (simp add: pow10_def)
  then show ?thesis unfolding grain_def by blast
qed

lemma ctx_grain:
  assumes "grain k x" and "\<bar>x\<bar> \<le> 10 ^ 28 * pow10 k"
  shows "ctx x = x"
proof -
  obtain n where n: "x = of_int n * pow10 k" using assms(1) by (auto simp: grain_def)
  have "\<bar>of_int n\<bar> * pow10 k \<le> 10 ^ 28 * pow10 k"
    using assms(2) unfolding n abs_mult abs_of_pos [OF pow10_pos] .
  then have "\<bar>of_int n :: rat\<bar> \<le> 10 ^ 28" by (rule mult_right_le_imp_le) simp
  then have "(of_int \<bar>n\<bar> :: rat) \<le> of_int (10 ^ 28)" by simp
  then have "\<bar>n\<bar> \<le> 10 ^ 28" by (simp only: of_int_le_iff)
  with n show ?thesis by (intro ctx_exact) (auto simp: fits28_def)
qed

text \<open>A positive decimal of at most 28 digits is a multiple of its last place.\<close>

lemma ctx_fixed_grain:
  assumes "ctx x = x" and "0 < x" and "x < 10 ^ 16"
  shows "\<exists>k \<le> - 12. grain k x \<and> x \<le> 10 ^ 28 * pow10 k"
proof (intro exI conjI)
  let ?k = "adjusted x - 27"
  have b: "pow10 (adjusted x) \<le> x" "x < pow10 (adjusted x + 1)"
    using adjusted_bounds [of x] assms(2) by simp_all
  have "pow10 (adjusted x) < pow10 16" using b(1) assms(3) by (simp add: pow10_def)
  then show "?k \<le> - 12" using pow10_less by fastforce
  have "x = of_int (round_half_even (x / pow10 ?k)) * pow10 ?k"
    using assms(1,2) by (simp add: ctx_def Let_def)
  then show "grain ?k x" unfolding grain_def by blast
  show "x \<le> 10 ^ 28 * pow10 ?k"
    using b(2) pow10_scaled(2) [of "adjusted x"] by (simp add: mult.commute)
qed

lemma ctx_error:
  "\<bar>ctx x - x\<bar> \<le> \<bar>x\<bar> * (5 / 10 ^ 28)"
proof (cases "x = 0")
  case False
  define q where "q = pow10 (adjusted x - 27)"
  have q: "0 < q" by (simp add: q_def)
  have "ctx x - x = (of_int (round_half_even (x / q)) - x / q) * q"
    using False q by (simp add: ctx_def Let_def q_def algebra_simps)
  then have "\<bar>ctx x - x\<bar> = \<bar>of_int (round_half_even (x / q)) - x / q\<bar> * q"
    using q by (simp add: abs_mult)
  also have "\<dots> \<le> 1 / 2 * q"
    using round_half_even_error [of "x / q"] q by (intro mult_right_mono) auto
  also have "\<dots> \<le> \<bar>x\<bar> * (5 / 10 ^ 28)"
  proof -
    have "q * 10 ^ 27 \<le> \<bar>x\<bar>"
      using adjusted_bounds [OF False] pow10_scaled(1) [of "adjusted x"] by (simp add: q_def)
    then show ?thesis by simp
  qed
  finally show ?thesis .
qed simp

lemma ctx_idem: "ctx (ctx x) = ctx x"
proof (cases "x = 0")
  case False
  define k where "k = adjusted x - 27"
  define n where "n = round_half_even (x / pow10 k)"
  have c: "ctx x = of_int n * pow10 k" using False by (simp add: ctx_def Let_def k_def n_def)
  have "\<bar>ctx x\<bar> \<le> pow10 (adjusted x + 1)"
    using ctx_decade [of x] ctx_decade [of "- x"] False ctx_pos [of x] ctx_pos [of "- x"]
    by (cases "0 < x") (auto simp: ctx_minus)
  also have "\<dots> = 10 ^ 28 * pow10 k"
    using pow10_scaled(2) [of "adjusted x"] by (simp add: k_def mult.commute)
  finally show ?thesis by (intro ctx_grain [of k]) (use c in \<open>auto simp: grain_def\<close>)
qed simp

section \<open>The greedy allocation\<close>

definition wf_level :: "order_level \<Rightarrow> bool" where
  "wf_level l \<longleftrightarrow> 0 < lv_price l \<and> lv_price l < 1 \<and> 0 < lv_size l"

abbreviation wf_asks :: "order_level list \<Rightarrow> bool" where
  "wf_asks ls \<equiv> list_all wf_level ls \<and> sorted (map lv_price ls)"

definition depth :: "order_level list \<Rightarrow> rat" where
  "depth ls = sum_list (map lv_size ls)"

definition notional :: "order_level list \<Rightarrow> rat" where
  "notional ls = (\<Sum>l \<leftarrow> ls. lv_size l * lv_price l)"

fun greedy_cost :: "order_level list \<Rightarrow> rat \<Rightarrow> rat" where
  "greedy_cost [] r = 0"
| "greedy_cost (l # ls) r =
     min r (lv_size l) * lv_price l + greedy_cost ls (r - min r (lv_size l))"

text \<open>An allocation takes from each level at most its size.\<close>

definition allocation :: "rat list \<Rightarrow> order_level list \<Rightarrow> bool" where
  "allocation ts ls \<longleftrightarrow> list_all2 (\<lambda>t l. 0 \<le> t \<and> t \<le> lv_size l) ts ls"

definition allocation_cost :: "rat list \<Rightarrow> order_level list \<Rightarrow> rat" where
  "allocation_cost ts ls = (\<Sum>(t, l) \<leftarrow> zip ts ls. t * lv_price l)"

lemma depth_simps [simp]: "depth [] = 0" "depth (l # ls) = lv_size l + depth ls"
  by (simp_all add: depth_def)

lemma notional_simps [simp]:
  "notional [] = 0" "notional (l # ls) = lv_size l * lv_price l + notional ls"
  by (simp_all add: notional_def)

lemma allocation_simps [simp]:
  "allocation ts [] \<longleftrightarrow> ts = []"
  "allocation ts (l # ls) \<longleftrightarrow>
     (\<exists>t us. ts = t # us \<and> 0 \<le> t \<and> t \<le> lv_size l \<and> allocation us ls)"
  by (auto simp: allocation_def list_all2_Cons2)

lemma allocation_cost_simps [simp]:
  "allocation_cost [] ls = 0"
  "allocation_cost (t # ts) (l # ls) = t * lv_price l + allocation_cost ts ls"
  by (simp_all add: allocation_cost_def)

lemma wf_level_pos: "wf_level l \<Longrightarrow> 0 < lv_size l" "wf_level l \<Longrightarrow> 0 < lv_price l"
  by (simp_all add: wf_level_def)

lemma depth_nonneg: "list_all wf_level ls \<Longrightarrow> 0 \<le> depth ls"
  by (induction ls) (auto simp: wf_level_def)

lemma allocation_bounds: "allocation ts ls \<Longrightarrow> 0 \<le> sum_list ts \<and> sum_list ts \<le> depth ls"
  by (induction ls arbitrary: ts) fastforce+

lemma greedy_zero [simp]: "list_all wf_level ls \<Longrightarrow> greedy_cost ls 0 = 0"
  by (induction ls) (auto dest: wf_level_pos simp: min_def)

text \<open>Every further unit costs at least the price of the cheapest level.\<close>

lemma greedy_slope:
  assumes "list_all wf_level ls" and "list_all (\<lambda>l. p \<le> lv_price l) ls"
    and "0 \<le> a" and "a \<le> b" and "b \<le> depth ls"
  shows "greedy_cost ls a + (b - a) * p \<le> greedy_cost ls b"
  using assms
proof (induction ls arbitrary: a b)
  case Nil
  then have "a = b" by simp
  then show ?case by simp
next
  case (Cons l ls)
  define s where "s = lv_size l"
  define c where "c = lv_price l"
  have s: "0 < s" "p \<le> c" using Cons.prems by (auto simp: s_def c_def dest: wf_level_pos)
  let ?a = "a - min a s" and ?b = "b - min b s"
  have "greedy_cost ls ?a + (?b - ?a) * p \<le> greedy_cost ls ?b"
    using Cons.prems depth_nonneg [of ls] by (intro Cons.IH) (auto simp: s_def min_def)
  moreover have "(min b s - min a s) * p \<le> (min b s - min a s) * c"
    using s Cons.prems by (intro mult_left_mono) auto
  ultimately show ?case
    unfolding greedy_cost.simps s_def [symmetric] c_def [symmetric]
    by (simp only: left_diff_distrib right_diff_distrib)
qed

lemma sorted_prices_ge:
  "sorted (map lv_price (l # ls)) \<Longrightarrow> list_all (\<lambda>x. lv_price l \<le> lv_price x) ls"
  by (auto simp: list_all_iff)

text \<open>The greedy allocation is the cheapest, and it is one.\<close>

lemma greedy_cheapest:
  assumes "wf_asks ls" and "allocation ts ls"
  shows "greedy_cost ls (sum_list ts) \<le> allocation_cost ts ls"
  using assms
proof (induction ls arbitrary: ts)
  case Nil
  then show ?case by simp
next
  case (Cons l ls)
  then obtain t us where ts: "ts = t # us" "0 \<le> t" "t \<le> lv_size l" "allocation us ls" by auto
  let ?u = "sum_list us" and ?m = "min (t + sum_list us) (lv_size l)"
  have u: "0 \<le> ?u" "?u \<le> depth ls" using allocation_bounds [OF ts(4)] by auto
  have "greedy_cost ls ?u \<le> allocation_cost us ls" using Cons ts(4) by simp
  moreover have "greedy_cost ls (t + ?u - ?m) + (?u - (t + ?u - ?m)) * lv_price l \<le> greedy_cost ls ?u"
    using Cons.prems(1) sorted_prices_ge [of l ls] u ts(2,3)
    by (intro greedy_slope) (auto simp: min_def)
  moreover have "?u - (t + ?u - ?m) = ?m - t" by simp
  ultimately show ?case unfolding ts(1) by (simp add: left_diff_distrib)
qed

lemma greedy_attained:
  assumes "list_all wf_level ls" and "0 \<le> r" and "r \<le> depth ls"
  shows "\<exists>ts. allocation ts ls \<and> sum_list ts = r \<and> allocation_cost ts ls = greedy_cost ls r"
  using assms
proof (induction ls arbitrary: r)
  case Nil
  then show ?case by simp
next
  case (Cons l ls)
  let ?m = "min r (lv_size l)"
  have "\<exists>us. allocation us ls \<and> sum_list us = r - ?m \<and> allocation_cost us ls = greedy_cost ls (r - ?m)"
    using Cons.prems depth_nonneg [of ls] by (intro Cons.IH) (auto simp: min_def)
  then obtain us where "allocation us ls" "sum_list us = r - ?m"
    "allocation_cost us ls = greedy_cost ls (r - ?m)" by blast
  then show ?case
    using Cons.prems by (intro exI [of _ "?m # us"]) (auto dest: wf_level_pos)
qed

lemma greedy_bounds:
  assumes "list_all wf_level ls" and "0 \<le> r"
  shows "0 \<le> greedy_cost ls r \<and> greedy_cost ls r \<le> r"
  using assms
proof (induction ls arbitrary: r)
  case Nil
  then show ?case by simp
next
  case (Cons l ls)
  let ?m = "min r (lv_size l)"
  have m: "0 \<le> ?m" "0 \<le> r - ?m" using Cons.prems by (auto dest: wf_level_pos)
  then have "0 \<le> greedy_cost ls (r - ?m) \<and> greedy_cost ls (r - ?m) \<le> r - ?m"
    using Cons by simp
  moreover have "0 \<le> ?m * lv_price l"
    using m(1) Cons.prems by (intro mult_nonneg_nonneg) (auto simp: wf_level_def)
  moreover have "?m * lv_price l \<le> ?m * 1"
    using m(1) Cons.prems by (intro mult_left_mono) (auto simp: wf_level_def)
  ultimately show ?case by (simp only: greedy_cost.simps) linarith
qed


section \<open>The loops compute the greedy allocation\<close>

definition grid_level :: "order_level \<Rightarrow> bool" where
  "grid_level l \<longleftrightarrow> on_grid (lv_price l) \<and> on_grid (lv_size l)"

lemma ctx_grain12: "grain (- 12) x \<Longrightarrow> \<bar>x\<bar> \<le> 10 ^ 16 \<Longrightarrow> ctx x = x"
  by (rule ctx_grain [of "- 12"]) (simp_all add: pow10_def)

lemma grain_grid_mult: "on_grid x \<Longrightarrow> on_grid y \<Longrightarrow> grain (- 12) (x * y)"
  using grain_mult [OF grain_on_grid grain_on_grid, of x y] by simp

lemma level_product:
  assumes "wf_level l" and "0 \<le> t"
  shows "0 \<le> t * lv_price l \<and> t * lv_price l \<le> t"
  using assms mult_left_mono [of "lv_price l" 1 t] by (simp add: wf_level_def)

lemma buy_loop_exact:
  assumes "wf_asks ls" and "list_all grid_level ls"
    and "on_grid r" and "0 < r" and "grain (- 12) c" and "0 \<le> c" and "c + r \<le> 10 ^ 16"
  shows "\<exists>w'. buy_loop ls r c w = (r - min r (depth ls), c + greedy_cost ls r, w')
    \<and> (ls \<noteq> [] \<longrightarrow> (\<exists>l \<in> set ls. w' = Some (lv_price l)
        \<and> greedy_cost ls r \<le> lv_price l * r))"
  using assms
proof (induction ls arbitrary: r c w)
  case Nil
  then show ?case by simp
next
  case (Cons l ls)
  define t where "t = min r (lv_size l)"
  have l: "wf_level l" "grid_level l" "list_all wf_level ls" "list_all grid_level ls"
    "wf_asks ls" "\<forall>x \<in> set ls. lv_price l \<le> lv_price x"
    using Cons.prems by auto
  have t: "0 < t" "t \<le> r" "on_grid t"
    using l(1,2) Cons.prems(3,4) by (auto simp: t_def min_def grid_level_def dest: wf_level_pos)
  define m where "m = t * lv_price l"
  have m: "grain (- 12) m" "0 \<le> m" "m \<le> t"
    using t l level_product [OF l(1), of t] by (simp_all add: m_def grain_grid_mult grid_level_def)
  have "ctx m = m" using m t Cons.prems(6,7) by (intro ctx_grain12) auto
  moreover have "ctx (c + m) = c + m"
    using m t Cons.prems(5-7) by (intro ctx_grain12) (auto intro: grain_add)
  moreover have "ctx (r - t) = r - t"
    using t Cons.prems(3,6,7) by (intro ctx_grid) auto
  ultimately have step: "buy_loop (l # ls) r c w =
      (if r - t = 0 then (r - t, c + m, Some (lv_price l))
       else buy_loop ls (r - t) (c + m) (Some (lv_price l)))"
    using t(1) by (simp add: Let_def dec_sub_def dec_add_def dec_mul_def t_def [symmetric] m_def [symmetric])
  have g: "greedy_cost (l # ls) r = m + greedy_cost ls (r - t)"
    by (simp add: t_def m_def)
  have p: "0 \<le> lv_price l" using l(1) by (simp add: wf_level_def)
  show ?case
  proof (cases "r - t = 0")
    case True
    then have "r \<le> lv_size l" "t = r" by (auto simp: t_def min_def split: if_splits)
    then show ?thesis
      using True l(3) depth_nonneg [OF l(3)] unfolding step g by (auto simp: min_def m_def mult.commute)
  next
    case False
    then have s: "t = lv_size l" "0 < r - t" using t(2) by (auto simp: t_def min_def)
    have "\<exists>w'. buy_loop ls (r - t) (c + m) (Some (lv_price l)) =
        (r - t - min (r - t) (depth ls), c + m + greedy_cost ls (r - t), w')
      \<and> (ls \<noteq> [] \<longrightarrow> (\<exists>x \<in> set ls. w' = Some (lv_price x)
          \<and> greedy_cost ls (r - t) \<le> lv_price x * (r - t)))"
      using l m t s(2) Cons.prems(3,5-7) by (intro Cons.IH) (auto intro: grain_add)
    moreover have "r - t - min (r - t) (depth ls) = r - min r (depth (l # ls))"
      using s by (simp add: min_def)
    moreover have "c + m + greedy_cost ls (r - t) = c + greedy_cost (l # ls) r"
      unfolding g by (rule add.assoc)
    ultimately obtain w' where w': "buy_loop ls (r - t) (c + m) (Some (lv_price l)) =
        (r - min r (depth (l # ls)), c + greedy_cost (l # ls) r, w')"
      "ls \<noteq> [] \<longrightarrow> (\<exists>x \<in> set ls. w' = Some (lv_price x)
          \<and> greedy_cost ls (r - t) \<le> lv_price x * (r - t))"
      by metis
    show ?thesis
    proof (cases "ls = []")
      case True
      have "m \<le> lv_price l * r" using mult_right_mono [OF t(2) p] by (simp add: m_def mult.commute)
      then show ?thesis using True False s unfolding step g by (auto simp: min_def)
    next
      case ls: False
      then obtain x where x: "x \<in> set ls" "w' = Some (lv_price x)"
        "greedy_cost ls (r - t) \<le> lv_price x * (r - t)" using w'(2) by blast
      have "m \<le> t * lv_price x" using l(6) x(1) t(1) by (simp add: m_def mult_left_mono)
      then have "greedy_cost (l # ls) r \<le> lv_price x * r"
        using x(3) unfolding g by (simp add: algebra_simps)
      then show ?thesis using False w'(1) x unfolding step by auto
    qed
  qed
qed


section \<open>Quotes by quantity\<close>

definition wf_book :: "order_book \<Rightarrow> bool" where
  "wf_book b \<longleftrightarrow>
     dt_aware (bk_observed_at b) \<and> 0 < bk_minimum_order_size b
     \<and> 0 < bk_tick_size b \<and> bk_tick_size b < 1 \<and> strip (bk_hash b) \<noteq> []
     \<and> bk_bids b \<noteq> [] \<and> bk_asks b \<noteq> []
     \<and> list_all wf_level (bk_bids b) \<and> list_all wf_level (bk_asks b)
     \<and> sorted_wrt (>) (map lv_price (bk_bids b)) \<and> sorted_wrt (<) (map lv_price (bk_asks b))
     \<and> best_bid b < best_ask b"

definition grid_book :: "order_book \<Rightarrow> bool" where
  "grid_book b \<longleftrightarrow> list_all grid_level (bk_asks b) \<and> depth (bk_asks b) \<le> 10 ^ 16"

lemma order_level_init_wf: "order_level_init p s = Inr l \<Longrightarrow> wf_level l"
  by (auto simp: order_level_init_def wf_level_def result_simps)

lemma rev_sort_desc: "xs = rev (sort xs) \<Longrightarrow> distinct xs \<Longrightarrow> sorted_wrt (>) (xs :: rat list)"
proof -
  assume xs: "xs = rev (sort xs)" "distinct xs"
  have "sorted_wrt (<) (sort xs)" using xs(2) by (simp add: strict_sorted_iff)
  then have "sorted_wrt (>) (rev (sort xs))" by (simp add: sorted_wrt_rev)
  then show ?thesis using xs(1) by simp
qed

lemma order_book_init_wf:
  assumes "order_book_init m t b = Inr b'"
    and "list_all wf_level (bk_bids b)" and "list_all wf_level (bk_asks b)"
  shows "wf_book b'"
proof -
  let ?bids = "map lv_price (bk_bids b)" and ?asks = "map lv_price (bk_asks b)"
  obtain mi ti where aware: "dt_aware (bk_observed_at b)" and min: "0 < mi" and tick: "0 < ti" "ti < 1"
    and hash: "strip (bk_hash b) \<noteq> []" and ne: "bk_bids b \<noteq> []" "bk_asks b \<noteq> []"
    and p: "?bids = rev (sort ?bids)" "?asks = sort ?asks" "distinct ?bids" "distinct ?asks"
    and x: "hd ?bids < hd ?asks"
    and b': "b' = b\<lparr>bk_observed_at := to_utc (bk_observed_at b), bk_minimum_order_size := mi,
      bk_tick_size := ti\<rparr>"
    using assms(1)
    unfolding order_book_init_def Let_def result_simps sum.inject de_Morgan_disj not_le not_not
    by blast
  have e: "bk_bids b' = bk_bids b" "bk_asks b' = bk_asks b" by (simp_all add: b')
  have o: "dt_aware (bk_observed_at b')" "0 < bk_minimum_order_size b'"
      "0 < bk_tick_size b'" "bk_tick_size b' < 1" "strip (bk_hash b') \<noteq> []"
    using min tick hash by (simp_all add: b')
  have "sorted (map lv_price (bk_asks b))" using p(2) by (metis sorted_sort)
  then have "sorted_wrt (<) (map lv_price (bk_asks b))" using p(4) by (simp add: strict_sorted_iff)
  moreover have "best_bid b' < best_ask b'"
    using x ne by (simp add: best_bid_def best_ask_def e hd_map)
  ultimately show ?thesis
    using rev_sort_desc [OF p(1,3)] ne o assms(2,3) by (simp add: wf_book_def e)
qed

lemma wf_book_asks: "wf_book b \<Longrightarrow> wf_asks (bk_asks b) \<and> bk_asks b \<noteq> []"
  using strict_sorted_imp_sorted by (auto simp: wf_book_def)

lemma best_ask_least:
  "wf_book b \<Longrightarrow> l \<in> set (bk_asks b) \<Longrightarrow> best_ask b \<le> lv_price l"
  using wf_book_asks [of b] by (cases "bk_asks b") (auto simp: best_ask_def)

lemma best_ask_pos: "wf_book b \<Longrightarrow> 0 < best_ask b"
  using wf_book_asks [of b] by (cases "bk_asks b") (auto simp: best_ask_def wf_level_def)

lemma quote_buy_grid:
  assumes "wf_book b" and "grid_book b" and "on_grid r" and "r \<le> 10 ^ 16"
    and "bk_minimum_order_size b \<le> r"
  shows "\<exists>l \<in> set (bk_asks b). greedy_cost (bk_asks b) r \<le> lv_price l * r
    \<and> quote_buy b (PyDecimal r) =
        (if depth (bk_asks b) < r then Inl (OrderBookError ''insufficient ask depth'')
         else Inr (make_quote b r (greedy_cost (bk_asks b) r) (ctx (greedy_cost (bk_asks b) r / r))
                    (lv_price l)))"
proof -
  have r: "0 < r" using assms(1,5) by (simp add: wf_book_def)
  obtain w' where w': "buy_loop (bk_asks b) r 0 None =
      (r - min r (depth (bk_asks b)), greedy_cost (bk_asks b) r, w')"
    "\<exists>l \<in> set (bk_asks b). w' = Some (lv_price l) \<and> greedy_cost (bk_asks b) r \<le> lv_price l * r"
    using buy_loop_exact [of "bk_asks b" r 0 None] wf_book_asks [OF assms(1)] assms(2-4) r
    by (auto simp: grid_book_def)
  then obtain l where "l \<in> set (bk_asks b)" "w' = Some (lv_price l)"
    "greedy_cost (bk_asks b) r \<le> lv_price l * r" by blast
  then show ?thesis
    using w'(1) r assms(5)
    by (intro bexI [of _ l])
      (auto simp: quote_buy_def book_decimal_def dec_div_def not_less min_def)
qed


section \<open>Quotes by budget\<close>

lemma ctx_error_nonneg:
  assumes "0 \<le> x"
  shows "x * (1 - 5 / 10 ^ 28) \<le> ctx x \<and> ctx x \<le> x * (1 + 5 / 10 ^ 28)"
proof -
  have "\<bar>ctx x - x\<bar> \<le> x * (5 / 10 ^ 28)" using ctx_error [of x] assms by (simp only: abs_of_nonneg)
  then show ?thesis
    unfolding abs_le_iff by (simp only: distrib_left right_diff_distrib) linarith
qed

text \<open>Two roundings, of a quotient and of the sum it is added to.\<close>

lemma ctx_error_twice:
  assumes "0 \<le> s" and "0 \<le> y"
  shows "\<bar>ctx (s + ctx y) - (s + y)\<bar> \<le> (s + y) * (2 / 10 ^ 27)"
proof -
  define e :: rat where "e = 5 / 10 ^ 28"
  have e: "0 \<le> e" "e * e \<le> e" by (simp_all add: e_def)
  have y: "y * (1 - e) \<le> ctx y" "ctx y \<le> y * (1 + e)"
    using ctx_error_nonneg [OF assms(2)] by (simp_all add: e_def)
  have cy: "0 \<le> ctx y" using assms(2) by (rule ctx_round.r_nonneg)
  have z: "(s + ctx y) * (1 - e) \<le> ctx (s + ctx y)" "ctx (s + ctx y) \<le> (s + ctx y) * (1 + e)"
    using ctx_error_nonneg [of "s + ctx y"] assms(1) cy by (simp_all add: e_def)
  have se: "0 \<le> s * e" "0 \<le> y * e" using assms e(1) by simp_all
  have "s + ctx y \<le> (s + y) * (1 + e)" using y(2) se by (simp add: algebra_simps)
  then have "(s + ctx y) * (1 + e) \<le> (s + y) * (1 + e) * (1 + e)"
    using e(1) by (intro mult_right_mono) auto
  also have "\<dots> = (s + y) * (1 + 2 * e + e * e)" by (simp add: algebra_simps)
  also have "\<dots> \<le> (s + y) * (1 + 4 * e)" using assms e by (intro mult_left_mono) auto
  finally have hi: "ctx (s + ctx y) \<le> (s + y) * (1 + 4 * e)" using z(2) by linarith
  have "(s + y) * (1 - e) \<le> s + ctx y" using y(1) se by (simp add: algebra_simps)
  then have "(s + y) * (1 - e) * (1 - e) \<le> (s + ctx y) * (1 - e)"
    by (rule mult_right_mono) (simp add: e_def)
  moreover have "(s + y) * (1 - 4 * e) \<le> (s + y) * ((1 - e) * (1 - e))"
    using assms e by (intro mult_left_mono) (auto simp: algebra_simps)
  ultimately have lo: "(s + y) * (1 - 4 * e) \<le> ctx (s + ctx y)"
    using z(1) by (simp add: mult.assoc)
  have "4 * e = 2 / 10 ^ 27" by (simp add: e_def)
  with hi lo show ?thesis by (simp only: abs_le_iff) (simp add: algebra_simps)
qed

lemma notional_nonneg: "list_all wf_level ls \<Longrightarrow> 0 \<le> notional ls"
  by (induction ls) (auto simp: wf_level_def intro!: add_nonneg_nonneg mult_nonneg_nonneg)

text \<open>What the budget loop returns when the book is deep enough.\<close>

definition spent :: "order_level list \<Rightarrow> rat \<Rightarrow> rat \<Rightarrow> rat \<Rightarrow> order_level \<Rightarrow> rat \<Rightarrow> bool" where
  "spent ls r s s' l S \<longleftrightarrow>
     l \<in> set ls \<and> 0 < S \<and> S \<le> depth ls \<and> greedy_cost ls S = r \<and> r \<le> lv_price l * S
     \<and> \<bar>s' - (s + S)\<bar> \<le> (s + S) * (2 / 10 ^ 27)"

lemma spent_first:
  assumes "wf_asks (l # ls)" and "0 < S" and "S \<le> lv_size l"
    and "\<bar>s' - (s + S)\<bar> \<le> (s + S) * (2 / 10 ^ 27)"
  shows "spent (l # ls) (S * lv_price l) s s' l S"
  using assms depth_nonneg [of ls] by (simp add: spent_def min_def mult.commute)

lemma spent_next:
  assumes "wf_asks (l # ls)" and "spent ls r (s + lv_size l) s' x S"
  shows "spent (l # ls) (lv_size l * lv_price l + r) s s' x (lv_size l + S)"
proof -
  have "lv_size l * lv_price l \<le> lv_price x * lv_size l" "r \<le> lv_price x * S"
    using assms by (simp_all add: spent_def wf_level_def mult.commute mult_left_mono)
  then have "lv_size l * lv_price l + r \<le> lv_price x * (lv_size l + S)"
    unfolding distrib_left by linarith
  moreover have "min (lv_size l + S) (lv_size l) = lv_size l" using assms(2) by (simp add: spent_def)
  ultimately show ?thesis
    using assms by (simp add: spent_def wf_level_def add.assoc)
qed

lemma budget_loop_exact:
  assumes "wf_asks ls" and "list_all grid_level ls" and "k \<le> - 12"
    and "grain k r" and "grain k c" and "0 < r" and "0 \<le> c" and "r + c \<le> 10 ^ 28 * pow10 k"
    and "on_grid s" and "0 \<le> s" and "s + depth ls \<le> 10 ^ 16"
  shows "if notional ls < r
    then \<exists>w'. budget_loop ls r s c w = Inr (r - notional ls, s + depth ls, c + notional ls, w')
    else \<exists>s' l S. budget_loop ls r s c w = Inr (0, s', c + r, Some (lv_price l)) \<and> spent ls r s s' l S"
  using assms
proof (induction ls arbitrary: r c s w)
  case Nil
  then show ?case by simp
next
  case (Cons l ls)
  define m where "m = lv_size l * lv_price l"
  have l: "wf_level l" "grid_level l" "wf_asks ls" "list_all grid_level ls" "0 < lv_size l" "0 < lv_price l"
    using Cons.prems by (auto dest: wf_level_pos)
  have size: "lv_size l \<le> 10 ^ 16" "s + lv_size l \<le> 10 ^ 16"
    using Cons.prems(10,11) depth_nonneg l(3) by fastforce+
  have m: "0 \<le> m" "m \<le> lv_size l" "grain (- 12) m"
    using level_product [OF l(1), of "lv_size l"] l(2,5) by (auto simp: m_def grid_level_def grain_grid_mult)
  then have mk: "grain k m" using Cons.prems(3) by (auto intro: grain_finer)
  have cm: "ctx m = m" using m size(1) by (intro ctx_grain12) auto
  have cr: "ctx (c + r) = c + r"
    using Cons.prems(4-8) by (intro ctx_grain [of k]) (auto intro: grain_add)
  show ?case
  proof (cases "m \<le> r")
    case True
    have "ctx (r - m) = r - m"
      using True m(1) mk Cons.prems(4-8) by (intro ctx_grain [of k]) (auto intro: grain_diff)
    moreover have "ctx (c + m) = c + m"
      using True m(1) mk Cons.prems(4-8) by (intro ctx_grain [of k]) (auto intro: grain_add)
    moreover have "ctx (s + lv_size l) = s + lv_size l"
      using Cons.prems(9,10) l(2,5) size(2) by (intro ctx_grid) (auto simp: grid_level_def)
    ultimately have e: "ctx (r - m) = r - m" "ctx (c + m) = c + m" "ctx (s + lv_size l) = s + lv_size l"
      by blast+
    have step: "budget_loop (l # ls) r s c w =
        (if r - m = 0 then Inr (r - m, s + lv_size l, c + m, Some (lv_price l))
         else budget_loop ls (r - m) (s + lv_size l) (c + m) (Some (lv_price l)))"
      using True by (simp add: Let_def dec_mul_def dec_add_def dec_sub_def m_def [symmetric] cm e)
    show ?thesis
    proof (cases "r - m = 0")
      case True
      then show ?thesis
        using spent_first [OF Cons.prems(1) l(5), of "s + lv_size l" s] notional_nonneg [of ls] l(3,5)
          Cons.prems(10)
        unfolding step by (auto simp: m_def [symmetric])
    next
      case False
      with True have IH: "if notional ls < r - m
        then \<exists>w'. budget_loop ls (r - m) (s + lv_size l) (c + m) (Some (lv_price l)) =
          Inr (r - m - notional ls, s + lv_size l + depth ls, c + m + notional ls, w')
        else \<exists>s' x S. budget_loop ls (r - m) (s + lv_size l) (c + m) (Some (lv_price l)) =
          Inr (0, s', c + m + (r - m), Some (lv_price x)) \<and> spent ls (r - m) (s + lv_size l) s' x S"
        using l l(2) [unfolded grid_level_def] m mk Cons.prems(3-11)
        by (intro Cons.IH) (auto intro: grain_add grain_diff)
      show ?thesis
      proof (cases "notional ls < r - m")
        case True
        then have "r - m - notional ls = r - notional (l # ls)" "notional (l # ls) < r"
          "s + lv_size l + depth ls = s + depth (l # ls)" "c + m + notional ls = c + notional (l # ls)"
          by (simp_all add: m_def)
        then show ?thesis using IH True False unfolding step by auto
      next
        case deep: False
        then obtain s' x S where x: "budget_loop ls (r - m) (s + lv_size l) (c + m) (Some (lv_price l)) =
            Inr (0, s', c + m + (r - m), Some (lv_price x))" "spent ls (r - m) (s + lv_size l) s' x S"
          using IH by auto
        have "spent (l # ls) r s s' x (lv_size l + S)"
          using spent_next [OF Cons.prems(1) x(2)] by (simp add: m_def)
        moreover have "\<not> notional (l # ls) < r" using deep by (simp add: m_def)
        ultimately show ?thesis using x(1) False unfolding step by auto
      qed
    qed
  next
    case False
    let ?S = "r / lv_price l"
    have S: "0 < ?S" "?S \<le> lv_size l" "?S * lv_price l = r"
      using False Cons.prems(6) l(6) by (auto simp: m_def field_simps)
    have "budget_loop (l # ls) r s c w = Inr (0, ctx (s + ctx ?S), c + r, Some (lv_price l))"
      using False l(6) by (simp add: Let_def dec_mul_def dec_add_def dec_div_def m_def [symmetric] cm cr)
    moreover have "spent (l # ls) r s (ctx (s + ctx ?S)) l ?S"
      using spent_first [OF Cons.prems(1) S(1,2) ctx_error_twice] Cons.prems(10) S by simp
    moreover have "\<not> notional (l # ls) < r"
      using False notional_nonneg [of ls] l(3) by (simp add: m_def)
    ultimately show ?thesis by auto
  qed
qed


lemma quote_buy_budget_grid:
  assumes "wf_book b" and "grid_book b" and "ctx r = r" and "0 < r" and "r < 10 ^ 16"
  shows "if notional (bk_asks b) < r
    then quote_buy_budget b (PyDecimal r) =
      Inl (OrderBookError ''insufficient ask depth for cash budget'')
    else \<exists>s' l S. spent (bk_asks b) r 0 s' l S \<and> quote_buy_budget b (PyDecimal r) =
      (if s' < bk_minimum_order_size b
       then Inl (OrderBookError ''cash budget buys shares, below minimum'')
       else Inr (make_quote b s' r (ctx (r / s')) (lv_price l)))"
proof -
  obtain k where k: "k \<le> - 12" "grain k r" "r \<le> 10 ^ 28 * pow10 k"
    using ctx_fixed_grain assms(3-5) by blast
  have "if notional (bk_asks b) < r
    then \<exists>w'. budget_loop (bk_asks b) r 0 0 None =
      Inr (r - notional (bk_asks b), 0 + depth (bk_asks b), 0 + notional (bk_asks b), w')
    else \<exists>s' l S. budget_loop (bk_asks b) r 0 0 None = Inr (0, s', 0 + r, Some (lv_price l))
      \<and> spent (bk_asks b) r 0 s' l S"
    using wf_book_asks [OF assms(1)] assms(2,4) k
    by (intro budget_loop_exact [of _ k]) (auto simp: grid_book_def)
  moreover have "0 < bk_minimum_order_size b" using assms(1) by (simp add: wf_book_def)
  ultimately show ?thesis
  proof (cases "notional (bk_asks b) < r")
    case False
    with \<open>if _ then _ else _\<close> obtain s' l S where
      "budget_loop (bk_asks b) r 0 0 None = Inr (0, s', r, Some (lv_price l))"
      "spent (bk_asks b) r 0 s' l S" by auto
    then have "spent (bk_asks b) r 0 s' l S \<and> quote_buy_budget b (PyDecimal r) =
      (if s' < bk_minimum_order_size b
       then Inl (OrderBookError ''cash budget buys shares, below minimum'')
       else Inr (make_quote b s' r (ctx (r / s')) (lv_price l)))"
      using assms(4) \<open>0 < bk_minimum_order_size b\<close>
      by (auto simp: quote_buy_budget_def book_decimal_def dec_div_def)
    with False show ?thesis by (simp only: if_False) blast
  qed (use assms(4) in \<open>auto simp: quote_buy_budget_def book_decimal_def\<close>)
qed

text \<open>No allocation that costs at most the budget holds more than what was bought.\<close>

lemma spent_most:
  assumes "wf_asks ls" and "spent ls r 0 s' l S"
    and "allocation ts ls" and "allocation_cost ts ls \<le> r"
  shows "sum_list ts \<le> S"
proof (rule ccontr)
  assume less: "\<not> sum_list ts \<le> S"
  have sp: "0 < S" "greedy_cost ls S = r" "l \<in> set ls" using assms(2) by (simp_all add: spent_def)
  obtain x xs where ls: "ls = x # xs" using sp(3) by (cases ls) auto
  have p: "0 < lv_price x" "list_all (\<lambda>y. lv_price x \<le> lv_price y) ls"
    using assms(1) sorted_prices_ge [of x xs] by (auto simp: ls wf_level_def)
  have "greedy_cost ls S + (sum_list ts - S) * lv_price x \<le> greedy_cost ls (sum_list ts)"
    using assms(1,3) p(2) sp(1) less allocation_bounds [OF assms(3)] by (intro greedy_slope) auto
  moreover have "greedy_cost ls (sum_list ts) \<le> r"
    using greedy_cheapest [OF assms(1,3)] assms(4) by linarith
  ultimately have "(sum_list ts - S) * lv_price x \<le> 0" using sp(2) by linarith
  then show False using less p(1) by (simp add: mult_le_0_iff)
qed

section \<open>Properties\<close>

text \<open>C16. A quantity quote on a six-decimal book is exact and best: it is given exactly when the
  book is deep enough, its cost is that of the cheapest way to take the quantity from the asks,
  which exists, and its average price lies between the best ask and the worst level it touches.\<close>

theorem quote_buy_cheapest:
  assumes "wf_book b" and "grid_book b" and "on_grid r" and "r \<le> 10 ^ 16"
    and "bk_minimum_order_size b \<le> r"
  shows "(is_ok (quote_buy b (PyDecimal r)) \<longleftrightarrow> r \<le> depth (bk_asks b))
    \<and> (\<forall>q. quote_buy b (PyDecimal r) = Inr q \<longrightarrow>
      xq_shares q = r
      \<and> (\<forall>ts. allocation ts (bk_asks b) \<and> sum_list ts = r \<longrightarrow>
            xq_total_cost q \<le> allocation_cost ts (bk_asks b))
      \<and> (\<exists>ts. allocation ts (bk_asks b) \<and> sum_list ts = r
            \<and> allocation_cost ts (bk_asks b) = xq_total_cost q)
      \<and> best_ask b \<le> xq_average_price q \<and> xq_average_price q \<le> xq_worst_price q)"
proof -
  let ?ls = "bk_asks b" and ?avg = "ctx (greedy_cost (bk_asks b) r / r)"
  have r: "0 < r" using assms(1,5) by (simp add: wf_book_def)
  have asks: "wf_asks ?ls" using wf_book_asks [OF assms(1)] by blast
  obtain l where l: "l \<in> set ?ls" "greedy_cost ?ls r \<le> lv_price l * r"
    "quote_buy b (PyDecimal r) =
      (if depth ?ls < r then Inl (OrderBookError ''insufficient ask depth'')
       else Inr (make_quote b r (greedy_cost ?ls r) ?avg (lv_price l)))"
    using quote_buy_grid [OF assms] by blast
  have g: "on_grid (lv_price l)" "0 < lv_price l" "lv_price l < 1"
    using l(1) assms(1,2) by (auto simp: grid_book_def wf_book_def list_all_iff grid_level_def wf_level_def)
  have "greedy_cost ?ls r / r \<le> lv_price l" using l(2) r by (simp add: divide_le_eq)
  then have avg: "?avg \<le> lv_price l" using g by (intro ctx_round.r_le_fixed ctx_grid) auto
  have best: "\<forall>ts. allocation ts ?ls \<and> sum_list ts = r \<longrightarrow> greedy_cost ?ls r \<le> allocation_cost ts ?ls"
    using greedy_cheapest [OF asks] by blast
  have attained: "r \<le> depth ?ls \<Longrightarrow>
      \<exists>ts. allocation ts ?ls \<and> sum_list ts = r \<and> allocation_cost ts ?ls = greedy_cost ?ls r"
    using greedy_attained asks r by simp
  show ?thesis
    using best attained avg best_ask_least [OF assms(1) l(1)] unfolding l(3) by (auto simp: make_quote_def)
qed

text \<open>C17. A budget quote on a book of six-decimal prices and sizes, for a budget below $10^{16}$ of at
  most 28 digits, has three outcomes. It is refused for depth exactly when the asks are worth less than
  the budget. Otherwise it is refused for buying fewer shares than the minimum order, and then no
  allocation within the budget reaches the minimum, or it spends the budget to the last digit. No
  allocation that costs at most the budget holds more than the quoted shares, up to a factor of
  $1 - 2 / 10^{27}$ for the two roundings of 28-digit division.\<close>

theorem quote_buy_budget_best:
  assumes "wf_book b" and "grid_book b" and "ctx r = r" and "0 < r" and "r < 10 ^ 16"
  shows "(quote_buy_budget b (PyDecimal r) =
      Inl (OrderBookError ''insufficient ask depth for cash budget'') \<longleftrightarrow> notional (bk_asks b) < r)
    \<and> (r \<le> notional (bk_asks b) \<longrightarrow> (\<exists>q. quote_buy_budget b (PyDecimal r) = Inr q)
        \<or> quote_buy_budget b (PyDecimal r) =
            Inl (OrderBookError ''cash budget buys shares, below minimum''))
    \<and> (quote_buy_budget b (PyDecimal r) =
        Inl (OrderBookError ''cash budget buys shares, below minimum'') \<longrightarrow>
      (\<forall>ts. allocation ts (bk_asks b) \<and> allocation_cost ts (bk_asks b) \<le> r \<longrightarrow>
            sum_list ts * (1 - 2 / 10 ^ 27) < bk_minimum_order_size b))
    \<and> (\<forall>q. quote_buy_budget b (PyDecimal r) = Inr q \<longrightarrow>
      xq_total_cost q = r \<and> bk_minimum_order_size b \<le> xq_shares q
      \<and> best_ask b \<le> xq_average_price q \<and> best_ask b \<le> xq_worst_price q
      \<and> (\<forall>ts. allocation ts (bk_asks b) \<and> allocation_cost ts (bk_asks b) \<le> r \<longrightarrow>
            sum_list ts * (1 - 2 / 10 ^ 27) \<le> xq_shares q))"
proof (cases "notional (bk_asks b) < r")
  case True
  then show ?thesis using quote_buy_budget_grid [OF assms] by simp
next
  case False
  then obtain s' l S where s: "spent (bk_asks b) r 0 s' l S"
    "quote_buy_budget b (PyDecimal r) =
      (if s' < bk_minimum_order_size b
       then Inl (OrderBookError ''cash budget buys shares, below minimum'')
       else Inr (make_quote b s' r (ctx (r / s')) (lv_price l)))"
    using quote_buy_budget_grid [OF assms] by auto
  have "\<bar>s' - S\<bar> \<le> S * (2 / 10 ^ 27)" using s(1) unfolding spent_def add_0 by blast
  then have S: "S * (1 - 2 / 10 ^ 27) \<le> s'"
    unfolding abs_le_iff by (simp only: right_diff_distrib) linarith
  have best: "\<forall>ts. allocation ts (bk_asks b) \<and> allocation_cost ts (bk_asks b) \<le> r \<longrightarrow>
      sum_list ts * (1 - 2 / 10 ^ 27) \<le> s'"
  proof (intro allI impI)
    fix ts assume "allocation ts (bk_asks b) \<and> allocation_cost ts (bk_asks b) \<le> r"
    then have "sum_list ts \<le> S" using spent_most [OF _ s(1)] wf_book_asks [OF assms(1)] by blast
    then have "sum_list ts * (1 - 2 / 10 ^ 27) \<le> S * (1 - 2 / 10 ^ 27)" by (rule mult_right_mono) simp
    then show "sum_list ts * (1 - 2 / 10 ^ 27) \<le> s'" using S by linarith
  qed
  show ?thesis
  proof (cases "s' < bk_minimum_order_size b")
    case True
    then have "\<forall>ts. allocation ts (bk_asks b) \<and> allocation_cost ts (bk_asks b) \<le> r \<longrightarrow>
        sum_list ts * (1 - 2 / 10 ^ 27) < bk_minimum_order_size b"
      using best by (meson le_less_trans)
    then show ?thesis using True False unfolding s(2) by simp
  next
    case enough: False
    then show ?thesis
      using best s(1) False best_ask_least [OF assms(1), of l] unfolding s(2)
      by (auto simp: make_quote_def spent_def)
  qed
qed

end
