(* ===== verification/Quoting_Props.thy ===== *)
theory Quoting_Props
  imports Evaluator Order_Book_Props
begin

text \<open>
  What an accepted evaluation guarantees, and that evaluation is total: on well-formed inputs and a
  six-decimal book every outcome is an accepted quote or a rejection with a reason, never an
  exception.
\<close>

section \<open>Well-formed inputs\<close>

definition wf_freshness_policy :: "freshness_policy \<Rightarrow> bool" where
  "wf_freshness_policy p \<longleftrightarrow>
     0 < fp_forecast_age p \<and> 0 < fp_event_age p \<and> 0 < fp_order_book_age p \<and> 0 < fp_balance_age p
     \<and> 0 \<le> fp_future_tolerance p"

definition wf_cost_policy :: "cost_policy \<Rightarrow> bool" where
  "wf_cost_policy p \<longleftrightarrow>
     0 \<le> cp_platform_fee_rate p \<and> 0 \<le> cp_transaction_cost p \<and> 0 \<le> cp_safety_margin_rate p
     \<and> 0 \<le> cp_maximum_average_slippage p
     \<and> cp_maximum_average_slippage p \<le> cp_maximum_worst_slippage p
     \<and> 0 < cp_maximum_all_in_price p \<and> cp_maximum_all_in_price p < 1
     \<and> 0 \<le> cp_minimum_expected_return p"

definition wf_market_event :: "market_event \<Rightarrow> bool" where
  "wf_market_event e \<longleftrightarrow>
     strip (me_event_id e) = me_event_id e \<and> me_event_id e \<noteq> [] \<and> dt_aware (me_retrieved_at e)"

lemma freshness_policy_init_wf:
  "freshness_policy_init p = Inr q \<Longrightarrow> q = p \<and> wf_freshness_policy p"
  by (auto simp: freshness_policy_init_def require_positive_age_def wf_freshness_policy_def result_simps)

lemma cost_policy_init_wf:
  "cost_policy_init a b c d e f g h = Inr p \<Longrightarrow> wf_cost_policy p"
  by (auto simp: cost_policy_init_def require_not_negative_def wf_cost_policy_def result_simps)

lemma market_event_init_wf: "market_event_init e = Inr e' \<Longrightarrow> wf_market_event e'"
  by (auto simp: market_event_init_def wf_market_event_def quote_utc_def Let_def result_simps)

section \<open>Rejections\<close>

lemma strip_Nil_iff: "strip s = [] \<longleftrightarrow> list_all is_space s"
proof -
  have "strip s = [] \<longleftrightarrow> (\<forall>c \<in> set (dropWhile is_space s). is_space c)"
    by (simp add: strip_def dropWhile_eq_Nil_conv)
  also have "\<dots> \<longleftrightarrow> dropWhile is_space s = []"
    by (metis empty_iff empty_set hd_dropWhile list.set_sel(1))
  finally show ?thesis by (simp add: dropWhile_eq_Nil_conv list_all_iff)
qed

lemma strip_append_nonblank: "strip t \<noteq> [] \<Longrightarrow> strip (s @ t) \<noteq> []"
  by (simp add: strip_Nil_iff)

lemma quote_utc_aware [simp]: "dt_aware d \<Longrightarrow> quote_utc d l = Inr (to_utc d)"
  by (simp add: quote_utc_def)

lemma quote_utc_InrD: "quote_utc d l = Inr u \<Longrightarrow> dt_aware d \<and> u = to_utc d"
  by (auto simp: quote_utc_def split: if_splits)

lemma reject_ok:
  "dt_aware d \<Longrightarrow> strip m \<noteq> [] \<Longrightarrow> reject d r m c = Inr
     \<lparr>qe_evaluated_at = to_utc d, qe_quote = None, qe_rejection_reason = Some r,
      qe_detail = Some m, qe_freshness = c\<rparr>"
  by (simp add: reject_def quote_evaluation_init_def)

lemma reject_InrD: "reject d r m c = Inr e \<Longrightarrow> qe_quote e = None \<and> qe_rejection_reason e = Some r"
  by (auto simp: reject_def quote_evaluation_init_def Let_def result_simps)

lemma parse_inputs_InlE:
  assumes "parse_inputs p b = Inl x"
  obtains m where "x = QuoteValidationError m" "strip m \<noteq> []"
proof -
  have t: "strip ''model probability must be decimal'' \<noteq> []" "strip ''model probability must be finite'' \<noteq> []"
    "strip ''requested budget must be decimal'' \<noteq> []" "strip ''requested budget must be finite'' \<noteq> []"
    by code_simp+
  show ?thesis
    using assms t that
    by (auto simp: parse_inputs_def quote_decimal_def strict_decimal_def rbind_eq_Inl split: option.splits)
qed

section \<open>Freshness gates\<close>

text \<open>A datum inside its age window at the moment of evaluation.\<close>

definition timely :: "datetime \<Rightarrow> timedelta \<Rightarrow> datetime \<Rightarrow> timedelta \<Rightarrow> bool" where
  "timely evaluated tolerance observed maximum_age \<longleftrightarrow>
     dt_aware observed \<and> dt_micros observed - tolerance \<le> dt_micros evaluated
     \<and> dt_micros evaluated \<le> dt_micros observed + maximum_age"

lemma age_check_cases:
  assumes "dt_aware evaluated"
  obtains m where "age_check observed evaluated maximum tolerance label = Inl (QuoteValidationError m)"
      "strip m \<noteq> []"
    | c where "age_check observed evaluated maximum tolerance label = Inr c"
      "fk_maximum_age c = maximum" "0 < maximum"
      "is_fresh c \<longleftrightarrow> timely evaluated tolerance observed maximum"
proof -
  have t: "strip '' observation time must be timezone-aware'' \<noteq> []" "strip '' timestamp is unexpectedly in the future'' \<noteq> []"
    "strip ''freshness label must not be blank'' \<noteq> []"
    "strip ''freshness ages must be non-negative and bounded'' \<noteq> []"
    by code_simp+
  note a = strip_append_nonblank [OF t(1)] strip_append_nonblank [OF t(2)]
  consider "\<not> dt_aware observed"
    | "dt_aware observed" "dt_micros evaluated - dt_micros observed < - tolerance"
    | "dt_aware observed" "\<not> dt_micros evaluated - dt_micros observed < - tolerance"
      "strip label = [] \<or> maximum \<le> 0"
    | "dt_aware observed" "\<not> dt_micros evaluated - dt_micros observed < - tolerance"
      "strip label \<noteq> []" "0 < maximum"
    by linarith
  then show ?thesis
  proof cases
    case 1
    then show ?thesis by (intro that(1)) (auto simp: age_check_def quote_utc_def a)
  next
    case 2
    then show ?thesis
      by (intro that(1)) (auto simp: age_check_def assms a)
  next
    case 3
    then show ?thesis
      by (cases "strip label = []")
        (auto intro!: that(1) simp: age_check_def freshness_check_init_def assms t Let_def)
  next
    case 4
    show ?thesis
      by (rule that(2)) (use 4 in \<open>auto simp: age_check_def freshness_check_init_def assms Let_def
          is_fresh_def timely_def\<close>)
  qed
qed


definition in_window :: "datetime \<Rightarrow> timedelta \<Rightarrow> string \<times> datetime \<times> timedelta \<times> quote_rejection_reason \<Rightarrow> bool" where
  "in_window evaluated tolerance d =
     (case d of (label, observed, maximum, reason) \<Rightarrow> timely evaluated tolerance observed maximum)"

text \<open>The checks a passed gate leaves: fresh, one per datum, with the policy's limits.\<close>

definition checks_for ::
    "(string \<times> datetime \<times> timedelta \<times> quote_rejection_reason) list \<Rightarrow> (string, freshness_check) dict \<Rightarrow> bool" where
  "checks_for ds checks \<longleftrightarrow>
     (\<forall>(label, c) \<in> set checks. is_fresh c
        \<and> (\<exists>observed reason. (label, observed, fk_maximum_age c, reason) \<in> set ds))"

lemma checks_for_add:
  assumes "checks_for ds checks" and "is_fresh c" and "(label, observed, fk_maximum_age c, reason) \<in> set ds"
  shows "checks_for ds (dict_set checks label c)"
proof -
  have "set (dict_set checks label c) \<subseteq> insert (label, c) (set checks)"
    by (induction checks) (auto split: if_splits)
  then show ?thesis using assms unfolding checks_for_def by fast
qed

lemma freshness_loop_ok:
  assumes "dt_aware evaluated" and "checks_for entries checks" and "set ds \<subseteq> set entries"
    and "\<forall>(label, _) \<in> set ds. strip label \<noteq> []"
  shows "\<exists>checks' rejection. freshness_loop evaluated tolerance ds checks = Inr (checks', rejection)
    \<and> (rejection = None \<longleftrightarrow> list_all (in_window evaluated tolerance) ds \<and> (\<forall>(_, _, m, _) \<in> set ds. 0 < m))
    \<and> (rejection = None \<longrightarrow> checks_for entries checks')
    \<and> (\<forall>r. rejection = Some r \<longrightarrow> qe_quote r = None)"
  using assms(2-4)
proof (induction ds arbitrary: checks)
  case Nil
  then show ?case by simp
next
  case (Cons d ds)
  obtain label observed maximum reason where d: "d = (label, observed, maximum, reason)"
    by (cases d) auto
  show ?case
  proof (rule age_check_cases [OF assms(1), of observed maximum tolerance label])
    fix m assume m: "age_check observed evaluated maximum tolerance label = Inl (QuoteValidationError m)"
      "strip m \<noteq> []"
    have "\<not> (timely evaluated tolerance observed maximum \<and> 0 < maximum)"
      using m(1) assms(1) Cons.prems(3) d
      by (auto simp: age_check_def freshness_check_init_def timely_def Let_def split: if_splits)
    then show ?thesis using m by (auto simp: d reject_ok assms(1) in_window_def)
  next
    fix c assume c: "age_check observed evaluated maximum tolerance label = Inr c"
      "fk_maximum_age c = maximum" "0 < maximum"
      "is_fresh c \<longleftrightarrow> timely evaluated tolerance observed maximum"
    show ?thesis
    proof (cases "is_fresh c")
      case True
      then have "checks_for entries (dict_set checks label c)"
        using Cons.prems c by (intro checks_for_add [OF Cons.prems(1)]) (auto simp: d)
      then show ?thesis
        using Cons.IH [of "dict_set checks label c"] Cons.prems True c by (simp add: d in_window_def)
    next
      case False
      have "strip (label @ '' age exceeds'') \<noteq> []"
        by (rule strip_append_nonblank) code_simp
      then show ?thesis using False c by (auto simp: d reject_ok assms(1) in_window_def Let_def)
    qed
  qed
qed


text \<open>All the snapshots of one evaluation inside their windows.\<close>

definition inputs_timely ::
    "weather_snapshot \<Rightarrow> market_event \<Rightarrow> order_book \<Rightarrow> balance_snapshot option \<Rightarrow> datetime \<Rightarrow>
     freshness_policy \<Rightarrow> bool" where
  "inputs_timely weather event book balance evaluated p \<longleftrightarrow>
     (let ok = timely evaluated (fp_future_tolerance p)
      in ok (fc_issued_at (ws_forecast weather)) (fp_forecast_age p)
         \<and> ok (me_retrieved_at event) (fp_event_age p)
         \<and> ok (bk_observed_at book) (fp_order_book_age p)
         \<and> (case balance of None \<Rightarrow> True | Some s \<Rightarrow> ok (bs_observed_at s) (fp_balance_age p)))"

lemma check_freshness_ok:
  fixes p :: freshness_policy
  assumes "dt_aware evaluated"
  shows "\<exists>checks rejection. check_freshness weather event book balance evaluated p = Inr (checks, rejection)
    \<and> (rejection = None \<longrightarrow> inputs_timely weather event book balance evaluated p
        \<and> list_all (\<lambda>(label, c). is_fresh c
            \<and> expected_maximum_age p label = Some (fk_maximum_age c)) checks)
    \<and> (wf_freshness_policy p \<and> inputs_timely weather event book balance evaluated p \<longrightarrow> rejection = None)
    \<and> (\<forall>r. rejection = Some r \<longrightarrow> qe_quote r = None)"
proof -
  let ?ds = "freshness_definitions weather event book balance p"
  have labels: "strip ''forecast'' \<noteq> []" "strip ''event'' \<noteq> []" "strip ''order_book'' \<noteq> []"
    "strip ''balance'' \<noteq> []" by code_simp+
  have names: "\<forall>(label, _) \<in> set ?ds. strip label \<noteq> []"
    using labels by (simp add: freshness_definitions_def split: option.split)
  have none: "checks_for ?ds []" by (simp add: checks_for_def)
  obtain checks rejection where r: "check_freshness weather event book balance evaluated p = Inr (checks, rejection)"
    "rejection = None \<longleftrightarrow> list_all (in_window evaluated (fp_future_tolerance p)) ?ds
      \<and> (\<forall>(_, _, m, _) \<in> set ?ds. 0 < m)"
    "rejection = None \<longrightarrow> checks_for ?ds checks" "\<forall>r. rejection = Some r \<longrightarrow> qe_quote r = None"
    using freshness_loop_ok [OF assms none subset_refl names, of "fp_future_tolerance p"]
    unfolding check_freshness_def by blast
  have "list_all (in_window evaluated (fp_future_tolerance p)) ?ds \<longleftrightarrow>
      inputs_timely weather event book balance evaluated p"
    by (auto simp: freshness_definitions_def in_window_def inputs_timely_def Let_def split: option.splits)
  moreover have "wf_freshness_policy p \<Longrightarrow> \<forall>(_, _, m, _) \<in> set ?ds. 0 < m"
    by (auto simp: freshness_definitions_def wf_freshness_policy_def split: option.splits)
  moreover have "checks_for ?ds checks \<Longrightarrow> list_all (\<lambda>(label, c). is_fresh c
      \<and> expected_maximum_age p label = Some (fk_maximum_age c)) checks"
    by (fastforce simp: checks_for_def list_all_iff freshness_definitions_def expected_maximum_age_def
        split: option.splits)
  ultimately show ?thesis using r by blast
qed

section \<open>Accepted evaluations\<close>

text \<open>The guarantees of the validated quote's constructor.\<close>

definition sound_quote :: "validated_quote \<Rightarrow> bool" where
  "sound_quote v \<longleftrightarrow>
     (let q = vq_quote v; p = vq_cost_policy v in
      0 < vq_model_probability v \<and> vq_model_probability v < 1
      \<and> 0 < vq_executable_budget v \<and> vq_executable_budget v = xq_total_cost q
      \<and> xq_total_cost q \<le> vq_book_budget_limit v
      \<and> xq_total_cost q \<le> vq_total_all_in_cost v
      \<and> vq_total_all_in_cost v \<le> vq_requested_budget v
      \<and> dec_div (vq_total_all_in_cost v) (xq_shares q) = Inr (vq_all_in_average_price v)
      \<and> vq_all_in_average_price v < cp_maximum_all_in_price p
      \<and> vq_expected_profit v = dec_sub (dec_mul (vq_model_probability v) (xq_shares q)) (vq_total_all_in_cost v)
      \<and> 0 < vq_expected_profit v
      \<and> vq_probability_edge v = dec_sub (vq_model_probability v) (vq_all_in_average_price v)
      \<and> 0 < vq_probability_edge v
      \<and> cp_minimum_expected_return p \<le> vq_expected_return v
      \<and> dec_sub (xq_average_price q) (xq_best_ask q) \<le> cp_maximum_average_slippage p
      \<and> dec_sub (xq_worst_price q) (xq_best_ask q) \<le> cp_maximum_worst_slippage p
      \<and> (cp_depth_policy p = REJECT \<longrightarrow> xq_total_cost q = vq_book_budget_limit v)
      \<and> (vq_depth_reduced v \<longleftrightarrow> xq_total_cost q < vq_book_budget_limit v)
      \<and> list_all (\<lambda>(label, c). is_fresh c) (vq_freshness v))"

lemma validated_quote_init_sound:
  assumes "validated_quote_init v = Inr w"
  shows "sound_quote w \<and> w = v\<lparr>vq_evaluated_at := to_utc (vq_evaluated_at v),
    vq_event_id := strip (vq_event_id v)\<rparr>"
proof -
  have c: "check_budgets v = Inr ()" "check_costs v = Inr ()" "check_edge v = Inr ()"
    "check_quote_freshness v = Inr ()"
    "w = v\<lparr>vq_evaluated_at := to_utc (vq_evaluated_at v), vq_event_id := strip (vq_event_id v)\<rparr>"
    using assms by (auto simp: validated_quote_init_def Let_def result_simps dest!: quote_utc_InrD)
  have "sound_quote v"
    using c(1-4)
    by (auto simp: sound_quote_def check_budgets_def check_costs_def check_edge_def
        check_quote_freshness_def Let_def result_simps)
  then show ?thesis by (simp add: c(5) sound_quote_def)
qed


lemma accept_InrD:
  "quote_evaluation_init \<lparr>qe_evaluated_at = d, qe_quote = Some v, qe_rejection_reason = None,
     qe_detail = None, qe_freshness = c\<rparr> = Inr e \<Longrightarrow> qe_quote e = Some v"
  by (auto simp: quote_evaluation_init_def Let_def result_simps)

lemma judge_quote_accepts:
  assumes "judge_quote probability budget limit event_id evaluated fp cp checks q = Inr e"
    and "qe_quote e = Some v"
  shows "sound_quote v \<and> vq_quote v = q \<and> vq_model_probability v = probability
    \<and> vq_requested_budget v = budget \<and> vq_book_budget_limit v = limit
    \<and> vq_freshness_policy v = fp \<and> vq_cost_policy v = cp \<and> vq_event_id v = strip event_id"
proof -
  have no: "reject d r m c \<noteq> Inr e" for d r m c
    using assms(2) reject_InrD [of d r m c e] by auto
  obtain raw where raw: "validated_quote_init raw = Inr v" "vq_quote raw = q"
    "vq_model_probability raw = probability" "vq_requested_budget raw = budget"
    "vq_book_budget_limit raw = limit" "vq_freshness_policy raw = fp" "vq_cost_policy raw = cp"
    "vq_event_id raw = event_id"
    using assms
    by (auto simp: judge_quote_def Let_def rbind_eq_Inr no split: if_splits dest!: accept_InrD)
  note sound = validated_quote_init_sound [OF raw(1)]
  have "vq_quote v = q" "vq_model_probability v = probability" "vq_requested_budget v = budget"
    "vq_book_budget_limit v = limit" "vq_freshness_policy v = fp" "vq_cost_policy v = cp"
    "vq_event_id v = strip event_id"
    using sound by (simp_all add: raw(2-))
  with sound show ?thesis by blast
qed

lemma price_buy_accepts:
  assumes "price_buy probability budget event book evaluated fp cp checks = Inr e"
    and "qe_quote e = Some v"
  shows "sound_quote v \<and> vq_model_probability v = probability \<and> vq_requested_budget v = budget
    \<and> vq_freshness_policy v = fp \<and> vq_cost_policy v = cp \<and> vq_event_id v = strip (me_event_id event)
    \<and> (\<exists>x \<le> vq_book_budget_limit v. quote_buy_budget book (PyDecimal x) = Inr (vq_quote v))"
proof -
  have no: "reject d r m c \<noteq> Inr e" for d r m c
    using assms(2) reject_InrD [of d r m c e] by auto
  obtain limit x q where "x \<le> limit" "quote_buy_budget book (PyDecimal x) = Inr q"
    "judge_quote probability budget limit (me_event_id event) evaluated fp cp checks q = Inr e"
    using assms(1)
    by (auto simp: price_buy_def Let_def rbind_eq_Inr no intro: less_imp_le
        split: if_splits sum.splits exc.splits)
  then show ?thesis using judge_quote_accepts [OF _ assms(2)] by blast
qed

lemma evaluate_accepted:
  assumes "evaluate_executable_buy raw_probability raw_budget weather event book
      evaluated_at fp cp balance = Inr e"
    and "qe_quote e = Some v"
  shows "sound_quote v
    \<and> parse_inputs raw_probability raw_budget = Inr (vq_model_probability v, vq_requested_budget v)
    \<and> vq_freshness_policy v = fp \<and> vq_cost_policy v = cp
    \<and> (\<forall>s. balance = Some s \<longrightarrow> vq_requested_budget v \<le> bs_available_cash s)
    \<and> inputs_timely weather event book balance evaluated_at fp
    \<and> dt_micros (ws_assembled_at weather) \<le> dt_micros evaluated_at + fp_future_tolerance fp
    \<and> (\<exists>x \<le> vq_book_budget_limit v. quote_buy_budget book (PyDecimal x) = Inr (vq_quote v))"
proof -
  have no: "reject d r m c \<noteq> Inr e" for d r m c
    using assms(2) reject_InrD [of d r m c e] by auto
  have aware: "dt_aware evaluated_at"
    using assms(1) by (auto simp: evaluate_executable_buy_def rbind_eq_Inr dest!: quote_utc_InrD)
  obtain checks rejection where c:
    "check_freshness weather event book balance (to_utc evaluated_at) fp = Inr (checks, rejection)"
    "rejection = None \<longrightarrow> inputs_timely weather event book balance (to_utc evaluated_at) fp"
    "\<forall>r. rejection = Some r \<longrightarrow> qe_quote r = None"
    using check_freshness_ok [of "to_utc evaluated_at" weather event book balance fp] by auto
  obtain probability budget where steps: "parse_inputs raw_probability raw_budget = Inr (probability, budget)"
    "dt_micros (ws_assembled_at weather) \<le> dt_micros evaluated_at + fp_future_tolerance fp"
    "rejection = None" "\<forall>s. balance = Some s \<longrightarrow> budget \<le> bs_available_cash s"
    "price_buy probability budget event book (to_utc evaluated_at) fp cp checks = Inr e"
    using assms(1) aware c(1,3) assms(2)
    by (auto simp: evaluate_executable_buy_def no
        split: if_splits option.splits sum.splits exc.splits)
  have "inputs_timely weather event book balance evaluated_at fp"
    using c(2) steps(3) by (simp add: inputs_timely_def timely_def split: option.splits)
  then show ?thesis using price_buy_accepts [OF steps(5) assms(2)] steps(1,2,4) by auto
qed

text \<open>C15. An accepted evaluation is a sound trade: the requested budget is the one asked for and is
  covered by the balance, the all-in cost stays within it, the book cost within the book limit
  (and equal to it when reduced depth is not allowed), the price, slippage and return limits of
  the policy hold, the expected profit and the edge are positive, every snapshot was inside its
  freshness window, and the quote is the book's own.\<close>

theorem evaluation_accepts_sound:
  assumes "evaluate_executable_buy raw_probability raw_budget weather event book
      evaluated_at fp cp balance = Inr e"
    and "qe_quote e = Some v"
  shows "sound_quote v
    \<and> parse_inputs raw_probability raw_budget = Inr (vq_model_probability v, vq_requested_budget v)
    \<and> vq_freshness_policy v = fp \<and> vq_cost_policy v = cp
    \<and> (\<forall>s. balance = Some s \<longrightarrow> vq_requested_budget v \<le> bs_available_cash s)
    \<and> inputs_timely weather event book balance evaluated_at fp
    \<and> dt_micros (ws_assembled_at weather) \<le> dt_micros evaluated_at + fp_future_tolerance fp
    \<and> (\<exists>x \<le> vq_book_budget_limit v. quote_buy_budget book (PyDecimal x) = Inr (vq_quote v))"
  using evaluate_accepted [OF assms] .

text \<open>C19. Revalidation before execution accepts only the trade that was validated: the refreshed
  book is for the same token, the event, probability, budget and both policies are unchanged, and
  the quote is sound on the refreshed book.\<close>

theorem revalidation_same_trade:
  assumes "revalidate_executable_buy previous raw_probability raw_budget weather event
      book evaluated_at fp cp balance = Inr e"
    and "qe_quote e = Some v"
  shows "bk_token_id book = xq_token_id (vq_quote previous) \<and> me_event_id event = vq_event_id previous
    \<and> vq_model_probability v = vq_model_probability previous
    \<and> vq_requested_budget v = vq_requested_budget previous
    \<and> vq_freshness_policy v = vq_freshness_policy previous \<and> vq_cost_policy v = vq_cost_policy previous
    \<and> sound_quote v
    \<and> (\<exists>x \<le> vq_book_budget_limit v. quote_buy_budget book (PyDecimal x) = Inr (vq_quote v))"
proof -
  have no: "reject d r m c \<noteq> Inr e" for d r m c
    using assms(2) reject_InrD [of d r m c e] by auto
  show ?thesis
  proof (cases "parse_inputs raw_probability raw_budget")
    case (Inl x)
    then obtain m where "x = QuoteValidationError m" by (rule parse_inputs_InlE)
    then show ?thesis
      using assms(1) Inl no by (auto simp: revalidate_executable_buy_def rbind_eq_Inr)
  next
    case (Inr pb)
    obtain probability budget where r: "pb = (probability, budget)" by (cases pb)
    have m: "revalidation_mismatch previous probability budget event book fp cp = None"
      and e: "evaluate_executable_buy raw_probability raw_budget weather event book
        evaluated_at fp cp balance = Inr e"
      using assms(1) Inr no
      by (auto simp: r revalidate_executable_buy_def rbind_eq_Inr split: option.splits)
    show ?thesis
      using r Inr m evaluate_accepted [OF e assms(2)]
      by (auto simp: revalidation_mismatch_def split: if_splits)
  qed
qed

section \<open>Evaluation is total\<close>

lemma is_ok_rbind: "is_ok (rbind m f) \<longleftrightarrow> (\<exists>x. m = Inr x \<and> is_ok (f x))"
  by (cases m) auto

lemma is_ok_if: "is_ok (if c then a else b) \<longleftrightarrow> (if c then is_ok a else is_ok b)"
  by simp

lemma next_minus_fixed:
  assumes "0 < x"
  shows "ctx (next_minus x) = next_minus x"
proof -
  define k where "k = adjusted x - 27"
  define n where "n = \<lfloor>x / pow10 k\<rfloor>"
  have b: "10 ^ 27 \<le> x / pow10 k" "x / pow10 k < 10 ^ 28"
    using scaled_bounds [OF assms] by (simp_all add: k_def)
  have n: "10 ^ 27 \<le> n" using b(1) by (simp add: n_def le_floor_iff)
  have "of_int n \<le> x / pow10 k" by (simp add: n_def)
  then have "(of_int n :: rat) \<le> of_int (10 ^ 28)" using b(2) by simp
  then have n2: "n \<le> 10 ^ 28" by (simp only: of_int_le_iff)
  have eq: "next_minus x = (if of_int n \<noteq> x / pow10 k then of_int n * pow10 k
      else if n = 10 ^ 27 then x - pow10 k / 10 else of_int (n - 1) * pow10 k)"
    using assms by (simp add: next_minus_def Let_def k_def n_def)
  have fit: "ctx (of_int m * pow10 j) = of_int m * pow10 j" if "\<bar>m\<bar> \<le> 10 ^ 28" for m j
    using that by (intro ctx_exact) (auto simp: fits28_def)
  consider "of_int n \<noteq> x / pow10 k" | "of_int n = x / pow10 k" "n = 10 ^ 27"
    | "of_int n = x / pow10 k" "n \<noteq> 10 ^ 27" by blast
  then show ?thesis
  proof cases
    case 1
    then show ?thesis using n n2 by (simp add: eq fit)
  next
    case 2
    have "x = 10 ^ 27 * pow10 k" using 2 pow10_pos [of k] by (simp add: field_simps)
    moreover have "pow10 k = 10 * pow10 (k - 1)"
      using pow10_add [of 1 "k - 1"] by (simp add: pow10_def)
    ultimately have "x - pow10 k / 10 = of_int (10 ^ 28 - 1) * pow10 (k - 1)" by simp
    then show ?thesis using 2 fit [of "10 ^ 28 - 1" "k - 1"] by (simp only: eq) simp
  next
    case 3
    then show ?thesis using n n2 fit [of "n - 1" k] by (simp add: eq)
  qed
qed

lemma dec_add_ge:
  assumes "ctx a = a" and "0 \<le> b"
  shows "a \<le> dec_add a b"
  unfolding dec_add_def using assms by (intro ctx_round.r_ge_fixed) auto

lemma rejections_ok [simp]:
  assumes "dt_aware d"
  shows "is_ok (reject d r ''average slippage exceeds'' c)"
    "is_ok (reject d r ''worst slippage exceeds'' c)"
    "is_ok (reject d r ''calculated all-in cost exceeds the approved budget'' c)"
    "is_ok (reject d r ''all-in average price reaches or exceeds'' c)"
    "is_ok (reject d r ''model probability does not exceed executable price'' c)"
    "is_ok (reject d r ''fees, transaction cost, or safety margin erase the executable edge'' c)"
    "is_ok (reject d r ''net expected return is below'' c)"
    "is_ok (reject d r ''approved budget does not cover the fixed transaction-cost reserve'' c)"
    "is_ok (reject d r ''book budget exceeds displayed ask notional'' c)"
    "is_ok (reject d r ''model probability must be between zero and one'' c)"
    "is_ok (reject d r ''requested budget must be positive'' c)"
    "is_ok (reject d r ''weather snapshot was assembled after quote evaluation'' c)"
    "is_ok (reject d r ''requested budget exceeds available cash'' c)"
    "is_ok (reject d r ''insufficient ask depth for cash budget'' c)"
    "is_ok (reject d r ''cash budget buys shares, below minimum'' c)"
  unfolding is_ok_iff by (rule exI, rule reject_ok [OF assms], code_simp)+

text \<open>What the book has to give for the constructor of the validated quote not to object.\<close>

definition fair_quote :: "executable_quote \<Rightarrow> decimal \<Rightarrow> decimal \<Rightarrow> cost_policy \<Rightarrow> bool" where
  "fair_quote q limit budget cp \<longleftrightarrow>
     ctx (xq_total_cost q) = xq_total_cost q \<and> 0 < xq_total_cost q \<and> xq_total_cost q \<le> limit
     \<and> limit \<le> budget \<and> 0 < xq_shares q \<and> xq_best_ask q \<le> xq_average_price q
     \<and> xq_best_ask q \<le> xq_worst_price q
     \<and> (cp_depth_policy cp = REJECT \<longrightarrow> xq_total_cost q = limit)"

lemma check_quote_freshness_ok:
  assumes "list_all (\<lambda>(label, c). is_fresh c
      \<and> expected_maximum_age (vq_freshness_policy v) label = Some (fk_maximum_age c)) (vq_freshness v)"
  shows "check_quote_freshness v = Inr ()"
proof -
  have "list_all (\<lambda>(label, c). is_fresh c) cs \<and> rfold (check_freshness_entry p) () cs = Inr ()"
    if "list_all (\<lambda>(label, c). is_fresh c \<and> expected_maximum_age p label = Some (fk_maximum_age c)) cs"
    for p cs
    using that by (induction cs) (auto simp: check_freshness_entry_def)
  from this [OF assms] show ?thesis by (simp add: check_quote_freshness_def)
qed

lemma judge_quote_total:
  assumes "dt_aware evaluated" and "wf_cost_policy cp" and "0 < probability" and "probability < 1"
    and "fair_quote q limit budget cp" and "strip event_id \<noteq> []"
    and "list_all (\<lambda>(label, c). is_fresh c
      \<and> expected_maximum_age fp label = Some (fk_maximum_age c)) checks"
  shows "is_ok (judge_quote probability budget limit event_id evaluated fp cp checks q)"
proof -
  define cost where "cost = xq_total_cost q"
  define fee where "fee = dec_mul cost (cp_platform_fee_rate cp)"
  define margin where "margin = dec_mul cost (cp_safety_margin_rate cp)"
  define all_in where "all_in = dec_add (dec_add (dec_add cost fee) (cp_transaction_cost cp)) margin"
  have q: "ctx cost = cost" "0 < cost" "cost \<le> limit" "limit \<le> budget" "0 < xq_shares q"
    "xq_best_ask q \<le> xq_average_price q" "xq_best_ask q \<le> xq_worst_price q"
    using assms(5) by (simp_all add: fair_quote_def cost_def)
  have full: "(xq_total_cost q < limit \<and> cp_depth_policy cp = REJECT) = False"
    using assms(5) by (auto simp: fair_quote_def)
  have cp: "0 \<le> cp_platform_fee_rate cp" "0 \<le> cp_transaction_cost cp" "0 \<le> cp_safety_margin_rate cp"
    using assms(2) by (simp_all add: wf_cost_policy_def)
  have fm: "0 \<le> fee" "0 \<le> margin"
    unfolding fee_def margin_def dec_mul_def using q(2) cp by (auto intro!: ctx_round.r_nonneg)
  have "cost \<le> dec_add cost fee" using q(1) fm(1) by (rule dec_add_ge)
  also have "\<dots> \<le> dec_add (dec_add cost fee) (cp_transaction_cost cp)"
    using cp(2) by (intro dec_add_ge) (simp_all add: dec_add_def ctx_idem)
  also have "\<dots> \<le> all_in"
    unfolding all_in_def using fm(2) by (intro dec_add_ge) (simp_all add: dec_add_def ctx_idem)
  finally have all_in: "cost \<le> all_in" .
  have slip: "0 \<le> dec_sub (xq_average_price q) (xq_best_ask q)" "0 \<le> dec_sub (xq_worst_price q) (xq_best_ask q)"
    using q(6,7) by (auto simp: dec_sub_def intro!: ctx_round.r_nonneg)
  have price: "0 \<le> ctx (all_in / xq_shares q)" and payout: "0 \<le> dec_mul probability (xq_shares q)"
    using all_in q(2,5) assms(3) by (auto simp: dec_mul_def intro!: ctx_round.r_nonneg)
  show ?thesis
    unfolding judge_quote_def Let_def cost_def [symmetric] fee_def [symmetric] margin_def [symmetric]
      all_in_def [symmetric]
    using q cp fm all_in slip price payout assms(1,3,4,6,7)
    by (simp add: is_ok_if is_ok_rbind dec_div_def validated_quote_init_def check_budgets_def
        check_costs_def check_edge_def check_quote_freshness_ok require_not_negative_def
        quote_evaluation_init_def Let_def cost_def fee_def margin_def full)
qed


lemma available_notional_exact:
  assumes "wf_book b" and "grid_book b"
  shows "available_notional b = notional (bk_asks b)"
proof -
  have "foldl (\<lambda>acc l. dec_add acc (dec_mul (lv_price l) (lv_size l))) c ls = c + notional ls"
    if "list_all wf_level ls" "list_all grid_level ls" "grain (- 12) c" "0 \<le> c" "c + depth ls \<le> 10 ^ 16"
    for c ls
    using that
  proof (induction ls arbitrary: c)
    case Nil
    then show ?case by simp
  next
    case (Cons l ls)
    define m where "m = lv_size l * lv_price l"
    have l: "wf_level l" "list_all wf_level ls" "grid_level l" "0 \<le> lv_size l"
      using Cons.prems wf_level_pos(1) [of l] by simp_all
    have m: "0 \<le> m" "m \<le> lv_size l" "grain (- 12) m"
      using level_product [OF l(1,4)] l(3) by (auto simp: m_def grid_level_def grain_grid_mult)
    have d: "0 \<le> depth ls" using l(2) by (rule depth_nonneg)
    have "ctx m = m" "ctx (c + m) = c + m"
      using m d Cons.prems(3-5) by (auto intro!: ctx_grain12 grain_add)
    then have "dec_add c (dec_mul (lv_price l) (lv_size l)) = c + m"
      by (simp add: dec_add_def dec_mul_def m_def mult.commute)
    then show ?case
      using Cons.IH [of "c + m"] Cons.prems m d by (simp add: m_def grain_add)
  qed
  from this [of "bk_asks b" 0] show ?thesis
    using wf_book_asks [OF assms(1)] assms(2) by (simp add: available_notional_def grid_book_def)
qed

lemma notional_less_depth:
  "list_all wf_level ls \<Longrightarrow> ls \<noteq> [] \<Longrightarrow> 0 < notional ls \<and> notional ls < depth ls"
proof (induction ls)
  case (Cons l ls)
  have "0 < lv_size l * lv_price l" "lv_size l * lv_price l < lv_size l"
    using Cons.prems by (auto simp: wf_level_def)
  then show ?case using Cons by (cases ls) auto
qed simp

lemma book_budget_limit_bounds:
  assumes "wf_cost_policy cp" and "0 < dec_sub budget (cp_transaction_cost cp)"
  shows "\<exists>limit. book_budget_limit (dec_sub budget (cp_transaction_cost cp)) cp = Inr limit
    \<and> 0 < limit \<and> limit \<le> budget \<and> ctx limit = limit"
proof -
  define after where "after = dec_sub budget (cp_transaction_cost cp)"
  define m where "m = dec_add (dec_add 1 (cp_platform_fee_rate cp)) (cp_safety_margin_rate cp)"
  have cp: "0 \<le> cp_platform_fee_rate cp" "0 \<le> cp_transaction_cost cp" "0 \<le> cp_safety_margin_rate cp"
    using assms(1) by (simp_all add: wf_cost_policy_def)
  have one: "ctx 1 = 1" by (rule ctx_grid) (simp_all add: on_grid_def)
  have "1 \<le> dec_add 1 (cp_platform_fee_rate cp)" using one cp(1) by (rule dec_add_ge)
  also have "\<dots> \<le> m" unfolding m_def using cp(3) by (intro dec_add_ge) (simp_all add: dec_add_def ctx_idem)
  finally have m: "1 \<le> m" .
  have after: "0 < after" "ctx after = after" "after \<le> ctx budget"
    using assms(2) cp(2) by (auto simp: after_def dec_sub_def ctx_idem intro!: ctx_mono)
  have x: "0 < after / m" "after / m \<le> after" using after m by (simp_all add: divide_le_eq mult_le_cancel_left1)
  then have cx: "0 < ctx (after / m)" "ctx (after / m) \<le> after"
    using after by (auto intro: ctx_pos ctx_round.r_le_fixed)
  define limit where "limit = next_minus (ctx (after / m))"
  have limit: "0 < limit" "limit < ctx (after / m)" "ctx limit = limit"
    unfolding limit_def using next_minus_bounds [OF cx(1)] next_minus_fixed [OF cx(1)] by auto
  have "limit \<le> budget"
  proof (rule ccontr)
    assume "\<not> limit \<le> budget"
    then have "ctx budget \<le> ctx limit" by (intro ctx_mono) simp
    then show False using limit cx after(3) by linarith
  qed
  moreover have "book_budget_limit after cp = Inr limit"
    using m by (simp add: book_budget_limit_def m_def [symmetric] dec_div_def limit_def)
  ultimately show ?thesis using limit unfolding after_def by blast
qed


lemma notional_grain: "list_all grid_level ls \<Longrightarrow> grain (- 12) (notional ls)"
  by (induction ls) (auto simp: grid_level_def intro: grain_add grain_grid_mult)

text \<open>A budget within the book's worth is filled, or is too small for the market.\<close>

lemma quote_within_book:
  assumes "wf_book b" and "grid_book b" and "ctx x = x" and "0 < x" and "x \<le> notional (bk_asks b)"
  shows "quote_buy_budget b (PyDecimal x) = Inl (OrderBookError ''cash budget buys shares, below minimum'')
    \<or> (\<exists>q. quote_buy_budget b (PyDecimal x) = Inr q \<and> xq_total_cost q = x \<and> 0 < xq_shares q
        \<and> xq_best_ask q \<le> xq_average_price q \<and> xq_best_ask q \<le> xq_worst_price q)"
proof -
  have "x < 10 ^ 16"
    using assms(2,5) notional_less_depth [of "bk_asks b"] wf_book_asks [OF assms(1)]
    by (auto simp: grid_book_def)
  then obtain s' l S where "spent (bk_asks b) x 0 s' l S" "quote_buy_budget b (PyDecimal x) =
      (if s' < bk_minimum_order_size b
       then Inl (OrderBookError ''cash budget buys shares, below minimum'')
       else Inr (make_quote b s' x (ctx (x / s')) (lv_price l)))"
    using quote_buy_budget_grid [OF assms(1-4)] assms(5) by auto
  moreover have "0 < bk_minimum_order_size b" using assms(1) by (simp add: wf_book_def)
  ultimately show ?thesis
    using best_ask_least [OF assms(1), of l] by (auto simp: make_quote_def spent_def)
qed

lemma price_buy_total:
  assumes "wf_book book" and "grid_book book" and "wf_cost_policy cp" and "dt_aware evaluated"
    and "0 < probability" and "probability < 1" and "strip (me_event_id event) \<noteq> []"
    and "list_all (\<lambda>(label, c). is_fresh c
      \<and> expected_maximum_age fp label = Some (fk_maximum_age c)) checks"
  shows "is_ok (price_buy probability budget event book evaluated fp cp checks)"
proof (cases "dec_sub budget (cp_transaction_cost cp) \<le> 0")
  case True
  then show ?thesis using assms(4) by (simp add: price_buy_def)
next
  case False
  then obtain limit where limit: "book_budget_limit (dec_sub budget (cp_transaction_cost cp)) cp = Inr limit"
    "0 < limit" "limit \<le> budget" "ctx limit = limit"
    using book_budget_limit_bounds [OF assms(3)] by (auto simp: not_le)
  let ?n = "notional (bk_asks book)"
  define x where "x = (if ?n < limit then ?n else limit)"
  have n: "0 < ?n" "?n < 10 ^ 16" "available_notional book = ?n" "ctx ?n = ?n"
    using notional_less_depth [of "bk_asks book"] wf_book_asks [OF assms(1)] assms(2)
      available_notional_exact [OF assms(1,2)]
    by (auto simp: grid_book_def intro!: ctx_grain12 notional_grain)
  have x: "ctx x = x" "0 < x" "x \<le> ?n" "x \<le> limit" using n limit by (auto simp: x_def)
  show ?thesis
  proof (cases "?n < limit \<and> cp_depth_policy cp = REJECT")
    case True
    then show ?thesis using False limit(1) n(3) assms(4) by (simp add: price_buy_def Let_def)
  next
    case deep: False
    have fair: "fair_quote q limit budget cp" if "xq_total_cost q = x" "0 < xq_shares q"
      "xq_best_ask q \<le> xq_average_price q" "xq_best_ask q \<le> xq_worst_price q" for q
      using that x limit(3) deep by (auto simp: fair_quote_def x_def split: if_splits)
    have step: "price_buy probability budget event book evaluated fp cp checks =
      (case quote_buy_budget book (PyDecimal x) of
         Inl (OrderBookError message) \<Rightarrow>
           reject evaluated
             (if contains ''below minimum'' message then BELOW_MINIMUM_ORDER
              else INSUFFICIENT_DEPTH) message checks
       | Inl e \<Rightarrow> Inl e
       | Inr q \<Rightarrow> judge_quote probability budget limit (me_event_id event) evaluated fp cp checks q)"
      using False limit(1) n(3) deep by (simp only: price_buy_def Let_def x_def if_False rbind_simps)
    show ?thesis
      using quote_within_book [OF assms(1,2) x(1-3)] assms(4)
        judge_quote_total [OF assms(4,3,5,6) fair assms(7,8)]
      unfolding step by auto
  qed
qed

text \<open>
  Decimals have no exponent limits here and instants no range, so a claim that nothing is raised is
  made for ordinary inputs: decimals that are multiples of $10^{-100}$ of at most $10^{100}$, whose
  sums, products and quotients stay far inside the exponents of the decimal context, and instants
  within 300 years of 1970.
\<close>

definition ordinary_decimal :: "decimal \<Rightarrow> bool" where
  "ordinary_decimal x \<longleftrightarrow> \<bar>x\<bar> \<le> 10 ^ 100 \<and> of_int \<lfloor>x * 10 ^ 100\<rfloor> = x * 10 ^ 100"

definition ordinary_time :: "datetime \<Rightarrow> bool" where
  "ordinary_time t \<longleftrightarrow> \<bar>dt_micros t\<bar> \<le> 9 * 10 ^ 15"

definition ordinary_inputs ::
    "py_value \<Rightarrow> py_value \<Rightarrow> weather_snapshot \<Rightarrow> market_event \<Rightarrow> order_book \<Rightarrow> datetime \<Rightarrow>
     freshness_policy \<Rightarrow> cost_policy \<Rightarrow> balance_snapshot option \<Rightarrow> bool" where
  "ordinary_inputs raw_probability raw_budget weather event book evaluated_at fp cp balance \<longleftrightarrow>
     (case parse_inputs raw_probability raw_budget of
        Inl _ \<Rightarrow> True | Inr (p, b) \<Rightarrow> ordinary_decimal p \<and> ordinary_decimal b)
     \<and> list_all ordinary_decimal
         [cp_platform_fee_rate cp, cp_transaction_cost cp, cp_safety_margin_rate cp,
          cp_maximum_average_slippage cp, cp_maximum_worst_slippage cp, cp_maximum_all_in_price cp,
          cp_minimum_expected_return cp, bk_minimum_order_size book, bk_tick_size book]
     \<and> list_all (\<lambda>l. ordinary_decimal (lv_price l) \<and> ordinary_decimal (lv_size l)) (bk_bids book @ bk_asks book)
     \<and> list_all ordinary_time
         [evaluated_at, me_retrieved_at event, bk_observed_at book, fc_issued_at (ws_forecast weather),
          ws_assembled_at weather]
     \<and> dt_aware (ws_assembled_at weather) \<and> \<bar>fp_future_tolerance fp\<bar> \<le> 9 * 10 ^ 15
     \<and> (case balance of None \<Rightarrow> True | Some s \<Rightarrow>
          ordinary_decimal (bs_available_cash s) \<and> ordinary_time (bs_observed_at s))"

text \<open>C18. Evaluation of ordinary inputs never raises: for a well-formed book of six-decimal asks,
  well-formed policies and event, and a probability and budget that are ill-typed or, once read,
  ordinary numbers, the answer is an accepted quote or a rejection; the checks of the validated quote's
  constructor never fail on what the evaluator computes. (Beyond ordinary inputs the code can still
  raise the overflow of a decimal or of a timestamp.)\<close>

theorem evaluation_total:
  assumes "wf_book book" and "grid_book book" and "wf_cost_policy cp" and "wf_market_event event"
    and "dt_aware evaluated_at"
    and "ordinary_inputs raw_probability raw_budget weather event book evaluated_at fp cp balance"
  shows "is_ok (evaluate_executable_buy raw_probability raw_budget weather event book evaluated_at
    fp cp balance)"
proof -
  let ?at = "to_utc evaluated_at"
  obtain checks rejection where c:
    "check_freshness weather event book balance ?at fp = Inr (checks, rejection)"
    "rejection = None \<longrightarrow> list_all (\<lambda>(label, c). is_fresh c
      \<and> expected_maximum_age fp label = Some (fk_maximum_age c)) checks"
    using check_freshness_ok [of ?at weather event book balance fp] by auto
  have id: "strip (me_event_id event) \<noteq> []" using assms(4) by (auto simp: wf_market_event_def)
  show ?thesis
  proof (cases "parse_inputs raw_probability raw_budget")
    case (Inl x)
    then obtain m where "x = QuoteValidationError m" "strip m \<noteq> []" by (rule parse_inputs_InlE)
    then show ?thesis using Inl assms(5) by (simp add: evaluate_executable_buy_def reject_ok)
  next
    case (Inr pb)
    obtain probability budget where pb: "pb = (probability, budget)" by (cases pb)
    have "is_ok (price_buy probability budget event book ?at fp cp checks)"
      if "0 < probability" "probability < 1" "rejection = None"
      using that c(2) by (intro price_buy_total [OF assms(1-3) _ _ _ id]) auto
    then show ?thesis
      using Inr assms(5) c(1)
      by (auto simp: pb evaluate_executable_buy_def is_ok_if is_ok_rbind not_le split: option.split)
  qed
qed

end
