(* ===== verification/Sizing_Props.thy ===== *)
theory Sizing_Props
  imports Sizing Quoting_Props
begin

text \<open>
  What an approved size guarantees. The sizing loop is a client of a quote provider: it is proved
  against the provider's contract, which the evaluator of \<open>Evaluator\<close> satisfies.
\<close>

section \<open>Rounding down and the smallest cap\<close>

lemma floor_money_le:
  assumes "floor_money value cur = Inr m" and "0 < amount m"
  shows "amount m \<le> value"
proof -
  have pos: "0 < value"
    using assms by (cases "value \<le> 0") (auto simp: floor_money_def money_zero_def mk_money_def
        Let_def result_simps quantize6_grid)
  then obtain x where x: "quantize round_down 6 value = Inr x" "money_of (PyDecimal x) cur = Inr m"
    using assms(1) by (auto simp: floor_money_def result_simps)
  have e: "x = of_int (round_down (value * 10 ^ 6)) / 10 ^ 6"
    using x(1) by (auto simp: quantize_def Let_def split: if_splits)
  have g: "on_grid x" unfolding e by (rule on_grid_of_int)
  have "of_int (round_down (value * 10 ^ 6)) \<le> value * 10 ^ 6"
    using pos by (intro round_down_nonneg) simp
  then have "x \<le> value" unfolding e by (simp add: divide_le_eq)
  moreover have "amount m = x"
    using x(2) g by (auto simp: money_of_def mk_money_def Let_def result_simps quantize6_grid split: if_splits)
  ultimately show ?thesis by simp
qed

lemma cash_from_kelly_least:
  assumes "cash_from_kelly capital policy raw = (fractional, uncapped, candidate, binding)"
  shows "fractional = dec_mul raw (sp_kelly_multiplier policy)
    \<and> uncapped = dec_mul (amount (ca_available_cash capital)) fractional
    \<and> candidate = min (amount (ca_available_cash capital)) (min (amount (sp_maximum_cash policy)) uncapped)"
  using assms by (auto simp: cash_from_kelly_def Let_def min_def split: if_splits)

lemma candidate_budget_le:
  assumes "candidate_budget capital candidate binding q = Inr (m, b)" and "0 < amount m"
  shows "amount m \<le> candidate"
proof -
  obtain f where f: "floor_money candidate (currency (ca_cash capital)) = Inr f"
    and le: "amount m \<le> amount f"
    using assms(1) by (auto simp: candidate_budget_def result_simps split: if_splits)
  then show ?thesis using floor_money_le [OF f] assms(2) by linarith
qed

lemma money_zero_grid: "money_zero cur = Inr m \<Longrightarrow> on_grid (amount m) \<and> 0 \<le> amount m"
  by (auto simp: money_zero_def mk_money_def Let_def result_simps quantize6_grid)

lemma floor_money_grid:
  assumes "floor_money value cur = Inr m"
  shows "on_grid (amount m) \<and> 0 \<le> amount m"
proof (cases "value \<le> 0")
  case True
  with assms show ?thesis by (simp add: floor_money_def money_zero_grid)
next
  case False
  then obtain x where x: "quantize round_down 6 value = Inr x" "money_of (PyDecimal x) cur = Inr m"
    using assms by (auto simp: floor_money_def result_simps)
  have e: "x = of_int (round_down (value * 10 ^ 6)) / 10 ^ 6"
    using x(1) by (auto simp: quantize_def Let_def split: if_splits)
  have "on_grid x" unfolding e by (rule on_grid_of_int)
  moreover have "0 \<le> x" unfolding e using False by (simp add: round_down_def)
  ultimately show ?thesis
    using x(2) by (auto simp: money_of_def mk_money_def Let_def result_simps quantize6_grid split: if_splits)
qed

lemma candidate_budget_grid:
  "candidate_budget capital candidate binding q = Inr (m, b) \<Longrightarrow> on_grid (amount m) \<and> 0 \<le> amount m"
  by (auto simp: candidate_budget_def result_simps split: if_splits dest!: floor_money_grid)

lemma grid_step:
  assumes "on_grid a" and "on_grid b" and "a < b"
  shows "a * 10 ^ 6 + 1 \<le> b * 10 ^ 6"
proof -
  obtain m n where e: "a = of_int m / 10 ^ 6" "b = of_int n / 10 ^ 6"
    using assms(1,2) by (auto elim!: on_gridE)
  with assms(3) have "m + 1 \<le> n" by (simp add: divide_less_cancel)
  then have "(of_int (m + 1) :: rat) \<le> of_int n" by (simp only: of_int_le_iff)
  then show ?thesis by (simp add: e)
qed

lemma rejection_for_converges: "fst (rejection_for r b) \<noteq> NON_CONVERGENT"
  by (cases "(r, b)" rule: rejection_for.cases) auto

section \<open>The constructor of decisions\<close>

definition valid_decision :: "sizing_decision \<Rightarrow> bool" where
  "valid_decision d \<longleftrightarrow>
     0 \<le> amount (sd_target_cash d) \<and> 0 \<le> sd_iterations d
     \<and> amount (sd_target_cash d) \<le> amount (ca_available_cash (sd_capital d))
     \<and> amount (sd_target_cash d) \<le> amount (sp_maximum_cash (sd_policy d))
     \<and> currency (sd_target_cash d) = currency (ca_cash (sd_capital d))
     \<and> (if sd_status d = RISK_APPROVED
        then 0 < amount (sd_target_cash d) \<and> sd_quote d \<noteq> None \<and> sd_final_price d \<noteq> None
          \<and> sd_reason d = None \<and> sd_quote_reason d = None
        else amount (sd_target_cash d) = 0 \<and> sd_quote d = None \<and> sd_reason d \<noteq> None)"

lemma sizing_decision_init_valid:
  "sizing_decision_init d = Inr d' \<Longrightarrow> d' = d \<and> valid_decision d"
  by (auto simp: sizing_decision_init_def valid_decision_def check_decision_status_def check_amount_def
      require_not_negative_cash_def is_negative_def is_zero_def result_simps split: if_splits)

lemma decide_InrD:
  assumes "decide u d = Inr d'"
  shows "valid_decision d' \<and> (\<exists>m. d' = d\<lparr>sd_uncapped_cash := m\<rparr>)"
  using assms by (auto simp: decide_def result_simps dest!: sizing_decision_init_valid)

lemma rejected_InrD:
  assumes "rejected capital policy p seed raw f u b i price reason qr detail reduced = Inr d"
  shows "valid_decision d \<and> sd_status d = RISK_REJECTED \<and> sd_iterations d = i
    \<and> sd_capital d = capital \<and> sd_policy d = policy \<and> sd_reason d = Some reason"
  using assms by (auto simp: rejected_def result_simps dest!: decide_InrD)

lemma reject_state_InrD:
  assumes "reject_state capital policy p seed st b i reason qr detail = Inr d"
  shows "valid_decision d \<and> sd_status d = RISK_REJECTED \<and> sd_iterations d = i
    \<and> sd_capital d = capital \<and> sd_policy d = policy \<and> sd_reason d = Some reason"
  using assms unfolding reject_state_def by (rule rejected_InrD)

lemma approved_InrD:
  assumes "approved capital policy p seed st i q = Inr d"
  shows "valid_decision d \<and> sd_status d = RISK_APPROVED \<and> sd_iterations d = i
    \<and> sd_capital d = capital \<and> sd_policy d = policy \<and> sd_target_cash d = ss_budget st
    \<and> sd_quote d = Some q \<and> sd_raw_kelly d = ss_raw_kelly st \<and> sd_final_price d = ss_final_price st"
  using assms by (auto simp: approved_def dest!: decide_InrD)

section \<open>The contract of the quote provider\<close>

text \<open>What the loop needs of the evaluator: an accepted quote is sound, at the budget and
  probability it was asked for.\<close>

locale quote_provider =
  fixes quote_at :: "decimal \<Rightarrow> quote_evaluation result" and probability :: decimal
  assumes accepted_quote:
    "quote_at b = Inr e \<Longrightarrow> qe_quote e = Some v \<Longrightarrow>
      sound_quote v \<and> vq_requested_budget v = b \<and> vq_model_probability v = probability"
begin

text \<open>An approval at the end of a step: the quote at the whole budget, and Kelly at its price.\<close>

definition approval ::
    "risk_capital \<Rightarrow> sizing_policy \<Rightarrow> int \<Rightarrow> money \<Rightarrow> sizing_decision \<Rightarrow> bool" where
  "approval capital policy i budget d \<longleftrightarrow>
     sd_iterations d = i \<and> sd_target_cash d = budget
     \<and> (\<exists>e v raw. quote_at (amount budget) = Inr e \<and> qe_quote e = Some v \<and> sd_quote d = Some v
          \<and> sound_quote v \<and> vq_requested_budget v = amount budget \<and> vq_model_probability v = probability
          \<and> kelly probability (vq_all_in_average_price v) = Inr raw \<and> 0 < raw
          \<and> amount budget \<le>
              dec_mul (amount (ca_available_cash capital)) (dec_mul raw (sp_kelly_multiplier policy)))"

lemma loop_step:
  assumes "size_loop quote_at slippage capital policy probability seed (Suc n) i st = Inr d"
  obtains (stop) reason where "sd_status d = RISK_REJECTED" "sd_reason d = Some reason"
      "reason \<noteq> NON_CONVERGENT" "sd_iterations d = i" "valid_decision d" "sd_capital d = capital"
      "sd_policy d = policy"
    | (again) st' where
      "size_loop quote_at slippage capital policy probability seed n (i + 1) st' = Inr d"
      "amount (ss_budget st') < amount (ss_budget st)" "0 < amount (ss_budget st')"
      "on_grid (amount (ss_budget st'))"
    | (accept) "sd_status d = RISK_APPROVED" "approval capital policy i (ss_budget st) d"
      "valid_decision d" "sd_capital d = capital" "sd_policy d = policy"
proof -
  have rejects: thesis
    if "reject_state capital policy p' s' st' b' i reason qr detail = Inr d" "reason \<noteq> NON_CONVERGENT"
    for p' s' st' b' reason qr detail
    using reject_state_InrD [OF that(1)] that(2) by (intro stop) auto
  obtain e where e: "quote_at (amount (ss_budget st)) = Inr e"
    using assms by (auto simp: rbind_eq_Inr)
  show thesis
  proof (cases "qe_quote e")
    case None
    obtain m where m: "(if qe_rejection_reason e = Some SLIPPAGE_EXCEEDED then rbind slippage
            (\<lambda>x. floor_money x (currency (ca_cash capital))) else money_zero (currency (ca_cash capital)))
          = Inr m"
      and step: "(if qe_rejection_reason e = Some SLIPPAGE_EXCEEDED
            \<and> \<not> is_zero m \<and> amount m < amount (ss_budget st)
          then size_loop quote_at slippage capital policy probability seed n (i + 1)
            (st\<lparr>ss_budget := m, ss_binding := EXECUTABLE_SLIPPAGE\<rparr>)
          else case rejection_for (qe_rejection_reason e) (ss_binding st) of
            (reason, binding) \<Rightarrow>
              reject_state capital policy probability seed st binding i reason
                (qe_rejection_reason e) (qe_detail e)) = Inr d"
      using assms unfolding size_loop.simps(2) e rbind_simps None option.case rbind_eq_Inr by blast
    have g: "on_grid (amount m) \<and> 0 \<le> amount m"
      using m by (auto simp: rbind_eq_Inr split: if_splits dest: floor_money_grid money_zero_grid)
    show thesis
    proof (cases "qe_rejection_reason e = Some SLIPPAGE_EXCEEDED
        \<and> \<not> is_zero m \<and> amount m < amount (ss_budget st)")
      case True
      then show thesis
        using step g by (intro again [of "st\<lparr>ss_budget := m, ss_binding := EXECUTABLE_SLIPPAGE\<rparr>"])
          (auto simp: is_zero_def)
    next
      case False
      obtain r b where r: "rejection_for (qe_rejection_reason e) (ss_binding st) = (r, b)"
        by (cases "rejection_for (qe_rejection_reason e) (ss_binding st)")
      then have "r \<noteq> NON_CONVERGENT"
        using rejection_for_converges [of "qe_rejection_reason e" "ss_binding st"] by simp
      moreover have "reject_state capital policy probability seed st b i r
          (qe_rejection_reason e) (qe_detail e) = Inr d"
        using step False unfolding r by (simp only: if_False prod.case)
      ultimately show thesis by (rule rejects [rotated])
    qed
  next
    case (Some v)
    note sound = accepted_quote [OF e Some]
    show thesis
    proof (cases "kelly probability (vq_all_in_average_price v)")
      case (Inl x)
      then show thesis using assms e Some by (simp add: Let_def)
    next
      case (Inr raw)
      obtain fractional uncapped candidate binding where
        c: "cash_from_kelly capital policy raw = (fractional, uncapped, candidate, binding)"
        by (cases "cash_from_kelly capital policy raw")
      show thesis
      proof (cases "raw \<le> 0")
        case True
        then show thesis using assms e Some Inr
          by (intro stop [of SIZE_NON_POSITIVE_EDGE]) (auto simp: Let_def dest!: rejected_InrD)
      next
        case False
        obtain budget binding' where
          b: "candidate_budget capital candidate binding v = Inr (budget, binding')"
          using assms e Some Inr c False by (auto simp: Let_def rbind_eq_Inr)
        let ?st = "st\<lparr>ss_depth_reduced := ss_depth_reduced st \<or> vq_depth_reduced v,
          ss_final_price := Some (vq_all_in_average_price v), ss_raw_kelly := raw,
          ss_fractional_kelly := fractional, ss_uncapped_cash := uncapped\<rparr>"
        have step: "(if is_zero budget
            then reject_state capital policy probability seed ?st MINIMUM_ORDER i
              SIZE_BELOW_MINIMUM_ORDER None
              (Some ''converged Kelly cash rounds below the six-decimal money quantum'')
            else if amount budget < amount (ss_budget st)
            then size_loop quote_at slippage capital policy probability seed n (i + 1)
              (?st\<lparr>ss_budget := budget, ss_binding := binding'\<rparr>)
            else approved capital policy probability seed ?st i v) = Inr d"
          using assms e Some Inr c False b by (simp add: Let_def)
        consider (zero) "is_zero budget"
          | (smaller) "\<not> is_zero budget" "amount budget < amount (ss_budget st)"
          | (fits) "\<not> is_zero budget" "amount (ss_budget st) \<le> amount budget"
          by linarith
        then show thesis
        proof cases
          case zero
          with step show thesis by (auto intro: rejects)
        next
          case smaller
          then show thesis
            using step candidate_budget_grid [OF b]
            by (intro again [of "?st\<lparr>ss_budget := budget, ss_binding := binding'\<rparr>"])
              (auto simp: is_zero_def)
        next
          case fits
          with step have "approved capital policy probability seed ?st i v = Inr d" by simp
          note a = approved_InrD [OF this]
          have "amount budget \<le> candidate"
            using candidate_budget_le [OF b] a fits(2) by (auto simp: valid_decision_def)
          then have "amount (ss_budget st)
              \<le> dec_mul (amount (ca_available_cash capital)) (dec_mul raw (sp_kelly_multiplier policy))"
            using cash_from_kelly_least [OF c] fits(2) by auto
          then show thesis
            using a e Some Inr sound False by (intro accept) (auto simp: approval_def)
        qed
      qed
    qed
  qed
qed

lemma loop_decides:
  assumes "size_loop quote_at slippage capital policy probability seed n i st = Inr d"
    and "i + int n = sp_maximum_iterations policy + 1" and "1 \<le> i"
  shows "valid_decision d \<and> sd_capital d = capital \<and> sd_policy d = policy
    \<and> sd_iterations d \<le> sp_maximum_iterations policy
    \<and> (sd_status d = RISK_APPROVED \<longrightarrow>
        amount (sd_target_cash d) \<le> amount (ss_budget st)
        \<and> approval capital policy (sd_iterations d) (sd_target_cash d) d)"
  using assms
proof (induction n arbitrary: i st)
  case 0
  then show ?case by (auto dest!: reject_state_InrD)
next
  case (Suc n)
  from Suc.prems(1) show ?case
  proof (cases rule: loop_step)
    case (stop reason)
    then show ?thesis using Suc.prems(2,3) by auto
  next
    case (again st')
    show ?thesis using Suc.IH [OF again(1)] Suc.prems(2,3) again(2) by auto
  next
    case accept
    then show ?thesis using Suc.prems(2,3) by (auto simp: approval_def)
  qed
qed

text \<open>Every repetition lowers a positive budget by at least one micro-unit.\<close>

lemma loop_converges:
  assumes "size_loop quote_at slippage capital policy probability seed n i st = Inr d"
    and "on_grid (amount (ss_budget st))" and "0 < amount (ss_budget st)"
    and "amount (ss_budget st) * 10 ^ 6 \<le> of_nat n"
  shows "sd_reason d \<noteq> Some NON_CONVERGENT"
  using assms
proof (induction n arbitrary: i st)
  case 0
  then show ?case by simp
next
  case (Suc n)
  from Suc.prems(1) show ?case
  proof (cases rule: loop_step)
    case (again st')
    show ?thesis
      by (rule Suc.IH [OF again(1,4,3)])
        (use grid_step [OF again(4) Suc.prems(2) again(2)] Suc.prems(4) in simp)
  qed (auto simp: valid_decision_def)
qed

end

section \<open>The evaluator as the provider\<close>

lemma buy_quotes_accepted:
  assumes "buy_quotes p weather event book evaluated_at fp cp balance b = Inr e" and "qe_quote e = Some v"
  shows "sound_quote v \<and> vq_requested_budget v = b \<and> vq_model_probability v = p"
  using evaluate_accepted [OF assms(1) [unfolded buy_quotes_def] assms(2)]
  by (auto simp: parse_inputs_def quote_decimal_def)

interpretation buy: quote_provider "buy_quotes p weather event book evaluated_at fp cp balance" p
  for p weather event book evaluated_at fp cp balance
  by unfold_locales (rule buy_quotes_accepted)

text \<open>A decision is an early rejection, or that of the loop from the budget at the best ask.\<close>

lemma size_executable_buy_cases:
  assumes "size_executable_buy capital raw_probability weather event book evaluated_at fp cp policy
      balance = Inr d"
  obtains (early) reason where "valid_decision d" "sd_status d = RISK_REJECTED" "sd_iterations d = 0"
      "sd_reason d = Some reason" "reason \<noteq> NON_CONVERGENT" "sd_capital d = capital" "sd_policy d = policy"
    | (sized) p raw budget st where "ratio raw_probability ''model probability'' = Inr p" "0 < p" "p < 1"
      "kelly p (best_ask book) = Inr raw" "ss_budget st = budget"
      "on_grid (amount budget)" "0 < amount budget"
      "amount budget \<le> amount (ca_available_cash capital)"
      "amount budget \<le> dec_mul (amount (ca_available_cash capital)) (dec_mul raw (sp_kelly_multiplier policy))"
      "size_loop (buy_quotes p weather event book evaluated_at fp cp balance)
         (slippage_limited_budget book cp) capital policy p (best_ask book)
         (nat (sp_maximum_iterations policy)) 1 st = Inr d"
proof -
  have rejects: thesis
    if "rejected capital policy p' s' raw' f' u' b' 0 price' reason qr detail red = Inr d"
      "reason \<noteq> NON_CONVERGENT"
    for p' s' raw' f' u' b' price' reason qr detail red
    using rejected_InrD [OF that(1)] that(2) by (intro early) auto
  show thesis
  proof (cases "ratio raw_probability ''model probability''")
    case (Inl x)
    then show thesis using assms by (auto simp: size_executable_buy_def intro: rejects)
  next
    case (Inr p)
    show thesis
    proof (cases "p \<le> 0 \<or> 1 \<le> p \<or> is_zero (ca_available_cash capital) \<or> p \<le> best_ask book")
      case True
      then show thesis using assms Inr
        by (auto simp: size_executable_buy_def Let_def intro: rejects split: if_splits)
    next
      case False
      show thesis
      proof (cases "kelly p (best_ask book)")
        case (Inl x)
        then show thesis using assms Inr False
          by (cases x) (auto simp: size_executable_buy_def Let_def intro: rejects)
      next
        case raw: (Inr raw)
        obtain fractional uncapped target binding where
          c: "cash_from_kelly capital policy raw = (fractional, uncapped, target, binding)"
          by (cases "cash_from_kelly capital policy raw")
        obtain budget where b: "floor_money target (currency (ca_cash capital)) = Inr budget"
          using assms Inr False raw c by (auto simp: size_executable_buy_def Let_def rbind_eq_Inr)
        show thesis
        proof (cases "is_zero budget")
          case True
          then show thesis using assms Inr False raw c b
            by (auto simp: size_executable_buy_def Let_def intro: rejects)
        next
          case nz: False
          then have g: "on_grid (amount budget)" "0 < amount budget"
            using floor_money_grid [OF b] by (auto simp: is_zero_def)
          let ?st = "\<lparr>ss_budget = budget, ss_binding = binding, ss_depth_reduced = False,
            ss_final_price = None, ss_raw_kelly = raw, ss_fractional_kelly = fractional,
            ss_uncapped_cash = uncapped\<rparr>"
          have "size_loop (buy_quotes p weather event book evaluated_at fp cp balance)
              (slippage_limited_budget book cp) capital policy p (best_ask book)
              (nat (sp_maximum_iterations policy)) 1 ?st = Inr d"
            using assms Inr False raw c b nz by (simp add: size_executable_buy_def Let_def)
          then show thesis
            using Inr False raw g floor_money_le [OF b g(2)] cash_from_kelly_least [OF c]
            by (intro sized [of p raw ?st budget]) auto
        qed
      qed
    qed
  qed
qed

text \<open>C14. Sizing never overspends: an approved target is positive, within the available cash, the
  cash limit per trade and the fractional Kelly cash, both at the best ask and at the final all-in
  price of the quote; the quote is an accepted evaluation at exactly the target and the stated
  probability, so its all-in cost stays within the target.\<close>

theorem sizing_approves_sound:
  assumes "size_executable_buy capital raw_probability weather event book evaluated_at fp cp policy
      balance = Inr d"
    and "sd_status d = RISK_APPROVED" and "0 < sp_maximum_iterations policy"
  shows "\<exists>p v seed raw.
     ratio raw_probability ''model probability'' = Inr p \<and> 0 < p \<and> p < 1
     \<and> sd_quote d = Some v \<and> sound_quote v
     \<and> vq_model_probability v = p \<and> vq_requested_budget v = amount (sd_target_cash d)
     \<and> vq_total_all_in_cost v \<le> amount (sd_target_cash d)
     \<and> 0 < amount (sd_target_cash d)
     \<and> amount (sd_target_cash d) \<le> amount (ca_available_cash capital)
     \<and> amount (sd_target_cash d) \<le> amount (sp_maximum_cash policy)
     \<and> kelly p (best_ask book) = Inr seed \<and> kelly p (vq_all_in_average_price v) = Inr raw \<and> 0 < raw
     \<and> amount (sd_target_cash d)
         \<le> dec_mul (amount (ca_available_cash capital)) (dec_mul seed (sp_kelly_multiplier policy))
     \<and> amount (sd_target_cash d)
         \<le> dec_mul (amount (ca_available_cash capital)) (dec_mul raw (sp_kelly_multiplier policy))
     \<and> inputs_timely weather event book balance evaluated_at fp"
  using assms(1)
proof (cases rule: size_executable_buy_cases)
  case (early reason)
  then show ?thesis using assms(2) by simp
next
  case (sized p raw budget st)
  note loop = buy.loop_decides [OF sized(10)]
  then have d: "valid_decision d" "sd_capital d = capital" "sd_policy d = policy"
    "amount (sd_target_cash d) \<le> amount budget"
    "buy.approval p weather event book evaluated_at fp cp balance capital policy (sd_iterations d)
       (sd_target_cash d) d"
    using assms(2,3) sized(5) by auto
  then obtain e v final where v: "sd_quote d = Some v" "qe_quote e = Some v" "sound_quote v"
    "buy_quotes p weather event book evaluated_at fp cp balance (amount (sd_target_cash d)) = Inr e"
    "vq_requested_budget v = amount (sd_target_cash d)" "vq_model_probability v = p"
    "kelly p (vq_all_in_average_price v) = Inr final" "0 < final"
    "amount (sd_target_cash d)
      \<le> dec_mul (amount (ca_available_cash capital)) (dec_mul final (sp_kelly_multiplier policy))"
    unfolding buy.approval_def by blast
  have "inputs_timely weather event book balance evaluated_at fp"
    using evaluate_accepted [OF v(4) [unfolded buy_quotes_def] v(2)] by simp
  moreover have "vq_total_all_in_cost v \<le> amount (sd_target_cash d)"
    using v(3,5) by (simp add: sound_quote_def Let_def)
  ultimately show ?thesis
    using d v sized assms(2) by (intro exI [of _ p] exI [of _ v] exI [of _ raw] exI [of _ final])
      (auto simp: valid_decision_def)
qed

text \<open>C21. Every decision is well formed: it carries the capital and policy it was made with, between
  zero and the maximum number of iterations, and either a positive target with a quote and no reason,
  or no cash, no quote and a reason.\<close>

theorem sizing_decision_well_formed:
  assumes "size_executable_buy capital raw_probability weather event book evaluated_at fp cp policy
      balance = Inr d"
    and "0 < sp_maximum_iterations policy"
  shows "valid_decision d \<and> sd_capital d = capital \<and> sd_policy d = policy
    \<and> sd_iterations d \<le> sp_maximum_iterations policy"
  using assms(1)
proof (cases rule: size_executable_buy_cases)
  case (early reason)
  then show ?thesis using assms(2) by simp
next
  case (sized p raw budget st)
  show ?thesis using buy.loop_decides [OF sized(10)] assms(2) by auto
qed

text \<open>C20. Sizing converges: every repricing lowers the budget by at least one micro-unit, so with as
  many iterations as the available cash has micro-units the limit is never what ends the loop.\<close>

theorem sizing_converges:
  assumes "size_executable_buy capital raw_probability weather event book evaluated_at fp cp policy
      balance = Inr d"
    and "amount (ca_available_cash capital) * 10 ^ 6 \<le> of_int (sp_maximum_iterations policy)"
  shows "sd_reason d \<noteq> Some NON_CONVERGENT"
  using assms(1)
proof (cases rule: size_executable_buy_cases)
  case (sized p raw budget st)
  have "0 < amount budget * 10 ^ 6" using sized(7) by simp
  then have "amount budget * 10 ^ 6 \<le> of_nat (nat (sp_maximum_iterations policy))"
    using sized(8) assms(2) by (simp add: of_nat_nat)
  then show ?thesis
    using buy.loop_converges [OF sized(10)] sized(5-7) by simp
qed auto

end
