(* ===== verification/Market_Samples.thy ===== *)
theory Market_Samples
  imports Quoting_Props
begin

text \<open>
  A concrete book, weather snapshot, event and policies, on which the properties of order books
  and quotes are instantiated.
\<close>

definition moment :: "int \<Rightarrow> datetime" where
  "moment n = \<lparr>dt_micros = seconds n, dt_offset = Some 0\<rparr>"

definition level :: "rat \<Rightarrow> rat \<Rightarrow> order_level" where
  "level p s = \<lparr>lv_price = p, lv_size = s\<rparr>"

definition book_of :: "order_level list \<Rightarrow> order_book" where
  "book_of asks =
     \<lparr>bk_condition_id = ''0x1'', bk_token_id = ''7'', bk_observed_at = moment 100,
      bk_bids = [level (1 / 2) 40], bk_asks = asks, bk_minimum_order_size = 5,
      bk_tick_size = 1 / 100, bk_neg_risk = False, bk_hash = ''h''\<rparr>"

definition sample_book :: order_book where
  "sample_book = book_of [level (3 / 5) 10, level (13 / 20) 200]"

definition sample_weather :: weather_snapshot where
  "sample_weather =
     \<lparr>ws_forecast =
        \<lparr>fc_temperature = 81, fc_market_date = 0, fc_market_timezone = ''UTC'',
         fc_issued_at = moment 60, fc_valid_from = moment 0, fc_valid_until = moment 86400,
         fc_retrieved_at = moment 70, fc_model_run = None\<rparr>,
      ws_observation = None, ws_assembled_at = moment 90\<rparr>"

definition sample_market_event :: market_event where
  "sample_market_event =
     \<lparr>me_event_id = ''e'', me_retrieved_at = moment 80, me_source_updated_at = None\<rparr>"

definition sample_freshness :: freshness_policy where
  "sample_freshness =
     \<lparr>fp_forecast_age = seconds 3600, fp_event_age = seconds 60, fp_order_book_age = seconds 10,
      fp_balance_age = seconds 60, fp_future_tolerance = seconds 5\<rparr>"

definition sample_costs :: cost_policy where
  "sample_costs =
     \<lparr>cp_platform_fee_rate = 1 / 50, cp_transaction_cost = 7 / 100, cp_safety_margin_rate = 1 / 100,
      cp_maximum_average_slippage = 1 / 100, cp_maximum_worst_slippage = 1 / 100,
      cp_maximum_all_in_price = 9 / 10, cp_minimum_expected_return = 1 / 20,
      cp_depth_policy = REDUCE\<rparr>"

definition sample_balance :: balance_snapshot where
  "sample_balance =
     \<lparr>bs_available_cash = 200, bs_reserved_cash = 0, bs_observed_at = moment 95, bs_source = ''l''\<rparr>"

text \<open>A thin book: one level of ten shares.\<close>

definition thin_book :: order_book where
  "thin_book = book_of [level (3 / 5) 10]"

lemma sample_book_ok: "wf_book sample_book" "grid_book sample_book" "wf_book thin_book" "grid_book thin_book"
  by (simp_all add: wf_book_def grid_book_def sample_book_def thin_book_def book_of_def level_def moment_def
      dt_aware_def best_bid_def best_ask_def wf_level_def grid_level_def on_grid_def strip_def
      is_space_def whitespace_def)

lemma sample_policies_ok: "wf_cost_policy sample_costs" "wf_market_event sample_market_event"
    "dt_aware (moment 100)"
  by (simp_all add: wf_cost_policy_def sample_costs_def wf_market_event_def sample_market_event_def
      moment_def dt_aware_def strip_def is_space_def whitespace_def)

section \<open>An accepted evaluation\<close>

text \<open>
  A budget of 103.07 offers the book just under 100; the thin book is worth 6, so the quote is
  reduced to it. With fees, margin and the fixed cost ten shares cost 6.25.
\<close>

definition num_limit :: rat where
  "num_limit = 9999999999999999999999999999 / 10 ^ 26"

definition sample_quote :: executable_quote where
  "sample_quote =
     \<lparr>xq_token_id = ''7'', xq_shares = 10, xq_total_cost = 6,
      xq_average_price = 3 / 5, xq_worst_price = 3 / 5, xq_best_bid = 1 / 2,
      xq_best_ask = 3 / 5, xq_observed_at = moment 100, xq_book_hash = ''h''\<rparr>"

definition sample_checks :: "(string, freshness_check) dict" where
  "sample_checks =
     [(''forecast'', \<lparr>fk_label = ''forecast'', fk_observed_at = moment 60, fk_age = seconds 40,
         fk_maximum_age = seconds 3600\<rparr>),
      (''event'', \<lparr>fk_label = ''event'', fk_observed_at = moment 80, fk_age = seconds 20,
         fk_maximum_age = seconds 60\<rparr>),
      (''order_book'', \<lparr>fk_label = ''order_book'', fk_observed_at = moment 100, fk_age = 0,
         fk_maximum_age = seconds 10\<rparr>),
      (''balance'', \<lparr>fk_label = ''balance'', fk_observed_at = moment 95, fk_age = seconds 5,
         fk_maximum_age = seconds 60\<rparr>)]"

lemma sample_arith:
  "dec_sub (3 / 5) (3 / 5) = 0"
  "dec_mul 6 (1 / 50) = 3 / 25"
  "dec_mul 6 (1 / 100) = 3 / 50"
  "dec_add (dec_add (dec_add 6 (3 / 25)) (7 / 100)) (3 / 50) = 25 / 4"
  "dec_div (25 / 4) 10 = Inr (5 / 8)"
  "dec_mul (4 / 5) 10 = 8"
  "dec_sub 8 (25 / 4) = 7 / 4"
  "dec_div (7 / 4) (25 / 4) = Inr (7 / 25)"
  "dec_sub (4 / 5) (5 / 8) = 7 / 40"
  "dec_sub (4 / 5) (3 / 5) = 1 / 5"
  by code_simp+

lemma sample_stages:
  "check_freshness sample_weather sample_market_event thin_book (Some sample_balance) (moment 100)
     sample_freshness = Inr (sample_checks, None)"
  "dec_sub (10307 / 100) (7 / 100) = 103"
  "book_budget_limit 103 sample_costs = Inr num_limit"
  "available_notional thin_book = 6"
  "quote_buy_budget thin_book (PyDecimal 6) = Inr sample_quote"
  "to_utc (moment 100) = moment 100"
  by code_simp+

lemma sample_quote_judged:
  "\<exists>e. judge_quote (4 / 5) (10307 / 100) num_limit ''e'' (moment 100) sample_freshness sample_costs
     sample_checks sample_quote = Inr e \<and> qe_quote e \<noteq> None"
proof -
  have ok: "check_quote_freshness v = Inr ()"
    if "vq_freshness v = sample_checks" "vq_freshness_policy v = sample_freshness" for v
    using that
    by (simp add: check_quote_freshness_def sample_checks_def sample_freshness_def is_fresh_def
        check_freshness_entry_def expected_maximum_age_def seconds_def)
  have "strip ''e'' = ''e''" "dt_aware (moment 100)" by code_simp+
  then show ?thesis
    by (simp add: judge_quote_def Let_def sample_quote_def sample_costs_def sample_arith
        validated_quote_init_def check_budgets_def check_costs_def check_edge_def ok
        require_not_negative_def quote_evaluation_init_def num_limit_def)
qed

lemma sample_evaluation:
  "\<exists>e. evaluate_executable_buy (PyDecimal (4 / 5)) (PyDecimal (10307 / 100)) sample_weather
     sample_market_event thin_book (moment 100) sample_freshness sample_costs (Some sample_balance) = Inr e
   \<and> qe_quote e \<noteq> None"
proof -
  have fields: "ws_assembled_at sample_weather = moment 90" "fp_future_tolerance sample_freshness = 5000000"
    "bs_available_cash sample_balance = 200" "me_event_id sample_market_event = ''e''"
    "cp_transaction_cost sample_costs = 7 / 100" "cp_depth_policy sample_costs = REDUCE"
    "dt_aware (moment 100)" "dt_micros (moment n) = n * 1000000" for n
    by (simp_all add: sample_weather_def sample_freshness_def sample_balance_def sample_costs_def
        sample_market_event_def moment_def dt_aware_def seconds_def)
  have "price_buy (4 / 5) (10307 / 100) sample_market_event thin_book (moment 100) sample_freshness
      sample_costs sample_checks = judge_quote (4 / 5) (10307 / 100) num_limit ''e'' (moment 100)
      sample_freshness sample_costs sample_checks sample_quote"
    by (simp add: price_buy_def fields sample_stages num_limit_def Let_def)
  then show ?thesis
    using sample_quote_judged
    by (simp add: evaluate_executable_buy_def parse_inputs_def quote_decimal_def fields sample_stages)
qed

section \<open>Instances of the properties\<close>

theorem quote_buy_cheapest_witness:
  "wf_book sample_book \<and> grid_book sample_book \<and> allocation [10, 5] (bk_asks sample_book)
   \<and> (\<exists>q. quote_buy sample_book (PyDecimal 15) = Inr q
        \<and> xq_shares q = 15 \<and> xq_total_cost q \<le> allocation_cost [10, 5] (bk_asks sample_book))"
proof -
  have "on_grid 15" "bk_minimum_order_size sample_book \<le> 15" "15 \<le> depth (bk_asks sample_book)"
    "allocation [10, 5] (bk_asks sample_book)" "sum_list [10, 5] = (15 :: rat)"
    by (simp_all add: on_grid_def sample_book_def book_of_def level_def)
  then show ?thesis
    using quote_buy_cheapest [OF sample_book_ok(1,2), of 15] sample_book_ok(1,2)
    by (auto simp: is_ok_iff)
qed

theorem quote_buy_budget_best_witness:
  "wf_book thin_book \<and> grid_book thin_book
   \<and> quote_buy_budget thin_book (PyDecimal 7) =
       Inl (OrderBookError ''insufficient ask depth for cash budget'')
   \<and> (\<exists>q. quote_buy_budget thin_book (PyDecimal 6) = Inr q \<and> xq_total_cost q = 6)"
proof -
  have "ctx 6 = 6" "ctx 7 = 7" by (rule ctx_grid; simp add: on_grid_def)+
  moreover have "notional (bk_asks thin_book) = 6"
    by (simp add: thin_book_def book_of_def level_def)
  ultimately show ?thesis
    using quote_buy_budget_best [OF sample_book_ok(3,4), of 6]
      quote_buy_budget_best [OF sample_book_ok(3,4), of 7] sample_book_ok(3,4) sample_stages(5)
    by simp
qed

theorem evaluation_accepts_sound_witness:
  "\<exists>e v. evaluate_executable_buy (PyDecimal (4 / 5)) (PyDecimal (10307 / 100)) sample_weather
     sample_market_event thin_book (moment 100) sample_freshness sample_costs (Some sample_balance) = Inr e
   \<and> qe_quote e = Some v \<and> sound_quote v \<and> vq_requested_budget v \<le> 200"
proof -
  obtain e v where e: "evaluate_executable_buy (PyDecimal (4 / 5)) (PyDecimal (10307 / 100)) sample_weather
     sample_market_event thin_book (moment 100) sample_freshness sample_costs (Some sample_balance) = Inr e"
    "qe_quote e = Some v" using sample_evaluation by auto
  then show ?thesis using evaluation_accepts_sound [OF e] by (auto simp: sample_balance_def)
qed

lemma sample_ordinary:
  "ordinary_inputs (PyDecimal (4 / 5)) (PyDecimal (10307 / 100)) sample_weather sample_market_event
     thin_book (moment 100) sample_freshness sample_costs (Some sample_balance)"
  by (simp add: ordinary_inputs_def parse_inputs_def quote_decimal_def ordinary_decimal_def
      ordinary_time_def sample_costs_def thin_book_def book_of_def level_def sample_weather_def
      sample_market_event_def sample_freshness_def sample_balance_def moment_def seconds_def dt_aware_def)

theorem evaluation_total_witness:
  "wf_book thin_book \<and> grid_book thin_book \<and> wf_cost_policy sample_costs
   \<and> wf_market_event sample_market_event \<and> dt_aware (moment 100)
   \<and> is_ok (evaluate_executable_buy (PyDecimal (4 / 5)) (PyDecimal (10307 / 100)) sample_weather
       sample_market_event thin_book (moment 100) sample_freshness sample_costs (Some sample_balance))"
  using evaluation_total [OF sample_book_ok(3,4) sample_policies_ok sample_ordinary]
    sample_book_ok(3,4) sample_policies_ok by blast

theorem revalidation_same_trade_witness:
  "\<exists>v e w. revalidate_executable_buy v (PyDecimal (4 / 5)) (PyDecimal (10307 / 100)) sample_weather
     sample_market_event thin_book (moment 100) sample_freshness sample_costs (Some sample_balance) = Inr e
   \<and> qe_quote e = Some w \<and> sound_quote w \<and> vq_model_probability w = vq_model_probability v"
proof -
  obtain e v where e: "evaluate_executable_buy (PyDecimal (4 / 5)) (PyDecimal (10307 / 100)) sample_weather
     sample_market_event thin_book (moment 100) sample_freshness sample_costs (Some sample_balance) = Inr e"
    "qe_quote e = Some v" using sample_evaluation by auto
  let ?p = "\<lparr>vq_quote = sample_quote, vq_model_probability = 4 / 5, vq_requested_budget = 10307 / 100,
     vq_book_budget_limit = 0, vq_executable_budget = 0, vq_freshness_policy = sample_freshness,
     vq_cost_policy = sample_costs, vq_platform_fee = 0, vq_transaction_cost = 0, vq_safety_margin = 0,
     vq_total_all_in_cost = 0, vq_all_in_average_price = 0, vq_gross_expected_payout = 0,
     vq_expected_profit = 0, vq_expected_return = 0, vq_probability_edge = 0, vq_average_slippage = 0,
     vq_worst_slippage = 0, vq_depth_reduced = True, vq_evaluated_at = moment 99, vq_event_id = ''e'',
     vq_freshness = []\<rparr>"
  have "revalidate_executable_buy ?p (PyDecimal (4 / 5)) (PyDecimal (10307 / 100)) sample_weather
     sample_market_event thin_book (moment 100) sample_freshness sample_costs (Some sample_balance) = Inr e"
    using e sample_policies_ok(3)
    by (simp add: revalidate_executable_buy_def parse_inputs_def quote_decimal_def
        revalidation_mismatch_def thin_book_def book_of_def sample_quote_def sample_market_event_def)
  then show ?thesis using revalidation_same_trade [OF _ e(2)] e(2) by blast
qed

section \<open>Slippage that is only rounding\<close>

definition deep_book :: order_book where
  "deep_book = book_of [level (3 / 5) 100]"

definition free_costs :: cost_policy where
  "free_costs =
     sample_costs\<lparr>cp_platform_fee_rate := 0, cp_transaction_cost := 0, cp_safety_margin_rate := 0,
       cp_maximum_average_slippage := 0, cp_maximum_worst_slippage := 0\<rparr>"

definition deep_limit :: rat where
  "deep_limit = 9999999999999999999999999999 / 10 ^ 27"

definition deep_quote :: executable_quote where
  "deep_quote =
     \<lparr>xq_token_id = ''7'', xq_shares = 1666666666666666666666666666 / 10 ^ 26, xq_total_cost = deep_limit,
      xq_average_price = 6000000000000000000000000002 / 10 ^ 28, xq_worst_price = 3 / 5,
      xq_best_bid = 1 / 2, xq_best_ask = 3 / 5, xq_observed_at = moment 100, xq_book_hash = ''h''\<rparr>"

lemma deep_stages:
  "check_freshness sample_weather sample_market_event deep_book None (moment 100)
     sample_freshness = Inr (butlast sample_checks, None)"
  "dec_sub 10 0 = 10"
  "book_budget_limit 10 free_costs = Inr deep_limit"
  "available_notional deep_book = 60"
  "quote_buy_budget deep_book (PyDecimal deep_limit) = Inr deep_quote"
  "0 < dec_sub (xq_average_price deep_quote) (xq_best_ask deep_quote)"
  by code_simp+

text \<open>The evaluator refuses trades for slippage that they do not have: a budget of 10 buys wholly
  at the best ask of 0.6, but the average price recomputed from the rounded share count is
  0.6000000000000000000000000002, so a policy that allows no slippage rejects the quote. The code
  guards the average only against falling below the best ask.\<close>

theorem slippage_rounding_refuses:
  "wf_book deep_book \<and> wf_cost_policy free_costs
   \<and> quote_buy_budget deep_book (PyDecimal deep_limit) = Inr deep_quote
   \<and> xq_worst_price deep_quote = best_ask deep_book \<and> best_ask deep_book < xq_average_price deep_quote
   \<and> (\<exists>e. evaluate_executable_buy (PyDecimal (4 / 5)) (PyDecimal 10) sample_weather sample_market_event
         deep_book (moment 100) sample_freshness free_costs None = Inr e
       \<and> qe_rejection_reason e = Some SLIPPAGE_EXCEEDED)"
proof -
  have wf: "wf_book deep_book" "wf_cost_policy free_costs"
    by (simp_all add: wf_book_def deep_book_def book_of_def level_def moment_def wf_cost_policy_def
        free_costs_def sample_costs_def dt_aware_def best_bid_def best_ask_def wf_level_def strip_def
        is_space_def whitespace_def)
  have best: "best_ask deep_book = 3 / 5" "xq_worst_price deep_quote = 3 / 5"
    "3 / 5 < xq_average_price deep_quote"
    by (simp_all add: best_ask_def deep_book_def book_of_def level_def deep_quote_def)
  have fields: "ws_assembled_at sample_weather = moment 90" "fp_future_tolerance sample_freshness = 5000000"
    "cp_transaction_cost free_costs = 0" "cp_maximum_average_slippage free_costs = 0"
    "dt_aware (moment 100)" "dt_micros (moment n) = n * 1000000" for n
    by (simp_all add: sample_weather_def sample_freshness_def sample_costs_def free_costs_def
        moment_def dt_aware_def seconds_def)
  let ?reject = "reject (moment 100) SLIPPAGE_EXCEEDED ''average slippage exceeds'' (butlast sample_checks)"
  have "judge_quote (4 / 5) 10 deep_limit i (moment 100) sample_freshness free_costs
      (butlast sample_checks) deep_quote = ?reject" for i
    using deep_stages(6) by (simp add: judge_quote_def Let_def fields)
  then have "price_buy (4 / 5) 10 sample_market_event deep_book (moment 100) sample_freshness
      free_costs (butlast sample_checks) = ?reject"
    using deep_stages(2-5) by (simp add: price_buy_def fields Let_def deep_limit_def [symmetric]) (simp add: deep_limit_def)
  moreover have "\<exists>e. ?reject = Inr e \<and> qe_rejection_reason e = Some SLIPPAGE_EXCEEDED"
    using rejections_ok(1) [OF fields(5)] reject_InrD unfolding is_ok_iff by blast
  ultimately show ?thesis
    using wf best deep_stages(1,5) sample_stages(6)
    by (simp add: evaluate_executable_buy_def parse_inputs_def quote_decimal_def fields)
qed

end
