(* ===== verification/Sizing_Samples.thy ===== *)
theory Sizing_Samples
  imports Sizing_Props Market_Samples
begin

text \<open>A bankroll and a policy that size a trade on a one-level book, for the sizing properties.\<close>

definition coin_book :: order_book where
  "coin_book = (book_of [level (1 / 2) 100])\<lparr>bk_bids := [level (2 / 5) 40]\<rparr>"

definition coin_costs :: cost_policy where
  "coin_costs =
     sample_costs\<lparr>cp_platform_fee_rate := 0, cp_transaction_cost := 0, cp_safety_margin_rate := 0\<rparr>"

definition usd :: "rat \<Rightarrow> money" where
  "usd x = \<lparr>amount = x, currency = ''USD''\<rparr>"

definition sample_capital :: risk_capital where
  "sample_capital =
     \<lparr>ca_cash = usd 210, ca_reserved_cash = usd 10, ca_available_cash = usd 200,
      ca_open_cost_basis = usd 0, ca_open_count = 0\<rparr>"

definition sample_sizing :: sizing_policy where
  "sample_sizing =
     \<lparr>sp_kelly_multiplier = 1 / 2, sp_maximum_cash = usd 10, sp_maximum_iterations = 4\<rparr>"

definition coin_limit :: rat where
  "coin_limit = 9999999999999999999999999999 / 10 ^ 27"

definition coin_quote :: executable_quote where
  "coin_quote =
     \<lparr>xq_token_id = ''7'', xq_shares = 20, xq_total_cost = coin_limit, xq_average_price = 1 / 2,
      xq_worst_price = 1 / 2, xq_best_bid = 2 / 5, xq_best_ask = 1 / 2, xq_observed_at = moment 100,
      xq_book_hash = ''h''\<rparr>"

definition coin_return :: rat where
  "coin_return = 6000000000000000000000000002 / 10 ^ 28"

definition coin_profit :: rat where
  "coin_profit = 6000000000000000000000000001 / 10 ^ 27"

lemma coin_stages:
  "check_freshness sample_weather sample_market_event coin_book None (moment 100)
     sample_freshness = Inr (butlast sample_checks, None)"
  "dec_sub 10 0 = 10"
  "book_budget_limit 10 coin_costs = Inr coin_limit"
  "available_notional coin_book = 50"
  "quote_buy_budget coin_book (PyDecimal coin_limit) = Inr coin_quote"
  by code_simp+

lemma coin_arith:
  "dec_sub (1 / 2) (1 / 2) = 0"
  "dec_mul coin_limit 0 = 0"
  "dec_add (dec_add (dec_add coin_limit 0) 0) 0 = coin_limit"
  "dec_div coin_limit 20 = Inr (1 / 2)"
  "dec_mul (4 / 5) 20 = 16"
  "dec_sub 16 coin_limit = coin_profit"
  "dec_div coin_profit coin_limit = Inr coin_return"
  "dec_sub (4 / 5) (1 / 2) = 3 / 10"
  by code_simp+

lemma coin_judged:
  "\<exists>e v. judge_quote (4 / 5) 10 coin_limit ''e'' (moment 100) sample_freshness coin_costs
     (butlast sample_checks) coin_quote = Inr e \<and> qe_quote e = Some v
     \<and> vq_all_in_average_price v = 1 / 2 \<and> \<not> vq_depth_reduced v"
proof -
  have ok: "check_quote_freshness v = Inr ()"
    if "vq_freshness v = butlast sample_checks" "vq_freshness_policy v = sample_freshness" for v
    using that
    by (simp add: check_quote_freshness_def sample_checks_def sample_freshness_def is_fresh_def
        check_freshness_entry_def expected_maximum_age_def seconds_def)
  have "strip ''e'' = ''e''" "dt_aware (moment 100)" by code_simp+
  moreover have "0 < coin_limit" "coin_limit \<le> 10" "1 / 20 \<le> coin_return" "0 < coin_profit"
    by (simp_all add: coin_limit_def coin_return_def coin_profit_def)
  ultimately show ?thesis
    by (simp add: judge_quote_def Let_def coin_quote_def coin_costs_def sample_costs_def coin_arith
        validated_quote_init_def check_budgets_def check_costs_def check_edge_def ok
        require_not_negative_def quote_evaluation_init_def)
qed

lemma coin_evaluation:
  "\<exists>e v. buy_quotes (4 / 5) sample_weather sample_market_event coin_book (moment 100) sample_freshness
     coin_costs None 10 = Inr e \<and> qe_quote e = Some v
     \<and> vq_all_in_average_price v = 1 / 2 \<and> \<not> vq_depth_reduced v"
proof -
  have fields: "ws_assembled_at sample_weather = moment 90" "fp_future_tolerance sample_freshness = 5000000"
    "me_event_id sample_market_event = ''e''" "cp_transaction_cost coin_costs = 0"
    "dt_aware (moment 100)" "dt_micros (moment n) = n * 1000000" for n
    by (simp_all add: sample_weather_def sample_freshness_def sample_costs_def coin_costs_def
        sample_market_event_def moment_def dt_aware_def seconds_def)
  have "price_buy (4 / 5) 10 sample_market_event coin_book (moment 100) sample_freshness
      coin_costs (butlast sample_checks) = judge_quote (4 / 5) 10 coin_limit ''e'' (moment 100)
      sample_freshness coin_costs (butlast sample_checks) coin_quote"
    using coin_stages(2-5)
    by (simp add: price_buy_def fields Let_def) (simp add: coin_limit_def)
  then show ?thesis
    using coin_judged coin_stages(1) sample_stages(6)
    by (simp add: buy_quotes_def evaluate_executable_buy_def parse_inputs_def quote_decimal_def fields)
qed

text \<open>Kelly at one half is 0.6, half of it asks for 60 of the 200 available: the trade limit binds.\<close>

lemma coin_sizing_stages:
  "kelly (4 / 5) (1 / 2) = Inr (3 / 5)"
  "cash_from_kelly sample_capital sample_sizing (3 / 5) = (3 / 10, 60, 10, MAX_CASH_PER_TRADE)"
  "floor_money 10 ''USD'' = Inr (usd 10)"
  "money_of (PyDecimal 60) ''USD'' = Inr (usd 60)"
  "best_ask coin_book = 1 / 2"
  by code_simp+

lemma coin_size:
  assumes "nat (sp_maximum_iterations policy) = Suc n" "sp_maximum_cash policy = usd 10"
    "sp_kelly_multiplier policy = 1 / 2" 
  shows "\<exists>d. size_executable_buy sample_capital (PyDecimal (4 / 5)) sample_weather sample_market_event
     coin_book (moment 100) sample_freshness coin_costs policy None = Inr d
   \<and> sd_status d = RISK_APPROVED \<and> sd_target_cash d = usd 10"
proof -
  obtain e v where e: "buy_quotes (4 / 5) sample_weather sample_market_event coin_book (moment 100)
      sample_freshness coin_costs None 10 = Inr e" "qe_quote e = Some v"
    "vq_all_in_average_price v = 1 / 2" "\<not> vq_depth_reduced v"
    using coin_evaluation by blast
  have budget: "vq_requested_budget v = 10" using buy_quotes_accepted [OF e(1,2)] by simp
  have kelly: "cash_from_kelly sample_capital policy (3 / 5) = (3 / 10, 60, 10, MAX_CASH_PER_TRADE)"
    using coin_sizing_stages(2) unfolding cash_from_kelly_def assms(2,3) by (simp add: sample_sizing_def)
  have final: "kelly (4 / 5) (vq_all_in_average_price v) = Inr (3 / 5)"
    by (simp only: e(3) coin_sizing_stages(1))
  have fields: "ca_cash sample_capital = usd 210" "ca_available_cash sample_capital = usd 200"
    "currency (usd x) = ''USD''" "amount (usd x) = x" "is_zero (usd x) \<longleftrightarrow> x = 0" for x
    by (simp_all add: sample_capital_def usd_def is_zero_def)
  show ?thesis
    unfolding size_executable_buy_def assms(1)
    using e(4)
    by (simp add: Let_def fields coin_sizing_stages(1,3-5) final kelly e(1,2) candidate_budget_def approved_def
        decide_def sizing_decision_init_def check_amount_def require_not_negative_cash_def
        is_negative_def check_decision_status_def assms(2) budget)
qed

section \<open>Instances of the properties\<close>

theorem sizing_approves_sound_witness:
  "\<exists>d v. size_executable_buy sample_capital (PyDecimal (4 / 5)) sample_weather sample_market_event
     coin_book (moment 100) sample_freshness coin_costs sample_sizing None = Inr d
   \<and> sd_target_cash d = usd 10 \<and> sd_quote d = Some v \<and> sound_quote v \<and> vq_total_all_in_cost v \<le> 10"
proof -
  obtain d where d: "size_executable_buy sample_capital (PyDecimal (4 / 5)) sample_weather
      sample_market_event coin_book (moment 100) sample_freshness coin_costs sample_sizing None = Inr d"
    "sd_status d = RISK_APPROVED" "sd_target_cash d = usd 10"
    using coin_size [of sample_sizing 3] by (auto simp: sample_sizing_def)
  show ?thesis
    using sizing_approves_sound [OF d(1,2)] d by (auto simp: sample_sizing_def usd_def)
qed

theorem sizing_decision_well_formed_witness:
  "\<exists>d. size_executable_buy sample_capital (PyDecimal (4 / 5)) sample_weather sample_market_event
     coin_book (moment 100) sample_freshness coin_costs sample_sizing None = Inr d
   \<and> valid_decision d \<and> sd_capital d = sample_capital \<and> sd_iterations d \<le> 4"
proof -
  obtain d where d: "size_executable_buy sample_capital (PyDecimal (4 / 5)) sample_weather
      sample_market_event coin_book (moment 100) sample_freshness coin_costs sample_sizing None = Inr d"
    using coin_size [of sample_sizing 3] by (auto simp: sample_sizing_def)
  show ?thesis
    using sizing_decision_well_formed [OF d] d by (auto simp: sample_sizing_def)
qed

text \<open>Two hundred dollars are two hundred million micro-units.\<close>

definition patient_sizing :: sizing_policy where
  "patient_sizing = sample_sizing\<lparr>sp_maximum_iterations := 200000000\<rparr>"

theorem sizing_converges_witness:
  "\<exists>d. size_executable_buy sample_capital (PyDecimal (4 / 5)) sample_weather sample_market_event
     coin_book (moment 100) sample_freshness coin_costs patient_sizing None = Inr d
   \<and> sd_reason d \<noteq> Some NON_CONVERGENT"
proof -
  obtain d where d: "size_executable_buy sample_capital (PyDecimal (4 / 5)) sample_weather
      sample_market_event coin_book (moment 100) sample_freshness coin_costs patient_sizing None = Inr d"
    using coin_size [of patient_sizing 199999999] by (auto simp: patient_sizing_def sample_sizing_def)
  show ?thesis
    using sizing_converges [OF d] d
    by (auto simp: patient_sizing_def sample_sizing_def sample_capital_def usd_def)
qed

end
