(* ===== verification/Portfolio.thy ===== *)
theory Portfolio
  imports Reducers
begin

text \<open>
  \<open>weatherbot/risk/portfolio_model.py\<close> and \<open>weatherbot/risk/portfolio.py\<close>: the portfolio limits
  and decision with their constructors, the exposure, valuation, loss and drawdown figures computed
  from the ledger and its events, and the gate every proposed buy passes. SHA-256, the event
  fingerprint and the time-zone database are parameters.
\<close>

section \<open>Policies and decisions\<close>

datatype portfolio_rejection_reason =
    PF_INVALID_INPUT | VALUATION_MISMATCH | STALE_VALUATION | MISSING_SCOPE | DUPLICATE_EXPOSURE
  | MAX_OPEN_POSITIONS | TOTAL_EXPOSURE | EVENT_EXPOSURE | CITY_DATE_EXPOSURE | CORRELATION_EXPOSURE
  | DAILY_LOSS | DRAWDOWN

record portfolio_policy =
  pp_maximum_total :: money
  pp_maximum_event :: money
  pp_maximum_city_date :: money
  pp_maximum_correlation :: money
  pp_maximum_open_positions :: int
  pp_maximum_daily_loss :: money
  pp_maximum_drawdown :: money
  pp_valuation_age :: timedelta
  pp_future_tolerance :: timedelta
  pp_loss_timezone :: string

definition positive_money :: "money \<Rightarrow> string \<Rightarrow> unit result" where
  "positive_money m label =
     (if amount m \<le> 0 then Inl (ValueError (label @ '' must be positive'')) else Inr ())"

definition check_limit :: "string \<Rightarrow> unit \<Rightarrow> string \<times> money \<Rightarrow> unit result" where
  "check_limit cur u entry =
     rbind (positive_money (snd entry) (fst entry)) (\<lambda>_.
     if currency (snd entry) \<noteq> cur then Inl (ValueError ''portfolio risk policy mixes currencies'')
     else Inr ())"

definition portfolio_policy_init :: "portfolio_policy \<Rightarrow> portfolio_policy result" where
  "portfolio_policy_init p =
     rbind (rfold (check_limit (currency (pp_maximum_total p))) ()
              [(''maximum_total_exposure'', pp_maximum_total p),
               (''maximum_event_exposure'', pp_maximum_event p),
               (''maximum_city_date_exposure'', pp_maximum_city_date p),
               (''maximum_correlation_group_exposure'', pp_maximum_correlation p),
               (''maximum_daily_loss'', pp_maximum_daily_loss p),
               (''maximum_drawdown'', pp_maximum_drawdown p)]) (\<lambda>_.
     if pp_maximum_open_positions p \<le> 0
     then Inl (ValueError ''maximum_open_positions must be a positive integer'')
     else if pp_valuation_age p \<le> 0
     then Inl (ValueError ''maximum_valuation_age must be positive'')
     else if pp_future_tolerance p < 0
     then Inl (ValueError ''future_tolerance must not be negative'')
     else if strip (pp_loss_timezone p) = []
     then Inl (ValueError ''loss_timezone must not be blank'')
     else Inr p)"

definition pp_currency :: "portfolio_policy \<Rightarrow> string" where
  "pp_currency p = currency (pp_maximum_total p)"

record correlation_exposure =
  ce_group :: string
  ce_before :: money
  ce_after :: money

definition correlation_exposure_init :: "correlation_exposure \<Rightarrow> correlation_exposure result" where
  "correlation_exposure_init c =
     (if strip (ce_group c) = [] then Inl (ValueError ''correlation group must not be blank'')
      else if currency (ce_before c) \<noteq> currency (ce_after c)
      then Inl (ValueError ''correlation exposure mixes currencies'')
      else if is_negative (ce_before c) \<or> is_negative (ce_after c)
      then Inl (ValueError ''correlation exposure must not be negative'')
      else Inr c)"

record portfolio_decision =
  pr_status :: risk_decision_status
  pr_scope :: risk_scope
  pr_cash :: money
  pr_total_before :: money
  pr_total_after :: money
  pr_event_before :: money
  pr_event_after :: money
  pr_city_date_before :: money
  pr_city_date_after :: money
  pr_correlation :: "correlation_exposure list"
  pr_open_before :: int
  pr_open_after :: int
  pr_realized_today :: money
  pr_unrealized :: money
  pr_daily_pnl :: money
  pr_daily_loss :: money
  pr_equity :: money
  pr_high_water :: money
  pr_drawdown :: money
  pr_reason :: "portfolio_rejection_reason option"
  pr_detail :: "string option"
  pr_missing :: "string list"

definition portfolio_decision_init :: "portfolio_decision \<Rightarrow> portfolio_decision result" where
  "portfolio_decision_init d =
     (let nonnegative =
            [pr_total_before d, pr_total_after d, pr_event_before d, pr_event_after d,
             pr_city_date_before d, pr_city_date_after d, pr_daily_loss d, pr_equity d,
             pr_high_water d, pr_drawdown d];
          amounts = nonnegative @ [pr_realized_today d, pr_unrealized d, pr_daily_pnl d]
      in if \<not> list_all (\<lambda>m. currency m = currency (pr_cash d)) amounts
         then Inl (ValueError ''portfolio risk decision mixes currencies'')
         else if is_negative (pr_cash d)
         then Inl (ValueError ''proposed cash must not be negative'')
         else if list_ex is_negative nonnegative
         then Inl (ValueError ''nonnegative portfolio risk amount became negative'')
         else if pr_open_before d < 0 \<or> pr_open_after d < 0
         then Inl (ValueError ''open position counts must not be negative'')
         else if pr_status d = RISK_APPROVED
         then if pr_reason d \<noteq> None
              then Inl (ValueError ''approved portfolio risk decision cannot have rejection reason'')
              else if is_zero (pr_cash d)
              then Inl (ValueError ''approved portfolio risk decision requires positive cash'')
              else Inr d
         else if pr_reason d = None
         then Inl (ValueError ''rejected portfolio risk decision requires rejection reason'')
         else Inr d)"

section \<open>Scopes and exposure\<close>

definition register_scope ::
    "(position_key, risk_scope) dict \<Rightarrow> ledger_event \<Rightarrow> (position_key, risk_scope) dict result" where
  "register_scope scopes e =
     (case ev_body e of
        RiskScopeRegistered scope \<Rightarrow>
          (let key = rs_position_key scope
           in case dict_get scopes key of
                Some existing \<Rightarrow>
                  if existing \<noteq> scope
                  then Inl (ValueError (''risk scope changed for '' @ fst key @ ''/'' @ snd key))
                  else Inr (dict_set scopes key scope)
              | None \<Rightarrow> Inr (dict_set scopes key scope))
      | _ \<Rightarrow> Inr scopes)"

definition risk_scopes :: "ledger_event list \<Rightarrow> (position_key, risk_scope) dict result" where
  "risk_scopes es = rfold register_scope [] es"

definition order_exposure ::
    "string \<Rightarrow> (position_key, money) dict \<Rightarrow> string \<times> order_aggregate \<Rightarrow> (position_key, money) dict result" where
  "order_exposure cur exposure entry =
     (let ord = snd entry
      in if oi_side (oa_intent ord) \<noteq> BUY \<or> is_terminal (oa_state ord) then Inr exposure
         else
           let key = order_key ord
           in rbind (money_zero cur) (\<lambda>z.
              rbind (money_add (case dict_get exposure key of None \<Rightarrow> z | Some m \<Rightarrow> m)
                       (oa_reserved_cash ord)) (\<lambda>m.
              Inr (dict_set exposure key m))))"

definition exposure_by_position :: "ledger_state \<Rightarrow> (position_key, money) dict result" where
  "exposure_by_position s =
     rfold (order_exposure (ls_currency s))
       (fold (\<lambda>(key, p) d. dict_set d key (pos_cost_basis p)) (open_positions s) [])
       (ls_orders s)"

definition sum_money :: "money list \<Rightarrow> string \<Rightarrow> money result" where
  "sum_money values cur = rbind (money_zero cur) (\<lambda>z. rfold money_add z values)"

text \<open>The total exposure of the registered scopes that satisfy a predicate.\<close>

definition scoped_exposure ::
    "string \<Rightarrow> (position_key, risk_scope) dict \<Rightarrow> (position_key, money) dict \<Rightarrow> (risk_scope \<Rightarrow> bool) \<Rightarrow>
     money result" where
  "scoped_exposure cur scopes exposure P =
     sum_money (map snd (filter (\<lambda>(key, m).
       case dict_get scopes key of None \<Rightarrow> False | Some scope \<Rightarrow> P scope) exposure)) cur"

definition correlation_item ::
    "string \<Rightarrow> (position_key, risk_scope) dict \<Rightarrow> (position_key, money) dict \<Rightarrow> money \<Rightarrow> string \<Rightarrow>
     correlation_exposure result" where
  "correlation_item cur scopes exposure proposed label =
     rbind (scoped_exposure cur scopes exposure (\<lambda>scope. label \<in> set (all_correlation_groups scope)))
       (\<lambda>before.
     rbind (money_add before proposed) (\<lambda>after.
     correlation_exposure_init \<lparr>ce_group = label, ce_before = before, ce_after = after\<rparr>))"

section \<open>Profit and loss\<close>

definition realized_total :: "ledger_state \<Rightarrow> money result" where
  "realized_total s = sum_money (map (\<lambda>(key, p). pos_realized_pnl p) (ls_positions s)) (ls_currency s)"

text \<open>The first and the last microsecond of the local day of an instant.\<close>

definition loss_day :: "zone \<Rightarrow> datetime \<Rightarrow> int \<times> int" where
  "loss_day z evaluated_at =
     (let d = local_date z evaluated_at
      in (z_utc z (d * micros_per_day), z_utc z (d * micros_per_day + micros_per_day - 1)))"

definition realize_event ::
    "(string \<Rightarrow> string) \<Rightarrow> (ledger_event \<Rightarrow> string) \<Rightarrow> int \<times> int \<Rightarrow> datetime \<Rightarrow> ledger_state \<times> money \<Rightarrow>
     ledger_event \<Rightarrow> (ledger_state \<times> money) result" where
  "realize_event sha fp day evaluated_at acc e =
     (case acc of (s, realized) \<Rightarrow>
        rbind (realized_total s) (\<lambda>before.
        rbind (apply_event sha fp s e) (\<lambda>s'.
        rbind (realized_total s') (\<lambda>after.
        if dt_micros (ev_occurred_at e) \<le> dt_micros evaluated_at
           \<and> fst day \<le> dt_micros (ev_occurred_at e) \<and> dt_micros (ev_occurred_at e) \<le> snd day
        then rbind (money_sub after before) (\<lambda>change.
             rbind (money_add realized change) (\<lambda>realized'. Inr (s', realized')))
        else Inr (s', realized)))))"

definition realized_pnl_today ::
    "(string \<Rightarrow> string) \<Rightarrow> (ledger_event \<Rightarrow> string) \<Rightarrow> tzdb \<Rightarrow> ledger_event list \<Rightarrow> string \<Rightarrow> datetime \<Rightarrow>
     string \<Rightarrow> money result" where
  "realized_pnl_today sha fp tz es cur evaluated_at timezone_name =
     (case tz timezone_name of
        None \<Rightarrow> Inl (ValueError ''unknown loss timezone'')
      | Some z \<Rightarrow>
          rbind (ledger_empty cur) (\<lambda>s.
          rbind (money_zero cur) (\<lambda>zero.
          rbind (rfold (realize_event sha fp (loss_day z evaluated_at) evaluated_at) (s, zero) es) (\<lambda>acc.
          Inr (snd acc)))))"

section \<open>Valuations\<close>

text \<open>
  The loop over the open positions: it returns the first complaint, or the total of the
  liquidation values.
\<close>

fun check_marks ::
    "portfolio_policy \<Rightarrow> string \<Rightarrow> datetime \<Rightarrow> (position_key, position_valuation) dict \<Rightarrow>
     (position_key \<times> position) list \<Rightarrow> money \<Rightarrow> (string + money) result" where
  "check_marks policy cur evaluated_at marks [] acc = Inr (Inr acc)"
| "check_marks policy cur evaluated_at marks ((key, p) # ps) acc =
     (case dict_get marks key of
        None \<Rightarrow> Inl KeyError
      | Some mark \<Rightarrow>
          let name = fst key @ ''/'' @ snd key
          in if pv_quantity mark \<noteq> pos_quantity p
             then Inr (Inl (''valuation quantity differs for '' @ name))
             else if currency (pv_liquidation_value mark) \<noteq> cur
             then Inr (Inl (''valuation currency differs for '' @ name))
             else if dt_micros evaluated_at + pp_future_tolerance policy < dt_micros (pv_observed_at mark)
             then Inr (Inl (''valuation mark is unexpectedly in the future for '' @ name))
             else if pp_valuation_age policy < dt_micros evaluated_at - dt_micros (pv_observed_at mark)
             then Inr (Inl (''valuation mark is stale for '' @ name))
             else rbind (money_add acc (pv_liquidation_value mark)) (\<lambda>acc'.
               check_marks policy cur evaluated_at marks ps acc'))"

definition marks_of :: "portfolio_valuation \<Rightarrow> (position_key, position_valuation) dict" where
  "marks_of v = fold (\<lambda>m d. dict_set d (pv_position_key m) m) (pf_positions v) []"

definition validate_valuation ::
    "ledger_state \<Rightarrow> portfolio_valuation \<Rightarrow> datetime \<Rightarrow> portfolio_policy \<Rightarrow> string option result" where
  "validate_valuation s v evaluated_at policy =
     (if currency (pf_equity v) \<noteq> ls_currency s
      then Inr (Some ''portfolio valuation currency differs from ledger currency'')
      else if dt_micros evaluated_at + pp_future_tolerance policy < dt_micros (pf_assembled_at v)
      then Inr (Some ''portfolio valuation was assembled in the future'')
      else if pp_valuation_age policy < dt_micros evaluated_at - dt_micros (pf_assembled_at v)
      then Inr (Some ''portfolio valuation is stale'')
      else if set (dict_keys (marks_of v)) \<noteq> set (dict_keys (open_positions s))
      then Inr (Some ''portfolio valuation does not cover exactly the open positions'')
      else rbind (money_zero (ls_currency s)) (\<lambda>z.
           rbind (check_marks policy (ls_currency s) evaluated_at (marks_of v) (open_positions s) z)
             (\<lambda>r. case r of
                Inl complaint \<Rightarrow> Inr (Some complaint)
              | Inr liquidation \<Rightarrow>
                  rbind (money_add (ls_cash s) liquidation) (\<lambda>equity.
                  if pf_equity v \<noteq> equity
                  then Inr (Some
                    ''portfolio valuation equity does not reconcile to cash plus liquidation values'')
                  else Inr None))))"

text \<open>The reason of a rejected valuation is read off its message.\<close>

definition valuation_reason :: "string \<Rightarrow> portfolio_rejection_reason" where
  "valuation_reason complaint =
     (if contains ''stale'' complaint \<or> contains ''future'' complaint then STALE_VALUATION
      else VALUATION_MISMATCH)"

definition add_unrealized ::
    "(position_key, position_valuation) dict \<Rightarrow> money \<Rightarrow> position_key \<times> position \<Rightarrow> money result" where
  "add_unrealized marks acc entry =
     (case dict_get marks (fst entry) of
        None \<Rightarrow> Inl KeyError
      | Some mark \<Rightarrow>
          rbind (money_sub (pv_liquidation_value mark) (pos_cost_basis (snd entry))) (\<lambda>gain.
          money_add acc gain))"

definition unrealized_pnl :: "ledger_state \<Rightarrow> portfolio_valuation \<Rightarrow> money result" where
  "unrealized_pnl s v =
     rbind (money_zero (ls_currency s)) (\<lambda>z.
     rfold (add_unrealized (marks_of v)) z (open_positions s))"

text \<open>The cash the account was first opened with, and the equities recorded until then.\<close>

definition collect_equity ::
    "datetime \<Rightarrow> money option \<times> money list \<Rightarrow> ledger_event \<Rightarrow> money option \<times> money list" where
  "collect_equity evaluated_at acc e =
     (case (ev_body e, acc) of
        (AccountOpened m, (initial, prior)) \<Rightarrow>
          (if initial = None then (Some m, prior) else (initial, prior))
      | (PortfolioValuationRecorded v, (initial, prior)) \<Rightarrow>
          (if dt_micros (ev_occurred_at e) \<le> dt_micros evaluated_at
           then (initial, prior @ [pf_equity v]) else (initial, prior))
      | (_, acc') \<Rightarrow> acc')"

definition check_prior :: "string \<Rightarrow> decimal list \<Rightarrow> money \<Rightarrow> decimal list result" where
  "check_prior cur amounts equity =
     (if currency equity \<noteq> cur
      then Inl (ValueError ''historical valuation currency differs from current equity'')
      else Inr (amounts @ [amount equity]))"

definition high_water_mark :: "ledger_event list \<Rightarrow> money \<Rightarrow> datetime \<Rightarrow> money result" where
  "high_water_mark es current evaluated_at =
     (case foldl (collect_equity evaluated_at) (None, []) es of
        (None, prior) \<Rightarrow> Inl (ValueError ''opened ledger has no AccountOpened event'')
      | (Some initial, prior) \<Rightarrow>
          if currency initial \<noteq> currency current
          then Inl (ValueError ''initial cash currency differs from current equity'')
          else rbind (rfold (check_prior (currency current)) [amount initial, amount current] prior)
            (\<lambda>amounts. money_of (PyDecimal (foldl max (hd amounts) (tl amounts))) (currency current)))"

section \<open>The gate\<close>

text \<open>The cap checks, in the order of the code, on a decision that carries all the figures.\<close>

definition limit_breach :: "portfolio_policy \<Rightarrow> portfolio_decision \<Rightarrow> (portfolio_rejection_reason \<times> string) option" where
  "limit_breach policy d =
     (if amount (pp_maximum_daily_loss policy) \<le> amount (pr_daily_loss d)
      then Some (DAILY_LOSS, ''realized-today plus current unrealized loss reached the daily limit'')
      else if amount (pp_maximum_drawdown policy) \<le> amount (pr_drawdown d)
      then Some (DRAWDOWN, ''current liquidation equity reached the drawdown limit'')
      else if pp_maximum_open_positions policy < pr_open_after d
      then Some (MAX_OPEN_POSITIONS, ''proposed exposure exceeds the maximum open-position count'')
      else if amount (pp_maximum_total policy) < amount (pr_total_after d)
      then Some (TOTAL_EXPOSURE, ''proposed exposure exceeds the total portfolio cap'')
      else if amount (pp_maximum_event policy) < amount (pr_event_after d)
      then Some (EVENT_EXPOSURE, ''proposed exposure exceeds the event cap'')
      else if amount (pp_maximum_city_date policy) < amount (pr_city_date_after d)
      then Some (CITY_DATE_EXPOSURE, ''proposed exposure exceeds the city/date cap'')
      else case filter (\<lambda>c. amount (pp_maximum_correlation policy) < amount (ce_after c))
                  (pr_correlation d) of
          [] \<Rightarrow> None
        | c # _ \<Rightarrow> Some (CORRELATION_EXPOSURE,
            ''proposed exposure exceeds correlation cap for '' @ ce_group c))"

definition judge_portfolio ::
    "portfolio_policy \<Rightarrow> string option \<Rightarrow> string list \<Rightarrow> bool \<Rightarrow> portfolio_decision \<Rightarrow>
     portfolio_decision result" where
  "judge_portfolio policy complaint missing duplicate d =
     (let reject = (\<lambda>reason detail keys. portfolio_decision_init
            (d\<lparr>pr_status := RISK_REJECTED, pr_reason := Some reason, pr_detail := Some detail,
               pr_missing := keys\<rparr>))
      in case complaint of
           Some message \<Rightarrow> reject (valuation_reason message) message []
         | None \<Rightarrow>
             if missing \<noteq> []
             then reject MISSING_SCOPE ''existing exposure is missing durable portfolio risk scope'' missing
             else if duplicate
             then reject DUPLICATE_EXPOSURE
                    ''position key already has an open position or active BUY intent'' []
             else (case limit_breach policy d of
                 Some (reason, detail) \<Rightarrow> reject reason detail []
               | None \<Rightarrow> portfolio_decision_init
                   (d\<lparr>pr_status := RISK_APPROVED, pr_reason := None, pr_detail := None,
                      pr_missing := []\<rparr>)))"

definition missing_keys :: "(position_key, risk_scope) dict \<Rightarrow> (position_key, money) dict \<Rightarrow> string list" where
  "missing_keys scopes exposure =
     sort (map (\<lambda>(key, m). fst key @ ''/'' @ snd key)
       (filter (\<lambda>(key, m). dict_get scopes key = None) exposure))"

text \<open>Equity and high-water mark; a valuation that was refused counts cash only.\<close>

definition equity_figures ::
    "ledger_state \<Rightarrow> ledger_event list \<Rightarrow> portfolio_valuation \<Rightarrow> datetime \<Rightarrow> string option \<Rightarrow>
     (money \<times> money \<times> money) result" where
  "equity_figures s es v evaluated_at complaint =
     (case complaint of
        None \<Rightarrow>
          rbind (unrealized_pnl s v) (\<lambda>unrealized.
          rbind (high_water_mark es (pf_equity v) evaluated_at) (\<lambda>high.
          Inr (unrealized, pf_equity v, high)))
      | Some _ \<Rightarrow> rbind (money_zero (ls_currency s)) (\<lambda>z. Inr (z, ls_cash s, ls_cash s)))"

text \<open>The guards before any figure is computed.\<close>

definition check_proposal ::
    "ledger_state \<Rightarrow> money \<Rightarrow> portfolio_policy \<Rightarrow> datetime \<Rightarrow> unit result" where
  "check_proposal s proposed_cash policy evaluated_at =
     (if \<not> dt_aware evaluated_at
      then Inl (ValueError ''portfolio risk evaluation time must be timezone-aware'')
      else rbind (assert_invariants s) (\<lambda>_.
        if \<not> ls_opened s then Inl (ValueError ''portfolio risk requires an opened ledger'')
        else if amount proposed_cash \<le> 0 then Inl (ValueError ''proposed cash must be positive'')
        else if currency proposed_cash \<noteq> ls_currency s \<or> pp_currency policy \<noteq> ls_currency s
        then Inl (ValueError ''portfolio risk inputs use a different currency from the ledger'')
        else Inr ()))"

definition evaluate_portfolio_risk ::
    "(string \<Rightarrow> string) \<Rightarrow> (ledger_event \<Rightarrow> string) \<Rightarrow> tzdb \<Rightarrow> ledger_state \<Rightarrow> ledger_event list \<Rightarrow>
     risk_scope \<Rightarrow> money \<Rightarrow> portfolio_valuation \<Rightarrow> portfolio_policy \<Rightarrow> datetime \<Rightarrow>
     portfolio_decision result" where
  "evaluate_portfolio_risk sha fp tz s es scope proposed_cash v policy evaluated_at =
     (let cur = ls_currency s in
      rbind (check_proposal s proposed_cash policy evaluated_at) (\<lambda>_.
      rbind (risk_scopes es) (\<lambda>scopes.
      if dict_get scopes (rs_position_key scope) \<noteq> None
         \<and> dict_get scopes (rs_position_key scope) \<noteq> Some scope
      then Inl (ValueError ''proposed risk scope conflicts with durable registered scope'') else
      rbind (exposure_by_position s) (\<lambda>exposure.
      rbind (sum_money (map snd exposure) cur) (\<lambda>total_before.
      rbind (money_add total_before proposed_cash) (\<lambda>total_after.
      let open_before = int (length exposure);
          duplicate = (rs_position_key scope \<in> set (dict_keys exposure))
      in
      rbind (scoped_exposure cur scopes exposure (\<lambda>x. rs_event_id x = rs_event_id scope)) (\<lambda>event_before.
      rbind (money_add event_before proposed_cash) (\<lambda>event_after.
      rbind (scoped_exposure cur scopes exposure (\<lambda>x. city_date_key x = city_date_key scope)) (\<lambda>city_before.
      rbind (money_add city_before proposed_cash) (\<lambda>city_after.
      rbind (rmap (correlation_item cur scopes exposure proposed_cash) (all_correlation_groups scope))
        (\<lambda>correlation.
      rbind (validate_valuation s v evaluated_at policy) (\<lambda>complaint.
      rbind (realized_pnl_today sha fp tz es cur evaluated_at (pp_loss_timezone policy)) (\<lambda>realized.
      rbind (equity_figures s es v evaluated_at complaint) (\<lambda>(unrealized, equity, high).
      rbind (money_add realized unrealized) (\<lambda>daily.
      rbind (money_of (PyDecimal (max 0 (dec_neg (amount daily)))) cur) (\<lambda>loss.
      rbind (money_of (PyDecimal (max 0 (dec_sub (amount high) (amount equity)))) cur) (\<lambda>drawdown.
      judge_portfolio policy complaint (missing_keys scopes exposure) duplicate
        \<lparr>pr_status = RISK_REJECTED, pr_scope = scope, pr_cash = proposed_cash,
         pr_total_before = total_before, pr_total_after = total_after,
         pr_event_before = event_before, pr_event_after = event_after,
         pr_city_date_before = city_before, pr_city_date_after = city_after,
         pr_correlation = correlation, pr_open_before = open_before,
         pr_open_after = (if duplicate then open_before else open_before + 1),
         pr_realized_today = realized, pr_unrealized = unrealized, pr_daily_pnl = daily,
         pr_daily_loss = loss, pr_equity = equity, pr_high_water = high, pr_drawdown = drawdown,
         pr_reason = None, pr_detail = None, pr_missing = []\<rparr>)))))))))))))))))"

end
