(* ===== verification/Portfolio_Props.thy ===== *)
theory Portfolio_Props
  imports Portfolio Ledger_Props
begin

text \<open>
  The portfolio gate against its declarative meaning: exposure per position as cost basis plus
  reserved cash of the active buys, sums over the exposed positions, and the profit of a day as a
  difference of two moments of the ledger.
\<close>

section \<open>Exposure\<close>

definition active_buy :: "order_aggregate \<Rightarrow> bool" where
  "active_buy ord \<longleftrightarrow> oi_side (oa_intent ord) = BUY \<and> \<not> is_terminal (oa_state ord)"

definition buy_at :: "position_key \<Rightarrow> string \<times> order_aggregate \<Rightarrow> rat" where
  "buy_at key entry =
     (if active_buy (snd entry) \<and> order_key (snd entry) = key then amount (oa_reserved_cash (snd entry)) else 0)"

definition held_cost :: "position_key \<Rightarrow> (position_key, position) dict \<Rightarrow> rat" where
  "held_cost key ps = (case dict_get ps key of None \<Rightarrow> 0 | Some p \<Rightarrow> amount (pos_cost_basis p))"

text \<open>The positions with exposure, and how much each has.\<close>

definition exposed :: "ledger_state \<Rightarrow> position_key set" where
  "exposed s = fst ` set (open_positions s) \<union> order_key ` {ord \<in> snd ` set (ls_orders s). active_buy ord}"

definition exposure_at :: "ledger_state \<Rightarrow> position_key \<Rightarrow> rat" where
  "exposure_at s key = held_cost key (open_positions s) + sum_list (map (buy_at key) (ls_orders s))"

definition dict_amount :: "(position_key, money) dict \<Rightarrow> position_key \<Rightarrow> rat" where
  "dict_amount d key = (case dict_get d key of None \<Rightarrow> 0 | Some m \<Rightarrow> amount m)"

definition cash_dict :: "string \<Rightarrow> (position_key, money) dict \<Rightarrow> bool" where
  "cash_dict cur d \<longleftrightarrow> dict_ok d \<and> (\<forall>(k, m) \<in> set d. wf_money m \<and> currency m = cur)"

lemma cash_dict_get: "cash_dict cur d \<Longrightarrow> dict_get d k = Some m \<Longrightarrow> wf_money m \<and> currency m = cur"
  by (auto simp: cash_dict_def dest!: map_of_SomeD)

lemma cash_dict_set:
  "cash_dict cur d \<Longrightarrow> wf_money m \<Longrightarrow> currency m = cur \<Longrightarrow> cash_dict cur (dict_set d k m)"
  unfolding cash_dict_def by (auto intro: dict_set_values simp: dict_set_entries split: if_splits)

lemma order_exposure_InrD:
  assumes "order_exposure cur d (i, ord) = Inr d'" and "cash_dict cur d" and "cur_ok cur"
    and "wf_money (oa_reserved_cash ord)"
  shows "cash_dict cur d' \<and> dict_amount d' k = dict_amount d k + buy_at k (i, ord)
    \<and> (dict_get d' k \<noteq> None \<longleftrightarrow> dict_get d k \<noteq> None \<or> active_buy ord \<and> order_key ord = k)"
proof (cases "active_buy ord")
  case False
  with assms(1,2) show ?thesis
    by (auto simp: order_exposure_def active_buy_def buy_at_def Let_def)
next
  case True
  let ?key = "order_key ord"
  let ?m = "case dict_get d ?key of None \<Rightarrow> \<lparr>amount = 0, currency = cur\<rparr> | Some m \<Rightarrow> m"
  have m: "wf_money ?m" "currency ?m = cur" "amount ?m = dict_amount d ?key"
    using assms(2,3) cash_dict_get [OF assms(2)]
    by (auto simp: dec6_def dict_amount_def split: option.splits)
  obtain r where r: "money_add ?m (oa_reserved_cash ord) = Inr r" "d' = dict_set d ?key r"
    using assms(1,3) True by (auto simp: order_exposure_def active_buy_def Let_def rbind_eq_Inr)
  have "currency ?m = currency (oa_reserved_cash ord)"
    "amount r = amount ?m + amount (oa_reserved_cash ord)" "wf_money r" "currency r = cur"
    using money_add_InrD [OF r(1) m(1) assms(4)] m(2) by auto
  with r(2) m assms(2) True show ?thesis
    by (auto simp: dict_amount_def buy_at_def cash_dict_set)
qed

lemma order_exposures_InrD:
  assumes "rfold (order_exposure cur) d os = Inr ex" and "cash_dict cur d" and "cur_ok cur"
    and "\<forall>(i, ord) \<in> set os. wf_money (oa_reserved_cash ord)"
  shows "cash_dict cur ex \<and> dict_amount ex k = dict_amount d k + sum_list (map (buy_at k) os)
    \<and> (dict_get ex k \<noteq> None \<longleftrightarrow>
        dict_get d k \<noteq> None \<or> k \<in> order_key ` {ord \<in> snd ` set os. active_buy ord})"
  using assms
proof (induction os arbitrary: d)
  case Nil
  then show ?case by simp
next
  case (Cons x os)
  obtain i ord where x: "x = (i, ord)" by force
  obtain d' where d': "order_exposure cur d (i, ord) = Inr d'" "rfold (order_exposure cur) d' os = Inr ex"
    using Cons.prems(1) x by (auto simp: rbind_eq_Inr)
  have s: "cash_dict cur d' \<and> dict_amount d' k = dict_amount d k + buy_at k (i, ord)
    \<and> (dict_get d' k \<noteq> None \<longleftrightarrow> dict_get d k \<noteq> None \<or> active_buy ord \<and> order_key ord = k)"
    by (rule order_exposure_InrD [OF d'(1)]) (use Cons.prems x in auto)
  have "cash_dict cur ex \<and> dict_amount ex k = dict_amount d' k + sum_list (map (buy_at k) os)
    \<and> (dict_get ex k \<noteq> None \<longleftrightarrow>
        dict_get d' k \<noteq> None \<or> k \<in> order_key ` {ord \<in> snd ` set os. active_buy ord})"
    by (rule Cons.IH [OF d'(2)]) (use s Cons.prems in auto)
  moreover have "{a \<in> snd ` set ((i, ord) # os). active_buy a} =
      {a \<in> snd ` set os. active_buy a} \<union> (if active_buy ord then {ord} else {})" by auto
  ultimately show ?case using s unfolding x by (auto simp: algebra_simps)
qed

lemma cost_fold:
  assumes "distinct (map fst ps @ map fst d)"
  shows "fold (\<lambda>(key, p) d. dict_set d key (f p)) ps d = d @ map (\<lambda>(key, p). (key, f p)) ps"
  using assms
proof (induction ps arbitrary: d)
  case Nil
  then show ?case by simp
next
  case (Cons x ps)
  obtain k p where x: "x = (k, p)" by force
  have "dict_set d k (f p) = d @ [(k, f p)]"
    using Cons.prems unfolding x by (induction d) auto
  then show ?case
    using Cons.IH [of "d @ [(k, f p)]"] Cons.prems by (auto simp: x)
qed

lemma open_positions_ok: "dict_ok (ls_positions s) \<Longrightarrow> dict_ok (open_positions s)"
  by (simp add: dict_ok_def open_positions_def distinct_map_filter)

lemma exposure_by_position_InrD:
  assumes "exposure_by_position s = Inr ex" and "wf_ledger s"
  shows "cash_dict (ls_currency s) ex \<and> fst ` set ex = exposed s \<and> dict_amount ex k = exposure_at s k"
proof -
  let ?cost = "fold (\<lambda>(key, p) d. dict_set d key (pos_cost_basis p)) (open_positions s) []"
  have e: "?cost = map (\<lambda>(key, p). (key, pos_cost_basis p)) (open_positions s)"
    using open_positions_ok assms(2) by (subst cost_fold) (auto simp: wf_ledger_def dict_ok_def)
  have g: "dict_get ?cost k = map_option pos_cost_basis (dict_get (open_positions s) k)" for k
    unfolding e by (simp add: map_of_map)
  have w: "\<forall>(k, p) \<in> set (open_positions s). wf_position (ls_currency s) p" "dict_ok (open_positions s)"
    using assms(2) open_positions_ok by (auto simp: wf_ledger_def open_positions_def)
  have c: "cash_dict (ls_currency s) ?cost"
    unfolding e cash_dict_def
    using w by (auto simp: dict_ok_def wf_position_def comp_def case_prod_beta)
  have all: "cash_dict (ls_currency s) ex
    \<and> dict_amount ex k = dict_amount ?cost k + sum_list (map (buy_at k) (ls_orders s))
    \<and> (dict_get ex k \<noteq> None \<longleftrightarrow>
        dict_get ?cost k \<noteq> None \<or> k \<in> order_key ` {ord \<in> snd ` set (ls_orders s). active_buy ord})" for k
    by (rule order_exposures_InrD [OF assms(1) [unfolded exposure_by_position_def] c])
      (use assms(2) in \<open>auto simp: wf_ledger_def wf_order_def\<close>)
  have "k \<in> fst ` set ex \<longleftrightarrow> k \<in> exposed s" for k
  proof -
    have "k \<in> fst ` set ex \<longleftrightarrow> dict_get ex k \<noteq> None"
      "k \<in> fst ` set (open_positions s) \<longleftrightarrow> dict_get (open_positions s) k \<noteq> None"
      by (simp_all only: map_of_eq_None_iff not_not)
    moreover have "dict_get ?cost k \<noteq> None \<longleftrightarrow> dict_get (open_positions s) k \<noteq> None"
      by (simp only: g option.map_disc_iff)
    ultimately show ?thesis using all [of k] unfolding exposed_def by (simp only: Un_iff)
  qed
  then have "fst ` set ex = exposed s" by blast
  moreover have "dict_amount ?cost k = held_cost k (open_positions s)"
    unfolding dict_amount_def g held_cost_def by (simp split: option.split)
  ultimately show ?thesis
    using all [of k] by (simp only: exposure_at_def)
qed

lemma sum_money_InrD:
  assumes "sum_money ms cur = Inr m" and "cur_ok cur" and "\<forall>x \<in> set ms. wf_money x \<and> currency x = cur"
  shows "wf_money m \<and> currency m = cur \<and> amount m = sum_list (map amount ms)"
proof -
  have "rfold money_add z xs = Inr m \<Longrightarrow> wf_money z \<Longrightarrow> currency z = cur \<Longrightarrow>
      \<forall>x \<in> set xs. wf_money x \<and> currency x = cur \<Longrightarrow>
      wf_money m \<and> currency m = cur \<and> amount m = amount z + sum_list (map amount xs)" for z xs
  proof (induction xs arbitrary: z)
    case Nil
    then show ?case by simp
  next
    case (Cons x xs)
    obtain z' where z': "money_add z x = Inr z'" "rfold money_add z' xs = Inr m"
      using Cons.prems(1) by (auto simp: rbind_eq_Inr)
    have "wf_money z' \<and> currency z' = cur \<and> amount z' = amount z + amount x"
      using money_add_InrD [OF z'(1)] Cons.prems by auto
    then show ?case using Cons.IH [OF z'(2)] Cons.prems(4) by (auto simp: algebra_simps)
  qed
  from this [of "\<lparr>amount = 0, currency = cur\<rparr>" ms] show ?thesis
    using assms by (simp add: sum_money_def dec6_def)
qed

text \<open>The exposure of the positions whose registered scope satisfies a predicate.\<close>

definition scoped_total ::
    "ledger_state \<Rightarrow> (position_key, risk_scope) dict \<Rightarrow> (risk_scope \<Rightarrow> bool) \<Rightarrow> rat" where
  "scoped_total s scopes P =
     (\<Sum>k \<in> {k \<in> exposed s. \<exists>x. dict_get scopes k = Some x \<and> P x}. exposure_at s k)"

definition total_exposure :: "ledger_state \<Rightarrow> rat" where
  "total_exposure s = (\<Sum>k \<in> exposed s. exposure_at s k)"

lemma dict_sum_filter:
  assumes "dict_ok d"
  shows "sum_list (map amount (map snd (filter Q d))) =
    (\<Sum>k \<in> {k \<in> fst ` set d. \<exists>m. dict_get d k = Some m \<and> Q (k, m)}. dict_amount d k)"
proof -
  have ok: "distinct (filter Q d)" "inj_on fst (set (filter Q d))"
    using assms by (auto simp: dict_ok_def distinct_map inj_on_def)
  have "sum_list (map amount (map snd (filter Q d))) = (\<Sum>x \<in> set (filter Q d). amount (snd x))"
    using ok(1) by (simp add: sum_list_distinct_conv_sum_set comp_def)
  also have "\<dots> = (\<Sum>x \<in> set (filter Q d). dict_amount d (fst x))"
    using assms by (intro sum.cong) (auto simp: dict_amount_def dict_entry_get)
  also have "\<dots> = (\<Sum>k \<in> fst ` set (filter Q d). dict_amount d k)"
    using ok(2) by (simp add: sum.reindex)
  also have "fst ` set (filter Q d) = {k \<in> fst ` set d. \<exists>m. dict_get d k = Some m \<and> Q (k, m)}"
    using assms by (force simp: dict_entry_get [symmetric])
  finally show ?thesis .
qed

lemma scoped_exposure_InrD:
  assumes "scoped_exposure (ls_currency s) scopes ex P = Inr m" and "exposure_by_position s = Inr ex"
    and "wf_ledger s"
  shows "wf_money m \<and> currency m = ls_currency s \<and> amount m = scoped_total s scopes P"
proof -
  let ?Q = "\<lambda>(key, m). case dict_get scopes key of None \<Rightarrow> False | Some scope \<Rightarrow> P scope"
  have ex: "cash_dict (ls_currency s) ex" "fst ` set ex = exposed s" "dict_amount ex k = exposure_at s k" for k
    using exposure_by_position_InrD [OF assms(2,3)] by auto
  have "wf_money m \<and> currency m = ls_currency s
      \<and> amount m = sum_list (map amount (map snd (filter ?Q ex)))"
    by (rule sum_money_InrD [OF assms(1) [unfolded scoped_exposure_def]])
      (use ex(1) assms(3) in \<open>auto simp: cash_dict_def wf_ledger_def\<close>)
  moreover have "{k \<in> fst ` set ex. \<exists>m. dict_get ex k = Some m \<and> ?Q (k, m)}
      = {k \<in> exposed s. \<exists>x. dict_get scopes k = Some x \<and> P x}"
    using ex(1,2) by (force simp: cash_dict_def dict_entry_get split: option.splits)
  moreover have "dict_ok ex" using ex(1) by (simp add: cash_dict_def)
  ultimately show ?thesis
    using dict_sum_filter [of ex ?Q] by (simp only: ex(3) scoped_total_def)
qed

lemma total_exposure_InrD:
  assumes "sum_money (map snd ex) (ls_currency s) = Inr m" and "exposure_by_position s = Inr ex"
    and "wf_ledger s"
  shows "wf_money m \<and> currency m = ls_currency s \<and> amount m = total_exposure s"
proof -
  have ex: "cash_dict (ls_currency s) ex" "fst ` set ex = exposed s" "dict_amount ex k = exposure_at s k" for k
    using exposure_by_position_InrD [OF assms(2,3)] by auto
  have "wf_money m \<and> currency m = ls_currency s \<and> amount m = sum_list (map amount (map snd ex))"
    by (rule sum_money_InrD [OF assms(1)])
      (use ex(1) assms(3) in \<open>auto simp: cash_dict_def wf_ledger_def\<close>)
  moreover have "{k \<in> fst ` set ex. \<exists>m. dict_get ex k = Some m} = exposed s"
    using ex(1,2) by (force simp: cash_dict_def dict_entry_get)
  ultimately show ?thesis
    using ex(1,3) dict_sum_filter [of ex "\<lambda>_. True"] by (simp add: cash_dict_def total_exposure_def)
qed

section \<open>The gate\<close>

lemma portfolio_decision_init_InrD:
  "portfolio_decision_init d = Inr d' \<Longrightarrow>
     d' = d \<and> 0 \<le> amount (pr_equity d) \<and> 0 \<le> amount (pr_high_water d)"
  by (auto simp: portfolio_decision_init_def Let_def is_negative_def split: if_splits)

lemma judge_portfolio_InrD:
  assumes "judge_portfolio policy complaint missing duplicate d = Inr d'"
  shows "(pr_status d' = RISK_APPROVED \<longleftrightarrow>
      complaint = None \<and> missing = [] \<and> \<not> duplicate \<and> limit_breach policy d = None)
    \<and> 0 \<le> amount (pr_equity d) \<and> 0 \<le> amount (pr_high_water d)
    \<and> (\<exists>st reason detail keys. d' = d\<lparr>pr_status := st, pr_reason := reason, pr_detail := detail,
        pr_missing := keys\<rparr>)
    \<and> (\<forall>m. complaint = Some m \<longrightarrow> pr_status d' = RISK_REJECTED \<and> pr_reason d' = Some (valuation_reason m))"
  using assms
  by (auto simp: judge_portfolio_def Let_def split: option.splits if_splits
      dest!: portfolio_decision_init_InrD)

lemma limit_breach_None:
  "limit_breach policy d = None \<longleftrightarrow>
     amount (pr_daily_loss d) < amount (pp_maximum_daily_loss policy)
     \<and> amount (pr_drawdown d) < amount (pp_maximum_drawdown policy)
     \<and> pr_open_after d \<le> pp_maximum_open_positions policy
     \<and> amount (pr_total_after d) \<le> amount (pp_maximum_total policy)
     \<and> amount (pr_event_after d) \<le> amount (pp_maximum_event policy)
     \<and> amount (pr_city_date_after d) \<le> amount (pp_maximum_city_date policy)
     \<and> (\<forall>c \<in> set (pr_correlation d). amount (ce_after c) \<le> amount (pp_maximum_correlation policy))"
proof -
  let ?over = "filter (\<lambda>c. amount (pp_maximum_correlation policy) < amount (ce_after c)) (pr_correlation d)"
  have e: "?over = [] \<longleftrightarrow>
      (\<forall>c \<in> set (pr_correlation d). amount (ce_after c) \<le> amount (pp_maximum_correlation policy))"
    by (auto simp: filter_empty_conv not_less)
  show ?thesis unfolding e [symmetric] limit_breach_def by (cases ?over) (simp_all add: not_less not_le)
qed

lemma money_of_max:
  assumes "money_of (PyDecimal (max 0 x)) cur = Inr m" and "on_grid x"
  shows "amount m = max 0 x"
  using assms by (auto simp: money_of_def mk_money_def Let_def result_simps quantize6_grid max_def
      split: if_splits)

lemma missing_keys_Nil:
  "missing_keys scopes ex = [] \<longleftrightarrow> (\<forall>k \<in> fst ` set ex. dict_get scopes k \<noteq> None)"
proof -
  have "sort xs = [] \<longleftrightarrow> xs = []" for xs :: "string list"
    by (metis length_0_conv length_sort)
  then have "missing_keys scopes ex = [] \<longleftrightarrow> filter (\<lambda>(key, m). dict_get scopes key = None) ex = []"
    unfolding missing_keys_def by (simp only: list.map_disc_iff)
  also have "\<dots> \<longleftrightarrow> (\<forall>x \<in> set ex. dict_get scopes (fst x) \<noteq> None)"
    by (simp only: filter_empty_conv case_prod_beta)
  finally show ?thesis by (simp only: ball_simps)
qed

lemma correlation_items:
  assumes "rmap (correlation_item (ls_currency s) scopes ex cash) gs = Inr cs"
    and "exposure_by_position s = Inr ex" and "wf_ledger s" and "wf_money cash"
  shows "(\<forall>c \<in> set cs. amount (ce_after c) \<le> x) \<longleftrightarrow>
    (\<forall>g \<in> set gs. scoped_total s scopes (\<lambda>y. g \<in> set (all_correlation_groups y)) + amount cash \<le> x)"
  using assms(1)
proof (induction gs arbitrary: cs)
  case Nil
  then show ?case by simp
next
  case (Cons g gs)
  obtain c cs' where c: "correlation_item (ls_currency s) scopes ex cash g = Inr c"
    "rmap (correlation_item (ls_currency s) scopes ex cash) gs = Inr cs'" "cs = c # cs'"
    using Cons.prems by (auto simp: rbind_eq_Inr)
  obtain before after where b:
    "scoped_exposure (ls_currency s) scopes ex (\<lambda>y. g \<in> set (all_correlation_groups y)) = Inr before"
    "money_add before cash = Inr after" "ce_after c = after"
    using c(1) by (auto simp: correlation_item_def correlation_exposure_init_def rbind_eq_Inr
        split: if_splits)
  have "amount (ce_after c) =
      scoped_total s scopes (\<lambda>y. g \<in> set (all_correlation_groups y)) + amount cash"
    using scoped_exposure_InrD [OF b(1) assms(2,3)] money_add_InrD [OF b(2) _ assms(4)] b(3) by auto
  then show ?case using Cons.IH [OF c(2)] c(3) by simp
qed

lemma result_elims:
  "rbind m f = Inr y \<Longrightarrow> (\<And>x. m = Inr x \<Longrightarrow> f x = Inr y \<Longrightarrow> P) \<Longrightarrow> P"
  "(if c then Inl e else n) = Inr z \<Longrightarrow> (\<not> c \<Longrightarrow> n = Inr z \<Longrightarrow> P) \<Longrightarrow> P"
  "(case w of (a, b) \<Rightarrow> g a b) = Inr v \<Longrightarrow> (\<And>a b. w = (a, b) \<Longrightarrow> g a b = Inr v \<Longrightarrow> P) \<Longrightarrow> P"
  by (auto simp: rbind_eq_Inr split: if_splits prod.splits)

text \<open>Every total is built by the constructor of \<^verbatim>\<open>Money\<close>.\<close>

lemma money_results_wf:
  "money_add m n = Inr r \<Longrightarrow> wf_money r" "money_sub m n = Inr r \<Longrightarrow> wf_money r"
  "money_zero cur = Inr r \<Longrightarrow> wf_money r" "money_of v cur = Inr r \<Longrightarrow> wf_money r"
  by (auto simp: money_add_def money_sub_def money_zero_def money_of_def rbind_eq_Inr intro: mk_money_wf)

lemma realized_pnl_today_wf:
  assumes "realized_pnl_today sha fp tz es cur evaluated_at name = Inr r"
  shows "wf_money r"
proof -
  obtain zn where zn: "tz name = Some zn"
    using assms by (cases "tz name") (simp_all add: realized_pnl_today_def)
  obtain s z acc where l: "rfold (realize_event sha fp (loss_day zn evaluated_at) evaluated_at) (s, z) es = Inr acc"
    "money_zero cur = Inr z" "snd acc = r"
    using assms unfolding realized_pnl_today_def zn option.case
    by - (elim result_elims, rule that, assumption, assumption, simp)
  have "wf_money (snd acc)"
    by (rule rfold_invariant [OF l(1)])
      (use l(2) money_results_wf(3) in \<open>auto simp: realize_event_def rbind_eq_Inr money_results_wf split: if_splits\<close>)
  then show ?thesis by (simp add: l(3))
qed

lemma unrealized_pnl_wf: "unrealized_pnl s v = Inr r \<Longrightarrow> wf_money r"
  by (auto simp: unrealized_pnl_def rbind_eq_Inr add_unrealized_def money_results_wf
      split: option.splits elim!: rfold_invariant)

lemma high_water_mark_wf: "high_water_mark es m t = Inr r \<Longrightarrow> wf_money r"
  by (auto simp: high_water_mark_def rbind_eq_Inr money_results_wf split: prod.splits option.splits if_splits)

text \<open>All the figures of a decision that was returned.\<close>

lemma evaluate_portfolio_risk_InrE:
  assumes "evaluate_portfolio_risk sha fp tz s es scope cash v policy t = Inr d"
  obtains scopes ex total_before event_before city_before complaint realized unrealized equity high daily d0
    where "judge_portfolio policy complaint (missing_keys scopes ex)
         (rs_position_key scope \<in> set (dict_keys ex)) d0 = Inr d"
      "check_proposal s cash policy t = Inr ()" "risk_scopes es = Inr scopes"
      "exposure_by_position s = Inr ex"
      "sum_money (map snd ex) (ls_currency s) = Inr total_before"
      "money_add total_before cash = Inr (pr_total_after d0)"
      "scoped_exposure (ls_currency s) scopes ex (\<lambda>x. rs_event_id x = rs_event_id scope) = Inr event_before"
      "money_add event_before cash = Inr (pr_event_after d0)"
      "scoped_exposure (ls_currency s) scopes ex (\<lambda>x. city_date_key x = city_date_key scope) = Inr city_before"
      "money_add city_before cash = Inr (pr_city_date_after d0)"
      "rmap (correlation_item (ls_currency s) scopes ex cash) (all_correlation_groups scope)
         = Inr (pr_correlation d0)"
      "validate_valuation s v t policy = Inr complaint"
      "realized_pnl_today sha fp tz es (ls_currency s) t (pp_loss_timezone policy) = Inr realized"
      "equity_figures s es v t complaint = Inr (unrealized, equity, high)"
      "money_add realized unrealized = Inr daily"
      "money_of (PyDecimal (max 0 (dec_neg (amount daily)))) (ls_currency s) = Inr (pr_daily_loss d0)"
      "money_of (PyDecimal (max 0 (dec_sub (amount high) (amount equity)))) (ls_currency s)
         = Inr (pr_drawdown d0)"
      "pr_equity d0 = equity" "pr_high_water d0 = high"
      "pr_open_after d0 = int (length ex) + (if rs_position_key scope \<in> set (dict_keys ex) then 0 else 1)"
  using assms unfolding evaluate_portfolio_risk_def Let_def
  apply -
  apply (elim result_elims)
  apply (rule that, assumption)
  apply simp_all
  done

text \<open>C13. The portfolio gate approves exactly the proposals inside every limit: the valuation is
  current and reconciles, every exposed position has a registered scope and the proposed one has no
  exposure yet, the day's loss and the drawdown from the high-water mark stay below their limits, and
  with the proposed cash the number of positions, the total exposure and the exposure of the event,
  of the city and date and of each correlation group stay within theirs. Exposure is the cost basis
  of the open positions plus the reserved cash of the active buys.\<close>

theorem portfolio_gate_exact:
  assumes "evaluate_portfolio_risk sha fp tz s es scope cash v policy t = Inr d"
    and "wf_ledger s" and "wf_money cash" and "wf_valuation v"
    and "0 < amount (pp_maximum_daily_loss policy)" and "0 < amount (pp_maximum_drawdown policy)"
  shows "\<exists>scopes. risk_scopes es = Inr scopes \<and>
    (pr_status d = RISK_APPROVED \<longleftrightarrow>
      validate_valuation s v t policy = Inr None
      \<and> exposed s \<subseteq> dom (dict_get scopes) \<and> rs_position_key scope \<notin> exposed s
      \<and> (\<exists>realized unrealized high.
           realized_pnl_today sha fp tz es (ls_currency s) t (pp_loss_timezone policy) = Inr realized
           \<and> unrealized_pnl s v = Inr unrealized \<and> high_water_mark es (pf_equity v) t = Inr high
           \<and> - (amount realized + amount unrealized) < amount (pp_maximum_daily_loss policy)
           \<and> amount high - amount (pf_equity v) < amount (pp_maximum_drawdown policy))
      \<and> int (card (exposed s)) + 1 \<le> pp_maximum_open_positions policy
      \<and> total_exposure s + amount cash \<le> amount (pp_maximum_total policy)
      \<and> scoped_total s scopes (\<lambda>x. rs_event_id x = rs_event_id scope) + amount cash
          \<le> amount (pp_maximum_event policy)
      \<and> scoped_total s scopes (\<lambda>x. city_date_key x = city_date_key scope) + amount cash
          \<le> amount (pp_maximum_city_date policy)
      \<and> (\<forall>g \<in> set (all_correlation_groups scope).
           scoped_total s scopes (\<lambda>x. g \<in> set (all_correlation_groups x)) + amount cash
           \<le> amount (pp_maximum_correlation policy)))"
  using assms(1)
proof (cases rule: evaluate_portfolio_risk_InrE)
  case (1 scopes ex total_before event_before city_before complaint realized unrealized equity high daily d0)
  note j = judge_portfolio_InrD [OF 1(1)]
  have ex: "cash_dict (ls_currency s) ex" "fst ` set ex = exposed s"
    using exposure_by_position_InrD [OF 1(4) assms(2)] by auto
  have count: "length ex = card (exposed s)"
    using ex distinct_card [of "map fst ex"] by (simp add: cash_dict_def dict_ok_def)
  have missing: "missing_keys scopes ex = [] \<longleftrightarrow> exposed s \<subseteq> dom (dict_get scopes)"
    unfolding missing_keys_Nil ex(2) dom_def by blast
  have total: "amount (pr_total_after d0) = total_exposure s + amount cash"
    using total_exposure_InrD [OF 1(5,4) assms(2)] money_add_InrD [OF 1(6) _ assms(3)] by simp
  have event: "amount (pr_event_after d0) =
      scoped_total s scopes (\<lambda>x. rs_event_id x = rs_event_id scope) + amount cash"
    using scoped_exposure_InrD [OF 1(7,4) assms(2)] money_add_InrD [OF 1(8) _ assms(3)] by simp
  have city: "amount (pr_city_date_after d0) =
      scoped_total s scopes (\<lambda>x. city_date_key x = city_date_key scope) + amount cash"
    using scoped_exposure_InrD [OF 1(9,4) assms(2)] money_add_InrD [OF 1(10) _ assms(3)] by simp
  note groups = correlation_items [OF 1(11,4) assms(2,3)]
  show ?thesis
  proof (cases complaint)
    case (Some m)
    then show ?thesis using j 1(3,12) by auto
  next
    case None
    have figures: "unrealized_pnl s v = Inr unrealized" "high_water_mark es (pf_equity v) t = Inr high"
      "equity = pf_equity v"
      using 1(14) None by (auto simp: equity_figures_def rbind_eq_Inr)
    have daily: "amount daily = amount realized + amount unrealized" "wf_money daily"
      using money_add_InrD [OF 1(15) realized_pnl_today_wf [OF 1(13)] unrealized_pnl_wf [OF figures(1)]]
      by auto
    have "dec_neg (amount daily) = - amount daily"
      unfolding dec_neg_def by (rule ctx_grid) (use daily(2) in \<open>auto simp: wf_money_def dec6_def\<close>)
    then have loss: "amount (pr_daily_loss d0) = max 0 (- (amount realized + amount unrealized))"
      using money_of_max [OF 1(16)] on_grid_minus [of "amount daily"] daily by (simp add: wf_money_def dec6_def)
    have w: "wf_money high" "wf_money equity" "0 \<le> amount high" "0 \<le> amount equity"
      using high_water_mark_wf [OF figures(2)] assms(4) figures(3) j 1(18,19)
      by (auto simp: wf_valuation_def)
    then have "on_grid (amount high - amount equity)" "\<bar>amount high - amount equity\<bar> \<le> 10 ^ 22"
      by (auto simp: wf_money_def dec6_def)
    then have "amount (pr_drawdown d0) = max 0 (amount high - amount equity)"
      using money_of_max [OF 1(17)] by (simp add: dec_sub_def ctx_grid)
    then show ?thesis
      using j 1(3,12,13,20) None missing total event city groups loss figures count ex(2) assms(5,6)
      by (auto simp: limit_breach_None)
  qed
qed

section \<open>Committed cash\<close>

lemma open_cost_sum:
  assumes "dict_ok d" and "fst ` set d \<subseteq> K" and "finite K"
  shows "(\<Sum>k \<in> K. held_cost k d) = dict_sum (\<lambda>_ p. amount (pos_cost_basis p)) d"
proof -
  have "(\<Sum>k \<in> K. held_cost k d) = (\<Sum>k \<in> fst ` set d. held_cost k d)"
    by (rule sum.mono_neutral_right)
      (use assms(2,3) in \<open>auto simp: held_cost_def split: option.splits dest!: map_of_SomeD, force\<close>)
  also have "\<dots> = (\<Sum>x \<in> set d. held_cost (fst x) d)"
    using assms(1) by (simp add: sum.reindex dict_ok_def distinct_map)
  also have "\<dots> = (\<Sum>x \<in> set d. amount (pos_cost_basis (snd x)))"
    using assms(1) by (intro sum.cong) (auto simp: held_cost_def dict_entry_get)
  also have "\<dots> = dict_sum (\<lambda>_ p. amount (pos_cost_basis p)) d"
    using assms(1) by (simp add: dict_sum_def sum_list_distinct_conv_sum_set dict_ok_def distinct_map
        case_prod_beta)
  finally show ?thesis .
qed

lemma buy_sum:
  assumes "order_key ` {ord \<in> snd ` set os. active_buy ord} \<subseteq> K" and "finite K"
    and "\<forall>(k, ord) \<in> set os. order_ok cur k ord"
  shows "(\<Sum>k \<in> K. sum_list (map (buy_at k) os)) = dict_sum (\<lambda>_. buy_reserved) os"
  using assms
proof (induction os)
  case Nil
  then show ?case by simp
next
  case (Cons x os)
  obtain i ord where x: "x = (i, ord)" by force
  have "(\<Sum>k \<in> K. buy_at k (i, ord)) = buy_reserved ord"
  proof (cases "active_buy ord")
    case True
    then have "order_key ord \<in> K" using Cons.prems(1) x by auto
    then show ?thesis
      using True Cons.prems(2) by (simp add: buy_at_def buy_reserved_def active_buy_def sum.delta)
  next
    case False
    have "order_ok cur i ord" using Cons.prems(3) x by simp
    then have "is_terminal (oa_state ord) \<longrightarrow> amount (oa_reserved_cash ord) = 0"
      unfolding order_ok_def by blast
    then have "buy_reserved ord = 0" using False unfolding buy_reserved_def active_buy_def by auto
    then show ?thesis using False by (simp add: buy_at_def)
  qed
  moreover have "(\<Sum>k \<in> K. sum_list (map (buy_at k) os)) = dict_sum (\<lambda>_. buy_reserved) os"
    using Cons.prems by (intro Cons.IH) auto
  ultimately show ?case by (simp add: x sum.distrib)
qed

lemma total_exposure_committed:
  assumes "replay sha fp cur es = Inr s" and "list_all wf_event es"
  shows "total_exposure s =
    dict_sum (\<lambda>_ p. amount (pos_cost_basis p)) (open_positions s) + amount (ls_reserved_cash s)"
proof -
  have i: "wf_ledger s" "ledger_ok s" using replay_inv [OF assms] by (simp_all add: ledger_inv_def)
  have f: "finite (exposed s)" by (simp add: exposed_def)
  have "(\<Sum>k \<in> exposed s. held_cost k (open_positions s))
      = dict_sum (\<lambda>_ p. amount (pos_cost_basis p)) (open_positions s)"
    using i(1) f by (intro open_cost_sum open_positions_ok) (auto simp: wf_ledger_def exposed_def)
  moreover have "(\<Sum>k \<in> exposed s. sum_list (map (buy_at k) (ls_orders s)))
      = dict_sum (\<lambda>_. buy_reserved) (ls_orders s)"
    using i(2) f by (intro buy_sum) (auto simp: exposed_def ledger_ok_def)
  moreover have "amount (ls_reserved_cash s) = dict_sum (\<lambda>_. buy_reserved) (ls_orders s)"
    using i(2) by (simp add: ledger_ok_def)
  ultimately show ?thesis
    by (simp add: total_exposure_def exposure_at_def sum.distrib)
qed

text \<open>C22. The exposure the total cap limits is all the committed cash: on every ledger a replay
  returns, what \<^verbatim>\<open>exposure_by_position\<close> computes has one entry per exposed position, its cost
  basis plus what the active buys on it reserve, and the entries sum to the cost basis of the open
  positions plus the reserved cash of the ledger.\<close>

theorem exposure_is_committed_cash:
  assumes "replay sha fp cur es = Inr s" and "list_all wf_event es"
    and "exposure_by_position s = Inr ex" and "sum_money (map snd ex) (ls_currency s) = Inr m"
  shows "amount m
      = dict_sum (\<lambda>_ p. amount (pos_cost_basis p)) (open_positions s) + amount (ls_reserved_cash s)
    \<and> distinct (map fst ex)
    \<and> (\<forall>key x. (key, x) \<in> set ex \<longrightarrow> amount x =
        held_cost key (open_positions s) + sum_list (map (buy_at key) (ls_orders s)))"
proof -
  have w: "wf_ledger s" using replay_inv [OF assms(1,2)] by (simp add: ledger_inv_def)
  have ex: "cash_dict (ls_currency s) ex" "dict_amount ex k = exposure_at s k" for k
    using exposure_by_position_InrD [OF assms(3) w] by auto
  then have keys: "dict_ok ex" by (simp add: cash_dict_def)
  then have "amount x = exposure_at s key" if "(key, x) \<in> set ex" for key x
    using that ex(2) [of key] by (simp add: dict_entry_get dict_amount_def)
  then show ?thesis
    using keys total_exposure_InrD [OF assms(4,3) w] total_exposure_committed [OF assms(1,2)]
    by (simp add: dict_ok_def exposure_at_def)
qed

section \<open>The profit of a day\<close>

definition realized :: "ledger_state \<Rightarrow> rat" where
  "realized s = dict_sum (\<lambda>_ p. amount (pos_realized_pnl p)) (ls_positions s)"

lemma realized_total_InrD:
  assumes "realized_total s = Inr m" and "wf_ledger s"
  shows "amount m = realized s \<and> wf_money m"
proof -
  have "wf_money m \<and> currency m = ls_currency s
      \<and> amount m = sum_list (map amount (map (\<lambda>(key, p). pos_realized_pnl p) (ls_positions s)))"
    by (rule sum_money_InrD [OF assms(1) [unfolded realized_total_def]])
      (use assms(2) in \<open>auto simp: wf_ledger_def wf_position_def\<close>)
  then show ?thesis by (simp add: realized_def dict_sum_def comp_def case_prod_unfold)
qed

definition in_day :: "int \<times> int \<Rightarrow> datetime \<Rightarrow> ledger_event \<Rightarrow> bool" where
  "in_day day t e \<longleftrightarrow> dt_micros (ev_occurred_at e) \<le> dt_micros t
     \<and> fst day \<le> dt_micros (ev_occurred_at e) \<and> dt_micros (ev_occurred_at e) \<le> snd day"

lemma realize_event_InrD:
  assumes "realize_event sha fp day t (s, z) e = Inr (s', z')" and "ledger_inv s" and "wf_event e"
    and "wf_money z"
  shows "apply_event sha fp s e = Inr s' \<and> ledger_inv s' \<and> wf_money z'
    \<and> amount z' = amount z + (if in_day day t e then realized s' - realized s else 0)"
proof -
  obtain before after where r: "realized_total s = Inr before" "apply_event sha fp s e = Inr s'"
    "realized_total s' = Inr after"
    "if in_day day t e then rbind (money_sub after before) (\<lambda>c. money_add z c) = Inr z' else z' = z"
    using assms(1) by (auto simp: realize_event_def in_day_def rbind_eq_Inr split: if_splits)
  have i: "ledger_inv s'" using r(2) assms(2,3) by (rule apply_event_inv)
  then have m: "amount before = realized s" "wf_money before" "amount after = realized s'" "wf_money after"
    using realized_total_InrD [OF r(1)] realized_total_InrD [OF r(3)] assms(2) by (auto simp: ledger_inv_def)
  show ?thesis
  proof (cases "in_day day t e")
    case False
    with r i assms(4) show ?thesis by simp
  next
    case True
    then obtain c where c: "money_sub after before = Inr c" "money_add z c = Inr z'"
      using r(4) by (auto simp: rbind_eq_Inr)
    show ?thesis
      using True r(2) i money_sub_InrD [OF c(1) m(4,2)] money_add_InrD [OF c(2) assms(4)] m by auto
  qed
qed

lemma realize_run:
  assumes "rfold (realize_event sha fp day t) (s, z) es = Inr (s', z')" and "ledger_inv s"
    and "list_all wf_event es" and "wf_money z"
  shows "rfold (apply_event sha fp) s es = Inr s' \<and> ledger_inv s' \<and> wf_money z'
    \<and> (list_all (in_day day t) es \<longrightarrow> amount z' = amount z + (realized s' - realized s))
    \<and> (list_all (\<lambda>e. \<not> in_day day t e) es \<longrightarrow> amount z' = amount z)"
  using assms
proof (induction es arbitrary: s z)
  case Nil
  then show ?case by simp
next
  case (Cons e es)
  obtain u y where u: "realize_event sha fp day t (s, z) e = Inr (u, y)"
    "rfold (realize_event sha fp day t) (u, y) es = Inr (s', z')"
    using Cons.prems(1) by (auto simp: rbind_eq_Inr)
  note step = realize_event_InrD [OF u(1) Cons.prems(2) _ Cons.prems(4)]
  have "wf_event e" "list_all wf_event es" using Cons.prems(3) by auto
  then show ?case
    using step Cons.IH [OF u(2)] by (auto simp: rbind_eq_Inr)
qed

lemma sorted_dropWhile:
  assumes "sorted (map f xs)" and "x \<in> set (dropWhile P xs)" and "\<And>y z. f y \<le> f z \<Longrightarrow> P z \<Longrightarrow> P y"
  shows "\<not> P x"
  using assms by (induction xs) (auto split: if_splits)

lemma money_zero_InrD:
  assumes "money_zero cur = Inr m"
  shows "wf_money m" and "amount m = 0"
  using assms by (auto intro: money_results_wf simp: money_zero_def mk_money_def Let_def result_simps quantize6_grid)

lemma realize_trace:
  assumes "rfold (realize_event sha fp day t) (s, z) es = Inr (s', z')" and "ledger_inv s"
    and "list_all wf_event es" and "wf_money z"
  shows "\<exists>ss. length ss = Suc (length es) \<and> ss ! 0 = s
    \<and> (\<forall>i \<le> length es. rfold (apply_event sha fp) s (take i es) = Inr (ss ! i))
    \<and> amount z' = amount z + (\<Sum>i < length es.
        if in_day day t (es ! i) then realized (ss ! Suc i) - realized (ss ! i) else 0)"
  using assms
proof (induction es arbitrary: s z)
  case Nil
  then show ?case by (intro exI [of _ "[s]"]) simp
next
  case (Cons e es)
  obtain u y where u: "realize_event sha fp day t (s, z) e = Inr (u, y)"
    "rfold (realize_event sha fp day t) (u, y) es = Inr (s', z')"
    using Cons.prems(1) by (auto simp: rbind_eq_Inr)
  have e: "wf_event e" "list_all wf_event es" using Cons.prems(3) by auto
  note step = realize_event_InrD [OF u(1) Cons.prems(2) e(1) Cons.prems(4)]
  obtain ss where ss: "length ss = Suc (length es)" "ss ! 0 = u"
    "\<forall>i \<le> length es. rfold (apply_event sha fp) u (take i es) = Inr (ss ! i)"
    "amount z' = amount y + (\<Sum>i < length es.
        if in_day day t (es ! i) then realized (ss ! Suc i) - realized (ss ! i) else 0)"
    using Cons.IH [OF u(2) _ e(2)] step by blast
  have "rfold (apply_event sha fp) s (take i (e # es)) = Inr ((s # ss) ! i)" if "i \<le> length (e # es)" for i
    using step ss(3) that by (cases i) simp_all
  moreover have "amount z' = amount z + (\<Sum>i < length (e # es).
      if in_day day t ((e # es) ! i) then realized ((s # ss) ! Suc i) - realized ((s # ss) ! i) else 0)"
    using step ss(2,4) by (simp add: sum.lessThan_Suc_shift del: sum.lessThan_Suc cong: if_cong)
  ultimately show ?case using ss(1) by (intro exI [of _ "s # ss"]) simp
qed

text \<open>On events in the order of time the changes of the day telescope.\<close>

lemma realized_sorted_difference:
  assumes "realized_pnl_today sha fp tz es cur t name = Inr r" and "tz name = Some z"
    and "list_all wf_event es" and "sorted (map (\<lambda>e. dt_micros (ev_occurred_at e)) es)"
    and "fst (loss_day z t) \<le> dt_micros t" and "dt_micros t \<le> snd (loss_day z t)"
  shows "\<exists>s0 s1. replay sha fp cur (takeWhile (\<lambda>e. dt_micros (ev_occurred_at e) < fst (loss_day z t)) es) = Inr s0
    \<and> replay sha fp cur (takeWhile (\<lambda>e. dt_micros (ev_occurred_at e) \<le> dt_micros t) es) = Inr s1
    \<and> amount r = realized s1 - realized s0"
proof -
  let ?at = "\<lambda>e. dt_micros (ev_occurred_at e)" and ?day = "loss_day z t"
  define early where "early = takeWhile (\<lambda>e. ?at e < fst ?day) es"
  define rest where "rest = dropWhile (\<lambda>e. ?at e < fst ?day) es"
  define today where "today = takeWhile (\<lambda>e. ?at e \<le> dt_micros t) rest"
  define late where "late = dropWhile (\<lambda>e. ?at e \<le> dt_micros t) rest"
  have es: "es = early @ today @ late" "rest = today @ late"
    by (simp_all add: early_def today_def late_def rest_def)
  have sorted: "sorted (map ?at rest)"
    using assms(4) unfolding rest_def by (metis map_append sorted_append takeWhile_dropWhile_id)
  have e: "list_all (\<lambda>e. \<not> in_day ?day t e) early"
    unfolding early_def by (auto simp: list_all_iff in_day_def dest: set_takeWhileD)
  have lower: "fst ?day \<le> ?at e" if "e \<in> set rest" for e
    using sorted_dropWhile [OF assms(4) that [unfolded rest_def]] by auto
  then have d: "list_all (in_day ?day t) today"
    using assms(6) es(2) unfolding today_def by (auto simp: list_all_iff in_day_def dest: set_takeWhileD)
  have "\<not> ?at e \<le> dt_micros t" if "e \<in> set late" for e
    by (rule sorted_dropWhile [OF sorted that [unfolded late_def]]) auto
  then have l: "list_all (\<lambda>e. \<not> in_day ?day t e) late" by (auto simp: list_all_iff in_day_def)
  have upto: "takeWhile (\<lambda>e. ?at e \<le> dt_micros t) es = early @ today"
  proof -
    have "takeWhile (\<lambda>e. ?at e \<le> dt_micros t) (early @ rest) = early @ takeWhile (\<lambda>e. ?at e \<le> dt_micros t) rest"
      using assms(5) unfolding early_def by (intro takeWhile_append2) (auto dest: set_takeWhileD)
    then show ?thesis using es unfolding today_def by metis
  qed
  obtain s zero acc where run: "ledger_empty cur = Inr s" "money_zero cur = Inr zero"
    "rfold (realize_event sha fp ?day t) (s, zero) es = Inr acc" "snd acc = r"
    using assms(1,2) unfolding realized_pnl_today_def
    by (simp only: option.case) (elim result_elims, rule that, assumption, assumption, assumption, simp)
  obtain s2 where acc: "acc = (s2, r)" using run(4) by (cases acc) simp
  obtain s0 z0 s1 z1 where steps: "rfold (realize_event sha fp ?day t) (s, zero) early = Inr (s0, z0)"
    "rfold (realize_event sha fp ?day t) (s0, z0) today = Inr (s1, z1)"
    "rfold (realize_event sha fp ?day t) (s1, z1) late = Inr (s2, r)"
    using run(3) unfolding es(1) acc by (auto simp: rfold_append rbind_eq_Inr)
  have w: "list_all wf_event early" "list_all wf_event today" "list_all wf_event late"
    using assms(3) unfolding es(1) by auto
  have zero: "wf_money zero" "amount zero = 0" by (rule money_zero_InrD [OF run(2)])+
  note a = realize_run [OF steps(1) _ w(1) zero(1)]
  have i: "ledger_inv s" using ledger_empty_InrD [OF run(1)] by simp
  note b = realize_run [OF steps(2) _ w(2)] and c = realize_run [OF steps(3) _ w(3)]
  have "replay sha fp cur early = Inr s0" "replay sha fp cur (early @ today) = Inr s1"
    using a b i run(1) by (auto simp: replay_def rfold_append)
  moreover have "amount r = realized s1 - realized s0"
    using a b c i e d l zero(2) by auto
  ultimately show ?thesis unfolding upto early_def [symmetric] by blast
qed

text \<open>C23. The realized profit of the day is exact, in whatever order the events were recorded: with
  the ledgers of all prefixes of the history at hand, it is the sum of the changes in realized profit
  over exactly those events whose own time lies in the local day and not after the evaluation, also
  those that stand behind a later-dated one. When the events are in the order of time and the
  evaluation falls into the day, it is the realized profit of the ledger at the moment of the
  evaluation less that of the ledger before the day began.\<close>

theorem realized_today_is_difference:
  assumes "realized_pnl_today sha fp tz es cur t name = Inr r" and "tz name = Some z"
    and "list_all wf_event es"
  shows "(\<exists>ss. length ss = Suc (length es)
      \<and> (\<forall>i \<le> length es. replay sha fp cur (take i es) = Inr (ss ! i))
      \<and> amount r = (\<Sum>i < length es.
          if dt_micros (ev_occurred_at (es ! i)) \<le> dt_micros t
            \<and> fst (loss_day z t) \<le> dt_micros (ev_occurred_at (es ! i))
            \<and> dt_micros (ev_occurred_at (es ! i)) \<le> snd (loss_day z t)
          then realized (ss ! Suc i) - realized (ss ! i) else 0))
    \<and> (sorted (map (\<lambda>e. dt_micros (ev_occurred_at e)) es)
        \<and> fst (loss_day z t) \<le> dt_micros t \<and> dt_micros t \<le> snd (loss_day z t) \<longrightarrow>
      (\<exists>s0 s1. replay sha fp cur (takeWhile (\<lambda>e. dt_micros (ev_occurred_at e) < fst (loss_day z t)) es) = Inr s0
        \<and> replay sha fp cur (takeWhile (\<lambda>e. dt_micros (ev_occurred_at e) \<le> dt_micros t) es) = Inr s1
        \<and> amount r = realized s1 - realized s0))"
proof -
  obtain s zero acc where run: "ledger_empty cur = Inr s" "money_zero cur = Inr zero"
    "rfold (realize_event sha fp (loss_day z t) t) (s, zero) es = Inr acc" "snd acc = r"
    using assms(1,2) unfolding realized_pnl_today_def
    by (simp only: option.case) (elim result_elims, rule that, assumption, assumption, assumption, simp)
  obtain s2 where acc: "acc = (s2, r)" using run(4) by (cases acc) simp
  have zero: "wf_money zero" "amount zero = 0" by (rule money_zero_InrD [OF run(2)])+
  have "ledger_inv s" using ledger_empty_InrD [OF run(1)] by simp
  from realize_trace [OF run(3) [unfolded acc] this assms(3) zero(1)]
  have "\<exists>ss. length ss = Suc (length es)
      \<and> (\<forall>i \<le> length es. replay sha fp cur (take i es) = Inr (ss ! i))
      \<and> amount r = (\<Sum>i < length es.
          if in_day (loss_day z t) t (es ! i) then realized (ss ! Suc i) - realized (ss ! i) else 0)"
    using run(1) zero(2) by (auto simp: replay_def)
  then show ?thesis
    using realized_sorted_difference [OF assms] unfolding in_day_def by blast
qed

end
