(* ===== verification/Portfolio_Samples.thy ===== *)
theory Portfolio_Samples
  imports Portfolio_Props Ledger_Witnesses
begin

text \<open>A portfolio with one open position and one proposed buy, for the properties of the gate.\<close>

definition sample_scope :: "string \<Rightarrow> risk_scope" where
  "sample_scope m =
     \<lparr>rs_market_id = m, rs_outcome_id = ''y'', rs_event_id = ''E'', rs_city_key = ''oslo'',
      rs_market_date = 0, rs_correlation_groups = [''north'']\<rparr>"

definition scope_event :: ledger_event where
  "scope_event = sample_event ''6'' (RiskScopeRegistered (sample_scope ''m''))"

definition portfolio_events :: "ledger_event list" where
  "portfolio_events = sample_events @ [fill_event 4 (2 / 5) (1 / 100), scope_event]"

definition state_scoped :: ledger_state where
  "state_scoped = state_filled\<lparr>ls_fingerprints := ls_fingerprints state_filled @ [(''6'', ''h'')]\<rparr>"

definition sample_mark :: position_valuation where
  "sample_mark =
     \<lparr>pv_market_id = ''m'', pv_outcome_id = ''y'', pv_quantity = 4,
      pv_liquidation_value = usdc (3 / 2), pv_observed_at = at_second 10\<rparr>"

definition sample_valuation :: portfolio_valuation where
  "sample_valuation =
     \<lparr>pf_positions = [sample_mark], pf_equity = usdc (9989 / 100), pf_assembled_at = at_second 11,
      pf_source = ''book''\<rparr>"

definition sample_limits :: portfolio_policy where
  "sample_limits =
     \<lparr>pp_maximum_total = usdc 50, pp_maximum_event = usdc 20, pp_maximum_city_date = usdc 30,
      pp_maximum_correlation = usdc 25, pp_maximum_open_positions = 3, pp_maximum_daily_loss = usdc 10,
      pp_maximum_drawdown = usdc 20, pp_valuation_age = seconds 30, pp_future_tolerance = seconds 5,
      pp_loss_timezone = ''UTC''\<rparr>"

definition utc_only :: tzdb where
  "utc_only name = (if name = ''UTC'' then Some \<lparr>z_local = (\<lambda>x. x), z_utc = (\<lambda>x. x)\<rparr> else None)"

definition is_approved :: "portfolio_decision result \<Rightarrow> bool" where
  "is_approved r = (case r of Inl _ \<Rightarrow> False | Inr d \<Rightarrow> pr_status d = RISK_APPROVED)"

lemma eval_scoped: "apply_event sample_sha sample_fp state_filled scope_event = Inr state_scoped"
  by code_simp

lemma portfolio_replay: "replay sample_sha sample_fp ''usdc'' portfolio_events = Inr state_scoped"
proof -
  have "portfolio_events = (sample_events @ [fill_event 4 (2 / 5) (1 / 100)]) @ [scope_event]"
    by (simp add: portfolio_events_def)
  then show ?thesis
    using replay_append [of sample_sha sample_fp "''usdc''" "sample_events @ [fill_event 4 (2 / 5) (1 / 100)]"
      "[scope_event]"]
    by (simp del: append_assoc add: sample_replay_filled eval_scoped)
qed

definition sample_exposure :: "(position_key, money) dict" where
  "sample_exposure = [((''m'', ''y''), usdc (47 / 10))]"

definition sample_scopes :: "(position_key, risk_scope) dict" where
  "sample_scopes = [((''m'', ''y''), sample_scope ''m'')]"

definition sample_gain :: money where
  "sample_gain = usdc (- 11 / 100)"

lemma portfolio_stages:
  "check_proposal state_scoped (usdc 10) sample_limits (at_second 12) = Inr ()"
  "risk_scopes portfolio_events = Inr sample_scopes"
  "exposure_by_position state_scoped = Inr sample_exposure"
  "sum_money (map snd sample_exposure) ''USDC'' = Inr (usdc (47 / 10))"
  "money_add (usdc (47 / 10)) (usdc 10) = Inr (usdc (147 / 10))"
  "validate_valuation state_scoped sample_valuation (at_second 12) sample_limits = Inr None"
  "equity_figures state_scoped portfolio_events sample_valuation (at_second 12) None
     = Inr (sample_gain, usdc (9989 / 100), usdc 100)"
  "money_add (usdc 0) sample_gain = Inr sample_gain"
  "money_of (PyDecimal (max 0 (dec_neg (amount sample_gain)))) ''USDC'' = Inr (usdc (11 / 100))"
  "money_of (PyDecimal (max 0 (dec_sub 100 (9989 / 100)))) ''USDC'' = Inr (usdc (11 / 100))"
  by code_simp+

lemma portfolio_groups:
  "rmap (correlation_item ''USDC'' sample_scopes sample_exposure (usdc 10))
     (all_correlation_groups (sample_scope ''n'')) = Inr (map (\<lambda>g. \<lparr>ce_group = g,
       ce_before = usdc (47 / 10), ce_after = usdc (147 / 10)\<rparr>)
       [''date:1970-01-01'', ''event:e'', ''north''])"
  by code_simp

lemma portfolio_scoped:
  "scoped_exposure ''USDC'' sample_scopes sample_exposure (\<lambda>x. rs_event_id x = ''E'') = Inr (usdc (47 / 10))"
  "scoped_exposure ''USDC'' sample_scopes sample_exposure
     (\<lambda>x. city_date_key x = city_date_key (sample_scope ''n'')) = Inr (usdc (47 / 10))"
  by code_simp+

lemma portfolio_totals:
  "realized_total state_empty = Inr (usdc 0)"
  "realized_total (state_opened 100) = Inr (usdc 0)"
  "realized_total (state_ordered 100 10 (1 / 10)) = Inr (usdc 0)"
  "realized_total (state_submitted 100 10 (1 / 10)) = Inr (usdc 0)"
  "realized_total state_filled = Inr (usdc 0)"
  "realized_total state_scoped = Inr (usdc 0)"
  "money_sub (usdc 0) (usdc 0) = Inr (usdc 0)"
  "money_add (usdc 0) (usdc 0) = Inr (usdc 0)"
  "money_zero ''USDC'' = Inr (usdc 0)" "money_zero ''usdc'' = Inr (usdc 0)"
  "ledger_empty ''USDC'' = Inr state_empty"
  by code_simp+

lemma portfolio_realized:
  assumes "cur = ''usdc'' \<or> cur = ''USDC''"
  shows "realized_pnl_today sample_sha sample_fp utc_only portfolio_events cur (at_second 12) ''UTC'' = Inr (usdc 0)"
proof -
  have zone: "utc_only ''UTC'' = Some \<lparr>z_local = (\<lambda>x. x), z_utc = (\<lambda>x. x)\<rparr>" by (simp add: utc_only_def)
  show ?thesis
    using assms unfolding realized_pnl_today_def zone
    by (auto simp: portfolio_events_def sample_events_def realize_event_def portfolio_totals eval_empty
        eval_opened eval_ordered eval_submitted eval_filled eval_scoped)
qed

lemma portfolio_evaluation:
  "\<exists>d. evaluate_portfolio_risk sample_sha sample_fp utc_only state_scoped portfolio_events
     (sample_scope ''n'') (usdc 10) sample_valuation sample_limits (at_second 12) = Inr d
   \<and> pr_status d = RISK_APPROVED"
proof -
  have fields: "ls_currency state_scoped = ''USDC''" "pp_loss_timezone sample_limits = ''UTC''"
    "rs_position_key (sample_scope ''n'') = (''n'', ''y'')" "rs_event_id (sample_scope ''n'') = ''E''"
    "dict_get sample_scopes (''n'', ''y'') = None" "missing_keys sample_scopes sample_exposure = []"
    "(''n'', ''y'') \<notin> fst ` set sample_exposure" "length sample_exposure = 1"
    "currency sample_gain = ''USDC''" "amount (usdc x) = x" "currency (usdc x) = ''USDC''" for x
    by (code_simp, code_simp, code_simp, code_simp, code_simp, code_simp, code_simp, code_simp, code_simp)
      (simp_all add: usdc_def)
  have limits: "amount (pp_maximum_daily_loss sample_limits) = 10" "amount (pp_maximum_drawdown sample_limits) = 20"
    "pp_maximum_open_positions sample_limits = 3" "amount (pp_maximum_total sample_limits) = 50"
    "amount (pp_maximum_event sample_limits) = 20" "amount (pp_maximum_city_date sample_limits) = 30"
    "amount (pp_maximum_correlation sample_limits) = 25"
    by (simp_all add: sample_limits_def usdc_def)
  show ?thesis
    unfolding evaluate_portfolio_risk_def
    by (simp add: Let_def fields portfolio_stages portfolio_groups portfolio_scoped
        portfolio_realized judge_portfolio_def limit_breach_def limits portfolio_decision_init_def
        is_negative_def is_zero_def)
qed

section \<open>Instances of the properties\<close>

lemma portfolio_wf: "list_all wf_event portfolio_events" "wf_ledger state_scoped" "wf_money (usdc 10)"
  "wf_valuation sample_valuation"
proof -
  show w: "list_all wf_event portfolio_events"
    using sample_wf by (simp add: portfolio_events_def scope_event_def sample_event_def wf_event_def)
  show "wf_ledger state_scoped" using replay_inv [OF portfolio_replay w] by (simp add: ledger_inv_def)
qed code_simp+

theorem portfolio_gate_exact_witness:
  "\<exists>d scopes. evaluate_portfolio_risk sample_sha sample_fp utc_only state_scoped portfolio_events
     (sample_scope ''n'') (usdc 10) sample_valuation sample_limits (at_second 12) = Inr d
   \<and> pr_status d = RISK_APPROVED \<and> risk_scopes portfolio_events = Inr scopes
   \<and> exposed state_scoped \<subseteq> dom (dict_get scopes) \<and> total_exposure state_scoped + 10 \<le> 50"
proof -
  obtain d where d: "evaluate_portfolio_risk sample_sha sample_fp utc_only state_scoped portfolio_events
     (sample_scope ''n'') (usdc 10) sample_valuation sample_limits (at_second 12) = Inr d"
    "pr_status d = RISK_APPROVED" using portfolio_evaluation by blast
  then show ?thesis
    using portfolio_gate_exact [OF d(1) portfolio_wf(2-4)] by (auto simp: sample_limits_def usdc_def)
qed

theorem exposure_is_committed_cash_witness:
  "exposure_by_position state_scoped = Inr sample_exposure
   \<and> dict_sum (\<lambda>_ p. amount (pos_cost_basis p)) (open_positions state_scoped)
      + amount (ls_reserved_cash state_scoped) = 47 / 10"
proof -
  have "ls_currency state_scoped = ''USDC''" by code_simp
  then have "sum_money (map snd sample_exposure) (ls_currency state_scoped) = Inr (usdc (47 / 10))"
    using portfolio_stages(4) by simp
  then show ?thesis
    using exposure_is_committed_cash [OF portfolio_replay portfolio_wf(1) portfolio_stages(3)] portfolio_stages(3)
    by (simp add: usdc_def)
qed

theorem realized_today_is_difference_witness:
  "\<exists>s0 s1. replay sample_sha sample_fp ''usdc'' [] = Inr s0
     \<and> replay sample_sha sample_fp ''usdc'' portfolio_events = Inr s1 \<and> 0 = realized s1 - realized s0"
proof -
  let ?z = "\<lparr>z_local = (\<lambda>x. x), z_utc = (\<lambda>x. x)\<rparr>"
  have day: "loss_day ?z (at_second 12) = (0, 86399999999)" by code_simp
  have at: "dt_micros (at_second n) = n * 1000000" for n by (simp add: at_second_def seconds_def)
  have "list_all (\<lambda>e. dt_micros (ev_occurred_at e) = 1000000) portfolio_events" by code_simp
  then have all: "\<forall>e \<in> set portfolio_events. dt_micros (ev_occurred_at e) = 1000000"
    by (simp add: list_all_iff)
  have times: "map (\<lambda>e. dt_micros (ev_occurred_at e)) portfolio_events = replicate 5 1000000"
    by code_simp
  have prefixes: "takeWhile (\<lambda>e. dt_micros (ev_occurred_at e) < 0) portfolio_events = []"
    "takeWhile (\<lambda>e. dt_micros (ev_occurred_at e) \<le> 12000000) portfolio_events = portfolio_events"
    using all by (auto simp: takeWhile_eq_all_conv takeWhile_eq_Nil_iff dest: hd_in_set)
  have "utc_only ''UTC'' = Some ?z" by (simp add: utc_only_def)
  note claim = realized_today_is_difference [OF portfolio_realized [of "''usdc''", simplified] this portfolio_wf(1)]
  show ?thesis
    using conjunct2 [OF claim]
    by (simp add: day at times prefixes usdc_def del: takeWhile_eq_all_conv)
qed

section \<open>Reasons read off a message\<close>

text \<open>A market whose identifier contains a word of the time checks.\<close>

definition named_position :: position where
  "named_position = held_position\<lparr>pos_market_id := ''future-snow''\<rparr>"

definition named_state :: ledger_state where
  "named_state = state_scoped\<lparr>ls_orders := [], ls_reserved_cash := usdc 0,
     ls_positions := [((''future-snow'', ''y''), named_position)]\<rparr>"

definition named_valuation :: portfolio_valuation where
  "named_valuation = sample_valuation\<lparr>pf_positions :=
     [sample_mark\<lparr>pv_market_id := ''future-snow'', pv_quantity := 3\<rparr>]\<rparr>"

text \<open>A valuation whose quantity is wrong is reported as a stale one when the identifier of the
  market contains a word of the time checks: the reason is found by searching the message, and the
  message carries the identifiers. Every timestamp of this valuation is inside its window.\<close>

theorem wrong_quantity_reported_stale:
  "assert_invariants named_state = Inr ()
   \<and> validate_valuation named_state named_valuation (at_second 12) sample_limits
       = Inr (Some ''valuation quantity differs for future-snow/y'')
   \<and> valuation_reason ''valuation quantity differs for future-snow/y'' = STALE_VALUATION
   \<and> valuation_reason ''valuation quantity differs for snow/y'' = VALUATION_MISMATCH
   \<and> list_all (\<lambda>m. dt_micros (pv_observed_at m) \<le> dt_micros (at_second 12)
        \<and> dt_micros (at_second 12) - dt_micros (pv_observed_at m) \<le> pp_valuation_age sample_limits)
       (pf_positions named_valuation)"
  by (intro conjI; code_simp)

end
