(* ===== verification/Outbox.thy ===== *)
theory Outbox
  imports Prelude
begin

text \<open>
  \<open>weatherbot/pip/outbox.py\<close>: the durable outbox of signed events. The SQLite table is a list of
  rows, each method one atomic transaction on it; a raised exception rolls back and leaves the table
  as it was. Instants are UTC microseconds (the fixed-width text of the columns orders them the same
  way), \<^verbatim>\<open>now\<close>, identifiers and claim tokens from \<^verbatim>\<open>uuid4\<close> are arguments.
\<close>

datatype pip_error =
    PipExportError string
  | PipValueError string
  | PipTypeError string
  | PipAssertionError
  | IntegrityError string

type_synonym 'a pip = "pip_error + 'a"

datatype outbox_state = PENDING | IN_FLIGHT | RETRY_WAIT | ACKNOWLEDGED_ITEM | DEAD_LETTER

datatype claim_mode = AUTOMATIC | OPERATOR_ONE_SHOT

record frozen_envelope =
  fz_producer_id :: string
  fz_event_id :: string
  fz_signal_id :: string
  fz_generated_at :: datetime
  fz_key_id :: string
  fz_sha256 :: string
  fz_canonical :: string
  fz_envelope :: string

text \<open>The item handed to workers, and the row with the columns of past attempts.\<close>

record outbox_item =
  ox_id :: string
  ox_producer_id :: string
  ox_event_id :: string
  ox_signal_id :: string
  ox_sha256 :: string
  ox_envelope :: string
  ox_generated_at :: int
  ox_key_id :: string
  ox_state :: outbox_state
  ox_enqueued_at :: int
  ox_attempts :: nat
  ox_next_attempt_at :: int
  ox_lease_owner :: "string option"
  ox_lease_expires_at :: "int option"
  ox_claim_token :: "string option"
  ox_claim_mode :: "claim_mode option"

record outbox_row = outbox_item +
  ox_last_attempt_at :: "int option"
  ox_last_result :: "string option"
  ox_last_status :: "int option"
  ox_receipt_id :: "string option"
  ox_acknowledged_at :: "int option"
  ox_dead_reason :: "string option"
  ox_dead_at :: "int option"

record audit_entry =
  au_event_id :: string
  au_operator :: string
  au_action :: string
  au_reason :: string
  au_at :: int

record outbox =
  ob_rows :: "outbox_row list"
  ob_audit :: "audit_entry list"

definition delivery_horizon :: timedelta where
  "delivery_horizon = 7 * seconds 86400"

definition outbox_ts :: "datetime \<Rightarrow> int pip" where
  "outbox_ts d =
     (if \<not> dt_aware d then Inl (PipValueError ''outbox timestamps must be timezone-aware'')
      else Inr (dt_micros d))"

text \<open>\<^verbatim>\<open>_from_row\<close>: the columns of the item.\<close>

definition from_row :: "outbox_row \<Rightarrow> outbox_item" where
  "from_row r = outbox_item.truncate r"

section \<open>Enqueueing\<close>

definition same_identity :: "string \<Rightarrow> string \<Rightarrow> outbox_row \<Rightarrow> bool" where
  "same_identity producer event r \<longleftrightarrow> ox_producer_id r = producer \<and> ox_event_id r = event"

definition new_row :: "string \<Rightarrow> frozen_envelope \<Rightarrow> int \<Rightarrow> int \<Rightarrow> outbox_row" where
  "new_row i f generated now =
     \<lparr>ox_id = i, ox_producer_id = fz_producer_id f, ox_event_id = fz_event_id f,
      ox_signal_id = fz_signal_id f, ox_sha256 = fz_sha256 f, ox_envelope = fz_envelope f,
      ox_generated_at = generated, ox_key_id = fz_key_id f, ox_state = PENDING, ox_enqueued_at = now,
      ox_attempts = 0, ox_next_attempt_at = now, ox_lease_owner = None, ox_lease_expires_at = None,
      ox_claim_token = None, ox_claim_mode = None, ox_last_attempt_at = None, ox_last_result = None,
      ox_last_status = None, ox_receipt_id = None, ox_acknowledged_at = None, ox_dead_reason = None,
      ox_dead_at = None\<rparr>"

definition enqueue :: "string \<Rightarrow> frozen_envelope \<Rightarrow> int \<Rightarrow> outbox \<Rightarrow> (outbox \<times> outbox_item) pip" where
  "enqueue i f now t =
     (case find (same_identity (fz_producer_id f) (fz_event_id f)) (ob_rows t) of
        Some r \<Rightarrow>
          if ox_sha256 r \<noteq> fz_sha256 f \<or> ox_envelope r \<noteq> fz_envelope f \<or> ox_signal_id r \<noteq> fz_signal_id f
          then Inl (PipExportError ''local PIP event identity conflict'')
          else Inr (t, from_row r)
      | None \<Rightarrow>
          rbind (outbox_ts (fz_generated_at f)) (\<lambda>generated.
          if i \<in> ox_id ` set (ob_rows t) then Inl (IntegrityError ''outbox_id'')
          else let r = new_row i f generated now
               in Inr (t\<lparr>ob_rows := ob_rows t @ [r]\<rparr>, from_row r)))"

section \<open>Recovery\<close>

definition release_row :: "outbox_state \<Rightarrow> outbox_row \<Rightarrow> outbox_row" where
  "release_row st r =
     r\<lparr>ox_state := st, ox_lease_owner := None, ox_lease_expires_at := None, ox_claim_token := None,
       ox_claim_mode := None\<rparr>"

text \<open>An expired lease: a one-shot claim or a passed horizon ends in the dead letters.\<close>

definition recover_expired :: "int \<Rightarrow> outbox_row \<Rightarrow> outbox_row" where
  "recover_expired now r =
     (if ox_state r = IN_FLIGHT \<and> (case ox_lease_expires_at r of None \<Rightarrow> False | Some x \<Rightarrow> x \<le> now)
      then if ox_claim_mode r = Some OPERATOR_ONE_SHOT \<or> ox_generated_at r + delivery_horizon \<le> now
           then (release_row DEAD_LETTER r)
             \<lparr>ox_dead_reason := Some (if ox_claim_mode r = Some OPERATOR_ONE_SHOT
                then ''operator_one_shot_unacknowledged'' else ''delivery_horizon_exceeded''),
              ox_dead_at := Some now\<rparr>
           else (release_row RETRY_WAIT r)
             \<lparr>ox_next_attempt_at := now, ox_last_result := Some ''expired_lease''\<rparr>
      else r)"

definition recover_horizon :: "int \<Rightarrow> outbox_row \<Rightarrow> outbox_row" where
  "recover_horizon now r =
     (if ox_state r \<in> {PENDING, RETRY_WAIT} \<and> ox_generated_at r + delivery_horizon \<le> now
      then r\<lparr>ox_state := DEAD_LETTER, ox_dead_reason := Some ''delivery_horizon_exceeded'',
             ox_dead_at := Some now\<rparr>
      else r)"

definition recover :: "int \<Rightarrow> outbox \<Rightarrow> outbox" where
  "recover now t =
     t\<lparr>ob_rows := map (recover_horizon now) (map (recover_expired now) (ob_rows t))\<rparr>"

section \<open>Claims\<close>

definition due :: "int \<Rightarrow> int \<Rightarrow> outbox_row \<Rightarrow> bool" where
  "due now minimum_generated_at r \<longleftrightarrow>
     ox_state r \<in> {PENDING, RETRY_WAIT} \<and> ox_next_attempt_at r \<le> now
     \<and> minimum_generated_at \<le> ox_generated_at r"

text \<open>\<^verbatim>\<open>ORDER BY next_attempt_at, enqueued_at LIMIT 1\<close>.\<close>

definition first_due :: "int \<Rightarrow> int \<Rightarrow> outbox_row list \<Rightarrow> outbox_row option" where
  "first_due now minimum_generated_at rs =
     (case sort_key ox_next_attempt_at (sort_key ox_enqueued_at (filter (due now minimum_generated_at) rs)) of
        [] \<Rightarrow> None | r # _ \<Rightarrow> Some r)"

definition lease_row ::
    "claim_mode \<Rightarrow> string \<Rightarrow> int \<Rightarrow> string \<Rightarrow> int \<Rightarrow> outbox_row \<Rightarrow> outbox_row" where
  "lease_row mode owner lease_expires token now r =
     r\<lparr>ox_state := IN_FLIGHT, ox_attempts := Suc (ox_attempts r), ox_lease_owner := Some owner,
       ox_lease_expires_at := Some lease_expires, ox_claim_token := Some token,
       ox_claim_mode := Some mode, ox_last_attempt_at := Some now\<rparr>"

text \<open>\<^verbatim>\<open>UPDATE ... WHERE\<close>: the updated rows and how many there were.\<close>

definition update_where ::
    "(outbox_row \<Rightarrow> bool) \<Rightarrow> (outbox_row \<Rightarrow> outbox_row) \<Rightarrow> outbox_row list \<Rightarrow> outbox_row list \<times> nat" where
  "update_where P f rs = (map (\<lambda>r. if P r then f r else r) rs, length (filter P rs))"

definition valid_lease :: "int \<Rightarrow> bool" where
  "valid_lease lease_seconds \<longleftrightarrow> 1 \<le> lease_seconds \<and> lease_seconds \<le> 60"

definition claim_due ::
    "string \<Rightarrow> int \<Rightarrow> int \<Rightarrow> string \<Rightarrow> outbox \<Rightarrow> (outbox \<times> outbox_item option) pip" where
  "claim_due owner now lease_seconds token t =
     (if \<not> valid_lease lease_seconds
      then Inl (PipValueError ''PIP claim lease must be between 1 and 60 seconds'')
      else
        let lease_expires = now + seconds lease_seconds
        in case first_due now (lease_expires - delivery_horizon) (ob_rows t) of
             None \<Rightarrow> Inr (t, None)
           | Some chosen \<Rightarrow>
               (case update_where (\<lambda>r. ox_id r = ox_id chosen \<and> ox_state r \<in> {PENDING, RETRY_WAIT})
                       (lease_row AUTOMATIC owner lease_expires token now) (ob_rows t) of
                  (rows, n) \<Rightarrow>
                    if n \<noteq> 1 then Inl (PipExportError ''PIP outbox claim lost atomic ownership'')
                    else Inr (t\<lparr>ob_rows := rows\<rparr>,
                      map_option from_row (find (\<lambda>r. ox_id r = ox_id chosen) rows))))"

definition claim_dead_letter_once ::
    "string \<Rightarrow> string \<Rightarrow> string \<Rightarrow> string \<Rightarrow> int \<Rightarrow> int \<Rightarrow> string \<Rightarrow> outbox \<Rightarrow>
     (outbox \<times> outbox_item option) pip" where
  "claim_dead_letter_once event_id owner operator reason now lease_seconds token t =
     (if strip operator = [] \<or> strip reason = []
      then Inl (PipValueError ''operator identity and reason are required'')
      else if \<not> valid_lease lease_seconds
      then Inl (PipValueError ''PIP claim lease must be between 1 and 60 seconds'')
      else case find (\<lambda>r. ox_event_id r = event_id \<and> ox_state r = DEAD_LETTER) (ob_rows t) of
             None \<Rightarrow> Inl (PipExportError ''requested PIP dead letter does not exist'')
           | Some chosen \<Rightarrow>
               let rows = fst (update_where (\<lambda>r. ox_id r = ox_id chosen \<and> ox_state r = DEAD_LETTER)
                     (lease_row OPERATOR_ONE_SHOT owner (now + seconds lease_seconds) token now) (ob_rows t))
               in Inr (t\<lparr>ob_rows := rows, ob_audit := ob_audit t @
                     [\<lparr>au_event_id = event_id, au_operator = operator, au_action = ''retry_one_shot'',
                       au_reason = reason, au_at = now\<rparr>]\<rparr>,
                   map_option from_row (find (\<lambda>r. ox_id r = ox_id chosen) rows)))"

definition operator_dead_letter ::
    "string \<Rightarrow> string \<Rightarrow> string \<Rightarrow> int \<Rightarrow> outbox \<Rightarrow> (outbox \<times> bool) pip" where
  "operator_dead_letter event_id operator reason now t =
     (if strip operator = [] \<or> strip reason = []
      then Inl (PipValueError ''operator identity and reason are required'')
      else case update_where (\<lambda>r. ox_event_id r = event_id \<and> ox_state r \<in> {PENDING, RETRY_WAIT})
             (\<lambda>r. r\<lparr>ox_state := DEAD_LETTER, ox_dead_reason := Some reason, ox_dead_at := Some now\<rparr>)
             (ob_rows t) of
        (rows, n) \<Rightarrow>
          if n \<noteq> 1 then Inr (t\<lparr>ob_rows := rows\<rparr>, False)
          else Inr (t\<lparr>ob_rows := rows, ob_audit := ob_audit t @
                 [\<lparr>au_event_id = event_id, au_operator = operator, au_action = ''dead_letter'',
                   au_reason = reason, au_at = now\<rparr>]\<rparr>, True))"

section \<open>Finishing a claim\<close>

text \<open>The outcome a worker reports; a retry carries its next attempt.\<close>

record finish_report =
  fr_state :: outbox_state
  fr_result :: string
  fr_status :: "int option"
  fr_receipt :: "string option"
  fr_next_attempt :: "int option"
  fr_dead_reason :: "string option"

definition finish_row :: "finish_report \<Rightarrow> int \<Rightarrow> outbox_row \<Rightarrow> outbox_row" where
  "finish_row p now r =
     (release_row (fr_state p) r)
       \<lparr>ox_last_result := Some (fr_result p), ox_last_status := fr_status p,
        ox_receipt_id := (if fr_receipt p = None then ox_receipt_id r else fr_receipt p),
        ox_acknowledged_at := (if fr_state p = ACKNOWLEDGED_ITEM then Some now else ox_acknowledged_at r),
        ox_next_attempt_at := (case fr_next_attempt p of None \<Rightarrow> ox_next_attempt_at r | Some x \<Rightarrow> x),
        ox_dead_reason := (if fr_dead_reason p = None then ox_dead_reason r else fr_dead_reason p),
        ox_dead_at := (if fr_state p = DEAD_LETTER then Some now else ox_dead_at r)\<rparr>"

text \<open>An operator's one-shot attempt is never retried: it returns to the dead letters.\<close>

definition one_shot_report :: "outbox_item \<Rightarrow> finish_report \<Rightarrow> finish_report" where
  "one_shot_report item p =
     (if ox_claim_mode item = Some OPERATOR_ONE_SHOT \<and> fr_state p = RETRY_WAIT
      then p\<lparr>fr_state := DEAD_LETTER,
             fr_dead_reason := (if fr_dead_reason p \<in> {None, Some []}
               then Some ''operator_one_shot_unacknowledged'' else fr_dead_reason p)\<rparr>
      else p)"

definition finish :: "outbox_item \<Rightarrow> finish_report \<Rightarrow> int \<Rightarrow> outbox \<Rightarrow> (outbox \<times> bool) pip" where
  "finish item report now t =
     (case (ox_claim_token item, ox_lease_expires_at item) of
        (Some token, Some lease) \<Rightarrow>
          if lease \<le> now then Inr (t, False)
          else
            let p = one_shot_report item report
            in if fr_state p = RETRY_WAIT \<and> fr_next_attempt p = None
               then Inl (PipValueError ''retry_wait requires next_attempt_at'')
               else (case update_where
                       (\<lambda>r. ox_id r = ox_id item \<and> ox_state r = IN_FLIGHT \<and> ox_claim_token r = Some token
                          \<and> (case ox_lease_expires_at r of None \<Rightarrow> False | Some x \<Rightarrow> now < x))
                       (finish_row p now) (ob_rows t) of
                  (rows, n) \<Rightarrow> Inr (t\<lparr>ob_rows := rows\<rparr>, n = 1))
      | _ \<Rightarrow> Inl (PipExportError ''cannot finish an unclaimed PIP outbox item''))"

definition acknowledge ::
    "outbox_item \<Rightarrow> string \<Rightarrow> string \<Rightarrow> int option \<Rightarrow> int \<Rightarrow> outbox \<Rightarrow> (outbox \<times> bool) pip" where
  "acknowledge item receipt result status now t =
     finish item \<lparr>fr_state = ACKNOWLEDGED_ITEM, fr_result = result, fr_status = status,
       fr_receipt = Some receipt, fr_next_attempt = None, fr_dead_reason = None\<rparr> now t"

definition retry ::
    "outbox_item \<Rightarrow> int \<Rightarrow> string \<Rightarrow> int option \<Rightarrow> int \<Rightarrow> outbox \<Rightarrow> (outbox \<times> bool) pip" where
  "retry item next_attempt result status now t =
     finish item \<lparr>fr_state = RETRY_WAIT, fr_result = result, fr_status = status,
       fr_receipt = None, fr_next_attempt = Some next_attempt, fr_dead_reason = None\<rparr> now t"

definition dead_letter ::
    "outbox_item \<Rightarrow> string \<Rightarrow> string \<Rightarrow> int option \<Rightarrow> int \<Rightarrow> outbox \<Rightarrow> (outbox \<times> bool) pip" where
  "dead_letter item reason result status now t =
     finish item \<lparr>fr_state = DEAD_LETTER, fr_result = result, fr_status = status,
       fr_receipt = None, fr_next_attempt = None, fr_dead_reason = Some reason\<rparr> now t"

section \<open>Summary\<close>

record outbox_summary =
  os_pending :: nat
  os_retry_wait :: nat
  os_in_flight :: nat
  os_acknowledged :: nat
  os_dead_letter :: nat
  os_oldest :: "int option"

definition count_state :: "outbox \<Rightarrow> outbox_state \<Rightarrow> nat" where
  "count_state t st = length (filter (\<lambda>r. ox_state r = st) (ob_rows t))"

definition summary :: "outbox \<Rightarrow> outbox_summary" where
  "summary t =
     \<lparr>os_pending = count_state t PENDING, os_retry_wait = count_state t RETRY_WAIT,
      os_in_flight = count_state t IN_FLIGHT, os_acknowledged = count_state t ACKNOWLEDGED_ITEM,
      os_dead_letter = count_state t DEAD_LETTER,
      os_oldest = (case map ox_enqueued_at (filter (\<lambda>r. ox_state r \<noteq> ACKNOWLEDGED_ITEM) (ob_rows t)) of
          [] \<Rightarrow> None | x # xs \<Rightarrow> Some (foldl min x xs))\<rparr>"

end
