(* ===== verification/Outbox_Props.thy ===== *)
theory Outbox_Props
  imports Outbox "HOL-Library.Sublist"
begin

text \<open>
  The delivery outbox as a machine: its public methods as commands, the invariant of the table, how
  a row may evolve, and what claims, finishes and recoveries guarantee. A command that raises rolls
  back, so the runs below are the runs of the commands that return.
\<close>

named_theorems outbox_defs \<open>the operations of the outbox\<close>

datatype outbox_command =
    Enqueue string frozen_envelope int
  | Recover int
  | ClaimDue string int int string
  | ClaimDeadLetter string string string string int int string
  | OperatorDeadLetter string string string int
  | Acknowledge outbox_item string string "int option" int
  | Retry outbox_item int string "int option" int
  | DeadLetter outbox_item string string "int option" int

fun outbox_apply :: "outbox \<Rightarrow> outbox_command \<Rightarrow> outbox pip" where
  "outbox_apply t (Enqueue i f now) = rbind (enqueue i f now t) (\<lambda>p. Inr (fst p))"
| "outbox_apply t (Recover now) = Inr (recover now t)"
| "outbox_apply t (ClaimDue w now n k) = rbind (claim_due w now n k t) (\<lambda>p. Inr (fst p))"
| "outbox_apply t (ClaimDeadLetter e w opr why now n k) =
     rbind (claim_dead_letter_once e w opr why now n k t) (\<lambda>p. Inr (fst p))"
| "outbox_apply t (OperatorDeadLetter e opr why now) =
     rbind (operator_dead_letter e opr why now t) (\<lambda>p. Inr (fst p))"
| "outbox_apply t (Acknowledge x receipt res st now) =
     rbind (acknowledge x receipt res st now t) (\<lambda>p. Inr (fst p))"
| "outbox_apply t (Retry x nxt res st now) = rbind (retry x nxt res st now t) (\<lambda>p. Inr (fst p))"
| "outbox_apply t (DeadLetter x why res st now) =
     rbind (dead_letter x why res st now t) (\<lambda>p. Inr (fst p))"

section \<open>The invariant\<close>

text \<open>
  The claim columns are set exactly while a row is in flight; an automatic claim's whole lease lies
  before the delivery horizon; a final state has its evidence.
\<close>

definition claim_columns :: "outbox_row \<Rightarrow> bool" where
  "claim_columns r \<longleftrightarrow>
     (case (ox_lease_owner r, ox_lease_expires_at r, ox_claim_token r, ox_claim_mode r) of
        (Some _, Some x, Some _, Some m) \<Rightarrow>
          m = AUTOMATIC \<longrightarrow> x \<le> ox_generated_at r + delivery_horizon
      | _ \<Rightarrow> False)"

definition unclaimed :: "outbox_row \<Rightarrow> bool" where
  "unclaimed r \<longleftrightarrow> ox_lease_owner r = None \<and> ox_lease_expires_at r = None
     \<and> ox_claim_token r = None \<and> ox_claim_mode r = None"

fun row_ok :: "outbox_row \<Rightarrow> bool" where
  "row_ok r =
     (case ox_state r of
        IN_FLIGHT \<Rightarrow> claim_columns r \<and> 0 < ox_attempts r \<and> ox_last_attempt_at r \<noteq> None
      | ACKNOWLEDGED_ITEM \<Rightarrow> unclaimed r \<and> ox_receipt_id r \<noteq> None \<and> ox_acknowledged_at r \<noteq> None
      | DEAD_LETTER \<Rightarrow> unclaimed r \<and> ox_dead_reason r \<noteq> None \<and> ox_dead_at r \<noteq> None
      | _ \<Rightarrow> unclaimed r)"

declare row_ok.simps [simp del]

abbreviation identity :: "outbox_row \<Rightarrow> string \<times> string" where
  "identity r \<equiv> (ox_producer_id r, ox_event_id r)"

definition outbox_ok :: "outbox \<Rightarrow> bool" where
  "outbox_ok t \<longleftrightarrow> distinct (map ox_id (ob_rows t)) \<and> distinct (map identity (ob_rows t))
     \<and> list_all row_ok (ob_rows t)"

text \<open>What a row keeps for ever: its frozen columns, its attempts, an acknowledgement.\<close>

definition frozen_columns ::
    "outbox_row \<Rightarrow> string \<times> string \<times> string \<times> string \<times> string \<times> string \<times> int \<times> string \<times> int" where
  "frozen_columns r = (ox_id r, ox_producer_id r, ox_event_id r, ox_signal_id r, ox_sha256 r,
     ox_envelope r, ox_generated_at r, ox_key_id r, ox_enqueued_at r)"

definition row_evolves :: "outbox_row \<Rightarrow> outbox_row \<Rightarrow> bool" where
  "row_evolves r s \<longleftrightarrow> frozen_columns s = frozen_columns r \<and> ox_attempts r \<le> ox_attempts s
     \<and> (ox_state r = ACKNOWLEDGED_ITEM \<longrightarrow> s = r)"

definition outbox_evolves :: "outbox \<Rightarrow> outbox \<Rightarrow> bool" where
  "outbox_evolves t u \<longleftrightarrow> prefix (ob_audit t) (ob_audit u)
     \<and> (\<exists>rs new. ob_rows u = rs @ new \<and> list_all2 row_evolves (ob_rows t) rs)"

lemma outbox_update:
  "t\<lparr>ob_rows := rs\<rparr> = \<lparr>ob_rows = rs, ob_audit = ob_audit t\<rparr>"
  "t\<lparr>ob_rows := rs, ob_audit := a\<rparr> = \<lparr>ob_rows = rs, ob_audit = a\<rparr>"
  by simp_all

section \<open>Row-wise updates\<close>

text \<open>Every command but \<open>Enqueue\<close> maps a function over the rows.\<close>

definition keeps :: "(outbox_row \<Rightarrow> outbox_row) \<Rightarrow> bool" where
  "keeps f \<longleftrightarrow> (\<forall>r. row_ok r \<longrightarrow> row_ok (f r) \<and> row_evolves r (f r))"

lemma row_evolves_refl [simp]: "row_evolves r r"
  by (simp add: row_evolves_def)

lemma row_evolves_trans: "row_evolves r s \<Longrightarrow> row_evolves s u \<Longrightarrow> row_evolves r u"
  by (auto simp: row_evolves_def)

lemma keeps_id [simp]: "keeps (\<lambda>r. r)"
  by (simp add: keeps_def)

lemma keeps_comp: "keeps f \<Longrightarrow> keeps g \<Longrightarrow> keeps (\<lambda>r. g (f r))"
  unfolding keeps_def by (blast intro: row_evolves_trans)

lemma keeps_rows:
  assumes "keeps f" and "outbox_ok t" and "prefix (ob_audit t) a"
  shows "outbox_ok \<lparr>ob_rows = map f (ob_rows t), ob_audit = a\<rparr>"
    and "outbox_evolves t \<lparr>ob_rows = map f (ob_rows t), ob_audit = a\<rparr>"
proof -
  have rows: "row_ok r \<and> row_ok (f r) \<and> row_evolves r (f r)" if "r \<in> set (ob_rows t)" for r
    using assms that by (auto simp: keeps_def outbox_ok_def list_all_iff)
  then have ids: "map (ox_id \<circ> f) (ob_rows t) = map ox_id (ob_rows t)"
    "map (identity \<circ> f) (ob_rows t) = map identity (ob_rows t)"
    by (auto simp: row_evolves_def frozen_columns_def)
  show "outbox_ok \<lparr>ob_rows = map f (ob_rows t), ob_audit = a\<rparr>"
    using assms(2) rows unfolding outbox_ok_def outbox.simps map_map ids by (simp add: list_all_iff)
  have "list_all2 row_evolves (ob_rows t) (map f (ob_rows t))"
    using rows by (simp add: list_all2_conv_all_nth)
  then show "outbox_evolves t \<lparr>ob_rows = map f (ob_rows t), ob_audit = a\<rparr>"
    using assms(3) by (auto simp: outbox_evolves_def)
qed

lemma outbox_evolves_refl [simp]: "outbox_evolves t t"
proof -
  have "list_all2 row_evolves (ob_rows t) (ob_rows t)"
    by (simp add: list_all2_conv_all_nth)
  then show ?thesis by (auto simp: outbox_evolves_def)
qed

lemma outbox_evolves_trans:
  assumes "outbox_evolves t u" and "outbox_evolves u v"
  shows "outbox_evolves t v"
proof -
  obtain rs new where u: "ob_rows u = rs @ new" "list_all2 row_evolves (ob_rows t) rs"
    using assms(1) by (auto simp: outbox_evolves_def)
  obtain rs' new' where v: "ob_rows v = rs' @ new'" "list_all2 row_evolves (rs @ new) rs'"
    using assms(2) u(1) by (auto simp: outbox_evolves_def)
  from v(2) obtain a b where a: "rs' = a @ b" "list_all2 row_evolves rs a"
    by (auto simp: list_all2_append1)
  have "list_all2 row_evolves (ob_rows t) a"
    by (rule list_all2_trans [OF row_evolves_trans u(2) a(2)])
  moreover have "prefix (ob_audit t) (ob_audit v)"
    using assms by (auto simp: outbox_evolves_def intro: prefix_order.order_trans)
  ultimately show ?thesis using v(1) a(1) by (auto simp: outbox_evolves_def)
qed

lemmas row_defs = row_ok.simps claim_columns_def unclaimed_def row_evolves_def frozen_columns_def

lemma keeps_recover_expired: "keeps (recover_expired now)"
  by (auto simp: keeps_def recover_expired_def release_row_def row_defs split: option.splits)

lemma keeps_recover_horizon: "keeps (recover_horizon now)"
  by (auto simp: keeps_def recover_horizon_def row_defs)

lemma keeps_claim:
  assumes "mode = AUTOMATIC \<Longrightarrow> (\<And>r. P r \<Longrightarrow> lease \<le> ox_generated_at r + delivery_horizon)"
    and "\<And>r. P r \<Longrightarrow> ox_state r \<noteq> ACKNOWLEDGED_ITEM"
  shows "keeps (\<lambda>r. if P r then lease_row mode w lease k now r else r)"
  using assms by (auto simp: keeps_def lease_row_def row_defs)

lemma keeps_operator_dead:
  "keeps (\<lambda>r. if ox_event_id r = e \<and> ox_state r \<in> {PENDING, RETRY_WAIT}
     then r\<lparr>ox_state := DEAD_LETTER, ox_dead_reason := Some why, ox_dead_at := Some now\<rparr> else r)"
  by (auto simp: keeps_def row_defs)

definition good_report :: "finish_report \<Rightarrow> bool" where
  "good_report p \<longleftrightarrow> fr_state p = ACKNOWLEDGED_ITEM \<and> fr_receipt p \<noteq> None
     \<or> fr_state p = RETRY_WAIT \<or> fr_state p = DEAD_LETTER \<and> fr_dead_reason p \<noteq> None"

lemma good_one_shot: "good_report p \<Longrightarrow> good_report (one_shot_report x p)"
  by (auto simp: good_report_def one_shot_report_def)

lemma keeps_finish:
  "good_report p \<Longrightarrow> (\<And>r. P r \<Longrightarrow> ox_state r = IN_FLIGHT) \<Longrightarrow>
   keeps (\<lambda>r. if P r then finish_row p now r else r)"
  by (auto simp: keeps_def finish_row_def release_row_def good_report_def row_defs)

section \<open>Every command keeps the invariant\<close>

lemma enqueue_step:
  assumes "enqueue i f now t = Inr (u, x)" and "outbox_ok t"
  shows "outbox_ok u" and "outbox_evolves t u"
proof -
  consider "u = t" | g where "find (same_identity (fz_producer_id f) (fz_event_id f)) (ob_rows t) = None"
      "i \<notin> ox_id ` set (ob_rows t)" "u = t\<lparr>ob_rows := ob_rows t @ [new_row i f g now]\<rparr>"
    using assms(1) by (auto simp: enqueue_def Let_def rbind_eq_Inr split: option.splits if_splits)
  then show "outbox_ok u"
    using assms(2) by cases (auto simp: outbox_ok_def find_None_iff same_identity_def new_row_def row_defs)
  have "list_all2 row_evolves (ob_rows t) (ob_rows t)"
    by (simp add: list_all2_conv_all_nth)
  moreover have "\<exists>new. ob_rows u = ob_rows t @ new" "ob_audit u = ob_audit t"
    using assms(1) by (auto simp: enqueue_def Let_def rbind_eq_Inr split: option.splits if_splits)
  ultimately show "outbox_evolves t u"
    unfolding outbox_evolves_def by auto
qed

lemma first_due_some:
  assumes "first_due now g rs = Some r"
  shows "r \<in> set rs" and "due now g r"
    and "s \<in> set rs \<Longrightarrow> due now g s \<Longrightarrow> ox_next_attempt_at r \<le> ox_next_attempt_at s"
proof -
  obtain l where l: "sort_key ox_next_attempt_at (sort_key ox_enqueued_at (filter (due now g) rs)) = r # l"
    using assms by (auto simp: first_due_def split: list.splits)
  have *: "set (r # l) = set (filter (due now g) rs)"
    using arg_cong [OF l, of set] by simp
  then have mem: "r \<in> set rs \<and> due now g r" by auto
  then show "r \<in> set rs" "due now g r" by auto
  have "sorted (map ox_next_attempt_at (r # l))"
    using sorted_sort_key l by metis
  then have "\<forall>s \<in> set (r # l). ox_next_attempt_at r \<le> ox_next_attempt_at s" by auto
  with * show "s \<in> set rs \<Longrightarrow> due now g s \<Longrightarrow> ox_next_attempt_at r \<le> ox_next_attempt_at s" by auto
qed

lemma first_due_none: "first_due now g rs = None \<longleftrightarrow> (\<forall>r \<in> set rs. \<not> due now g r)"
proof -
  have "first_due now g rs = None \<longleftrightarrow> filter (due now g) rs = []"
    unfolding first_due_def
    by (metis (no_types, lifting) list.exhaust list.simps(4,5) option.distinct(1) set_empty2 set_sort)
  then show ?thesis by (simp add: filter_empty_conv)
qed

lemma claim_due_step:
  assumes "claim_due w now n k t = Inr (u, x)" and "outbox_ok t"
  shows "outbox_ok u \<and> outbox_evolves t u"
proof (cases "first_due now (now + seconds n - delivery_horizon) (ob_rows t)")
  case None
  then have "u = t" using assms(1) by (auto simp: claim_due_def Let_def split: if_splits)
  then show ?thesis using assms(2) by simp
next
  case (Some c)
  define P where "P r \<longleftrightarrow> ox_id r = ox_id c \<and> ox_state r \<in> {PENDING, RETRY_WAIT}" for r :: outbox_row
  have u: "u = \<lparr>ob_rows = map (\<lambda>r. if P r then lease_row AUTOMATIC w (now + seconds n) k now r else r) (ob_rows t),
      ob_audit = ob_audit t\<rparr>"
    using assms(1) Some unfolding P_def
    by (auto simp: claim_due_def Let_def update_where_def outbox_update split: if_splits)
  have c: "c \<in> set (ob_rows t)" "due now (now + seconds n - delivery_horizon) c"
    using first_due_some [OF Some] by auto
  have P: "r = c" if "P r" "r \<in> set (ob_rows t)" for r
    using assms(2) that c(1) by (auto simp: P_def outbox_ok_def distinct_map inj_on_def)
  let ?Q = "\<lambda>r. P r \<and> r = c"
  have "keeps (\<lambda>r. if ?Q r then lease_row AUTOMATIC w (now + seconds n) k now r else r)"
    by (rule keeps_claim) (use c(2) in \<open>auto simp: due_def\<close>)
  moreover have "u = \<lparr>ob_rows = map (\<lambda>r. if ?Q r then lease_row AUTOMATIC w (now + seconds n) k now r else r)
      (ob_rows t), ob_audit = ob_audit t\<rparr>"
    unfolding u using P by (auto intro!: map_cong)
  ultimately show ?thesis
    using keeps_rows [OF _ assms(2), of _ "ob_audit t"] by simp
qed

lemma finish_step:
  assumes "finish x p now t = Inr (u, b)" and "outbox_ok t" and "good_report p"
  shows "outbox_ok u \<and> outbox_evolves t u"
proof (cases "u = t")
  case True
  then show ?thesis using assms(2) by simp
next
  case False
  obtain k l where "ox_claim_token x = Some k" "ox_lease_expires_at x = Some l"
    using assms(1) by (auto simp: finish_def split: option.splits)
  then have u: "u = \<lparr>ob_rows = map (\<lambda>r. if ox_id r = ox_id x \<and> ox_state r = IN_FLIGHT
        \<and> ox_claim_token r = Some k \<and> (case ox_lease_expires_at r of None \<Rightarrow> False | Some y \<Rightarrow> now < y)
        then finish_row (one_shot_report x p) now r else r) (ob_rows t), ob_audit = ob_audit t\<rparr>"
    using assms(1) False by (auto simp: finish_def Let_def update_where_def outbox_update split: if_splits)
  show ?thesis
    unfolding u by (intro conjI keeps_rows [OF keeps_finish assms(2)] good_one_shot assms(3)) auto
qed

lemma outbox_step:
  assumes "outbox_apply t c = Inr u" and ok: "outbox_ok t"
  shows "outbox_ok u \<and> outbox_evolves t u"
proof (cases c)
  case (Enqueue i f now)
  then show ?thesis using assms by (auto simp: rbind_eq_Inr dest: enqueue_step)
next
  case (Recover now)
  then have u: "u = \<lparr>ob_rows = map (\<lambda>r. recover_horizon now (recover_expired now r)) (ob_rows t), ob_audit = ob_audit t\<rparr>"
    using assms(1) by (auto simp: recover_def comp_def)
  show ?thesis
    unfolding u
    using keeps_rows [OF keeps_comp [OF keeps_recover_expired keeps_recover_horizon] ok] by simp
next
  case (ClaimDue w now n k)
  then show ?thesis using assms claim_due_step by (fastforce simp: rbind_eq_Inr)
next
  case (ClaimDeadLetter e w opr why now n k)
  then obtain r where "find (\<lambda>r. ox_event_id r = e \<and> ox_state r = DEAD_LETTER) (ob_rows t) = Some r"
    using assms(1) by (auto simp: rbind_eq_Inr claim_dead_letter_once_def split: option.splits if_splits)
  with ClaimDeadLetter have u: "u = \<lparr>ob_rows = map (\<lambda>s. if ox_id s = ox_id r \<and> ox_state s = DEAD_LETTER
        then lease_row OPERATOR_ONE_SHOT w (now + seconds n) k now s else s) (ob_rows t),
      ob_audit = ob_audit t @ [\<lparr>au_event_id = e, au_operator = opr, au_action = ''retry_one_shot'',
        au_reason = why, au_at = now\<rparr>]\<rparr>"
    using assms(1)
    by (auto simp: rbind_eq_Inr claim_dead_letter_once_def Let_def update_where_def outbox_update
      split: if_splits)
  show ?thesis
    unfolding u by (intro conjI keeps_rows [OF keeps_claim ok]) auto
next
  case (OperatorDeadLetter e opr why now)
  let ?rows = "map (\<lambda>r. if ox_event_id r = e \<and> ox_state r \<in> {PENDING, RETRY_WAIT}
        then r\<lparr>ox_state := DEAD_LETTER, ox_dead_reason := Some why, ox_dead_at := Some now\<rparr> else r) (ob_rows t)"
  from OperatorDeadLetter have "ob_rows u = ?rows \<and> prefix (ob_audit t) (ob_audit u)"
    using assms(1)
    by (auto simp: rbind_eq_Inr operator_dead_letter_def update_where_def outbox_update split: if_splits)
  then have rows: "ob_rows u = ?rows" and audit: "prefix (ob_audit t) (ob_audit u)" by auto
  have u: "\<lparr>ob_rows = ?rows, ob_audit = ob_audit u\<rparr> = u"
    using rows by (intro outbox.equality) simp_all
  show ?thesis
    using keeps_rows [OF keeps_operator_dead [where e = e and why = why and now = now] ok audit] unfolding u by blast
next
  case (Acknowledge x receipt res st now)
  then show ?thesis using assms finish_step
    by (fastforce simp: rbind_eq_Inr acknowledge_def good_report_def)
next
  case (Retry x nxt res st now)
  then show ?thesis using assms finish_step
    by (fastforce simp: rbind_eq_Inr retry_def good_report_def)
next
  case (DeadLetter x why res st now)
  then show ?thesis using assms finish_step
    by (fastforce simp: rbind_eq_Inr dead_letter_def good_report_def)
qed

interpretation outbox: evolving_machine outbox_apply "\<lambda>_. True" outbox_ok outbox_evolves
proof
  show "outbox_evolves t u \<Longrightarrow> outbox_evolves u v \<Longrightarrow> outbox_evolves t v" for t u v
    by (rule outbox_evolves_trans)
qed (use outbox_step in auto)

definition empty_outbox :: outbox where
  "empty_outbox = \<lparr>ob_rows = [], ob_audit = []\<rparr>"

lemma empty_outbox_ok: "outbox_ok empty_outbox"
  by (simp add: outbox_ok_def empty_outbox_def)

section \<open>Lookups\<close>

lemma find_row:
  assumes "distinct (map f rs)" and "r \<in> set rs" and "\<And>s. s \<in> set rs \<Longrightarrow> P s \<longleftrightarrow> f s = f r"
  shows "find P rs = Some r"
  using assms by (induction rs) (auto simp: inj_on_def)

lemma one_match:
  assumes "length (filter P rs) = 1"
  obtains before r after where "rs = before @ r # after" and "P r"
    and "\<forall>s \<in> set before \<union> set after. \<not> P s"
proof -
  obtain r where r: "filter P rs = [r]" using assms by (auto simp: length_Suc_conv)
  then obtain before after where *: "rs = before @ r # after" "\<forall>s \<in> set before. \<not> P s" "P r" "[] = filter P after"
    by (auto simp: filter_eq_Cons_iff)
  then have "\<forall>s \<in> set after. \<not> P s" by (metis filter_empty_conv)
  with * show ?thesis by (intro that [of before r after]) auto
qed

lemma outbox_ok_ids:
  assumes "outbox_ok t" and "ob_rows t = before @ r # after" and "s \<in> set before \<union> set after"
  shows "ox_id s \<noteq> ox_id r"
proof -
  have "ox_id r \<notin> ox_id ` (set before \<union> set after)"
    using assms(1,2) by (auto simp: outbox_ok_def)
  with assms(3) show ?thesis by (metis imageI)
qed

lemma enqueue_fresh:
  assumes "enqueue i f now t = Inr (u, x)"
    and "\<And>r. r \<in> set (ob_rows t) \<Longrightarrow> ox_producer_id r \<noteq> fz_producer_id f"
  shows "\<exists>g. u = \<lparr>ob_rows = ob_rows t @ [new_row i f g now], ob_audit = ob_audit t\<rparr>"
proof -
  have "find (same_identity (fz_producer_id f) (fz_event_id f)) (ob_rows t) = None"
    using assms(2) by (auto simp: find_None_iff same_identity_def)
  then show ?thesis
    using assms(1) by (auto simp: enqueue_def Let_def rbind_eq_Inr outbox_update split: if_splits)
qed

lemma find_decomp: "P r \<Longrightarrow> \<forall>s \<in> set before. \<not> P s \<Longrightarrow> find P (before @ r # after) = Some r"
  by (induction before) auto

lemma outbox_evolves_row:
  assumes "outbox_evolves t u" and "r \<in> set (ob_rows t)"
  obtains s where "s \<in> set (ob_rows u)" and "row_evolves r s"
proof -
  obtain rs new where u: "ob_rows u = rs @ new" "list_all2 row_evolves (ob_rows t) rs"
    using assms(1) by (auto simp: outbox_evolves_def)
  obtain i where "i < length (ob_rows t)" "ob_rows t ! i = r"
    using assms(2) by (auto simp: in_set_conv_nth)
  then have "rs ! i \<in> set (ob_rows u)" "row_evolves r (rs ! i)"
    using u by (auto simp: list_all2_conv_all_nth)
  then show ?thesis by (rule that)
qed

lemma enqueue_row:
  assumes "enqueue i f now t = Inr (u, x)"
  obtains r where "r \<in> set (ob_rows u)" and "x = from_row r"
    and "ox_producer_id r = fz_producer_id f" and "ox_event_id r = fz_event_id f"
    and "ox_sha256 r = fz_sha256 f" and "ox_envelope r = fz_envelope f" and "ox_signal_id r = fz_signal_id f"
proof (cases "find (same_identity (fz_producer_id f) (fz_event_id f)) (ob_rows t)")
  case None
  then obtain g where "u = t\<lparr>ob_rows := ob_rows t @ [new_row i f g now]\<rparr>" "x = from_row (new_row i f g now)"
    using assms by (auto simp: enqueue_def Let_def rbind_eq_Inr split: if_splits)
  then show ?thesis by (intro that [of "new_row i f g now"]) (auto simp: new_row_def)
next
  case (Some r)
  then have "r \<in> set (ob_rows t)" "same_identity (fz_producer_id f) (fz_event_id f) r"
    by (auto simp: find_Some_iff)
  then show ?thesis
    using assms Some by (intro that [of r]) (auto simp: enqueue_def same_identity_def split: if_splits)
qed

lemma claim_due_result:
  assumes "outbox_ok t" and "claim_due w now n k t = Inr (u, x)"
  shows "case x of
      None \<Rightarrow> u = t \<and> list_all (\<lambda>r. \<not> due now (now + seconds n - delivery_horizon) r) (ob_rows t)
    | Some item \<Rightarrow> \<exists>before r after.
        ob_rows t = before @ r # after \<and> due now (now + seconds n - delivery_horizon) r
        \<and> list_all (\<lambda>s. due now (now + seconds n - delivery_horizon) s \<longrightarrow>
             ox_next_attempt_at r \<le> ox_next_attempt_at s) (ob_rows t)
        \<and> u = t\<lparr>ob_rows := before @ lease_row AUTOMATIC w (now + seconds n) k now r # after\<rparr>
        \<and> item = from_row (lease_row AUTOMATIC w (now + seconds n) k now r)
        \<and> now + seconds n \<le> ox_generated_at item + delivery_horizon"
proof (cases "first_due now (now + seconds n - delivery_horizon) (ob_rows t)")
  case None
  then have "x = None \<and> u = t" using assms(2) by (auto simp: claim_due_def Let_def split: if_splits)
  then show ?thesis using None by (simp add: first_due_none list_all_iff)
next
  case (Some r)
  let ?claim = "lease_row AUTOMATIC w (now + seconds n) k now"
  have r: "r \<in> set (ob_rows t)" "due now (now + seconds n - delivery_horizon) r"
    using first_due_some [OF Some] by auto
  obtain before after where t: "ob_rows t = before @ r # after"
    using r(1) by (auto simp: in_set_conv_decomp)
  have others: "\<forall>s \<in> set before \<union> set after. ox_id s \<noteq> ox_id r"
    using outbox_ok_ids [OF assms(1) t] by blast
  have u: "u = t\<lparr>ob_rows := before @ ?claim r # after\<rparr> \<and>
    x = Some (from_row (?claim r))"
    using assms(2) Some t r(2) others
    by (auto simp: claim_due_def Let_def update_where_def due_def lease_row_def map_idI
      find_decomp filter_False split: if_splits)
  have "now + seconds n \<le> ox_generated_at (from_row (?claim r)) + delivery_horizon"
    using r(2) by (simp add: due_def from_row_def outbox_item.truncate_def lease_row_def)
  then show ?thesis
    using u t r first_due_some(3) [OF Some] by (auto simp: list_all_iff)
qed


lemma finish_rows:
  assumes "finish x p now t = Inr (u, b)" and "s \<in> set (ob_rows u)"
  shows "s \<in> set (ob_rows t)
    \<or> (\<exists>r \<in> set (ob_rows t). ox_id r = ox_id x \<and> s = finish_row (one_shot_report x p) now r)"
proof -
  obtain k l where "ox_claim_token x = Some k" "ox_lease_expires_at x = Some l"
    using assms(1) by (auto simp: finish_def split: option.splits)
  then show ?thesis
    using assms by (auto simp: finish_def Let_def update_where_def split: if_splits)
qed

end
