(* ===== verification/Outbox_Claims.thy ===== *)
theory Outbox_Claims
  imports Outbox_Props
begin

text \<open>
  What the outbox promises its producers and workers, as properties over runs of its commands, with
  a concrete table of one event as witness.
\<close>

section \<open>Invariant and history\<close>

text \<open>
  C30. In every table the outbox can reach, row ids and (producer, event) pairs are unique, the claim
  columns are set exactly on rows in flight, an automatic lease ends no later than the delivery
  horizon of its event (the lease of an operator's one-shot attempt may end later), an acknowledged row
  has its receipt and a dead one its reason.
\<close>

theorem outbox_runs_ok:
  assumes "rfold outbox_apply empty_outbox cs = Inr t"
  shows "outbox_ok t"
  by (rule outbox.run_inv [OF assms empty_outbox_ok]) (simp add: list_all_iff)

text \<open>
  C31. Over any run no row is removed or reordered, its frozen columns never change, its attempts never
  decrease, an acknowledged row stays as it is, and the operator audit only grows.
\<close>

theorem outbox_history:
  assumes "rfold outbox_apply t cs = Inr u" and "outbox_ok t"
  shows "outbox_evolves t u"
  by (rule outbox.run_evolves [OF assms]) (simp add: list_all_iff)

text \<open>
  C36. An enqueue is safe to repeat: after any later run of the outbox, enqueueing the same envelope
  again returns the row of the first call with its frozen bytes and leaves the table unchanged.
\<close>

theorem enqueue_repeatable:
  assumes "outbox_ok t" and "enqueue i f now t = Inr (u, x)" and "rfold outbox_apply u cs = Inr v"
  shows "\<exists>y. enqueue j f later v = Inr (v, y) \<and> ox_id y = ox_id x \<and> ox_envelope y = fz_envelope f"
proof -
  have u: "outbox_ok u" using assms(1,2) by (auto dest: enqueue_step)
  have v: "outbox_ok v" "outbox_evolves u v"
    by (rule outbox.run_inv [OF assms(3) u] outbox.run_evolves [OF assms(3) u], simp add: list_all_iff)+
  obtain r where r: "r \<in> set (ob_rows u)" "x = from_row r" "ox_producer_id r = fz_producer_id f"
    "ox_event_id r = fz_event_id f" "ox_sha256 r = fz_sha256 f" "ox_envelope r = fz_envelope f"
    "ox_signal_id r = fz_signal_id f"
    using assms(2) by (rule enqueue_row)
  obtain s where s: "s \<in> set (ob_rows v)" "row_evolves r s"
    using v(2) r(1) by (rule outbox_evolves_row)
  have "find (same_identity (fz_producer_id f) (fz_event_id f)) (ob_rows v) = Some s"
    using v(1) s r by (intro find_row [where f = identity])
      (auto simp: outbox_ok_def same_identity_def row_evolves_def frozen_columns_def)
  then show ?thesis
    using r s by (auto simp: enqueue_def row_evolves_def frozen_columns_def from_row_def outbox_item.truncate_def)
qed

section \<open>Claims\<close>

text \<open>
  C33. An automatic claim takes a due row that no other due row precedes, puts it in flight under the
  caller's token with a lease that ends before the delivery horizon, and changes no other row; it
  returns nothing exactly when no row is due.
\<close>

theorem claim_due_sound:
  assumes "outbox_ok t" and "claim_due w now n k t = Inr (u, x)"
  shows "case x of
      None \<Rightarrow> u = t \<and> list_all (\<lambda>r. \<not> due now (now + seconds n - delivery_horizon) r) (ob_rows t)
    | Some item \<Rightarrow> \<exists>before r after.
        ob_rows t = before @ r # after \<and> due now (now + seconds n - delivery_horizon) r
        \<and> list_all (\<lambda>s. due now (now + seconds n - delivery_horizon) s \<longrightarrow>
             ox_next_attempt_at r \<le> ox_next_attempt_at s) (ob_rows t)
        \<and> u = t\<lparr>ob_rows := before @ lease_row AUTOMATIC w (now + seconds n) k now r # after\<rparr>
        \<and> item = from_row (lease_row AUTOMATIC w (now + seconds n) k now r)
        \<and> now + seconds n \<le> ox_generated_at item + delivery_horizon"
  using claim_due_result [OF assms] .

text \<open>
  C32. A worker finishes a claim only while it holds it: success means the row was in flight under the
  worker's token with an unexpired lease; the claim is released, every other row is untouched, and
  the same worker cannot finish it a second time.
\<close>

theorem finish_fenced:
  assumes "outbox_ok t" and "finish x p now t = Inr (u, True)"
  shows "\<exists>before r after. ob_rows t = before @ r # after \<and> ox_id r = ox_id x
    \<and> ox_state r = IN_FLIGHT \<and> ox_claim_token r \<noteq> None \<and> ox_claim_token r = ox_claim_token x
    \<and> (\<exists>lease. ox_lease_expires_at r = Some lease \<and> now < lease)
    \<and> u = t\<lparr>ob_rows := before @ finish_row (one_shot_report x p) now r # after\<rparr>
    \<and> (\<forall>q later v. finish x q later u \<noteq> Inr (v, True))"
proof -
  obtain k l where x: "ox_claim_token x = Some k" "ox_lease_expires_at x = Some l"
    using assms(2) by (auto simp: finish_def split: option.splits)
  define Q where "Q time r \<longleftrightarrow> ox_id r = ox_id x \<and> ox_state r = IN_FLIGHT \<and> ox_claim_token r = Some k
    \<and> (case ox_lease_expires_at r of None \<Rightarrow> False | Some y \<Rightarrow> time < y)" for time and r :: outbox_row
  let ?f = "finish_row (one_shot_report x p) now"
  have fin: "finish x q later s = (if l \<le> later then Inr (s, False)
      else if fr_state (one_shot_report x q) = RETRY_WAIT \<and> fr_next_attempt (one_shot_report x q) = None
      then Inl (PipValueError ''retry_wait requires next_attempt_at'')
      else Inr (s\<lparr>ob_rows := map (\<lambda>r. if Q later r then finish_row (one_shot_report x q) later r else r) (ob_rows s)\<rparr>,
        length (filter (Q later) (ob_rows s)) = 1))" for q later s
    unfolding finish_def x Q_def update_where_def by (simp add: Let_def)
  have one: "length (filter (Q now) (ob_rows t)) = 1"
    and u: "u = t\<lparr>ob_rows := map (\<lambda>r. if Q now r then ?f r else r) (ob_rows t)\<rparr>"
    using assms(2) unfolding fin by (auto split: if_splits)
  obtain before r after where t: "ob_rows t = before @ r # after" "Q now r"
    and others: "\<forall>s \<in> set before \<union> set after. \<not> Q now s"
    using one by (rule one_match)
  have rows: "ob_rows u = before @ ?f r # after"
    unfolding u t(1) using t(2) others by (simp add: map_idI)
  have "\<forall>s \<in> set before \<union> set after. ox_id s \<noteq> ox_id r"
    using outbox_ok_ids [OF assms(1) t(1)] by blast
  then have "\<not> Q later s" if "s \<in> set (ob_rows u)" for later s
    using that t(2) unfolding rows by (auto simp: Q_def finish_row_def release_row_def)
  then have "finish x q later u \<noteq> Inr (v, True)" for q later v
    unfolding fin by (simp add: filter_empty_conv [THEN iffD2])
  then show ?thesis
    using t x rows u by (auto simp: Q_def split: option.splits)
qed

section \<open>Recovery\<close>

text \<open>
  C35. Recovery ends every delivery at its horizon: once a row is seven days past its generation, after
  the next recovery it is acknowledged or dead, except for an operator's one-shot attempt still
  holding an unexpired lease.
\<close>

theorem recover_ends_deliveries:
  assumes "outbox_ok t" and "r \<in> set (ob_rows (recover now t))"
    and "ox_generated_at r + delivery_horizon \<le> now"
  shows "ox_state r = ACKNOWLEDGED_ITEM \<or> ox_state r = DEAD_LETTER
    \<or> ox_state r = IN_FLIGHT \<and> ox_claim_mode r = Some OPERATOR_ONE_SHOT
      \<and> (\<exists>lease. ox_lease_expires_at r = Some lease \<and> now < lease)"
proof -
  obtain s where s: "s \<in> set (ob_rows t)" "r = recover_horizon now (recover_expired now s)"
    using assms(2) by (auto simp: recover_def)
  have "row_ok s" using assms(1) s(1) by (simp add: outbox_ok_def list_all_iff)
  then show ?thesis
    using assms(3) unfolding s(2)
    by (cases "ox_state s"; cases "ox_claim_mode s" rule: option.exhaust)
      (auto simp: recover_horizon_def recover_expired_def release_row_def row_ok.simps claim_columns_def
        split: option.splits if_splits claim_mode.splits intro: claim_mode.exhaust)
qed

section \<open>Operator commands\<close>

text \<open>
  \<^verbatim>\<open>operator_dead_letter\<close> selects by event id alone although rows are unique only per
  (producer, event): when two producers used one event id it dead-letters both rows, reports that it
  changed nothing and leaves no audit entry.
\<close>

theorem operator_dead_letter_two_producers:
  assumes "rfold outbox_apply empty_outbox [Enqueue i f now, Enqueue j g now] = Inr t"
    and "fz_event_id f = fz_event_id g" and "fz_producer_id f \<noteq> fz_producer_id g"
    and "strip operator \<noteq> []" and "strip reason \<noteq> []"
  shows "\<exists>u. operator_dead_letter (fz_event_id f) operator reason later t = Inr (u, False)
    \<and> count_state t PENDING = 2 \<and> count_state u DEAD_LETTER = 2 \<and> ob_audit u = []"
proof -
  obtain s x y where s: "enqueue i f now empty_outbox = Inr (s, x)" "enqueue j g now s = Inr (t, y)"
    using assms(1) by (auto simp: rbind_eq_Inr)
  obtain a where a: "s = \<lparr>ob_rows = [new_row i f a now], ob_audit = []\<rparr>"
    using enqueue_fresh [OF s(1)] by (auto simp: empty_outbox_def)
  have "ox_producer_id r \<noteq> fz_producer_id g" if "r \<in> set (ob_rows s)" for r
    using that assms(3) by (simp add: a new_row_def)
  then obtain b where t: "t = \<lparr>ob_rows = [new_row i f a now, new_row j g b now], ob_audit = []\<rparr>"
    using enqueue_fresh [OF s(2)] by (auto simp: a)
  show ?thesis
    using assms(2,4,5) unfolding t
    by (simp add: operator_dead_letter_def update_where_def count_state_def new_row_def)
qed

end
