(* ===== verification/Outbox_Samples.thy ===== *)
theory Outbox_Samples
  imports Outbox_Claims
begin

text \<open>
  One signed event, the table of its delivery (enqueued, claimed, finished) and a second producer
  that reuses its event id: the concrete runs at which the outbox properties apply.
\<close>

definition sample_instant :: "int \<Rightarrow> datetime" where
  "sample_instant s = \<lparr>dt_micros = seconds s, dt_offset = Some 0\<rparr>"

definition sample_envelope :: "string \<Rightarrow> frozen_envelope" where
  "sample_envelope producer =
     \<lparr>fz_producer_id = producer, fz_event_id = ''evt-1'', fz_signal_id = ''sig-1'',
      fz_generated_at = sample_instant 100, fz_key_id = ''key-1'', fz_sha256 = ''aa'',
      fz_canonical = ''{}'', fz_envelope = ''{signed}''\<rparr>"

definition sample_outbox :: outbox where
  "sample_outbox = \<lparr>ob_rows = [new_row ''pob_1'' (sample_envelope ''hermes'') (seconds 100) (seconds 101)],
     ob_audit = []\<rparr>"

definition sample_row :: outbox_row where
  "sample_row = lease_row AUTOMATIC ''worker'' (seconds 162) ''token'' (seconds 102)
     (new_row ''pob_1'' (sample_envelope ''hermes'') (seconds 100) (seconds 101))"

definition sample_claimed :: outbox where
  "sample_claimed = \<lparr>ob_rows = [sample_row], ob_audit = []\<rparr>"

definition sample_report :: finish_report where
  "sample_report = \<lparr>fr_state = ACKNOWLEDGED_ITEM, fr_result = ''accepted'', fr_status = Some 200,
     fr_receipt = Some ''rcpt'', fr_next_attempt = None, fr_dead_reason = None\<rparr>"

definition sample_enqueue :: outbox_command where
  "sample_enqueue = Enqueue ''pob_1'' (sample_envelope ''hermes'') (seconds 101)"

definition sample_claim :: outbox_command where
  "sample_claim = ClaimDue ''worker'' (seconds 102) 60 ''token''"

lemma sample_enqueued: "outbox_apply empty_outbox sample_enqueue = Inr sample_outbox"
  by (simp add: sample_enqueue_def enqueue_def empty_outbox_def sample_envelope_def sample_instant_def
    outbox_ts_def dt_aware_def sample_outbox_def Let_def)

lemma sample_claims:
  "claim_due ''worker'' (seconds 102) 60 ''token'' sample_outbox =
     Inr (sample_claimed, Some (from_row sample_row))"
  by (simp add: claim_due_def sample_outbox_def valid_lease_def Let_def first_due_def due_def
    new_row_def seconds_def delivery_horizon_def update_where_def sample_claimed_def sample_row_def
    lease_row_def)

lemma sample_run: "rfold outbox_apply empty_outbox [sample_enqueue, sample_claim] = Inr sample_claimed"
  by (simp add: sample_enqueued sample_claim_def sample_claims)

lemma sample_ok: "outbox_ok sample_outbox" "outbox_ok sample_claimed"
  using outbox.run_inv [OF sample_run empty_outbox_ok] outbox_step [OF sample_enqueued empty_outbox_ok]
  by simp_all

theorem outbox_runs_ok_witness:
  "\<exists>t. rfold outbox_apply empty_outbox [sample_enqueue, sample_claim] = Inr t \<and> outbox_ok t"
  using outbox_runs_ok [OF sample_run] sample_run by blast

theorem outbox_history_witness:
  "\<exists>t. rfold outbox_apply empty_outbox [sample_enqueue, sample_claim] = Inr t
     \<and> outbox_evolves empty_outbox t"
  using outbox_history [OF sample_run empty_outbox_ok] sample_run by blast

theorem enqueue_repeatable_witness:
  "\<exists>y. enqueue ''pob_2'' (sample_envelope ''hermes'') (seconds 105) sample_claimed = Inr (sample_claimed, y)
     \<and> ox_id y = ''pob_1'' \<and> ox_envelope y = ''{signed}''"
proof -
  let ?r = "new_row ''pob_1'' (sample_envelope ''hermes'') (seconds 100) (seconds 101)"
  have e: "enqueue ''pob_1'' (sample_envelope ''hermes'') (seconds 101) empty_outbox =
      Inr (sample_outbox, from_row ?r)"
    by (simp add: enqueue_def empty_outbox_def sample_envelope_def sample_instant_def outbox_ts_def
      dt_aware_def sample_outbox_def Let_def)
  have run: "rfold outbox_apply sample_outbox [sample_claim] = Inr sample_claimed"
    by (simp add: sample_claim_def sample_claims)
  show ?thesis
    using enqueue_repeatable [OF empty_outbox_ok e run, of "''pob_2''" "seconds 105"]
    by (simp add: sample_envelope_def from_row_def outbox_item.truncate_def new_row_def)
qed

theorem claim_due_sound_witness:
  "\<exists>before r after. ob_rows sample_outbox = before @ r # after
     \<and> sample_claimed = sample_outbox\<lparr>ob_rows := before @
         lease_row AUTOMATIC ''worker'' (seconds 102 + seconds 60) ''token'' (seconds 102) r # after\<rparr>"
  using claim_due_sound [OF sample_ok(1) sample_claims] by auto

theorem finish_fenced_witness:
  "\<exists>u. finish (from_row sample_row) sample_report (seconds 110) sample_claimed = Inr (u, True)
     \<and> finish (from_row sample_row) sample_report (seconds 111) u \<noteq> Inr (u, True)"
proof -
  have "\<exists>u. finish (from_row sample_row) sample_report (seconds 110) sample_claimed = Inr (u, True)"
    by (simp add: finish_def sample_claimed_def sample_row_def lease_row_def new_row_def sample_report_def
      one_shot_report_def from_row_def outbox_item.truncate_def update_where_def seconds_def)
  then obtain u where u: "finish (from_row sample_row) sample_report (seconds 110) sample_claimed = Inr (u, True)" ..
  then show ?thesis using finish_fenced [OF sample_ok(2) u] by blast
qed

theorem recover_ends_deliveries_witness:
  "\<exists>r. r \<in> set (ob_rows (recover (seconds 700000) sample_claimed)) \<and>
     ox_state r \<in> {ACKNOWLEDGED_ITEM, DEAD_LETTER}"
proof -
  let ?r = "recover_horizon (seconds 700000) (recover_expired (seconds 700000) sample_row)"
  have "?r \<in> set (ob_rows (recover (seconds 700000) sample_claimed))"
    by (simp add: recover_def sample_claimed_def)
  moreover have "ox_generated_at ?r + delivery_horizon \<le> seconds 700000" "ox_state ?r \<noteq> IN_FLIGHT"
    by (simp_all add: recover_horizon_def recover_expired_def release_row_def sample_row_def lease_row_def
      new_row_def seconds_def delivery_horizon_def)
  ultimately show ?thesis using recover_ends_deliveries [OF sample_ok(2)] by (metis insertCI)
qed

theorem operator_dead_letter_two_producers_witness:
  "\<exists>t u. rfold outbox_apply empty_outbox [Enqueue ''pob_1'' (sample_envelope ''hermes'') (seconds 101),
       Enqueue ''pob_2'' (sample_envelope ''scanner'') (seconds 101)] = Inr t
     \<and> operator_dead_letter ''evt-1'' ''ops'' ''manual'' (seconds 103) t = Inr (u, False)
     \<and> count_state u DEAD_LETTER = 2"
proof -
  have "is_ok (rfold outbox_apply empty_outbox [Enqueue ''pob_1'' (sample_envelope ''hermes'') (seconds 101),
       Enqueue ''pob_2'' (sample_envelope ''scanner'') (seconds 101)])"
    by code_simp
  then obtain t where t: "rfold outbox_apply empty_outbox [Enqueue ''pob_1'' (sample_envelope ''hermes'') (seconds 101),
       Enqueue ''pob_2'' (sample_envelope ''scanner'') (seconds 101)] = Inr t"
    by (auto simp: is_ok_iff)
  have names: "fz_event_id (sample_envelope ''hermes'') = fz_event_id (sample_envelope ''scanner'')"
    "fz_producer_id (sample_envelope ''hermes'') \<noteq> fz_producer_id (sample_envelope ''scanner'')"
    by (simp_all add: sample_envelope_def)
  have named: "strip ''ops'' \<noteq> []" "strip ''manual'' \<noteq> []" by code_simp+
  show ?thesis
    using operator_dead_letter_two_producers [OF t names named, of "seconds 103"] t
    by (auto simp: sample_envelope_def)
qed

end
