(* ===== verification/Delivery.thy ===== *)
theory Delivery
  imports Outbox Json
begin

text \<open>
  \<open>weatherbot/pip/runtime.py\<close>: one bounded delivery attempt of an outbox row. The HTTP exchange
  is a value: a network failure, or a status with the decoded chunks of the body. \<open>loads\<close> stands
  for \<^verbatim>\<open>json.loads\<close> on the body (\<open>None\<close> when it raises), \<open>jitter\<close> for the value
  \<^verbatim>\<open>random.uniform\<close> draws between its bounds, \<open>finished\<close> for the clock after the request.
\<close>

datatype http_reply = NetworkFailure string | Reply int "string list"

definition max_result_bytes :: nat where
  "max_result_bytes = 65536"

definition retry_base_seconds :: rat where
  "retry_base_seconds = 1"

definition retry_max_seconds :: rat where
  "retry_max_seconds = 60"

definition retry_exponent_cap :: int where
  "retry_exponent_cap = 10"

record delivery_result =
  dr_disposition :: string
  dr_class :: string
  dr_receipt :: "string option"
  dr_reason :: "string option"
  dr_retry_after :: "int option"

section \<open>Reading the reply\<close>

fun bounded_chunks :: "nat \<Rightarrow> string list \<Rightarrow> string list \<Rightarrow> string pip" where
  "bounded_chunks size_read chunks [] = Inr (concat chunks)"
| "bounded_chunks size_read chunks (c # cs) =
     (if max_result_bytes < size_read + length c
      then Inl (PipExportError ''PIP result body exceeds 65536 decoded bytes'')
      else bounded_chunks (size_read + length c) (chunks @ [c]) cs)"

definition bounded_body :: "string list \<Rightarrow> string pip" where
  "bounded_body cs = bounded_chunks 0 [] cs"

text \<open>Membership in a set of strings hashes the value: a list or an object raises TypeError.\<close>

definition in_names :: "json option \<Rightarrow> string list \<Rightarrow> bool pip" where
  "in_names v names =
     (case v of
        Some (JArr _) \<Rightarrow> Inl (PipTypeError ''unhashable type: list'')
      | Some (JObj _) \<Rightarrow> Inl (PipTypeError ''unhashable type: dict'')
      | Some (JStr s) \<Rightarrow> Inr (s \<in> set names)
      | _ \<Rightarrow> Inr False)"

definition same_keys :: "(string \<times> json) list \<Rightarrow> string list \<Rightarrow> bool" where
  "same_keys d ks \<longleftrightarrow> list_all (\<lambda>k. k \<in> set ks) (map fst d) \<and> list_all (\<lambda>k. k \<in> set (map fst d)) ks"

definition nonblank_str :: "json option \<Rightarrow> string option" where
  "nonblank_str v = (case v of Some (JStr s) \<Rightarrow> if s = [] then None else Some s | _ \<Rightarrow> None)"

definition bound_to :: "(string \<times> json) list \<Rightarrow> outbox_item \<Rightarrow> bool" where
  "bound_to e item \<longleftrightarrow>
     map_of e ''producer_id'' = Some (JStr (ox_producer_id item))
     \<and> map_of e ''event_id'' = Some (JStr (ox_event_id item))
     \<and> map_of e ''event_sha256'' = Some (JStr (ox_sha256 item))"

definition parse_acceptance :: "(string \<times> json) list \<Rightarrow> string \<Rightarrow> delivery_result pip" where
  "parse_acceptance d disposition =
     (if \<not> same_keys d [''contract'', ''protocol_version'', ''disposition'', ''event'', ''receipt_id'']
      then Inl (PipExportError ''PIP acceptance result contains unexpected fields'')
      else case nonblank_str (map_of d ''receipt_id'') of
             None \<Rightarrow> Inl (PipExportError ''PIP acceptance result has no receipt_id'')
           | Some receipt \<Rightarrow> Inr \<lparr>dr_disposition = disposition, dr_class = disposition,
               dr_receipt = Some receipt, dr_reason = None, dr_retry_after = None\<rparr>)"

definition retry_after_ms :: "json option \<Rightarrow> int option pip" where
  "retry_after_ms v =
     (case v of
        None \<Rightarrow> Inr None
      | Some JNull \<Rightarrow> Inr None
      | Some (JInt n) \<Rightarrow>
          if 0 \<le> n \<and> n \<le> 86400000 then Inr (Some n)
          else Inl (PipExportError ''PIP retry result has invalid retry_after_ms'')
      | _ \<Rightarrow> Inl (PipExportError ''PIP retry result has invalid retry_after_ms''))"

definition parse_retry :: "(string \<times> json) list \<Rightarrow> delivery_result pip" where
  "parse_retry d =
     (if \<not> list_all (\<lambda>k. k \<in> set [''contract'', ''protocol_version'', ''disposition'', ''event'',
            ''reason_code'', ''retry_after_ms'']) (map fst d) \<or> map_of d ''reason_code'' = None
      then Inl (PipExportError ''PIP retry result has invalid fields'')
      else case nonblank_str (map_of d ''reason_code'') of
             None \<Rightarrow> Inl (PipExportError ''PIP retry result has invalid reason_code'')
           | Some reason \<Rightarrow> rbind (retry_after_ms (map_of d ''retry_after_ms'')) (\<lambda>after.
               Inr \<lparr>dr_disposition = ''retry'', dr_class = ''retry'', dr_receipt = None,
                 dr_reason = Some reason, dr_retry_after = after\<rparr>))"

definition rejection_categories :: "string list" where
  "rejection_categories = [''invalid_envelope'', ''authentication'', ''lifecycle'', ''identity_conflict'',
     ''unsupported_version'', ''payload_limit'', ''policy'', ''other'']"

definition parse_rejection :: "(string \<times> json) list \<Rightarrow> delivery_result pip" where
  "parse_rejection d =
     (if \<not> same_keys d [''contract'', ''protocol_version'', ''disposition'', ''event'', ''category'', ''reason_code'']
      then Inl (PipExportError ''PIP rejection result has invalid fields'')
      else rbind (in_names (map_of d ''category'') rejection_categories) (\<lambda>known.
        case (known, map_of d ''category'', nonblank_str (map_of d ''reason_code'')) of
          (True, Some (JStr category), Some reason) \<Rightarrow>
            Inr \<lparr>dr_disposition = ''rejected'', dr_class = ''rejected:'' @ category, dr_receipt = None,
              dr_reason = Some reason, dr_retry_after = None\<rparr>
        | _ \<Rightarrow> Inl (PipExportError ''PIP rejection result has invalid category/reason'')))"

definition parse_delivery_result ::
    "(string \<Rightarrow> json option) \<Rightarrow> string \<Rightarrow> outbox_item \<Rightarrow> delivery_result pip" where
  "parse_delivery_result loads body item =
     (case loads body of
        None \<Rightarrow> Inl (PipExportError ''PIP returned malformed delivery-result JSON'')
      | Some (JObj d) \<Rightarrow>
          if map_of d ''contract'' \<noteq> Some (JStr ''pip.event-delivery-result'')
             \<or> map_of d ''protocol_version'' \<noteq> Some (JStr ''1'')
          then Inl (PipExportError ''PIP returned an unknown delivery-result contract/version'')
          else (case map_of d ''event'' of
              Some (JObj e) \<Rightarrow>
                if \<not> same_keys e [''producer_id'', ''event_id'', ''event_sha256'']
                then Inl (PipExportError ''PIP delivery result has an invalid event binding'')
                else if \<not> bound_to e item
                then Inl (PipExportError ''PIP delivery result does not bind to the attempted event'')
                else rbind (in_names (map_of d ''disposition'') [''accepted'', ''already_accepted'']) (\<lambda>accepted.
                  case (accepted, map_of d ''disposition'') of
                    (True, Some (JStr s)) \<Rightarrow> parse_acceptance d s
                  | (_, Some (JStr s)) \<Rightarrow>
                      if s = ''retry'' then parse_retry d
                      else if s = ''rejected'' then parse_rejection d
                      else Inl (PipExportError ''PIP delivery result has an unknown disposition'')
                  | _ \<Rightarrow> Inl (PipExportError ''PIP delivery result has an unknown disposition''))
            | _ \<Rightarrow> Inl (PipExportError ''PIP delivery result is missing its event binding''))
      | Some _ \<Rightarrow> Inl (PipExportError ''PIP delivery result must be an object''))"

section \<open>Backoff\<close>

definition retry_delay_bounds :: "int \<Rightarrow> (rat \<times> rat) pip" where
  "retry_delay_bounds attempts =
     (if attempts < 1 then Inl (PipValueError ''PIP retry attempt_count must be at least 1'')
      else let exponent = min (max (attempts - 1) 0) retry_exponent_cap;
               raw = min retry_max_seconds (retry_base_seconds * 2 ^ nat exponent)
           in Inr (raw / 2, raw))"

text \<open>\<open>jitter\<close> maps the two bounds to the drawn value.\<close>

definition retry_delay ::
    "(rat \<Rightarrow> rat \<Rightarrow> rat) \<Rightarrow> outbox_item \<Rightarrow> delivery_result option \<Rightarrow> rat pip" where
  "retry_delay jitter item result =
     rbind (retry_delay_bounds (int (ox_attempts item))) (\<lambda>b.
       let delay = jitter (fst b) (snd b);
           delay' = (case result of
               Some r \<Rightarrow> (case dr_retry_after r of Some ms \<Rightarrow> max delay (of_int ms / 1000) | None \<Rightarrow> delay)
             | None \<Rightarrow> delay)
       in Inr (min delay' retry_max_seconds))"

text \<open>\<^verbatim>\<open>timedelta(seconds=delay)\<close> keeps whole microseconds.\<close>

definition delay_micros :: "rat \<Rightarrow> timedelta" where
  "delay_micros d = round_half_even (d * 1000000)"

definition terminal_status_matches_result :: "int \<Rightarrow> delivery_result \<Rightarrow> bool" where
  "terminal_status_matches_result status r =
     (if dr_disposition r \<in> {''accepted'', ''already_accepted''}
      then 200 \<le> status \<and> status < 300 \<and> status \<noteq> 202
      else if dr_disposition r = ''rejected''
      then 400 \<le> status \<and> status < 500 \<and> status \<noteq> 429
      else False)"

section \<open>One attempt\<close>

definition read_reply ::
    "(string \<Rightarrow> json option) \<Rightarrow> int \<Rightarrow> string list \<Rightarrow> outbox_item \<Rightarrow> delivery_result pip" where
  "read_reply loads status chunks item =
     (if 300 \<le> status \<and> status < 400 then Inl (PipExportError ''PIP redirects are never followed'')
      else rbind (bounded_body chunks) (\<lambda>body. parse_delivery_result loads body item))"

definition retry_later ::
    "(rat \<Rightarrow> rat \<Rightarrow> rat) \<Rightarrow> outbox_item \<Rightarrow> delivery_result option \<Rightarrow> string \<Rightarrow> int option \<Rightarrow> int \<Rightarrow>
     outbox \<Rightarrow> (outbox \<times> bool) pip" where
  "retry_later jitter item result cls status finished t =
     rbind (retry_delay jitter item result) (\<lambda>delay.
       retry item (finished + delay_micros delay) cls status finished t)"

definition deliver_claimed ::
    "(string \<Rightarrow> json option) \<Rightarrow> (rat \<Rightarrow> rat \<Rightarrow> rat) \<Rightarrow> http_reply \<Rightarrow> int \<Rightarrow> outbox_item \<Rightarrow>
     outbox \<Rightarrow> (outbox \<times> bool) pip" where
  "deliver_claimed loads jitter reply finished item t =
     (case reply of
        NetworkFailure cls \<Rightarrow> retry_later jitter item None (''network:'' @ cls) None finished t
      | Reply status chunks \<Rightarrow>
          (case read_reply loads status chunks item of
             Inl (PipExportError _) \<Rightarrow>
               retry_later jitter item None ''ambiguous:PipExportError'' (Some status) finished t
           | Inl e \<Rightarrow> Inl e
           | Inr r \<Rightarrow>
               if dr_disposition r = ''retry''
               then retry_later jitter item (Some r) (dr_class r) (Some status) finished t
               else if \<not> terminal_status_matches_result status r
               then retry_later jitter item None (''http:'' @ show_int status @ '':'' @ dr_class r)
                      (Some status) finished t
               else if dr_disposition r \<in> {''accepted'', ''already_accepted''}
               then (case dr_receipt r of
                       None \<Rightarrow> Inl PipAssertionError
                     | Some receipt \<Rightarrow> acknowledge item receipt (dr_class r) (Some status) finished t)
               else if dr_disposition r = ''rejected''
               then dead_letter item
                      (case dr_reason r of None \<Rightarrow> ''pip.rejected''
                       | Some s \<Rightarrow> if s = [] then ''pip.rejected'' else s)
                      (dr_class r) (Some status) finished t
               else Inl PipAssertionError))"

text \<open>
  The worker: each outbox call commits by itself, so when a later call raises, the earlier ones stay.
  The first component is the table left behind, the second what the caller sees.
\<close>

definition deliver_once ::
    "bool \<Rightarrow> (string \<Rightarrow> json option) \<Rightarrow> (rat \<Rightarrow> rat \<Rightarrow> rat) \<Rightarrow> string \<Rightarrow> string \<Rightarrow> int \<Rightarrow>
     (outbox_item \<Rightarrow> http_reply) \<Rightarrow> int \<Rightarrow> outbox \<Rightarrow> outbox \<times> bool pip" where
  "deliver_once enabled loads jitter worker token now post finished t =
     (if \<not> enabled then (t, Inr False)
      else let t1 = recover now t in
        case claim_due worker now 60 token t1 of
          Inl e \<Rightarrow> (t1, Inl e)
        | Inr (t2, None) \<Rightarrow> (t2, Inr False)
        | Inr (t2, Some item) \<Rightarrow>
            (case deliver_claimed loads jitter (post item) finished item t2 of
               Inl e \<Rightarrow> (t2, Inl e)
             | Inr (t3, _) \<Rightarrow> (t3, Inr True)))"

definition deliver_dead_letter_once ::
    "bool \<Rightarrow> (string \<Rightarrow> json option) \<Rightarrow> (rat \<Rightarrow> rat \<Rightarrow> rat) \<Rightarrow> string \<Rightarrow> string \<Rightarrow> string \<Rightarrow> string \<Rightarrow>
     string \<Rightarrow> int \<Rightarrow> (outbox_item \<Rightarrow> http_reply) \<Rightarrow> int \<Rightarrow> outbox \<Rightarrow> outbox \<times> bool pip" where
  "deliver_dead_letter_once enabled loads jitter event_id operator reason worker token now post finished t =
     (if \<not> enabled then (t, Inr False)
      else let t1 = recover now t in
        case claim_dead_letter_once event_id worker operator reason now 60 token t1 of
          Inl e \<Rightarrow> (t1, Inl e)
        | Inr (t2, None) \<Rightarrow> (t2, Inl PipAssertionError)
        | Inr (t2, Some item) \<Rightarrow>
            (case deliver_claimed loads jitter (post item) finished item t2 of
               Inl e \<Rightarrow> (t2, Inl e)
             | Inr (t3, _) \<Rightarrow> (t3, Inr True)))"

end
