(* ===== verification/Delivery_Props.thy ===== *)
theory Delivery_Props
  imports Outbox_Samples Delivery
begin

text \<open>
  What a delivery attempt may do to the outbox: it acknowledges only on an acceptance bound to the
  attempted event, retries within the fixed backoff, and the one reply that escapes the error
  handling.
\<close>

section \<open>Replies\<close>

lemma parse_acceptance_receipt:
  assumes "parse_acceptance d s = Inr r"
  obtains receipt where "r = \<lparr>dr_disposition = s, dr_class = s, dr_receipt = Some receipt,
      dr_reason = None, dr_retry_after = None\<rparr>"
    and "map_of d ''receipt_id'' = Some (JStr receipt)" and "receipt \<noteq> []"
  using assms
  by (auto simp: parse_acceptance_def nonblank_str_def split: if_splits option.splits json.splits)

lemma parse_other_disposition:
  "parse_retry d = Inr r \<Longrightarrow> dr_disposition r = ''retry''"
  "parse_rejection d = Inr r \<Longrightarrow> dr_disposition r = ''rejected''"
  by (auto simp: parse_retry_def parse_rejection_def rbind_eq_Inr split: if_splits option.splits json.splits bool.splits)

definition acceptance_for :: "json option \<Rightarrow> outbox_row \<Rightarrow> string \<Rightarrow> bool" where
  "acceptance_for v r receipt \<longleftrightarrow> (\<exists>d e s. v = Some (JObj d)
     \<and> map_of d ''event'' = Some (JObj e)
     \<and> map_of e ''producer_id'' = Some (JStr (ox_producer_id r))
     \<and> map_of e ''event_id'' = Some (JStr (ox_event_id r))
     \<and> map_of e ''event_sha256'' = Some (JStr (ox_sha256 r))
     \<and> map_of d ''disposition'' = Some (JStr s) \<and> s \<in> {''accepted'', ''already_accepted''}
     \<and> map_of d ''receipt_id'' = Some (JStr receipt) \<and> receipt \<noteq> [])"

lemma parsed_acceptance:
  assumes "parse_delivery_result loads body (from_row r) = Inr p"
    and "dr_disposition p \<in> {''accepted'', ''already_accepted''}"
  shows "\<exists>receipt. dr_receipt p = Some receipt \<and> acceptance_for (loads body) r receipt"
proof -
  obtain d where d: "loads body = Some (JObj d)"
    using assms(1) by (auto simp: parse_delivery_result_def split: option.splits json.splits)
  then obtain e where e: "map_of d ''event'' = Some (JObj e)"
    using assms(1) by (auto simp: parse_delivery_result_def split: if_splits option.splits json.splits)
  then have b: "bound_to e (from_row r)"
    using assms(1) d by (auto simp: parse_delivery_result_def split: if_splits)
  obtain acc where acc: "in_names (map_of d ''disposition'') [''accepted'', ''already_accepted''] = Inr acc"
    using assms(1) d e by (auto simp: parse_delivery_result_def rbind_eq_Inr split: if_splits)
  obtain s where s: "map_of d ''disposition'' = Some (JStr s)"
    using assms(1) d e acc
    by (auto simp: parse_delivery_result_def split: if_splits bool.splits option.splits json.splits)
  show ?thesis
  proof (cases acc)
    case True
    then have "s \<in> {''accepted'', ''already_accepted''}" using acc s by (auto simp: in_names_def)
    moreover have "parse_acceptance d s = Inr p"
      using assms(1) d e acc s True by (auto simp: parse_delivery_result_def split: if_splits)
    ultimately show ?thesis
      using d e b s
      by (auto simp: acceptance_for_def bound_to_def from_row_def outbox_item.truncate_def
        elim!: parse_acceptance_receipt)
  next
    case False
    then have "parse_retry d = Inr p \<or> parse_rejection d = Inr p"
      using assms(1) d e acc s by (auto simp: parse_delivery_result_def split: if_splits)
    then show ?thesis using assms(2) parse_other_disposition by fastforce
  qed
qed

section \<open>Backoff\<close>

definition fair_jitter :: "(rat \<Rightarrow> rat \<Rightarrow> rat) \<Rightarrow> bool" where
  "fair_jitter jitter \<longleftrightarrow> (\<forall>a b. a \<le> b \<longrightarrow> a \<le> jitter a b \<and> jitter a b \<le> b)"

lemma delay_bounds_range:
  "retry_delay_bounds n = Inr (a, b) \<Longrightarrow> 1 / 2 \<le> a \<and> a \<le> b \<and> b \<le> 60 \<and> b = 2 * a"
proof -
  assume "retry_delay_bounds n = Inr (a, b)"
  define k where "k = nat (min (max (n - 1) 0) retry_exponent_cap)"
  have b: "b = min 60 (2 ^ k)" "a = b / 2"
    using \<open>retry_delay_bounds n = Inr (a, b)\<close> unfolding k_def
    by (auto simp: retry_delay_bounds_def Let_def retry_base_seconds_def retry_max_seconds_def split: if_splits)
  have "(1::rat) \<le> 2 ^ k" by simp
  then have "1 \<le> b" "b \<le> 60" unfolding b(1) by auto
  with b(2) show ?thesis by simp
qed

text \<open>
  The delay before the next attempt lies between half a second and a minute, and honours the
  server's \<^verbatim>\<open>retry_after_ms\<close> up to that minute.
\<close>

theorem retry_delay_range:
  assumes "fair_jitter jitter" and "0 < ox_attempts x"
  shows "\<exists>d. retry_delay jitter x p = Inr d \<and> 1 / 2 \<le> d \<and> d \<le> 60
    \<and> (\<forall>q ms. p = Some q \<and> dr_retry_after q = Some ms \<longrightarrow> min (of_int ms / 1000) 60 \<le> d)"
proof -
  have "is_ok (retry_delay_bounds (int (ox_attempts x)))"
    using assms(2) by (simp add: retry_delay_bounds_def Let_def)
  then obtain a b where ab: "retry_delay_bounds (int (ox_attempts x)) = Inr (a, b)"
    by (auto simp: is_ok_iff)
  have r: "1 / 2 \<le> a" "a \<le> b" "b \<le> 60" using delay_bounds_range [OF ab] by auto
  then have "a \<le> jitter a b" using assms(1) by (auto simp: fair_jitter_def)
  with r show ?thesis
    by (auto simp: retry_delay_def ab Let_def retry_max_seconds_def split: option.splits)
qed

section \<open>Acknowledgement\<close>

definition acked :: "outbox \<Rightarrow> string set" where
  "acked t = ox_id ` {r \<in> set (ob_rows t). ox_state r = ACKNOWLEDGED_ITEM}"

lemma acked_recover: "acked (recover now t) = acked t"
proof -
  have "ox_id (recover_horizon now (recover_expired now r)) = ox_id r
      \<and> (ox_state (recover_horizon now (recover_expired now r)) = ACKNOWLEDGED_ITEM
         \<longleftrightarrow> ox_state r = ACKNOWLEDGED_ITEM)" for r
    by (auto simp: recover_horizon_def recover_expired_def release_row_def split: option.splits)
  then show ?thesis by (force simp: acked_def recover_def image_iff)
qed

lemma acked_replace:
  "ob_rows t = before @ r # after \<Longrightarrow> ox_state r \<noteq> ACKNOWLEDGED_ITEM \<Longrightarrow>
   ob_rows u = before @ s # after \<Longrightarrow> ox_state s \<noteq> ACKNOWLEDGED_ITEM \<Longrightarrow> acked u = acked t"
  by (auto simp: acked_def)

lemma claimed_row:
  assumes "outbox_ok t" and "claim_due w now n k t = Inr (u, Some x)"
  shows "outbox_ok u" and "acked u = acked t"
    and "\<exists>c. c \<in> set (ob_rows u) \<and> x = from_row c \<and> ox_state c = IN_FLIGHT"
proof -
  show "outbox_ok u" using claim_due_step [OF assms(2,1)] ..
  obtain before r after where t: "ob_rows t = before @ r # after"
    and due: "due now (now + seconds n - delivery_horizon) r"
    and u: "u = t\<lparr>ob_rows := before @ lease_row AUTOMATIC w (now + seconds n) k now r # after\<rparr>"
    and x: "x = from_row (lease_row AUTOMATIC w (now + seconds n) k now r)"
    using claim_due_result [OF assms] by auto
  show "acked u = acked t"
    by (rule acked_replace [OF t, of _ "lease_row AUTOMATIC w (now + seconds n) k now r"])
      (use due in \<open>auto simp: due_def u lease_row_def\<close>)
  show "\<exists>c. c \<in> set (ob_rows u) \<and> x = from_row c \<and> ox_state c = IN_FLIGHT"
    using x u by (intro exI [of _ "lease_row AUTOMATIC w (now + seconds n) k now r"]) (simp add: lease_row_def)
qed

lemma finish_ack:
  assumes "finish x p now t = Inr (u, b)" and "s \<in> set (ob_rows u)" and "fr_state p \<noteq> ACKNOWLEDGED_ITEM"
  shows "s \<in> set (ob_rows t) \<or> ox_state s \<noteq> ACKNOWLEDGED_ITEM"
proof -
  have "ox_state (finish_row (one_shot_report x p) now r) \<noteq> ACKNOWLEDGED_ITEM" for r
    using assms(3) by (simp add: finish_row_def release_row_def one_shot_report_def)
  then show ?thesis using finish_rows [OF assms(1,2)] by metis
qed

lemma retry_later_state:
  assumes "retry_later jitter x p cls st fin t = Inr (u, b)" and "s \<in> set (ob_rows u)"
  shows "s \<in> set (ob_rows t) \<or> ox_state s \<noteq> ACKNOWLEDGED_ITEM"
proof -
  obtain d where "retry x d cls st fin t = Inr (u, b)"
    using assms(1) by (auto simp: retry_later_def rbind_eq_Inr)
  then show ?thesis
    unfolding retry_def by (rule finish_ack [OF _ assms(2)]) simp
qed

lemma bounded_chunks_concat:
  "bounded_chunks n cs ds = Inr b \<Longrightarrow> b = concat cs @ concat ds \<and> (ds = [] \<or> n + length (concat ds) \<le> max_result_bytes)"
proof (induction ds arbitrary: n cs)
  case (Cons d ds)
  then have "n + length d \<le> max_result_bytes" "bounded_chunks (n + length d) (cs @ [d]) ds = Inr b"
    by (auto split: if_splits)
  with Cons.IH [OF this(2)] show ?case by auto
qed simp

lemma deliver_claimed_ack:
  assumes "deliver_claimed loads jitter reply fin (from_row c) t = Inr (u, b)"
    and "outbox_ok t" and "c \<in> set (ob_rows t)"
    and "s \<in> set (ob_rows u)" and "ox_state s = ACKNOWLEDGED_ITEM" and "ox_id s \<notin> acked t"
  shows "\<exists>status chunks receipt. reply = Reply status chunks \<and> 200 \<le> status \<and> status < 300 \<and> status \<noteq> 202
    \<and> length (concat chunks) \<le> max_result_bytes \<and> ox_receipt_id s = Some receipt
    \<and> acceptance_for (loads (concat chunks)) s receipt"
proof -
  have new: "s \<notin> set (ob_rows t)" using assms(5,6) by (auto simp: acked_def)
  then have noretry: "retry_later jitter (from_row c) p cls st fin t \<noteq> Inr (u, b)" for p cls st
    using retry_later_state assms(4,5) by metis
  obtain status chunks where reply: "reply = Reply status chunks"
    using assms(1) noretry by (cases reply) (auto simp: deliver_claimed_def)
  obtain p where p: "read_reply loads status chunks (from_row c) = Inr p"
    using assms(1) noretry reply
    by (cases "read_reply loads status chunks (from_row c)") (auto simp: deliver_claimed_def split: pip_error.splits)
  have nd: "dead_letter (from_row c) why cls st fin t \<noteq> Inr (u, b)" for why cls st
    using finish_ack [OF _ assms(4)] assms(5) new by (auto simp: dead_letter_def)
  have acc: "dr_disposition p \<in> {''accepted'', ''already_accepted''}" "terminal_status_matches_result status p"
    using assms(1) noretry nd reply p by (auto simp: deliver_claimed_def split: if_splits)
  obtain body where body: "bounded_body chunks = Inr body" "parse_delivery_result loads body (from_row c) = Inr p"
    using p by (auto simp: read_reply_def rbind_eq_Inr split: if_splits)
  have len: "body = concat chunks" "length (concat chunks) \<le> max_result_bytes"
    using bounded_chunks_concat [of 0 "[]" chunks body] body(1) by (auto simp: bounded_body_def)
  obtain receipt where receipt: "dr_receipt p = Some receipt" "acceptance_for (loads body) c receipt"
    using parsed_acceptance [OF body(2) acc(1)] by blast
  have "acknowledge (from_row c) receipt (dr_class p) (Some status) fin t = Inr (u, b)"
    using assms(1) noretry nd reply p acc receipt(1) by (auto simp: deliver_claimed_def split: if_splits)
  then obtain r where r: "r \<in> set (ob_rows t)" "ox_id r = ox_id c"
    "s = finish_row (one_shot_report (from_row c) \<lparr>fr_state = ACKNOWLEDGED_ITEM, fr_result = dr_class p,
       fr_status = Some status, fr_receipt = Some receipt, fr_next_attempt = None, fr_dead_reason = None\<rparr>) fin r"
    using finish_rows [of "from_row c" _ fin t u b s] assms(4) new
    by (auto simp: acknowledge_def from_row_def outbox_item.truncate_def)
  have "r = c" using assms(2,3) r(1,2) by (auto simp: outbox_ok_def distinct_map inj_on_def)
  then have "ox_receipt_id s = Some receipt" "acceptance_for (loads body) s receipt"
    using r(3) receipt(2) by (auto simp: finish_row_def one_shot_report_def release_row_def acceptance_for_def)
  then show ?thesis
    using reply len acc by (auto simp: terminal_status_matches_result_def)
qed

end
