(* ===== verification/Delivery_Claims.thy ===== *)
theory Delivery_Claims
  imports Delivery_Props
begin

text \<open>The properties of one delivery attempt, each with a concrete exchange as witness.\<close>

section \<open>Acknowledgement\<close>

text \<open>
  C34. Delivery acknowledges a row only on proof: if a row becomes acknowledged during
  \<^verbatim>\<open>deliver_once\<close>, the endpoint answered with a final 2xx status (not 202) and a body of at
  most 65536 bytes that decodes to an acceptance naming the row's producer, event id and event hash,
  and the row records the receipt id of that body.
\<close>

theorem acknowledged_only_if_accepted:
  assumes "outbox_ok t" and "deliver_once enabled loads jitter w token now post finished t = (u, out)"
    and "s \<in> set (ob_rows u)" and "ox_state s = ACKNOWLEDGED_ITEM" and "ox_id s \<notin> acked t"
  shows "\<exists>x status chunks receipt. post x = Reply status chunks
    \<and> 200 \<le> status \<and> status < 300 \<and> status \<noteq> 202 \<and> length (concat chunks) \<le> max_result_bytes
    \<and> ox_receipt_id s = Some receipt \<and> acceptance_for (loads (concat chunks)) s receipt"
proof -
  let ?t1 = "recover now t"
  have ok: "outbox_ok ?t1" using outbox_step [of t "Recover now"] assms(1) by simp
  have same: False if "acked u = acked t"
    using that assms(3-5) by (auto simp: acked_def)
  have "enabled" using assms(2) same by (auto simp: deliver_once_def split: if_splits)
  obtain t2 x where claim: "claim_due w now 60 token ?t1 = Inr (t2, Some x)"
  proof (cases "claim_due w now 60 token ?t1")
    case (Inl e)
    then have "u = ?t1" using assms(2) \<open>enabled\<close> by (simp add: deliver_once_def)
    then show ?thesis using same acked_recover by simp
  next
    case (Inr p)
    obtain t2 y where p: "p = (t2, y)" by force
    show ?thesis
    proof (cases y)
      case None
      then have "u = ?t1"
        using assms(2) \<open>enabled\<close> Inr p claim_due_result [OF ok Inr [unfolded p]]
        by (simp add: deliver_once_def)
      then show ?thesis using same acked_recover by simp
    next
      case (Some x)
      then show ?thesis using that Inr p by simp
    qed
  qed
  have t2: "outbox_ok t2" "acked t2 = acked t"
    using claimed_row(1,2) [OF ok claim] by (simp_all add: acked_recover)
  obtain c where c: "c \<in> set (ob_rows t2)" "x = from_row c"
    using claimed_row(3) [OF ok claim] by auto
  obtain b where d: "deliver_claimed loads jitter (post x) finished x t2 = Inr (u, b)"
    using assms(2) \<open>enabled\<close> claim same t2(2)
    by (cases "deliver_claimed loads jitter (post x) finished x t2") (auto simp: deliver_once_def)
  show ?thesis
    using deliver_claimed_ack [OF d [unfolded c(2)] t2(1) c(1) assms(3,4)] assms(5) t2(2) by blast
qed

definition sample_acceptance :: json where
  "sample_acceptance = JObj
     [(''contract'', JStr ''pip.event-delivery-result''), (''protocol_version'', JStr ''1''),
      (''disposition'', JStr ''accepted''),
      (''event'', JObj [(''producer_id'', JStr ''hermes''), (''event_id'', JStr ''evt-1''),
         (''event_sha256'', JStr ''aa'')]),
      (''receipt_id'', JStr ''rcpt'')]"

definition sample_loads :: "string \<Rightarrow> json option" where
  "sample_loads s = (if s = ''body'' then Some sample_acceptance else None)"

definition lower_jitter :: "rat \<Rightarrow> rat \<Rightarrow> rat" where
  "lower_jitter a b = a"

definition sample_delivered :: "outbox \<times> bool pip" where
  "sample_delivered = deliver_once True sample_loads lower_jitter ''worker'' ''token'' (seconds 102)
     (\<lambda>x. Reply 200 [''bo'', ''dy'']) (seconds 110) sample_outbox"

lemma sample_recovered: "recover (seconds 102) sample_outbox = sample_outbox"
  by (simp add: recover_def sample_outbox_def recover_expired_def recover_horizon_def new_row_def
    seconds_def delivery_horizon_def)

lemma sample_reads:
  "read_reply sample_loads 200 [''bo'', ''dy''] (from_row sample_row) =
     Inr \<lparr>dr_disposition = ''accepted'', dr_class = ''accepted'', dr_receipt = Some ''rcpt'',
       dr_reason = None, dr_retry_after = None\<rparr>"
  by (simp add: read_reply_def bounded_body_def max_result_bytes_def parse_delivery_result_def
    sample_loads_def sample_acceptance_def same_keys_def bound_to_def in_names_def
    parse_acceptance_def nonblank_str_def from_row_def outbox_item.truncate_def sample_row_def
    lease_row_def new_row_def sample_envelope_def)

definition sample_acked :: outbox_row where
  "sample_acked = finish_row \<lparr>fr_state = ACKNOWLEDGED_ITEM, fr_result = ''accepted'',
     fr_status = Some 200, fr_receipt = Some ''rcpt'', fr_next_attempt = None, fr_dead_reason = None\<rparr>
     (seconds 110) sample_row"

lemma sample_acknowledges:
  "acknowledge (from_row sample_row) ''rcpt'' ''accepted'' (Some 200) (seconds 110) sample_claimed =
     Inr (\<lparr>ob_rows = [sample_acked], ob_audit = []\<rparr>, True)"
  by (simp add: acknowledge_def finish_def sample_claimed_def sample_acked_def sample_row_def
    lease_row_def new_row_def one_shot_report_def from_row_def outbox_item.truncate_def
    update_where_def seconds_def)

lemma sample_delivers: "sample_delivered = (\<lparr>ob_rows = [sample_acked], ob_audit = []\<rparr>, Inr True)"
  by (simp add: sample_delivered_def deliver_once_def sample_recovered sample_claims
    deliver_claimed_def sample_reads terminal_status_matches_result_def sample_acknowledges)

theorem acknowledged_only_if_accepted_witness:
  "\<exists>s receipt. s \<in> set (ob_rows (fst sample_delivered)) \<and> ox_state s = ACKNOWLEDGED_ITEM
     \<and> ox_receipt_id s = Some receipt \<and> acceptance_for (Some sample_acceptance) s receipt"
proof -
  have s: "sample_acked \<in> set (ob_rows (fst sample_delivered))" "ox_state sample_acked = ACKNOWLEDGED_ITEM"
    by (simp_all add: sample_delivers) (simp add: sample_acked_def finish_row_def release_row_def)
  have new: "ox_id sample_acked \<notin> acked sample_outbox"
    by (auto simp: acked_def sample_outbox_def new_row_def)
  have run: "deliver_once True sample_loads lower_jitter ''worker'' ''token'' (seconds 102)
      (\<lambda>x. Reply 200 [''bo'', ''dy'']) (seconds 110) sample_outbox = (fst sample_delivered, snd sample_delivered)"
    by (simp add: sample_delivered_def)
  from acknowledged_only_if_accepted [OF sample_ok(1) run s new]
  obtain status chunks receipt where r: "Reply 200 [''bo'', ''dy''] = Reply status chunks"
    "ox_receipt_id sample_acked = Some receipt" "acceptance_for (sample_loads (concat chunks)) sample_acked receipt"
    by (elim exE conjE) (rule that)
  have "sample_loads (concat chunks) = Some sample_acceptance" using r(1) by (auto simp: sample_loads_def)
  then show ?thesis using s r(2,3) by auto
qed

section \<open>Backoff\<close>

theorem retry_delay_range_witness:
  "\<exists>d. retry_delay lower_jitter (from_row sample_row) None = Inr d \<and> 1 / 2 \<le> d \<and> d \<le> 60"
proof -
  have "fair_jitter lower_jitter" by (simp add: fair_jitter_def lower_jitter_def)
  moreover have "0 < ox_attempts (from_row sample_row)"
    by (simp add: sample_row_def lease_row_def new_row_def from_row_def outbox_item.truncate_def)
  ultimately show ?thesis using retry_delay_range by blast
qed

section \<open>The reply that escapes\<close>

definition list_disposition :: "outbox_item \<Rightarrow> json list \<Rightarrow> json" where
  "list_disposition x vs = JObj
     [(''contract'', JStr ''pip.event-delivery-result''), (''protocol_version'', JStr ''1''),
      (''event'', JObj [(''producer_id'', JStr (ox_producer_id x)), (''event_id'', JStr (ox_event_id x)),
         (''event_sha256'', JStr (ox_sha256 x))]),
      (''disposition'', JArr vs)]"

text \<open>
  A reply bound to the event whose disposition is a JSON array is not treated as ambiguous:
  testing the array's membership in a set of names raises TypeError, which the handler of malformed
  replies does not catch, so the attempt raises and the row stays in flight without a result.
\<close>

theorem list_disposition_escapes:
  assumes "outbox_ok t" and "claim_due w now 60 token (recover now t) = Inr (u, Some x)"
    and "post x = Reply 200 [body]" and "length body \<le> max_result_bytes"
    and "loads body = Some (list_disposition x vs)"
  shows "\<exists>c. deliver_once True loads jitter w token now post finished t =
      (u, Inl (PipTypeError ''unhashable type: list''))
    \<and> c \<in> set (ob_rows u) \<and> x = from_row c \<and> ox_state c = IN_FLIGHT"
proof -
  have "outbox_ok (recover now t)" using outbox_step [of t "Recover now"] assms(1) by simp
  then obtain c where "c \<in> set (ob_rows u)" "x = from_row c" "ox_state c = IN_FLIGHT"
    using claimed_row(3) assms(2) by blast
  moreover have "parse_delivery_result loads body x = Inl (PipTypeError ''unhashable type: list'')"
    using assms(5) by (simp add: parse_delivery_result_def list_disposition_def same_keys_def bound_to_def in_names_def)
  then have "deliver_claimed loads jitter (post x) finished x u = Inl (PipTypeError ''unhashable type: list'')"
    using assms(3,4) by (simp add: deliver_claimed_def read_reply_def bounded_body_def)
  ultimately show ?thesis
    using assms(2) by (auto simp: deliver_once_def)
qed

theorem list_disposition_escapes_witness:
  "\<exists>x. deliver_once True (\<lambda>s. Some (list_disposition (from_row sample_row) [])) lower_jitter ''worker''
      ''token'' (seconds 102) (\<lambda>x. Reply 200 [''[]'']) (seconds 110) sample_outbox =
     (sample_claimed, Inl (PipTypeError x))"
proof -
  from sample_recovered have "claim_due ''worker'' (seconds 102) 60 ''token'' (recover (seconds 102) sample_outbox) =
      Inr (sample_claimed, Some (from_row sample_row))"
    by (simp only: sample_claims)
  from list_disposition_escapes [OF sample_ok(1) this, of "\<lambda>x. Reply 200 [''[]'']" "''[]''"
      "\<lambda>s. Some (list_disposition (from_row sample_row) [])" "[]" lower_jitter "seconds 110"]
  show ?thesis by (auto simp: max_result_bytes_def)
qed

end
