(* ===== verification/Store.thy ===== *)
theory Store
  imports Codec Reducers
begin

text \<open>
  \<open>weatherbot/persistence/store.py\<close>, \<open>recovery.py\<close>: the append-only event store, its
  verified replay, decision claims, adapter metadata, checkpoints and startup recovery. The database
  is the record of its tables, each a list in primary-key order with columns of their declared types;
  an operation returns the new tables or an exception, and an exception leaves the tables as they
  were, as the rollback of \<^verbatim>\<open>_transaction\<close> does. SHA-256, the fingerprints of events
  and states and the time zone database are the record \<open>ledger_env\<close>; \<open>now\<close> is the
  clock. The SQLite page check, files and connections are not modelled.
\<close>

section \<open>Tables\<close>

record ledger_env =
  le_sha :: "string \<Rightarrow> string"
  le_event_fp :: "ledger_event \<Rightarrow> string"
  le_state_fp :: "ledger_state \<Rightarrow> string"
  le_tz :: tzdb

record ledger_row =
  lr_sequence :: int
  lr_event_id :: string
  lr_event_type :: string
  lr_schema_version :: int
  lr_occurred_at :: string
  lr_recorded_at :: string
  lr_intent_id :: "string option"
  lr_decision_id :: "string option"
  lr_market_id :: "string option"
  lr_outcome_id :: "string option"
  lr_payload_json :: string
  lr_payload_hash :: string
  lr_previous_hash :: string
  lr_chain_hash :: string

record claim_row =
  cr_decision_key :: string
  cr_owner_id :: string
  cr_status :: string
  cr_intent_id :: "string option"
  cr_metadata_json :: string
  cr_metadata_hash :: string
  cr_claimed_at :: string
  cr_updated_at :: string

record adapter_row =
  ar_intent_id :: string
  ar_backend_name :: string
  ar_payload_json :: string
  ar_payload_hash :: string
  ar_created_at :: string
  ar_updated_at :: string

record state_checkpoint =
  cp_sequence :: int
  cp_chain_hash :: string
  cp_state_hash :: string
  cp_created_at :: string

record event_store =
  st_closed :: bool
  st_read_only :: bool
  st_ledger :: "ledger_row list"
  st_claims :: "claim_row list"
  st_adapters :: "adapter_row list"
  st_checkpoints :: "state_checkpoint list"

record append_result =
  ap_appended :: "int list"
  ap_duplicates :: "string list"
  ap_state :: ledger_state
  ap_last_sequence :: int
  ap_chain_hash :: string

record decision_claim =
  dc_decision_key :: string
  dc_owner_id :: string
  dc_status :: string
  dc_intent_id :: "string option"
  dc_metadata :: "(string \<times> json) list"
  dc_claimed_at :: string
  dc_updated_at :: string

record adapter_metadata =
  ad_intent_id :: string
  ad_backend_name :: string
  ad_payload :: "(string \<times> json) list"
  ad_created_at :: string
  ad_updated_at :: string

datatype recovery_action = RESUME_SUBMISSION | RECONCILE_BACKEND | RETRY_DECISION

record pending_order =
  po_order :: order_aggregate
  po_action :: recovery_action
  po_adapter :: "adapter_metadata option"

record startup_recovery =
  sr_state :: ledger_state
  sr_last_sequence :: int
  sr_chain_hash :: string
  sr_pending_orders :: "pending_order list"
  sr_pending_decisions :: "decision_claim list"

definition genesis_chain_hash :: string where
  "genesis_chain_hash = replicate 64 (CHR ''0'')"

definition ensure_open :: "event_store \<Rightarrow> unit result" where
  "ensure_open st = (if st_closed st then Inl (PersistenceError ''event store is closed'') else Inr ())"

definition ensure_writable :: "event_store \<Rightarrow> unit result" where
  "ensure_writable st =
     rbind (ensure_open st) (\<lambda>_.
     if st_read_only st then Inl (PersistenceError ''event store was opened read-only'') else Inr ())"

section \<open>Verified replay\<close>

fun is_domain_error :: "exc \<Rightarrow> bool" where
  "is_domain_error (InvalidTransition _) = True"
| "is_domain_error (InvariantViolation _) = True"
| "is_domain_error (DuplicateEventConflict _) = True"
| "is_domain_error (AggregateNotFound _) = True"
| "is_domain_error _ = False"

fun is_type_error :: "exc \<Rightarrow> bool" where
  "is_type_error (TypeError _) = True"
| "is_type_error _ = False"

fun is_persistence_error :: "exc \<Rightarrow> bool" where
  "is_persistence_error (PersistenceError _) = True"
| "is_persistence_error (CorruptLedgerError _) = True"
| "is_persistence_error (SchemaVersionError _) = True"
| "is_persistence_error (DuplicateIntentError _) = True"
| "is_persistence_error (ConcurrentDecisionError _) = True"
| "is_persistence_error (RecoveryRequiredError _) = True"
| "is_persistence_error _ = False"

definition replay_error :: "exc \<Rightarrow> bool" where
  "replay_error x \<longleftrightarrow> is_domain_error x \<or> is_type_error x \<or> is_value_error x"

definition decode_error :: "exc \<Rightarrow> bool" where
  "decode_error x \<longleftrightarrow> is_persistence_error x \<or> replay_error x"

text \<open>\<^verbatim>\<open>except ... as exc: raise CorruptLedgerError\<close>.\<close>

definition corrupt_on :: "(exc \<Rightarrow> bool) \<Rightarrow> string \<Rightarrow> 'a result \<Rightarrow> 'a result" where
  "corrupt_on caught msg m = (case m of Inl x \<Rightarrow> if caught x then corrupt msg else Inl x | Inr v \<Rightarrow> Inr v)"

record replay_point =
  rp_events :: "ledger_event list"
  rp_state :: ledger_state
  rp_expected :: int
  rp_hash :: string

definition row_hashes :: "(string \<Rightarrow> string) \<Rightarrow> replay_point \<Rightarrow> ledger_row \<Rightarrow> unit result" where
  "row_hashes sha p r =
     (if lr_sequence r \<noteq> rp_expected p then corrupt ''ledger sequence gap''
      else if lr_payload_hash r \<noteq> sha (lr_payload_json r) then corrupt ''ledger event payload hash mismatch''
      else if lr_previous_hash r \<noteq> rp_hash p then corrupt ''ledger event chain predecessor mismatch''
      else if lr_chain_hash r
          \<noteq> chain_hash sha (rp_hash p) (lr_schema_version r) (lr_event_type r) (lr_payload_hash r)
      then corrupt ''ledger event chain hash mismatch''
      else Inr ())"

definition row_event :: "ledger_env \<Rightarrow> ledger_row \<Rightarrow> ledger_event result" where
  "row_event env r =
     rbind (corrupt_on decode_error ''ledger event cannot be decoded safely''
       (decode_event (le_tz env) (le_sha env) (lr_payload_json r))) (\<lambda>e.
     let c = encode_event (le_sha env) e in
     if en_payload_json c \<noteq> lr_payload_json r then corrupt ''ledger event payload is not canonical''
     else if lr_event_id r \<noteq> en_event_id c \<or> lr_event_type r \<noteq> en_event_type c
       \<or> lr_schema_version r \<noteq> en_schema_version c \<or> lr_occurred_at r \<noteq> en_occurred_at c
       \<or> lr_intent_id r \<noteq> en_intent_id c \<or> lr_decision_id r \<noteq> en_decision_id c
       \<or> lr_market_id r \<noteq> en_market_id c \<or> lr_outcome_id r \<noteq> en_outcome_id c
     then corrupt ''ledger event indexed column does not match its payload''
     else Inr e)"

definition checkpoint_at :: "state_checkpoint list \<Rightarrow> int \<Rightarrow> state_checkpoint option" where
  "checkpoint_at cps n = map_of (map (\<lambda>c. (cp_sequence c, c)) cps) n"

definition checkpoint_check ::
    "ledger_env \<Rightarrow> state_checkpoint list \<Rightarrow> int \<Rightarrow> string \<Rightarrow> ledger_state \<Rightarrow> unit result" where
  "checkpoint_check env cps n tail s =
     (case checkpoint_at cps n of
        None \<Rightarrow> Inr ()
      | Some c \<Rightarrow>
          if cp_chain_hash c \<noteq> tail then corrupt ''state checkpoint references a different chain hash''
          else if cp_state_hash c \<noteq> le_state_fp env s
          then corrupt ''state checkpoint does not match replayed state''
          else Inr ())"

definition load_row ::
    "ledger_env \<Rightarrow> state_checkpoint list \<Rightarrow> replay_point \<Rightarrow> ledger_row \<Rightarrow> replay_point result" where
  "load_row env cps p r =
     rbind (row_hashes (le_sha env) p r) (\<lambda>_.
     rbind (row_event env r) (\<lambda>e.
     rbind (corrupt_on replay_error ''ledger event violates domain replay''
       (apply_event (le_sha env) (le_event_fp env) (rp_state p) e)) (\<lambda>s.
     rbind (checkpoint_check env cps (lr_sequence r) (lr_chain_hash r) s) (\<lambda>_.
     Inr \<lparr>rp_events = rp_events p @ [e], rp_state = s, rp_expected = rp_expected p + 1,
          rp_hash = lr_chain_hash r\<rparr>))))"

definition replay_start :: "replay_point result" where
  "replay_start =
     rbind (ledger_empty ''USDC'') (\<lambda>s.
     Inr \<lparr>rp_events = [], rp_state = s, rp_expected = 1, rp_hash = genesis_chain_hash\<rparr>)"

text \<open>\<^verbatim>\<open>_load_locked\<close>: the point reached, whose last sequence is one less than expected.\<close>

definition load_ledger ::
    "ledger_env \<Rightarrow> int option \<Rightarrow> bool \<Rightarrow> event_store \<Rightarrow> replay_point result" where
  "load_ledger env stop verify st =
     (if (case stop of None \<Rightarrow> False | Some n \<Rightarrow> n < 0)
      then Inl (ValueError ''stop_sequence must not be negative'')
      else
        let rows = (case stop of None \<Rightarrow> st_ledger st
          | Some n \<Rightarrow> filter (\<lambda>r. lr_sequence r \<le> n) (st_ledger st));
          cps = (if verify then st_checkpoints st else [])
        in rbind replay_start (\<lambda>p0.
           rbind (rfold (load_row env cps) p0 rows) (\<lambda>p.
           if stop = None \<and> \<not> list_all (\<lambda>c. cp_sequence c \<le> rp_expected p - 1) cps
           then corrupt ''state checkpoints reference missing ledger sequences''
           else Inr p)))"

abbreviation load_all :: "ledger_env \<Rightarrow> event_store \<Rightarrow> replay_point result" where
  "load_all env st \<equiv> load_ledger env None True st"

definition load_events :: "ledger_env \<Rightarrow> event_store \<Rightarrow> ledger_event list result" where
  "load_events env st = rbind (ensure_open st) (\<lambda>_. rbind (load_all env st) (\<lambda>p. Inr (rp_events p)))"

definition load_state :: "ledger_env \<Rightarrow> event_store \<Rightarrow> ledger_state result" where
  "load_state env st = rbind (ensure_open st) (\<lambda>_. rbind (load_all env st) (\<lambda>p. Inr (rp_state p)))"

definition event_count :: "event_store \<Rightarrow> int result" where
  "event_count st = rbind (ensure_open st) (\<lambda>_. Inr (int (length (st_ledger st))))"

section \<open>Claims and metadata\<close>

definition claim_from_row :: "(string \<Rightarrow> string) \<Rightarrow> claim_row \<Rightarrow> decision_claim result" where
  "claim_from_row sha r =
     rbind (decode_metadata sha (cr_metadata_json r) (cr_metadata_hash r)) (\<lambda>m.
     Inr \<lparr>dc_decision_key = cr_decision_key r, dc_owner_id = cr_owner_id r, dc_status = cr_status r,
          dc_intent_id = cr_intent_id r, dc_metadata = m, dc_claimed_at = cr_claimed_at r,
          dc_updated_at = cr_updated_at r\<rparr>)"

definition adapter_from_row :: "(string \<Rightarrow> string) \<Rightarrow> adapter_row \<Rightarrow> adapter_metadata result" where
  "adapter_from_row sha r =
     rbind (decode_metadata sha (ar_payload_json r) (ar_payload_hash r)) (\<lambda>m.
     Inr \<lparr>ad_intent_id = ar_intent_id r, ad_backend_name = ar_backend_name r, ad_payload = m,
          ad_created_at = ar_created_at r, ad_updated_at = ar_updated_at r\<rparr>)"

definition decision_row :: "event_store \<Rightarrow> string \<Rightarrow> claim_row option" where
  "decision_row st k = find (\<lambda>r. cr_decision_key r = k) (st_claims st)"

definition adapter_row_of :: "event_store \<Rightarrow> string \<Rightarrow> adapter_row option" where
  "adapter_row_of st i = find (\<lambda>r. ar_intent_id r = i) (st_adapters st)"

definition existing_event :: "ledger_row list \<Rightarrow> string \<Rightarrow> ledger_row option" where
  "existing_event rows i = find (\<lambda>r. lr_event_id r = i) rows"

definition is_intent_row :: "ledger_row \<Rightarrow> bool" where
  "is_intent_row r \<longleftrightarrow> lr_event_type r = ''order_intent_created''"

definition intent_event :: "ledger_row list \<Rightarrow> string \<Rightarrow> ledger_row option" where
  "intent_event rows i = find (\<lambda>r. is_intent_row r \<and> lr_intent_id r = Some i) rows"

definition verify_claim :: "ledger_env \<Rightarrow> event_store \<Rightarrow> unit \<Rightarrow> claim_row \<Rightarrow> unit result" where
  "verify_claim env st u r =
     rbind (claim_from_row (le_sha env) r) (\<lambda>c.
     if dc_status c \<notin> {''claimed'', ''committed'', ''completed''} then corrupt ''decision has invalid status''
     else if dc_status c \<noteq> ''committed''
     then (if dc_intent_id c \<noteq> None then corrupt ''decision unexpectedly references an intent'' else Inr ())
     else (case dc_intent_id c of
         None \<Rightarrow> corrupt ''committed decision has no intent''
       | Some i \<Rightarrow> (case intent_event (st_ledger st) i of
           None \<Rightarrow> corrupt ''committed decision references missing intent''
         | Some row \<Rightarrow>
             rbind (decode_event (le_tz env) (le_sha env) (lr_payload_json row)) (\<lambda>e.
             case ev_body e of
               OrderIntentCreated oi \<Rightarrow>
                 if oi_intent_id oi \<noteq> i \<or> oi_decision_id oi \<noteq> dc_decision_key c
                 then corrupt ''decision disagrees with its intent event'' else Inr ()
             | _ \<Rightarrow> corrupt ''decision references a non-intent event''))))"

definition verify_adapter :: "ledger_env \<Rightarrow> event_store \<Rightarrow> unit \<Rightarrow> adapter_row \<Rightarrow> unit result" where
  "verify_adapter env st u r =
     rbind (adapter_from_row (le_sha env) r) (\<lambda>a.
     rbind (corrupt_on is_value_error ''adapter metadata has a blank backend''
       (require_text (ad_backend_name a) ''backend_name'')) (\<lambda>_.
     if intent_event (st_ledger st) (ad_intent_id a) = None
     then corrupt ''adapter metadata references missing intent'' else Inr ()))"

definition verify_auxiliary :: "ledger_env \<Rightarrow> event_store \<Rightarrow> unit result" where
  "verify_auxiliary env st =
     rbind (rfold (verify_claim env st) () (sort_key cr_decision_key (st_claims st))) (\<lambda>_.
     rfold (verify_adapter env st) () (sort_key ar_intent_id (st_adapters st)))"

definition verify_integrity :: "ledger_env \<Rightarrow> event_store \<Rightarrow> unit result" where
  "verify_integrity env st =
     rbind (ensure_open st) (\<lambda>_. rbind (load_all env st) (\<lambda>_. verify_auxiliary env st))"

section \<open>Appending\<close>

text \<open>
  The constraints of \<open>migrations.py\<close> on an inserted ledger row. Its sequence is above every
  other, so the row goes to the end of the table.
\<close>

definition insert_row :: "ledger_row list \<Rightarrow> ledger_row \<Rightarrow> ledger_row list result" where
  "insert_row rows r =
     (if lr_sequence r \<in> set (map lr_sequence rows) then Inl (DatabaseError ''UNIQUE sequence'')
      else if lr_event_id r \<in> set (map lr_event_id rows) then Inl (DatabaseError ''UNIQUE event_id'')
      else if lr_chain_hash r \<in> set (map lr_chain_hash rows) then Inl (DatabaseError ''UNIQUE chain_hash'')
      else if is_intent_row r \<and> lr_intent_id r \<in> set (map lr_intent_id (filter is_intent_row rows))
      then Inl (DatabaseError ''UNIQUE intent_id'')
      else if is_intent_row r \<and> lr_decision_id r \<in> set (map lr_decision_id (filter is_intent_row rows))
      then Inl (DatabaseError ''UNIQUE decision_id'')
      else if lr_schema_version r \<le> 0 \<or> length (lr_payload_hash r) \<noteq> 64
        \<or> length (lr_previous_hash r) \<noteq> 64 \<or> length (lr_chain_hash r) \<noteq> 64
      then Inl (DatabaseError ''CHECK constraint failed'')
      else Inr (rows @ [r]))"

definition event_row ::
    "(string \<Rightarrow> string) \<Rightarrow> string \<Rightarrow> int \<Rightarrow> string \<Rightarrow> encoded_event \<Rightarrow> ledger_row" where
  "event_row sha now n previous c =
     \<lparr>lr_sequence = n, lr_event_id = en_event_id c, lr_event_type = en_event_type c,
      lr_schema_version = en_schema_version c, lr_occurred_at = en_occurred_at c, lr_recorded_at = now,
      lr_intent_id = en_intent_id c, lr_decision_id = en_decision_id c, lr_market_id = en_market_id c,
      lr_outcome_id = en_outcome_id c, lr_payload_json = en_payload_json c,
      lr_payload_hash = en_payload_hash c, lr_previous_hash = previous,
      lr_chain_hash = chain_hash sha previous (en_schema_version c) (en_event_type c) (en_payload_hash c)\<rparr>"

fun is_intent_body :: "event_body \<Rightarrow> bool" where
  "is_intent_body (OrderIntentCreated _) = True"
| "is_intent_body _ = False"

definition same_event_row :: "ledger_row \<Rightarrow> encoded_event \<Rightarrow> bool" where
  "same_event_row r c \<longleftrightarrow> lr_event_type r = en_event_type c \<and> lr_schema_version r = en_schema_version c
     \<and> lr_payload_json r = en_payload_json c \<and> lr_payload_hash r = en_payload_hash c"

definition prior_intent_check :: "ledger_row list \<Rightarrow> event_body \<Rightarrow> unit result" where
  "prior_intent_check rows b =
     (case b of
        OrderIntentCreated i \<Rightarrow>
          if intent_event rows (oi_intent_id i) \<noteq> None
          then Inl (DuplicateIntentError ''order intent already exists'') else Inr ()
      | _ \<Rightarrow> Inr ())"

fun append_one ::
    "ledger_env \<Rightarrow> (int \<Rightarrow> string) \<Rightarrow> bool \<Rightarrow> ledger_row list \<times> append_result \<Rightarrow> ledger_event \<Rightarrow>
     (ledger_row list \<times> append_result) result" where
  "append_one env now allow_intent (rows, a) e =
     (if is_intent_body (ev_body e) \<and> \<not> allow_intent
      then Inl (PersistenceError ''order intents must be persisted with commit_order_intent()'')
      else
        let c = encode_event (le_sha env) e in
        case existing_event rows (en_event_id c) of
          Some r \<Rightarrow>
            if same_event_row r c
            then Inr (rows, a\<lparr>ap_duplicates := ap_duplicates a @ [en_event_id c]\<rparr>)
            else Inl (DuplicateEventConflict ''event identifier was reused with different data'')
        | None \<Rightarrow>
            rbind (prior_intent_check rows (ev_body e)) (\<lambda>_.
            rbind (apply_event (le_sha env) (le_event_fp env) (ap_state a) e) (\<lambda>next_state.
            let n = ap_last_sequence a + 1;
                r = event_row (le_sha env) (now n) n (ap_chain_hash a) c
            in rbind (insert_row rows r) (\<lambda>rows'.
               Inr (rows', a\<lparr>ap_appended := ap_appended a @ [n], ap_state := next_state,
                     ap_last_sequence := n, ap_chain_hash := lr_chain_hash r\<rparr>)))))"

definition append_events ::
    "ledger_env \<Rightarrow> (int \<Rightarrow> string) \<Rightarrow> bool \<Rightarrow> event_store \<Rightarrow> ledger_event list \<Rightarrow>
     (event_store \<times> append_result) result" where
  "append_events env now allow_intent st es =
     rbind (load_all env st) (\<lambda>p.
     rbind (rfold (append_one env now allow_intent)
         (st_ledger st, \<lparr>ap_appended = [], ap_duplicates = [], ap_state = rp_state p,
           ap_last_sequence = rp_expected p - 1, ap_chain_hash = rp_hash p\<rparr>) es) (\<lambda>(rows, a).
     Inr (st\<lparr>st_ledger := rows\<rparr>, a)))"

definition append_many ::
    "ledger_env \<Rightarrow> (int \<Rightarrow> string) \<Rightarrow> event_store \<Rightarrow> ledger_event list \<Rightarrow>
     (event_store \<times> append_result) result" where
  "append_many env now st es = rbind (ensure_writable st) (\<lambda>_. append_events env now False st es)"

definition append_event ::
    "ledger_env \<Rightarrow> (int \<Rightarrow> string) \<Rightarrow> event_store \<Rightarrow> ledger_event \<Rightarrow> (event_store \<times> append_result) result" where
  "append_event env now st e = append_many env now st [e]"

end
