(* ===== verification/Store_Ops.thy ===== *)
theory Store_Ops
  imports Store "HOL-Library.Product_Lexorder"
begin

text \<open>
  The other operations of \<open>weatherbot/persistence/store.py\<close>: claiming, completing and
  committing a scan decision, adapter metadata, checkpoints, startup recovery and the reconciliation
  with the execution adapters. \<open>resolve\<close> stands for the adapter resolver: it gives an adapter's
  own name and its \<^verbatim>\<open>reconcile\<close>.
\<close>

section \<open>Decisions\<close>

text \<open>The constraints of the table \<^verbatim>\<open>decision_claims\<close> on a new or updated row.\<close>

definition claim_allowed :: "claim_row list \<Rightarrow> claim_row \<Rightarrow> bool" where
  "claim_allowed others r \<longleftrightarrow>
     cr_decision_key r \<notin> set (map cr_decision_key others)
     \<and> (cr_intent_id r = None \<or> cr_intent_id r \<notin> set (map cr_intent_id others))
     \<and> cr_status r \<in> {''claimed'', ''committed'', ''completed''}
     \<and> (cr_status r = ''committed'' \<longleftrightarrow> cr_intent_id r \<noteq> None)
     \<and> length (cr_metadata_hash r) = 64"

definition insert_claim :: "event_store \<Rightarrow> claim_row \<Rightarrow> event_store result" where
  "insert_claim st r =
     (if claim_allowed (st_claims st) r then Inr (st\<lparr>st_claims := st_claims st @ [r]\<rparr>)
      else Inl (DatabaseError ''decision_claims''))"

definition update_claim :: "event_store \<Rightarrow> string \<Rightarrow> (claim_row \<Rightarrow> claim_row) \<Rightarrow> event_store result" where
  "update_claim st k f =
     (let changed = map (\<lambda>r. if cr_decision_key r = k then f r else r) (st_claims st)
      in if list_all (\<lambda>r. cr_decision_key r = k \<longrightarrow>
              claim_allowed (filter (\<lambda>q. cr_decision_key q \<noteq> k) (st_claims st)) (f r)) (st_claims st)
         then Inr (st\<lparr>st_claims := changed\<rparr>)
         else Inl (DatabaseError ''decision_claims''))"

definition stored_claim :: "ledger_env \<Rightarrow> event_store \<Rightarrow> string \<Rightarrow> string \<Rightarrow> decision_claim result" where
  "stored_claim env st k msg =
     (case decision_row st k of None \<Rightarrow> corrupt msg | Some r \<Rightarrow> claim_from_row (le_sha env) r)"

type_synonym py_metadata = "(string option \<times> meta) list option"

text \<open>\<^verbatim>\<open>claim_decision\<close> returns the claim and whether it was created.\<close>

definition claim_decision ::
    "ledger_env \<Rightarrow> string \<Rightarrow> event_store \<Rightarrow> string \<Rightarrow> string \<Rightarrow> py_metadata \<Rightarrow>
     (event_store \<times> decision_claim \<times> bool) result" where
  "claim_decision env now st key owner metadata =
     rbind (require_text key ''decision_key'') (\<lambda>k.
     rbind (require_text owner ''owner_id'') (\<lambda>ow.
     rbind (encode_metadata (le_sha env) metadata) (\<lambda>(mj, mh).
     rbind (ensure_writable st) (\<lambda>_.
     case decision_row st k of
       Some r \<Rightarrow>
         rbind (claim_from_row (le_sha env) r) (\<lambda>c.
         if dc_status c = ''claimed'' \<and> dc_owner_id c = ow \<and> cr_metadata_hash r = mh
         then Inr (st, c, False)
         else Inl (ConcurrentDecisionError ''decision is already owned''))
     | None \<Rightarrow>
         rbind (insert_claim st
           \<lparr>cr_decision_key = k, cr_owner_id = ow, cr_status = ''claimed'', cr_intent_id = None,
            cr_metadata_json = mj, cr_metadata_hash = mh, cr_claimed_at = now, cr_updated_at = now\<rparr>)
           (\<lambda>st'. rbind (stored_claim env st' k ''decision claim disappeared after insertion'') (\<lambda>c.
            Inr (st', c, True)))))))"

definition complete_decision_without_intent ::
    "ledger_env \<Rightarrow> string \<Rightarrow> event_store \<Rightarrow> string \<Rightarrow> string \<Rightarrow> (event_store \<times> decision_claim) result" where
  "complete_decision_without_intent env now st key owner =
     rbind (require_text key ''decision_key'') (\<lambda>k.
     rbind (require_text owner ''owner_id'') (\<lambda>ow.
     rbind (ensure_writable st) (\<lambda>_.
     case decision_row st k of
       None \<Rightarrow> Inl (ConcurrentDecisionError ''decision must be claimed before completion'')
     | Some r \<Rightarrow>
         rbind (claim_from_row (le_sha env) r) (\<lambda>c.
         if dc_status c = ''completed'' \<and> dc_owner_id c = ow then Inr (st, c)
         else if dc_status c \<noteq> ''claimed'' \<or> dc_owner_id c \<noteq> ow
         then Inl (ConcurrentDecisionError ''decision cannot be completed by owner'')
         else
           rbind (update_claim st k (\<lambda>r. r\<lparr>cr_status := ''completed'', cr_updated_at := now\<rparr>)) (\<lambda>st'.
           rbind (stored_claim env st' k ''decision claim disappeared after completion'') (\<lambda>c'.
           Inr (st', c')))))))"

text \<open>The branch of \<^verbatim>\<open>commit_order_intent\<close> for a decision that is already committed.\<close>

definition commit_again ::
    "ledger_env \<Rightarrow> event_store \<Rightarrow> decision_claim \<Rightarrow> string \<Rightarrow> order_intent \<Rightarrow>
     (event_store \<times> append_result) result" where
  "commit_again env st c eid i =
     (if dc_intent_id c \<noteq> Some (oi_intent_id i)
      then Inl (DuplicateIntentError ''decision already committed intent'')
      else case intent_event (st_ledger st) (oi_intent_id i) of
        None \<Rightarrow> corrupt ''decision is committed but its intent event is missing''
      | Some r \<Rightarrow>
          rbind (decode_event (le_tz env) (le_sha env) (lr_payload_json r)) (\<lambda>prior.
          case ev_body prior of
            OrderIntentCreated j \<Rightarrow>
              if \<not> order_intent_eq j i
              then Inl (DuplicateIntentError ''order intent was reused with different data'')
              else rbind (load_all env st) (\<lambda>p.
                Inr (st, \<lparr>ap_appended = [], ap_duplicates = [eid], ap_state = rp_state p,
                          ap_last_sequence = rp_expected p - 1, ap_chain_hash = rp_hash p\<rparr>))
          | _ \<Rightarrow> corrupt ''stored intent row decoded as another event type''))"

definition commit_order_intent ::
    "ledger_env \<Rightarrow> (int \<Rightarrow> string) \<Rightarrow> string \<Rightarrow> event_store \<Rightarrow> string \<Rightarrow> datetime \<Rightarrow> order_intent \<Rightarrow>
     string \<Rightarrow> py_metadata \<Rightarrow> (event_store \<times> append_result) result" where
  "commit_order_intent env now stamp st eid t i owner metadata =
     (let e = \<lparr>ev_event_id = eid, ev_occurred_at = t, ev_body = OrderIntentCreated i\<rparr> in
     rbind (require_text owner ''owner_id'') (\<lambda>ow.
     rbind (require_text (oi_decision_id i) ''decision_id'') (\<lambda>k.
     rbind (encode_metadata (le_sha env) metadata) (\<lambda>(mj, mh).
     rbind (ensure_writable st) (\<lambda>_.
     case decision_row st k of
       None \<Rightarrow>
         rbind (insert_claim st
           \<lparr>cr_decision_key = k, cr_owner_id = ow, cr_status = ''committed'',
            cr_intent_id = Some (oi_intent_id i), cr_metadata_json = mj, cr_metadata_hash = mh,
            cr_claimed_at = stamp, cr_updated_at = stamp\<rparr>) (\<lambda>st'. append_events env now True st' [e])
     | Some r \<Rightarrow>
         rbind (claim_from_row (le_sha env) r) (\<lambda>c.
         if dc_status c = ''committed'' then commit_again env st c eid i
         else if dc_status c \<noteq> ''claimed'' \<or> dc_owner_id c \<noteq> ow
         then Inl (ConcurrentDecisionError ''decision is owned by another owner'')
         else if cr_metadata_hash r \<noteq> mh
         then Inl (ConcurrentDecisionError ''decision metadata changed between claim and commit'')
         else rbind (update_claim st k (\<lambda>r. r\<lparr>cr_status := ''committed'',
                 cr_intent_id := Some (oi_intent_id i), cr_updated_at := stamp\<rparr>)) (\<lambda>st'.
              append_events env now True st' [e])))))))"

definition list_decision_claims :: "ledger_env \<Rightarrow> event_store \<Rightarrow> decision_claim list result" where
  "list_decision_claims env st =
     rbind (ensure_open st) (\<lambda>_.
     rmap (claim_from_row (le_sha env)) (sort_key (\<lambda>r. (cr_claimed_at r, cr_decision_key r)) (st_claims st)))"

section \<open>Adapter metadata\<close>

definition set_adapter_metadata ::
    "ledger_env \<Rightarrow> string \<Rightarrow> event_store \<Rightarrow> string \<Rightarrow> string \<Rightarrow> py_metadata \<Rightarrow>
     (event_store \<times> adapter_metadata) result" where
  "set_adapter_metadata env now st intent backend payload =
     rbind (require_text intent ''intent_id'') (\<lambda>i.
     rbind (require_text backend ''backend_name'') (\<lambda>b.
     rbind (encode_metadata (le_sha env) payload) (\<lambda>(pj, ph).
     rbind (ensure_writable st) (\<lambda>_.
     if intent_event (st_ledger st) i = None
     then Inl (RecoveryRequiredError ''cannot attach adapter metadata to unknown intent'')
     else rbind (case adapter_row_of st i of
         None \<Rightarrow>
           if length ph \<noteq> 64 then Inl (DatabaseError ''CHECK constraint failed'')
           else Inr (st\<lparr>st_adapters := st_adapters st @
             [\<lparr>ar_intent_id = i, ar_backend_name = b, ar_payload_json = pj, ar_payload_hash = ph,
               ar_created_at = now, ar_updated_at = now\<rparr>]\<rparr>)
       | Some r \<Rightarrow>
           if ar_backend_name r \<noteq> b
           then Inl (RecoveryRequiredError ''intent is already assigned to another backend'')
           else if length ph \<noteq> 64 then Inl (DatabaseError ''CHECK constraint failed'')
           else Inr (st\<lparr>st_adapters := map (\<lambda>q. if ar_intent_id q = i
             then q\<lparr>ar_payload_json := pj, ar_payload_hash := ph, ar_updated_at := now\<rparr> else q)
             (st_adapters st)\<rparr>)) (\<lambda>st'.
       case adapter_row_of st' i of
         None \<Rightarrow> corrupt ''adapter metadata disappeared after write''
       | Some r \<Rightarrow> rbind (adapter_from_row (le_sha env) r) (\<lambda>a. Inr (st', a)))))))"

definition get_adapter_metadata ::
    "ledger_env \<Rightarrow> event_store \<Rightarrow> string \<Rightarrow> adapter_metadata option result" where
  "get_adapter_metadata env st i =
     rbind (ensure_open st) (\<lambda>_.
     case adapter_row_of st i of
       None \<Rightarrow> Inr None
     | Some r \<Rightarrow> rbind (adapter_from_row (le_sha env) r) (\<lambda>a. Inr (Some a)))"

section \<open>Checkpoints\<close>

definition create_checkpoint ::
    "ledger_env \<Rightarrow> string \<Rightarrow> event_store \<Rightarrow> (event_store \<times> state_checkpoint) result" where
  "create_checkpoint env now st =
     rbind (ensure_writable st) (\<lambda>_.
     rbind (load_all env st) (\<lambda>p.
     let n = rp_expected p - 1; h = le_state_fp env (rp_state p) in
     if n = 0 then Inl (PersistenceError ''cannot checkpoint an empty ledger'')
     else case checkpoint_at (st_checkpoints st) n of
       Some c \<Rightarrow>
         if cp_chain_hash c \<noteq> rp_hash p \<or> cp_state_hash c \<noteq> h
         then corrupt ''checkpoint conflicts with current replay'' else Inr (st, c)
     | None \<Rightarrow>
         if length (rp_hash p) \<noteq> 64 \<or> length h \<noteq> 64 then Inl (DatabaseError ''CHECK constraint failed'')
         else let c = \<lparr>cp_sequence = n, cp_chain_hash = rp_hash p, cp_state_hash = h, cp_created_at = now\<rparr>
              in Inr (st\<lparr>st_checkpoints := st_checkpoints st @ [c]\<rparr>, c)))"

section \<open>Startup recovery\<close>

definition recovery_action_of :: "order_state \<Rightarrow> bool \<Rightarrow> recovery_action option" where
  "recovery_action_of s has_adapter =
     (if s = CREATED then Some (if has_adapter then RECONCILE_BACKEND else RESUME_SUBMISSION)
      else if s \<in> {SUBMITTED, ACKNOWLEDGED, PARTIALLY_FILLED, UNKNOWN} then Some RECONCILE_BACKEND
      else None)"

definition add_pending ::
    "ledger_env \<Rightarrow> event_store \<Rightarrow> pending_order list \<Rightarrow> order_aggregate \<Rightarrow> pending_order list result" where
  "add_pending env st acc ord =
     rbind (case adapter_row_of st (oi_intent_id (oa_intent ord)) of
         None \<Rightarrow> Inr None
       | Some r \<Rightarrow> rbind (adapter_from_row (le_sha env) r) (\<lambda>a. Inr (Some a))) (\<lambda>adapter.
     case recovery_action_of (oa_state ord) (adapter \<noteq> None) of
       None \<Rightarrow> Inr acc
     | Some act \<Rightarrow> Inr (acc @ [\<lparr>po_order = ord, po_action = act, po_adapter = adapter\<rparr>]))"

definition recover_store :: "ledger_env \<Rightarrow> event_store \<Rightarrow> startup_recovery result" where
  "recover_store env st =
     rbind (ensure_open st) (\<lambda>_.
     rbind (load_all env st) (\<lambda>p.
     rbind (rfold (add_pending env st) []
       (sort_key (\<lambda>ord. oi_intent_id (oa_intent ord)) (map snd (ls_orders (rp_state p))))) (\<lambda>orders.
     rbind (list_decision_claims env st) (\<lambda>claims.
     Inr \<lparr>sr_state = rp_state p, sr_last_sequence = rp_expected p - 1, sr_chain_hash = rp_hash p,
          sr_pending_orders = orders,
          sr_pending_decisions = filter (\<lambda>c. dc_status c = ''claimed'') claims\<rparr>))))"

fun recovery_event_intent :: "event_body \<Rightarrow> string option" where
  "recovery_event_intent (OrderSubmitted i _) = Some i"
| "recovery_event_intent (OrderAcknowledged i) = Some i"
| "recovery_event_intent (FillReceived f) = Some (fl_intent_id f)"
| "recovery_event_intent (OrderRejected i _) = Some i"
| "recovery_event_intent (OrderCancelled i _) = Some i"
| "recovery_event_intent (OrderOutcomeUnknown i _) = Some i"
| "recovery_event_intent _ = None"

definition check_emitted :: "string \<Rightarrow> unit \<Rightarrow> ledger_event \<Rightarrow> unit result" where
  "check_emitted intent u e =
     (case recovery_event_intent (ev_body e) of
        None \<Rightarrow> Inl (RecoveryRequiredError ''adapter emitted unsupported recovery event'')
      | Some i \<Rightarrow>
          if i \<noteq> intent then Inl (RecoveryRequiredError ''adapter emitted an event for another intent'')
          else Inr ())"

type_synonym adapters = "string \<Rightarrow> string \<times> (order_aggregate \<Rightarrow> ledger_event list result)"

definition reconcile_one ::
    "ledger_env \<Rightarrow> (int \<Rightarrow> string) \<Rightarrow> adapters \<Rightarrow> event_store \<Rightarrow> pending_order \<Rightarrow> event_store result" where
  "reconcile_one env now resolve st po =
     (if po_action po \<noteq> RECONCILE_BACKEND then Inr st
      else case po_adapter po of
        None \<Rightarrow> Inl (RecoveryRequiredError ''order has no adapter metadata'')
      | Some a \<Rightarrow>
          (case resolve (ad_backend_name a) of (name, reconcile) \<Rightarrow>
             if name \<noteq> ad_backend_name a
             then Inl (RecoveryRequiredError ''adapter resolver returned another backend'')
             else rbind (reconcile (po_order po)) (\<lambda>emitted.
               rbind (rfold (check_emitted (oi_intent_id (oa_intent (po_order po)))) () emitted) (\<lambda>_.
               if emitted = [] then Inr st
               else rbind (append_many env now st emitted) (\<lambda>(st', _). Inr st')))))"

text \<open>Each \<^verbatim>\<open>append_many\<close> commits on its own: what was appended before an exception stays.\<close>

fun reconcile_orders ::
    "ledger_env \<Rightarrow> (int \<Rightarrow> string) \<Rightarrow> adapters \<Rightarrow> event_store \<Rightarrow> pending_order list \<Rightarrow>
     event_store \<times> unit result" where
  "reconcile_orders env now resolve st [] = (st, Inr ())"
| "reconcile_orders env now resolve st (po # pos) =
     (case reconcile_one env now resolve st po of
        Inl x \<Rightarrow> (st, Inl x)
      | Inr st' \<Rightarrow> reconcile_orders env now resolve st' pos)"

definition reconcile_startup ::
    "ledger_env \<Rightarrow> (int \<Rightarrow> string) \<Rightarrow> adapters \<Rightarrow> event_store \<Rightarrow>
     event_store \<times> startup_recovery result" where
  "reconcile_startup env now resolve st =
     (case recover_store env st of
        Inl x \<Rightarrow> (st, Inl x)
      | Inr report \<Rightarrow>
          (case reconcile_orders env now resolve st (sr_pending_orders report) of
             (st', Inl x) \<Rightarrow> (st', Inl x)
           | (st', Inr _) \<Rightarrow> (st', recover_store env st')))"

end
