(* ===== verification/Store_Props.thy ===== *)
theory Store_Props
  imports Store_Ops Codec_Props "HOL-Library.Sublist"
begin

text \<open>
  The event store reloads what it appended: lemmas on the verified replay, and the step invariant of
  the append loop.
\<close>

section \<open>Replayed rows\<close>

lemma encode_event_columns [simp]:
  "en_event_id (encode_event sha e) = ev_event_id e"
  "en_event_type (encode_event sha e) = event_type (ev_body e)"
  "en_schema_version (encode_event sha e) = event_schema_version"
  "en_payload_hash (encode_event sha e) = sha (en_payload_json (encode_event sha e))"
  by (simp_all add: encode_event_def Let_def split: prod.split)

definition event_of :: "ledger_env \<Rightarrow> ledger_row \<Rightarrow> ledger_event \<Rightarrow> bool" where
  "event_of env r e \<longleftrightarrow> row_event env r = Inr e"

lemma corrupt_on_Inr [simp]: "corrupt_on caught msg m = Inr v \<longleftrightarrow> m = Inr v"
  by (auto simp: corrupt_on_def corrupt_def split: sum.split)

lemma corrupt_on_ok [simp]: "corrupt_on caught msg (Inr v) = Inr v"
  by (simp add: corrupt_on_def)

lemma corrupt_neq [simp]: "corrupt msg \<noteq> Inr v"
  by (simp add: corrupt_def)

lemma if_corrupt [result_simps]:
  "(if c then corrupt msg else m) = Inr v \<longleftrightarrow> \<not> c \<and> m = Inr v"
  by (simp add: corrupt_def)

lemma row_event_columns:
  assumes "row_event env r = Inr e"
  shows "decode_event (le_tz env) (le_sha env) (lr_payload_json r) = Inr e"
    and "lr_payload_json r = en_payload_json (encode_event (le_sha env) e)"
    and "lr_event_id r = ev_event_id e"
    and "lr_event_type r = event_type (ev_body e)"
    and "lr_intent_id r = en_intent_id (encode_event (le_sha env) e)"
  using assms by (auto simp: row_event_def rbind_eq_Inr result_simps Let_def)

lemma load_row_Inr:
  assumes "load_row env cps p r = Inr q"
  obtains e s where "row_hashes (le_sha env) p r = Inr ()" "row_event env r = Inr e"
    "apply_event (le_sha env) (le_event_fp env) (rp_state p) e = Inr s"
    "checkpoint_check env cps (lr_sequence r) (lr_chain_hash r) s = Inr ()"
    "lr_sequence r = rp_expected p"
    "q = \<lparr>rp_events = rp_events p @ [e], rp_state = s, rp_expected = rp_expected p + 1, rp_hash = lr_chain_hash r\<rparr>"
  using assms by (auto simp: load_row_def row_hashes_def rbind_eq_Inr result_simps)

text \<open>The row of an event that the decoder reads back loads, unless a checkpoint is in the way.\<close>

lemma row_event_encode:
  assumes "storable (le_tz env) (le_sha env) e"
  shows "row_event env (event_row (le_sha env) t n h (encode_event (le_sha env) e)) = Inr e"
  by (simp add: row_event_def event_row_def decode_encode [OF assms] Let_def)

lemma load_event_row:
  assumes "storable (le_tz env) (le_sha env) e"
    and "apply_event (le_sha env) (le_event_fp env) (rp_state p) e = Inr s"
    and "checkpoint_at cps (rp_expected p) = None"
  shows "load_row env cps p (event_row (le_sha env) t (rp_expected p) (rp_hash p) (encode_event (le_sha env) e)) =
    Inr \<lparr>rp_events = rp_events p @ [e], rp_state = s, rp_expected = rp_expected p + 1,
      rp_hash = lr_chain_hash (event_row (le_sha env) t (rp_expected p) (rp_hash p) (encode_event (le_sha env) e))\<rparr>"
proof -
  let ?r = "event_row (le_sha env) t (rp_expected p) (rp_hash p) (encode_event (le_sha env) e)"
  have "row_hashes (le_sha env) p ?r = Inr ()" by (simp add: row_hashes_def event_row_def)
  moreover have "lr_sequence ?r = rp_expected p" by (simp add: event_row_def)
  ultimately show ?thesis
    using assms row_event_encode [OF assms(1)] by (simp add: load_row_def checkpoint_check_def)
qed

section \<open>The append loop\<close>

definition replayed ::
    "ledger_env \<Rightarrow> state_checkpoint list \<Rightarrow> ledger_row list \<Rightarrow> append_result \<Rightarrow> replay_point \<Rightarrow> bool" where
  "replayed env cps rows a p \<longleftrightarrow> rbind replay_start (\<lambda>p0. rfold (load_row env cps) p0 rows) = Inr p
     \<and> rp_state p = ap_state a \<and> rp_expected p = ap_last_sequence a + 1 \<and> rp_hash p = ap_chain_hash a
     \<and> list_all (\<lambda>c. cp_sequence c \<le> ap_last_sequence a) cps"

lemma checkpoint_none: "list_all (\<lambda>c. cp_sequence c \<noteq> n) cps \<Longrightarrow> checkpoint_at cps n = None"
  by (induction cps) (simp_all add: checkpoint_at_def)

lemma insert_row_Inr:
  "insert_row rows r = Inr rows' \<Longrightarrow> rows' = rows @ [r] \<and> lr_event_id r \<notin> set (map lr_event_id rows)
     \<and> (is_intent_row r \<longrightarrow> lr_intent_id r \<notin> set (map lr_intent_id (filter is_intent_row rows)))"
  by (auto simp: insert_row_def split: if_splits)

lemma find_append: "find P (xs @ ys) = (case find P xs of None \<Rightarrow> find P ys | Some x \<Rightarrow> Some x)"
  by (induction xs) simp_all

lemma find_in: "find P xs = Some x \<Longrightarrow> x \<in> set xs \<and> P x"
  by (induction xs) (auto split: if_splits)

lemma load_rows_events:
  assumes "rfold (load_row env cps) p rows = Inr q"
  shows "\<exists>es. rp_events q = rp_events p @ es \<and> list_all2 (event_of env) rows es"
  using assms
proof (induction rows arbitrary: p)
  case (Cons r rows)
  then obtain m where m: "load_row env cps p r = Inr m" "rfold (load_row env cps) m rows = Inr q"
    by (auto simp: rbind_eq_Inr)
  from m(1) obtain e where "row_event env r = Inr e" "rp_events m = rp_events p @ [e]"
    by (rule load_row_Inr) simp
  then show ?case using Cons.IH [OF m(2)] by (force simp: event_of_def)
qed simp

lemma replay_start_events: "replay_start = Inr p0 \<Longrightarrow> rp_events p0 = [] \<and> rp_expected p0 = 1"
  by (auto simp: replay_start_def rbind_eq_Inr)

lemma replayed_events:
  assumes "rbind replay_start (\<lambda>p0. rfold (load_row env cps) p0 rows) = Inr p"
  shows "list_all2 (event_of env) rows (rp_events p)"
  using assms load_rows_events replay_start_events by (fastforce simp: rbind_eq_Inr)

lemma list_all2_left: "list_all2 P xs ys \<Longrightarrow> x \<in> set xs \<Longrightarrow> \<exists>y\<in>set ys. P x y"
  by (induction rule: list_all2_induct) auto

definition appends :: "replay_point \<Rightarrow> ledger_event list \<Rightarrow> replay_point \<Rightarrow> bool" where
  "appends p es q \<longleftrightarrow> (\<exists>ys. rp_events q = rp_events p @ ys \<and> subseq ys es \<and> set es \<subseteq> set (rp_events q))"

lemma append_one_replayed:
  assumes "append_one env now allow (rows, a) e = Inr (rows', a')" and "replayed env cps rows a p"
    and "storable (le_tz env) (le_sha env) e"
  shows "\<exists>q. replayed env cps rows' a' q \<and> appends p [e] q"
proof (cases "existing_event rows (ev_event_id e)")
  case (Some r)
  then have r: "r \<in> set rows" and eq: "rows' = rows" "a' = a\<lparr>ap_duplicates := ap_duplicates a @ [ev_event_id e]\<rparr>"
    "lr_payload_json r = en_payload_json (encode_event (le_sha env) e)"
    using assms(1) by (auto simp: existing_event_def same_event_row_def Let_def dest: find_in split: if_splits)
  obtain e' where e': "e' \<in> set (rp_events p)" "row_event env r = Inr e'"
    using list_all2_left [OF replayed_events r] assms(2) unfolding replayed_def event_of_def by blast
  then have "e' = e" using row_event_columns(1) [of env r e'] eq(3) decode_encode [OF assms(3)] by simp
  then have "appends p [e] p" using e'(1) by (simp add: appends_def)
  moreover have "replayed env cps rows' a' p" using assms(2) eq by (simp add: replayed_def)
  ultimately show ?thesis by blast
next
  case None
  define r where "r = event_row (le_sha env) (now (ap_last_sequence a + 1)) (ap_last_sequence a + 1)
    (ap_chain_hash a) (encode_event (le_sha env) e)"
  obtain s where s: "apply_event (le_sha env) (le_event_fp env) (ap_state a) e = Inr s"
    and ins: "insert_row rows r = Inr rows'"
    and a': "a' = a\<lparr>ap_appended := ap_appended a @ [ap_last_sequence a + 1], ap_state := s,
      ap_last_sequence := ap_last_sequence a + 1, ap_chain_hash := lr_chain_hash r\<rparr>"
    using assms(1) None by (auto simp: Let_def rbind_eq_Inr r_def split: if_splits)
  have p: "rp_state p = ap_state a" "rp_expected p = ap_last_sequence a + 1" "rp_hash p = ap_chain_hash a"
    "list_all (\<lambda>c. cp_sequence c \<le> ap_last_sequence a) cps"
    using assms(2) by (simp_all add: replayed_def)
  have "checkpoint_at cps (rp_expected p) = None" using p(2,4)
    by (intro checkpoint_none) (auto simp: list_all_iff)
  define q where "q = \<lparr>rp_events = rp_events p @ [e], rp_state = s, rp_expected = rp_expected p + 1,
    rp_hash = lr_chain_hash r\<rparr>"
  have q: "load_row env cps p r = Inr q"
    using load_event_row [OF assms(3), of p s cps "now (ap_last_sequence a + 1)"] s p(1-3)
      \<open>checkpoint_at cps (rp_expected p) = None\<close>
    by (simp add: r_def q_def)
  have fields: "rp_events q = rp_events p @ [e]" "rp_state q = s" "rp_expected q = ap_last_sequence a + 2"
    "rp_hash q = lr_chain_hash r"
    using p(2) by (simp_all add: q_def)
  have "rbind replay_start (\<lambda>p0. rfold (load_row env cps) p0 rows') = Inr q"
    using assms(2) q insert_row_Inr [OF ins] by (auto simp: replayed_def rfold_append rbind_eq_Inr)
  moreover have "list_all (\<lambda>c. cp_sequence c \<le> ap_last_sequence a + 1) cps"
    using p(4) by (force simp: list_all_iff)
  ultimately have "replayed env cps rows' a' q" using fields a' by (simp add: replayed_def)
  moreover have "appends p [e] q" using fields(1) by (simp add: appends_def)
  ultimately show ?thesis by blast
qed

lemma appends_trans:
  assumes "appends p [e] q" and "appends q es r"
  shows "appends p (e # es) r"
proof -
  obtain ys zs where ys: "rp_events q = rp_events p @ ys" "subseq ys [e]" "e \<in> set (rp_events q)"
    and zs: "rp_events r = rp_events q @ zs" "subseq zs es" "set es \<subseteq> set (rp_events r)"
    using assms by (auto simp: appends_def)
  have "subseq (ys @ zs) ([e] @ es)" by (rule list_emb_append_mono [OF ys(2) zs(2)])
  then show ?thesis unfolding appends_def using ys zs by (intro exI [of _ "ys @ zs"]) auto
qed

lemma append_loop_replayed:
  assumes "rfold (append_one env now allow) (rows, a) es = Inr (rows', a')" and "replayed env cps rows a p"
    and "list_all (storable (le_tz env) (le_sha env)) es"
  shows "\<exists>q. replayed env cps rows' a' q \<and> appends p es q"
  using assms
proof (induction es arbitrary: rows a p)
  case Nil
  then show ?case by (auto simp: appends_def)
next
  case (Cons e es)
  then obtain rows1 a1 where m: "append_one env now allow (rows, a) e = Inr (rows1, a1)"
    "rfold (append_one env now allow) (rows1, a1) es = Inr (rows', a')"
    by (auto simp: rbind_eq_Inr)
  obtain q where q: "replayed env cps rows1 a1 q" "appends p [e] q"
    using append_one_replayed [OF m(1) Cons.prems(2)] Cons.prems(3) by auto
  then show ?case using Cons.IH [OF m(2) q(1)] Cons.prems(3) by (auto intro: appends_trans)
qed

lemma load_all_Inr:
  "load_all env st = Inr p \<longleftrightarrow>
     rbind replay_start (\<lambda>p0. rfold (load_row env (st_checkpoints st)) p0 (st_ledger st)) = Inr p
     \<and> list_all (\<lambda>c. cp_sequence c \<le> rp_expected p - 1) (st_checkpoints st)"
  by (auto simp: load_ledger_def rbind_eq_Inr result_simps Let_def)

lemma append_events_load:
  assumes "append_events env now allow st es = Inr (st', a)"
    and "list_all (storable (le_tz env) (le_sha env)) es"
  shows "\<exists>p q. load_all env st = Inr p \<and> load_all env st' = Inr q \<and> appends p es q
    \<and> rp_state q = ap_state a \<and> rp_expected q = ap_last_sequence a + 1 \<and> rp_hash q = ap_chain_hash a"
proof -
  obtain p rows where p: "load_all env st = Inr p" and st': "st' = st\<lparr>st_ledger := rows\<rparr>"
    and loop: "rfold (append_one env now allow) (st_ledger st, \<lparr>ap_appended = [], ap_duplicates = [],
      ap_state = rp_state p, ap_last_sequence = rp_expected p - 1, ap_chain_hash = rp_hash p\<rparr>) es = Inr (rows, a)"
    using assms(1) by (auto simp: append_events_def rbind_eq_Inr)
  have "replayed env (st_checkpoints st) (st_ledger st) \<lparr>ap_appended = [], ap_duplicates = [],
      ap_state = rp_state p, ap_last_sequence = rp_expected p - 1, ap_chain_hash = rp_hash p\<rparr> p"
    using p unfolding load_all_Inr by (simp add: replayed_def)
  from append_loop_replayed [OF loop this assms(2)]
  obtain q where q: "replayed env (st_checkpoints st) rows a q" "appends p es q" by blast
  then have "load_all env st' = Inr q" unfolding load_all_Inr using st' by (simp add: replayed_def)
  then show ?thesis using p q by (auto simp: replayed_def)
qed

end
