(* ===== verification/Store_Runs.thy ===== *)
theory Store_Runs
  imports Store_Props
begin

text \<open>
  Every run of the store's operations leaves a database that opens again: the invariant of the tables,
  operation by operation, over a datatype of commands.
\<close>

section \<open>Metadata that reads back\<close>

text \<open>The keys of a Python mapping are distinct, at every level.\<close>

primrec proper_meta :: "meta \<Rightarrow> bool" where
  "proper_meta MetaNone = True"
| "proper_meta (MetaStr s) = True"
| "proper_meta (MetaBool b) = True"
| "proper_meta (MetaInt n) = True"
| "proper_meta MetaFloat = True"
| "proper_meta (MetaDecimal x) = True"
| "proper_meta (MetaMapping ps) = (distinct (map fst ps) \<and> list_all snd (map (map_prod id proper_meta) ps))"
| "proper_meta (MetaSequence vs) = list_all id (map proper_meta vs)"
| "proper_meta MetaOther = True"

definition proper_metadata :: "py_metadata \<Rightarrow> bool" where
  "proper_metadata m = (case m of None \<Rightarrow> True | Some ps \<Rightarrow> proper_meta (MetaMapping ps))"

lemma rmap_list_all2: "rmap f xs = Inr ys \<longleftrightarrow> list_all2 (\<lambda>x y. f x = Inr y) xs ys"
  by (induction xs arbitrary: ys) (auto simp: rbind_eq_Inr list_all2_Cons1)

lemma list_all2_right: "list_all2 P xs ys \<Longrightarrow> y \<in> set ys \<Longrightarrow> \<exists>x\<in>set xs. P x y"
  by (induction rule: list_all2_induct) auto

lemma mapping_entries:
  assumes "rmap (\<lambda>p. case fst p of None \<Rightarrow> Inl x
    | Some k \<Rightarrow> if k = [] then Inl y else rbind (f (snd p)) (\<lambda>v. Inr (k, v))) ps = Inr d"
  shows "list_all2 (\<lambda>p q. fst p = Some (fst q) \<and> f (snd p) = Inr (snd q)) ps d"
  using assms by (induction ps arbitrary: d) (auto simp: rbind_eq_Inr split: option.splits if_splits)

lemma metadata_valid: "proper_meta m \<Longrightarrow> metadata_value m = Inr v \<Longrightarrow> valid_json v"
proof (induction m arbitrary: v)
  case (MetaMapping ps)
  then obtain d where d: "v = JObj d"
    and each: "list_all2 (\<lambda>p q. fst p = Some (fst q) \<and> metadata_value (snd p) = Inr (snd q)) ps d"
    by (auto simp: rbind_eq_Inr dest: mapping_entries)
  have "map fst ps = map (Some \<circ> fst) d"
    using each by (induction rule: list_all2_induct) auto
  then have "distinct (map (Some \<circ> fst) d)" using MetaMapping.prems(1) by simp
  then have "distinct (map fst d)" by (metis distinct_map map_map)
  moreover have "valid_json w" if entry: "(k, w) \<in> set d" for k w
  proof -
    obtain p where p: "p \<in> set ps" "metadata_value (snd p) = Inr w"
      using list_all2_right [OF each entry] by auto
    then have "proper_meta (snd p)" using MetaMapping.prems(1) by (auto simp: list_all_iff)
    then show ?thesis using MetaMapping.IH [of p "snd p"] p by (cases p) auto
  qed
  ultimately show ?case by (auto simp: d list_all_iff)
next
  case (MetaSequence vs)
  then obtain ws where ws: "v = JArr ws" "list_all2 (\<lambda>x y. metadata_value x = Inr y) vs ws"
    by (auto simp: rbind_eq_Inr rmap_list_all2)
  have "valid_json w" if "w \<in> set ws" for w
    using list_all2_right [OF ws(2) that] MetaSequence.prems(1) MetaSequence.IH by (auto simp: list_all_iff)
  then show ?case by (simp add: ws(1) list_all_iff)
qed auto

lemma metadata_read:
  assumes "encode_metadata sha m = Inr (j, h)" and "proper_metadata m"
  shows "\<exists>d. decode_metadata sha j h = Inr d"
proof -
  obtain v where v: "metadata_value (MetaMapping (case m of None \<Rightarrow> [] | Some ps \<Rightarrow> ps)) = Inr v"
    "j = canonical_json v" "h = sha j"
    using assms(1) by (auto simp: encode_metadata_def rbind_eq_Inr Let_def)
  moreover have "proper_meta (MetaMapping (case m of None \<Rightarrow> [] | Some ps \<Rightarrow> ps))"
    using assms(2) by (auto simp: proper_metadata_def split: option.splits)
  ultimately have "valid_json v" by (blast intro: metadata_valid)
  moreover obtain d where "v = JObj d" using v(1) by (auto simp: rbind_eq_Inr)
  ultimately show ?thesis
    using load_canonical_json [of v] v by (simp add: decode_metadata_def load_json_object_def)
qed

section \<open>The invariant of the tables\<close>

text \<open>
  The database passes its own check; the keys are those the unique indexes enforce; and an order
  intent is in the ledger only with a committed decision of that key.
\<close>

definition intents_unique :: "ledger_row list \<Rightarrow> bool" where
  "intents_unique rows \<longleftrightarrow> distinct (map lr_intent_id (filter is_intent_row rows))"

definition intent_claimed :: "claim_row list \<Rightarrow> ledger_event \<Rightarrow> bool" where
  "intent_claimed claims e \<longleftrightarrow> (case ev_body e of
     OrderIntentCreated i \<Rightarrow> list_ex (\<lambda>r. cr_status r = ''committed'' \<and> cr_intent_id r = Some (oi_intent_id i)
       \<and> cr_decision_key r = oi_decision_id i) claims
   | _ \<Rightarrow> True)"

definition store_ok :: "ledger_env \<Rightarrow> event_store \<Rightarrow> bool" where
  "store_ok env st \<longleftrightarrow> \<not> st_closed st \<and> intents_unique (st_ledger st)
     \<and> distinct (map cr_decision_key (st_claims st))
     \<and> (\<exists>p. load_all env st = Inr p \<and> list_all (intent_claimed (st_claims st)) (rp_events p))
     \<and> list_all (\<lambda>r. verify_claim env st () r = Inr ()) (st_claims st)
     \<and> list_all (\<lambda>r. verify_adapter env st () r = Inr ()) (st_adapters st)"

lemma rfold_unit: "(\<And>x. x \<in> set xs \<Longrightarrow> f () x = Inr ()) \<Longrightarrow> rfold f () xs = Inr ()"
  by (induction xs) simp_all

lemma store_ok_verifies: "store_ok env st \<Longrightarrow> verify_integrity env st = Inr ()"
proof -
  assume ok: "store_ok env st"
  have "rfold (verify_claim env st) () (sort_key cr_decision_key (st_claims st)) = Inr ()"
    "rfold (verify_adapter env st) () (sort_key ar_intent_id (st_adapters st)) = Inr ()"
    using ok by (auto intro!: rfold_unit simp: store_ok_def list_all_iff)
  then have "verify_auxiliary env st = Inr ()" by (simp add: verify_auxiliary_def)
  then show ?thesis using ok by (auto simp: verify_integrity_def ensure_open_def store_ok_def)
qed

section \<open>What the checks read of the tables\<close>

lemma intent_case [result_simps]:
  "(case b of OrderIntentCreated i \<Rightarrow> f i | _ \<Rightarrow> corrupt msg) = Inr v \<longleftrightarrow>
     (\<exists>i. b = OrderIntentCreated i \<and> f i = Inr v)"
  by (cases b) auto

lemma verify_claim_iff:
  "verify_claim env st () r = Inr () \<longleftrightarrow> (\<exists>c. claim_from_row (le_sha env) r = Inr c
     \<and> (cr_status r \<in> {''claimed'', ''completed''} \<and> cr_intent_id r = None
       \<or> cr_status r = ''committed'' \<and> (\<exists>row e i. cr_intent_id r = Some (oi_intent_id i)
           \<and> intent_event (st_ledger st) (oi_intent_id i) = Some row
           \<and> decode_event (le_tz env) (le_sha env) (lr_payload_json row) = Inr e
           \<and> ev_body e = OrderIntentCreated i \<and> oi_decision_id i = cr_decision_key r)))"
proof (cases "claim_from_row (le_sha env) r")
  case (Inr c)
  then have c: "dc_status c = cr_status r" "dc_intent_id c = cr_intent_id r" "dc_decision_key c = cr_decision_key r"
    by (auto simp: claim_from_row_def rbind_eq_Inr)
  show ?thesis
  proof (cases "cr_status r = ''committed''")
    case True
    then show ?thesis
      by (auto simp: verify_claim_def Inr c rbind_eq_Inr result_simps split: option.splits)
  qed (auto simp: verify_claim_def Inr c result_simps)
qed (simp add: verify_claim_def)

lemma verify_claim_ledger:
  assumes "verify_claim env st () r = Inr ()"
    and "\<And>i row. intent_event (st_ledger st) i = Some row \<Longrightarrow> intent_event (st_ledger st') i = Some row"
  shows "verify_claim env st' () r = Inr ()"
  using assms unfolding verify_claim_iff by blast

lemma verify_adapter_ledger:
  assumes "verify_adapter env st () r = Inr ()"
    and "\<And>i row. intent_event (st_ledger st) i = Some row \<Longrightarrow> intent_event (st_ledger st') i = Some row"
  shows "verify_adapter env st' () r = Inr ()"
  using assms(1)
  by (auto simp: verify_adapter_def rbind_eq_Inr result_simps assms(2) split: option.splits if_splits)

lemma intent_event_append:
  "intent_event rows i = Some row \<Longrightarrow> intent_event (rows @ added) i = Some row"
  by (simp add: intent_event_def find_append)

lemma load_all_ledger:
  "st_ledger st' = st_ledger st \<Longrightarrow> st_checkpoints st' = st_checkpoints st \<Longrightarrow> load_all env st' = load_all env st"
  by (simp add: load_ledger_def)

section \<open>Appending keeps the invariant\<close>

lemma append_one_rows:
  assumes "append_one env now allow (rows, a) e = Inr (rows', a')" and "intents_unique rows"
  shows "\<exists>added. rows' = rows @ added \<and> intents_unique rows'"
  using assms
  by (auto simp: Let_def rbind_eq_Inr intents_unique_def dest!: insert_row_Inr split: if_splits option.splits)

lemma append_loop_rows:
  assumes "rfold (append_one env now allow) (rows, a) es = Inr (rows', a')" and "intents_unique rows"
  shows "\<exists>added. rows' = rows @ added \<and> intents_unique rows'"
  using assms
proof (induction es arbitrary: rows a)
  case (Cons e es)
  then obtain rows1 a1 where m: "append_one env now allow (rows, a) e = Inr (rows1, a1)"
    "rfold (append_one env now allow) (rows1, a1) es = Inr (rows', a')"
    by (auto simp: rbind_eq_Inr)
  then show ?case using append_one_rows [OF m(1) Cons.prems(2)] Cons.IH [OF m(2)] by auto
qed simp

lemma append_events_rows:
  assumes "append_events env now allow st es = Inr (st', a)" and "intents_unique (st_ledger st)"
  obtains added where "st' = st\<lparr>st_ledger := st_ledger st @ added\<rparr>" "intents_unique (st_ledger st @ added)"
  using assms append_loop_rows by (fastforce simp: append_events_def rbind_eq_Inr)

lemma append_no_intents:
  "rfold (append_one env now False) (rows, a) es = Inr (rows', a') \<Longrightarrow>
     list_all (\<lambda>e. \<not> is_intent_body (ev_body e)) es"
proof (induction es arbitrary: rows a)
  case (Cons e es)
  then obtain rows1 a1 where m: "append_one env now False (rows, a) e = Inr (rows1, a1)"
    "rfold (append_one env now False) (rows1, a1) es = Inr (rows', a')"
    by (auto simp: rbind_eq_Inr)
  then show ?case using Cons.IH [OF m(2)] by (auto split: if_splits)
qed simp

lemma intent_claimed_other: "\<not> is_intent_body (ev_body e) \<Longrightarrow> intent_claimed claims e"
  by (cases "ev_body e") (simp_all add: intent_claimed_def)

lemma subseq_elements: "subseq xs ys \<Longrightarrow> x \<in> set xs \<Longrightarrow> x \<in> set ys"
  by (induction rule: list_emb.induct) auto

lemma appends_all:
  assumes "appends p es q" and "list_all P (rp_events p)" and "list_all P es"
  shows "list_all P (rp_events q)"
proof -
  obtain ys where ys: "rp_events q = rp_events p @ ys" "subseq ys es"
    using assms(1) by (auto simp: appends_def)
  have "set ys \<subseteq> set es" using subseq_elements [OF ys(2)] by blast
  then show ?thesis using assms(2,3) ys(1) by (auto simp: list_all_iff)
qed

lemma append_events_ok:
  assumes run: "append_events env now False st es = Inr (st', a)" and "store_ok env st"
    and "list_all (storable (le_tz env) (le_sha env)) es"
  shows "store_ok env st'"
proof -
  obtain added where st': "st' = st\<lparr>st_ledger := st_ledger st @ added\<rparr>" and u: "intents_unique (st_ledger st @ added)"
    using run assms(2) by (auto simp: store_ok_def elim: append_events_rows)
  obtain p q where p: "load_all env st = Inr p" and q: "load_all env st' = Inr q" "appends p es q"
    using append_events_load [OF run assms(3)] by blast
  have "list_all (\<lambda>e. \<not> is_intent_body (ev_body e)) es"
    using run append_no_intents by (fastforce simp: append_events_def rbind_eq_Inr)
  then have "list_all (intent_claimed (st_claims st)) es"
    by (auto simp: list_all_iff intent_claimed_other)
  then have "list_all (intent_claimed (st_claims st)) (rp_events q)"
    using assms(2) p by (intro appends_all [OF q(2)]) (auto simp: store_ok_def)
  moreover have "verify_claim env st' () r = Inr ()" if "verify_claim env st () r = Inr ()" for r
    using that by (rule verify_claim_ledger) (simp add: st' intent_event_append)
  moreover have "verify_adapter env st' () r = Inr ()" if "verify_adapter env st () r = Inr ()" for r
    using that by (rule verify_adapter_ledger) (simp add: st' intent_event_append)
  ultimately show ?thesis
    using assms(2) q(1) u by (auto simp: store_ok_def st' list_all_iff)
qed

lemma append_many_ok:
  "append_many env now st es = Inr (st', a) \<Longrightarrow> store_ok env st \<Longrightarrow>
     list_all (storable (le_tz env) (le_sha env)) es \<Longrightarrow> store_ok env st'"
  by (auto simp: append_many_def rbind_eq_Inr intro: append_events_ok)

section \<open>Claims\<close>

lemma store_ok_claims:
  assumes "store_ok env st" and "st' = st\<lparr>st_claims := cs\<rparr>" and "distinct (map cr_decision_key cs)"
    and "list_all (\<lambda>r. verify_claim env st () r = Inr ()) cs"
    and "\<And>r. r \<in> set (st_claims st) \<Longrightarrow> cr_status r = ''committed'' \<Longrightarrow> r \<in> set cs"
  shows "store_ok env st'"
proof -
  have "st_ledger st' = st_ledger st" by (simp add: assms(2))
  then have same: "verify_claim env st' () r = verify_claim env st () r"
    "verify_adapter env st' () q = verify_adapter env st () q" for r q
    by (simp_all only: verify_claim_def verify_adapter_def)
  have "load_all env st' = load_all env st" by (rule load_all_ledger) (simp_all add: assms(2))
  moreover have "intent_claimed cs e" if "intent_claimed (st_claims st) e" for e
    using that assms(5) by (cases "ev_body e") (auto simp: intent_claimed_def list_ex_iff)
  ultimately show ?thesis
    using assms(1-4) same by (auto simp: store_ok_def list_all_iff)
qed

lemma decision_row_None: "decision_row st k = None \<longleftrightarrow> k \<notin> set (map cr_decision_key (st_claims st))"
  by (auto simp: decision_row_def find_None_iff)

lemma decision_row_Some:
  "decision_row st k = Some r \<Longrightarrow> r \<in> set (st_claims st) \<and> cr_decision_key r = k"
  by (auto simp: decision_row_def dest: find_in)

lemma distinct_key_eq:
  "distinct (map f xs) \<Longrightarrow> x \<in> set xs \<Longrightarrow> y \<in> set xs \<Longrightarrow> f x = f y \<Longrightarrow> x = y"
  by (auto simp: distinct_map dest: inj_onD)

lemma update_claim_Inr:
  assumes "update_claim st k f = Inr st'"
  shows "st' = st\<lparr>st_claims := map (\<lambda>r. if cr_decision_key r = k then f r else r) (st_claims st)\<rparr>"
  using assms by (auto simp: update_claim_def Let_def split: if_splits)

lemma claim_meta_read:
  assumes "encode_metadata sha m = Inr (j, h)" and "proper_metadata m"
    and "cr_metadata_json r = j" and "cr_metadata_hash r = h"
  shows "\<exists>c. claim_from_row sha r = Inr c"
  using metadata_read [OF assms(1,2)] assms(3,4) by (auto simp: claim_from_row_def)

lemma claim_decision_ok:
  assumes "claim_decision env now st key owner m = Inr (st', c)" and "store_ok env st" and "proper_metadata m"
  shows "store_ok env st'"
proof -
  obtain k ow j h where run: "require_text key ''decision_key'' = Inr k"
    "require_text owner ''owner_id'' = Inr ow" "encode_metadata (le_sha env) m = Inr (j, h)"
    "ensure_writable st = Inr ()"
    using assms(1) by (auto simp: claim_decision_def rbind_eq_Inr)
  show ?thesis
  proof (cases "decision_row st k")
    case None
    let ?r = "\<lparr>cr_decision_key = k, cr_owner_id = ow, cr_status = ''claimed'', cr_intent_id = None,
      cr_metadata_json = j, cr_metadata_hash = h, cr_claimed_at = now, cr_updated_at = now\<rparr>"
    have st': "st' = st\<lparr>st_claims := st_claims st @ [?r]\<rparr>"
      using assms(1) None by (auto simp: claim_decision_def run rbind_eq_Inr insert_claim_def split: if_splits)
    have "verify_claim env st () ?r = Inr ()"
      using claim_meta_read [OF run(3) assms(3), of ?r] by (auto simp: verify_claim_iff)
    then show ?thesis
      using assms(2) None
      by (intro store_ok_claims [OF assms(2) st']) (auto simp: store_ok_def decision_row_None)
  next
    case (Some r)
    then have "st' = st"
      using assms(1) by (auto simp: claim_decision_def run rbind_eq_Inr split: if_splits)
    then show ?thesis using assms(2) by simp
  qed
qed

lemma complete_decision_ok:
  assumes "complete_decision_without_intent env now st key owner = Inr (st', c)" and "store_ok env st"
  shows "store_ok env st'"
proof -
  obtain k ow r cl where run: "require_text key ''decision_key'' = Inr k"
    "require_text owner ''owner_id'' = Inr ow" "ensure_writable st = Inr ()" "decision_row st k = Some r"
    "claim_from_row (le_sha env) r = Inr cl"
    using assms(1) by (auto simp: complete_decision_without_intent_def rbind_eq_Inr split: option.splits)
  have r: "r \<in> set (st_claims st)" "cr_decision_key r = k" using decision_row_Some [OF run(4)] by simp_all
  have status: "dc_status cl = cr_status r" using run(5) by (auto simp: claim_from_row_def rbind_eq_Inr)
  show ?thesis
  proof (cases "dc_status cl = ''completed'' \<and> dc_owner_id cl = ow")
    case True
    then have "st' = st" using assms(1) by (simp add: complete_decision_without_intent_def run)
    then show ?thesis using assms(2) by simp
  next
    case False
    let ?f = "\<lambda>r. r\<lparr>cr_status := ''completed'', cr_updated_at := now\<rparr>"
    have claimed: "cr_status r = ''claimed''" and "update_claim st k ?f = Inr st'"
      using assms(1) False status
      by (auto simp: complete_decision_without_intent_def run rbind_eq_Inr split: if_splits)
    then have st': "st' = st\<lparr>st_claims := map (\<lambda>r. if cr_decision_key r = k then ?f r else r) (st_claims st)\<rparr>"
      by (intro update_claim_Inr)
    have only: "q = r" if "q \<in> set (st_claims st)" "cr_decision_key q = k" for q
      using assms(2) that r by (intro distinct_key_eq [of cr_decision_key "st_claims st"]) (auto simp: store_ok_def)
    have "verify_claim env st () r = Inr ()" using assms(2) r by (simp add: store_ok_def list_all_iff)
    then have "cr_intent_id r = None" using claimed by (simp add: verify_claim_iff)
    then have "verify_claim env st () (?f r) = Inr ()"
      using run(5) by (auto simp: verify_claim_iff claim_from_row_def rbind_eq_Inr)
    then show ?thesis
      using assms(2) only claimed
      by (intro store_ok_claims [OF assms(2) st'])
        (auto simp: store_ok_def list_all_iff comp_def if_distrib cong: if_cong)
  qed
qed

section \<open>Committing an intent\<close>

lemma loaded_intent_found:
  assumes "load_all env st = Inr q" and "e \<in> set (rp_events q)" and "ev_body e = OrderIntentCreated i"
    and "intents_unique (st_ledger st)"
  shows "\<exists>row. intent_event (st_ledger st) (oi_intent_id i) = Some row
    \<and> decode_event (le_tz env) (le_sha env) (lr_payload_json row) = Inr e"
proof -
  have "list_all2 (event_of env) (st_ledger st) (rp_events q)"
    using assms(1) unfolding load_all_Inr by (blast intro: replayed_events)
  then obtain r where r: "r \<in> set (st_ledger st)" "row_event env r = Inr e"
    using list_all2_right [of "event_of env" _ _ e] assms(2) by (auto simp: event_of_def)
  then have cols: "is_intent_row r" "lr_intent_id r = Some (oi_intent_id i)"
    using row_event_columns(4,5) [OF r(2)] assms(3)
    by (simp_all add: is_intent_row_def encode_event_def Let_def)
  then obtain row where row: "intent_event (st_ledger st) (oi_intent_id i) = Some row"
    using r(1) by (cases "intent_event (st_ledger st) (oi_intent_id i)") (auto simp: intent_event_def find_None_iff)
  then have "row \<in> set (st_ledger st)" "is_intent_row row" "lr_intent_id row = Some (oi_intent_id i)"
    by (auto simp: intent_event_def dest: find_in)
  then have "row = r"
    using assms(4) r(1) cols unfolding intents_unique_def
    by (intro distinct_key_eq [of lr_intent_id "filter is_intent_row (st_ledger st)"]) auto
  then show ?thesis using row row_event_columns(1) [OF r(2)] by blast
qed

lemma intent_claimed_mono:
  "intent_claimed cs e \<Longrightarrow> (\<And>r. r \<in> set cs \<Longrightarrow> cr_status r = ''committed'' \<Longrightarrow> r \<in> set ds) \<Longrightarrow> intent_claimed ds e"
  by (cases "ev_body e") (auto simp: intent_claimed_def list_ex_iff)

lemma commit_events_ok:
  assumes "append_events env now True (st\<lparr>st_claims := cs\<rparr>) es = Inr (st', a)" and "store_ok env st"
    and storable: "list_all (storable (le_tz env) (le_sha env)) es"
    and e: "e \<in> set es" "ev_body e = OrderIntentCreated i"
    and only: "list_all (\<lambda>f. f = e \<or> \<not> is_intent_body (ev_body f)) es"
    and distinct: "distinct (map cr_decision_key cs)"
    and committed: "c \<in> set cs" "cr_status c = ''committed''" "cr_intent_id c = Some (oi_intent_id i)"
      "cr_decision_key c = oi_decision_id i" "claim_from_row (le_sha env) c = Inr d"
    and others: "\<And>r. r \<in> set cs \<Longrightarrow> r = c \<or> verify_claim env st () r = Inr ()"
    and kept: "\<And>r. r \<in> set (st_claims st) \<Longrightarrow> cr_status r = ''committed'' \<Longrightarrow> r \<in> set cs"
  shows "store_ok env st'"
proof -
  let ?st = "st\<lparr>st_claims := cs\<rparr>"
  have "intents_unique (st_ledger ?st)" using assms(2) by (simp add: store_ok_def)
  with assms(1) obtain added where st': "st' = st\<lparr>st_claims := cs, st_ledger := st_ledger st @ added\<rparr>"
    and u: "intents_unique (st_ledger st')"
    by (rule append_events_rows) simp
  obtain p q where p: "load_all env ?st = Inr p" and q: "load_all env st' = Inr q" "appends p es q"
    using append_events_load [OF assms(1) storable] by auto
  have "load_all env ?st = load_all env st" by (rule load_all_ledger) simp_all
  then have "list_all (intent_claimed (st_claims st)) (rp_events p)"
    using assms(2) p by (auto simp: store_ok_def)
  then have "list_all (intent_claimed cs) (rp_events p)"
    using kept unfolding list_all_iff by (blast intro: intent_claimed_mono)
  moreover have "intent_claimed cs e"
    using committed e(2) by (auto simp: intent_claimed_def list_ex_iff)
  then have "list_all (intent_claimed cs) es"
    using only by (auto simp: list_all_iff intent_claimed_other)
  ultimately have claimed: "list_all (intent_claimed cs) (rp_events q)"
    using q(2) by (auto intro: appends_all)
  have keep: "intent_event (st_ledger st) j = Some row \<Longrightarrow> intent_event (st_ledger st') j = Some row" for j row
    by (simp add: st' intent_event_append)
  have "e \<in> set (rp_events q)" using q(2) e(1) by (auto simp: appends_def)
  then obtain row where "intent_event (st_ledger st') (oi_intent_id i) = Some row"
    "decode_event (le_tz env) (le_sha env) (lr_payload_json row) = Inr e"
    using loaded_intent_found [OF q(1) _ e(2) u] by blast
  then have "verify_claim env st' () c = Inr ()"
    unfolding verify_claim_iff using committed e(2) by fastforce
  moreover have "verify_claim env st' () r = Inr ()" if "verify_claim env st () r = Inr ()" for r
    using that keep by (rule verify_claim_ledger)
  ultimately have "list_all (\<lambda>r. verify_claim env st' () r = Inr ()) cs"
    using others by (auto simp: list_all_iff)
  moreover have "verify_adapter env st' () r = Inr ()" if "verify_adapter env st () r = Inr ()" for r
    using that keep by (rule verify_adapter_ledger)
  ultimately show ?thesis
    using assms(2) distinct u q(1) claimed by (auto simp: store_ok_def st' list_all_iff)
qed

lemma commit_ok:
  assumes "append_events env now True (st\<lparr>st_claims := cs\<rparr>) [e] = Inr (st', a)" and "store_ok env st"
    and "storable (le_tz env) (le_sha env) e" and "ev_body e = OrderIntentCreated i"
    and "distinct (map cr_decision_key cs)"
    and "c \<in> set cs" "cr_status c = ''committed''" "cr_intent_id c = Some (oi_intent_id i)"
      "cr_decision_key c = oi_decision_id i" "claim_from_row (le_sha env) c = Inr d"
    and "\<And>r. r \<in> set cs \<Longrightarrow> r = c \<or> verify_claim env st () r = Inr ()"
    and "\<And>r. r \<in> set (st_claims st) \<Longrightarrow> cr_status r = ''committed'' \<Longrightarrow> r \<in> set cs"
  shows "store_ok env st'"
  by (rule commit_events_ok [OF assms(1,2) _ _ assms(4) _ assms(5-12)]) (simp_all add: assms(3))

lemma commit_order_intent_ok:
  assumes "commit_order_intent env now stamp st eid t i owner m = Inr (st', a)" and "store_ok env st"
    and "storable (le_tz env) (le_sha env) \<lparr>ev_event_id = eid, ev_occurred_at = t, ev_body = OrderIntentCreated i\<rparr>"
    and "strip (oi_decision_id i) = oi_decision_id i" and "proper_metadata m"
  shows "store_ok env st'"
proof -
  let ?e = "\<lparr>ev_event_id = eid, ev_occurred_at = t, ev_body = OrderIntentCreated i\<rparr>"
  obtain ow k j h where run0: "require_text owner ''owner_id'' = Inr ow"
    "require_text (oi_decision_id i) ''decision_id'' = Inr k"
    "encode_metadata (le_sha env) m = Inr (j, h)" "ensure_writable st = Inr ()"
    using assms(1) by (auto simp: commit_order_intent_def rbind_eq_Inr Let_def)
  moreover have "k = oi_decision_id i" using require_text_InrD [OF run0(2)] assms(4) by simp
  ultimately have run: "require_text owner ''owner_id'' = Inr ow"
    "require_text (oi_decision_id i) ''decision_id'' = Inr (oi_decision_id i)"
    "encode_metadata (le_sha env) m = Inr (j, h)" "ensure_writable st = Inr ()"
    by simp_all
  show ?thesis
  proof (cases "decision_row st (oi_decision_id i)")
    case None
    let ?r = "\<lparr>cr_decision_key = oi_decision_id i, cr_owner_id = ow, cr_status = ''committed'',
      cr_intent_id = Some (oi_intent_id i), cr_metadata_json = j, cr_metadata_hash = h,
      cr_claimed_at = stamp, cr_updated_at = stamp\<rparr>"
    have run1: "append_events env now True (st\<lparr>st_claims := st_claims st @ [?r]\<rparr>) [?e] = Inr (st', a)"
      using assms(1) None by (auto simp: commit_order_intent_def run Let_def rbind_eq_Inr insert_claim_def split: if_splits)
    obtain d where "claim_from_row (le_sha env) ?r = Inr d"
      using claim_meta_read [OF run(3) assms(5), of ?r] by auto
    then show ?thesis
      using assms(2) None
      by (intro commit_ok [OF run1 assms(2,3), of i ?r d]) (auto simp: store_ok_def list_all_iff decision_row_None)
  next
    case (Some r)
    have r: "r \<in> set (st_claims st)" "cr_decision_key r = oi_decision_id i"
      using decision_row_Some [OF Some] by simp_all
    obtain c where c: "claim_from_row (le_sha env) r = Inr c"
      using assms(1) Some by (auto simp: commit_order_intent_def run Let_def rbind_eq_Inr)
    then have status: "dc_status c = cr_status r" by (auto simp: claim_from_row_def rbind_eq_Inr)
    show ?thesis
    proof (cases "dc_status c = ''committed''")
      case True
      then have "st' = st"
        using assms(1) Some c
        by (auto simp: commit_order_intent_def run Let_def commit_again_def rbind_eq_Inr result_simps
            split: option.splits if_splits)
      then show ?thesis using assms(2) by simp
    next
      case False
      let ?f = "\<lambda>r. r\<lparr>cr_status := ''committed'', cr_intent_id := Some (oi_intent_id i), cr_updated_at := stamp\<rparr>"
      let ?cs = "map (\<lambda>r. if cr_decision_key r = oi_decision_id i then ?f r else r) (st_claims st)"
      obtain st1 where st1: "update_claim st (oi_decision_id i) ?f = Inr st1" "cr_status r = ''claimed''"
        and run1: "append_events env now True st1 [?e] = Inr (st', a)"
        using assms(1) Some c False status
        by (auto simp: commit_order_intent_def run Let_def rbind_eq_Inr split: if_splits)
      have run2: "append_events env now True (st\<lparr>st_claims := ?cs\<rparr>) [?e] = Inr (st', a)"
        using run1 update_claim_Inr [OF st1(1)] by simp
      have only: "q = r" if "q \<in> set (st_claims st)" "cr_decision_key q = oi_decision_id i" for q
        using assms(2) that r by (intro distinct_key_eq [of cr_decision_key "st_claims st"]) (auto simp: store_ok_def)
      have keys: "distinct (map cr_decision_key ?cs)"
        using assms(2) by (simp add: store_ok_def comp_def if_distrib cong: if_cong)
      have member: "?f r \<in> set ?cs" using r by force
      have decoded: "claim_from_row (le_sha env) (?f r) = Inr (c\<lparr>dc_status := ''committed'',
          dc_intent_id := Some (oi_intent_id i), dc_updated_at := stamp\<rparr>)"
        using c by (auto simp: claim_from_row_def rbind_eq_Inr)
      have others: "q = ?f r \<or> verify_claim env st () q = Inr ()" if "q \<in> set ?cs" for q
        using that only assms(2) by (auto simp: store_ok_def list_all_iff)
      have kept: "q \<in> set ?cs" if "q \<in> set (st_claims st)" "cr_status q = ''committed''" for q
      proof -
        have "cr_decision_key q \<noteq> oi_decision_id i" using only that st1(2) by force
        then show ?thesis using that(1) by force
      qed
      show ?thesis
        by (rule commit_ok [OF run2 assms(2,3) _ keys member _ _ _ decoded others kept]) (simp_all add: r)
    qed
  qed
qed

section \<open>Adapter metadata and checkpoints\<close>

lemma store_ok_adapters:
  assumes "store_ok env st" and "st' = st\<lparr>st_adapters := as\<rparr>"
    and "list_all (\<lambda>r. verify_adapter env st () r = Inr ()) as"
  shows "store_ok env st'"
proof -
  have "st_ledger st' = st_ledger st" by (simp add: assms(2))
  then have same: "verify_claim env st' () r = verify_claim env st () r"
    "verify_adapter env st' () q = verify_adapter env st () q" for r q
    by (simp_all only: verify_claim_def verify_adapter_def)
  have "load_all env st' = load_all env st" by (rule load_all_ledger) (simp_all add: assms(2))
  then show ?thesis using assms same by (auto simp: store_ok_def list_all_iff)
qed

lemma verify_adapter_iff:
  "verify_adapter env st () r = Inr () \<longleftrightarrow> (\<exists>d. decode_metadata (le_sha env) (ar_payload_json r) (ar_payload_hash r) = Inr d)
     \<and> strip (ar_backend_name r) \<noteq> [] \<and> intent_event (st_ledger st) (ar_intent_id r) \<noteq> None"
  by (auto simp: verify_adapter_def adapter_from_row_def rbind_eq_Inr result_simps require_text_def Let_def)

lemma set_adapter_metadata_ok:
  assumes "set_adapter_metadata env now st intent backend m = Inr (st', a)" and "store_ok env st"
    and "proper_metadata m"
  shows "store_ok env st'"
proof -
  obtain i b j h where run: "require_text intent ''intent_id'' = Inr i"
    "require_text backend ''backend_name'' = Inr b" "encode_metadata (le_sha env) m = Inr (j, h)"
    "ensure_writable st = Inr ()" "intent_event (st_ledger st) i \<noteq> None"
    using assms(1) by (auto simp: set_adapter_metadata_def rbind_eq_Inr split: if_splits)
  obtain d where d: "decode_metadata (le_sha env) j h = Inr d" using metadata_read [OF run(3) assms(3)] by blast
  have old: "verify_adapter env st () r = Inr ()" if "r \<in> set (st_adapters st)" for r
    using assms(2) that by (simp add: store_ok_def list_all_iff)
  show ?thesis
  proof (cases "adapter_row_of st i")
    case None
    have st': "st' = st\<lparr>st_adapters := st_adapters st @ [\<lparr>ar_intent_id = i, ar_backend_name = b,
        ar_payload_json = j, ar_payload_hash = h, ar_created_at = now, ar_updated_at = now\<rparr>]\<rparr>"
      using assms(1) None
      by (auto simp: set_adapter_metadata_def run rbind_eq_Inr split: if_splits option.splits)
    have "strip b \<noteq> []" using require_text_InrD [OF run(2)] by simp
    then show ?thesis
      using old d run(5) by (intro store_ok_adapters [OF assms(2) st']) (simp add: list_all_iff verify_adapter_iff)
  next
    case (Some r)
    have st': "st' = st\<lparr>st_adapters := map (\<lambda>q. if ar_intent_id q = i
        then q\<lparr>ar_payload_json := j, ar_payload_hash := h, ar_updated_at := now\<rparr> else q) (st_adapters st)\<rparr>"
      using assms(1) Some
      by (auto simp: set_adapter_metadata_def run rbind_eq_Inr split: if_splits option.splits)
    show ?thesis
      using old d by (intro store_ok_adapters [OF assms(2) st']) (auto simp: list_all_iff verify_adapter_iff)
  qed
qed

lemma checkpoint_at_snoc:
  "checkpoint_at (cps @ [c]) n =
     (case checkpoint_at cps n of None \<Rightarrow> if cp_sequence c = n then Some c else None | Some x \<Rightarrow> Some x)"
  by (simp add: checkpoint_at_def map_add_def split: option.split)

lemma checkpoint_at_other: "n \<noteq> cp_sequence c \<Longrightarrow> checkpoint_at (cps @ [c]) n = checkpoint_at cps n"
  by (auto simp: checkpoint_at_snoc split: option.split)

lemma load_rows_expected:
  "rfold (load_row env cps) p rows = Inr q \<Longrightarrow> rp_expected q = rp_expected p + int (length rows)"
  by (induction rows arbitrary: p) (auto simp: rbind_eq_Inr elim!: load_row_Inr)

lemma load_rows_later_checkpoint:
  assumes "rfold (load_row env cps) p rows = Inr q" and "rp_expected q \<le> cp_sequence c"
  shows "rfold (load_row env (cps @ [c])) p rows = Inr q"
  using assms
proof (induction rows arbitrary: p)
  case (Cons r rows)
  then obtain m where m: "load_row env cps p r = Inr m" "rfold (load_row env cps) m rows = Inr q"
    by (auto simp: rbind_eq_Inr)
  then have "lr_sequence r < cp_sequence c"
    using load_rows_expected [OF m(2)] Cons.prems(2) by (auto elim!: load_row_Inr)
  then have "load_row env (cps @ [c]) p r = load_row env cps p r"
    by (simp add: load_row_def checkpoint_check_def checkpoint_at_other)
  then have "load_row env (cps @ [c]) p r = Inr m" using m(1) by simp
  then show ?case using Cons.IH [OF m(2) Cons.prems(2)] by simp
qed simp

lemma load_rows_checkpoint:
  assumes "rfold (load_row env cps) p rows = Inr q" and "rows \<noteq> []"
    and "cp_sequence c = rp_expected q - 1" "cp_chain_hash c = rp_hash q" "cp_state_hash c = le_state_fp env (rp_state q)"
  shows "rfold (load_row env (cps @ [c])) p rows = Inr q"
proof -
  obtain rs r where rows: "rows = rs @ [r]" using assms(2) by (cases rows rule: rev_cases) auto
  obtain m where m: "rfold (load_row env cps) p rs = Inr m" "load_row env cps m r = Inr q"
    using assms(1) by (auto simp: rows rfold_append rbind_eq_Inr)
  then have "rfold (load_row env (cps @ [c])) p rs = Inr m"
    using assms(3) by (intro load_rows_later_checkpoint) (auto elim!: load_row_Inr)
  moreover have "load_row env (cps @ [c]) m r = Inr q"
    using m(2) assms(3-5)
    by (elim load_row_Inr) (auto simp: load_row_def checkpoint_check_def checkpoint_at_snoc split: option.splits)
  ultimately show ?thesis by (simp add: rows rfold_append)
qed

lemma create_checkpoint_ok:
  assumes "create_checkpoint env now st = Inr (st', c)" and "store_ok env st"
  shows "store_ok env st'"
proof -
  obtain p where p: "load_all env st = Inr p" and claimed: "list_all (intent_claimed (st_claims st)) (rp_events p)"
    using assms(2) by (auto simp: store_ok_def)
  show ?thesis
  proof (cases "checkpoint_at (st_checkpoints st) (rp_expected p - 1)")
    case None
    have c: "cp_sequence c = rp_expected p - 1" "cp_chain_hash c = rp_hash p" "cp_state_hash c = le_state_fp env (rp_state p)"
      and st': "st' = st\<lparr>st_checkpoints := st_checkpoints st @ [c]\<rparr>" and pos: "rp_expected p \<noteq> 1"
      using assms(1) None p by (auto simp: create_checkpoint_def Let_def rbind_eq_Inr split: if_splits)
    obtain p0 where p0: "replay_start = Inr p0" "rfold (load_row env (st_checkpoints st)) p0 (st_ledger st) = Inr p"
      "list_all (\<lambda>c. cp_sequence c \<le> rp_expected p - 1) (st_checkpoints st)"
      using p unfolding load_all_Inr by (auto simp: rbind_eq_Inr)
    have "st_ledger st \<noteq> []" using p0(2) pos replay_start_events [OF p0(1)] by auto
    then have "rfold (load_row env (st_checkpoints st @ [c])) p0 (st_ledger st) = Inr p"
      using p0(2) c by (intro load_rows_checkpoint) auto
    then have "load_all env st' = Inr p" unfolding load_all_Inr using p0 c by (auto simp: st' rbind_eq_Inr)
    moreover have "st_ledger st' = st_ledger st" by (simp add: st')
    then have "verify_claim env st' () r = verify_claim env st () r"
      "verify_adapter env st' () q = verify_adapter env st () q" for r q
      by (simp_all only: verify_claim_def verify_adapter_def)
    ultimately show ?thesis using assms(2) claimed by (auto simp: store_ok_def st')
  next
    case (Some x)
    then have "st' = st" using assms(1) p by (auto simp: create_checkpoint_def Let_def rbind_eq_Inr split: if_splits)
    then show ?thesis using assms(2) by simp
  qed
qed

end
