(* ===== verification/Store_Claims.thy ===== *)
theory Store_Claims
  imports Store_Runs
begin

text \<open>
  Runs of the event store and what they guarantee: it always opens again, its ledger only grows,
  what is appended is what is loaded, and two ledgers with the same tail hash hold the same events.
\<close>

section \<open>Runs\<close>

datatype store_command =
    AppendMany "int \<Rightarrow> string" "ledger_event list"
  | ClaimDecision string string string py_metadata
  | CompleteDecision string string string
  | CommitIntent "int \<Rightarrow> string" string string datetime order_intent string py_metadata
  | SetAdapter string string string py_metadata
  | Checkpoint string
  | ReconcileStartup "int \<Rightarrow> string" adapters

definition committed_store :: "event_store \<Rightarrow> (event_store \<times> 'a) result \<Rightarrow> event_store" where
  "committed_store st m = (case m of Inl _ \<Rightarrow> st | Inr (st', _) \<Rightarrow> st')"

text \<open>A transaction that raises is rolled back.\<close>

fun store_apply :: "ledger_env \<Rightarrow> event_store \<Rightarrow> store_command \<Rightarrow> event_store" where
  "store_apply env st (AppendMany now es) = committed_store st (append_many env now st es)"
| "store_apply env st (ClaimDecision now key owner m) = committed_store st (claim_decision env now st key owner m)"
| "store_apply env st (CompleteDecision now key owner) =
     committed_store st (complete_decision_without_intent env now st key owner)"
| "store_apply env st (CommitIntent now stamp eid t i owner m) =
     committed_store st (commit_order_intent env now stamp st eid t i owner m)"
| "store_apply env st (SetAdapter now intent backend m) =
     committed_store st (set_adapter_metadata env now st intent backend m)"
| "store_apply env st (Checkpoint now) = committed_store st (create_checkpoint env now st)"
| "store_apply env st (ReconcileStartup now resolve) = fst (reconcile_startup env now resolve st)"

definition store_step :: "ledger_env \<Rightarrow> event_store \<Rightarrow> store_command \<Rightarrow> unit + event_store" where
  "store_step env st c = Inr (store_apply env st c)"

definition store_run :: "ledger_env \<Rightarrow> event_store \<Rightarrow> store_command list \<Rightarrow> event_store" where
  "store_run env st cs = foldl (store_apply env) st cs"

text \<open>
  What the callers guarantee: events that can be stored, decision identifiers without surrounding
  blanks, metadata from Python mappings.
\<close>

fun good_command :: "ledger_env \<Rightarrow> store_command \<Rightarrow> bool" where
  "good_command env (AppendMany now es) = list_all (storable (le_tz env) (le_sha env)) es"
| "good_command env (ClaimDecision now key owner m) = proper_metadata m"
| "good_command env (CompleteDecision now key owner) = True"
| "good_command env (CommitIntent now stamp eid t i owner m) =
     (storable (le_tz env) (le_sha env) \<lparr>ev_event_id = eid, ev_occurred_at = t, ev_body = OrderIntentCreated i\<rparr>
      \<and> strip (oi_decision_id i) = oi_decision_id i \<and> proper_metadata m)"
| "good_command env (SetAdapter now intent backend m) = proper_metadata m"
| "good_command env (Checkpoint now) = True"
| "good_command env (ReconcileStartup now resolve) =
     (\<forall>backend ord es. snd (resolve backend) ord = Inr es \<longrightarrow> list_all (storable (le_tz env) (le_sha env)) es)"

lemma committed_storeI:
  "P st \<Longrightarrow> (\<And>st' a. m = Inr (st', a) \<Longrightarrow> P st') \<Longrightarrow> P (committed_store st m)"
  by (auto simp: committed_store_def split: sum.split prod.split)

lemma reconcile_one_cases:
  assumes "reconcile_one env now resolve st po = Inr st'"
  shows "st' = st \<or> (\<exists>backend es a. snd (resolve backend) (po_order po) = Inr es \<and> append_many env now st es = Inr (st', a))"
  using assms
  by (auto simp: reconcile_one_def rbind_eq_Inr split: if_splits option.splits prod.splits) (metis snd_conv)

lemma reconcile_orders_induct:
  assumes "P st"
    and step: "\<And>st backend ord es st' a. P st \<Longrightarrow> snd (resolve backend) ord = Inr es \<Longrightarrow>
      append_many env now st es = Inr (st', a) \<Longrightarrow> P st'"
  shows "P (fst (reconcile_orders env now resolve st pos))"
  using assms(1)
proof (induction pos arbitrary: st)
  case (Cons po pos)
  show ?case
  proof (cases "reconcile_one env now resolve st po")
    case (Inr st')
    then have "P st'" using reconcile_one_cases [OF Inr] Cons.prems step by blast
    then show ?thesis using Inr Cons.IH by simp
  qed (use Cons.prems in simp)
qed simp

lemma reconcile_startup_induct:
  assumes "P st"
    and "\<And>st backend ord es st' a. P st \<Longrightarrow> snd (resolve backend) ord = Inr es \<Longrightarrow>
      append_many env now st es = Inr (st', a) \<Longrightarrow> P st'"
  shows "P (fst (reconcile_startup env now resolve st))"
proof (cases "recover_store env st")
  case (Inr report)
  have "P (fst (reconcile_orders env now resolve st (sr_pending_orders report)))"
    using assms by (rule reconcile_orders_induct)
  then show ?thesis by (auto simp: reconcile_startup_def Inr split: prod.splits sum.splits)
qed (simp add: reconcile_startup_def assms(1))

lemma store_step_ok:
  assumes ok: "store_ok env st" and good: "good_command env c"
  shows "store_ok env (store_apply env st c)"
proof (cases c)
  case (ReconcileStartup now resolve)
  have "store_ok env (fst (reconcile_startup env now resolve st))"
    by (rule reconcile_startup_induct [of "store_ok env", OF ok], erule append_many_ok) (use good in \<open>auto simp: ReconcileStartup\<close>)
  then show ?thesis by (simp add: ReconcileStartup)
next
  case (CommitIntent now stamp eid t i owner m)
  show ?thesis
    unfolding CommitIntent store_apply.simps using good [unfolded CommitIntent good_command.simps]
    by (intro committed_storeI [of "store_ok env", OF ok]) (blast intro: commit_order_intent_ok [OF _ ok])
next
  case (AppendMany now es)
  show ?thesis
    unfolding AppendMany store_apply.simps using good [unfolded AppendMany good_command.simps]
    by (intro committed_storeI [of "store_ok env", OF ok]) (simp add: append_many_ok [OF _ ok])
next
  case (ClaimDecision now key owner m)
  show ?thesis
    unfolding ClaimDecision store_apply.simps using good [unfolded ClaimDecision good_command.simps]
    by (intro committed_storeI [of "store_ok env", OF ok]) (simp add: claim_decision_ok [OF _ ok])
next
  case (CompleteDecision now key owner)
  then show ?thesis
    unfolding CompleteDecision store_apply.simps
    by (intro committed_storeI [of "store_ok env", OF ok]) (rule complete_decision_ok [OF _ ok])
next
  case (SetAdapter now intent backend m)
  show ?thesis
    unfolding SetAdapter store_apply.simps using good [unfolded SetAdapter good_command.simps]
    by (intro committed_storeI [of "store_ok env", OF ok]) (simp add: set_adapter_metadata_ok [OF _ ok])
next
  case (Checkpoint now)
  then show ?thesis
    unfolding Checkpoint store_apply.simps
    by (intro committed_storeI [of "store_ok env", OF ok]) (rule create_checkpoint_ok [OF _ ok])
qed

section \<open>What never changes\<close>

definition final_claim :: "claim_row \<Rightarrow> bool" where
  "final_claim r \<longleftrightarrow> cr_status r \<noteq> ''claimed''"

definition store_evolves :: "event_store \<Rightarrow> event_store \<Rightarrow> bool" where
  "store_evolves st st' \<longleftrightarrow> prefix (st_ledger st) (st_ledger st') \<and> prefix (st_checkpoints st) (st_checkpoints st')
     \<and> {r \<in> set (st_claims st). final_claim r} \<subseteq> set (st_claims st')"

lemma store_evolves_refl: "store_evolves st st"
  by (auto simp: store_evolves_def)

lemma store_evolves_trans: "store_evolves s t \<Longrightarrow> store_evolves t u \<Longrightarrow> store_evolves s u"
  by (auto simp: store_evolves_def intro: prefix_order.trans)

lemma append_events_evolves:
  assumes "append_events env now allow st es = Inr (st', a)"
  shows "store_evolves st st' \<and> st_claims st' = st_claims st"
proof -
  have one: "prefix rows rows'" if "append_one env now allow (rows, a) e = Inr (rows', a')" for rows a e rows' a'
    using that by (auto simp: Let_def rbind_eq_Inr dest!: insert_row_Inr split: if_splits option.splits)
  have "prefix rows rows'" if "rfold (append_one env now allow) (rows, a) es = Inr (rows', a')" for rows a rows' a'
    using that
  proof (induction es arbitrary: rows a)
    case (Cons e es)
    then obtain rows1 a1 where m: "append_one env now allow (rows, a) e = Inr (rows1, a1)"
      "rfold (append_one env now allow) (rows1, a1) es = Inr (rows', a')"
      by (auto simp: rbind_eq_Inr)
    then show ?case using one [OF m(1)] Cons.IH [OF m(2)] by (rule_tac prefix_order.trans)
  qed simp
  then show ?thesis using assms by (auto simp: append_events_def rbind_eq_Inr store_evolves_def)
qed

lemma append_many_evolves: "append_many env now st es = Inr (st', a) \<Longrightarrow> store_evolves st st'"
  using append_events_evolves by (fastforce simp: append_many_def rbind_eq_Inr)

lemma update_claim_evolves:
  assumes "update_claim st k f = Inr st'" and "decision_row st k = Some r" and "cr_status r = ''claimed''"
    and "distinct (map cr_decision_key (st_claims st))"
  shows "store_evolves st st'"
proof -
  have r: "r \<in> set (st_claims st)" "cr_decision_key r = k" using decision_row_Some [OF assms(2)] by simp_all
  have "q \<in> set (st_claims st')" if "q \<in> set (st_claims st)" "final_claim q" for q
  proof -
    have "cr_decision_key q \<noteq> k"
      using distinct_key_eq [OF assms(4) that(1) r(1)] r(2) that(2) assms(3) by (auto simp: final_claim_def)
    then show ?thesis using that(1) by (force simp: update_claim_Inr [OF assms(1)])
  qed
  then show ?thesis using update_claim_Inr [OF assms(1)] by (auto simp: store_evolves_def)
qed

lemma claim_status: "claim_from_row sha r = Inr c \<Longrightarrow> dc_status c = cr_status r"
  by (auto simp: claim_from_row_def rbind_eq_Inr)

lemma insert_claim_evolves: "insert_claim st r = Inr st' \<Longrightarrow> store_evolves st st'"
  by (auto simp: insert_claim_def store_evolves_def split: if_splits)

lemma commit_evolves:
  assumes "commit_order_intent env now stamp st eid t i owner m = Inr (st', a)"
    and "distinct (map cr_decision_key (st_claims st))"
  shows "store_evolves st st'"
proof -
  have app: "store_evolves st st'" if "store_evolves st st1" "append_events env now True st1 es = Inr (st', a)" for st1 es
    using that append_events_evolves by (blast intro: store_evolves_trans)
  have claimed: "store_evolves st st'" if "update_claim st k f = Inr st1" "decision_row st k = Some r"
    "cr_status r = ''claimed''" "append_events env now True st1 es = Inr (st', a)" for k f r st1 es
    by (rule app [OF update_claim_evolves [OF that(1-3) assms(2)] that(4)])
  from assms(1) obtain k where k: "require_text (oi_decision_id i) ''decision_id'' = Inr k"
    by (auto simp: commit_order_intent_def rbind_eq_Inr Let_def)
  show ?thesis
  proof (cases "decision_row st k")
    case None
    then show ?thesis
      using assms(1) k
      by (auto simp: commit_order_intent_def rbind_eq_Inr Let_def intro: app dest: insert_claim_evolves)
  next
    case (Some r)
    then show ?thesis
      using assms(1) k
      by (auto simp: commit_order_intent_def rbind_eq_Inr Let_def commit_again_def result_simps store_evolves_refl
          split: option.splits if_splits dest!: claim_status intro: claimed [OF _ Some])
  qed
qed

lemma set_adapter_metadata_shape:
  assumes "set_adapter_metadata env now st intent backend m = Inr (st', a)"
  shows "\<exists>rows. st' = st\<lparr>st_adapters := rows\<rparr>"
proof -
  obtain i b j h where run: "require_text intent ''intent_id'' = Inr i"
    "require_text backend ''backend_name'' = Inr b" "encode_metadata (le_sha env) m = Inr (j, h)"
    "ensure_writable st = Inr ()" "intent_event (st_ledger st) i \<noteq> None"
    using assms by (auto simp: set_adapter_metadata_def rbind_eq_Inr split: if_splits)
  show ?thesis
    using assms
    by (cases "adapter_row_of st i")
      (auto simp: set_adapter_metadata_def run rbind_eq_Inr split: if_splits option.splits)
qed

lemma store_step_evolves:
  assumes "store_ok env st" and "good_command env c"
  shows "store_evolves st (store_apply env st c)"
proof -
  have keys: "distinct (map cr_decision_key (st_claims st))" using assms(1) by (simp add: store_ok_def)
  have append: "store_evolves st (committed_store st m)"
    if "\<And>st' a. m = Inr (st', a) \<Longrightarrow> store_evolves st st'" for m :: "(event_store \<times> append_result) result"
    using that by (intro committed_storeI [of "store_evolves st", OF store_evolves_refl])
  show ?thesis
  proof (cases c)
    case (AppendMany now es)
    show ?thesis unfolding AppendMany store_apply.simps by (rule append) (rule append_many_evolves)
  next
    case (ClaimDecision now key owner m)
    have "store_evolves st st'" if "claim_decision env now st key owner m = Inr (st', a)" for st' a
      using that by (auto simp: claim_decision_def rbind_eq_Inr store_evolves_refl dest: insert_claim_evolves
        split: option.splits if_splits)
    then show ?thesis unfolding ClaimDecision store_apply.simps
      by (intro committed_storeI [of "store_evolves st", OF store_evolves_refl])
  next
    case (CompleteDecision now key owner)
    have "store_evolves st st'" if "complete_decision_without_intent env now st key owner = Inr (st', a)" for st' a
      using that by (auto simp: complete_decision_without_intent_def rbind_eq_Inr store_evolves_refl
        split: option.splits if_splits dest!: claim_status intro: update_claim_evolves [OF _ _ _ keys])
    then show ?thesis unfolding CompleteDecision store_apply.simps
      by (intro committed_storeI [of "store_evolves st", OF store_evolves_refl])
  next
    case (CommitIntent now stamp eid t i owner m)
    show ?thesis unfolding CommitIntent store_apply.simps by (rule append) (rule commit_evolves [OF _ keys])
  next
    case (SetAdapter now intent backend m)
    have "store_evolves st st'" if "set_adapter_metadata env now st intent backend m = Inr (st', a)" for st' a
      using set_adapter_metadata_shape [OF that] by (auto simp: store_evolves_def)
    then show ?thesis unfolding SetAdapter store_apply.simps
      by (intro committed_storeI [of "store_evolves st", OF store_evolves_refl])
  next
    case (Checkpoint now)
    have "store_evolves st st'" if "create_checkpoint env now st = Inr (st', a)" for st' a
      using that by (auto simp: create_checkpoint_def rbind_eq_Inr Let_def store_evolves_def split: option.splits if_splits)
    then show ?thesis unfolding Checkpoint store_apply.simps
      by (intro committed_storeI [of "store_evolves st", OF store_evolves_refl])
  next
    case (ReconcileStartup now resolve)
    have "store_evolves st (fst (reconcile_startup env now resolve st))"
      by (rule reconcile_startup_induct) (auto intro: store_evolves_refl store_evolves_trans append_many_evolves)
    then show ?thesis by (simp add: ReconcileStartup)
  qed
qed

interpretation store: evolving_machine "store_step env" "good_command env" "store_ok env" store_evolves for env
  by unfold_locales
    (auto simp: store_step_def store_step_ok store_step_evolves store_evolves_refl intro: store_evolves_trans)

lemma store_run_steps: "rfold (store_step env) st cs = Inr (store_run env st cs)"
  by (induction cs arbitrary: st) (simp_all add: store_step_def store_run_def)

definition empty_store :: event_store where
  "empty_store = \<lparr>st_closed = False, st_read_only = False, st_ledger = [], st_claims = [],
     st_adapters = [], st_checkpoints = []\<rparr>"

lemma usdc_ledger: "\<exists>s. ledger_empty ''USDC'' = Inr s"
proof -
  have "is_ok (ledger_empty ''USDC'')" by code_simp
  then show ?thesis unfolding is_ok_iff .
qed

lemma empty_store_loads: "\<exists>p. load_all env empty_store = Inr p \<and> rp_events p = []"
  using usdc_ledger by (auto simp: load_ledger_def empty_store_def replay_start_def)

lemma empty_store_ok: "store_ok env empty_store"
proof -
  have "st_claims empty_store = []" "st_adapters empty_store = []" "\<not> st_closed empty_store"
    "intents_unique (st_ledger empty_store)"
    by (simp_all add: empty_store_def intents_unique_def)
  then show ?thesis using empty_store_loads [of env] by (auto simp: store_ok_def)
qed

lemma run_ok: "list_all (good_command env) cs \<Longrightarrow> store_ok env (store_run env empty_store cs)"
  by (rule store.run_inv [OF store_run_steps empty_store_ok])

section \<open>Claims\<close>

definition intent_recorded :: "ledger_event list \<Rightarrow> string \<Rightarrow> string \<Rightarrow> bool" where
  "intent_recorded es x d \<longleftrightarrow>
     list_ex (\<lambda>e. case ev_body e of OrderIntentCreated i \<Rightarrow> oi_intent_id i = x \<and> oi_decision_id i = d | _ \<Rightarrow> False) es"

definition decision_committed :: "claim_row list \<Rightarrow> string \<Rightarrow> string \<Rightarrow> bool" where
  "decision_committed rows x d \<longleftrightarrow>
     list_ex (\<lambda>r. cr_status r = ''committed'' \<and> cr_intent_id r = Some x \<and> cr_decision_key r = d) rows"

lemma recorded_case:
  "(case b of OrderIntentCreated i \<Rightarrow> P i | _ \<Rightarrow> False) \<longleftrightarrow> (\<exists>i. b = OrderIntentCreated i \<and> P i)"
  by (cases b) auto

lemma intent_iff_decision:
  assumes "store_ok env st" and "load_all env st = Inr p"
  shows "intent_recorded (rp_events p) x d \<longleftrightarrow> decision_committed (st_claims st) x d"
proof
  assume "intent_recorded (rp_events p) x d"
  then obtain e i where e: "e \<in> set (rp_events p)" "ev_body e = OrderIntentCreated i" "oi_intent_id i = x" "oi_decision_id i = d"
    by (auto simp: intent_recorded_def list_ex_iff recorded_case)
  then have "intent_claimed (st_claims st) e" using assms by (auto simp: store_ok_def list_all_iff)
  then show "decision_committed (st_claims st) x d"
    using e by (simp add: intent_claimed_def decision_committed_def)
next
  assume "decision_committed (st_claims st) x d"
  then obtain r where r: "r \<in> set (st_claims st)" "cr_status r = ''committed''" "cr_intent_id r = Some x" "cr_decision_key r = d"
    by (auto simp: decision_committed_def list_ex_iff)
  then have "verify_claim env st () r = Inr ()" using assms(1) by (simp add: store_ok_def list_all_iff)
  then obtain row e i where e: "intent_event (st_ledger st) x = Some row"
    "decode_event (le_tz env) (le_sha env) (lr_payload_json row) = Inr e"
    "ev_body e = OrderIntentCreated i" "oi_intent_id i = x" "oi_decision_id i = d"
    unfolding verify_claim_iff using r by auto
  then have "row \<in> set (st_ledger st)" by (auto simp: intent_event_def dest: find_in)
  moreover have "list_all2 (event_of env) (st_ledger st) (rp_events p)"
    using assms(2) unfolding load_all_Inr by (blast intro: replayed_events)
  ultimately obtain e' where e': "e' \<in> set (rp_events p)" "row_event env row = Inr e'"
    unfolding event_of_def by (blast dest: list_all2_left)
  then have "e' = e" using row_event_columns(1) [OF e'(2)] e(2) by simp
  then show "intent_recorded (rp_events p) x d"
    using e' e(3-5) by (auto simp: intent_recorded_def list_ex_iff recorded_case intro!: bexI [of _ e])
qed

text \<open>C25. After any sequence of store operations that satisfy \<open>good_command\<close> on a new database, failed
  ones included, opening it again succeeds: the hash chain, every payload, the replay, the checkpoints,
  the claims and the adapter metadata verify; and an order intent is in the ledger exactly when its
  decision is committed. A good command hands over events that can be stored, decision identifiers
  without surrounding blanks and metadata mappings with distinct keys; without the first two the code
  breaks the database (\<open>blank_payout_breaks_store\<close>, \<open>padded_decision_breaks_store\<close>).\<close>

theorem store_reopens:
  assumes "list_all (good_command env) cs"
  shows "verify_integrity env (store_run env empty_store cs) = Inr ()
    \<and> (\<exists>p. load_all env (store_run env empty_store cs) = Inr p
      \<and> (\<forall>x d. intent_recorded (rp_events p) x d
          \<longleftrightarrow> decision_committed (st_claims (store_run env empty_store cs)) x d))"
proof -
  have ok: "store_ok env (store_run env empty_store cs)" by (rule run_ok [OF assms])
  then obtain p where "load_all env (store_run env empty_store cs) = Inr p" by (auto simp: store_ok_def)
  then show ?thesis using store_ok_verifies [OF ok] intent_iff_decision [OF ok] by blast
qed

text \<open>C28. Over any run of good commands the ledger and the checkpoints of a store only ever grow at their
  end, and a committed or completed decision is never changed again.\<close>

theorem store_history:
  assumes "list_all (good_command env) (cs @ ds)"
  shows "prefix (st_ledger (store_run env empty_store cs)) (st_ledger (store_run env empty_store (cs @ ds)))
    \<and> prefix (st_checkpoints (store_run env empty_store cs)) (st_checkpoints (store_run env empty_store (cs @ ds)))
    \<and> {r \<in> set (st_claims (store_run env empty_store cs)). cr_status r \<noteq> ''claimed''}
      \<subseteq> set (st_claims (store_run env empty_store (cs @ ds)))"
proof -
  have good: "list_all (good_command env) cs" "list_all (good_command env) ds" using assms by simp_all
  have "store_run env empty_store (cs @ ds) = store_run env (store_run env empty_store cs) ds"
    by (simp add: store_run_def)
  then have "store_evolves (store_run env empty_store cs) (store_run env empty_store (cs @ ds))"
    using store.run_evolves [OF store_run_steps run_ok [OF good(1)] good(2)] by simp
  then show ?thesis by (simp add: store_evolves_def final_claim_def)
qed

text \<open>C26. When all the events handed to \<^verbatim>\<open>append_many\<close> can be stored (accepted by their
  constructors, with printable times and no blank identifier, not even in a payout), what it stores is
  what the next load reads: the replay succeeds and gives the events that were there, followed by new
  ones among those appended, in their order; every appended event is among them, and the state, last
  sequence and tail hash are the returned ones. (With a blank payout identifier the append succeeds and
  the next load fails: \<open>blank_payout_breaks_store\<close>.)\<close>

theorem append_survives_reload:
  assumes "append_many env now st es = Inr (st', a)" and "list_all (storable (le_tz env) (le_sha env)) es"
  shows "\<exists>p q ys. load_all env st = Inr p \<and> load_all env st' = Inr q
    \<and> rp_events q = rp_events p @ ys \<and> subseq ys es \<and> set es \<subseteq> set (rp_events q)
    \<and> rp_state q = ap_state a \<and> rp_expected q = ap_last_sequence a + 1 \<and> rp_hash q = ap_chain_hash a"
proof -
  have "append_events env now False st es = Inr (st', a)"
    using assms(1) by (auto simp: append_many_def rbind_eq_Inr)
  from append_events_load [OF this assms(2)] show ?thesis by (auto simp: appends_def)
qed

section \<open>The hash chain\<close>

definition chain_text :: "ledger_row \<Rightarrow> string" where
  "chain_text r = lr_previous_hash r @ CHR 0x0A # show_int (lr_schema_version r) @ CHR 0x0A # lr_event_type r
     @ CHR 0x0A # lr_payload_hash r"

definition hashed_texts :: "ledger_row list \<Rightarrow> string set" where
  "hashed_texts rows = lr_payload_json ` set rows \<union> chain_text ` set rows"

lemma load_row_hashes:
  assumes "load_row env cps p r = Inr q"
  shows "rp_hash q = le_sha env (chain_text r)" and "lr_previous_hash r = rp_hash p"
    and "lr_payload_hash r = le_sha env (lr_payload_json r)"
  using assms by (auto elim!: load_row_Inr simp: row_hashes_def chain_text_def chain_hash_def result_simps)

lemma load_rows_hash:
  assumes "rfold (load_row env cps) p rows = Inr q" and "length (rp_hash p) = 64"
    and "le_sha env ` hashed_texts rows \<subseteq> {h. length h = 64}"
  shows "length (rp_hash q) = 64"
  using assms
proof (induction rows arbitrary: p)
  case (Cons r rows)
  then obtain m where m: "load_row env cps p r = Inr m" "rfold (load_row env cps) m rows = Inr q"
    by (auto simp: rbind_eq_Inr)
  have "length (rp_hash m) = 64" using load_row_hashes(1) [OF m(1)] Cons.prems(3) by (auto simp: hashed_texts_def)
  then show ?case using Cons.IH [OF m(2)] Cons.prems(3) by (auto simp: hashed_texts_def)
qed simp

lemma same_suffix: "xs @ ys = us @ vs \<Longrightarrow> length ys = length vs \<Longrightarrow> xs = us \<and> ys = vs"
  by simp

lemma chain_determines:
  assumes "rfold (load_row env cps) p rows = Inr q" and "rfold (load_row env cps') p rows' = Inr q'"
    and "length rows = length rows'" and "rp_hash q = rp_hash q'" and "length (rp_hash p) = 64"
    and "inj_on (le_sha env) (hashed_texts (rows @ rows'))"
    and "le_sha env ` hashed_texts (rows @ rows') \<subseteq> {h. length h = 64}"
  shows "map lr_payload_json rows = map lr_payload_json rows' \<and> rp_events q = rp_events q' \<and> rp_state q = rp_state q'"
  using assms
proof (induction rows arbitrary: rows' q q' rule: rev_induct)
  case (snoc r rs)
  then obtain rs' r' where rows': "rows' = rs' @ [r']" by (cases rows' rule: rev_cases) auto
  obtain m where m: "rfold (load_row env cps) p rs = Inr m" "load_row env cps m r = Inr q"
    using snoc.prems(1) by (auto simp: rfold_append rbind_eq_Inr)
  obtain m' where m': "rfold (load_row env cps') p rs' = Inr m'" "load_row env cps' m' r' = Inr q'"
    using snoc.prems(2) by (auto simp: rows' rfold_append rbind_eq_Inr)
  have texts: "chain_text r = chain_text r'"
    using snoc.prems(4,6) load_row_hashes(1) [OF m(2)] load_row_hashes(1) [OF m'(2)]
    by (auto simp: rows' hashed_texts_def dest: inj_onD)
  have len: "length (rp_hash m) = 64" "length (rp_hash m') = 64"
    using load_rows_hash [OF m(1) snoc.prems(5)] load_rows_hash [OF m'(1) snoc.prems(5)] snoc.prems(7)
    by (auto simp: rows' hashed_texts_def)
  have plen: "length (lr_payload_hash r) = 64" "length (lr_payload_hash r') = 64"
    using load_row_hashes(3) [OF m(2)] load_row_hashes(3) [OF m'(2)] snoc.prems(7)
    by (auto simp: rows' hashed_texts_def)
  define mid where "mid v t = CHR 0x0A # show_int v @ CHR 0x0A # t @ [CHR 0x0A]" for v t
  have split: "chain_text x = (lr_previous_hash x @ mid (lr_schema_version x) (lr_event_type x)) @ lr_payload_hash x" for x
    by (simp add: chain_text_def mid_def)
  have "lr_payload_hash r = lr_payload_hash r'"
    and prefixes: "lr_previous_hash r @ mid (lr_schema_version r) (lr_event_type r) =
      lr_previous_hash r' @ mid (lr_schema_version r') (lr_event_type r')"
    using same_suffix [OF texts [unfolded split]] plen by simp_all
  then have "le_sha env (lr_payload_json r) = le_sha env (lr_payload_json r')"
    using load_row_hashes(3) [OF m(2)] load_row_hashes(3) [OF m'(2)] by simp
  then have payload: "lr_payload_json r = lr_payload_json r'"
    using snoc.prems(6) by (auto simp: rows' hashed_texts_def dest: inj_onD)
  have "rp_hash m = rp_hash m'"
    using prefixes len load_row_hashes(2) [OF m(2)] load_row_hashes(2) [OF m'(2)] by (simp add: append_eq_append_conv)
  moreover have "inj_on (le_sha env) (hashed_texts (rs @ rs'))"
    using snoc.prems(6) by (rule inj_on_subset) (auto simp: rows' hashed_texts_def)
  ultimately have IH: "map lr_payload_json rs = map lr_payload_json rs'" "rp_events m = rp_events m'" "rp_state m = rp_state m'"
    using snoc.IH [OF m(1) m'(1)] snoc.prems(3,5,7) by (auto simp: rows' hashed_texts_def)
  obtain e s where e: "row_event env r = Inr e" "apply_event (le_sha env) (le_event_fp env) (rp_state m) e = Inr s"
    "rp_events q = rp_events m @ [e]" "rp_state q = s"
    using m(2) by (rule load_row_Inr) simp
  obtain e' s' where e': "row_event env r' = Inr e'" "apply_event (le_sha env) (le_event_fp env) (rp_state m') e' = Inr s'"
    "rp_events q' = rp_events m' @ [e']" "rp_state q' = s'"
    using m'(2) by (rule load_row_Inr) simp
  have "e = e'" using row_event_columns(1) [OF e(1)] row_event_columns(1) [OF e'(1)] payload by simp
  then show ?case using IH e e' payload by (simp add: rows')
qed simp

text \<open>C27. The tail of the hash chain stands for the whole ledger: two databases that both load, with as
  many events and the same tail hash, hold the same payloads, events and state, unless the digest
  collides on a text one of them hashed.\<close>

theorem tail_hash_determines_ledger:
  assumes "load_all env st = Inr p" and "load_all env st' = Inr p'"
    and "rp_expected p = rp_expected p'" and "rp_hash p = rp_hash p'"
    and "inj_on (le_sha env) (hashed_texts (st_ledger st @ st_ledger st'))"
    and "le_sha env ` hashed_texts (st_ledger st @ st_ledger st') \<subseteq> {h. length h = 64}"
  shows "map lr_payload_json (st_ledger st) = map lr_payload_json (st_ledger st')
    \<and> rp_events p = rp_events p' \<and> rp_state p = rp_state p'"
proof -
  obtain p0 where p0: "replay_start = Inr p0" "rfold (load_row env (st_checkpoints st)) p0 (st_ledger st) = Inr p"
    using assms(1) unfolding load_all_Inr by (auto simp: rbind_eq_Inr)
  have p0': "rfold (load_row env (st_checkpoints st')) p0 (st_ledger st') = Inr p'"
    using assms(2) p0(1) unfolding load_all_Inr by (metis rbind_simps(2))
  have "length (rp_hash p0) = 64" using p0(1) by (auto simp: replay_start_def rbind_eq_Inr genesis_chain_hash_def)
  moreover have "length (st_ledger st) = length (st_ledger st')"
    using load_rows_expected [OF p0(2)] load_rows_expected [OF p0'] assms(3) by simp
  ultimately show ?thesis using chain_determines [OF p0(2) p0'] assms(4-6) by blast
qed

section \<open>Decisions with surrounding blanks\<close>

lemma rfold_unit_error:
  assumes "x \<in> set xs" and "f () x = Inl err" and "\<And>y. y \<in> set xs \<Longrightarrow> f () y = Inr () \<or> f () y = Inl err"
  shows "rfold f () xs = Inl err"
  using assms
proof (induction xs)
  case (Cons y ys)
  then have "f () y = Inl err \<or> f () y = Inr () \<and> rfold f () ys = Inl err" by fastforce
  then show ?case by auto
qed simp

text \<open>
  \<^verbatim>\<open>commit_order_intent\<close> keys the decision by the stripped identifier and stores the intent with
  the identifier as given; the integrity check compares the two.
\<close>

theorem padded_decision_breaks_store:
  assumes "commit_order_intent env now stamp st eid t i owner m = Inr (st', a)" and "store_ok env st"
    and "storable (le_tz env) (le_sha env) \<lparr>ev_event_id = eid, ev_occurred_at = t, ev_body = OrderIntentCreated i\<rparr>"
    and "proper_metadata m" and "decision_row st (strip (oi_decision_id i)) = None"
    and "strip (oi_decision_id i) \<noteq> oi_decision_id i"
  shows "verify_integrity env st' = Inl (CorruptLedgerError ''decision disagrees with its intent event'')"
proof -
  let ?e = "\<lparr>ev_event_id = eid, ev_occurred_at = t, ev_body = OrderIntentCreated i\<rparr>"
  obtain ow k j h where run: "require_text owner ''owner_id'' = Inr ow"
    "require_text (oi_decision_id i) ''decision_id'' = Inr k"
    "encode_metadata (le_sha env) m = Inr (j, h)" "ensure_writable st = Inr ()"
    using assms(1) by (auto simp: commit_order_intent_def rbind_eq_Inr Let_def)
  have k: "k = strip (oi_decision_id i)" using require_text_InrD [OF run(2)] by simp
  then have apart: "oi_decision_id i \<noteq> k" using assms(6) by simp
  let ?r = "\<lparr>cr_decision_key = k, cr_owner_id = ow, cr_status = ''committed'',
    cr_intent_id = Some (oi_intent_id i), cr_metadata_json = j, cr_metadata_hash = h,
    cr_claimed_at = stamp, cr_updated_at = stamp\<rparr>"
  let ?st = "st\<lparr>st_claims := st_claims st @ [?r]\<rparr>"
  have app: "append_events env now True ?st [?e] = Inr (st', a)"
    using assms(1,5) by (auto simp: commit_order_intent_def run k Let_def rbind_eq_Inr insert_claim_def split: if_splits)
  have "intents_unique (st_ledger ?st)" using assms(2) by (simp add: store_ok_def)
  with app obtain added where st': "st' = ?st\<lparr>st_ledger := st_ledger st @ added\<rparr>"
    and u: "intents_unique (st_ledger st')"
    by (rule append_events_rows) simp
  obtain q where q: "load_all env st' = Inr q" "?e \<in> set (rp_events q)"
    using append_events_load [OF app] assms(3) by (auto simp: appends_def)
  then obtain row where row: "intent_event (st_ledger st') (oi_intent_id i) = Some row"
    "decode_event (le_tz env) (le_sha env) (lr_payload_json row) = Inr ?e"
    using loaded_intent_found [OF q(1,2) _ u] by auto
  obtain c where c: "claim_from_row (le_sha env) ?r = Inr c" using claim_meta_read [OF run(3) assms(4), of ?r] by auto
  then have "dc_status c = ''committed''" "dc_intent_id c = Some (oi_intent_id i)" "dc_decision_key c = k"
    by (auto simp: claim_from_row_def rbind_eq_Inr)
  then have bad: "verify_claim env st' () ?r = Inl (CorruptLedgerError ''decision disagrees with its intent event'')"
    using row apart by (simp add: verify_claim_def c corrupt_def)
  have good: "verify_claim env st' () r = Inr ()" if "r \<in> set (st_claims st)" for r
  proof (rule verify_claim_ledger)
    show "verify_claim env st () r = Inr ()" using assms(2) that by (simp add: store_ok_def list_all_iff)
  qed (simp add: st' intent_event_append)
  have "rfold (verify_claim env st') () (sort_key cr_decision_key (st_claims st')) =
      Inl (CorruptLedgerError ''decision disagrees with its intent event'')"
    by (rule rfold_unit_error [of ?r _ "verify_claim env st'"]) (use good bad in \<open>auto simp: st'\<close>)
  moreover have "\<not> st_closed st'" using assms(2) by (simp add: st' store_ok_def)
  ultimately show ?thesis
    using q(1) by (simp add: verify_integrity_def ensure_open_def verify_auxiliary_def)
qed

end
