(* ===== verification/Store_Samples.thy ===== *)
theory Store_Samples
  imports Store_Claims Ledger_Samples Fingerprints
begin

text \<open>
  Concrete databases for the properties of the codec and of the event store, with a digest that is the
  length of the text in sixty-four digits, and a resolution the store accepts and cannot read back.
\<close>

definition length_digest :: "string \<Rightarrow> string" where
  "length_digest s = pad_left 64 (show_nat (length s mod 1000))"

lemma length_digest_64 [simp]: "length (length_digest s) = 64"
proof -
  have "length s mod 1000 < 10 ^ 64" by (rule order.strict_trans [of _ 1000]) simp_all
  then show ?thesis unfolding length_digest_def by (rule length_pad_left) simp
qed

lemma length_digest_eq: "length_digest s = length_digest t \<Longrightarrow> length s mod 1000 = length t mod 1000"
  unfolding length_digest_def by (metis nat_of_digits_pad)

definition sample_env :: ledger_env where
  "sample_env = \<lparr>le_sha = length_digest, le_event_fp = sample_fp, le_state_fp = (\<lambda>_. replicate 64 (CHR ''f'')),
     le_tz = (\<lambda>_. None)\<rparr>"

definition sample_clock :: "int \<Rightarrow> string" where
  "sample_clock n = ''t''"

lemma sample_env_fields [simp]:
  "le_sha sample_env = length_digest" "le_event_fp sample_env = sample_fp" "le_tz sample_env = (\<lambda>_. None)"
  by (simp_all add: sample_env_def)

lemma open_storable: "storable (\<lambda>_. None) length_digest (open_event 100)"
  unfolding storable_def by (intro conjI; code_simp)

lemma order_storable: "storable (\<lambda>_. None) length_digest (order_event 10 (1 / 10))"
  unfolding storable_def by (intro conjI; code_simp)

lemma codec_roundtrip_witness:
  "decode_event (\<lambda>_. None) length_digest (en_payload_json (encode_event length_digest (order_event 10 (1 / 10))))
     = Inr (order_event 10 (1 / 10))"
  using codec_roundtrip [OF order_storable open_storable] by blast

text \<open>The identifier of the opening event reused for another amount, over the code's fingerprint.\<close>

lemma opened_any_fingerprint:
  "apply_event sample_sha fp state_empty (open_event 100) =
     Inr ((state_opened 100)\<lparr>ls_fingerprints := [(''1'', fp (open_event 100))]\<rparr>)"
  by code_simp

lemma other_open_storable: "storable (\<lambda>_. None) sample_sha (open_event 50)"
  unfolding storable_def by (intro conjI; code_simp)

lemma identifier_conflict_witness:
  "apply_event sample_sha (event_fingerprint sample_sha)
     ((state_opened 100)\<lparr>ls_fingerprints := [(''1'', event_fingerprint sample_sha (open_event 100))]\<rparr>)
     (open_event 50) =
   Inl (DuplicateEventConflict ''event identifier was reused with different data'')"
proof (rule identifier_conflict [of _ "''usdc''" "[open_event 100]" _ "\<lambda>_. None" "open_event 100"])
  show "replay sample_sha (event_fingerprint sample_sha) ''usdc'' [open_event 100] =
      Inr ((state_opened 100)\<lparr>ls_fingerprints := [(''1'', event_fingerprint sample_sha (open_event 100))]\<rparr>)"
    by (simp add: replay_def eval_empty opened_any_fingerprint)
  show "list_all (storable (\<lambda>_. None) sample_sha) [open_event 100]"
    using open_storable by (simp add: storable_def event_init_def open_event_def sample_event_def)
  show "storable (\<lambda>_. None) sample_sha (open_event 50)" by (rule other_open_storable)
qed (simp_all add: open_event_def sample_event_def usdc_def sample_sha_def)

definition sample_commands :: "store_command list" where
  "sample_commands =
     [AppendMany sample_clock [open_event 100], ClaimDecision ''t'' ''d'' ''w'' None,
      CommitIntent sample_clock ''t'' ''2'' (at_second 1) (buy_intent 10 (1 / 10)) ''w'' None,
      SetAdapter ''t'' ''b'' ''paper'' None, Checkpoint ''t'']"

lemma order_event_fields:
  "order_event 10 (1 / 10) =
     \<lparr>ev_event_id = ''2'', ev_occurred_at = at_second 1, ev_body = OrderIntentCreated (buy_intent 10 (1 / 10))\<rparr>"
  by (simp add: order_event_def sample_event_def)

lemma sample_commands_good: "list_all (good_command sample_env) sample_commands"
proof -
  have "strip (oi_decision_id (buy_intent 10 (1 / 10))) = oi_decision_id (buy_intent 10 (1 / 10))" by code_simp
  then show ?thesis
    using open_storable order_storable
    by (simp add: sample_commands_def proper_metadata_def order_event_fields)
qed

lemma store_reopens_witness:
  "verify_integrity sample_env (store_run sample_env empty_store sample_commands) = Inr ()"
  using store_reopens [OF sample_commands_good] by blast

lemma store_history_witness:
  "prefix (st_ledger (store_run sample_env empty_store (take 1 sample_commands)))
     (st_ledger (store_run sample_env empty_store sample_commands))"
  using store_history [of sample_env "take 1 sample_commands" "drop 1 sample_commands"] sample_commands_good by simp

lemma sample_start: "replay_start = Inr \<lparr>rp_events = [], rp_state = state_empty, rp_expected = 1, rp_hash = genesis_chain_hash\<rparr>"
proof -
  have "ledger_empty ''USDC'' = Inr state_empty" by code_simp
  then show ?thesis by (simp add: replay_start_def)
qed

lemma sample_empty_load:
  "load_all sample_env empty_store =
     Inr \<lparr>rp_events = [], rp_state = state_empty, rp_expected = 1, rp_hash = genesis_chain_hash\<rparr>"
  by (simp add: load_ledger_def empty_store_def sample_start)

text \<open>One event appended to a new store.\<close>

lemma append_first:
  assumes "apply_event length_digest sample_fp state_empty e = Inr s" and "\<not> is_intent_body (ev_body e)"
    and "event_type (ev_body e) \<noteq> ''order_intent_created''"
  shows "\<exists>st a. append_many sample_env sample_clock empty_store [e] = Inr (st, a) \<and> ap_state a = s
    \<and> ap_last_sequence a = 1
    \<and> st = empty_store\<lparr>st_ledger := [event_row length_digest ''t'' 1 genesis_chain_hash (encode_event length_digest e)]\<rparr>"
proof -
  have "insert_row [] (event_row length_digest ''t'' 1 genesis_chain_hash (encode_event length_digest e)) =
      Inr [event_row length_digest ''t'' 1 genesis_chain_hash (encode_event length_digest e)]"
    by (simp add: insert_row_def event_row_def chain_hash_def genesis_chain_hash_def event_schema_version_def)
  moreover have "prior_intent_check [] (ev_body e) = Inr ()"
    by (cases "ev_body e") (simp_all add: prior_intent_check_def intent_event_def)
  moreover have "ensure_writable empty_store = Inr ()" "st_ledger empty_store = []"
    by (simp_all add: ensure_writable_def ensure_open_def empty_store_def)
  ultimately show ?thesis
    using assms
    by (simp add: append_many_def append_events_def sample_empty_load existing_event_def Let_def sample_clock_def)
qed

lemma digest_opened: "apply_event length_digest sample_fp state_empty (open_event 100) = Inr (state_opened 100)"
  by code_simp

definition opened_row :: ledger_row where
  "opened_row = event_row length_digest ''t'' 1 genesis_chain_hash (encode_event length_digest (open_event 100))"

definition opened_store :: event_store where
  "opened_store = empty_store\<lparr>st_ledger := [opened_row]\<rparr>"

lemma opened_append:
  "\<exists>a. append_many sample_env sample_clock empty_store [open_event 100] = Inr (opened_store, a)
     \<and> ap_state a = state_opened 100 \<and> ap_last_sequence a = 1"
  using append_first [OF digest_opened] by (auto simp: opened_store_def opened_row_def open_event_def sample_event_def)

lemma append_survives_reload_witness:
  "\<exists>q ys. load_all sample_env opened_store = Inr q \<and> rp_events q = ys \<and> rp_state q = state_opened 100
     \<and> open_event 100 \<in> set ys"
proof -
  obtain a where a: "append_many sample_env sample_clock empty_store [open_event 100] = Inr (opened_store, a)"
    "ap_state a = state_opened 100"
    using opened_append by blast
  show ?thesis using append_survives_reload [OF a(1)] open_storable a(2) by auto
qed

lemma opened_texts: "inj_on length_digest (hashed_texts [opened_row])"
proof -
  have "length (en_payload_json (encode_event length_digest (open_event 100))) mod 1000 \<noteq> 146" by code_simp
  moreover have "length (chain_text opened_row) = 146"
    by (simp add: chain_text_def opened_row_def event_row_def genesis_chain_hash_def event_schema_version_def
        open_event_def sample_event_def show_int_def show_nat.simps)
  ultimately show ?thesis
    by (auto simp: hashed_texts_def inj_on_def opened_row_def event_row_def dest: length_digest_eq)
qed

lemma tail_hash_determines_ledger_witness:
  "\<exists>p. load_all sample_env opened_store = Inr p \<and> rp_state p = rp_state p
     \<and> map lr_payload_json (st_ledger opened_store) = [lr_payload_json opened_row]"
proof -
  obtain p where p: "load_all sample_env opened_store = Inr p" using append_survives_reload_witness by blast
  have l: "st_ledger opened_store = [opened_row]" by (simp add: opened_store_def)
  have "hashed_texts ([opened_row] @ [opened_row]) = hashed_texts [opened_row]" by (simp add: hashed_texts_def)
  then have "map lr_payload_json (st_ledger opened_store) = map lr_payload_json (st_ledger opened_store)"
    using tail_hash_determines_ledger [OF p p] opened_texts by (auto simp: l)
  then show ?thesis using p l by simp
qed

text \<open>A second event appended to that store.\<close>

definition second_row :: "ledger_event \<Rightarrow> ledger_row" where
  "second_row e = event_row length_digest ''t'' 2 (lr_chain_hash opened_row) (encode_event length_digest e)"

lemma opened_load:
  "\<exists>p. load_all sample_env opened_store = Inr p \<and> rp_state p = state_opened 100 \<and> rp_expected p = 2
     \<and> rp_hash p = lr_chain_hash opened_row"
proof -
  obtain a where a: "append_many sample_env sample_clock empty_store [open_event 100] = Inr (opened_store, a)"
    "ap_state a = state_opened 100" "ap_last_sequence a = 1"
    using opened_append by blast
  then have "append_events sample_env sample_clock False empty_store [open_event 100] = Inr (opened_store, a)"
    by (auto simp: append_many_def rbind_eq_Inr)
  from append_events_load [OF this] obtain p where p: "load_all sample_env opened_store = Inr p"
    "rp_state p = state_opened 100" "rp_expected p = 2"
    using open_storable a(2,3) by auto
  moreover have "rp_hash p = lr_chain_hash opened_row"
    using p(1) unfolding load_all_Inr by (auto simp: opened_store_def rbind_eq_Inr elim!: load_row_Inr)
  ultimately show ?thesis by blast
qed

lemma second_row_inserted:
  assumes "ev_event_id e \<noteq> ''1''" and "length (event_type (ev_body e)) \<noteq> 14" and "length (event_type (ev_body e)) < 100"
  shows "insert_row [opened_row] (second_row e) = Inr [opened_row, second_row e]"
    and "existing_event [opened_row] (ev_event_id e) = None"
proof -
  have first: "lr_sequence opened_row = 1" "lr_event_id opened_row = ''1''" "\<not> is_intent_row opened_row"
    by (simp_all add: opened_row_def event_row_def open_event_def sample_event_def is_intent_row_def)
  have len: "length (lr_chain_hash opened_row) = 64" by (simp add: opened_row_def event_row_def chain_hash_def)
  have "lr_chain_hash (second_row e) \<noteq> lr_chain_hash opened_row"
  proof
    assume "lr_chain_hash (second_row e) = lr_chain_hash opened_row"
    then have "(132 + length (event_type (ev_body e))) mod 1000 = 146 mod 1000"
      unfolding second_row_def
      by (auto simp: event_row_def [of _ _ 2] chain_hash_def len event_schema_version_def show_int_def show_nat.simps
          opened_row_def event_row_def [of _ _ 1] genesis_chain_hash_def open_event_def sample_event_def
          dest!: length_digest_eq)
    then show False using assms(2,3) by simp
  qed
  then show "insert_row [opened_row] (second_row e) = Inr [opened_row, second_row e]"
    using assms(1) first
    by (simp add: insert_row_def second_row_def event_row_def chain_hash_def len event_schema_version_def)
  show "existing_event [opened_row] (ev_event_id e) = None"
    using assms(1) first by (simp add: existing_event_def)
qed

lemma append_second:
  assumes "ev_event_id e \<noteq> ''1''" and "length (event_type (ev_body e)) \<noteq> 14" and "length (event_type (ev_body e)) < 100"
    and "apply_event length_digest sample_fp (state_opened 100) e = Inr s" and "allow \<or> \<not> is_intent_body (ev_body e)"
  shows "\<exists>a. append_events sample_env sample_clock allow (opened_store\<lparr>st_claims := cs\<rparr>) [e] =
    Inr (opened_store\<lparr>st_claims := cs, st_ledger := [opened_row, second_row e]\<rparr>, a)"
proof -
  obtain p where p: "load_all sample_env opened_store = Inr p" "rp_state p = state_opened 100" "rp_expected p = 2"
    "rp_hash p = lr_chain_hash opened_row"
    using opened_load by blast
  have load: "load_all sample_env (opened_store\<lparr>st_claims := cs\<rparr>) = Inr p"
    using p(1) by (simp add: load_all_ledger [of "opened_store\<lparr>st_claims := cs\<rparr>" opened_store])
  have rows: "st_ledger (opened_store\<lparr>st_claims := cs\<rparr>) = [opened_row]" by (simp add: opened_store_def)
  have "prior_intent_check [opened_row] (ev_body e) = Inr ()"
    by (cases "ev_body e") (simp_all add: prior_intent_check_def intent_event_def is_intent_row_def opened_row_def
      event_row_def open_event_def sample_event_def)
  then show ?thesis
    using second_row_inserted [OF assms(1-3)] assms(4,5) p(2-4)
    by (auto simp: append_events_def load rows Let_def second_row_def sample_clock_def)
qed

section \<open>What the store accepts and cannot read back\<close>

text \<open>
  A payout with a blank outcome passes every constructor and the reducer, is appended, and stops the
  ledger from loading: the decoder wants non-blank text.
\<close>

definition blank_resolution :: market_resolution where
  "blank_resolution = \<lparr>mr_market_id = ''m'', mr_payouts = [\<lparr>op_outcome_id = [], op_payout = 1\<rparr>],
     mr_resolved_at = at_second 9\<rparr>"

definition blank_event :: ledger_event where
  "blank_event = sample_event ''9'' (MarketResolved blank_resolution)"

lemma blank_event_accepted: "event_init length_digest blank_event = Inr blank_event"
    "market_resolution_init blank_resolution = Inr blank_resolution"
    "is_ok (apply_event length_digest sample_fp (state_opened 100) blank_event)"
  by code_simp+

lemma blank_resolution_unreadable:
  "\<exists>msg. resolution_from_data (resolution_to_data blank_resolution) = Inl (CorruptLedgerError msg)"
proof -
  have "as_text (JStr []) label = corrupt (label @ '' must be a non-blank string'')" for label
    by (simp add: as_text.simps(1) strip_def)
  then show ?thesis
    by (simp add: resolution_from_data_def resolution_to_data_def payout_from_data_def payout_to_data_def
        blank_resolution_def codec_read) (simp add: corrupt_def)
qed

lemma blank_event_unreadable:
  "\<exists>msg. decode_event (\<lambda>_. None) length_digest (en_payload_json (encode_event length_digest blank_event))
     = Inl (CorruptLedgerError msg)"
proof -
  obtain d where d: "event_envelope blank_event = JObj d" by (simp add: event_envelope_def)
  have times: "valid_datetime (ev_occurred_at blank_event)" and name: "nonblank ''market_resolved''"
    by code_simp+
  obtain msg where bad: "resolution_from_data (resolution_to_data blank_resolution) = Inl (CorruptLedgerError msg)"
    using blank_resolution_unreadable by blast
  have body: "ev_body blank_event = MarketResolved blank_resolution"
    by (simp add: blank_event_def sample_event_def)
  have "common ([(''event_id'', JStr (ev_event_id blank_event)), (''occurred_at'', JStr (isoformat (ev_occurred_at blank_event)))]
      @ body_data (ev_body blank_event)) [''resolution''] = Inr (ev_event_id blank_event, ev_occurred_at blank_event)"
    using blank_event_accepted times by (intro common_read [of length_digest]) (simp_all add: body)
  then have "decode_envelope (\<lambda>_. None) length_digest d = Inl (CorruptLedgerError msg)"
    using d name bad
    by (auto simp: decode_envelope_def event_envelope_def event_data_def body body_decoder_def codec_read)
  moreover have "load_json (en_payload_json (encode_event length_digest blank_event)) = Inr (JObj (sort_data d))"
    using load_canonical_json [OF valid_envelope [of blank_event]] d
    by (simp add: sort_data_def encode_event_def Let_def split: prod.split)
  ultimately show ?thesis
    by (simp add: decode_event_def load_json_object_def decode_envelope_sort)
qed

theorem blank_payout_breaks_store:
  "\<exists>st st' a. store_ok sample_env st \<and> append_many sample_env sample_clock st [blank_event] = Inr (st', a)
     \<and> verify_integrity sample_env st' = Inl (CorruptLedgerError ''ledger event cannot be decoded safely'')"
proof -
  obtain s where s: "apply_event length_digest sample_fp (state_opened 100) blank_event = Inr s"
    using blank_event_accepted(3) unfolding is_ok_iff by blast
  let ?r = "second_row blank_event"
  let ?st = "opened_store\<lparr>st_ledger := [opened_row, ?r]\<rparr>"
  have writable: "ensure_writable opened_store = Inr ()"
    by (simp add: opened_store_def empty_store_def ensure_writable_def ensure_open_def)
  then obtain a where st: "append_many sample_env sample_clock opened_store [blank_event] = Inr (?st, a)"
    using append_second [OF _ _ _ s, of False "[]"]
    by (auto simp: append_many_def blank_event_def sample_event_def opened_store_def empty_store_def)
  obtain msg where "decode_event (\<lambda>_. None) length_digest (lr_payload_json ?r) = Inl (CorruptLedgerError msg)"
    using blank_event_unreadable by (auto simp: second_row_def event_row_def)
  then have bad: "row_event sample_env ?r = Inl (CorruptLedgerError ''ledger event cannot be decoded safely'')"
    by (simp add: row_event_def corrupt_on_def decode_error_def corrupt_def)
  obtain p where p: "load_all sample_env opened_store = Inr p" "rp_expected p = 2" "rp_hash p = lr_chain_hash opened_row"
    using opened_load by blast
  then have "row_hashes length_digest p ?r = Inr ()"
    by (simp add: row_hashes_def second_row_def event_row_def)
  then have "load_row sample_env [] p ?r = Inl (CorruptLedgerError ''ledger event cannot be decoded safely'')"
    by (simp add: load_row_def bad)
  moreover have "load_row sample_env [] \<lparr>rp_events = [], rp_state = state_empty, rp_expected = 1,
      rp_hash = genesis_chain_hash\<rparr> opened_row = Inr p"
    using p(1) unfolding load_all_Inr by (auto simp: opened_store_def empty_store_def sample_start rbind_eq_Inr)
  ultimately have "load_all sample_env ?st = Inl (CorruptLedgerError ''ledger event cannot be decoded safely'')"
    by (simp add: load_ledger_def opened_store_def empty_store_def sample_start)
  moreover have "store_ok sample_env opened_store"
    using run_ok [of sample_env "[AppendMany sample_clock [open_event 100]]"] open_storable opened_append
    by (auto simp: store_run_def committed_store_def)
  moreover have "ensure_open ?st = Inr ()" by (simp add: ensure_open_def opened_store_def empty_store_def)
  ultimately have "verify_integrity sample_env ?st = Inl (CorruptLedgerError ''ledger event cannot be decoded safely'')"
    by (simp add: verify_integrity_def)
  then show ?thesis using st \<open>store_ok sample_env opened_store\<close> by blast
qed

text \<open>A decision identifier with a leading blank, on the store of an opened account.\<close>

definition padded_intent :: order_intent where
  "padded_intent = (buy_intent 10 (1 / 10))\<lparr>oi_decision_id := '' d''\<rparr>"

definition padded_event :: ledger_event where
  "padded_event = \<lparr>ev_event_id = ''2'', ev_occurred_at = at_second 1, ev_body = OrderIntentCreated padded_intent\<rparr>"

lemma padded_storable: "storable (\<lambda>_. None) length_digest padded_event"
  unfolding storable_def by (intro conjI; code_simp)

lemma padded_applies: "is_ok (apply_event length_digest sample_fp (state_opened 100) padded_event)"
  by code_simp

lemma padded_commit:
  "\<exists>st a. commit_order_intent sample_env sample_clock ''t'' opened_store ''2'' (at_second 1) padded_intent ''w'' None = Inr (st, a)"
proof -
  obtain s where s: "apply_event length_digest sample_fp (state_opened 100) padded_event = Inr s"
    using padded_applies unfolding is_ok_iff by blast
  have rows: "st_claims opened_store = []" "ensure_writable opened_store = Inr ()"
    by (simp_all add: opened_store_def empty_store_def ensure_writable_def ensure_open_def)
  have names: "require_text ''w'' ''owner_id'' = Inr ''w''" "require_text '' d'' ''decision_id'' = Inr ''d''"
    "oi_decision_id padded_intent = '' d''" "oi_intent_id padded_intent = ''b''"
    by code_simp+
  have meta: "encode_metadata length_digest None = Inr (''{}'', length_digest ''{}'')"
    by (simp add: encode_metadata_def canonical_json_def Let_def)
  let ?r = "\<lparr>cr_decision_key = ''d'', cr_owner_id = ''w'', cr_status = ''committed'', cr_intent_id = Some ''b'',
    cr_metadata_json = ''{}'', cr_metadata_hash = length_digest ''{}'', cr_claimed_at = ''t'', cr_updated_at = ''t''\<rparr>"
  have claim: "insert_claim opened_store ?r = Inr (opened_store\<lparr>st_claims := [?r]\<rparr>)"
    by (simp add: insert_claim_def claim_allowed_def rows)
  obtain a where "append_events sample_env sample_clock True (opened_store\<lparr>st_claims := [?r]\<rparr>) [padded_event] =
      Inr (opened_store\<lparr>st_claims := [?r], st_ledger := [opened_row, second_row padded_event]\<rparr>, a)"
    using append_second [OF _ _ _ s, of True] by (auto simp: padded_event_def)
  then show ?thesis
    using claim by (simp add: commit_order_intent_def names meta rows decision_row_def padded_event_def Let_def)
qed

lemma padded_decision_breaks_store_witness:
  "\<exists>st. verify_integrity sample_env st = Inl (CorruptLedgerError ''decision disagrees with its intent event'')"
proof -
  obtain st a where st: "commit_order_intent sample_env sample_clock ''t'' opened_store ''2'' (at_second 1)
      padded_intent ''w'' None = Inr (st, a)"
    using padded_commit by blast
  have run: "store_run sample_env empty_store [AppendMany sample_clock [open_event 100]] = opened_store"
    using opened_append by (auto simp: store_run_def committed_store_def)
  have "store_ok sample_env opened_store"
    using run_ok [of sample_env "[AppendMany sample_clock [open_event 100]]"] open_storable by (simp add: run)
  moreover have "decision_row opened_store (strip (oi_decision_id padded_intent)) = None"
    by (simp add: decision_row_def opened_store_def empty_store_def)
  moreover have "strip (oi_decision_id padded_intent) \<noteq> oi_decision_id padded_intent" by code_simp
  ultimately show ?thesis
    using padded_decision_breaks_store [OF st] padded_storable
    by (auto simp: padded_event_def proper_metadata_def)
qed

end
