(* ===== verification/Risk_Store.thy ===== *)
theory Risk_Store
  imports Store_Ops Portfolio
begin

text \<open>
  \<open>weatherbot/persistence/risk_store.py\<close>: the event store that evaluates the portfolio gate and
  commits a buy intent in one transaction. \<open>vfp\<close> is the fingerprint of a portfolio valuation.
\<close>

section \<open>The decision as metadata\<close>

fun rejection_value :: "portfolio_rejection_reason \<Rightarrow> string" where
  "rejection_value PF_INVALID_INPUT = ''invalid_input''"
| "rejection_value VALUATION_MISMATCH = ''valuation_mismatch''"
| "rejection_value STALE_VALUATION = ''stale_valuation''"
| "rejection_value MISSING_SCOPE = ''missing_scope''"
| "rejection_value DUPLICATE_EXPOSURE = ''duplicate_exposure''"
| "rejection_value MAX_OPEN_POSITIONS = ''max_open_positions''"
| "rejection_value TOTAL_EXPOSURE = ''total_exposure''"
| "rejection_value EVENT_EXPOSURE = ''event_exposure''"
| "rejection_value CITY_DATE_EXPOSURE = ''city_date_exposure''"
| "rejection_value CORRELATION_EXPOSURE = ''correlation_exposure''"
| "rejection_value DAILY_LOSS = ''daily_loss''"
| "rejection_value DRAWDOWN = ''drawdown''"

definition optional_meta :: "string option \<Rightarrow> meta" where
  "optional_meta v = (case v of None \<Rightarrow> MetaNone | Some s \<Rightarrow> MetaStr s)"

definition money_meta :: "money \<Rightarrow> meta" where
  "money_meta m = MetaStr (fmt6 (amount m))"

type_synonym py_dict = "(string option \<times> meta) list"

text \<open>A dict comprehension or \<^verbatim>\<open>dict.update\<close>: a later key replaces the value in place.\<close>

definition dict_update :: "py_dict \<Rightarrow> py_dict \<Rightarrow> py_dict" where
  "dict_update d new = foldl (\<lambda>acc (k, v). dict_set acc k v) d new"

definition correlation_meta :: "correlation_exposure list \<Rightarrow> meta" where
  "correlation_meta cs = MetaMapping (dict_update []
     (map (\<lambda>c. (Some (ce_group c),
        MetaMapping [(Some ''before'', money_meta (ce_before c)), (Some ''after'', money_meta (ce_after c))])) cs))"

definition decision_metadata :: "portfolio_decision \<Rightarrow> py_dict" where
  "decision_metadata d =
     [(Some ''portfolio_risk_status'',
        MetaStr (if pr_status d = RISK_APPROVED then ''approved'' else ''rejected'')),
      (Some ''portfolio_risk_rejection_reason'', optional_meta (map_option rejection_value (pr_reason d))),
      (Some ''portfolio_risk_detail'', optional_meta (pr_detail d)),
      (Some ''portfolio_risk_market_id'', MetaStr (rs_market_id (pr_scope d))),
      (Some ''portfolio_risk_outcome_id'', MetaStr (rs_outcome_id (pr_scope d))),
      (Some ''portfolio_risk_event_id'', MetaStr (rs_event_id (pr_scope d))),
      (Some ''portfolio_risk_city_key'', MetaStr (rs_city_key (pr_scope d))),
      (Some ''portfolio_risk_market_date'', MetaStr (iso_date (rs_market_date (pr_scope d)))),
      (Some ''portfolio_risk_correlation_groups'',
        MetaSequence (map MetaStr (all_correlation_groups (pr_scope d)))),
      (Some ''portfolio_risk_proposed_cash'', money_meta (pr_cash d)),
      (Some ''portfolio_risk_total_exposure_before'', money_meta (pr_total_before d)),
      (Some ''portfolio_risk_total_exposure_after'', money_meta (pr_total_after d)),
      (Some ''portfolio_risk_event_exposure_before'', money_meta (pr_event_before d)),
      (Some ''portfolio_risk_event_exposure_after'', money_meta (pr_event_after d)),
      (Some ''portfolio_risk_city_date_exposure_before'', money_meta (pr_city_date_before d)),
      (Some ''portfolio_risk_city_date_exposure_after'', money_meta (pr_city_date_after d)),
      (Some ''portfolio_risk_correlation_exposure'', correlation_meta (pr_correlation d)),
      (Some ''portfolio_risk_open_positions_before'', MetaInt (pr_open_before d)),
      (Some ''portfolio_risk_open_positions_after'', MetaInt (pr_open_after d)),
      (Some ''portfolio_risk_realized_pnl_today'', money_meta (pr_realized_today d)),
      (Some ''portfolio_risk_unrealized_pnl'', money_meta (pr_unrealized d)),
      (Some ''portfolio_risk_daily_pnl'', money_meta (pr_daily_pnl d)),
      (Some ''portfolio_risk_daily_loss'', money_meta (pr_daily_loss d)),
      (Some ''portfolio_risk_current_equity'', money_meta (pr_equity d)),
      (Some ''portfolio_risk_high_water_mark'', money_meta (pr_high_water d)),
      (Some ''portfolio_risk_drawdown'', money_meta (pr_drawdown d)),
      (Some ''portfolio_risk_missing_scope_keys'', MetaSequence (map MetaStr (pr_missing d)))]"

text \<open>A decoded JSON value as the Python value it is.\<close>

fun json_meta :: "json \<Rightarrow> meta" where
  "json_meta JNull = MetaNone"
| "json_meta (JBool b) = MetaBool b"
| "json_meta (JInt n) = MetaInt n"
| "json_meta (JFloat s) = MetaFloat"
| "json_meta (JStr s) = MetaStr s"
| "json_meta (JArr vs) = MetaSequence (map json_meta vs)"
| "json_meta (JObj d) = MetaMapping (map (\<lambda>(k, v). (Some k, json_meta v)) d)"

text \<open>\<^verbatim>\<open>encode_metadata\<close> of metadata that was read back.\<close>

definition encode_again :: "(string \<Rightarrow> string) \<Rightarrow> (string \<times> json) list \<Rightarrow> (string \<times> string) result" where
  "encode_again sha d = encode_metadata sha (Some (map (\<lambda>(k, v). (Some k, json_meta v)) d))"

section \<open>Helpers of the transaction\<close>

definition valuation_event_id ::
    "ledger_env \<Rightarrow> (portfolio_valuation \<Rightarrow> string) \<Rightarrow> string \<Rightarrow> portfolio_valuation \<Rightarrow> string" where
  "valuation_event_id env vfp key v =
     ''portfolio_valuation_'' @ le_sha env (key @ [CHR 0x0A] @ vfp v)"

definition current_append_result :: "ledger_env \<Rightarrow> event_store \<Rightarrow> string list \<Rightarrow> append_result result" where
  "current_append_result env st duplicates =
     rbind (load_all env st) (\<lambda>p.
     Inr \<lparr>ap_appended = [], ap_duplicates = duplicates, ap_state = rp_state p,
          ap_last_sequence = rp_expected p - 1, ap_chain_hash = rp_hash p\<rparr>)"

definition set_adapter_locked ::
    "ledger_env \<Rightarrow> string \<Rightarrow> event_store \<Rightarrow> string \<Rightarrow> string \<Rightarrow> py_metadata \<Rightarrow> event_store result" where
  "set_adapter_locked env now st i backend payload =
     rbind (require_text backend ''backend_name'') (\<lambda>b.
     rbind (encode_metadata (le_sha env) payload) (\<lambda>(pj, ph).
     case adapter_row_of st i of
       None \<Rightarrow>
         if length ph \<noteq> 64 then Inl (DatabaseError ''CHECK constraint failed'')
         else Inr (st\<lparr>st_adapters := st_adapters st @
           [\<lparr>ar_intent_id = i, ar_backend_name = b, ar_payload_json = pj, ar_payload_hash = ph,
             ar_created_at = now, ar_updated_at = now\<rparr>]\<rparr>)
     | Some r \<Rightarrow>
         rbind (adapter_from_row (le_sha env) r) (\<lambda>a.
         if ad_backend_name a \<noteq> b
         then Inl (ConcurrentDecisionError ''intent is already assigned to another backend'')
         else rbind (encode_again (le_sha env) (ad_payload a)) (\<lambda>(ej, eh).
           if eh \<noteq> ph
           then Inl (ConcurrentDecisionError ''adapter metadata changed across an idempotent retry'')
           else Inr st))))"

definition attach_adapter ::
    "ledger_env \<Rightarrow> string \<Rightarrow> event_store \<Rightarrow> string \<Rightarrow> string option \<Rightarrow> py_metadata \<Rightarrow> event_store result" where
  "attach_adapter env now st i backend payload =
     (case (backend, payload) of
        (Some b, Some ps) \<Rightarrow> set_adapter_locked env now st i b (Some ps)
      | _ \<Rightarrow> Inr st)"

section \<open>The transaction\<close>

record risk_commit_result =
  rc_decision :: "portfolio_decision option"
  rc_append :: append_result
  rc_committed :: bool

text \<open>The arguments of a risk-checked commit.\<close>

record risk_request =
  rq_event_id :: string
  rq_occurred_at :: datetime
  rq_intent :: order_intent
  rq_scope :: risk_scope
  rq_valuation :: portfolio_valuation
  rq_policy :: portfolio_policy
  rq_evaluated_at :: datetime
  rq_owner :: string
  rq_metadata :: py_metadata
  rq_backend :: "string option"
  rq_payload :: py_metadata

definition intent_created :: "risk_request \<Rightarrow> ledger_event" where
  "intent_created q = \<lparr>ev_event_id = rq_event_id q, ev_occurred_at = rq_occurred_at q,
     ev_body = OrderIntentCreated (rq_intent q)\<rparr>"

definition valuation_recorded ::
    "ledger_env \<Rightarrow> (portfolio_valuation \<Rightarrow> string) \<Rightarrow> string \<Rightarrow> portfolio_valuation \<Rightarrow> ledger_event" where
  "valuation_recorded env vfp key v =
     \<lparr>ev_event_id = valuation_event_id env vfp key v, ev_occurred_at = pf_assembled_at v,
      ev_body = PortfolioValuationRecorded v\<rparr>"

definition scope_registered_event :: "ledger_env \<Rightarrow> datetime \<Rightarrow> risk_scope \<Rightarrow> ledger_event" where
  "scope_registered_event env t scope =
     \<lparr>ev_event_id = risk_scope_event_id (le_sha env) scope, ev_occurred_at = t,
      ev_body = RiskScopeRegistered scope\<rparr>"

definition scope_registered :: "ledger_event list \<Rightarrow> risk_scope \<Rightarrow> bool" where
  "scope_registered es scope \<longleftrightarrow> list_ex (\<lambda>e. case ev_body e of
     RiskScopeRegistered prior \<Rightarrow> rs_position_key prior = rs_position_key scope | _ \<Rightarrow> False) es"

text \<open>The branch of a decision that is already committed.\<close>

definition risk_commit_again ::
    "ledger_env \<Rightarrow> string \<Rightarrow> event_store \<Rightarrow> decision_claim \<Rightarrow> risk_request \<Rightarrow>
     (event_store \<times> risk_commit_result) result" where
  "risk_commit_again env stamp st c q =
     (if dc_intent_id c \<noteq> Some (oi_intent_id (rq_intent q))
      then Inl (DuplicateIntentError ''decision already committed intent'')
      else case intent_event (st_ledger st) (oi_intent_id (rq_intent q)) of
        None \<Rightarrow> corrupt ''decision is committed but its intent event is missing''
      | Some r \<Rightarrow>
          rbind (decode_event (le_tz env) (le_sha env) (lr_payload_json r)) (\<lambda>prior.
          case ev_body prior of
            OrderIntentCreated j \<Rightarrow>
              if \<not> order_intent_eq j (rq_intent q)
              then Inl (DuplicateIntentError ''order intent was reused with different data'')
              else rbind (attach_adapter env stamp st (oi_intent_id (rq_intent q)) (rq_backend q) (rq_payload q)) (\<lambda>st'.
                rbind (current_append_result env st' [rq_event_id q]) (\<lambda>a.
                Inr (st', \<lparr>rc_decision = None, rc_append = a, rc_committed = True\<rparr>)))
          | _ \<Rightarrow> corrupt ''stored intent row decoded as another event type''))"

text \<open>Insert the claim of the decision, or update the one that is there.\<close>

definition put_claim ::
    "event_store \<Rightarrow> claim_row option \<Rightarrow> string \<Rightarrow> string \<Rightarrow> string \<Rightarrow> string option \<Rightarrow> string \<times> string \<Rightarrow>
     string \<Rightarrow> event_store result" where
  "put_claim st row k owner status intent meta now =
     (case row of
        None \<Rightarrow> insert_claim st
          \<lparr>cr_decision_key = k, cr_owner_id = owner, cr_status = status, cr_intent_id = intent,
           cr_metadata_json = fst meta, cr_metadata_hash = snd meta, cr_claimed_at = now, cr_updated_at = now\<rparr>
      | Some _ \<Rightarrow> update_claim st k (\<lambda>r. r\<lparr>cr_status := status, cr_intent_id := intent,
          cr_metadata_json := fst meta, cr_metadata_hash := snd meta, cr_updated_at := now\<rparr>))"

text \<open>The evaluation against the loaded ledger and what is stored for either outcome.\<close>

definition risk_evaluate ::
    "ledger_env \<Rightarrow> (portfolio_valuation \<Rightarrow> string) \<Rightarrow> (int \<Rightarrow> string) \<Rightarrow> string \<Rightarrow> string \<Rightarrow> event_store \<Rightarrow>
     string \<Rightarrow> string \<Rightarrow> claim_row option \<Rightarrow> risk_request \<Rightarrow> (event_store \<times> risk_commit_result) result" where
  "risk_evaluate env vfp now stamp adapter_stamp st k owner row q =
     (let i = rq_intent q; v = rq_valuation q; scope = rq_scope q in
      rbind (load_all env st) (\<lambda>p.
      rbind (cash_reservation i) (\<lambda>cash.
      rbind (evaluate_portfolio_risk (le_sha env) (le_event_fp env) (le_tz env) (rp_state p) (rp_events p)
          scope cash v (rq_policy q) (rq_evaluated_at q)) (\<lambda>d.
      rbind (encode_metadata (le_sha env)
          (Some (dict_update (case rq_metadata q of None \<Rightarrow> [] | Some m \<Rightarrow> m) (decision_metadata d)))) (\<lambda>meta.
      rbind (event_init (le_sha env) (valuation_recorded env vfp k v)) (\<lambda>ve.
      if pr_status d = RISK_REJECTED
      then rbind (put_claim st row k owner ''completed'' None meta stamp) (\<lambda>st'.
           rbind (if pr_reason d \<in> {Some STALE_VALUATION, Some VALUATION_MISMATCH}
                  then rbind (current_append_result env st' []) (\<lambda>a. Inr (st', a))
                  else append_events env now False st' [ve]) (\<lambda>(st'', a).
           Inr (st'', \<lparr>rc_decision = Some d, rc_append = a, rc_committed = False\<rparr>)))
      else rbind (put_claim st row k owner ''committed'' (Some (oi_intent_id i)) meta stamp) (\<lambda>st'.
           rbind (if scope_registered (rp_events p) scope then Inr []
                  else rbind (event_init (le_sha env) (scope_registered_event env (rq_evaluated_at q) scope))
                    (\<lambda>se. Inr [se])) (\<lambda>se.
           rbind (append_events env now True st' (se @ [ve, intent_created q])) (\<lambda>(st'', a).
           rbind (attach_adapter env adapter_stamp st'' (oi_intent_id i) (rq_backend q) (rq_payload q)) (\<lambda>st'''.
           Inr (st''', \<lparr>rc_decision = Some d, rc_append = a, rc_committed = True\<rparr>)))))))))))"

definition commit_risk_checked ::
    "ledger_env \<Rightarrow> (portfolio_valuation \<Rightarrow> string) \<Rightarrow> (int \<Rightarrow> string) \<Rightarrow> string \<Rightarrow> string \<Rightarrow> event_store \<Rightarrow>
     risk_request \<Rightarrow> (event_store \<times> risk_commit_result) result" where
  "commit_risk_checked env vfp now stamp adapter_stamp st q =
     (if oi_side (rq_intent q) \<noteq> BUY
      then Inl (ValueError ''portfolio risk checked intent commit is only for BUY entries'')
      else if rs_position_key (rq_scope q) \<noteq> (oi_market_id (rq_intent q), oi_outcome_id (rq_intent q))
      then Inl (ValueError ''risk scope does not match order-intent position key'')
      else if (rq_backend q = None) \<noteq> (rq_payload q = None)
      then Inl (ValueError ''adapter backend name and payload must be supplied together'')
      else
      rbind (require_text (rq_owner q) ''owner_id'') (\<lambda>ow.
      rbind (require_text (oi_decision_id (rq_intent q)) ''decision_id'') (\<lambda>k.
      rbind (encode_metadata (le_sha env) (rq_metadata q)) (\<lambda>(mj, mh).
      rbind (ensure_writable st) (\<lambda>_.
      case decision_row st k of
        None \<Rightarrow> risk_evaluate env vfp now stamp adapter_stamp st k ow None q
      | Some r \<Rightarrow>
          rbind (claim_from_row (le_sha env) r) (\<lambda>c.
          if dc_status c = ''committed'' then risk_commit_again env adapter_stamp st c q
          else if dc_status c = ''completed''
          then (if dc_owner_id c \<noteq> ow \<or> dc_intent_id c \<noteq> None
                then Inl (ConcurrentDecisionError ''decision is already completed by another outcome'')
                else rbind (current_append_result env st []) (\<lambda>a.
                  Inr (st, \<lparr>rc_decision = None, rc_append = a, rc_committed = False\<rparr>)))
          else if dc_status c \<noteq> ''claimed'' \<or> dc_owner_id c \<noteq> ow
          then Inl (ConcurrentDecisionError ''decision is owned by another owner'')
          else rbind (encode_again (le_sha env) (dc_metadata c)) (\<lambda>(sj, sh).
            if sh \<noteq> mh
            then Inl (ConcurrentDecisionError ''decision metadata changed between claim and risk commit'')
            else risk_evaluate env vfp now stamp adapter_stamp st k ow (Some r) q)))))))"

text \<open>The inherited commit, overridden: a buy needs the transaction above.\<close>

definition commit_non_buy_intent ::
    "ledger_env \<Rightarrow> (int \<Rightarrow> string) \<Rightarrow> string \<Rightarrow> event_store \<Rightarrow> string \<Rightarrow> datetime \<Rightarrow> order_intent \<Rightarrow>
     string \<Rightarrow> py_metadata \<Rightarrow> (event_store \<times> append_result) result" where
  "commit_non_buy_intent env now stamp st eid t i owner metadata =
     (if oi_side i = BUY
      then Inl (ValueError ''BUY intents require commit_risk_checked_order_intent on PortfolioRiskEventStore'')
      else commit_order_intent env now stamp st eid t i owner metadata)"

end
