(* ===== verification/Risk_Store_Props.thy ===== *)
theory Risk_Store_Props
  imports Risk_Store Store_Claims
begin

text \<open>
  The risk-checked commit keeps the invariant of the event store, and a buy enters the ledger only
  behind an approval of the portfolio gate on the very ledger it extends.
\<close>

section \<open>The stored metadata reads back\<close>

lemma dict_update_keys: "distinct (map fst d) \<Longrightarrow> distinct (map fst (dict_update d new))"
  unfolding dict_update_def by (induction new arbitrary: d) (auto simp: distinct_update)

lemma dict_update_values:
  assumes "distinct (map fst d)" and "\<forall>(k, v) \<in> set d. P v" and "\<forall>(k, v) \<in> set new. P v"
  shows "\<forall>(k, v) \<in> set (dict_update d new). P v"
  using assms unfolding dict_update_def
proof (induction new arbitrary: d)
  case (Cons x new)
  obtain k v where x: "x = (k, v)" by force
  have "distinct (map fst (dict_set d k v))" using Cons.prems(1) by (rule distinct_update)
  moreover have "\<forall>(k', w) \<in> set (dict_set d k v). P w"
    using Cons.prems(1,2,3) x by (intro dict_set_values) (auto simp: dict_ok_def)
  ultimately show ?case using Cons.IH [of "dict_set d k v"] Cons.prems(3) by (simp add: x)
qed simp

lemma proper_mapping:
  "proper_meta (MetaMapping ps) \<longleftrightarrow> distinct (map fst ps) \<and> (\<forall>(k, v) \<in> set ps. proper_meta v)"
  by (auto simp: list_all_iff)

lemma proper_update:
  assumes "proper_meta (MetaMapping d)" and "\<forall>(k, v) \<in> set new. proper_meta v"
  shows "proper_meta (MetaMapping (dict_update d new))"
  using assms dict_update_keys dict_update_values [of d proper_meta new] unfolding proper_mapping by blast

lemma proper_decision: "\<forall>(k, v) \<in> set (decision_metadata d). proper_meta v"
proof -
  have "proper_meta (correlation_meta cs)" for cs
    unfolding correlation_meta_def
    by (rule proper_update) (auto simp: money_meta_def)
  then show ?thesis
    by (auto simp: decision_metadata_def money_meta_def optional_meta_def list_all_iff split: option.split)
qed

lemma stored_decision_proper:
  assumes "proper_metadata m"
  shows "proper_metadata (Some (dict_update (case m of None \<Rightarrow> [] | Some ps \<Rightarrow> ps) (decision_metadata d)))"
  using assms proper_decision
  by (auto simp: proper_metadata_def simp del: proper_meta.simps intro!: proper_update split: option.splits)
    (simp add: proper_mapping)

section \<open>Claims and adapters\<close>

lemma put_claim_shape:
  assumes put: "put_claim st (decision_row st k) k owner status intent (j, h) now = Inr st'"
    and ok: "store_ok env st"
    and meta: "decode_metadata (le_sha env) j h = Inr d"
    and claimed: "\<And>r. decision_row st k = Some r \<Longrightarrow> cr_status r = ''claimed''"
  obtains cs c cl where "st' = st\<lparr>st_claims := cs\<rparr>" "distinct (map cr_decision_key cs)"
    "c \<in> set cs" "cr_status c = status" "cr_intent_id c = intent" "cr_decision_key c = k"
    "claim_from_row (le_sha env) c = Inr cl"
    "\<forall>r \<in> set cs. r = c \<or> verify_claim env st () r = Inr ()"
    "\<forall>r \<in> set (st_claims st). cr_status r = ''claimed'' \<or> r \<in> set cs"
proof (cases "decision_row st k")
  case None
  let ?r = "\<lparr>cr_decision_key = k, cr_owner_id = owner, cr_status = status, cr_intent_id = intent,
    cr_metadata_json = j, cr_metadata_hash = h, cr_claimed_at = now, cr_updated_at = now\<rparr>"
  have "st' = st\<lparr>st_claims := st_claims st @ [?r]\<rparr>"
    using put by (auto simp: None put_claim_def insert_claim_def split: if_splits)
  moreover obtain cl where "claim_from_row (le_sha env) ?r = Inr cl" using meta by (simp add: claim_from_row_def)
  ultimately show ?thesis
    using that [of "st_claims st @ [?r]" ?r cl] ok None
    by (auto simp: store_ok_def list_all_iff decision_row_None)
next
  case (Some r)
  let ?f = "\<lambda>r. r\<lparr>cr_status := status, cr_intent_id := intent, cr_metadata_json := j,
    cr_metadata_hash := h, cr_updated_at := now\<rparr>"
  let ?cs = "map (\<lambda>r. if cr_decision_key r = k then ?f r else r) (st_claims st)"
  have r: "r \<in> set (st_claims st)" "cr_decision_key r = k" using decision_row_Some [OF Some] by simp_all
  have only: "q = r" if "q \<in> set (st_claims st)" "cr_decision_key q = k" for q
    using ok that r by (intro distinct_key_eq [of cr_decision_key "st_claims st"]) (auto simp: store_ok_def)
  have "update_claim st k ?f = Inr st'" using put by (simp add: Some put_claim_def)
  then have "st' = st\<lparr>st_claims := ?cs\<rparr>" by (rule update_claim_Inr)
  moreover have "distinct (map cr_decision_key ?cs)"
    using ok by (simp add: store_ok_def comp_def if_distrib cong: if_cong)
  moreover have "?f r \<in> set ?cs" using r by force
  moreover obtain cl where "claim_from_row (le_sha env) (?f r) = Inr cl" using meta by (simp add: claim_from_row_def)
  moreover have "\<forall>q \<in> set ?cs. q = ?f r \<or> verify_claim env st () q = Inr ()"
    using only ok by (auto simp: store_ok_def list_all_iff)
  moreover have "\<forall>q \<in> set (st_claims st). cr_status q = ''claimed'' \<or> q \<in> set ?cs"
  proof (intro ballI disjCI)
    fix q
    assume q: "q \<in> set (st_claims st)" "q \<notin> set ?cs"
    then have "cr_decision_key q = k" by force
    then show "cr_status q = ''claimed''" using only q(1) claimed [OF Some] by blast
  qed
  moreover have "cr_status (?f r) = status" "cr_intent_id (?f r) = intent" "cr_decision_key (?f r) = k"
    using r(2) by simp_all
  ultimately show ?thesis by - (rule that [of ?cs "?f r" cl], assumption+)
qed

lemma attach_adapter_ok:
  assumes "attach_adapter env now st i backend payload = Inr st'" and "store_ok env st"
    and "intent_event (st_ledger st) i \<noteq> None" and "proper_metadata payload"
  shows "store_ok env st' \<and> (\<exists>as. st' = st\<lparr>st_adapters := as\<rparr>)"
proof (cases "\<exists>b ps. backend = Some b \<and> payload = Some ps")
  case True
  then obtain b ps where run: "set_adapter_locked env now st i b (Some ps) = Inr st'" and ps: "payload = Some ps"
    using assms(1) by (auto simp: attach_adapter_def)
  then obtain b' j h where b: "require_text b ''backend_name'' = Inr b'"
    and m: "encode_metadata (le_sha env) (Some ps) = Inr (j, h)"
    by (auto simp: set_adapter_locked_def rbind_eq_Inr)
  show ?thesis
  proof (cases "adapter_row_of st i")
    case None
    let ?r = "\<lparr>ar_intent_id = i, ar_backend_name = b', ar_payload_json = j, ar_payload_hash = h,
      ar_created_at = now, ar_updated_at = now\<rparr>"
    have st': "st' = st\<lparr>st_adapters := st_adapters st @ [?r]\<rparr>"
      using run by (auto simp: set_adapter_locked_def b m None split: if_splits)
    obtain d where "decode_metadata (le_sha env) j h = Inr d" using metadata_read [OF m] assms(4) ps by auto
    moreover have "strip b' \<noteq> []" using require_text_InrD [OF b] by simp
    ultimately have "verify_adapter env st () ?r = Inr ()" using assms(3) by (simp add: verify_adapter_iff)
    then have "store_ok env st'"
      using assms(2) by (intro store_ok_adapters [OF assms(2) st']) (simp add: store_ok_def)
    then show ?thesis using st' by blast
  next
    case (Some r)
    then have "st' = st" using run by (auto simp: set_adapter_locked_def b m rbind_eq_Inr result_simps split: if_splits)
    then show ?thesis using assms(2) by (intro conjI exI [of _ "st_adapters st"]) simp_all
  qed
next
  case False
  then have "st' = st" using assms(1) by (auto simp: attach_adapter_def split: option.splits)
  then show ?thesis using assms(2) by (intro conjI exI [of _ "st_adapters st"]) simp_all
qed

section \<open>The transaction keeps the invariant\<close>

text \<open>What the caller of the risk-checked commit guarantees.\<close>

definition good_request :: "ledger_env \<Rightarrow> risk_request \<Rightarrow> bool" where
  "good_request env q \<longleftrightarrow> storable (le_tz env) (le_sha env) (intent_created q)
     \<and> strip (oi_decision_id (rq_intent q)) = oi_decision_id (rq_intent q)
     \<and> proper_metadata (rq_metadata q) \<and> proper_metadata (rq_payload q)
     \<and> storable_valuation (rq_valuation q) \<and> storable_scope (rq_scope q) \<and> valid_datetime (rq_evaluated_at q)"

lemma valuation_storable:
  assumes "event_init (le_sha env) (valuation_recorded env vfp k v) = Inr e" and "storable_valuation v"
  shows "storable (le_tz env) (le_sha env) e \<and> e = valuation_recorded env vfp k v"
proof -
  have "e = valuation_recorded env vfp k v"
    using assms(1) by (auto simp: event_init_def valuation_recorded_def rbind_eq_Inr split: if_splits)
  then show ?thesis
    using assms by (simp add: storable_def valuation_recorded_def storable_valuation_def)
qed

lemma scope_storable:
  assumes "event_init (le_sha env) (scope_registered_event env t scope) = Inr e"
    and "storable_scope scope" and "valid_datetime t"
  shows "storable (le_tz env) (le_sha env) e \<and> e = scope_registered_event env t scope"
proof -
  have "e = scope_registered_event env t scope"
    using assms(1) by (auto simp: event_init_def scope_registered_event_def rbind_eq_Inr split: if_splits)
  then show ?thesis using assms by (simp add: storable_def scope_registered_event_def)
qed

definition bookkeeping :: "ledger_event \<Rightarrow> bool" where
  "bookkeeping e \<longleftrightarrow> (case ev_body e of
     RiskScopeRegistered _ \<Rightarrow> True | PortfolioValuationRecorded _ \<Rightarrow> True | _ \<Rightarrow> False)"

lemma bookkeeping_events [simp]:
  "bookkeeping (valuation_recorded env vfp k v)" "bookkeeping (scope_registered_event env t scope)"
  by (simp_all add: bookkeeping_def valuation_recorded_def scope_registered_event_def)

lemma bookkeeping_not_intent: "bookkeeping e \<Longrightarrow> \<not> is_intent_body (ev_body e)"
  by (cases "ev_body e") (simp_all add: bookkeeping_def)

text \<open>The gate's approval of an intent on a loaded ledger.\<close>

definition approved_on ::
    "ledger_env \<Rightarrow> ledger_state \<Rightarrow> ledger_event list \<Rightarrow> order_intent \<Rightarrow> risk_scope \<Rightarrow> money \<Rightarrow> portfolio_valuation \<Rightarrow>
     portfolio_policy \<Rightarrow> datetime \<Rightarrow> portfolio_decision \<Rightarrow> bool" where
  "approved_on env s es i scope cash v policy t d \<longleftrightarrow>
     cash_reservation i = Inr cash \<and> rs_position_key scope = (oi_market_id i, oi_outcome_id i)
     \<and> evaluate_portfolio_risk (le_sha env) (le_event_fp env) (le_tz env) s es scope cash v policy t = Inr d
     \<and> pr_status d = RISK_APPROVED"

text \<open>
  The outcomes of the evaluation: a rejection records at most the valuation; an approval appends
  bookkeeping events and the intent to the ledger it was decided on.
\<close>

definition risk_outcome ::
    "ledger_env \<Rightarrow> risk_request \<Rightarrow> event_store \<Rightarrow> event_store \<Rightarrow> risk_commit_result \<Rightarrow> bool" where
  "risk_outcome env q st st' r \<longleftrightarrow> (\<exists>p p' es. load_all env st = Inr p \<and> load_all env st' = Inr p' \<and> appends p es p'
     \<and> st_checkpoints st' = st_checkpoints st
     \<and> (list_all bookkeeping es \<and> \<not> rc_committed r
        \<or> rc_committed r \<and> (\<exists>bs d cash. es = bs @ [intent_created q] \<and> list_all bookkeeping bs \<and> rc_decision r = Some d
             \<and> approved_on env (rp_state p) (rp_events p) (rq_intent q) (rq_scope q) cash (rq_valuation q)
                 (rq_policy q) (rq_evaluated_at q) d)
        \<or> es = [] \<and> rc_decision r = None))"

lemma risk_evaluate_ok:
  assumes run: "risk_evaluate env vfp now stamp adapter_stamp st k owner (decision_row st k) q = Inr (st', r)"
    and ok: "store_ok env st" and good: "good_request env q" and k: "k = oi_decision_id (rq_intent q)"
    and key: "rs_position_key (rq_scope q) = (oi_market_id (rq_intent q), oi_outcome_id (rq_intent q))"
    and claimed: "\<And>r. decision_row st k = Some r \<Longrightarrow> cr_status r = ''claimed''"
  shows "store_ok env st' \<and> risk_outcome env q st st' r \<and> rc_decision r \<noteq> None"
proof -
  obtain p cash d j h ve where p: "load_all env st = Inr p" and cash: "cash_reservation (rq_intent q) = Inr cash"
    and d: "evaluate_portfolio_risk (le_sha env) (le_event_fp env) (le_tz env) (rp_state p) (rp_events p)
      (rq_scope q) cash (rq_valuation q) (rq_policy q) (rq_evaluated_at q) = Inr d"
    and m: "encode_metadata (le_sha env)
      (Some (dict_update (case rq_metadata q of None \<Rightarrow> [] | Some m \<Rightarrow> m) (decision_metadata d))) = Inr (j, h)"
    and ve: "event_init (le_sha env) (valuation_recorded env vfp k (rq_valuation q)) = Inr ve"
    using run by (auto simp: risk_evaluate_def Let_def rbind_eq_Inr)
  have ve': "storable (le_tz env) (le_sha env) ve" "bookkeeping ve"
    using valuation_storable [OF ve] good by (auto simp: good_request_def)
  obtain meta where meta: "decode_metadata (le_sha env) j h = Inr meta"
    using metadata_read [OF m] stored_decision_proper [of "rq_metadata q" d] good by (auto simp: good_request_def)
  show ?thesis
  proof (cases "pr_status d = RISK_REJECTED")
    case True
    let ?late = "pr_reason d \<in> {Some STALE_VALUATION, Some VALUATION_MISMATCH}"
    obtain st1 a where put: "put_claim st (decision_row st k) k owner ''completed'' None (j, h) stamp = Inr st1"
      and rest: "(if ?late then rbind (current_append_result env st1 []) (\<lambda>a. Inr (st1, a))
        else append_events env now False st1 [ve]) = Inr (st', a)"
      and r: "r = \<lparr>rc_decision = Some d, rc_append = a, rc_committed = False\<rparr>"
      using run True by (auto simp: risk_evaluate_def Let_def p cash d m ve rbind_eq_Inr simp del: insert_iff)
    obtain cs c cl where cs: "st1 = st\<lparr>st_claims := cs\<rparr>" "distinct (map cr_decision_key cs)" "c \<in> set cs"
      "cr_status c = ''completed''" "cr_intent_id c = None" "cr_decision_key c = k"
      "claim_from_row (le_sha env) c = Inr cl"
      "\<forall>r \<in> set cs. r = c \<or> verify_claim env st () r = Inr ()"
      "\<forall>r \<in> set (st_claims st). cr_status r = ''claimed'' \<or> r \<in> set cs"
      by (rule put_claim_shape [OF put ok meta claimed])
    have "verify_claim env st () c = Inr ()" using cs(4,5,7) by (simp add: verify_claim_iff)
    then have ok1: "store_ok env st1"
      using cs(2,8,9) by (intro store_ok_claims [OF ok cs(1)]) (auto simp: list_all_iff)
    have p1: "load_all env st1 = Inr p" using p load_all_ledger [of st1 st env] cs(1) by simp
    show ?thesis
    proof (cases ?late)
      case True
      then have "st' = st1" using rest by (auto simp: rbind_eq_Inr)
      moreover have "risk_outcome env q st st1 r"
        unfolding risk_outcome_def
        by (intro exI [of _ p] exI [of _ "[]"]) (use p p1 cs(1) r in \<open>auto simp: appends_def\<close>)
      ultimately show ?thesis using ok1 r by simp
    next
      case False
      then have app: "append_events env now False st1 [ve] = Inr (st', a)" using rest by simp
      then have "store_ok env st'" using ok1 ve'(1) by (auto intro: append_events_ok)
      moreover obtain p' where "load_all env st' = Inr p'" "appends p [ve] p'"
        using append_events_load [OF app] ve' p1 by auto
      moreover have "st_checkpoints st' = st_checkpoints st"
        using app cs(1) by (auto simp: append_events_def rbind_eq_Inr)
      ultimately show ?thesis using p ve' r by (auto simp: risk_outcome_def intro!: exI [of _ "[ve]"])
    qed
  next
    case False
    then have approved: "approved_on env (rp_state p) (rp_events p) (rq_intent q) (rq_scope q) cash (rq_valuation q)
        (rq_policy q) (rq_evaluated_at q) d"
      using cash d key by (cases "pr_status d") (auto simp: approved_on_def)
    obtain st1 se st2 a where put: "put_claim st (decision_row st k) k owner ''committed''
        (Some (oi_intent_id (rq_intent q))) (j, h) stamp = Inr st1"
      and se: "(if scope_registered (rp_events p) (rq_scope q) then Inr []
        else rbind (event_init (le_sha env) (scope_registered_event env (rq_evaluated_at q) (rq_scope q))) (\<lambda>se. Inr [se]))
          = Inr se"
      and app: "append_events env now True st1 (se @ [ve, intent_created q]) = Inr (st2, a)"
      and att: "attach_adapter env adapter_stamp st2 (oi_intent_id (rq_intent q)) (rq_backend q) (rq_payload q) = Inr st'"
      and r: "r = \<lparr>rc_decision = Some d, rc_append = a, rc_committed = True\<rparr>"
      using run False by (auto simp: risk_evaluate_def Let_def p cash d m ve rbind_eq_Inr simp del: append.simps)
    obtain cs c cl where cs: "st1 = st\<lparr>st_claims := cs\<rparr>" "distinct (map cr_decision_key cs)" "c \<in> set cs"
      "cr_status c = ''committed''" "cr_intent_id c = Some (oi_intent_id (rq_intent q))" "cr_decision_key c = k"
      "claim_from_row (le_sha env) c = Inr cl"
      "\<forall>r \<in> set cs. r = c \<or> verify_claim env st () r = Inr ()"
      "\<forall>r \<in> set (st_claims st). cr_status r = ''claimed'' \<or> r \<in> set cs"
      by (rule put_claim_shape [OF put ok meta claimed])
    have se': "list_all (storable (le_tz env) (le_sha env)) se" "list_all bookkeeping se"
      using se good scope_storable [of env "rq_evaluated_at q" "rq_scope q"]
      by (auto simp: good_request_def rbind_eq_Inr split: if_splits)
    let ?es = "se @ [ve, intent_created q]"
    have intent: "ev_body (intent_created q) = OrderIntentCreated (rq_intent q)" by (simp add: intent_created_def)
    have storable: "list_all (storable (le_tz env) (le_sha env)) ?es"
      using se' ve' good by (simp add: good_request_def)
    have only: "list_all (\<lambda>f. f = intent_created q \<or> \<not> is_intent_body (ev_body f)) ?es"
      using se'(2) ve'(2) by (auto simp: list_all_iff bookkeeping_not_intent)
    have ok2: "store_ok env st2"
      by (rule commit_events_ok [OF app [unfolded cs(1)] ok storable _ intent only cs(2-5) _ cs(7)])
        (use cs(6,8,9) k in auto)
    obtain p2 where p2: "load_all env st2 = Inr p2" "appends p ?es p2"
      using append_events_load [OF app storable] p load_all_ledger [of st1 st env] cs(1) by auto
    then have "intent_created q \<in> set (rp_events p2)" by (auto simp: appends_def)
    moreover have "intents_unique (st_ledger st2)" using ok2 by (simp add: store_ok_def)
    ultimately have "intent_event (st_ledger st2) (oi_intent_id (rq_intent q)) \<noteq> None"
      using loaded_intent_found [OF p2(1) _ intent] by fastforce
    then obtain as where st': "store_ok env st'" "st' = st2\<lparr>st_adapters := as\<rparr>"
      using attach_adapter_ok [OF att ok2] good by (auto simp: good_request_def)
    then have "load_all env st' = Inr p2" using p2(1) load_all_ledger [of st' st2 env] by simp
    moreover have "st_checkpoints st' = st_checkpoints st"
      using app cs(1) st'(2) by (auto simp: append_events_def rbind_eq_Inr)
    moreover have "\<exists>bs. ?es = bs @ [intent_created q] \<and> list_all bookkeeping bs"
      using se' ve' by (intro exI [of _ "se @ [ve]"]) simp
    ultimately show ?thesis
      using p p2(2) r approved st'(1) unfolding risk_outcome_def
      by (intro conjI exI [of _ p] exI [of _ p2] exI [of _ ?es]) auto
  qed
qed

end
