(* ===== verification/Risk_Claims.thy ===== *)
theory Risk_Claims
  imports Risk_Store_Props
begin

text \<open>
  Runs of the portfolio-risk event store: it always opens again, and every buy in its ledger was
  approved by the portfolio gate on the ledger it was appended to.
\<close>

section \<open>One risk-checked commit\<close>

lemma appends_none [simp]: "appends p [] p"
  by (simp add: appends_def)

lemma unchanged_outcome:
  assumes "load_all env st = Inr p" and "load_all env st' = Inr p" and "st_checkpoints st' = st_checkpoints st"
    and "rc_decision r = None"
  shows "risk_outcome env q st st' r"
  unfolding risk_outcome_def using assms by (intro exI [of _ p] exI [of _ "[]"]) simp

lemma risk_commit_again_ok:
  assumes run: "risk_commit_again env stamp st c q = Inr (st', r)" and ok: "store_ok env st" and good: "good_request env q"
  shows "store_ok env st' \<and> risk_outcome env q st st' r"
proof -
  obtain row a where row: "intent_event (st_ledger st) (oi_intent_id (rq_intent q)) = Some row"
    and att: "attach_adapter env stamp st (oi_intent_id (rq_intent q)) (rq_backend q) (rq_payload q) = Inr st'"
    and r: "r = \<lparr>rc_decision = None, rc_append = a, rc_committed = True\<rparr>"
    using run by (auto simp: risk_commit_again_def rbind_eq_Inr result_simps split: if_splits option.splits)
  obtain as where st': "store_ok env st'" "st' = st\<lparr>st_adapters := as\<rparr>"
    using attach_adapter_ok [OF att ok] row good by (auto simp: good_request_def)
  obtain p where "load_all env st = Inr p" using ok by (auto simp: store_ok_def)
  moreover have "load_all env st' = load_all env st" by (rule load_all_ledger) (simp_all add: st'(2))
  ultimately show ?thesis using st' r by (auto intro!: unchanged_outcome [of env st p])
qed

lemma commit_risk_checked_ok:
  assumes run: "commit_risk_checked env vfp now stamp adapter_stamp st q = Inr (st', r)"
    and ok: "store_ok env st" and good: "good_request env q"
  shows "store_ok env st' \<and> risk_outcome env q st st' r"
proof -
  obtain p where p: "load_all env st = Inr p" using ok by (auto simp: store_ok_def)
  have key: "rs_position_key (rq_scope q) = (oi_market_id (rq_intent q), oi_outcome_id (rq_intent q))"
    using run by (auto simp: commit_risk_checked_def split: if_splits)
  obtain ow k j h where k: "require_text (rq_owner q) ''owner_id'' = Inr ow"
    "require_text (oi_decision_id (rq_intent q)) ''decision_id'' = Inr k"
    "encode_metadata (le_sha env) (rq_metadata q) = Inr (j, h)" "ensure_writable st = Inr ()"
    using run by (auto simp: commit_risk_checked_def rbind_eq_Inr split: if_splits)
  have k': "k = oi_decision_id (rq_intent q)"
    using require_text_InrD [OF k(2)] good by (simp add: good_request_def)
  note run' = run [unfolded commit_risk_checked_def key k rbind_simps prod.case]
  show ?thesis
  proof (cases "decision_row st k")
    case None
    then have "risk_evaluate env vfp now stamp adapter_stamp st k ow (decision_row st k) q = Inr (st', r)"
      using run' by (simp split: if_splits)
    from risk_evaluate_ok [OF this ok good k' key] show ?thesis by (simp add: None)
  next
    case (Some row)
    then obtain c where c: "claim_from_row (le_sha env) row = Inr c"
      using run' by (auto simp: rbind_eq_Inr split: if_splits)
    then have status: "dc_status c = cr_status row" by (auto simp: claim_from_row_def rbind_eq_Inr)
    consider (again) "risk_commit_again env adapter_stamp st c q = Inr (st', r)"
      | (finished) "st' = st" "rc_decision r = None"
      | (evaluate) "cr_status row = ''claimed''"
          "risk_evaluate env vfp now stamp adapter_stamp st k ow (decision_row st k) q = Inr (st', r)"
      using run' Some c status by (fastforce simp: rbind_eq_Inr split: if_splits)
    then show ?thesis
    proof cases
      case again
      then show ?thesis by (rule risk_commit_again_ok [OF _ ok good])
    next
      case finished
      then show ?thesis using ok p by (auto intro: unchanged_outcome)
    next
      case evaluate
      from risk_evaluate_ok [OF evaluate(2) ok good k' key] show ?thesis using Some evaluate(1) by simp
    qed
  qed
qed

section \<open>Loaded ledgers and their buys\<close>

lemma load_rows_replay:
  assumes "rfold (load_row env cps) p rows = Inr q"
  shows "\<exists>es. rp_events q = rp_events p @ es
    \<and> rfold (apply_event (le_sha env) (le_event_fp env)) (rp_state p) es = Inr (rp_state q)"
  using assms
proof (induction rows arbitrary: p)
  case (Cons r rows)
  then obtain m where m: "load_row env cps p r = Inr m" "rfold (load_row env cps) m rows = Inr q"
    by (auto simp: rbind_eq_Inr)
  from m(1) obtain e where e: "apply_event (le_sha env) (le_event_fp env) (rp_state p) e = Inr (rp_state m)"
    "rp_events m = rp_events p @ [e]"
    by (rule load_row_Inr) simp
  obtain es where "rp_events q = rp_events m @ es"
    "rfold (apply_event (le_sha env) (le_event_fp env)) (rp_state m) es = Inr (rp_state q)"
    using Cons.IH [OF m(2)] by blast
  then show ?case using e by (intro exI [of _ "e # es"]) simp
qed simp

lemma load_all_replay:
  assumes "load_all env st = Inr p"
  shows "replay (le_sha env) (le_event_fp env) ''USDC'' (rp_events p) = Inr (rp_state p)"
proof -
  obtain p0 where p0: "replay_start = Inr p0" "rfold (load_row env (st_checkpoints st)) p0 (st_ledger st) = Inr p"
    using assms unfolding load_all_Inr by (auto simp: rbind_eq_Inr)
  then show ?thesis
    using load_rows_replay [OF p0(2)] by (auto simp: replay_def replay_start_def rbind_eq_Inr)
qed

definition buy_of :: "ledger_event \<Rightarrow> order_intent option" where
  "buy_of e = (case ev_body e of OrderIntentCreated i \<Rightarrow> if oi_side i = BUY then Some i else None | _ \<Rightarrow> None)"

lemma bookkeeping_no_buy: "bookkeeping e \<Longrightarrow> buy_of e = None"
  by (cases "ev_body e") (simp_all add: bookkeeping_def buy_of_def)

lemma subseq_all: "subseq xs ys \<Longrightarrow> list_all P ys \<Longrightarrow> list_all P xs"
  by (auto simp: list_all_iff dest: subseq_elements)

section \<open>Commands\<close>

datatype risk_command =
    RiskCommit "int \<Rightarrow> string" string string risk_request
  | StoreCommand store_command

text \<open>The inherited operations, with the commit of an intent overridden.\<close>

fun risk_apply ::
    "ledger_env \<Rightarrow> (portfolio_valuation \<Rightarrow> string) \<Rightarrow> event_store \<Rightarrow> risk_command \<Rightarrow> event_store" where
  "risk_apply env vfp st (RiskCommit now stamp adapter_stamp q) =
     committed_store st (commit_risk_checked env vfp now stamp adapter_stamp st q)"
| "risk_apply env vfp st (StoreCommand (CommitIntent now stamp eid t i owner m)) =
     committed_store st (commit_non_buy_intent env now stamp st eid t i owner m)"
| "risk_apply env vfp st (StoreCommand c) = store_apply env st c"

fun good_risk_command :: "ledger_env \<Rightarrow> risk_command \<Rightarrow> bool" where
  "good_risk_command env (RiskCommit now stamp adapter_stamp q) = good_request env q"
| "good_risk_command env (StoreCommand c) = good_command env c"

definition risk_run ::
    "ledger_env \<Rightarrow> (portfolio_valuation \<Rightarrow> string) \<Rightarrow> event_store \<Rightarrow> risk_command list \<Rightarrow> event_store" where
  "risk_run env vfp st cs = foldl (risk_apply env vfp) st cs"

text \<open>Steps that extend the loaded history without a buy.\<close>

definition no_buys :: "ledger_env \<Rightarrow> event_store \<Rightarrow> event_store \<Rightarrow> bool" where
  "no_buys env st st' \<longleftrightarrow> (\<exists>p p' ys. load_all env st = Inr p \<and> load_all env st' = Inr p'
     \<and> rp_events p' = rp_events p @ ys \<and> list_all (\<lambda>e. buy_of e = None) ys)"

lemma no_buys_trans: "no_buys env s t \<Longrightarrow> no_buys env t u \<Longrightarrow> no_buys env s u"
proof -
  assume "no_buys env s t" and "no_buys env t u"
  obtain p q ys where p: "load_all env s = Inr p" "load_all env t = Inr q" "rp_events q = rp_events p @ ys"
    "list_all (\<lambda>e. buy_of e = None) ys"
    using \<open>no_buys env s t\<close> unfolding no_buys_def by blast
  obtain q' r zs where q': "load_all env t = Inr q'" "load_all env u = Inr r" "rp_events r = rp_events q' @ zs"
    "list_all (\<lambda>e. buy_of e = None) zs"
    using \<open>no_buys env t u\<close> unfolding no_buys_def by blast
  have "q' = q" using p(2) q'(1) by simp
  then have "rp_events r = rp_events p @ (ys @ zs)" "list_all (\<lambda>e. buy_of e = None) (ys @ zs)"
    using p(3,4) q'(3,4) by simp_all
  then show ?thesis unfolding no_buys_def using p(1) q'(2) by blast
qed

lemma event_of_unique: "list_all2 (event_of env) rows es \<Longrightarrow> list_all2 (event_of env) rows fs \<Longrightarrow> es = fs"
proof (induction rows arbitrary: es fs)
  case (Cons r rows)
  then show ?case by (auto simp: list_all2_Cons1 event_of_def)
qed simp

lemma same_ledger_no_buys:
  assumes "store_ok env st" and "store_ok env st'" and "st_ledger st' = st_ledger st"
  shows "no_buys env st st'"
proof -
  obtain p p' where p: "load_all env st = Inr p" "load_all env st' = Inr p'"
    using assms(1,2) by (auto simp: store_ok_def)
  then have "rp_events p' = rp_events p"
    unfolding load_all_Inr using assms(3) by (auto dest!: replayed_events intro: event_of_unique)
  then show ?thesis using p by (simp add: no_buys_def)
qed

lemma append_no_buys:
  assumes "append_events env now allow st es = Inr (st', a)" and "list_all (storable (le_tz env) (le_sha env)) es"
    and "list_all (\<lambda>e. buy_of e = None) es"
  shows "no_buys env st st'"
proof -
  obtain p q where "load_all env st = Inr p" "load_all env st' = Inr q" "appends p es q"
    using append_events_load [OF assms(1,2)] by blast
  then show ?thesis
    using assms(3) by (auto simp: no_buys_def appends_def intro: subseq_all)
qed

lemma append_many_no_buys:
  assumes "append_many env now st es = Inr (st', a)" and "list_all (storable (le_tz env) (le_sha env)) es"
  shows "no_buys env st st'"
proof -
  have run: "append_events env now False st es = Inr (st', a)"
    using assms(1) by (auto simp: append_many_def rbind_eq_Inr)
  then have "list_all (\<lambda>e. \<not> is_intent_body (ev_body e)) es"
    using append_no_intents by (fastforce simp: append_events_def rbind_eq_Inr)
  moreover have "buy_of e = None" if "\<not> is_intent_body (ev_body e)" for e
    using that by (cases "ev_body e") (simp_all add: buy_of_def)
  ultimately show ?thesis using append_no_buys [OF run assms(2)] by (simp add: list_all_iff)
qed

lemma commit_order_intent_shape:
  assumes "commit_order_intent env now stamp st eid t i owner m = Inr (st', a)"
  shows "st' = st \<or> (\<exists>cs. append_events env now True (st\<lparr>st_claims := cs\<rparr>)
    [\<lparr>ev_event_id = eid, ev_occurred_at = t, ev_body = OrderIntentCreated i\<rparr>] = Inr (st', a))"
  using assms
  by (auto simp: commit_order_intent_def commit_again_def insert_claim_def rbind_eq_Inr result_simps Let_def
      split: option.splits if_splits dest!: update_claim_Inr)

lemma risk_apply_ok:
  assumes ok: "store_ok env st" and good: "good_risk_command env c"
  shows "store_ok env (risk_apply env vfp st c)"
proof (cases c)
  case (RiskCommit now stamp adapter_stamp q)
  then show ?thesis
    using good commit_risk_checked_ok [OF _ ok] by (auto intro!: committed_storeI [of "store_ok env", OF ok])
next
  case (StoreCommand d)
  have step: "store_ok env (store_apply env st d)" using store_step_ok [OF ok] good StoreCommand by simp
  show ?thesis
  proof (cases d)
    case (CommitIntent now stamp eid t i owner m)
    have "store_ok env (committed_store st (commit_non_buy_intent env now stamp st eid t i owner m))"
      using step ok by (cases "oi_side i = BUY") (simp_all add: CommitIntent commit_non_buy_intent_def committed_store_def)
    then show ?thesis by (simp add: StoreCommand CommitIntent)
  qed (use step StoreCommand in simp_all)
qed

lemma store_apply_no_buys:
  assumes ok: "store_ok env st" and good: "good_command env c"
    and no_commit: "\<And>now stamp eid t i owner m. c = CommitIntent now stamp eid t i owner m \<Longrightarrow> oi_side i \<noteq> BUY"
  shows "no_buys env st (store_apply env st c)"
proof -
  have refl: "no_buys env s s" if "store_ok env s" for s by (rule same_ledger_no_buys [OF that that]) simp
  have ok': "store_ok env (store_apply env st c)" by (rule store_step_ok [OF ok good])
  have same: "no_buys env st (store_apply env st c)" if "st_ledger (store_apply env st c) = st_ledger st"
    by (rule same_ledger_no_buys [OF ok ok' that])
  show ?thesis
  proof (cases c)
    case (AppendMany now es)
    then show ?thesis
      using good refl [OF ok] append_many_no_buys
      by (auto intro!: committed_storeI [of "no_buys env st"])
  next
    case (CommitIntent now stamp eid t i owner m)
    let ?e = "\<lparr>ev_event_id = eid, ev_occurred_at = t, ev_body = OrderIntentCreated i\<rparr>"
    have "no_buys env st st'" if run: "commit_order_intent env now stamp st eid t i owner m = Inr (st', a)" for st' a
    proof (cases "st' = st")
      case False
      then obtain cs where app: "append_events env now True (st\<lparr>st_claims := cs\<rparr>) [?e] = Inr (st', a)"
        using commit_order_intent_shape [OF run] by blast
      have "no_buys env (st\<lparr>st_claims := cs\<rparr>) st'"
        using no_commit [OF CommitIntent] good
        by (intro append_no_buys [OF app]) (simp_all add: CommitIntent buy_of_def)
      moreover have "load_all env (st\<lparr>st_claims := cs\<rparr>) = load_all env st" by (rule load_all_ledger) simp_all
      ultimately show ?thesis by (simp add: no_buys_def)
    qed (use refl ok in simp)
    then show ?thesis using refl [OF ok] by (auto simp: CommitIntent intro!: committed_storeI [of "no_buys env st"])
  next
    case (ReconcileStartup now resolve)
    have "store_ok env (fst (reconcile_startup env now resolve st)) \<and> no_buys env st (fst (reconcile_startup env now resolve st))"
    proof (rule reconcile_startup_induct [of "\<lambda>s. store_ok env s \<and> no_buys env st s"])
      show "store_ok env st \<and> no_buys env st st" using ok refl by blast
      fix s backend ord es s' a
      assume s: "store_ok env s \<and> no_buys env st s" and es: "snd (resolve backend) ord = Inr es"
        and run: "append_many env now s es = Inr (s', a)"
      have storable: "list_all (storable (le_tz env) (le_sha env)) es" using good es by (auto simp: ReconcileStartup)
      show "store_ok env s' \<and> no_buys env st s'"
        using s append_many_ok [OF run _ storable] append_many_no_buys [OF run storable] no_buys_trans by blast
    qed
    then show ?thesis by (simp add: ReconcileStartup)
  next
    case (ClaimDecision now key owner m)
    show ?thesis
      by (rule same) (auto simp: ClaimDecision committed_store_def claim_decision_def insert_claim_def rbind_eq_Inr
          split: sum.split option.splits if_splits)
  next
    case (CompleteDecision now key owner)
    show ?thesis
      by (rule same) (auto simp: CompleteDecision committed_store_def complete_decision_without_intent_def rbind_eq_Inr
          split: sum.split option.splits if_splits dest!: update_claim_Inr)
  next
    case (SetAdapter now intent backend m)
    show ?thesis
      by (rule same) (auto simp: SetAdapter committed_store_def set_adapter_metadata_def rbind_eq_Inr
          split: sum.split option.splits if_splits)
  next
    case (Checkpoint now)
    show ?thesis
      by (rule same) (auto simp: Checkpoint committed_store_def create_checkpoint_def rbind_eq_Inr Let_def
          split: sum.split option.splits if_splits)
  qed
qed

section \<open>Every buy was approved\<close>

text \<open>Only a risk-checked commit brings a new buy into the ledger, its own, and only approved.\<close>

lemma risk_outcome_new_buy:
  assumes "risk_outcome env q st st' r" and "load_all env st = Inr p" and "load_all env st' = Inr p'"
    and "e \<in> set (rp_events p')" and "e \<notin> set (rp_events p)" and "buy_of e = Some i"
  shows "e = intent_created q \<and> (\<exists>cash d. approved_on env (rp_state p) (rp_events p) (rq_intent q) (rq_scope q)
    cash (rq_valuation q) (rq_policy q) (rq_evaluated_at q) d)"
proof -
  obtain es where es: "appends p es p'"
    "list_all bookkeeping es \<or> es = [] \<or> (\<exists>bs d cash. es = bs @ [intent_created q] \<and> list_all bookkeeping bs
      \<and> approved_on env (rp_state p) (rp_events p) (rq_intent q) (rq_scope q) cash (rq_valuation q) (rq_policy q)
          (rq_evaluated_at q) d)"
    using assms(1-3) unfolding risk_outcome_def by auto
  then have "e \<in> set es" using assms(4,5) by (auto simp: appends_def dest: subseq_elements)
  moreover have "\<not> bookkeeping e" using assms(6) bookkeeping_no_buy by fastforce
  ultimately show ?thesis using es(2) by (auto simp: list_all_iff)
qed

lemma risk_apply_new_buy:
  assumes ok: "store_ok env st" and good: "good_risk_command env c"
    and load: "load_all env st = Inr p" "load_all env (risk_apply env vfp st c) = Inr p'"
    and new: "e \<in> set (rp_events p')" "e \<notin> set (rp_events p)" and buy: "buy_of e = Some i"
  obtains now stamp adapter_stamp q cash d where "c = RiskCommit now stamp adapter_stamp q"
    "e = intent_created q" "approved_on env (rp_state p) (rp_events p) (rq_intent q) (rq_scope q)
      cash (rq_valuation q) (rq_policy q) (rq_evaluated_at q) d"
proof (cases c)
  case (RiskCommit now stamp adapter_stamp q)
  show ?thesis
  proof (cases "commit_risk_checked env vfp now stamp adapter_stamp st q")
    case (Inl x)
    then show ?thesis using RiskCommit load new by (simp add: committed_store_def)
  next
    case (Inr y)
    obtain st' r where y: "y = (st', r)" by (cases y)
    have "risk_outcome env q st st' r"
      using commit_risk_checked_ok [OF Inr [unfolded y] ok] good RiskCommit by simp
    moreover have "load_all env st' = Inr p'" using load(2) RiskCommit Inr y by (simp add: committed_store_def)
    ultimately show ?thesis using that [OF RiskCommit] risk_outcome_new_buy load(1) new buy by blast
  qed
next
  case (StoreCommand d)
  have "no_buys env st (risk_apply env vfp st c)"
  proof (cases "\<exists>now stamp eid t i owner m. d = CommitIntent now stamp eid t i owner m \<and> oi_side i = BUY")
    case True
    then have "risk_apply env vfp st c = st"
      using StoreCommand by (auto simp: commit_non_buy_intent_def committed_store_def)
    then show ?thesis using same_ledger_no_buys [OF ok ok] by simp
  next
    case False
    then have "risk_apply env vfp st c = store_apply env st d"
      using StoreCommand by (cases d) (auto simp: commit_non_buy_intent_def)
    moreover have "no_buys env st (store_apply env st d)"
      using False good StoreCommand by (intro store_apply_no_buys [OF ok]) auto
    ultimately show ?thesis by simp
  qed
  then show ?thesis using load new buy by (auto simp: no_buys_def list_all_iff)
qed

text \<open>The commit of a run that appended a buy, with the ledger it was decided on.\<close>

definition approved_in_run ::
    "ledger_env \<Rightarrow> (portfolio_valuation \<Rightarrow> string) \<Rightarrow> risk_command list \<Rightarrow> ledger_event \<Rightarrow> order_intent \<Rightarrow> bool" where
  "approved_in_run env vfp cs e i \<longleftrightarrow> (\<exists>cs1 now stamp adapter_stamp q cs2 p cash d.
     cs = cs1 @ RiskCommit now stamp adapter_stamp q # cs2
     \<and> load_all env (risk_run env vfp empty_store cs1) = Inr p
     \<and> e \<notin> set (rp_events p) \<and> e = intent_created q \<and> rq_intent q = i
     \<and> cash_reservation i = Inr cash
     \<and> rs_position_key (rq_scope q) = (oi_market_id i, oi_outcome_id i)
     \<and> evaluate_portfolio_risk (le_sha env) (le_event_fp env) (le_tz env) (rp_state p) (rp_events p)
         (rq_scope q) cash (rq_valuation q) (rq_policy q) (rq_evaluated_at q) = Inr d
     \<and> pr_status d = RISK_APPROVED)"

lemma approved_in_run_append: "approved_in_run env vfp cs e i \<Longrightarrow> approved_in_run env vfp (cs @ ds) e i"
  unfolding approved_in_run_def by (metis append.assoc append_Cons)

definition risk_step ::
    "ledger_env \<Rightarrow> (portfolio_valuation \<Rightarrow> string) \<Rightarrow> event_store \<Rightarrow> risk_command \<Rightarrow> unit + event_store" where
  "risk_step env vfp st c = Inr (risk_apply env vfp st c)"

interpretation risk: event_machine "risk_step env vfp" "good_risk_command env" "store_ok env" for env vfp
  by unfold_locales (auto simp: risk_step_def intro: risk_apply_ok)

lemma risk_run_steps: "rfold (risk_step env vfp) st cs = Inr (risk_run env vfp st cs)"
  by (induction cs arbitrary: st) (simp_all add: risk_run_def risk_step_def)

lemma risk_run_ok: "list_all (good_risk_command env) cs \<Longrightarrow> store_ok env (risk_run env vfp empty_store cs)"
  by (rule risk.run_inv [OF risk_run_steps empty_store_ok])

lemma risk_run_approved:
  assumes "list_all (good_risk_command env) cs" and "load_all env (risk_run env vfp empty_store cs) = Inr p"
    and "e \<in> set (rp_events p)" and "buy_of e = Some i"
  shows "approved_in_run env vfp cs e i"
  using assms
proof (induction cs arbitrary: p rule: rev_induct)
  case Nil
  then show ?case using empty_store_loads [of env] by (auto simp: risk_run_def)
next
  case (snoc c cs)
  let ?st = "risk_run env vfp empty_store cs"
  have good: "list_all (good_risk_command env) cs" "good_risk_command env c" using snoc.prems(1) by simp_all
  have ok: "store_ok env ?st" by (rule risk_run_ok [OF good(1)])
  then obtain m where m: "load_all env ?st = Inr m" by (auto simp: store_ok_def)
  have last: "load_all env (risk_apply env vfp ?st c) = Inr p" using snoc.prems(2) by (simp add: risk_run_def)
  show ?case
  proof (cases "e \<in> set (rp_events m)")
    case True
    then show ?thesis using snoc.IH [OF good(1) m] snoc.prems(4) approved_in_run_append by blast
  next
    case False
    obtain now stamp adapter_stamp q cash d where c: "c = RiskCommit now stamp adapter_stamp q"
      "e = intent_created q" "approved_on env (rp_state m) (rp_events m) (rq_intent q) (rq_scope q)
        cash (rq_valuation q) (rq_policy q) (rq_evaluated_at q) d"
      by (rule risk_apply_new_buy [OF ok good(2) m last snoc.prems(3) False snoc.prems(4)])
    moreover have "rq_intent q = i"
      using c(2) snoc.prems(4) by (simp add: buy_of_def intent_created_def split: if_splits)
    ultimately show ?thesis
      using m False unfolding approved_in_run_def approved_on_def by blast
  qed
qed

text \<open>C29. No buy bypasses the portfolio gate. After any run of the portfolio-risk store from a new
  database, risk-checked commits and every inherited operation included, the database passes its
  integrity check, and each buy intent of its ledger entered it through a risk-checked commit of the
  run: the event is the one that commit's request builds, it was not in the ledger before, and the gate
  approved the intent's own cash reservation with the scope, valuation, policy and evaluation time of
  that very request, on the ledger exactly as it loads before that commit. (Requests and inherited
  operations satisfy \<open>good_risk_command\<close>: what they append can be stored, decision identifiers have no
  surrounding blanks, metadata mappings have distinct keys.)\<close>

theorem every_buy_approved:
  assumes "list_all (good_risk_command env) cs"
  shows "verify_integrity env (risk_run env vfp empty_store cs) = Inr ()
    \<and> (\<exists>p. load_all env (risk_run env vfp empty_store cs) = Inr p
        \<and> (\<forall>e \<in> set (rp_events p). \<forall>i. buy_of e = Some i \<longrightarrow> (\<exists>cs1 now stamp adapter_stamp q cs2 p1 cash d.
             cs = cs1 @ RiskCommit now stamp adapter_stamp q # cs2
             \<and> load_all env (risk_run env vfp empty_store cs1) = Inr p1
             \<and> e \<notin> set (rp_events p1) \<and> e = intent_created q \<and> rq_intent q = i
             \<and> cash_reservation i = Inr cash
             \<and> rs_position_key (rq_scope q) = (oi_market_id i, oi_outcome_id i)
             \<and> evaluate_portfolio_risk (le_sha env) (le_event_fp env) (le_tz env) (rp_state p1) (rp_events p1)
                 (rq_scope q) cash (rq_valuation q) (rq_policy q) (rq_evaluated_at q) = Inr d
             \<and> pr_status d = RISK_APPROVED)))"
proof -
  have ok: "store_ok env (risk_run env vfp empty_store cs)" by (rule risk_run_ok [OF assms])
  then obtain p where "load_all env (risk_run env vfp empty_store cs) = Inr p" by (auto simp: store_ok_def)
  then show ?thesis
    using store_ok_verifies [OF ok] risk_run_approved [OF assms] unfolding approved_in_run_def by blast
qed

end
