(* ===== verification/Risk_Samples.thy ===== *)
theory Risk_Samples
  imports Risk_Claims Store_Samples Portfolio_Samples
begin

text \<open>A buy proposed to an account of one hundred dollars, for the properties of the risk store.\<close>

definition gated_request :: risk_request where
  "gated_request =
     \<lparr>rq_event_id = ''2'', rq_occurred_at = at_second 1, rq_intent = buy_intent 10 (1 / 10),
      rq_scope = sample_scope ''m'',
      rq_valuation = \<lparr>pf_positions = [], pf_equity = usdc 100, pf_assembled_at = at_second 1, pf_source = ''book''\<rparr>,
      rq_policy = sample_limits, rq_evaluated_at = at_second 1, rq_owner = ''w'', rq_metadata = None,
      rq_backend = Some ''paper'', rq_payload = Some []\<rparr>"

definition gated_commands :: "risk_command list" where
  "gated_commands =
     [StoreCommand (AppendMany sample_clock [open_event 100]),
      RiskCommit sample_clock ''t'' ''t'' gated_request,
      StoreCommand (Checkpoint ''t'')]"

lemma gated_request_good: "good_request sample_env gated_request"
proof -
  have "intent_created gated_request = order_event 10 (1 / 10)"
    by (simp add: intent_created_def gated_request_def order_event_fields)
  moreover have "strip (oi_decision_id (buy_intent 10 (1 / 10))) = oi_decision_id (buy_intent 10 (1 / 10))" by code_simp
  moreover have "storable_valuation (rq_valuation gated_request)" "storable_scope (sample_scope ''m'')"
    "valid_datetime (at_second 1)"
    by code_simp+
  ultimately show ?thesis
    using order_storable unfolding good_request_def
    by (simp add: gated_request_def proper_metadata_def)
qed

lemma gated_commands_good: "list_all (good_risk_command sample_env) gated_commands"
  using open_storable gated_request_good by (simp add: gated_commands_def)

lemma every_buy_approved_witness:
  "verify_integrity sample_env (risk_run sample_env (\<lambda>v. ''v'') empty_store gated_commands) = Inr ()"
  using every_buy_approved [OF gated_commands_good] by blast

end
