(* ===== verification/Temperature.thy ===== *)
theory Temperature
  imports Money "HOL-Library.Product_Lexorder"
begin

text \<open>
  \<open>weatherbot/markets/temperature.py\<close>: settlement buckets of whole degrees and the partition of a
  market's outcomes into buckets, with the classification of reported and forecast temperatures.
  Probabilities (binary floating point) and the regular expressions that read market questions are
  not modelled.
\<close>

section \<open>Buckets\<close>

datatype temperature_unit = FAHRENHEIT | CELSIUS

definition temperature_error :: "string \<Rightarrow> 'a result" where
  "temperature_error msg = Inl (TemperatureMarketError msg)"

text \<open>Of the single characters only \<^verbatim>\<open>f\<close> and \<^verbatim>\<open>c\<close> have these as upper case.\<close>

definition parse_unit :: "string \<Rightarrow> temperature_unit result" where
  "parse_unit s =
     (let t = strip s
      in if t \<in> {''F'', ''f''} then Inr FAHRENHEIT
         else if t \<in> {''C'', ''c''} then Inr CELSIUS
         else temperature_error ''unsupported temperature unit'')"

fun temperature_decimal :: "py_value \<Rightarrow> string \<Rightarrow> decimal result" where
  "temperature_decimal (PyDecimal x) label = Inr x"
| "temperature_decimal PyDecimalSpecial label = temperature_error (label @ '' must be finite'')"
| "temperature_decimal (PyInt n) label = Inr (of_int n)"
| "temperature_decimal (PyBool b) label = Inr (if b then 1 else 0)"
| "temperature_decimal (PyFloatSpecial _) label = temperature_error (label @ '' must be finite'')"
| "temperature_decimal (PyFloat _ s) label =
     (case parse_decimal s of
        None \<Rightarrow> temperature_error (label @ '' must be decimal'')
      | Some None \<Rightarrow> temperature_error (label @ '' must be finite'')
      | Some (Some x) \<Rightarrow> Inr x)"
| "temperature_decimal (PyStr s) label =
     (case parse_decimal s of
        None \<Rightarrow> temperature_error (label @ '' must be decimal'')
      | Some None \<Rightarrow> temperature_error (label @ '' must be finite'')
      | Some (Some x) \<Rightarrow> Inr x)"
| "temperature_decimal PyOther label = Inl (TypeError label)"

definition require_integral :: "decimal \<Rightarrow> string \<Rightarrow> decimal result" where
  "require_integral x label =
     (if x \<noteq> of_int (round_half_even x)
      then temperature_error (label @ '' must be a whole-degree settlement value'') else Inr x)"

record bucket =
  tb_unit :: temperature_unit
  tb_lower :: "decimal option"
  tb_upper :: "decimal option"

definition check_bound :: "decimal option \<Rightarrow> string \<Rightarrow> unit result" where
  "check_bound b label =
     (case b of None \<Rightarrow> Inr () | Some x \<Rightarrow> rbind (require_integral x label) (\<lambda>_. Inr ()))"

definition bucket_init :: "bucket \<Rightarrow> bucket result" where
  "bucket_init b =
     (if tb_lower b = None \<and> tb_upper b = None then temperature_error ''bucket requires at least one bound''
      else rbind (check_bound (tb_lower b) ''lower bound'') (\<lambda>_.
        rbind (check_bound (tb_upper b) ''upper bound'') (\<lambda>_.
        case (tb_lower b, tb_upper b) of
          (Some l, Some u) \<Rightarrow>
            if u < l then temperature_error ''bucket lower bound exceeds upper bound'' else Inr b
        | _ \<Rightarrow> Inr b)))"

definition lower_tail :: "py_value \<Rightarrow> temperature_unit \<Rightarrow> bucket result" where
  "lower_tail maximum u =
     rbind (temperature_decimal maximum ''maximum'') (\<lambda>x.
     bucket_init \<lparr>tb_unit = u, tb_lower = None, tb_upper = Some x\<rparr>)"

definition upper_tail :: "py_value \<Rightarrow> temperature_unit \<Rightarrow> bucket result" where
  "upper_tail minimum u =
     rbind (temperature_decimal minimum ''minimum'') (\<lambda>x.
     bucket_init \<lparr>tb_unit = u, tb_lower = Some x, tb_upper = None\<rparr>)"

definition bounded_bucket :: "py_value \<Rightarrow> py_value \<Rightarrow> temperature_unit \<Rightarrow> bucket result" where
  "bounded_bucket low high u =
     rbind (temperature_decimal low ''lower'') (\<lambda>l.
     rbind (temperature_decimal high ''upper'') (\<lambda>h.
     bucket_init \<lparr>tb_unit = u, tb_lower = Some l, tb_upper = Some h\<rparr>))"

definition is_lower_tail :: "bucket \<Rightarrow> bool" where
  "is_lower_tail b \<longleftrightarrow> tb_lower b = None"

definition is_upper_tail :: "bucket \<Rightarrow> bool" where
  "is_upper_tail b \<longleftrightarrow> tb_upper b = None"

definition is_exact :: "bucket \<Rightarrow> bool" where
  "is_exact b \<longleftrightarrow> tb_lower b \<noteq> None \<and> tb_lower b = tb_upper b"

definition continuous_lower :: "bucket \<Rightarrow> decimal option" where
  "continuous_lower b = map_option (\<lambda>x. dec_sub x (1 / 2)) (tb_lower b)"

definition continuous_upper :: "bucket \<Rightarrow> decimal option" where
  "continuous_upper b = map_option (\<lambda>x. dec_add x (1 / 2)) (tb_upper b)"

section \<open>Classification\<close>

definition contains_reported :: "bucket \<Rightarrow> py_value \<Rightarrow> bool result" where
  "contains_reported b v =
     rbind (temperature_decimal v ''reported temperature'') (\<lambda>d.
     rbind (require_integral d ''reported temperature'') (\<lambda>x.
     Inr ((case tb_lower b of None \<Rightarrow> True | Some l \<Rightarrow> \<not> x < l)
       \<and> (case tb_upper b of None \<Rightarrow> True | Some u \<Rightarrow> x \<le> u))))"

definition contains_forecast :: "bucket \<Rightarrow> py_value \<Rightarrow> bool result" where
  "contains_forecast b v =
     rbind (temperature_decimal v ''forecast temperature'') (\<lambda>forecast.
     rbind (quantize round_half_up 0 forecast) (\<lambda>reported. contains_reported b (PyDecimal reported)))"

section \<open>Partitions\<close>

text \<open>
  The key by which duplicates are found is the text of unit and bounds, here the bounds themselves;
  of two buckets that differ only in trailing zeros the code finds an overlap instead, the same class
  of error.
\<close>

definition bucket_key :: "bucket \<Rightarrow> temperature_unit \<times> decimal option \<times> decimal option" where
  "bucket_key b = (tb_unit b, tb_lower b, tb_upper b)"

definition bucket_sort_key :: "bucket \<Rightarrow> int \<times> decimal" where
  "bucket_sort_key b = (case tb_lower b of None \<Rightarrow> (0, 0) | Some l \<Rightarrow> (1, l))"

definition check_neighbours :: "bucket \<Rightarrow> bucket \<Rightarrow> unit result" where
  "check_neighbours previous current =
     (case (tb_upper previous, tb_lower current) of
        (Some u, Some l) \<Rightarrow>
          (let expected = dec_add u 1
           in if l < expected then temperature_error ''temperature buckets overlap''
              else if expected < l then temperature_error ''temperature buckets leave a gap''
              else Inr ())
      | _ \<Rightarrow> temperature_error ''tail bucket appears inside the outcome set'')"

fun check_pairs :: "bucket list \<Rightarrow> unit result" where
  "check_pairs (a # b # bs) = rbind (check_neighbours a b) (\<lambda>_. check_pairs (b # bs))"
| "check_pairs _ = Inr ()"

definition partition_init :: "bucket list \<Rightarrow> bucket list result" where
  "partition_init bs =
     (if length bs < 2 then temperature_error ''temperature market requires at least two buckets''
      else if card (tb_unit ` set bs) \<noteq> 1 then temperature_error ''temperature market mixes units''
      else if length (filter is_lower_tail bs) \<noteq> 1
      then temperature_error ''temperature market requires exactly one lower tail''
      else if length (filter is_upper_tail bs) \<noteq> 1
      then temperature_error ''temperature market requires exactly one upper tail''
      else if \<not> distinct (map bucket_key bs)
      then temperature_error ''temperature market contains duplicate buckets''
      else
        let ordered = sort_key bucket_sort_key bs
        in if \<not> is_lower_tail (hd ordered) \<or> \<not> is_upper_tail (last ordered)
           then temperature_error ''temperature tails do not bound the full outcome set''
           else rbind (check_pairs ordered) (\<lambda>_. Inr ordered))"

text \<open>\<^verbatim>\<open>[bucket for bucket in self.buckets if bucket.contains_reported(value)]\<close>.\<close>

definition add_match :: "py_value \<Rightarrow> bucket list \<Rightarrow> bucket \<Rightarrow> bucket list result" where
  "add_match v acc b = rbind (contains_reported b v) (\<lambda>c. Inr (if c then acc @ [b] else acc))"

definition bucket_for_reported :: "bucket list \<Rightarrow> py_value \<Rightarrow> bucket result" where
  "bucket_for_reported p v =
     rbind (rfold (add_match v) [] p) (\<lambda>matches.
     case matches of
       [b] \<Rightarrow> Inr b
     | _ \<Rightarrow> temperature_error ''reported temperature maps to several or no buckets'')"

definition bucket_for_forecast :: "bucket list \<Rightarrow> py_value \<Rightarrow> bucket result" where
  "bucket_for_forecast p v =
     rbind (temperature_decimal v ''forecast temperature'') (\<lambda>forecast.
     rbind (quantize round_half_up 0 forecast) (\<lambda>reported. bucket_for_reported p (PyDecimal reported)))"

end
