(* ===== verification/Temperature_Props.thy ===== *)
theory Temperature_Props
  imports Temperature
begin

text \<open>
  A valid partition puts every whole degree in exactly one bucket, and every forecast in the bucket
  whose continuous interval holds it, up to the side on which a half degree below zero falls.
\<close>

section \<open>Buckets as intervals\<close>

definition in_bucket :: "bucket \<Rightarrow> rat \<Rightarrow> bool" where
  "in_bucket b x \<longleftrightarrow> (case tb_lower b of None \<Rightarrow> True | Some l \<Rightarrow> l \<le> x)
     \<and> (case tb_upper b of None \<Rightarrow> True | Some u \<Rightarrow> x \<le> u)"

text \<open>A bucket its constructor accepts, with bounds of at most 27 digits.\<close>

definition bound_ok :: "decimal option \<Rightarrow> bool" where
  "bound_ok b = (case b of None \<Rightarrow> True | Some x \<Rightarrow> \<bar>x\<bar> < 10 ^ 27)"

definition bucket_ok :: "bucket \<Rightarrow> bool" where
  "bucket_ok b \<longleftrightarrow> bucket_init b = Inr b \<and> bound_ok (tb_lower b) \<and> bound_ok (tb_upper b)"

lemma round_half_even_int [simp]: "round_half_even (of_int n) = n"
  by (rule half_even.rnd_of_int)

lemma require_integral_Inr: "require_integral x label = Inr y \<longleftrightarrow> y = x \<and> (\<exists>n. x = of_int n)"
  by (auto simp: require_integral_def temperature_error_def)

lemma bucket_okD:
  assumes "bucket_ok b"
  shows "tb_lower b = Some l \<Longrightarrow> \<exists>n. l = of_int n \<and> \<bar>n\<bar> < 10 ^ 27"
    and "tb_upper b = Some u \<Longrightarrow> \<exists>n. u = of_int n \<and> \<bar>n\<bar> < 10 ^ 27"
    and "tb_lower b = Some l \<Longrightarrow> tb_upper b = Some u \<Longrightarrow> l \<le> u"
proof -
  have small: "\<bar>n\<bar> < 10 ^ 27" if "\<bar>of_int n :: rat\<bar> < 10 ^ 27" for n :: int
    using that by (metis of_int_abs of_int_less_iff of_int_numeral of_int_power)
  show "\<exists>n. l = of_int n \<and> \<bar>n\<bar> < 10 ^ 27" if "tb_lower b = Some l"
    using assms that
    by (auto simp: bucket_ok_def bucket_init_def bound_ok_def check_bound_def rbind_eq_Inr require_integral_Inr
        temperature_error_def intro: small)
  show "\<exists>n. u = of_int n \<and> \<bar>n\<bar> < 10 ^ 27" if "tb_upper b = Some u"
    using assms that
    by (auto simp: bucket_ok_def bucket_init_def bound_ok_def check_bound_def rbind_eq_Inr require_integral_Inr
        temperature_error_def intro: small split: if_splits)
  show "l \<le> u" if "tb_lower b = Some l" "tb_upper b = Some u"
    using assms that
    by (auto simp: bucket_ok_def bucket_init_def rbind_eq_Inr temperature_error_def split: if_splits)
qed

lemma pow10_tenth: "pow10 (- 1) = 1 / 10" "pow10 0 = 1"
  by (simp_all add: pow10_def)

text \<open>Multiples of a tenth below the context's precision are left alone.\<close>

lemma tenths_exact:
  assumes "x = of_int n / 10" and "\<bar>n\<bar> \<le> 10 ^ 28"
  shows "ctx x = x"
proof (rule ctx_exact)
  have "\<bar>n\<bar> \<le> 10 ^ 28 \<and> x = of_int n * pow10 (- 1)" using assms by (simp add: pow10_tenth)
  then show "fits28 x" unfolding fits28_def by blast
qed

lemma degree_sum:
  assumes "\<bar>n\<bar> < 10 ^ 27"
  shows "dec_add (of_int n) 1 = of_int (n + 1)"
    and "dec_add (of_int n) (1 / 2) = of_int n + 1 / 2"
    and "dec_sub (of_int n) (1 / 2) = of_int n - 1 / 2"
  unfolding dec_add_def dec_sub_def
  by (rule tenths_exact [of _ "10 * (n + 1)", THEN trans] tenths_exact [of _ "10 * n + 5", THEN trans]
      tenths_exact [of _ "10 * n - 5", THEN trans]; use assms in \<open>simp add: field_simps\<close>)+

section \<open>Chains of neighbours\<close>

lemma check_neighbours_Inr:
  assumes "check_neighbours a b = Inr ()" and "bucket_ok a"
  obtains u where "tb_upper a = Some (of_int u)" "tb_lower b = Some (of_int (u + 1))"
proof -
  obtain u l where u: "tb_upper a = Some u" "tb_lower b = Some l"
    and l: "\<not> l < dec_add u 1" "\<not> dec_add u 1 < l"
    using assms(1)
    by (auto simp: check_neighbours_def temperature_error_def Let_def split: option.splits if_splits)
  obtain n where n: "u = of_int n" "\<bar>n\<bar> < 10 ^ 27" using bucket_okD(2) [OF assms(2) u(1)] by blast
  then show ?thesis using that [of n] u l degree_sum [of n] by simp
qed

lemma chain_below:
  assumes "check_pairs (b # bs) = Inr ()" and "list_all bucket_ok (b # bs)"
    and "tb_lower b = Some l" and "x < l"
  shows "list_all (\<lambda>c. \<not> in_bucket c x) (b # bs)"
  using assms
proof (induction bs arbitrary: b l)
  case (Cons c bs)
  have pair: "check_neighbours b c = Inr ()" "check_pairs (c # bs) = Inr ()"
    using Cons.prems(1) by (auto simp: rbind_eq_Inr)
  obtain u where u: "tb_upper b = Some (of_int u)" "tb_lower c = Some (of_int (u + 1))"
    using pair(1) Cons.prems(2) by (auto elim: check_neighbours_Inr)
  have "l \<le> of_int u" using bucket_okD(3) [of b l] Cons.prems(2,3) u(1) by simp
  then have "x < of_int (u + 1)" using Cons.prems(4) by simp
  then have "list_all (\<lambda>c. \<not> in_bucket c x) (c # bs)"
    using Cons.IH [OF pair(2) _ u(2)] Cons.prems(2) by simp
  then show ?case using Cons.prems(3,4) by (simp add: in_bucket_def)
qed (simp add: in_bucket_def)

lemma chain_covers:
  assumes "check_pairs (b # bs) = Inr ()" and "list_all bucket_ok (b # bs)"
    and "is_upper_tail (last (b # bs))" and "\<And>l. tb_lower b = Some l \<Longrightarrow> l \<le> of_int n"
  shows "\<exists>before c after. b # bs = before @ c # after \<and> in_bucket c (of_int n)
    \<and> list_all (\<lambda>c. \<not> in_bucket c (of_int n)) (before @ after)"
  using assms
proof (induction bs arbitrary: b)
  case Nil
  then have "in_bucket b (of_int n)" by (auto simp: in_bucket_def is_upper_tail_def split: option.split)
  then show ?case by (intro exI [of _ "[]"] exI [of _ b]) simp
next
  case (Cons c bs)
  have pair: "check_neighbours b c = Inr ()" "check_pairs (c # bs) = Inr ()"
    using Cons.prems(1) by (auto simp: rbind_eq_Inr)
  obtain u where u: "tb_upper b = Some (of_int u)" "tb_lower c = Some (of_int (u + 1))"
    using pair(1) Cons.prems(2) by (auto elim: check_neighbours_Inr)
  show ?case
  proof (cases "n \<le> u")
    case True
    then have "in_bucket b (of_int n)" using Cons.prems(4) u(1) by (auto simp: in_bucket_def split: option.split)
    moreover have "list_all (\<lambda>c. \<not> in_bucket c (of_int n)) (c # bs)"
      using True chain_below [OF pair(2) _ u(2)] Cons.prems(2) by simp
    ultimately show ?thesis by (intro exI [of _ "[]"] exI [of _ b] exI [of _ "c # bs"]) simp
  next
    case False
    then have "\<And>l. tb_lower c = Some l \<Longrightarrow> l \<le> of_int n" using u(2) by (metis of_int_le_iff option.inject zless_imp_add1_zle not_le)
    then obtain before d after where d: "c # bs = before @ d # after" "in_bucket d (of_int n)"
      "list_all (\<lambda>c. \<not> in_bucket c (of_int n)) (before @ after)"
      using Cons.IH [OF pair(2)] Cons.prems(2,3) by auto
    moreover have "\<not> in_bucket b (of_int n)" using False u(1) by (simp add: in_bucket_def)
    ultimately show ?thesis by (intro exI [of _ "b # before"] exI [of _ d] exI [of _ after]) simp
  qed
qed

section \<open>Partitions\<close>

lemma contains_reported_int:
  "contains_reported b (PyInt n) = Inr (in_bucket b (of_int n))"
  "contains_reported b (PyDecimal (of_int n)) = Inr (in_bucket b (of_int n))"
  by (auto simp: contains_reported_def require_integral_def in_bucket_def not_less split: option.split)

lemma matches_filter:
  assumes "\<And>b. contains_reported b v = Inr (P b)"
  shows "rfold (add_match v) acc bs = Inr (acc @ filter P bs)"
  by (induction bs arbitrary: acc) (simp_all add: add_match_def assms)

lemma partition_ordered:
  assumes "partition_init bs = Inr p"
  shows "p = sort_key bucket_sort_key bs" and "check_pairs p = Inr ()" and "is_lower_tail (hd p)"
    and "is_upper_tail (last p)" and "p \<noteq> []"
proof -
  have "2 \<le> length bs" using assms by (auto simp: partition_init_def temperature_error_def split: if_splits)
  then have "sort_key bucket_sort_key bs \<noteq> []" by (metis length_sort list.size(3) not_numeral_le_zero)
  moreover have p: "p = sort_key bucket_sort_key bs" "check_pairs p = Inr ()" "is_lower_tail (hd p)" "is_upper_tail (last p)"
    using assms by (auto simp: partition_init_def temperature_error_def rbind_eq_Inr Let_def split: if_splits)
  ultimately show "p \<noteq> []" by simp
  show "p = sort_key bucket_sort_key bs" "check_pairs p = Inr ()" "is_lower_tail (hd p)" "is_upper_tail (last p)"
    by (rule p)+
qed

lemma bucket_for_degree:
  assumes "partition_init bs = Inr p" and "list_all bucket_ok bs"
    and "\<And>b. contains_reported b v = Inr (in_bucket b (of_int n))"
  shows "\<exists>b \<in> set bs. bucket_for_reported p v = Inr b \<and> in_bucket b (of_int n)
    \<and> (\<forall>c \<in> set bs. in_bucket c (of_int n) \<longrightarrow> c = b)"
proof -
  note p = partition_ordered [OF assms(1)]
  obtain b ps where ps: "p = b # ps" using p(5) by (cases p) auto
  have same: "set p = set bs" using p(1) by simp
  then have "list_all bucket_ok p" using assms(2) by (simp add: list_all_iff)
  then obtain before c after where c: "p = before @ c # after" "in_bucket c (of_int n)"
    and none: "list_all (\<lambda>c. \<not> in_bucket c (of_int n)) (before @ after)"
    using chain_covers [of b ps n] p(2-4) by (auto simp: ps is_lower_tail_def)
  have "filter (\<lambda>b. in_bucket b (of_int n)) p = [c]"
    using c none by (simp add: filter_empty_conv list_all_iff)
  then have "bucket_for_reported p v = Inr c"
    using matches_filter [of v "\<lambda>b. in_bucket b (of_int n)" "[]" p] assms(3) by (simp add: bucket_for_reported_def)
  then show ?thesis using c none same by (intro bexI [of _ c]) (auto simp: list_all_iff)
qed

section \<open>Forecasts\<close>

lemma half_up_bounds:
  "0 \<le> x \<Longrightarrow> of_int (round_half_up x) - 1 / 2 \<le> x \<and> x < of_int (round_half_up x) + 1 / 2"
  "x < 0 \<Longrightarrow> of_int (round_half_up x) - 1 / 2 < x \<and> x \<le> of_int (round_half_up x) + 1 / 2"
proof -
  show "of_int (round_half_up x) - 1 / 2 \<le> x \<and> x < of_int (round_half_up x) + 1 / 2" if "0 \<le> x"
    using that floor_correct [of "x + 1 / 2"] by (simp add: round_half_up_def field_simps)
  show "of_int (round_half_up x) - 1 / 2 < x \<and> x \<le> of_int (round_half_up x) + 1 / 2" if "x < 0"
    using that floor_correct [of "1 / 2 - x"] by (simp add: round_half_up_def field_simps)
qed

lemma half_up_quantized:
  assumes "\<bar>x\<bar> < 10 ^ 26"
  shows "quantize round_half_up 0 x = Inr (of_int (round_half_up x))"
proof -
  have "\<bar>of_int (round_half_up x)\<bar> < (10 ^ 28 :: rat)"
    using assms half_up_bounds [of x] by (cases "0 \<le> x") auto
  then have "\<bar>round_half_up x\<bar> < 10 ^ 28"
    by (metis of_int_abs of_int_less_iff of_int_numeral of_int_power)
  then show ?thesis by (simp add: quantize_def)
qed

lemma continuous_bounds:
  assumes "bucket_ok b"
  shows "continuous_lower b = map_option (\<lambda>l. l - 1 / 2) (tb_lower b)"
    and "continuous_upper b = map_option (\<lambda>u. u + 1 / 2) (tb_upper b)"
  using bucket_okD(1,2) [OF assms] degree_sum(2,3)
  by (cases "tb_lower b"; cases "tb_upper b"; fastforce simp: continuous_lower_def continuous_upper_def)+

text \<open>The documented interval of a bucket, \<open>[lower - 1/2, upper + 1/2)\<close>.\<close>

definition documented :: "bucket \<Rightarrow> decimal \<Rightarrow> bool" where
  "documented b x \<longleftrightarrow> (case continuous_lower b of None \<Rightarrow> True | Some l \<Rightarrow> l \<le> x)
     \<and> (case continuous_upper b of None \<Rightarrow> True | Some u \<Rightarrow> x < u)"

lemma documented_floor:
  assumes "bucket_ok b"
  shows "documented b x \<longleftrightarrow> in_bucket b (of_int \<lfloor>x + 1 / 2\<rfloor>)"
proof -
  have le: "of_int n - 1 / 2 \<le> x \<longleftrightarrow> (of_int n :: rat) \<le> of_int \<lfloor>x + 1 / 2\<rfloor>" for n
    by (simp add: le_floor_iff field_simps)
  have less: "x < of_int n + 1 / 2 \<longleftrightarrow> (of_int \<lfloor>x + 1 / 2\<rfloor> :: rat) \<le> of_int n" for n
    by (simp add: floor_le_iff field_simps)
  show ?thesis
    using bucket_okD(1,2) [OF assms] le less
    by (cases "tb_lower b"; cases "tb_upper b")
      (fastforce simp: documented_def in_bucket_def continuous_bounds [OF assms])+
qed

lemma half_up_floor:
  assumes "0 \<le> x \<or> x + 1 / 2 \<noteq> of_int \<lfloor>x + 1 / 2\<rfloor>"
  shows "round_half_up x = \<lfloor>x + 1 / 2\<rfloor>"
proof (cases "0 \<le> x")
  case False
  then have "of_int \<lfloor>x + 1 / 2\<rfloor> < x + 1 / 2"
    using assms of_int_floor_le [of "x + 1 / 2"] by (metis less_le)
  then have "\<lfloor>1 / 2 - x\<rfloor> = - \<lfloor>x + 1 / 2\<rfloor>"
    using floor_correct [of "x + 1 / 2"] by (simp add: floor_eq_iff)
  then show ?thesis using False by (simp add: round_half_up_def)
qed (simp add: round_half_up_def)

lemma half_up_tie:
  assumes "x < 0" and "x + 1 / 2 = of_int \<lfloor>x + 1 / 2\<rfloor>"
  shows "(of_int (round_half_up x) :: rat) = x - 1 / 2"
proof -
  define n where "n = \<lfloor>x + 1 / 2\<rfloor>"
  have x: "x = of_int n - 1 / 2" using assms(2) unfolding n_def by linarith
  have "\<lfloor>1 / 2 - x\<rfloor> = 1 - n" unfolding x by (simp add: floor_eq_iff)
  then show ?thesis using assms(1) x by (simp add: round_half_up_def)
qed

text \<open>C40. The buckets of a valid partition, with whole bounds of at most 27 digits, divide the
  temperatures. Every whole degree lies in exactly one of them, the one a reported temperature is
  mapped to. Every temperature lies in exactly one of the documented intervals
  \<open>[lower - 1/2, upper + 1/2)\<close>, and a forecast below $10^{26}$ in size is mapped to the bucket of its
  interval, with one exception: a forecast of exactly half a degree below zero is mapped to the bucket
  of the whole degree under it, whose interval it may only touch.\<close>

theorem partition_divides:
  assumes "partition_init bs = Inr p" and "list_all bucket_ok bs" and "\<bar>x\<bar> < 10 ^ 26"
  shows "(\<exists>b \<in> set bs. bucket_for_reported p (PyInt n) = Inr b \<and> in_bucket b (of_int n)
      \<and> (\<forall>c \<in> set bs. in_bucket c (of_int n) \<longrightarrow> c = b))
    \<and> (\<exists>b \<in> set bs. documented b x \<and> (\<forall>c \<in> set bs. documented c x \<longrightarrow> c = b)
      \<and> (0 \<le> x \<or> x + 1 / 2 \<noteq> of_int \<lfloor>x + 1 / 2\<rfloor> \<longrightarrow> bucket_for_forecast p (PyDecimal x) = Inr b))
    \<and> (x < 0 \<and> x + 1 / 2 = of_int \<lfloor>x + 1 / 2\<rfloor> \<longrightarrow>
      (\<exists>b \<in> set bs. bucket_for_forecast p (PyDecimal x) = Inr b \<and> in_bucket b (x - 1 / 2)))"
proof (intro conjI)
  show "\<exists>b \<in> set bs. bucket_for_reported p (PyInt n) = Inr b \<and> in_bucket b (of_int n)
      \<and> (\<forall>c \<in> set bs. in_bucket c (of_int n) \<longrightarrow> c = b)"
    by (rule bucket_for_degree [OF assms(1,2) contains_reported_int(1)])
  note degree = bucket_for_degree [OF assms(1,2) contains_reported_int(2)]
  have forecast: "bucket_for_forecast p (PyDecimal x) = bucket_for_reported p (PyDecimal (of_int (round_half_up x)))"
    by (simp add: bucket_for_forecast_def half_up_quantized [OF assms(3)])
  have ok: "bucket_ok b" if "b \<in> set bs" for b using assms(2) that by (simp add: list_all_iff)
  obtain b where b: "b \<in> set bs" "bucket_for_reported p (PyDecimal (of_int \<lfloor>x + 1 / 2\<rfloor>)) = Inr b"
    "in_bucket b (of_int \<lfloor>x + 1 / 2\<rfloor>)" "\<forall>c \<in> set bs. in_bucket c (of_int \<lfloor>x + 1 / 2\<rfloor>) \<longrightarrow> c = b"
    using degree [of "\<lfloor>x + 1 / 2\<rfloor>"] by blast
  have "bucket_for_forecast p (PyDecimal x) = Inr b" if "0 \<le> x \<or> x + 1 / 2 \<noteq> of_int \<lfloor>x + 1 / 2\<rfloor>"
    unfolding forecast half_up_floor [OF that] by (rule b(2))
  then show "\<exists>b \<in> set bs. documented b x \<and> (\<forall>c \<in> set bs. documented c x \<longrightarrow> c = b)
      \<and> (0 \<le> x \<or> x + 1 / 2 \<noteq> of_int \<lfloor>x + 1 / 2\<rfloor> \<longrightarrow> bucket_for_forecast p (PyDecimal x) = Inr b)"
    using b(1,3,4) documented_floor [OF ok] by (intro bexI [of _ b] conjI ballI impI) blast+
  show "x < 0 \<and> x + 1 / 2 = of_int \<lfloor>x + 1 / 2\<rfloor> \<longrightarrow>
      (\<exists>b \<in> set bs. bucket_for_forecast p (PyDecimal x) = Inr b \<and> in_bucket b (x - 1 / 2))"
  proof
    assume "x < 0 \<and> x + 1 / 2 = of_int \<lfloor>x + 1 / 2\<rfloor>"
    then have "(of_int (round_half_up x) :: rat) = x - 1 / 2" using half_up_tie by blast
    then show "\<exists>b \<in> set bs. bucket_for_forecast p (PyDecimal x) = Inr b \<and> in_bucket b (x - 1 / 2)"
      using degree [of "round_half_up x"] unfolding forecast by auto
  qed
qed

section \<open>A concrete market\<close>

definition frost_market :: "bucket list" where
  "frost_market =
     [\<lparr>tb_unit = CELSIUS, tb_lower = Some 1, tb_upper = None\<rparr>,
      \<lparr>tb_unit = CELSIUS, tb_lower = None, tb_upper = Some (- 1)\<rparr>,
      \<lparr>tb_unit = CELSIUS, tb_lower = Some 0, tb_upper = Some 0\<rparr>]"

lemma frost_market_valid:
  "\<exists>p. partition_init frost_market = Inr p"
  "list_all bucket_ok frost_market"
proof -
  have "is_ok (partition_init frost_market)" by code_simp
  then show "\<exists>p. partition_init frost_market = Inr p" by (simp add: is_ok_iff)
  show "list_all bucket_ok frost_market" by code_simp
qed

lemma partition_divides_witness:
  "\<exists>p b. partition_init frost_market = Inr p \<and> bucket_for_forecast p (PyDecimal (3 / 4)) = Inr b
    \<and> b \<in> set frost_market \<and> documented b (3 / 4)"
proof -
  obtain p where p: "partition_init frost_market = Inr p" using frost_market_valid(1) by blast
  then show ?thesis using partition_divides [OF p frost_market_valid(2), of "3 / 4" 0] by auto
qed

text \<open>The interval that carries the probability of a bucket is documented as closed below and open
  above; a forecast of half a degree below zero is mapped to the bucket that ends at minus one.\<close>

theorem half_degree_below_zero:
  "\<exists>p. partition_init frost_market = Inr p
    \<and> bucket_for_forecast p (PyDecimal (- 1 / 2)) = Inr \<lparr>tb_unit = CELSIUS, tb_lower = None, tb_upper = Some (- 1)\<rparr>
    \<and> continuous_upper \<lparr>tb_unit = CELSIUS, tb_lower = None, tb_upper = Some (- 1)\<rparr> = Some (- 1 / 2)"
proof -
  let ?p = "case partition_init frost_market of Inr p \<Rightarrow> p | Inl _ \<Rightarrow> []"
  have "bucket_for_forecast ?p (PyDecimal (- 1 / 2)) = Inr \<lparr>tb_unit = CELSIUS, tb_lower = None, tb_upper = Some (- 1)\<rparr>"
    by code_simp
  moreover have "continuous_upper \<lparr>tb_unit = CELSIUS, tb_lower = None, tb_upper = Some (- 1)\<rparr> = Some (- 1 / 2)"
    by code_simp
  moreover obtain p where "partition_init frost_market = Inr p" using frost_market_valid(1) by blast
  ultimately show ?thesis by auto
qed

end
