(* ===== verification/Paper.thy ===== *)
theory Paper
  imports Risk_Store Quoting
begin

text \<open>
  \<open>weatherbot/paper/model.py\<close> and \<open>execution.py\<close>: the execution plan of a paper order, how it is
  taken from one order book inside the limits of the order and of the cost policy, its stored
  rendering, and the adapter that turns it into ledger events and resumes it after a crash. SHA-256
  is the parameter \<open>sha\<close>. The encoder of metadata refuses binary floating-point numbers, so the
  reader of payloads leaves them out.
\<close>

section \<open>The plan\<close>

datatype paper_status = FULL_FILL | PARTIAL_FILL | PLAN_REJECTED

record paper_level =
  pl_price :: decimal
  pl_quantity :: decimal

record paper_plan =
  pe_intent_id :: string
  pe_status :: paper_status
  pe_backend_order_id :: string
  pe_submitted_at :: datetime
  pe_book_hash :: string
  pe_book_observed_at :: datetime
  pe_condition_id :: string
  pe_token_id :: string
  pe_requested :: decimal
  pe_filled :: decimal
  pe_average :: "decimal option"
  pe_worst :: "decimal option"
  pe_gross :: money
  pe_fee :: money
  pe_levels :: "paper_level list"
  pe_reason :: string

definition paper_level_init :: "decimal \<Rightarrow> decimal \<Rightarrow> paper_level result" where
  "paper_level_init raw_price raw_quantity =
     rbind (quantize6 raw_price) (\<lambda>price.
     rbind (quantize6 raw_quantity) (\<lambda>quantity.
     if price \<le> 0 \<or> 1 < price
     then Inl (ValueError ''paper fill level price must be greater than zero and at most one'')
     else if quantity \<le> 0 then Inl (ValueError ''paper fill level quantity must be positive'')
     else Inr \<lparr>pl_price = price, pl_quantity = quantity\<rparr>))"

definition level_total :: "paper_level list \<Rightarrow> decimal" where
  "level_total ls = foldl (\<lambda>acc l. dec_add acc (pl_quantity l)) 0 ls"

text \<open>\<^verbatim>\<open>_text\<close> and \<^verbatim>\<open>_aware\<close> on values of their declared types.\<close>

definition plan_text :: "string \<Rightarrow> string \<Rightarrow> string result" where
  "plan_text v label =
     (if strip v = [] then Inl (ValueError (label @ '' must be a non-blank string'')) else Inr (strip v))"

definition plan_aware :: "datetime \<Rightarrow> string \<Rightarrow> datetime result" where
  "plan_aware t label =
     (if \<not> dt_aware t then Inl (ValueError (label @ '' must be timezone-aware'')) else Inr t)"

definition check_plan_text :: "paper_plan \<Rightarrow> unit result" where
  "check_plan_text p =
     rfold (\<lambda>u (v, label). rbind (plan_text v label) (\<lambda>_. Inr ())) ()
       [(pe_intent_id p, ''intent_id''), (pe_backend_order_id p, ''backend_order_id''),
        (pe_book_hash p, ''order_book_hash''), (pe_condition_id p, ''condition_id''),
        (pe_token_id p, ''token_id''), (pe_reason p, ''reason'')]"

definition check_rejected_plan :: "paper_plan \<Rightarrow> decimal \<Rightarrow> unit result" where
  "check_rejected_plan p filled =
     (if filled \<noteq> 0 \<or> pe_levels p \<noteq> []
      then Inl (ValueError ''rejected paper execution cannot contain fills'')
      else if pe_average p \<noteq> None \<or> pe_worst p \<noteq> None
      then Inl (ValueError ''rejected paper execution cannot contain fill prices'')
      else if \<not> is_zero (pe_gross p) \<or> \<not> is_zero (pe_fee p)
      then Inl (ValueError ''rejected paper execution cannot contain financial amounts'')
      else Inr ())"

text \<open>The average and the worst price, normalised.\<close>

definition check_filled_plan :: "paper_plan \<Rightarrow> decimal \<Rightarrow> decimal \<Rightarrow> (decimal \<times> decimal) result" where
  "check_filled_plan p requested filled =
     (if filled \<le> 0 \<or> pe_levels p = []
      then Inl (ValueError ''filled paper execution requires positive fill levels'')
      else case (pe_average p, pe_worst p) of
        (Some raw_average, Some raw_worst) \<Rightarrow>
          rbind (quantize6 raw_average) (\<lambda>average.
          rbind (quantize6 raw_worst) (\<lambda>worst.
          if average \<le> 0 \<or> 1 < average \<or> worst \<le> 0 \<or> 1 < worst
          then Inl (ValueError ''paper execution prices must be within (0, 1]'')
          else if is_zero (pe_gross p)
          then Inl (ValueError ''filled paper execution requires positive gross value'')
          else if pe_status p = FULL_FILL \<and> filled \<noteq> requested
          then Inl (ValueError ''full paper fill must satisfy the entire requested quantity'')
          else if pe_status p = PARTIAL_FILL \<and> requested \<le> filled
          then Inl (ValueError ''partial paper fill must leave requested quantity unfilled'')
          else Inr (average, worst)))
      | _ \<Rightarrow> Inl (ValueError ''filled paper execution requires average and worst prices''))"

definition paper_plan_init :: "paper_plan \<Rightarrow> paper_plan result" where
  "paper_plan_init p =
     rbind (check_plan_text p) (\<lambda>_.
     rbind (plan_aware (pe_submitted_at p) ''submitted_at'') (\<lambda>_.
     rbind (plan_aware (pe_book_observed_at p) ''order_book_observed_at'') (\<lambda>_.
     rbind (quantize6 (pe_requested p)) (\<lambda>requested.
     rbind (quantize6 (pe_filled p)) (\<lambda>filled.
     if requested \<le> 0 then Inl (ValueError ''paper requested quantity must be positive'')
     else if filled < 0 \<or> requested < filled
     then Inl (ValueError ''paper filled quantity must be within the request'')
     else if currency (pe_gross p) \<noteq> currency (pe_fee p)
     then Inl (ValueError ''paper execution gross value and fee use different currencies'')
     else if is_negative (pe_gross p) \<or> is_negative (pe_fee p)
     then Inl (ValueError ''paper execution monetary values must not be negative'')
     else rbind (quantize6 (level_total (pe_levels p))) (\<lambda>level_quantity.
     if level_quantity \<noteq> filled
     then Inl (ValueError ''paper execution levels do not reconcile to filled quantity'')
     else if pe_status p = PLAN_REJECTED
     then rbind (check_rejected_plan p filled) (\<lambda>_. Inr (p\<lparr>pe_requested := requested, pe_filled := filled\<rparr>))
     else rbind (check_filled_plan p requested filled) (\<lambda>(average, worst).
       Inr (p\<lparr>pe_requested := requested, pe_filled := filled,
              pe_average := Some average, pe_worst := Some worst\<rparr>))))))))"

section \<open>Stored plans\<close>

fun paper_status_value :: "paper_status \<Rightarrow> string" where
  "paper_status_value FULL_FILL = ''full_fill''"
| "paper_status_value PARTIAL_FILL = ''partial_fill''"
| "paper_status_value PLAN_REJECTED = ''rejected''"

definition level_metadata :: "paper_level \<Rightarrow> meta" where
  "level_metadata l = MetaMapping
     [(Some ''price'', MetaStr (fmt6 (pl_price l))), (Some ''quantity'', MetaStr (fmt6 (pl_quantity l)))]"

definition plan_metadata :: "paper_plan \<Rightarrow> py_dict" where
  "plan_metadata p =
     [(Some ''paper_execution_plan'', MetaMapping
        [(Some ''intent_id'', MetaStr (pe_intent_id p)),
         (Some ''status'', MetaStr (paper_status_value (pe_status p))),
         (Some ''backend_order_id'', MetaStr (pe_backend_order_id p)),
         (Some ''submitted_at'', MetaStr (isoformat (pe_submitted_at p))),
         (Some ''order_book_hash'', MetaStr (pe_book_hash p)),
         (Some ''order_book_observed_at'', MetaStr (isoformat (pe_book_observed_at p))),
         (Some ''condition_id'', MetaStr (pe_condition_id p)),
         (Some ''token_id'', MetaStr (pe_token_id p)),
         (Some ''requested_quantity'', MetaStr (fmt6 (pe_requested p))),
         (Some ''filled_quantity'', MetaStr (fmt6 (pe_filled p))),
         (Some ''average_price'', optional_meta (map_option fmt6 (pe_average p))),
         (Some ''worst_price'', optional_meta (map_option fmt6 (pe_worst p))),
         (Some ''gross_value'', MetaStr (fmt6 (amount (pe_gross p)))),
         (Some ''fee'', MetaStr (fmt6 (amount (pe_fee p)))),
         (Some ''currency'', MetaStr (currency (pe_gross p))),
         (Some ''levels'', MetaSequence (map level_metadata (pe_levels p))),
         (Some ''reason'', MetaStr (pe_reason p))])]"

text \<open>The readers of a payload; an absent key reads as \<^verbatim>\<open>None\<close>.\<close>

definition payload_text :: "json option \<Rightarrow> string \<Rightarrow> string result" where
  "payload_text v label =
     (case v of
        Some (JStr s) \<Rightarrow> plan_text s label
      | _ \<Rightarrow> Inl (ValueError (label @ '' must be a non-blank string'')))"

definition payload_decimal :: "json option \<Rightarrow> string \<Rightarrow> decimal result" where
  "payload_decimal v label =
     (case v of
        Some (JBool _) \<Rightarrow> Inl (TypeError (label @ '' must be decimal''))
      | Some (JInt n) \<Rightarrow> Inr (of_int n)
      | Some (JStr s) \<Rightarrow>
          (case parse_decimal s of
             None \<Rightarrow> Inl (ValueError (label @ '' must be decimal''))
           | Some None \<Rightarrow> Inl (ValueError (label @ '' must be finite''))
           | Some (Some x) \<Rightarrow> Inr x)
      | _ \<Rightarrow> Inl (ValueError (label @ '' must be decimal'')))"

definition payload_mapping :: "json option \<Rightarrow> string \<Rightarrow> (string \<times> json) list result" where
  "payload_mapping v label =
     (case v of Some (JObj d) \<Rightarrow> Inr d | _ \<Rightarrow> Inl (ValueError (label @ '' must be an object'')))"

definition payload_time :: "json option \<Rightarrow> string \<Rightarrow> datetime result" where
  "payload_time v label =
     rbind (payload_text v label) (\<lambda>s.
     case datetime_fromisoformat s of
       None \<Rightarrow> Inl (ValueError ''Invalid isoformat string'') | Some t \<Rightarrow> Inr t)"

definition payload_status :: "json option \<Rightarrow> paper_status result" where
  "payload_status v =
     (case payload_text v ''paper status'' of
        Inl _ \<Rightarrow> Inl (ValueError ''paper execution metadata has unsupported status'')
      | Inr s \<Rightarrow>
          (case map_of [(paper_status_value FULL_FILL, FULL_FILL), (paper_status_value PARTIAL_FILL, PARTIAL_FILL),
               (paper_status_value PLAN_REJECTED, PLAN_REJECTED)] s of
             None \<Rightarrow> Inl (ValueError ''paper execution metadata has unsupported status'')
           | Some st \<Rightarrow> Inr st))"

definition payload_level :: "json \<Rightarrow> paper_level result" where
  "payload_level raw =
     rbind (rbind (payload_mapping (Some raw) ''paper level'') (\<lambda>d.
       payload_decimal (jget d ''price'') ''paper level price'')) (\<lambda>price.
     rbind (rbind (payload_mapping (Some raw) ''paper level'') (\<lambda>d.
       payload_decimal (jget d ''quantity'') ''paper level quantity'')) (\<lambda>quantity.
     paper_level_init price quantity))"

definition payload_levels :: "json option \<Rightarrow> paper_level list result" where
  "payload_levels v =
     (case v of
        Some (JArr vs) \<Rightarrow> rmap payload_level vs
      | _ \<Rightarrow> Inl (ValueError ''paper levels must be an array''))"

definition payload_optional :: "json option \<Rightarrow> string \<Rightarrow> decimal option result" where
  "payload_optional v label =
     (if v \<in> {None, Some JNull} then Inr None
      else rbind (payload_decimal v label) (\<lambda>x. Inr (Some x)))"

definition plan_from_metadata :: "(string \<times> json) list \<Rightarrow> paper_plan result" where
  "plan_from_metadata payload =
     rbind (payload_mapping (jget payload ''paper_execution_plan'') ''paper_execution_plan'') (\<lambda>d.
     rbind (payload_status (jget d ''status'')) (\<lambda>status.
     rbind (payload_time (jget d ''submitted_at'') ''paper submitted_at'') (\<lambda>submitted.
     rbind (payload_time (jget d ''order_book_observed_at'') ''paper order_book_observed_at'') (\<lambda>observed.
     rbind (payload_levels (jget d ''levels'')) (\<lambda>levels.
     rbind (payload_text (jget d ''currency'') ''paper currency'') (\<lambda>cur.
     rbind (payload_text (jget d ''intent_id'') ''paper intent_id'') (\<lambda>intent.
     rbind (payload_text (jget d ''backend_order_id'') ''paper backend_order_id'') (\<lambda>backend.
     rbind (plan_aware submitted ''paper submitted_at'') (\<lambda>submitted.
     rbind (payload_text (jget d ''order_book_hash'') ''paper order_book_hash'') (\<lambda>book_hash.
     rbind (plan_aware observed ''paper order_book_observed_at'') (\<lambda>observed.
     rbind (payload_text (jget d ''condition_id'') ''paper condition_id'') (\<lambda>condition.
     rbind (payload_text (jget d ''token_id'') ''paper token_id'') (\<lambda>token.
     rbind (payload_decimal (jget d ''requested_quantity'') ''paper requested_quantity'') (\<lambda>requested.
     rbind (payload_decimal (jget d ''filled_quantity'') ''paper filled_quantity'') (\<lambda>filled.
     rbind (payload_optional (jget d ''average_price'') ''paper average_price'') (\<lambda>average.
     rbind (payload_optional (jget d ''worst_price'') ''paper worst_price'') (\<lambda>worst.
     rbind (payload_decimal (jget d ''gross_value'') ''paper gross_value'') (\<lambda>gross_value.
     rbind (money_of (PyDecimal gross_value) cur) (\<lambda>gross.
     rbind (payload_decimal (jget d ''fee'') ''paper fee'') (\<lambda>fee_value.
     rbind (money_of (PyDecimal fee_value) cur) (\<lambda>fee.
     rbind (payload_text (jget d ''reason'') ''paper reason'') (\<lambda>reason.
     paper_plan_init
       \<lparr>pe_intent_id = intent, pe_status = status, pe_backend_order_id = backend,
        pe_submitted_at = submitted, pe_book_hash = book_hash, pe_book_observed_at = observed,
        pe_condition_id = condition, pe_token_id = token, pe_requested = requested,
        pe_filled = filled, pe_average = average, pe_worst = worst, pe_gross = gross, pe_fee = fee,
        pe_levels = levels, pe_reason = reason\<rparr>))))))))))))))))))))))"

section \<open>Planning\<close>

definition quantum :: decimal where
  "quantum = 1 / 10 ^ 6"

definition floor_quantity :: "decimal \<Rightarrow> decimal result" where
  "floor_quantity x = (if x \<le> 0 then Inr 0 else quantize round_down 6 x)"

definition stable_id :: "(string \<Rightarrow> string) \<Rightarrow> string \<Rightarrow> string \<Rightarrow> string" where
  "stable_id sha kind intent =
     ''paper_'' @ kind @ ''_'' @ sha (kind @ [CHR 0x0A] @ intent @ [CHR 0x0A])"

definition paper_fee :: "money \<Rightarrow> cost_policy \<Rightarrow> money result" where
  "paper_fee gross policy =
     rbind (money_scale gross (PyDecimal (cp_platform_fee_rate policy))) (\<lambda>platform.
     rbind (money_of (PyDecimal (cp_transaction_cost policy)) (currency gross)) (\<lambda>transaction.
     money_add platform transaction))"

definition reject_plan ::
    "(string \<Rightarrow> string) \<Rightarrow> order_intent \<Rightarrow> order_book \<Rightarrow> datetime \<Rightarrow> string \<Rightarrow> paper_plan result" where
  "reject_plan sha i b t reason =
     rbind (money_zero (currency (oi_fee_reserve i))) (\<lambda>z.
     paper_plan_init
       \<lparr>pe_intent_id = oi_intent_id i, pe_status = PLAN_REJECTED,
        pe_backend_order_id = stable_id sha ''order'' (oi_intent_id i), pe_submitted_at = t,
        pe_book_hash = bk_hash b, pe_book_observed_at = bk_observed_at b,
        pe_condition_id = bk_condition_id b, pe_token_id = bk_token_id b,
        pe_requested = oi_quantity i, pe_filled = 0, pe_average = None, pe_worst = None,
        pe_gross = z, pe_fee = z, pe_levels = [], pe_reason = reason\<rparr>)"

text \<open>
  One level: the quantity \<open>take\<close> that the caps leave, then the end of the loop or the next level.
  The accumulators are what remains, the shares and the value so far and the levels taken.
\<close>

definition take_level ::
    "order_level \<Rightarrow> decimal \<Rightarrow> decimal \<times> decimal \<times> decimal \<times> paper_level list \<Rightarrow>
     (bool \<times> decimal \<times> decimal \<times> decimal \<times> paper_level list) result" where
  "take_level l wanted = (\<lambda>(remaining, shares, value, levels).
     rbind (floor_quantity wanted) (\<lambda>take.
     if take \<le> 0 then Inr (True, remaining, shares, value, levels)
     else rbind (paper_level_init (lv_price l) take) (\<lambda>taken.
     rbind (quantize6 (dec_sub remaining take)) (\<lambda>remaining'.
     Inr (take < lv_size l, remaining', dec_add shares take,
          dec_add value (dec_mul take (lv_price l)), levels @ [taken])))))"

text \<open>
  \<open>wanted_buy\<close> and \<open>wanted_sell\<close> are the quantity of a level before it is floored, or \<open>None\<close> for
  a break.
\<close>

definition wanted_buy ::
    "decimal \<Rightarrow> decimal \<Rightarrow> decimal \<Rightarrow> order_level \<Rightarrow> decimal \<Rightarrow> decimal \<Rightarrow> decimal \<Rightarrow> decimal option result" where
  "wanted_buy average_cap worst_cap maximum_gross l remaining shares cost =
     (if remaining \<le> 0 \<or> worst_cap < lv_price l then Inr None else
      let cash_headroom = dec_sub maximum_gross cost in
      if cash_headroom \<le> 0 then Inr None else
      rbind (dec_div cash_headroom (lv_price l)) (\<lambda>affordable.
      let take = min (min remaining (lv_size l)) affordable in
      if lv_price l \<le> average_cap then Inr (Some take) else
      let average_headroom = dec_sub (dec_mul average_cap shares) cost in
      if average_headroom \<le> 0 then Inr None else
      rbind (dec_div average_headroom (dec_sub (lv_price l) average_cap)) (\<lambda>allowed.
      Inr (Some (min take allowed)))))"

definition wanted_sell ::
    "decimal \<Rightarrow> decimal \<Rightarrow> order_level \<Rightarrow> decimal \<Rightarrow> decimal \<Rightarrow> decimal \<Rightarrow> decimal option result" where
  "wanted_sell average_floor worst_floor l remaining shares gross =
     (if remaining \<le> 0 \<or> lv_price l < worst_floor then Inr None else
      let take = min remaining (lv_size l) in
      if average_floor \<le> lv_price l then Inr (Some take) else
      let average_headroom = dec_sub gross (dec_mul average_floor shares) in
      if average_headroom \<le> 0 then Inr None else
      rbind (dec_div average_headroom (dec_sub average_floor (lv_price l))) (\<lambda>allowed.
      Inr (Some (min take allowed))))"

fun level_loop ::
    "(order_level \<Rightarrow> decimal \<Rightarrow> decimal \<Rightarrow> decimal \<Rightarrow> decimal option result) \<Rightarrow> order_level list \<Rightarrow>
     decimal \<times> decimal \<times> decimal \<times> paper_level list \<Rightarrow> paper_level list result" where
  "level_loop wanted [] (remaining, shares, value, levels) = Inr levels"
| "level_loop wanted (l # ls) (remaining, shares, value, levels) =
     rbind (wanted l remaining shares value) (\<lambda>w.
     case w of
       None \<Rightarrow> Inr levels
     | Some q \<Rightarrow>
         rbind (take_level l q (remaining, shares, value, levels)) (\<lambda>(stop, acc).
         if stop then (case acc of (_, _, _, taken) \<Rightarrow> Inr taken) else level_loop wanted ls acc))"

definition buy_levels :: "order_intent \<Rightarrow> order_book \<Rightarrow> cost_policy \<Rightarrow> paper_level list result" where
  "buy_levels i b policy =
     (let average_cap = min (oi_limit_price i) (dec_add (best_ask b) (cp_maximum_average_slippage policy));
          worst_cap = dec_add (best_ask b) (cp_maximum_worst_slippage policy)
      in rbind (cash_reservation i) (\<lambda>cash.
         let available = dec_sub (amount cash) (cp_transaction_cost policy) in
         if available \<le> 0 then Inr [] else
         rbind (dec_div available (dec_add 1 (cp_platform_fee_rate policy))) (\<lambda>share.
         let maximum_gross = dec_sub share quantum in
         if maximum_gross \<le> 0 then Inr []
         else level_loop (wanted_buy average_cap worst_cap maximum_gross) (bk_asks b) (oi_quantity i, 0, 0, []))))"

definition sell_levels :: "order_intent \<Rightarrow> order_book \<Rightarrow> cost_policy \<Rightarrow> paper_level list result" where
  "sell_levels i b policy =
     (let average_floor = max (oi_limit_price i) (dec_sub (best_bid b) (cp_maximum_average_slippage policy));
          worst_floor = dec_sub (best_bid b) (cp_maximum_worst_slippage policy)
      in level_loop (wanted_sell average_floor worst_floor) (bk_bids b) (oi_quantity i, 0, 0, []))"

definition level_value :: "paper_level list \<Rightarrow> decimal" where
  "level_value ls = foldl (\<lambda>acc l. dec_add acc (dec_mul (pl_quantity l) (pl_price l))) 0 ls"

text \<open>
  The plan of the levels that were taken, inside the limits of the order. Without a level the
  quantity is zero and the division fails.
\<close>

definition plan_of_levels ::
    "(string \<Rightarrow> string) \<Rightarrow> order_intent \<Rightarrow> order_book \<Rightarrow> cost_policy \<Rightarrow> datetime \<Rightarrow> paper_level list \<Rightarrow>
     decimal \<Rightarrow> paper_plan result" where
  "plan_of_levels sha i b policy t levels filled =
     rbind (dec_div (level_value levels) filled) (\<lambda>raw_average.
     rbind (quantize6 raw_average) (\<lambda>average.
     if oi_side i = BUY \<and> oi_limit_price i < average
     then reject_plan sha i b t ''contemporaneous average execution price exceeds the approved limit''
     else if oi_side i = SELL \<and> average < oi_limit_price i
     then reject_plan sha i b t ''contemporaneous average execution price is below the exit limit''
     else
     rbind (money_from_unit_price (PyDecimal average) (PyDecimal filled) (currency (oi_fee_reserve i))) (\<lambda>gross.
     rbind (paper_fee gross policy) (\<lambda>fee.
     rbind (if oi_side i = BUY
            then rbind (money_add gross fee) (\<lambda>debit. rbind (cash_reservation i) (\<lambda>cash.
              Inr (amount cash < amount debit)))
            else Inr False) (\<lambda>uncovered.
     if uncovered
     then reject_plan sha i b t ''contemporaneous fill plus simulated fees exceeds the durable reservation''
     else if oi_side i = SELL \<and> amount gross < amount fee
     then reject_plan sha i b t ''simulated exit fee would exceed gross proceeds''
     else let status = (if filled = oi_quantity i then FULL_FILL else PARTIAL_FILL) in
     paper_plan_init
       \<lparr>pe_intent_id = oi_intent_id i, pe_status = status,
        pe_backend_order_id = stable_id sha ''order'' (oi_intent_id i), pe_submitted_at = t,
        pe_book_hash = bk_hash b, pe_book_observed_at = bk_observed_at b,
        pe_condition_id = bk_condition_id b, pe_token_id = bk_token_id b,
        pe_requested = oi_quantity i, pe_filled = filled, pe_average = Some average,
        pe_worst = Some (pl_price (last levels)), pe_gross = gross, pe_fee = fee,
        pe_levels = levels,
        pe_reason = (if status = FULL_FILL
          then ''paper order fully filled from contemporaneous displayed depth''
          else ''paper order partially filled; unavailable remainder cancelled'')\<rparr>)))))"

definition build_plan ::
    "(string \<Rightarrow> string) \<Rightarrow> order_intent \<Rightarrow> order_book \<Rightarrow> cost_policy \<Rightarrow> datetime \<Rightarrow> timedelta \<Rightarrow>
     paper_plan result" where
  "build_plan sha i b policy submitted maximum_age =
     (if \<not> dt_aware submitted then Inl (ValueError ''paper submission time must be timezone-aware'')
      else let t = to_utc submitted in
      rbind (require_fresh b t maximum_age) (\<lambda>_.
      if oi_quantity i < bk_minimum_order_size b
      then reject_plan sha i b t ''requested quantity is below the market minimum'' else
      rbind (if oi_side i = BUY then buy_levels i b policy else sell_levels i b policy) (\<lambda>levels.
      rbind (quantize6 (level_total levels)) (\<lambda>filled.
      if filled < bk_minimum_order_size b
      then reject_plan sha i b t ''contemporaneous executable depth is below the market minimum''
      else plan_of_levels sha i b policy t levels filled))))"

section \<open>The adapter\<close>

text \<open>
  The adapter's collaborators: a loader of stored plans, a source of books, a recorder of plans and
  the clock.
\<close>

record paper_adapter =
  pa_policy :: cost_policy
  pa_maximum_book_age :: timedelta
  pa_books :: "(order_intent \<Rightarrow> order_book result) option"
  pa_loader :: "(string \<Rightarrow> (string \<times> json) list option result) option"
  pa_recorder :: "(string \<Rightarrow> py_dict \<Rightarrow> unit result) option"
  pa_clock :: datetime

definition load_plan :: "paper_adapter \<Rightarrow> string \<Rightarrow> paper_plan option result" where
  "load_plan a i =
     (case pa_loader a of
        None \<Rightarrow> Inr None
      | Some load \<Rightarrow> rbind (load i) (\<lambda>payload.
          case payload of
            None \<Rightarrow> Inr None
          | Some d \<Rightarrow> rbind (plan_from_metadata d) (\<lambda>p. Inr (Some p))))"

definition plan_for :: "(string \<Rightarrow> string) \<Rightarrow> paper_adapter \<Rightarrow> order_intent \<Rightarrow> paper_plan result" where
  "plan_for sha a i =
     rbind (load_plan a (oi_intent_id i)) (\<lambda>existing.
     case existing of
       Some p \<Rightarrow>
         if pe_intent_id p \<noteq> oi_intent_id i
         then Inl (ValueError ''paper plan metadata belongs to another intent'') else Inr p
     | None \<Rightarrow>
         (case pa_books a of
            None \<Rightarrow> Inl (ValueError ''paper execution requires a durable plan or an order-book provider'')
          | Some books \<Rightarrow>
              rbind (books i) (\<lambda>b.
              rbind (build_plan sha i b (pa_policy a) (pa_clock a) (pa_maximum_book_age a)) (\<lambda>p.
              case pa_recorder a of
                None \<Rightarrow> Inr p
              | Some record \<Rightarrow> rbind (record (oi_intent_id i) (plan_metadata p)) (\<lambda>_. Inr p)))))"

definition plan_event :: "(string \<Rightarrow> string) \<Rightarrow> string \<Rightarrow> string \<Rightarrow> datetime \<Rightarrow> event_body \<Rightarrow> ledger_event result" where
  "plan_event sha kind intent t b =
     event_init sha \<lparr>ev_event_id = stable_id sha kind intent, ev_occurred_at = t, ev_body = b\<rparr>"

definition events_for_plan ::
    "(string \<Rightarrow> string) \<Rightarrow> order_intent \<Rightarrow> paper_plan \<Rightarrow> ledger_event list result" where
  "events_for_plan sha i p =
     (let x = oi_intent_id i; t = pe_submitted_at p in
      if pe_intent_id p \<noteq> x then Inl (ValueError ''paper execution plan does not match the order intent'')
      else rbind (plan_event sha ''submitted'' x t (OrderSubmitted x (pe_backend_order_id p))) (\<lambda>submitted.
      if pe_status p = PLAN_REJECTED
      then rbind (plan_event sha ''rejected'' x t (OrderRejected x (pe_reason p))) (\<lambda>rejected.
           Inr [submitted, rejected])
      else case pe_average p of None \<Rightarrow> Inl AssertionError | Some average \<Rightarrow>
      rbind (plan_event sha ''acknowledged'' x t (OrderAcknowledged x)) (\<lambda>acknowledged.
      rbind (plan_event sha ''fill'' x t (FillReceived
        \<lparr>fl_intent_id = x, fl_fill_id = stable_id sha ''fill_id'' x, fl_quantity = pe_filled p,
         fl_price = average, fl_fee = pe_fee p\<rparr>)) (\<lambda>filled.
      if pe_status p = FULL_FILL then Inr [submitted, acknowledged, filled]
      else rbind (plan_event sha ''remainder_cancelled'' x t (OrderCancelled x (pe_reason p))) (\<lambda>cancelled.
        Inr [submitted, acknowledged, filled, cancelled])))))"

definition submit_order :: "(string \<Rightarrow> string) \<Rightarrow> paper_adapter \<Rightarrow> order_intent \<Rightarrow> ledger_event list result" where
  "submit_order sha a i = rbind (plan_for sha a i) (events_for_plan sha i)"

definition cancel_order ::
    "(string \<Rightarrow> string) \<Rightarrow> paper_adapter \<Rightarrow> order_aggregate \<Rightarrow> ledger_event list result" where
  "cancel_order sha a ord =
     (if is_terminal (oa_state ord) then Inr []
      else rbind (plan_event sha ''manual_cancel'' (oi_intent_id (oa_intent ord)) (pa_clock a)
          (OrderCancelled (oi_intent_id (oa_intent ord)) ''paper order cancelled explicitly'')) (\<lambda>e. Inr [e]))"

text \<open>What is left of the planned events in a state of the order.\<close>

fun planned_rest :: "order_state \<Rightarrow> paper_status \<Rightarrow> ledger_event list \<Rightarrow> ledger_event list" where
  "planned_rest CREATED st es = es"
| "planned_rest SUBMITTED st es = drop 1 es"
| "planned_rest ACKNOWLEDGED st es = drop 2 es"
| "planned_rest PARTIALLY_FILLED st es = (if st = PARTIAL_FILL then drop (length es - 1) es else [])"
| "planned_rest UNKNOWN st es = (if st = PLAN_REJECTED then drop (length es - 1) es else drop 2 es)"
| "planned_rest _ st es = []"

definition reconcile_order ::
    "(string \<Rightarrow> string) \<Rightarrow> paper_adapter \<Rightarrow> order_aggregate \<Rightarrow> ledger_event list result" where
  "reconcile_order sha a ord =
     (if is_terminal (oa_state ord) then Inr []
      else rbind (load_plan a (oi_intent_id (oa_intent ord))) (\<lambda>plan.
      case plan of
        None \<Rightarrow> Inl (ValueError ''paper recovery requires durable execution-plan metadata'')
      | Some p \<Rightarrow> rbind (events_for_plan sha (oa_intent ord) p) (\<lambda>planned.
          Inr (planned_rest (oa_state ord) (pe_status p) planned))))"

end
