(* ===== verification/Paper_Valuation.thy ===== *)
theory Paper_Valuation
  imports Paper
begin

text \<open>
  \<open>weatherbot/paper/valuation.py\<close> and the report of \<open>weatherbot/paper/model.py\<close>: the value of the
  open positions when each is sold into the bids of its book, net of the exit fees, and the status
  of a paper account. A book provider is the map from position keys to order books.
\<close>

section \<open>The report\<close>

record paper_report =
  ps_starting_cash :: money
  ps_cash :: money
  ps_reserved_cash :: money
  ps_available_cash :: money
  ps_market_value :: money
  ps_realized_pnl :: money
  ps_unrealized_pnl :: money
  ps_fees :: money
  ps_exposure :: money
  ps_equity :: money
  ps_high_water :: money
  ps_drawdown :: money
  ps_open_positions :: int

definition paper_report_init :: "paper_report \<Rightarrow> paper_report result" where
  "paper_report_init r =
     (if list_ex (\<lambda>m. currency m \<noteq> currency (ps_starting_cash r))
          [ps_cash r, ps_reserved_cash r, ps_available_cash r, ps_market_value r, ps_realized_pnl r,
           ps_unrealized_pnl r, ps_fees r, ps_exposure r, ps_equity r, ps_high_water r, ps_drawdown r]
      then Inl (ValueError ''paper status mixes currencies'')
      else if ps_open_positions r < 0
      then Inl (ValueError ''paper status open_positions must not be negative'')
      else Inr r)"

section \<open>Liquidation\<close>

text \<open>The loop over the bids: remaining quantity and gross value so far.\<close>

fun bid_loop :: "order_level list \<Rightarrow> decimal \<Rightarrow> decimal \<Rightarrow> decimal" where
  "bid_loop [] remaining gross = gross"
| "bid_loop (l # ls) remaining gross =
     (let take = min remaining (lv_size l);
          gross' = (if 0 < take then dec_add gross (dec_mul take (lv_price l)) else gross);
          remaining' = (if 0 < take then dec_sub remaining take else remaining)
      in if remaining' \<le> 0 then gross' else bid_loop ls remaining' gross')"

definition liquidation_value :: "decimal \<Rightarrow> order_book \<Rightarrow> cost_policy \<Rightarrow> string \<Rightarrow> money result" where
  "liquidation_value quantity b policy cur =
     (let gross = bid_loop (bk_bids b) quantity 0 in
      if gross \<le> 0 then money_zero cur else
      rbind (money_of (PyDecimal gross) cur) (\<lambda>gross_money.
      rbind (money_scale gross_money (PyDecimal (cp_platform_fee_rate policy))) (\<lambda>platform.
      rbind (money_of (PyDecimal (cp_transaction_cost policy)) cur) (\<lambda>transaction.
      rbind (money_add platform transaction) (\<lambda>fee.
      if amount gross_money \<le> amount fee then money_zero cur else money_sub gross_money fee)))))"

definition held :: "position \<Rightarrow> bool" where
  "held p \<longleftrightarrow> pos_status p = OPEN \<and> 0 < pos_quantity p"

definition paper_mark ::
    "(position_key \<Rightarrow> order_book option) \<Rightarrow> cost_policy \<Rightarrow> datetime \<Rightarrow> timedelta \<Rightarrow> string \<Rightarrow>
     position_key \<times> position \<Rightarrow> position_valuation result" where
  "paper_mark books policy t maximum_age cur entry =
     (case books (fst entry) of
        None \<Rightarrow> Inl (ValueError ''paper valuation is missing a book'')
      | Some b \<Rightarrow>
          rbind (require_fresh b t maximum_age) (\<lambda>_.
          rbind (liquidation_value (pos_quantity (snd entry)) b policy cur) (\<lambda>value.
          position_valuation_init
            \<lparr>pv_market_id = pos_market_id (snd entry), pv_outcome_id = pos_outcome_id (snd entry),
             pv_quantity = pos_quantity (snd entry), pv_liquidation_value = value,
             pv_observed_at = bk_observed_at b\<rparr>)))"

text \<open>\<^verbatim>\<open>build_paper_valuation\<close>: the open positions in key order, then their sum and the cash.\<close>

definition sum_marks :: "string \<Rightarrow> position_valuation list \<Rightarrow> money result" where
  "sum_marks cur marks =
     rbind (money_zero cur) (\<lambda>z. rfold (\<lambda>acc m. money_add acc (pv_liquidation_value m)) z marks)"

definition build_valuation ::
    "ledger_state \<Rightarrow> (position_key \<Rightarrow> order_book option) \<Rightarrow> cost_policy \<Rightarrow> datetime \<Rightarrow> timedelta \<Rightarrow>
     portfolio_valuation result" where
  "build_valuation s books policy observed maximum_age =
     (if \<not> dt_aware observed then Inl (ValueError ''paper valuation time must be timezone-aware'')
      else let t = to_utc observed in
      rbind (assert_invariants s) (\<lambda>_.
      rbind (rmap (paper_mark books policy t maximum_age (ls_currency s))
          (filter (\<lambda>e. held (snd e)) (sort_key fst (ls_positions s)))) (\<lambda>marks.
      rbind (sum_marks (ls_currency s) marks) (\<lambda>market_value.
      rbind (money_add (ls_cash s) market_value) (\<lambda>equity.
      portfolio_valuation_init
        \<lparr>pf_positions = marks, pf_equity = equity, pf_assembled_at = t,
         pf_source = ''paper:bid-side-size-aware-net-exit-fees''\<rparr>)))))"

section \<open>The status of an account\<close>

text \<open>The opening cash and the highest equity of the events.\<close>

definition high_water_step ::
    "string \<Rightarrow> money option \<times> decimal option \<Rightarrow> ledger_event \<Rightarrow> (money option \<times> decimal option) result" where
  "high_water_step cur acc e =
     (case ev_body e of
        AccountOpened m \<Rightarrow> Inr (if fst acc = None then (Some m, Some (amount m)) else acc)
      | PortfolioValuationRecorded v \<Rightarrow>
          if currency (pf_equity v) \<noteq> cur
          then Inl (ValueError ''historical paper valuation uses another currency'')
          else Inr (fst acc, case snd acc of
            None \<Rightarrow> Some (amount (pf_equity v))
          | Some h \<Rightarrow> if h < amount (pf_equity v) then Some (amount (pf_equity v)) else Some h)
      | _ \<Rightarrow> Inr acc)"

definition total_money :: "string \<Rightarrow> money list \<Rightarrow> money result" where
  "total_money cur ms = rbind (money_zero cur) (\<lambda>z. rfold money_add z ms)"

text \<open>Realized profit, cost basis of what is held, and the number of held positions.\<close>

definition position_step :: "money \<times> money \<times> int \<Rightarrow> position \<Rightarrow> (money \<times> money \<times> int) result" where
  "position_step acc p = (case acc of (realized, basis, n) \<Rightarrow>
     rbind (money_add realized (pos_realized_pnl p)) (\<lambda>realized'.
     if held p then rbind (money_add basis (pos_cost_basis p)) (\<lambda>basis'. Inr (realized', basis', n + 1))
     else Inr (realized', basis, n)))"

definition paper_status_report ::
    "ledger_state \<Rightarrow> ledger_event list \<Rightarrow> portfolio_valuation \<Rightarrow> paper_report result" where
  "paper_status_report s es v =
     rbind (assert_invariants s) (\<lambda>_.
     rbind (rfold (high_water_step (ls_currency s)) (None, None) es) (\<lambda>(initial, water).
     case (initial, water) of
       (Some starting, Some water_amount) \<Rightarrow>
         if currency (pf_equity v) \<noteq> ls_currency s
         then Inl (ValueError ''paper status valuation uses another currency'') else
         rbind (sum_marks (ls_currency s) (pf_positions v)) (\<lambda>market_value.
         rbind (money_zero (ls_currency s)) (\<lambda>z.
         rbind (rfold position_step (z, z, 0) (map snd (ls_positions s))) (\<lambda>(realized, basis, n).
         rbind (total_money (ls_currency s) (map oa_fees (map snd (ls_orders s)))) (\<lambda>fees.
         rbind (total_money (ls_currency s) (map oa_reserved_cash (filter (\<lambda>ord.
             oi_side (oa_intent ord) = BUY \<and> \<not> is_terminal (oa_state ord)) (map snd (ls_orders s))))) (\<lambda>active.
         rbind (money_add basis active) (\<lambda>exposure.
         rbind (money_sub market_value basis) (\<lambda>unrealized.
         let high = max water_amount (amount (pf_equity v)) in
         rbind (money_of (PyDecimal high) (ls_currency s)) (\<lambda>high_water.
         rbind (money_of (PyDecimal (max 0 (dec_sub (amount high_water) (amount (pf_equity v)))))
             (ls_currency s)) (\<lambda>drawdown.
         rbind (available_cash s) (\<lambda>available.
         paper_report_init
           \<lparr>ps_starting_cash = starting, ps_cash = ls_cash s, ps_reserved_cash = ls_reserved_cash s,
            ps_available_cash = available, ps_market_value = market_value, ps_realized_pnl = realized,
            ps_unrealized_pnl = unrealized, ps_fees = fees, ps_exposure = exposure,
            ps_equity = pf_equity v, ps_high_water = high_water, ps_drawdown = drawdown,
            ps_open_positions = n\<rparr>))))))))))
     | _ \<Rightarrow> Inl (ValueError ''paper status requires an initialized ledger'')))"

end
