(* ===== verification/Ledger_History.thy ===== *)
theory Ledger_History
  imports Ledger_Props
begin

text \<open>
  Histories without repeated identifiers: each of their events is one step of the ledger, so what it
  did can be read off the history.
\<close>

section \<open>Recorded identifiers\<close>

lemma replay_ids:
  assumes "replay sha fp cur es = Inr s" and "list_all wf_event es" and "dict_get (ls_fingerprints s) k = Some h"
  shows "k \<in> ev_event_id ` set es"
  using assms
proof (induction es arbitrary: s h rule: rev_induct)
  case Nil
  then show ?case using ledger_empty_InrD by (fastforce simp: replay_def rbind_eq_Inr)
next
  case (snoc e es)
  obtain t where t: "replay sha fp cur es = Inr t" "apply_event sha fp t e = Inr s"
    using snoc.prems(1) by (auto simp: replay_append rbind_eq_Inr)
  have w: "list_all wf_event es" "wf_event e" using snoc.prems(2) by simp_all
  have "ledger_inv t" using replay_inv [OF t(1) w(1)] by blast
  from t(2) this w(2) show ?case
  proof (cases rule: apply_event_InrE)
    case redelivery
    then show ?thesis using snoc.IH [OF t(1) w(1)] snoc.prems(3) by auto
  next
    case (accepted u)
    then show ?thesis
      using snoc.IH [OF t(1) w(1)] snoc.prems(3) step_fingerprints [OF accepted(3)]
      by (auto simp: record_event_def split: if_splits)
  qed
qed

lemma fresh_step:
  assumes "replay sha fp cur (es @ [e]) = Inr s" and "list_all wf_event (es @ [e])"
    and "ev_event_id e \<notin> ev_event_id ` set es"
  obtains t u where "replay sha fp cur es = Inr t" "ledger_inv t" "ledger_step sha (ev_body e) t u" "ledger_inv u"
    "s = record_event u e (fp e)"
proof -
  obtain t where t: "replay sha fp cur es = Inr t" "apply_event sha fp t e = Inr s"
    using assms(1) by (auto simp: replay_append rbind_eq_Inr)
  have w: "list_all wf_event es" "wf_event e" using assms(2) by simp_all
  have inv: "ledger_inv t" using replay_inv [OF t(1) w(1)] by blast
  from t(2) inv w(2) show ?thesis
  proof (cases rule: apply_event_InrE)
    case redelivery
    then show ?thesis using replay_ids [OF t(1) w(1)] assms(3) by blast
  next
    case (accepted u)
    have "ledger_ok u" using accepted(5,6) by (simp add: record_event_def ledger_ok_def)
    then show ?thesis using that [OF t(1) inv accepted(3)] accepted(4,5) by (simp add: ledger_inv_def)
  qed
qed

section \<open>Settlements\<close>

text \<open>A settlement in the history means a settled position.\<close>

lemma settle_stepE:
  assumes "ledger_step sha (PositionSettled m oc fee) s t" and "ledger_inv s"
  obtains p q where "dict_get (ls_positions s) (m, oc) = Some p" "pos_status q = SETTLED"
    "ls_positions t = dict_set (ls_positions s) (m, oc) q"
  using assms(1)
proof (cases rule: ledger_step.cases)
  case (settle p r payout net)
  have "position_key (pos_market_id p) (pos_outcome_id p) = (m, oc)"
    using ledger_ok_position [of s "(m, oc)" p] settle assms(2)
    by (simp add: ledger_inv_def position_ok_def position_key_def)
  then show ?thesis using settle by (intro that) (simp_all add: replace_position_def)
qed simp_all

lemma replay_settled:
  assumes "replay sha fp cur hist = Inr s" and "list_all wf_event hist" and "distinct (map ev_event_id hist)"
    and "e \<in> set hist" and "ev_body e = PositionSettled m oc fee"
  shows "\<exists>p. dict_get (ls_positions s) (m, oc) = Some p \<and> pos_status p = SETTLED"
proof -
  obtain h1 h2 where h: "hist = (h1 @ [e]) @ h2" using assms(4) by (metis split_list append_Cons append_Nil append_assoc)
  have w: "list_all wf_event (h1 @ [e])" "list_all wf_event h2" and fresh: "ev_event_id e \<notin> ev_event_id ` set h1"
    using assms(2,3) unfolding h by auto
  obtain t where t: "replay sha fp cur (h1 @ [e]) = Inr t" "rfold (apply_event sha fp) t h2 = Inr s"
    using assms(1) unfolding h replay_append [of _ _ _ "h1 @ [e]"] by (auto simp: rbind_eq_Inr)
  obtain s0 u where u: "ledger_step sha (ev_body e) s0 u" "t = record_event u e (fp e)" "ledger_inv s0"
    using fresh_step [OF t(1) w(1) fresh] by metis
  have "\<exists>p. dict_get (ls_positions u) (m, oc) = Some p \<and> pos_status p = SETTLED"
    using u(1,3) unfolding assms(5) by (elim settle_stepE) auto
  moreover have "ledger_evolves t s" using ledger.run_evolves [OF t(2)] replay_inv [OF t(1) w(1)] w(2) by simp
  ultimately show ?thesis
    using u(2) by (fastforce simp: record_event_def ledger_evolves_def extends_def position_evolves_def)
qed

end
