(* ===== verification/Paper_Props.thy ===== *)
theory Paper_Props
  imports Paper Ledger_History Store_Runs
begin

text \<open>
  The planned events of a paper order move it through fixed stages, whatever happens to other orders
  in between; so what reconciliation emits is what is missing.
\<close>

section \<open>The progress of one order\<close>

definition order_progress ::
    "ledger_state \<Rightarrow> string \<Rightarrow> (order_intent \<times> order_state \<times> decimal \<times> (string, string) dict) option" where
  "order_progress s x = map_option
     (\<lambda>ord. (oa_intent ord, oa_state ord, oa_filled_quantity ord, oa_fill_fingerprints ord)) (dict_get (ls_orders s) x)"

lemma order_progress_replaced:
  "order_progress (replace_order s ord) x =
     (if x = oi_intent_id (oa_intent ord)
      then Some (oa_intent ord, oa_state ord, oa_filled_quantity ord, oa_fill_fingerprints ord)
      else order_progress s x)"
  by (simp add: order_progress_def get_order_replaced)

lemma order_progress_cong: "ls_orders t = ls_orders s \<Longrightarrow> order_progress t x = order_progress s x"
  by (simp add: order_progress_def)

lemma order_at_key: "ledger_inv s \<Longrightarrow> dict_get (ls_orders s) x = Some ord \<Longrightarrow> oi_intent_id (oa_intent ord) = x"
  by (auto simp: ledger_inv_def dest!: ledger_ok_order) (simp add: order_ok_def)

fun advance ::
    "event_body \<Rightarrow> order_intent \<times> order_state \<times> decimal \<times> (string, string) dict \<Rightarrow>
     order_intent \<times> order_state \<times> decimal \<times> (string, string) dict \<Rightarrow> bool" where
  "advance (OrderSubmitted _ _) (i, st, q, fs) v \<longleftrightarrow> v = (i, SUBMITTED, q, fs)"
| "advance (OrderAcknowledged _) (i, st, q, fs) v \<longleftrightarrow> v = (i, ACKNOWLEDGED, q, fs)"
| "advance (OrderOutcomeUnknown _ _) (i, st, q, fs) v \<longleftrightarrow> v = (i, UNKNOWN, q, fs)"
| "advance (OrderRejected _ _) (i, st, q, fs) v \<longleftrightarrow> v = (i, REJECTED, q, fs)"
| "advance (OrderCancelled _ _) (i, st, q, fs) v \<longleftrightarrow> v = (i, CANCELLED, q, fs)"
| "advance (FillReceived f) (i, st, q, fs) v \<longleftrightarrow>
     dict_get fs (fl_fill_id f) \<noteq> None \<and> v = (i, st, q, fs)
     \<or> (\<exists>fs'. v = (i, if q + fl_quantity f = oi_quantity i then FILLED else PARTIALLY_FILLED, q + fl_quantity f, fs'))"
| "advance _ u v \<longleftrightarrow> False"

lemma lifecycle_step:
  assumes "ledger_step sha b s t" and "ledger_inv s" and "recovery_event_intent b = Some x"
  shows "\<exists>u v. order_progress s x = Some u \<and> order_progress t x = Some v \<and> advance b u v"
  using assms
proof (induction rule: ledger_step.induct)
  case (close_buy b i target r s ord)
  then show ?case
    by (cases b) (auto simp: order_progress_replaced closed_order_def order_at_key, auto simp: order_progress_def)
next
  case (close_sell b i target r s ord p)
  then show ?case
    by (cases b) (auto simp: order_progress_replaced closed_order_def order_at_key, auto simp: order_progress_def)
next
  case (fill_buy s f ord debit p kept)
  then show ?case
    by (auto simp: order_progress_replaced order_at_key filled_order_def fill_target_def fill_total_def)
      (auto simp: order_progress_def)
next
  case (fill_sell s f ord p net cost kept)
  then show ?case
    by (auto simp: order_progress_replaced order_at_key filled_order_def fill_target_def fill_total_def)
      (auto simp: order_progress_def)
qed (auto simp: order_progress_replaced order_at_key, auto simp: order_progress_def)

lemma other_step:
  assumes "ledger_step sha b s t" and "ledger_inv s" and "recovery_event_intent b \<noteq> Some x"
  shows "order_progress t x = order_progress s x
    \<or> order_progress s x = None \<and> (\<exists>i. order_progress t x = Some (i, CREATED, 0, []))"
  using assms
proof (induction rule: ledger_step.induct)
  case (close_buy b i target r s ord)
  then show ?case
    by (cases b) (auto simp: order_progress_replaced closed_order_def order_at_key intro: order_progress_cong)
next
  case (close_sell b i target r s ord p)
  then show ?case
    by (cases b) (auto simp: order_progress_replaced closed_order_def order_at_key intro: order_progress_cong)
next
  case (fill_buy s f ord debit p kept)
  then show ?case by (auto simp: order_progress_replaced order_at_key filled_order_def intro: order_progress_cong)
next
  case (fill_sell s f ord p net cost kept)
  then show ?case by (auto simp: order_progress_replaced order_at_key filled_order_def intro: order_progress_cong)
next
  case (reserve_buy s i ord)
  then show ?case by (simp add: order_progress_def get_order_replaced spec_new_order_def)
next
  case (reserve_sell s i ord p)
  then show ?case by (simp add: order_progress_def get_order_replaced spec_new_order_def)
qed (auto simp: order_progress_replaced order_at_key intro: order_progress_cong)

section \<open>The stages of a plan\<close>

definition at_stage ::
    "paper_plan \<Rightarrow> nat \<Rightarrow> order_intent \<times> order_state \<times> decimal \<times> (string, string) dict \<Rightarrow> bool" where
  "at_stage p n = (\<lambda>(i, st, q, fs). (n < 3 \<longrightarrow> q = 0 \<and> fs = []) \<and> st =
     (if n = 0 then CREATED else if n = 1 then SUBMITTED
      else if n = 2 then (if pe_status p = PLAN_REJECTED then REJECTED else ACKNOWLEDGED)
      else if n = 3 then (if pe_filled p = oi_quantity i then FILLED else PARTIALLY_FILLED)
      else CANCELLED))"

lemma paper_plan_init_cases:
  assumes "paper_plan_init p = Inr q"
  obtains requested filled where "quantize6 (pe_requested p) = Inr requested" "quantize6 (pe_filled p) = Inr filled"
    "currency (pe_gross p) = currency (pe_fee p)"
    "pe_status p = PLAN_REJECTED \<and> check_rejected_plan p filled = Inr ()
       \<and> q = p\<lparr>pe_requested := requested, pe_filled := filled\<rparr>
     \<or> pe_status p \<noteq> PLAN_REJECTED \<and> (\<exists>average worst. check_filled_plan p requested filled = Inr (average, worst)
       \<and> q = p\<lparr>pe_requested := requested, pe_filled := filled, pe_average := Some average, pe_worst := Some worst\<rparr>)"
  using assms by (auto simp: paper_plan_init_def rbind_eq_Inr split: if_splits)

lemma check_filled_plan_amounts:
  "check_filled_plan p requested filled = Inr (average, worst) \<Longrightarrow> dec6 average \<and> dec6 worst
    \<and> (pe_status p = FULL_FILL \<longrightarrow> filled = requested) \<and> (pe_status p = PARTIAL_FILL \<longrightarrow> filled < requested)"
  by (auto simp: check_filled_plan_def rbind_eq_Inr split: if_splits option.splits dest: quantize6_result)

lemma plan_init_amounts:
  assumes "paper_plan_init p = Inr q"
  shows "quantize6 (pe_filled p) = Inr (pe_filled q) \<and> (pe_status q = FULL_FILL \<longrightarrow> pe_filled q = pe_requested q)
    \<and> (pe_status q = PARTIAL_FILL \<longrightarrow> pe_filled q < pe_requested q)"
  using assms by (rule paper_plan_init_cases) (auto dest!: check_filled_plan_amounts)

lemma plan_amounts:
  assumes "paper_plan_init p = Inr q"
  shows "dec6 (pe_requested q)" "dec6 (pe_filled q)" "pred_option dec6 (pe_average q)" "pred_option dec6 (pe_worst q)"
    "currency (pe_fee q) = currency (pe_gross q)"
proof -
  obtain requested filled where q: "quantize6 (pe_requested p) = Inr requested" "quantize6 (pe_filled p) = Inr filled"
    "currency (pe_gross p) = currency (pe_fee p)"
    "pe_status p = PLAN_REJECTED \<and> check_rejected_plan p filled = Inr ()
       \<and> q = p\<lparr>pe_requested := requested, pe_filled := filled\<rparr>
     \<or> pe_status p \<noteq> PLAN_REJECTED \<and> (\<exists>average worst. check_filled_plan p requested filled = Inr (average, worst)
       \<and> q = p\<lparr>pe_requested := requested, pe_filled := filled, pe_average := Some average, pe_worst := Some worst\<rparr>)"
    using assms by (rule paper_plan_init_cases)
  have six: "dec6 requested" "dec6 filled" using q(1,2) quantize6_result by blast+
  have "check_rejected_plan p filled = Inr () \<Longrightarrow> pe_average p = None \<and> pe_worst p = None"
    by (auto simp: check_rejected_plan_def split: if_splits)
  then show "dec6 (pe_requested q)" "dec6 (pe_filled q)" "pred_option dec6 (pe_average q)" "pred_option dec6 (pe_worst q)"
    "currency (pe_fee q) = currency (pe_gross q)"
    using q(3,4) six by (auto dest!: check_filled_plan_amounts)
qed

text \<open>The bodies of the planned events, in order.\<close>

definition planned_bodies :: "paper_plan \<Rightarrow> string \<Rightarrow> event_body list \<Rightarrow> bool" where
  "planned_bodies p x bs \<longleftrightarrow>
     (if pe_status p = PLAN_REJECTED then \<exists>b r. bs = [OrderSubmitted x b, OrderRejected x r]
      else \<exists>b f rest. bs = [OrderSubmitted x b, OrderAcknowledged x, FillReceived f] @ rest
        \<and> fl_intent_id f = x \<and> fl_quantity f = pe_filled p
        \<and> (if pe_status p = FULL_FILL then rest = [] else \<exists>r. rest = [OrderCancelled x r]))"

lemma events_for_plan_bodies:
  assumes "events_for_plan sha i p = Inr es" and "paper_plan_init p = Inr p"
  shows "planned_bodies p (oi_intent_id i) (map ev_body es) \<and> pe_intent_id p = oi_intent_id i"
  using assms(1) plan_init_amounts [OF assms(2)]
  by (auto simp: events_for_plan_def plan_event_def planned_bodies_def event_init_def fill_init_def Let_def rbind_eq_Inr
      split: if_splits option.splits)

lemma stage_advances:
  assumes "planned_bodies p x bs" and "n < length bs" and "at_stage p n u" and "advance (bs ! n) u v"
  shows "at_stage p (Suc n) v"
proof (cases u)
  case (fields i st q fs)
  have "n = 0 \<or> n = 1 \<or> n = 2 \<or> n = 3"
    using assms(1,2) by (auto simp: planned_bodies_def split: if_splits)
  then show ?thesis
    using assms by (elim disjE) (auto simp: fields planned_bodies_def at_stage_def split: if_splits)
qed

lemma history_stage:
  assumes "planned_bodies p x (map ev_body es)"
    and "replay sha fp cur hist = Inr s" and "list_all wf_event hist" and "distinct (map ev_event_id hist)"
    and "filter (\<lambda>e. recovery_event_intent (ev_body e) = Some x) hist = take n es" and "n \<le> length es"
  shows "case order_progress s x of None \<Rightarrow> n = 0 | Some v \<Rightarrow> at_stage p n v"
  using assms(2-)
proof (induction hist arbitrary: s n rule: rev_induct)
  case Nil
  then have "order_progress s x = None"
    using ledger_empty_InrD by (fastforce simp: replay_def rbind_eq_Inr order_progress_def)
  then show ?case using Nil.prems(4,5) by (cases n) auto
next
  case (snoc e hist)
  have fresh: "ev_event_id e \<notin> ev_event_id ` set hist" using snoc.prems(3) by auto
  obtain t u where run: "replay sha fp cur hist = Inr t" "ledger_inv t" "ledger_step sha (ev_body e) t u"
    "s = record_event u e (fp e)"
    using fresh_step [OF snoc.prems(1,2) fresh] by metis
  have s: "order_progress s x = order_progress u x" unfolding run(4) by (rule order_progress_cong) (simp add: record_event_def)
  note IH = snoc.IH [OF run(1)]
  show ?case
  proof (cases "recovery_event_intent (ev_body e) = Some x")
    case True
    then have last: "filter (\<lambda>e. recovery_event_intent (ev_body e) = Some x) hist @ [e] = take n es"
      using snoc.prems(4) by simp
    then obtain m where n: "n = Suc m" by (cases n) auto
    have m: "filter (\<lambda>e. recovery_event_intent (ev_body e) = Some x) hist = take m es" "e = es ! m" "m < length es"
      using last snoc.prems(5) unfolding n by (simp_all add: take_Suc_conv_app_nth)
    obtain a b where ab: "order_progress t x = Some a" "order_progress u x = Some b" "advance (ev_body e) a b"
      using lifecycle_step [OF run(3,2) True] by blast
    have "at_stage p m a" using IH [OF _ _ m(1)] snoc.prems(2,3) m(3) ab(1) by simp
    then have "at_stage p (Suc m) b"
      using stage_advances [OF assms(1), of m] ab(3) m(2,3) by simp
    then show ?thesis using s ab(2) n by simp
  next
    case False
    then have "case order_progress t x of None \<Rightarrow> n = 0 | Some v \<Rightarrow> at_stage p n v"
      using IH [of n] snoc.prems(2-5) by simp
    then show ?thesis using other_step [OF run(3,2) False] s by (auto simp: at_stage_def split: option.splits)
  qed
qed

section \<open>The stored plan\<close>

definition plain :: "string \<Rightarrow> bool" where
  "plain s \<longleftrightarrow> strip s = s \<and> s \<noteq> []"

definition storable_plan :: "paper_plan \<Rightarrow> bool" where
  "storable_plan p \<longleftrightarrow> paper_plan_init p = Inr p
     \<and> list_all plain [pe_intent_id p, pe_backend_order_id p, pe_book_hash p, pe_condition_id p, pe_token_id p, pe_reason p]
     \<and> valid_datetime (pe_submitted_at p) \<and> valid_datetime (pe_book_observed_at p)
     \<and> wf_money (pe_gross p) \<and> wf_money (pe_fee p)
     \<and> list_all (\<lambda>l. paper_level_init (pl_price l) (pl_quantity l) = Inr l) (pe_levels p)"

definition level_data :: "paper_level \<Rightarrow> json" where
  "level_data l = JObj [(''price'', JStr (fmt6 (pl_price l))), (''quantity'', JStr (fmt6 (pl_quantity l)))]"

definition plan_data :: "paper_plan \<Rightarrow> (string \<times> json) list" where
  "plan_data p =
     [(''intent_id'', JStr (pe_intent_id p)), (''status'', JStr (paper_status_value (pe_status p))),
      (''backend_order_id'', JStr (pe_backend_order_id p)),
      (''submitted_at'', JStr (isoformat (pe_submitted_at p))), (''order_book_hash'', JStr (pe_book_hash p)),
      (''order_book_observed_at'', JStr (isoformat (pe_book_observed_at p))),
      (''condition_id'', JStr (pe_condition_id p)), (''token_id'', JStr (pe_token_id p)),
      (''requested_quantity'', JStr (fmt6 (pe_requested p))), (''filled_quantity'', JStr (fmt6 (pe_filled p))),
      (''average_price'', opt_json (map_option fmt6 (pe_average p))),
      (''worst_price'', opt_json (map_option fmt6 (pe_worst p))),
      (''gross_value'', JStr (fmt6 (amount (pe_gross p)))), (''fee'', JStr (fmt6 (amount (pe_fee p)))),
      (''currency'', JStr (currency (pe_gross p))), (''levels'', JArr (map level_data (pe_levels p))),
      (''reason'', JStr (pe_reason p))]"

lemma rmap_ok: "(\<And>x. x \<in> set xs \<Longrightarrow> f x = Inr (g x)) \<Longrightarrow> rmap f xs = Inr (map g xs)"
  by (induction xs) simp_all

lemma optional_value: "metadata_value (optional_meta v) = Inr (opt_json v)"
  by (cases v) (simp_all add: optional_meta_def opt_json_def)

lemma plan_encoded:
  "metadata_value (MetaMapping (plan_metadata p)) = Inr (JObj [(''paper_execution_plan'', JObj (plan_data p))])"
proof -
  have "rmap metadata_value (map level_metadata ls) = Inr (map level_data ls)" for ls
    by (induction ls) (simp_all add: level_metadata_def level_data_def)
  then show ?thesis by (simp add: plan_metadata_def plan_data_def optional_value)
qed

lemma payload_text_read: "plain s \<Longrightarrow> payload_text (Some (JStr s)) label = Inr s"
  by (simp add: payload_text_def plan_text_def plain_def)

lemma payload_decimal_read: "dec6 x \<Longrightarrow> payload_decimal (Some (JStr (fmt6 x))) label = Inr x"
  by (simp add: payload_decimal_def parse_fmt6 dec6_grid)

lemma payload_optional_read:
  "pred_option dec6 v \<Longrightarrow> payload_optional (Some (opt_json (map_option fmt6 v))) label = Inr v"
  by (cases v) (simp_all add: payload_optional_def opt_json_def payload_decimal_read)

lemma payload_levels_read:
  assumes "list_all (\<lambda>l. paper_level_init (pl_price l) (pl_quantity l) = Inr l) ls"
  shows "payload_levels (Some (JArr (map (sort_json \<circ> level_data) ls))) = Inr ls"
proof -
  have "payload_level (sort_json (level_data l)) = Inr l" if "l \<in> set ls" for l
  proof -
    have init: "paper_level_init (pl_price l) (pl_quantity l) = Inr l" using assms that by (simp add: list_all_iff)
    then have "dec6 (pl_price l)" "dec6 (pl_quantity l)"
      by (auto simp: paper_level_init_def rbind_eq_Inr split: if_splits dest: quantize6_result)
    then show ?thesis
      by (simp add: payload_level_def payload_mapping_def level_data_def jget_def payload_decimal_read init)
  qed
  then have "rmap payload_level (map (sort_json \<circ> level_data) ls) = Inr ls"
    by (induction ls) simp_all
  then show ?thesis by (simp add: payload_levels_def)
qed

lemma payload_status_read: "payload_status (Some (JStr (paper_status_value st))) = Inr st"
proof -
  have "plain ''full_fill''" "plain ''partial_fill''" "plain ''rejected''" by code_simp+
  then have "plain (paper_status_value st)" by (cases st) simp_all
  then show ?thesis by (cases st) (simp_all add: payload_status_def payload_text_read)
qed

lemma padded_text: "list_all (\<lambda>c. \<not> is_space c) (pad_left k (show_nat n))"
  using pad_left_digits [of k n] digit_props by (auto simp: list_all_iff)

lemma isoformat_text: "list_all (\<lambda>c. \<not> is_space c) (isoformat t)"
proof -
  have marks: "list_all (\<lambda>c. \<not> is_space c) ''-T:.+''" by code_simp
  have two: "list_all (\<lambda>c. \<not> is_space c) (two_digits n)" for n
    using padded_text by (simp add: two_digits_def show_digits_nat [symmetric])
  have micros: "list_all (\<lambda>c. \<not> is_space c) (micros_text n)" for n
    using padded_text marks by (simp add: micros_text_def show_digits_nat [symmetric])
  have "list_all (\<lambda>c. \<not> is_space c) (iso_date d)" for d
    using padded_text marks by (simp add: iso_date_def split: prod.split)
  moreover have "list_all (\<lambda>c. \<not> is_space c) (clock_text n)" for n
    using two micros marks by (simp add: clock_text_def)
  moreover have "list_all (\<lambda>c. \<not> is_space c) (offset_text z)" for z
    using two micros marks by (simp add: offset_text_def offset_body_def split: option.split)
  ultimately show ?thesis using marks by (simp add: isoformat_def)
qed

lemma payload_time_read: "valid_datetime t \<Longrightarrow> payload_time (Some (JStr (isoformat t))) label = Inr t"
  using nonblank_iso(2) [of t]
  by (simp add: payload_time_def payload_text_def plan_text_def nonblank_def strip_no_space [OF isoformat_text] fromisoformat_isoformat)

lemma plan_read:
  assumes "storable_plan p"
  shows "plan_from_metadata (sort_data [(''paper_execution_plan'', JObj (plan_data p))]) = Inr p"
proof -
  have init: "paper_plan_init p = Inr p" using assms by (simp add: storable_plan_def)
  then have aware: "dt_aware (pe_submitted_at p)" "dt_aware (pe_book_observed_at p)"
    by (auto simp: paper_plan_init_def plan_aware_def rbind_eq_Inr split: if_splits)
  have money: "wf_money (pe_gross p)" "wf_money (pe_fee p)" "currency (pe_fee p) = currency (pe_gross p)"
    using assms plan_amounts(5) [OF init] by (simp_all add: storable_plan_def)
  then have six: "dec6 (amount (pe_gross p))" "dec6 (amount (pe_fee p))" by (simp_all add: wf_money_def)
  have cur: "payload_text (Some (JStr (currency (pe_gross p)))) label = Inr (currency (pe_gross p))" for label
    using money(1) by (auto intro!: payload_text_read simp: wf_money_def plain_def cur_ok_def) (metis strip_upper upper_idem)
  have gross: "money_of (PyDecimal (amount (pe_gross p))) (currency (pe_gross p)) = Inr (pe_gross p)"
    "money_of (PyDecimal (amount (pe_fee p))) (currency (pe_gross p)) = Inr (pe_fee p)"
    using money wf_money_dest [OF money(1)] wf_money_dest [OF money(2)]
    by (simp_all add: money_of_def)
  have texts: "payload_text (Some (JStr v)) label = Inr v"
    if "v \<in> {pe_intent_id p, pe_backend_order_id p, pe_book_hash p, pe_condition_id p, pe_token_id p, pe_reason p}" for v label
    using assms that by (intro payload_text_read) (auto simp: storable_plan_def)
  have levels: "payload_levels (Some (JArr (map (sort_json \<circ> level_data) (pe_levels p)))) = Inr (pe_levels p)"
    using assms by (intro payload_levels_read) (simp add: storable_plan_def)
  have sorted: "sort_json (opt_json v) = opt_json v" for v by (cases v) (simp_all add: opt_json_def)
  have times: "valid_datetime (pe_submitted_at p)" "valid_datetime (pe_book_observed_at p)"
    using assms by (simp_all add: storable_plan_def)
  have field: "jget (sort_data (plan_data p)) k = map_option sort_json (map_of (plan_data p) k)" for k
    unfolding jget_sort by (simp add: jget_def)
  have inner: "payload_mapping (jget (sort_data [(''paper_execution_plan'', JObj (plan_data p))]) ''paper_execution_plan'')
      ''paper_execution_plan'' = Inr (sort_data (plan_data p))"
    by (simp add: jget_sort jget_def payload_mapping_def sort_data_def)
  have whole: "\<lparr>pe_intent_id = pe_intent_id p, pe_status = pe_status p, pe_backend_order_id = pe_backend_order_id p,
      pe_submitted_at = pe_submitted_at p, pe_book_hash = pe_book_hash p, pe_book_observed_at = pe_book_observed_at p,
      pe_condition_id = pe_condition_id p, pe_token_id = pe_token_id p, pe_requested = pe_requested p,
      pe_filled = pe_filled p, pe_average = pe_average p, pe_worst = pe_worst p, pe_gross = pe_gross p,
      pe_fee = pe_fee p, pe_levels = pe_levels p, pe_reason = pe_reason p\<rparr> = p"
    by (cases p) simp
  show ?thesis
    unfolding plan_from_metadata_def inner rbind_simps field
    by (simp add: plan_data_def payload_status_read payload_time_read times levels cur texts gross sorted
        plan_aware_def aware payload_decimal_read payload_optional_read plan_amounts [OF init] six init whole)
qed

lemma plan_survives_store:
  assumes "storable_plan p" and "encode_metadata sha (Some (plan_metadata p)) = Inr (j, h)"
  shows "rbind (decode_metadata sha j h) plan_from_metadata = Inr p"
proof -
  let ?v = "JObj [(''paper_execution_plan'', JObj (plan_data p))]"
  have "j = canonical_json ?v" "h = sha j"
    using assms(2) by (simp_all only: encode_metadata_def option.case plan_encoded rbind_simps Let_def) auto
  moreover have "valid_json ?v"
    by (simp add: plan_data_def level_data_def list_all_iff)
  ultimately have "decode_metadata sha j h = Inr (sort_data [(''paper_execution_plan'', JObj (plan_data p))])"
    using load_canonical_json [of ?v] by (simp add: decode_metadata_def load_json_object_def sort_data_def)
  then show ?thesis by (simp add: plan_read [OF assms(1)])
qed

text \<open>C38. A paper order resumes exactly where it stopped: take a plan for the whole quantity of its intent,
  stored as adapter metadata, and any history of the ledger that holds the first n of the plan's
  events about the order, in order and without repeated identifiers, among whatever other events.
  The plan is read back from its stored JSON, reconciliation emits exactly the remaining planned
  events, and the order is terminal exactly when none remain.\<close>

theorem paper_recovery_resumes:
  assumes "storable_plan p" and "events_for_plan sha i p = Inr es" and "pe_requested p = oi_quantity i"
    and "encode_metadata sha (Some (plan_metadata p)) = Inr (j, h)" and "pa_loader a = Some load"
    and "load (oi_intent_id i) = rbind (decode_metadata sha j h) (\<lambda>d. Inr (Some d))"
    and "replay sha fp cur hist = Inr s" and "list_all wf_event hist" and "distinct (map ev_event_id hist)"
    and "filter (\<lambda>e. recovery_event_intent (ev_body e) = Some (oi_intent_id i)) hist = take n es" and "n \<le> length es"
    and "get_order s (oi_intent_id i) = Inr ord" and "oa_intent ord = i"
  shows "reconcile_order sha a ord = Inr (drop n es) \<and> (is_terminal (oa_state ord) \<longleftrightarrow> n = length es)"
proof -
  have init: "paper_plan_init p = Inr p" using assms(1) by (simp add: storable_plan_def)
  have load: "load_plan a (oi_intent_id i) = Inr (Some p)"
    using plan_survives_store [OF assms(1,4)] by (auto simp: load_plan_def assms(5,6) rbind_eq_Inr)
  have bodies: "planned_bodies p (oi_intent_id i) (map ev_body es)" using events_for_plan_bodies [OF assms(2) init] by blast
  have "dict_get (ls_orders s) (oi_intent_id i) = Some ord"
    using assms(12) by (auto simp: get_order_def split: option.splits)
  then have stage: "at_stage p n (i, oa_state ord, oa_filled_quantity ord, oa_fill_fingerprints ord)"
    using history_stage [OF bodies assms(7-11)] assms(13) by (simp add: order_progress_def)
  have len: "length es = (if pe_status p = PLAN_REJECTED then 2 else if pe_status p = FULL_FILL then 3 else 4)"
    using bodies by (auto simp: planned_bodies_def dest!: arg_cong [of "map ev_body es" _ length] split: if_splits)
  have n: "n = 0 \<or> n = 1 \<or> n = 2 \<or> n = 3 \<or> n = 4" using assms(11) len by (auto split: if_splits)
  have quantity: "pe_status p = FULL_FILL \<longrightarrow> pe_filled p = oi_quantity i"
    "pe_status p = PARTIAL_FILL \<longrightarrow> pe_filled p \<noteq> oi_quantity i"
    using plan_init_amounts [OF init] assms(3) by auto
  show ?thesis
    using n stage quantity len assms(11)
    by (cases "pe_status p"; elim disjE) (simp_all add: reconcile_order_def assms(2,13) load at_stage_def)
qed

end
