(* ===== verification/Paper_Valuation_Props.thy ===== *)
theory Paper_Valuation_Props
  imports Paper_Valuation Paper_Props
begin

text \<open>
  What a paper valuation contains, and that the ledger it was made for accepts it.
\<close>

section \<open>Marks\<close>

lemma money_sub_wf: "money_sub m n = Inr r \<Longrightarrow> cur_ok (currency m) \<Longrightarrow> wf_money r \<and> currency r = currency m"
  by (auto simp: money_sub_def rbind_eq_Inr wf_money_def dest: quantize6_result)

lemma liquidation_value_wf:
  assumes "liquidation_value q b policy cur = Inr m" and "cur_ok cur"
  shows "wf_money m \<and> currency m = cur"
proof -
  have "money_zero cur = Inr m \<or> (\<exists>g fee. money_of (PyDecimal g) cur = Inr fee \<and> (\<exists>x. money_sub fee x = Inr m))"
    using assms(1) by (auto simp: liquidation_value_def Let_def rbind_eq_Inr simp del: money_zero_ok split: if_splits)
  then show ?thesis
    using assms(2) by (auto simp: money_of_def rbind_eq_Inr wf_money_def dec6_zero dest!: money_sub_wf)
qed

definition mark_of :: "string \<Rightarrow> position_key \<times> position \<Rightarrow> position_valuation \<Rightarrow> bool" where
  "mark_of cur e m \<longleftrightarrow> pv_position_key m = fst e \<and> pv_quantity m = pos_quantity (snd e)
     \<and> wf_money (pv_liquidation_value m) \<and> currency (pv_liquidation_value m) = cur
     \<and> 0 \<le> amount (pv_liquidation_value m)"

lemma paper_mark_of:
  assumes "paper_mark books policy t age (ls_currency s) e = Inr m" and "ledger_inv s" and "e \<in> set (ls_positions s)"
  shows "mark_of (ls_currency s) e m"
proof -
  obtain k p where e: "e = (k, p)" by (cases e)
  have p: "k = (pos_market_id p, pos_outcome_id p)" "dec6 (pos_quantity p)" "cur_ok (ls_currency s)"
    using assms(2,3) by (auto simp: e ledger_inv_def wf_ledger_def ledger_ok_def position_ok_def wf_position_def)
  obtain b worth where b: "liquidation_value (pos_quantity p) b policy (ls_currency s) = Inr worth"
    and m: "position_valuation_init
      \<lparr>pv_market_id = pos_market_id p, pv_outcome_id = pos_outcome_id p, pv_quantity = pos_quantity p,
       pv_liquidation_value = worth, pv_observed_at = bk_observed_at b\<rparr> = Inr m"
    using assms(1) by (auto simp: paper_mark_def e rbind_eq_Inr split: option.splits)
  show ?thesis
    using m liquidation_value_wf [OF b p(3)] p(1,2)
    by (auto simp: position_valuation_init_def rbind_eq_Inr mark_of_def pv_position_key_def e
        require_nonnegative_def is_negative_def quantize6_dec6 split: if_splits)
qed

section \<open>Sums\<close>

lemma sum_marks_Inr:
  assumes "rfold (\<lambda>acc m. money_add acc (pv_liquidation_value m)) z marks = Inr mv" and "wf_money z"
    and "\<forall>m \<in> set marks. wf_money (pv_liquidation_value m)"
  shows "wf_money mv \<and> currency mv = currency z
    \<and> amount mv = amount z + (\<Sum>m \<leftarrow> marks. amount (pv_liquidation_value m))"
  using assms
proof (induction marks arbitrary: z)
  case (Cons m marks)
  then obtain z' where z': "money_add z (pv_liquidation_value m) = Inr z'"
    "rfold (\<lambda>acc m. money_add acc (pv_liquidation_value m)) z' marks = Inr mv"
    by (auto simp: rbind_eq_Inr)
  have "wf_money (pv_liquidation_value m)" using Cons.prems(3) by simp
  note step = money_add_InrD [OF z'(1) Cons.prems(2) this]
  then show ?case using Cons.IH [OF z'(2)] Cons.prems(3) by auto
qed auto

lemma check_marks_ok:
  assumes "\<forall>(k, p) \<in> set ps. \<exists>m. dict_get marks k = Some m \<and> mark_of cur (k, p) m"
    and "wf_money z" and "currency z = cur" and "0 \<le> amount z"
    and "amount z + (\<Sum>(k, p) \<leftarrow> ps. amount (pv_liquidation_value (the (dict_get marks k)))) < 10 ^ 22"
  shows "rfold (check_mark cur marks) z ps = Inr \<lparr>amount = amount z
    + (\<Sum>(k, p) \<leftarrow> ps. amount (pv_liquidation_value (the (dict_get marks k)))), currency = cur\<rparr>"
  using assms
proof (induction ps arbitrary: z)
  case Nil
  then show ?case by (cases z) simp
next
  case (Cons e ps)
  obtain k p m where e: "e = (k, p)" "dict_get marks k = Some m" "mark_of cur (k, p) m"
    using Cons.prems(1) by (cases e) auto
  let ?rest = "\<Sum>(k, p) \<leftarrow> ps. amount (pv_liquidation_value (the (dict_get marks k)))"
  have m: "wf_money (pv_liquidation_value m)" "currency (pv_liquidation_value m) = cur" "0 \<le> amount (pv_liquidation_value m)"
    "pv_quantity m = pos_quantity p"
    using e(3) by (simp_all add: mark_of_def)
  have "0 \<le> ?rest"
    using Cons.prems(1) by (intro sum_list_nonneg) (auto simp: mark_of_def)
  then have "amount z + amount (pv_liquidation_value m) < 10 ^ 22" using Cons.prems(5) e by simp
  then have add: "money_add z (pv_liquidation_value m) = Inr \<lparr>amount = amount z + amount (pv_liquidation_value m), currency = cur\<rparr>"
    using Cons.prems(2-4) m by (simp add: money_add_eq)
  then have "check_mark cur marks z e = Inr \<lparr>amount = amount z + amount (pv_liquidation_value m), currency = cur\<rparr>"
    using e m by (simp add: check_mark_def)
  moreover have "wf_money \<lparr>amount = amount z + amount (pv_liquidation_value m), currency = cur\<rparr>"
    using money_add_InrD [OF add Cons.prems(2) m(1)] by blast
  ultimately show ?case
    using Cons.IH [of "\<lparr>amount = amount z + amount (pv_liquidation_value m), currency = cur\<rparr>"] Cons.prems m e
    by (simp add: add.assoc)
qed

section \<open>The ledger accepts its valuation\<close>

lemma build_valuation_Inr:
  assumes "build_valuation s books policy t age = Inr v"
  obtains ms mv equity where
    "rmap (paper_mark books policy (to_utc t) age (ls_currency s))
       (filter (\<lambda>e. held (snd e)) (sort_key fst (ls_positions s))) = Inr ms"
    "sum_marks (ls_currency s) ms = Inr mv" "money_add (ls_cash s) mv = Inr equity"
    "pf_positions v = ms" "pf_equity v = equity" "pf_assembled_at v = to_utc t"
    "distinct (map pv_position_key ms)"
  using assms unfolding build_valuation_def portfolio_valuation_init_def Let_def
  by (auto simp: rbind_eq_Inr simp del: money_zero_ok split: if_splits)

lemma valuation_applies:
  assumes inv: "ledger_inv s" and opened: "ls_opened s" and build: "build_valuation s books policy t age = Inr v"
  shows "apply_portfolio_valuation s v = Inr s
    \<and> set (map pv_position_key (pf_positions v)) = set (dict_keys (open_positions s))
    \<and> (\<forall>m \<in> set (pf_positions v). \<exists>p. dict_get (ls_positions s) (pv_position_key m) = Some p
         \<and> pv_quantity m = pos_quantity p \<and> 0 \<le> amount (pv_liquidation_value m))
    \<and> amount (pf_equity v) = amount (ls_cash s) + (\<Sum>m \<leftarrow> pf_positions v. amount (pv_liquidation_value m))"
proof -
  let ?es = "filter (\<lambda>e. held (snd e)) (sort_key fst (ls_positions s))" and ?ps = "open_positions s"
  obtain ms mv equity where run: "rmap (paper_mark books policy (to_utc t) age (ls_currency s)) ?es = Inr ms"
    "sum_marks (ls_currency s) ms = Inr mv" "money_add (ls_cash s) mv = Inr equity"
    and v: "pf_positions v = ms" "pf_equity v = equity" and d: "distinct (map pv_position_key ms)"
    using build by (rule build_valuation_Inr)
  have wf: "cur_ok (ls_currency s)" "wf_money (ls_cash s)" "dict_ok (ls_positions s)" "currency (ls_cash s) = ls_currency s"
    using inv ledger_ok_currency [of s] by (auto simp: ledger_inv_def wf_ledger_def)
  have each: "list_all2 (mark_of (ls_currency s)) ?es ms"
    using run(1) paper_mark_of [OF _ inv]
    by (auto simp: rmap_list_all2 elim!: list.rel_mono_strong)
  have entries: "set ?es = set ?ps" by (auto simp: open_positions_def held_def)
  have keys: "pv_position_key ` set ms = set (dict_keys ?ps)"
  proof -
    have "map pv_position_key ms = map fst ?es"
      using each by (induction rule: list_all2_induct) (auto simp: mark_of_def)
    then have "pv_position_key ` set ms = fst ` set ?es" by (metis set_map)
    then show ?thesis unfolding entries by simp
  qed
  have marks: "\<exists>m. dict_get (mark_dict ms) k = Some m \<and> mark_of (ls_currency s) (k, p) m" if "(k, p) \<in> set ?ps" for k p
  proof -
    have "(k, p) \<in> set ?es" using that by (simp only: entries)
    then obtain m where "m \<in> set ms" "mark_of (ls_currency s) (k, p) m"
      using list_all2_left [OF each] by meson
    then show ?thesis using mark_dict_get [OF d] by (auto simp: mark_of_def)
  qed
  have sound: "m \<in> set ms \<Longrightarrow> wf_money (pv_liquidation_value m)" for m
    using list_all2_right [OF each] by (fastforce simp: mark_of_def)
  have zero: "money_zero (ls_currency s) = Inr \<lparr>amount = 0, currency = ls_currency s\<rparr>" using wf(1) by simp
  have total: "wf_money mv" "currency mv = ls_currency s" "amount mv = (\<Sum>m \<leftarrow> ms. amount (pv_liquidation_value m))"
  proof -
    have z: "wf_money (coins s 0)" using wf(1) by (simp add: wf_money_def dec6_zero)
    have "rfold (\<lambda>acc m. money_add acc (pv_liquidation_value m)) (coins s 0) ms = Inr mv"
      using run(2) by (simp only: sum_marks_def zero rbind_simps)
    from sum_marks_Inr [OF this z] sound
    show "wf_money mv" "currency mv = ls_currency s" "amount mv = (\<Sum>m \<leftarrow> ms. amount (pv_liquidation_value m))"
      by (blast, simp, simp)
  qed
  let ?val = "\<lambda>k. amount (pv_liquidation_value (the (dict_get (mark_dict ms) k)))"
  have "(\<Sum>(k, p) \<leftarrow> ?ps. ?val k) = (\<Sum>k \<leftarrow> dict_keys ?ps. ?val k)" by (simp add: case_prod_beta' comp_def)
  also have "\<dots> = (\<Sum>k \<in> set (dict_keys ?ps). ?val k)"
  proof (rule sum_list_distinct_conv_sum_set)
    show "distinct (dict_keys ?ps)" using wf(3) by (auto simp: dict_ok_def open_positions_def intro: distinct_map_filter)
  qed
  also have "\<dots> = (\<Sum>k \<leftarrow> map pv_position_key ms. ?val k)"
    unfolding keys [symmetric] set_map [symmetric] by (rule sum_list_distinct_conv_sum_set [OF d, symmetric])
  also have "map ?val (map pv_position_key ms) = map (\<lambda>m. amount (pv_liquidation_value m)) ms"
  proof -
    have "dict_get (mark_dict ms) (pv_position_key m) = Some m" if "m \<in> set ms" for m
      using mark_dict_get [OF d] that by blast
    then show ?thesis by simp
  qed
  finally have sum: "(\<Sum>(k, p) \<leftarrow> ?ps. ?val k) = amount mv" by (simp add: total(3))
  have "amount mv < 10 ^ 22" using total(1) by (auto simp: wf_money_def dec6_def abs_less_iff)
  moreover have "\<forall>(k, p) \<in> set ?ps. \<exists>m. dict_get (mark_dict ms) k = Some m \<and> mark_of (ls_currency s) (k, p) m"
    using marks by blast
  moreover have "wf_money (coins s 0)" using wf(1) by (simp add: wf_money_def dec6_zero)
  moreover have "mv = coins s (amount mv)" using total(2) by (cases mv) simp
  ultimately have "rfold (check_mark (ls_currency s) (mark_dict ms)) (coins s 0) ?ps = Inr mv"
    using check_marks_ok [of ?ps "mark_dict ms" "ls_currency s" "coins s 0"] sum by simp
  moreover have equity: "currency equity = ls_currency s" "amount equity = amount (ls_cash s) + amount mv"
    using money_add_InrD [OF run(3) wf(2) total(1)] total(2) by simp_all
  moreover have "set (dict_keys (mark_dict ms)) = set (dict_keys ?ps)" using mark_dict_keys keys by metis
  ultimately have "apply_portfolio_valuation s v = Inr s"
    using run(3) opened v unfolding apply_portfolio_valuation_def mark_dict_def [symmetric]
    by (simp add: require_opened_def zero Let_def)
  moreover have "\<exists>p. dict_get (ls_positions s) (pv_position_key m) = Some p
      \<and> pv_quantity m = pos_quantity p \<and> 0 \<le> amount (pv_liquidation_value m)" if "m \<in> set ms" for m
  proof -
    obtain e where e: "e \<in> set ?es" "mark_of (ls_currency s) e m" using list_all2_right [OF each \<open>m \<in> set ms\<close>] by blast
    then have "dict_get (ls_positions s) (fst e) = Some (snd e)"
      using dict_entry_get [OF wf(3), of "fst e" "snd e"] by simp
    then show ?thesis using e(2) by (auto simp: mark_of_def)
  qed
  ultimately show ?thesis using v equity(2) total(3) keys by simp
qed

text \<open>C39. The ledger accepts the valuation made for it: on every well-formed opened ledger, the event that
  records the bid-side valuation of its open positions, under a new identifier, is accepted and
  leaves cash, orders and positions unchanged; the valuation marks each open position once, at its
  whole quantity, and its equity is the cash plus the marks.\<close>

theorem paper_valuation_accepted:
  assumes "ledger_inv s" and "ls_opened s" and "build_valuation s books policy t age = Inr v"
    and "ev_event_id e \<notin> set (dict_keys (ls_fingerprints s))" and "ev_body e = PortfolioValuationRecorded v"
  shows "apply_event sha fp s e = Inr (record_event s e (fp e))
    \<and> set (map pv_position_key (pf_positions v)) = set (dict_keys (open_positions s))
    \<and> distinct (map pv_position_key (pf_positions v))
    \<and> (\<forall>m \<in> set (pf_positions v). \<exists>p. dict_get (ls_positions s) (pv_position_key m) = Some p
         \<and> pv_quantity m = pos_quantity p \<and> 0 \<le> amount (pv_liquidation_value m))
    \<and> amount (pf_equity v) = amount (ls_cash s) + (\<Sum>m \<leftarrow> pf_positions v. amount (pv_liquidation_value m))"
proof -
  have distinct: "distinct (map pv_position_key (pf_positions v))"
    using assms(3) by (rule build_valuation_Inr) simp
  have applies: "apply_body sha s (ev_body e) = Inr s"
    using valuation_applies [OF assms(1-3)] assms(5) by simp
  have "wf_ledger (record_event s e (fp e))" using assms(1) by (simp add: ledger_inv_def)
  moreover have "ledger_ok (record_event s e (fp e))"
    using assms(1) by (simp add: ledger_inv_def record_event_def ledger_ok_def)
  ultimately have "assert_invariants (record_event s e (fp e)) = Inr ()" using assert_invariants_ok by blast
  moreover have "dict_get (ls_fingerprints s) (ev_event_id e) = None"
    using assms(4) by (simp add: map_of_eq_None_iff)
  ultimately have "apply_event sha fp s e = Inr (record_event s e (fp e))"
    by (simp add: apply_event_def applies)
  then show ?thesis using valuation_applies [OF assms(1-3)] distinct by simp
qed

end
