(* ===== verification/Paper_Samples.thy ===== *)
theory Paper_Samples
  imports Paper_Valuation_Props Ledger_Witnesses Market_Samples
begin

text \<open>
  A paper order of ten shares against a book that offers four: the plan, the history of a crash after
  the submission, and the plan whose fee the ledger refuses.
\<close>

text \<open>A digest without blanks.\<close>

definition solid_sha :: "string \<Rightarrow> string" where
  "solid_sha x = filter (\<lambda>c. \<not> is_space c) x"

definition flat_costs :: cost_policy where
  "flat_costs = sample_costs\<lparr>cp_platform_fee_rate := 0\<rparr>"

definition short_plan :: paper_plan where
  "short_plan =
     \<lparr>pe_intent_id = ''b'', pe_status = PARTIAL_FILL, pe_backend_order_id = stable_id solid_sha ''order'' ''b'',
      pe_submitted_at = moment 101, pe_book_hash = ''h'', pe_book_observed_at = moment 100,
      pe_condition_id = ''0x1'', pe_token_id = ''7'', pe_requested = 10, pe_filled = 4,
      pe_average = Some (2 / 5), pe_worst = Some (2 / 5), pe_gross = usdc (8 / 5), pe_fee = usdc (7 / 100),
      pe_levels = [\<lparr>pl_price = 2 / 5, pl_quantity = 4\<rparr>],
      pe_reason = ''paper order partially filled; unavailable remainder cancelled''\<rparr>"

definition short_events :: "ledger_event list" where
  "short_events = map (\<lambda>(kind, b). \<lparr>ev_event_id = stable_id solid_sha kind ''b'', ev_occurred_at = moment 101, ev_body = b\<rparr>)
     [(''submitted'', OrderSubmitted ''b'' (stable_id solid_sha ''order'' ''b'')),
      (''acknowledged'', OrderAcknowledged ''b''),
      (''fill'', FillReceived \<lparr>fl_intent_id = ''b'', fl_fill_id = stable_id solid_sha ''fill_id'' ''b'',
        fl_quantity = 4, fl_price = 2 / 5, fl_fee = usdc (7 / 100)\<rparr>),
      (''remainder_cancelled'', OrderCancelled ''b'' (pe_reason short_plan))]"

lemma short_plan_valid: "paper_plan_init short_plan = Inr short_plan"
  by code_simp

lemma short_plan_events: "events_for_plan solid_sha (buy_intent 10 (1 / 10)) short_plan = Inr short_events"
  by code_simp

definition short_submitted :: ledger_state where
  "short_submitted = (state_ordered 100 10 (1 / 10))\<lparr>
     ls_orders := [(''b'', (buy_order 10 (1 / 10) SUBMITTED)\<lparr>oa_backend_order_id := Some (stable_id solid_sha ''order'' ''b'')\<rparr>)],
     ls_fingerprints := [(''1'', ''h''), (''2'', ''h''), (stable_id solid_sha ''submitted'' ''b'', ''h'')]\<rparr>"

text \<open>Only a fill uses the digest.\<close>

lemma apply_event_digest:
  "(case ev_body e of FillReceived _ \<Rightarrow> False | _ \<Rightarrow> True) \<Longrightarrow> apply_event sha fp s e = apply_event sha' fp s e"
proof -
  assume "case ev_body e of FillReceived _ \<Rightarrow> False | _ \<Rightarrow> True"
  then have same: "apply_body sha s (ev_body e) = apply_body sha' s (ev_body e)" by (cases "ev_body e") simp_all
  show ?thesis unfolding apply_event_def same ..
qed

lemma short_opening:
  "apply_event solid_sha sample_fp state_empty (open_event 100) = Inr (state_opened 100)"
  "apply_event solid_sha sample_fp (state_opened 100) (order_event 10 (1 / 10)) = Inr (state_ordered 100 10 (1 / 10))"
  unfolding eval_opened [symmetric] eval_ordered [symmetric]
  by (rule apply_event_digest, simp add: open_event_def order_event_def sample_event_def)+

lemma short_submission:
  "apply_event solid_sha sample_fp (state_ordered 100 10 (1 / 10)) (hd short_events) = Inr short_submitted"
  by code_simp

definition short_stored :: "string \<times> string" where
  "short_stored = (case encode_metadata solid_sha (Some (plan_metadata short_plan)) of Inr stored \<Rightarrow> stored | Inl _ \<Rightarrow> ([], []))"

definition short_adapter :: paper_adapter where
  "short_adapter = \<lparr>pa_policy = flat_costs, pa_maximum_book_age = seconds 10, pa_books = None,
     pa_loader = Some (\<lambda>i. rbind (decode_metadata solid_sha (fst short_stored) (snd short_stored)) (\<lambda>d. Inr (Some d))),
     pa_recorder = None, pa_clock = moment 101\<rparr>"

lemma paper_recovery_resumes_witness:
  "reconcile_order solid_sha short_adapter
     ((buy_order 10 (1 / 10) SUBMITTED)\<lparr>oa_backend_order_id := Some (stable_id solid_sha ''order'' ''b'')\<rparr>) =
   Inr (tl short_events)"
proof -
  let ?i = "buy_intent 10 (1 / 10)"
    and ?ord = "(buy_order 10 (1 / 10) SUBMITTED)\<lparr>oa_backend_order_id := Some (stable_id solid_sha ''order'' ''b'')\<rparr>"
    and ?hist = "[open_event 100, order_event 10 (1 / 10), hd short_events]"
  have "storable_plan short_plan" by code_simp
  moreover have "encode_metadata solid_sha (Some (plan_metadata short_plan)) = Inr (fst short_stored, snd short_stored)"
    unfolding short_stored_def encode_metadata_def option.case plan_encoded rbind_simps Let_def by simp
  moreover have "replay solid_sha sample_fp ''usdc'' ?hist = Inr short_submitted"
    using short_opening short_submission by (simp add: replay_def eval_empty)
  moreover have "list_all wf_event ?hist" by code_simp
  moreover have "distinct (map ev_event_id ?hist)" by code_simp
  moreover have "filter (\<lambda>e. recovery_event_intent (ev_body e) = Some (oi_intent_id ?i)) ?hist = take 1 short_events"
    by code_simp
  moreover have "get_order short_submitted (oi_intent_id ?i) = Inr ?ord" by code_simp
  moreover have "pe_requested short_plan = oi_quantity ?i" "oa_intent ?ord = ?i" "1 \<le> length short_events"
    by (simp_all add: short_plan_def buy_intent_def buy_order_def short_events_def)
  ultimately have "reconcile_order solid_sha short_adapter ?ord = Inr (drop 1 short_events)"
    using paper_recovery_resumes [OF _ short_plan_events, of "fst short_stored" "snd short_stored" short_adapter]
    by (simp add: short_adapter_def)
  then show ?thesis by (simp add: drop_Suc)
qed

text \<open>The position of the partly filled sample order, sold into a bid of one half.\<close>

definition mark_book :: order_book where
  "mark_book = book_of [level (13 / 20) 200]"

definition sample_marks :: portfolio_valuation where
  "sample_marks = \<lparr>pf_positions = [\<lparr>pv_market_id = ''m'', pv_outcome_id = ''y'', pv_quantity = 4,
       pv_liquidation_value = usdc (193 / 100), pv_observed_at = moment 100\<rparr>],
     pf_equity = usdc (10032 / 100), pf_assembled_at = moment 101,
     pf_source = ''paper:bid-side-size-aware-net-exit-fees''\<rparr>"

definition marks_event :: ledger_event where
  "marks_event = sample_event ''9'' (PortfolioValuationRecorded sample_marks)"

lemma sample_liquidation: "liquidation_value 4 mark_book flat_costs ''USDC'' = Inr (usdc (193 / 100))"
  by code_simp

lemma sample_marks_built:
  "build_valuation state_filled (\<lambda>k. if k = (''m'', ''y'') then Some mark_book else None) flat_costs (moment 101)
     (seconds 10) = Inr sample_marks"
  by code_simp

lemma paper_valuation_accepted_witness:
  "apply_event solid_sha sample_fp state_filled marks_event =
     Inr (record_event state_filled marks_event (sample_fp marks_event))"
proof -
  have "ls_opened state_filled" by code_simp
  moreover have "ev_event_id marks_event \<notin> set (dict_keys (ls_fingerprints state_filled))" by code_simp
  moreover have "ev_body marks_event = PortfolioValuationRecorded sample_marks"
    by (simp add: marks_event_def sample_event_def)
  ultimately show ?thesis using paper_valuation_accepted [OF filled_inv _ sample_marks_built] by blast
qed

text \<open>
  The plan of a fill checks value and fee together against the reservation; the ledger keeps the fee
  within the order's own fee reserve. A book below the limit price leaves room for a fee the ledger
  refuses: the plan is valid, and no event of its order can be appended, at recovery either.
\<close>

definition cheap_book :: order_book where
  "cheap_book = book_of [level (1 / 4) 40]"

definition cheap_plan :: paper_plan where
  "cheap_plan = short_plan\<lparr>pe_status := FULL_FILL, pe_filled := 10, pe_average := Some (1 / 4), pe_worst := Some (1 / 4),
     pe_gross := usdc (5 / 2), pe_levels := [\<lparr>pl_price = 1 / 4, pl_quantity = 10\<rparr>],
     pe_reason := ''paper order fully filled from contemporaneous displayed depth''\<rparr>"

definition cheap_fill :: ledger_event where
  "cheap_fill = \<lparr>ev_event_id = stable_id solid_sha ''fill'' ''b'', ev_occurred_at = moment 101,
     ev_body = FillReceived \<lparr>fl_intent_id = ''b'', fl_fill_id = stable_id solid_sha ''fill_id'' ''b'',
       fl_quantity = 10, fl_price = 1 / 4, fl_fee = usdc (7 / 100)\<rparr>\<rparr>"

definition cheap_state :: ledger_state where
  "cheap_state = (state_ordered 100 10 (1 / 100))\<lparr>ls_orders := [(''b'', buy_order 10 (1 / 100) ACKNOWLEDGED)]\<rparr>"

lemma cheap_levels:
  "buy_levels (buy_intent 10 (1 / 100)) cheap_book flat_costs = Inr [\<lparr>pl_price = 1 / 4, pl_quantity = 10\<rparr>]"
  by code_simp

lemma cheap_plan_levels:
  "plan_of_levels solid_sha (buy_intent 10 (1 / 100)) cheap_book flat_costs (moment 101)
     [\<lparr>pl_price = 1 / 4, pl_quantity = 10\<rparr>] 10 = Inr cheap_plan"
  by code_simp

lemma cheap_events: "events_for_plan solid_sha (buy_intent 10 (1 / 100)) cheap_plan = Inr [hd short_events, short_events ! 1, cheap_fill]"
  by code_simp

lemma cheap_refused:
  "apply_body solid_sha cheap_state (ev_body cheap_fill) =
     Inl (InvariantViolation ''fill fee exceeds the remaining fee reserve'')"
  by code_simp

lemma cheap_checks: "require_fresh cheap_book (to_utc (moment 101)) (seconds 10) = Inr ()"
  "quantize6 (level_total [\<lparr>pl_price = 1 / 4, pl_quantity = 10\<rparr>]) = Inr 10" "to_utc (moment 101) = moment 101"
  "dt_aware (moment 101)"
  by code_simp+

theorem plan_refused_by_ledger:
  "build_plan solid_sha (buy_intent 10 (1 / 100)) cheap_book flat_costs (moment 101) (seconds 10) = Inr cheap_plan
   \<and> events_for_plan solid_sha (buy_intent 10 (1 / 100)) cheap_plan = Inr [hd short_events, short_events ! 1, cheap_fill]
   \<and> apply_event solid_sha fp cheap_state cheap_fill =
       Inl (InvariantViolation ''fill fee exceeds the remaining fee reserve'')"
proof (intro conjI)
  have "oi_side (buy_intent 10 (1 / 100)) = BUY" "oi_quantity (buy_intent 10 (1 / 100)) = 10"
    "bk_minimum_order_size cheap_book = 5"
    by (simp_all add: buy_intent_def cheap_book_def book_of_def)
  then show "build_plan solid_sha (buy_intent 10 (1 / 100)) cheap_book flat_costs (moment 101) (seconds 10) = Inr cheap_plan"
    using cheap_checks by (simp add: build_plan_def Let_def cheap_levels cheap_plan_levels)
  show "events_for_plan solid_sha (buy_intent 10 (1 / 100)) cheap_plan = Inr [hd short_events, short_events ! 1, cheap_fill]"
    by (rule cheap_events)
  have "dict_get (ls_fingerprints cheap_state) (ev_event_id cheap_fill) = None" by code_simp
  then show "apply_event solid_sha fp cheap_state cheap_fill =
       Inl (InvariantViolation ''fill fee exceeds the remaining fee reserve'')"
    by (simp add: apply_event_def cheap_refused)
qed

end
