(* ===== verification/Resolution.thy ===== *)
theory Resolution
  imports Store_Ops Temperature
begin

text \<open>
  \<open>weatherbot/resolution/model.py\<close>, \<open>context.py\<close> and \<open>worker.py\<close>: the worker that polls the
  resolution of every market with an open position and settles it over the event store. The context
  provider and the source are the two protocols of the worker; the provider over stored decisions is
  defined below. The exceptions of the context, of market identifiers and of calendars are subclasses
  of ValueError that no handler tells apart, and appear as such.
\<close>

section \<open>Polling results\<close>

datatype poll_status =
    POLL_PENDING | POLL_DELAYED | POLL_DISPUTED | POLL_UNAVAILABLE | POLL_MALFORMED | POLL_FINAL | POLL_VOID

definition terminal_poll :: "poll_status \<Rightarrow> bool" where
  "terminal_poll s \<longleftrightarrow> s \<in> {POLL_FINAL, POLL_VOID}"

record resolution_context =
  rx_market_id :: string
  rx_condition_id :: string
  rx_market_date :: date
  rx_market_timezone :: string
  rx_bucket :: bucket
  rx_declared_source :: "string option"

record poll_result =
  po_market_id :: string
  po_status :: poll_status
  po_checked_at :: datetime
  po_reason :: string
  po_evidence :: "resolution_evidence option"
  po_resolution :: "market_resolution option"

definition poll_result_init :: "poll_result \<Rightarrow> poll_result result" where
  "poll_result_init p =
     (if terminal_poll (po_status p) \<noteq> (po_evidence p \<noteq> None \<and> po_resolution p \<noteq> None)
      then Inl (ValueError ''terminal poll results require evidence and resolution'')
      else if (case po_evidence p of None \<Rightarrow> False | Some e \<Rightarrow> re_market_id e \<noteq> po_market_id p)
      then Inl (ValueError ''poll evidence belongs to another market'')
      else if (case po_resolution p of None \<Rightarrow> False | Some r \<Rightarrow> mr_market_id r \<noteq> po_market_id p)
      then Inl (ValueError ''poll resolution belongs to another market'')
      else if strip (po_reason p) = [] then Inl (ValueError ''poll result reason must not be blank'')
      else Inr p)"

record cycle_item =
  ci_market_id :: string
  ci_status :: poll_status
  ci_reason :: string
  ci_events :: int
  ci_settled :: int

record cycle_report =
  cy_started_at :: datetime
  cy_finished_at :: datetime
  cy_items :: "cycle_item list"

definition cycle_checked :: "cycle_report \<Rightarrow> int" where
  "cycle_checked c = int (length (cy_items c))"

definition cycle_resolved :: "cycle_report \<Rightarrow> int" where
  "cycle_resolved c = int (length (filter (\<lambda>i. ci_status i = POLL_FINAL) (cy_items c)))"

definition cycle_voided :: "cycle_report \<Rightarrow> int" where
  "cycle_voided c = int (length (filter (\<lambda>i. ci_status i = POLL_VOID) (cy_items c)))"

definition cycle_settled :: "cycle_report \<Rightarrow> int" where
  "cycle_settled c = sum_list (map ci_settled (cy_items c))"

definition cycle_empty :: "datetime \<Rightarrow> cycle_report" where
  "cycle_empty t = \<lparr>cy_started_at = t, cy_finished_at = t, cy_items = []\<rparr>"

section \<open>The context of a stored decision\<close>

definition context_text :: "json option \<Rightarrow> string \<Rightarrow> string result" where
  "context_text v label =
     (case v of
        Some (JStr s) \<Rightarrow>
          if strip s = [] then Inl (ValueError (label @ '' must be a non-blank string'')) else Inr (strip s)
      | _ \<Rightarrow> Inl (ValueError (label @ '' must be a non-blank string'')))"

definition optional_context_text :: "json option \<Rightarrow> string \<Rightarrow> string option result" where
  "optional_context_text v label =
     (if v \<in> {None, Some JNull, Some (JStr [])} then Inr None
      else rbind (context_text v label) (\<lambda>s. Inr (Some s)))"

definition key_bound :: "string \<Rightarrow> string \<Rightarrow> decimal option result" where
  "key_bound s label =
     (if s \<in> {''-inf'', ''inf''} then Inr None
      else case parse_decimal s of
        None \<Rightarrow> Inl (ValueError (label @ '' is not decimal''))
      | Some None \<Rightarrow> Inl (ValueError (label @ '' must be a finite whole degree''))
      | Some (Some x) \<Rightarrow>
          if x \<noteq> of_int (round_half_even x)
          then Inl (ValueError (label @ '' must be a finite whole degree'')) else Inr (Some x))"

text \<open>\<^verbatim>\<open>str.split\<close> at a character.\<close>

fun split_at :: "char \<Rightarrow> string \<Rightarrow> string list" where
  "split_at c [] = [[]]"
| "split_at c (x # xs) =
     (if x = c then [] # split_at c xs
      else case split_at c xs of [] \<Rightarrow> [[x]] | w # ws \<Rightarrow> (x # w) # ws)"

definition context_error :: "'a result \<Rightarrow> 'a result" where
  "context_error m = (case m of Inl (TemperatureMarketError s) \<Rightarrow> Inl (ValueError s) | _ \<Rightarrow> m)"

definition bucket_from_key :: "json option \<Rightarrow> bucket result" where
  "bucket_from_key v =
     rbind (context_text v ''bucket_key'') (\<lambda>s.
     case split_at (CHR '':'') s of
       [u, lo, hi] \<Rightarrow>
         context_error (
           rbind (parse_unit u) (\<lambda>unit.
           rbind (key_bound lo ''bucket lower bound'') (\<lambda>l.
           rbind (key_bound hi ''bucket upper bound'') (\<lambda>h.
           if lo = ''-inf''
           then (case h of
               None \<Rightarrow> Inl (ValueError ''lower-tail bucket requires an upper bound'')
             | Some x \<Rightarrow> lower_tail (PyDecimal x) unit)
           else if hi = ''inf''
           then (case l of
               None \<Rightarrow> Inl (ValueError ''upper-tail bucket requires a lower bound'')
             | Some x \<Rightarrow> upper_tail (PyDecimal x) unit)
           else (case (l, h) of
               (Some x, Some y) \<Rightarrow> bounded_bucket (PyDecimal x) (PyDecimal y) unit
             | _ \<Rightarrow> Inl (ValueError ''bounded bucket requires finite bounds''))))))
     | _ \<Rightarrow> Inl (ValueError ''bucket_key must contain unit, lower, and upper''))"

definition is_hex_digit :: "char \<Rightarrow> bool" where
  "is_hex_digit c \<longleftrightarrow> c \<in> set ''0123456789abcdefABCDEF''"

definition condition_id_init :: "string \<Rightarrow> string result" where
  "condition_id_init s =
     (let t = strip s
      in if t = [] then Inl (ValueError ''condition id must not be blank'')
         else if take 2 t \<noteq> ''0x'' \<or> length t \<noteq> 66 \<or> \<not> list_all is_hex_digit (drop 2 t)
         then Inl (ValueError ''condition id must be a 32-byte 0x-prefixed hexadecimal identifier'')
         else Inr (lower t))"

definition calendar_zone :: "tzdb \<Rightarrow> string \<Rightarrow> string result" where
  "calendar_zone tz name =
     (let t = strip name
      in if t = [] then Inl (ValueError ''timezone name must not be blank'')
         else if tz t = None then Inl (ValueError ''unknown IANA timezone'') else Inr t)"

definition context_from_metadata ::
    "tzdb \<Rightarrow> string \<Rightarrow> (string \<times> json) list \<Rightarrow> resolution_context result" where
  "context_from_metadata tz m d =
     rbind (context_text (jget d ''condition_id'') ''condition_id'') (\<lambda>c.
     rbind (condition_id_init c) (\<lambda>condition.
     rbind (context_text (jget d ''market_date'') ''market_date'') (\<lambda>day_text.
     rbind (context_text (jget d ''market_timezone'') ''market_timezone'') (\<lambda>zone_name.
     rbind (calendar_zone tz zone_name) (\<lambda>zone.
     rbind (case date_fromisoformat day_text of
         None \<Rightarrow> Inl (ValueError ''market date is not ISO-8601'') | Some day \<Rightarrow> Inr day) (\<lambda>day.
     rbind (context_text (jget d ''bucket_key'') ''bucket_key'') (\<lambda>key.
     rbind (bucket_from_key (Some (JStr key))) (\<lambda>b.
     rbind (optional_context_text (jget d ''declared_resolution_source'') ''declared_resolution_source'') (\<lambda>source.
     Inr \<lparr>rx_market_id = m, rx_condition_id = condition, rx_market_date = day, rx_market_timezone = zone,
          rx_bucket = b, rx_declared_source = source\<rparr>)))))))))"

definition relevant_intents :: "ledger_state \<Rightarrow> string \<Rightarrow> string list" where
  "relevant_intents s m = map (\<lambda>ord. oi_intent_id (oa_intent ord))
     (filter (\<lambda>ord. oi_market_id (oa_intent ord) = m \<and> 0 < oa_filled_quantity ord) (map snd (ls_orders s)))"

definition stored_context :: "ledger_env \<Rightarrow> event_store \<Rightarrow> string \<Rightarrow> resolution_context result" where
  "stored_context env st m =
     rbind (load_state env st) (\<lambda>s.
     let intents = relevant_intents s m in
     if intents = []
     then Inl (ValueError ''market has no filled order intent carrying resolution context'')
     else rbind (list_decision_claims env st) (\<lambda>claims.
       rbind (rmap (\<lambda>c. context_from_metadata (le_tz env) m (dc_metadata c))
           (filter (\<lambda>c. case dc_intent_id c of None \<Rightarrow> False | Some i \<Rightarrow> i \<in> set intents) claims)) (\<lambda>contexts.
       case contexts of
         [] \<Rightarrow> Inl (ValueError ''market has no committed decision metadata'')
       | first # rest \<Rightarrow>
           if list_ex (\<lambda>c. c \<noteq> first) rest
           then Inl (ValueError ''market has conflicting resolution context across orders'')
           else Inr first)))"

section \<open>The worker\<close>

text \<open>
  The protocols of the worker, and the fingerprint of a recorded resolution.
\<close>

record resolver =
  rv_context :: "event_store \<Rightarrow> string \<Rightarrow> resolution_context result"
  rv_poll :: "resolution_context \<Rightarrow> datetime \<Rightarrow> poll_result result"
  rv_fingerprint :: "market_resolution \<Rightarrow> string"

definition resolution_event_id :: "(string \<Rightarrow> string) \<Rightarrow> string \<Rightarrow> string list \<Rightarrow> string" where
  "resolution_event_id sha kind parts =
     kind @ ''_'' @ sha (kind @ concat (map (\<lambda>p. CHR 0x0A # p) parts))"

definition is_open :: "position \<Rightarrow> bool" where
  "is_open p \<longleftrightarrow> pos_status p = OPEN \<and> 0 < pos_quantity p"

text \<open>The open positions of each market, by outcome, and the markets in the order they are visited.\<close>

definition market_positions :: "ledger_state \<Rightarrow> string \<Rightarrow> position list" where
  "market_positions s m = sort_key pos_outcome_id
     (filter (\<lambda>p. is_open p \<and> pos_market_id p = m) (map snd (ls_positions s)))"

definition open_markets :: "ledger_state \<Rightarrow> string list" where
  "open_markets s = sort (remdups (map pos_market_id (filter is_open (map snd (ls_positions s)))))"

definition settlement_event ::
    "(string \<Rightarrow> string) \<Rightarrow> datetime \<Rightarrow> string \<Rightarrow> string \<Rightarrow> position \<Rightarrow> ledger_event result" where
  "settlement_event sha t identity cur p =
     rbind (money_zero cur) (\<lambda>z.
     event_init sha
       \<lparr>ev_event_id = resolution_event_id sha ''position_settled'' [pos_market_id p, pos_outcome_id p, identity],
        ev_occurred_at = t, ev_body = PositionSettled (pos_market_id p) (pos_outcome_id p) z\<rparr>)"

definition settlement_events ::
    "(string \<Rightarrow> string) \<Rightarrow> position list \<Rightarrow> datetime \<Rightarrow> string \<Rightarrow> string \<Rightarrow> ledger_event list result" where
  "settlement_events sha ps t identity cur = rmap (settlement_event sha t identity cur) ps"

definition count_settled :: "ledger_state \<Rightarrow> int \<Rightarrow> position \<Rightarrow> int result" where
  "count_settled s n p =
     (case dict_get (ls_positions s) (pos_market_id p, pos_outcome_id p) of
        None \<Rightarrow> Inl KeyError
      | Some q \<Rightarrow> Inr (if pos_status q = SETTLED then n + 1 else n))"

definition append_and_report ::
    "ledger_env \<Rightarrow> (int \<Rightarrow> string) \<Rightarrow> event_store \<Rightarrow> position list \<Rightarrow> ledger_event list \<Rightarrow> string \<Rightarrow>
     poll_status \<Rightarrow> string \<Rightarrow> event_store \<times> cycle_item result" where
  "append_and_report env now st ps es m status reason =
     (case append_many env now st es of
        Inl x \<Rightarrow> (st, Inl x)
      | Inr (st', a) \<Rightarrow> (st', rbind (rfold (count_settled (ap_state a)) 0 ps) (\<lambda>n.
          Inr \<lparr>ci_market_id = m, ci_status = status, ci_reason = reason,
               ci_events = int (length (ap_appended a)), ci_settled = n\<rparr>)))"

definition settle_existing ::
    "ledger_env \<Rightarrow> resolver \<Rightarrow> (int \<Rightarrow> string) \<Rightarrow> event_store \<Rightarrow> ledger_state \<Rightarrow> position list \<Rightarrow>
     market_resolution \<Rightarrow> datetime \<Rightarrow> event_store \<times> cycle_item result" where
  "settle_existing env rv now st s ps r t =
     (case settlement_events (le_sha env) ps t (rv_fingerprint rv r) (ls_currency s) of
        Inl x \<Rightarrow> (st, Inl x)
      | Inr es \<Rightarrow> append_and_report env now st ps es (mr_market_id r)
          (case dict_get (ls_resolution_evidence s) (mr_market_id r) of
             Some e \<Rightarrow> if re_learning_eligible e then POLL_FINAL else POLL_VOID
           | None \<Rightarrow> POLL_FINAL)
          ''settled positions from an already-recorded market resolution'')"

definition terminal_events ::
    "ledger_env \<Rightarrow> ledger_state \<Rightarrow> position list \<Rightarrow> poll_result \<Rightarrow> datetime \<Rightarrow> ledger_event list result" where
  "terminal_events env s ps p t =
     (case (po_evidence p, po_resolution p) of
        (Some e, Some r) \<Rightarrow>
          rbind (event_init (le_sha env)
            \<lparr>ev_event_id = resolution_event_id (le_sha env) ''resolution_evidence'' [po_market_id p, re_payload_hash e],
             ev_occurred_at = t, ev_body = MarketResolutionEvidenceRecorded e\<rparr>) (\<lambda>ee.
          rbind (event_init (le_sha env)
            \<lparr>ev_event_id = resolution_event_id (le_sha env) ''market_resolved'' [po_market_id p, re_payload_hash e],
             ev_occurred_at = t, ev_body = MarketResolved r\<rparr>) (\<lambda>re.
          rbind (settlement_events (le_sha env) ps t (re_payload_hash e) (ls_currency s)) (\<lambda>es.
          Inr (ee # re # es))))
      | _ \<Rightarrow> Inl (ValueError ''terminal resolution poll lacks evidence or payout vector''))"

definition apply_terminal_poll ::
    "ledger_env \<Rightarrow> (int \<Rightarrow> string) \<Rightarrow> event_store \<Rightarrow> ledger_state \<Rightarrow> position list \<Rightarrow> poll_result \<Rightarrow>
     datetime \<Rightarrow> event_store \<times> cycle_item result" where
  "apply_terminal_poll env now st s ps p t =
     (case terminal_events env s ps p t of
        Inl x \<Rightarrow> (st, Inl x)
      | Inr es \<Rightarrow> append_and_report env now st ps es (po_market_id p) (po_status p) (po_reason p))"

definition settle_market ::
    "ledger_env \<Rightarrow> resolver \<Rightarrow> (int \<Rightarrow> string) \<Rightarrow> datetime \<Rightarrow> event_store \<Rightarrow> ledger_state \<Rightarrow> string \<Rightarrow>
     position list \<Rightarrow> event_store \<times> cycle_item result" where
  "settle_market env rv now t st s m ps =
     (case dict_get (ls_resolutions s) m of
        Some r \<Rightarrow> settle_existing env rv now st s ps r t
      | None \<Rightarrow>
          (case rbind (rv_context rv st m) (\<lambda>c. rv_poll rv c t) of
             Inl x \<Rightarrow> (st, Inl x)
           | Inr p \<Rightarrow>
               if terminal_poll (po_status p) then apply_terminal_poll env now st s ps p t
               else (st, Inr \<lparr>ci_market_id = m, ci_status = po_status p, ci_reason = po_reason p,
                              ci_events = 0, ci_settled = 0\<rparr>)))"

text \<open>
  The handler of one market: DomainError, PersistenceError, KeyError, TypeError and ValueError become
  a malformed item; what was appended before the exception stays.
\<close>

definition caught_error :: "exc \<Rightarrow> bool" where
  "caught_error x \<longleftrightarrow> decode_error x \<or> x = KeyError"

definition market_item ::
    "ledger_env \<Rightarrow> resolver \<Rightarrow> (int \<Rightarrow> string) \<Rightarrow> datetime \<Rightarrow> event_store \<Rightarrow> ledger_state \<Rightarrow> string \<Rightarrow>
     position list \<Rightarrow> event_store \<times> cycle_item result" where
  "market_item env rv now t st s m ps =
     (case settle_market env rv now t st s m ps of
        (st', Inl x) \<Rightarrow>
          if caught_error x
          then (st', Inr \<lparr>ci_market_id = m, ci_status = POLL_MALFORMED, ci_reason = ''resolution failed closed'',
                          ci_events = 0, ci_settled = 0\<rparr>)
          else (st', Inl x)
      | done_item \<Rightarrow> done_item)"

fun visit_markets ::
    "ledger_env \<Rightarrow> resolver \<Rightarrow> (int \<Rightarrow> string) \<Rightarrow> datetime \<Rightarrow> event_store \<Rightarrow> ledger_state \<Rightarrow>
     (string \<times> position list) list \<Rightarrow> event_store \<times> cycle_item list result" where
  "visit_markets env rv now t st s [] = (st, Inr [])"
| "visit_markets env rv now t st s ((m, ps) # rest) =
     (case market_item env rv now t st s m ps of
        (st', Inl x) \<Rightarrow> (st', Inl x)
      | (st', Inr shown) \<Rightarrow>
          (case load_state env st' of
             Inl x \<Rightarrow> (st', Inl x)
           | Inr s' \<Rightarrow>
               (case visit_markets env rv now t st' s' rest of
                  (st'', Inl x) \<Rightarrow> (st'', Inl x)
                | (st'', Inr items) \<Rightarrow> (st'', Inr (shown # items)))))"

definition run_once ::
    "ledger_env \<Rightarrow> resolver \<Rightarrow> (int \<Rightarrow> string) \<Rightarrow> datetime \<Rightarrow> datetime \<Rightarrow> event_store \<Rightarrow>
     event_store \<times> cycle_report result" where
  "run_once env rv now started finished st =
     (if \<not> dt_aware started
      then (st, Inl (ValueError ''resolution worker clock must return timezone-aware values''))
      else case load_state env st of
        Inl x \<Rightarrow> (st, Inl x)
      | Inr s \<Rightarrow>
          (case visit_markets env rv now started st s
              (map (\<lambda>m. (m, market_positions s m)) (open_markets s)) of
             (st', Inl x) \<Rightarrow> (st', Inl x)
           | (st', Inr items) \<Rightarrow>
               if \<not> dt_aware finished
               then (st', Inl (ValueError ''resolution worker clock must return timezone-aware values''))
               else (st', Inr \<lparr>cy_started_at = started, cy_finished_at = finished, cy_items = items\<rparr>)))"

end
