(* ===== verification/Resolution_Props.thy ===== *)
theory Resolution_Props
  imports Resolution Ledger_History Store_Runs Risk_Claims
begin

text \<open>
  What a resolution cycle does to the open positions: the events of a resolution settle exactly the
  positions they name, and a market's events are appended together.
\<close>

section \<open>Open positions\<close>

definition open_in :: "ledger_state \<Rightarrow> position list" where
  "open_in s = filter is_open (map snd (ls_positions s))"

lemma market_positions_open:
  "market_positions s m = sort_key pos_outcome_id (filter (\<lambda>p. pos_market_id p = m) (open_in s))"
proof -
  have "(\<lambda>p. is_open p \<and> pos_market_id p = m) = (\<lambda>p. pos_market_id p = m \<and> is_open p)" by auto
  then show ?thesis by (simp add: market_positions_def open_in_def)
qed

lemma set_market_positions:
  "set (market_positions s m) = {p \<in> set (open_in s). pos_market_id p = m}"
  by (auto simp: market_positions_open)

fun settles :: "event_body \<Rightarrow> position \<Rightarrow> bool" where
  "settles (PositionSettled m oc _) p \<longleftrightarrow> pos_market_id p = m \<and> pos_outcome_id p = oc"
| "settles _ p \<longleftrightarrow> False"

fun resolves :: "event_body \<Rightarrow> bool" where
  "resolves (MarketResolutionEvidenceRecorded _) = True"
| "resolves (MarketResolved _) = True"
| "resolves (PositionSettled _ _ _) = True"
| "resolves _ = False"

lemma map_same: "k \<notin> fst ` set d \<Longrightarrow> map (\<lambda>(k', w). (k', if k' = k then v else w)) d = d"
  by (induction d) auto

lemma dict_set_map:
  "distinct (map fst d) \<Longrightarrow> k \<in> fst ` set d \<Longrightarrow> dict_set d k v = map (\<lambda>(k', w). (k', if k' = k then v else w)) d"
proof (induction d)
  case (Cons x d)
  obtain k0 w0 where x: "x = (k0, w0)" by (cases x)
  show ?case
  proof (cases "k0 = k")
    case True
    then have "k \<notin> fst ` set d" using Cons.prems(1) x by simp
    from map_same [OF this, of v] show ?thesis using True x by simp
  next
    case False
    then show ?thesis using Cons x by auto
  qed
qed simp

lemma position_at_key:
  assumes "ledger_inv s" and "(k, p) \<in> set (ls_positions s)"
  shows "k = (pos_market_id p, pos_outcome_id p) \<and> dict_get (ls_positions s) k = Some p"
proof -
  have d: "distinct (map fst (ls_positions s))" using assms(1) by (simp add: ledger_inv_def wf_ledger_def dict_ok_def)
  then have "dict_get (ls_positions s) k = Some p" using assms(2) by (rule map_of_is_SomeI)
  then show ?thesis using ledger_ok_position [of s k p] assms(1) by (simp add: ledger_inv_def position_ok_def)
qed

lemma settle_open:
  assumes "ledger_inv s" and "dict_get (ls_positions s) (m, oc) = Some p" and "pos_status q = SETTLED"
    and "ls_positions t = dict_set (ls_positions s) (m, oc) q"
  shows "open_in t = filter (\<lambda>p. \<not> settles (PositionSettled m oc fee) p) (open_in s)"
proof -
  have d: "distinct (map fst (ls_positions s))" using assms(1) by (simp add: ledger_inv_def wf_ledger_def dict_ok_def)
  have "(m, oc) \<in> fst ` set (ls_positions s)" using map_of_SomeD [OF assms(2)] by force
  then have t: "ls_positions t = map (\<lambda>(k, p). (k, if k = (m, oc) then q else p)) (ls_positions s)"
    unfolding assms(4) by (rule dict_set_map [OF d])
  let ?h = "\<lambda>x. snd ((\<lambda>(k, p). (k, if k = (m, oc) then q else p)) x)"
  let ?g = "\<lambda>x. \<not> settles (PositionSettled m oc fee) (snd x) \<and> is_open (snd x)"
  have same: "is_open (?h x) \<longleftrightarrow> ?g x" "?g x \<Longrightarrow> ?h x = snd x" if "x \<in> set (ls_positions s)" for x
    using position_at_key [OF assms(1), of "fst x" "snd x"] that assms(3)
    by (cases x; auto simp: is_open_def)+
  have "map ?h (filter (\<lambda>x. is_open (?h x)) (ls_positions s)) = map snd (filter ?g (ls_positions s))"
    using same by (intro map_cong filter_cong) auto
  then show ?thesis by (simp add: open_in_def t filter_map comp_def conj_commute)
qed

lemma resolving_step:
  assumes "ledger_step sha b s t" and "ledger_inv s" and "resolves b"
  shows "open_in t = filter (\<lambda>p. \<not> settles b p) (open_in s)"
proof (cases "\<exists>m oc fee. b = PositionSettled m oc fee")
  case True
  then obtain m oc fee where b: "b = PositionSettled m oc fee" by blast
  show ?thesis
  proof (rule settle_stepE [OF assms(1) [unfolded b] assms(2)])
    fix p q
    assume "dict_get (ls_positions s) (m, oc) = Some p" "pos_status q = SETTLED"
      "ls_positions t = dict_set (ls_positions s) (m, oc) q"
    then show ?thesis unfolding b by (rule settle_open [OF assms(2)])
  qed
next
  case False
  then have "ls_positions t = ls_positions s"
    using assms(1,3) by (cases b) (auto elim: ledger_stepE)
  then show ?thesis using False by (cases b) (simp_all add: open_in_def)
qed

lemma resolving_run:
  assumes "replay sha fp cur (hist @ ys) = Inr s'" and "replay sha fp cur hist = Inr s"
    and "list_all wf_event (hist @ ys)" and "distinct (map ev_event_id (hist @ ys))"
    and "list_all (\<lambda>e. resolves (ev_body e)) ys"
  shows "open_in s' = filter (\<lambda>p. \<forall>e \<in> set ys. \<not> settles (ev_body e) p) (open_in s)"
  using assms(1,3-)
proof (induction ys arbitrary: s' rule: rev_induct)
  case Nil
  then show ?case using assms(2) by simp
next
  case (snoc e ys)
  have run: "replay sha fp cur ((hist @ ys) @ [e]) = Inr s'" "list_all wf_event ((hist @ ys) @ [e])"
    "ev_event_id e \<notin> ev_event_id ` set (hist @ ys)"
    using snoc.prems(1-3) by auto
  obtain t u where t: "replay sha fp cur (hist @ ys) = Inr t" "ledger_inv t" "ledger_step sha (ev_body e) t u"
    "s' = record_event u e (fp e)"
    using fresh_step [OF run] by metis
  have "open_in u = filter (\<lambda>p. \<not> settles (ev_body e) p) (open_in t)"
    using resolving_step [OF t(3,2)] snoc.prems(4) by simp
  moreover have "open_in s' = open_in u" by (simp add: t(4) open_in_def record_event_def)
  moreover have "open_in t = filter (\<lambda>p. \<forall>e \<in> set ys. \<not> settles (ev_body e) p) (open_in s)"
    using snoc.IH [OF t(1)] snoc.prems(2-4) by simp
  ultimately show ?case by (auto simp: conj_commute intro: filter_cong)
qed

section \<open>Stores of readable events\<close>

text \<open>
  A store in use: it loads, its events are those the codec writes, and the unique index on event
  identifiers holds.
\<close>

definition sound_store :: "ledger_env \<Rightarrow> event_store \<Rightarrow> replay_point \<Rightarrow> bool" where
  "sound_store env st p \<longleftrightarrow> load_all env st = Inr p \<and> distinct (map lr_event_id (st_ledger st))
     \<and> list_all (storable (le_tz env) (le_sha env)) (rp_events p)"

lemma sound_history:
  assumes "sound_store env st p"
  shows "replay (le_sha env) (le_event_fp env) ''USDC'' (rp_events p) = Inr (rp_state p)"
    and "list_all wf_event (rp_events p)" and "distinct (map ev_event_id (rp_events p))" and "ledger_inv (rp_state p)"
proof -
  have load: "load_all env st = Inr p" using assms by (simp add: sound_store_def)
  show run: "replay (le_sha env) (le_event_fp env) ''USDC'' (rp_events p) = Inr (rp_state p)"
    by (rule load_all_replay [OF load])
  show wf: "list_all wf_event (rp_events p)"
    using assms storable_wf by (auto simp: sound_store_def list_all_iff)
  have "list_all2 (event_of env) (st_ledger st) (rp_events p)"
    using load unfolding load_all_Inr by (blast intro: replayed_events)
  then have "map lr_event_id (st_ledger st) = map ev_event_id (rp_events p)"
    by (induction rule: list_all2_induct) (simp_all add: event_of_def row_event_columns(3))
  then show "distinct (map ev_event_id (rp_events p))" using assms by (simp add: sound_store_def)
  show "ledger_inv (rp_state p)" using replay_inv [OF run wf] by blast
qed

lemma append_loop_ids:
  assumes "rfold (append_one env now allow) (rows, a) es = Inr (rows', a')" and "distinct (map lr_event_id rows)"
  shows "distinct (map lr_event_id rows')"
  using assms
proof (induction es arbitrary: rows a)
  case (Cons e es)
  then obtain rows1 a1 where m: "append_one env now allow (rows, a) e = Inr (rows1, a1)"
    "rfold (append_one env now allow) (rows1, a1) es = Inr (rows', a')"
    by (auto simp: rbind_eq_Inr)
  have "distinct (map lr_event_id rows1)"
    using m(1) Cons.prems(2) by (auto simp: Let_def rbind_eq_Inr dest!: insert_row_Inr split: if_splits option.splits)
  then show ?case using Cons.IH [OF m(2)] by simp
qed simp

lemma sound_append:
  assumes "append_many env now st es = Inr (st', a)" and "sound_store env st p"
    and "list_all (storable (le_tz env) (le_sha env)) es"
  obtains q ys where "sound_store env st' q" "rp_events q = rp_events p @ ys" "set ys \<subseteq> set es"
    "set es \<subseteq> set (rp_events q)" "rp_state q = ap_state a"
proof -
  have run: "append_events env now False st es = Inr (st', a)"
    using assms(1) by (auto simp: append_many_def rbind_eq_Inr)
  obtain q where q: "load_all env st' = Inr q" "appends p es q" "rp_state q = ap_state a"
    using append_events_load [OF run assms(3)] assms(2) by (auto simp: sound_store_def)
  then obtain ys where ys: "rp_events q = rp_events p @ ys" "subseq ys es" "set es \<subseteq> set (rp_events q)"
    by (auto simp: appends_def)
  have within_es: "set ys \<subseteq> set es" using subseq_elements [OF ys(2)] by blast
  have "distinct (map lr_event_id (st_ledger st'))"
    using run assms(2) append_loop_ids by (fastforce simp: append_events_def rbind_eq_Inr sound_store_def)
  then have "sound_store env st' q"
    using q(1) ys(1) within_es assms(2,3) by (auto simp: sound_store_def list_all_iff)
  then show ?thesis using that ys(1,3) within_es q(3) by blast
qed

text \<open>Orders and positions carry the market and outcome of a stored intent.\<close>

definition named :: "ledger_state \<Rightarrow> bool" where
  "named s \<longleftrightarrow>
     (\<forall>i ord. dict_get (ls_orders s) i = Some ord \<longrightarrow>
        nonblank (oi_market_id (oa_intent ord)) \<and> nonblank (oi_outcome_id (oa_intent ord)))
     \<and> (\<forall>m oc p. dict_get (ls_positions s) (m, oc) = Some p \<longrightarrow> nonblank m \<and> nonblank oc)"

lemma replaced_order_named:
  "named s \<Longrightarrow> nonblank (oi_market_id (oa_intent ord)) \<Longrightarrow> nonblank (oi_outcome_id (oa_intent ord)) \<Longrightarrow>
     named (replace_order s ord)"
  by (auto simp: named_def replace_order_def)

lemma replaced_position_named:
  "named s \<Longrightarrow> nonblank (pos_market_id p) \<Longrightarrow> nonblank (pos_outcome_id p) \<Longrightarrow> named (replace_position s p)"
  by (auto simp: named_def replace_position_def position_key_def)

lemma named_get_order:
  "named s \<Longrightarrow> dict_get (ls_orders s) i = Some ord \<Longrightarrow>
     nonblank (oi_market_id (oa_intent ord)) \<and> nonblank (oi_outcome_id (oa_intent ord))"
  by (simp add: named_def)

lemma named_get_position:
  assumes "named s" and "ledger_inv s" and "dict_get (ls_positions s) k = Some p"
  shows "nonblank (pos_market_id p) \<and> nonblank (pos_outcome_id p)"
proof -
  have "k = (pos_market_id p, pos_outcome_id p)"
    using assms(2,3) ledger_ok_position [of s k p] by (simp add: ledger_inv_def position_ok_def)
  then show ?thesis using assms(1,3) unfolding named_def by blast
qed

lemma named_cong: "named s \<Longrightarrow> ls_orders t = ls_orders s \<Longrightarrow> ls_positions t = ls_positions s \<Longrightarrow> named t"
  by (simp add: named_def)

lemma storable_intent_named: "storable_intent i \<Longrightarrow> nonblank (oi_market_id i) \<and> nonblank (oi_outcome_id i)"
  by (auto simp: storable_intent_def order_intent_init_def rbind_eq_Inr nonblank_def dest!: require_text_InrD)

lemma named_step:
  assumes "ledger_step sha b s t" and "ledger_inv s" and "named s" and "storable_body tz b"
  shows "named t"
  using assms
proof (induction rule: ledger_step.induct)
  case (fill_buy s f ord debit p kept)
  have ord: "nonblank (oi_market_id (oa_intent ord)) \<and> nonblank (oi_outcome_id (oa_intent ord))"
    using named_get_order fill_buy by blast
  have "nonblank (pos_market_id p) \<and> nonblank (pos_outcome_id p)"
    using fill_buy.hyps(12) ord named_get_position [OF fill_buy.prems(2,1)]
    by (auto simp: order_key_def position_key_def split: option.splits)
  then show ?case
    using ord fill_buy.prems(2) by (intro replaced_order_named replaced_position_named) (auto simp: filled_order_def elim: named_cong)
qed (auto simp: closed_order_def filled_order_def spec_new_order_def intro!: replaced_order_named replaced_position_named
    dest: named_get_order named_get_position storable_intent_named elim: named_cong)

lemma named_replay:
  assumes "replay sha fp cur es = Inr s" and "list_all (storable tz sha') es"
  shows "named s"
  using assms
proof (induction es arbitrary: s rule: rev_induct)
  case Nil
  then show ?case using ledger_empty_InrD by (fastforce simp: replay_def rbind_eq_Inr named_def)
next
  case (snoc e es)
  obtain t where t: "replay sha fp cur es = Inr t" "apply_event sha fp t e = Inr s"
    using snoc.prems(1) by (auto simp: replay_append rbind_eq_Inr)
  have ok: "storable tz sha' e" "list_all wf_event es" using snoc.prems(2) storable_wf by (auto simp: list_all_iff)
  have "named t" using snoc.IH [OF t(1)] snoc.prems(2) by simp
  have "ledger_inv t" using replay_inv [OF t(1) ok(2)] by blast
  from t(2) this storable_wf [OF ok(1)] show ?case
  proof (cases rule: apply_event_InrE)
    case redelivery
    then show ?thesis using \<open>named t\<close> by simp
  next
    case (accepted u)
    have "named u" using named_step [OF accepted(3) \<open>ledger_inv t\<close> \<open>named t\<close>, of tz] ok(1) by (simp add: storable_def)
    then show ?thesis using accepted(5) by (elim named_cong) (simp_all add: record_event_def)
  qed
qed

section \<open>Settling a market\<close>

text \<open>
  The events that resolve a market: they settle each of its open positions and no position of
  another market.
\<close>

definition resolution_of :: "string \<Rightarrow> position list \<Rightarrow> ledger_event list \<Rightarrow> bool" where
  "resolution_of m ps es \<longleftrightarrow> list_all (\<lambda>e. resolves (ev_body e)) es
     \<and> (\<forall>e \<in> set es. \<forall>p. settles (ev_body e) p \<longrightarrow> pos_market_id p = m)
     \<and> (\<forall>p \<in> set ps. \<exists>e \<in> set es. \<exists>fee. ev_body e = PositionSettled (pos_market_id p) (pos_outcome_id p) fee)"

definition settled_only :: "ledger_state \<Rightarrow> string \<Rightarrow> ledger_state \<Rightarrow> bool" where
  "settled_only s m s' \<longleftrightarrow> (\<forall>x. market_positions s' x = (if x = m then [] else market_positions s x))"

lemma settled_by_append:
  assumes "append_many env now st es = Inr (st', a)" and "sound_store env st p"
    and "list_all (storable (le_tz env) (le_sha env)) es"
    and "resolution_of m (market_positions (rp_state p) m) es"
  obtains q where "sound_store env st' q" "rp_state q = ap_state a" "settled_only (rp_state p) m (rp_state q)"
    "\<forall>x \<in> set (market_positions (rp_state p) m). \<exists>r.
       dict_get (ls_positions (rp_state q)) (pos_market_id x, pos_outcome_id x) = Some r \<and> pos_status r = SETTLED"
proof -
  obtain q ys where q: "sound_store env st' q" "rp_events q = rp_events p @ ys" "set ys \<subseteq> set es"
    "set es \<subseteq> set (rp_events q)" "rp_state q = ap_state a"
    by (rule sound_append [OF assms(1-3)])
  note before = sound_history [OF assms(2)] and after = sound_history [OF q(1)]
  have "list_all (\<lambda>e. resolves (ev_body e)) ys" using assms(4) q(3) by (auto simp: resolution_of_def list_all_iff)
  then have kept: "open_in (rp_state q) = filter (\<lambda>p. \<forall>e \<in> set ys. \<not> settles (ev_body e) p) (open_in (rp_state p))"
    by (rule resolving_run [OF after(1) [unfolded q(2)] before(1) after(2,3) [unfolded q(2)]])
  have settled: "\<exists>r. dict_get (ls_positions (rp_state q)) (pos_market_id x, pos_outcome_id x) = Some r \<and> pos_status r = SETTLED"
    if x: "x \<in> set (market_positions (rp_state p) m)" for x
  proof -
    obtain e fee where "e \<in> set es" "ev_body e = PositionSettled (pos_market_id x) (pos_outcome_id x) fee"
      using assms(4) x unfolding resolution_of_def by blast
    then show ?thesis using replay_settled [OF after(1-3), of e] q(4) by blast
  qed
  have "market_positions (rp_state q) x = (if x = m then [] else market_positions (rp_state p) x)" for x
  proof (cases "x = m")
    case True
    have "y \<notin> set (market_positions (rp_state q) m)" for y
    proof
      assume "y \<in> set (market_positions (rp_state q) m)"
      then have y: "y \<in> set (open_in (rp_state q))" "pos_market_id y = m" by (auto simp: set_market_positions)
      then have "y \<in> set (market_positions (rp_state p) m)" using kept by (simp add: set_market_positions)
      then obtain r where r: "dict_get (ls_positions (rp_state q)) (pos_market_id y, pos_outcome_id y) = Some r"
        "pos_status r = SETTLED"
        using settled by blast
      obtain k where "(k, y) \<in> set (ls_positions (rp_state q))" "is_open y" using y(1) by (auto simp: open_in_def)
      then show False using position_at_key [OF after(4), of k y] r by (auto simp: is_open_def)
    qed
    then have "market_positions (rp_state q) m = []" by (metis list.set_intros(1) neq_Nil_conv)
    then show ?thesis using True by simp
  next
    case False
    have "(\<forall>e \<in> set ys. \<not> settles (ev_body e) y) \<and> pos_market_id y = x \<longleftrightarrow> pos_market_id y = x" for y
      using assms(4) q(3) False by (auto simp: resolution_of_def)
    then show ?thesis using False by (simp add: market_positions_open kept conj_commute)
  qed
  then show ?thesis using that q(1,5) settled by (auto simp: settled_only_def)
qed

text \<open>What a cycle item says of its market.\<close>

definition item_fits :: "ledger_state \<Rightarrow> ledger_state \<Rightarrow> string \<Rightarrow> cycle_item \<Rightarrow> bool" where
  "item_fits s s' m it \<longleftrightarrow>
     (if terminal_poll (ci_status it)
      then market_positions s' m = [] \<and> ci_settled it = int (length (market_positions s m))
      else market_positions s' m = market_positions s m \<and> ci_settled it = 0)"

lemma count_settled_all:
  assumes "\<forall>x \<in> set ps. \<exists>r. dict_get (ls_positions s) (pos_market_id x, pos_outcome_id x) = Some r
    \<and> pos_status r = SETTLED"
  shows "rfold (count_settled s) n ps = Inr (n + int (length ps))"
  using assms by (induction ps arbitrary: n) (auto simp: count_settled_def)

definition visited :: "ledger_env \<Rightarrow> replay_point \<Rightarrow> string \<Rightarrow> event_store \<Rightarrow> cycle_item result \<Rightarrow> bool" where
  "visited env p m st' r \<longleftrightarrow> (\<exists>q. sound_store env st' q
     \<and> (rp_state q = rp_state p \<or> settled_only (rp_state p) m (rp_state q))
     \<and> (case r of Inl _ \<Rightarrow> rp_state q = rp_state p | Inr it \<Rightarrow> item_fits (rp_state p) (rp_state q) m it))"

lemma visited_stop: "sound_store env st p \<Longrightarrow> visited env p m st (Inl x)"
  by (auto simp: visited_def)

lemma visited_report:
  assumes "sound_store env st p" and "list_all (storable (le_tz env) (le_sha env)) es"
    and "resolution_of m (market_positions (rp_state p) m) es" and "terminal_poll status"
    and "append_and_report env now st (market_positions (rp_state p) m) es m' status reason = (st', r)"
  shows "visited env p m st' r"
proof (cases "append_many env now st es")
  case (Inl x)
  then show ?thesis using assms(1,5) by (auto simp: append_and_report_def intro: visited_stop)
next
  case (Inr u)
  then obtain st1 a where run: "append_many env now st es = Inr (st1, a)" by (cases u) simp
  obtain q where q: "sound_store env st1 q" "rp_state q = ap_state a" "settled_only (rp_state p) m (rp_state q)"
    "\<forall>x \<in> set (market_positions (rp_state p) m). \<exists>r.
       dict_get (ls_positions (rp_state q)) (pos_market_id x, pos_outcome_id x) = Some r \<and> pos_status r = SETTLED"
    by (rule settled_by_append [OF run assms(1-3)])
  have "rfold (count_settled (ap_state a)) 0 (market_positions (rp_state p) m) =
      Inr (int (length (market_positions (rp_state p) m)))"
    using count_settled_all [OF q(4), of 0] q(2) by simp
  then have "st' = st1 \<and> (\<exists>n. r = Inr \<lparr>ci_market_id = m', ci_status = status, ci_reason = reason, ci_events = n,
      ci_settled = int (length (market_positions (rp_state p) m))\<rparr>)"
    using assms(5) run by (auto simp: append_and_report_def)
  then show ?thesis
    using q(1,3) assms(4) by (auto simp: visited_def item_fits_def settled_only_def)
qed

section \<open>The events of the worker\<close>

lemma settlement_event_Inr:
  assumes "settlement_event sha t identity cur p = Inr e"
  shows "\<exists>z. ev_body e = PositionSettled (pos_market_id p) (pos_outcome_id p) z \<and> wf_money z
    \<and> ev_occurred_at e = t \<and> event_init sha e = Inr e"
  using assms mk_money_wf
  by (fastforce simp: settlement_event_def event_init_def domain_event_init_def rbind_eq_Inr money_zero_def split: if_splits)

lemma settlement_events_resolve:
  assumes "settlement_events sha ps t identity cur = Inr es" and "valid_datetime t"
    and "\<And>p. p \<in> set ps \<Longrightarrow> nonblank (pos_market_id p) \<and> nonblank (pos_outcome_id p) \<and> pos_market_id p = m"
  shows "list_all (storable tz sha) es \<and> resolution_of m ps es"
proof -
  have each: "list_all2 (\<lambda>p e. settlement_event sha t identity cur p = Inr e) ps es"
    using assms(1) by (simp add: settlement_events_def rmap_list_all2)
  have "storable tz sha e \<and> (\<exists>p \<in> set ps. \<exists>z. ev_body e = PositionSettled (pos_market_id p) (pos_outcome_id p) z)"
    if e: "e \<in> set es" for e
  proof -
    obtain p where p: "p \<in> set ps" "settlement_event sha t identity cur p = Inr e"
      using list_all2_right [OF each e] by blast
    then show ?thesis using settlement_event_Inr [OF p(2)] assms(2) assms(3) [OF p(1)] by (auto simp: storable_def)
  qed
  moreover have "\<exists>e \<in> set es. \<exists>fee. ev_body e = PositionSettled (pos_market_id p) (pos_outcome_id p) fee"
    if p: "p \<in> set ps" for p
    using list_all2_left [OF each p] settlement_event_Inr by blast
  ultimately show ?thesis
    using assms(3) by (fastforce simp: list_all_iff resolution_of_def)
qed

lemma sound_positions:
  assumes "sound_store env st p" and "x \<in> set (market_positions (rp_state p) m)"
  shows "nonblank (pos_market_id x) \<and> nonblank (pos_outcome_id x) \<and> pos_market_id x = m"
proof -
  note hist = sound_history [OF assms(1)]
  have "named (rp_state p)" using named_replay [OF hist(1)] assms(1) by (auto simp: sound_store_def)
  moreover obtain k where "(k, x) \<in> set (ls_positions (rp_state p))" "pos_market_id x = m"
    using assms(2) by (auto simp: set_market_positions open_in_def)
  ultimately show ?thesis
    using position_at_key [OF hist(4)] named_get_position [OF _ hist(4)] by blast
qed

text \<open>The evidence and resolution of a poll are constructed values.\<close>

definition typed_polls :: "tzdb \<Rightarrow> resolver \<Rightarrow> bool" where
  "typed_polls tz rv \<longleftrightarrow> (\<forall>c t p. rv_poll rv c t = Inr p \<longrightarrow>
     pred_option (storable_evidence tz) (po_evidence p) \<and> pred_option storable_resolution (po_resolution p))"

lemma terminal_events_resolve:
  assumes "terminal_events env s ps p t = Inr es" and "valid_datetime t"
    and "pred_option (storable_evidence (le_tz env)) (po_evidence p)" and "pred_option storable_resolution (po_resolution p)"
    and "\<And>p. p \<in> set ps \<Longrightarrow> nonblank (pos_market_id p) \<and> nonblank (pos_outcome_id p) \<and> pos_market_id p = m"
  shows "list_all (storable (le_tz env) (le_sha env)) es \<and> resolution_of m ps es"
proof -
  obtain e r ee re fs where run: "po_evidence p = Some e" "po_resolution p = Some r"
    "event_init (le_sha env) ee = Inr ee" "ev_body ee = MarketResolutionEvidenceRecorded e" "ev_occurred_at ee = t"
    "event_init (le_sha env) re = Inr re" "ev_body re = MarketResolved r" "ev_occurred_at re = t"
    "settlement_events (le_sha env) ps t (re_payload_hash e) (ls_currency s) = Inr fs" "es = ee # re # fs"
    using assms(1) by (auto simp: terminal_events_def event_init_def rbind_eq_Inr split: option.splits)
  then show ?thesis
    using settlement_events_resolve [OF run(9) assms(2,5), where tz = "le_tz env"] assms(2-4)
    by (auto simp: storable_def resolution_of_def)
qed

lemma settle_market_visited:
  assumes "settle_market env rv now t st (rp_state p) m (market_positions (rp_state p) m) = (st', r)"
    and "sound_store env st p" and "typed_polls (le_tz env) rv" and "valid_datetime t"
  shows "visited env p m st' r"
proof (cases "dict_get (ls_resolutions (rp_state p)) m")
  case (Some x)
  then have run: "settle_existing env rv now st (rp_state p) (market_positions (rp_state p) m) x t = (st', r)"
    using assms(1) by (simp add: settle_market_def)
  show ?thesis
  proof (cases "settlement_events (le_sha env) (market_positions (rp_state p) m) t (rv_fingerprint rv x) (ls_currency (rp_state p))")
    case (Inl y)
    then show ?thesis using run assms(2) by (auto simp: settle_existing_def intro: visited_stop)
  next
    case (Inr es)
    have "list_all (storable (le_tz env) (le_sha env)) es" "resolution_of m (market_positions (rp_state p) m) es"
      using settlement_events_resolve [OF Inr assms(4) sound_positions [OF assms(2)]] by blast+
    then show ?thesis
      using run Inr unfolding settle_existing_def
      by (intro visited_report [OF assms(2)]) (auto simp: terminal_poll_def split: option.splits)
  qed
next
  case None
  show ?thesis
  proof (cases "rbind (rv_context rv st m) (\<lambda>c. rv_poll rv c t)")
    case (Inl y)
    then show ?thesis using assms(1,2) None by (auto simp: settle_market_def intro: visited_stop)
  next
    case (Inr poll)
    then have typed: "pred_option (storable_evidence (le_tz env)) (po_evidence poll)"
      "pred_option storable_resolution (po_resolution poll)"
      using assms(3) by (auto simp: typed_polls_def rbind_eq_Inr)
    show ?thesis
    proof (cases "terminal_poll (po_status poll)")
      case False
      then have "st' = st \<and> r = Inr \<lparr>ci_market_id = m, ci_status = po_status poll, ci_reason = po_reason poll,
          ci_events = 0, ci_settled = 0\<rparr>"
        using assms(1) None Inr by (simp add: settle_market_def)
      then show ?thesis using assms(2) False by (auto simp: visited_def item_fits_def)
    next
      case terminal: True
      then have run: "apply_terminal_poll env now st (rp_state p) (market_positions (rp_state p) m) poll t = (st', r)"
        using assms(1) None Inr by (simp add: settle_market_def)
      show ?thesis
      proof (cases "terminal_events env (rp_state p) (market_positions (rp_state p) m) poll t")
        case (Inl y)
        then show ?thesis using run assms(2) by (auto simp: apply_terminal_poll_def intro: visited_stop)
      next
        case (Inr es)
        have "list_all (storable (le_tz env) (le_sha env)) es" "resolution_of m (market_positions (rp_state p) m) es"
          using terminal_events_resolve [OF Inr assms(4) typed sound_positions [OF assms(2)]] by blast+
        then show ?thesis
          using run Inr terminal unfolding apply_terminal_poll_def by (intro visited_report [OF assms(2)]) auto
      qed
    qed
  qed
qed

lemma market_item_visited:
  assumes "market_item env rv now t st (rp_state p) m (market_positions (rp_state p) m) = (st', r)"
    and "sound_store env st p" and "typed_polls (le_tz env) rv" and "valid_datetime t"
  shows "visited env p m st' r"
proof -
  obtain st1 r1 where run: "settle_market env rv now t st (rp_state p) m (market_positions (rp_state p) m) = (st1, r1)"
    by (cases "settle_market env rv now t st (rp_state p) m (market_positions (rp_state p) m)") simp
  have v: "visited env p m st1 r1" by (rule settle_market_visited [OF run assms(2-4)])
  show ?thesis
  proof (cases r1)
    case (Inl x)
    then show ?thesis
      using assms(1) run v
      by (auto simp: market_item_def visited_def item_fits_def terminal_poll_def split: if_splits)
  next
    case (Inr y)
    then show ?thesis using assms(1) run v by (simp add: market_item_def)
  qed
qed

section \<open>A cycle\<close>

lemma visit_markets_fit:
  assumes "visit_markets env rv now t st (rp_state p) (map (\<lambda>m. (m, market_positions s0 m)) ms) = (st', r)"
    and "sound_store env st p" and "typed_polls (le_tz env) rv" and "valid_datetime t" and "distinct ms"
    and "\<And>m. m \<in> set ms \<Longrightarrow> market_positions (rp_state p) m = market_positions s0 m"
  shows "\<exists>q. sound_store env st' q
    \<and> (\<forall>m. market_positions (rp_state q) m \<in> (if m \<in> set ms then {[], market_positions (rp_state p) m}
        else {market_positions (rp_state p) m}))
    \<and> (\<forall>items. r = Inr items \<longrightarrow> list_all2 (item_fits (rp_state p) (rp_state q)) ms items)"
  using assms
proof (induction ms arbitrary: st p r st')
  case Nil
  then show ?case by auto
next
  case (Cons m ms)
  obtain st1 r1 where run: "market_item env rv now t st (rp_state p) m (market_positions (rp_state p) m) = (st1, r1)"
    by (cases "market_item env rv now t st (rp_state p) m (market_positions (rp_state p) m)") simp
  have ps: "market_positions s0 m = market_positions (rp_state p) m" using Cons.prems(6) by simp
  obtain q where q: "sound_store env st1 q"
    "rp_state q = rp_state p \<or> settled_only (rp_state p) m (rp_state q)"
    "case r1 of Inl _ \<Rightarrow> rp_state q = rp_state p | Inr it \<Rightarrow> item_fits (rp_state p) (rp_state q) m it"
    using market_item_visited [OF run Cons.prems(2-4)] by (auto simp: visited_def)
  have at_m: "market_positions (rp_state q) m \<in> {[], market_positions (rp_state p) m}"
    and others: "x \<noteq> m \<Longrightarrow> market_positions (rp_state q) x = market_positions (rp_state p) x" for x
    using q(2) by (auto simp: settled_only_def)
  have near: "market_positions (rp_state q) x \<in> (if x \<in> set (m # ms) then {[], market_positions (rp_state p) x}
      else {market_positions (rp_state p) x})" for x
    using at_m others [of x] by (cases "x = m") auto
  consider (failed) x where "r1 = Inl x" | (lost) it x where "r1 = Inr it" "load_state env st1 = Inl x"
    | (next_one) it s where "r1 = Inr it" "load_state env st1 = Inr s"
    by (cases r1; cases "load_state env st1") auto
  then show ?case
  proof cases
    case (failed x)
    then have "st' = st1 \<and> r = Inl x" using Cons.prems(1) run ps by simp
    then show ?thesis using q(1) near by (intro exI [of _ q]) simp
  next
    case (lost it x)
    then have "st' = st1 \<and> r = Inl x" using Cons.prems(1) run ps by simp
    then show ?thesis using q(1) near by (intro exI [of _ q]) simp
  next
    case (next_one it s)
    have s: "s = rp_state q" using next_one(2) q(1) by (auto simp: load_state_def sound_store_def rbind_eq_Inr)
    obtain st2 r2 where rest: "visit_markets env rv now t st1 (rp_state q) (map (\<lambda>m. (m, market_positions s0 m)) ms) = (st2, r2)"
      by (cases "visit_markets env rv now t st1 (rp_state q) (map (\<lambda>m. (m, market_positions s0 m)) ms)") simp
    have st': "st' = st2" "r = (case r2 of Inl x \<Rightarrow> Inl x | Inr items \<Rightarrow> Inr (it # items))"
      using Cons.prems(1) run ps next_one rest s by (auto split: sum.splits)
    have same: "market_positions (rp_state q) x = market_positions s0 x" if "x \<in> set ms" for x
    proof -
      have "x \<noteq> m" using that Cons.prems(5) by auto
      then show ?thesis using others Cons.prems(6) that by simp
    qed
    obtain u where u: "sound_store env st2 u"
      "\<forall>m. market_positions (rp_state u) m \<in> (if m \<in> set ms then {[], market_positions (rp_state q) m}
        else {market_positions (rp_state q) m})"
      "\<forall>items. r2 = Inr items \<longrightarrow> list_all2 (item_fits (rp_state q) (rp_state u)) ms items"
      using Cons.IH [OF rest q(1) Cons.prems(3,4) _ same] Cons.prems(5) by auto
    have fresh: "m \<notin> set ms" using Cons.prems(5) by simp
    then have um: "market_positions (rp_state u) m = market_positions (rp_state q) m" using u(2) by (metis singletonD)
    have "item_fits (rp_state p) (rp_state u) m it" using q(3) next_one(1) um by (simp add: item_fits_def)
    moreover have "list_all2 (item_fits (rp_state p) (rp_state u)) ms items" if "r2 = Inr items" for items
    proof (rule list.rel_mono_strong)
      show "list_all2 (item_fits (rp_state q) (rp_state u)) ms items" using u(3) that by blast
      fix x i
      assume "x \<in> set ms" "item_fits (rp_state q) (rp_state u) x i"
      moreover from this(1) have "x \<noteq> m" using fresh by blast
      ultimately show "item_fits (rp_state p) (rp_state u) x i" using others by (simp add: item_fits_def)
    qed
    moreover have "market_positions (rp_state u) x \<in> (if x \<in> set (m # ms) then {[], market_positions (rp_state p) x}
        else {market_positions (rp_state p) x})" for x
      using u(2) [rule_format, of x] um at_m others [of x] by (cases "x = m") auto
    ultimately show ?thesis using u(1) st' by (intro exI [of _ u]) (auto split: sum.splits)
  qed
qed

text \<open>C37. A resolution cycle settles a market completely or leaves it alone: over a store in use and a
  source whose polls carry constructed evidence, whatever the cycle returns, the store still loads
  and every market's open positions are either all settled or exactly as before. When it returns a
  report, each visited market has its item: a final or void item means that all its open positions
  are settled and counted, any other item that none was touched.\<close>

theorem resolution_all_or_nothing:
  assumes "sound_store env st p" and "typed_polls (le_tz env) rv" and "valid_datetime started"
    and "run_once env rv now started finished st = (st', r)"
  shows "\<exists>q. sound_store env st' q
    \<and> (\<forall>m. market_positions (rp_state q) m \<in> {[], market_positions (rp_state p) m})
    \<and> (\<forall>report. r = Inr report \<longrightarrow>
         list_all2 (item_fits (rp_state p) (rp_state q)) (open_markets (rp_state p)) (cy_items report))"
proof -
  let ?ms = "open_markets (rp_state p)"
  consider (stopped) x where "st' = st" "r = Inl x"
    | (ran) "load_state env st = Inr (rp_state p)" "dt_aware started"
    using assms(1,4) by (auto simp: run_once_def load_state_def sound_store_def rbind_eq_Inr ensure_open_def split: if_splits)
  then show ?thesis
  proof cases
    case stopped
    then show ?thesis using assms(1) by auto
  next
    case ran
    obtain st1 r1 where run: "visit_markets env rv now started st (rp_state p)
        (map (\<lambda>m. (m, market_positions (rp_state p) m)) ?ms) = (st1, r1)"
      by (cases "visit_markets env rv now started st (rp_state p) (map (\<lambda>m. (m, market_positions (rp_state p) m)) ?ms)") simp
    have "st' = st1" "\<forall>report. r = Inr report \<longrightarrow> r1 = Inr (cy_items report)"
      using assms(4) ran run by (auto simp: run_once_def split: sum.splits if_splits)
    moreover have "distinct ?ms" by (simp add: open_markets_def)
    then obtain q where "sound_store env st1 q"
      "\<forall>m. market_positions (rp_state q) m \<in> (if m \<in> set ?ms then {[], market_positions (rp_state p) m}
        else {market_positions (rp_state p) m})"
      "\<forall>items. r1 = Inr items \<longrightarrow> list_all2 (item_fits (rp_state p) (rp_state q)) ?ms items"
      using visit_markets_fit [OF run assms(1-3)] by blast
    moreover from this(2) have "\<forall>m. market_positions (rp_state q) m \<in> {[], market_positions (rp_state p) m}"
      by (metis insertI1 insertI2 singletonD)
    ultimately show ?thesis by (intro exI [of _ q]) simp
  qed
qed

end
