(* ===== verification/Resolution_Samples.thy ===== *)
theory Resolution_Samples
  imports Resolution_Props Store_Samples Ledger_Witnesses
begin

text \<open>
  A store that holds the partly filled order of the samples, and a source that declares its market
  final.
\<close>

text \<open>The rows of a list of events, and the replay of such rows.\<close>

fun rows_of :: "(string \<Rightarrow> string) \<Rightarrow> string \<Rightarrow> int \<Rightarrow> ledger_event list \<Rightarrow> ledger_row list" where
  "rows_of sha h n [] = []"
| "rows_of sha h n (e # es) =
     (let r = event_row sha ''t'' n h (encode_event sha e) in r # rows_of sha (lr_chain_hash r) (n + 1) es)"

lemma load_rows_of:
  assumes "list_all (storable (le_tz env) (le_sha env)) es"
    and "rfold (apply_event (le_sha env) (le_event_fp env)) (rp_state p) es = Inr s"
  shows "\<exists>q. rfold (load_row env []) p (rows_of (le_sha env) (rp_hash p) (rp_expected p) es) = Inr q
    \<and> rp_events q = rp_events p @ es \<and> rp_state q = s"
  using assms
proof (induction es arbitrary: p)
  case (Cons e es)
  obtain t where t: "apply_event (le_sha env) (le_event_fp env) (rp_state p) e = Inr t"
    "rfold (apply_event (le_sha env) (le_event_fp env)) t es = Inr s"
    using Cons.prems(2) by (auto simp: rbind_eq_Inr)
  define r where "r = event_row (le_sha env) ''t'' (rp_expected p) (rp_hash p) (encode_event (le_sha env) e)"
  define m where "m = \<lparr>rp_events = rp_events p @ [e], rp_state = t, rp_expected = rp_expected p + 1,
    rp_hash = lr_chain_hash r\<rparr>"
  have "load_row env [] p r = Inr m"
    unfolding r_def m_def using Cons.prems(1) t(1) by (intro load_event_row) (simp_all add: checkpoint_at_def)
  moreover obtain q where "rfold (load_row env []) m (rows_of (le_sha env) (rp_hash m) (rp_expected m) es) = Inr q"
    "rp_events q = rp_events m @ es" "rp_state q = s"
    using Cons.IH [of m] Cons.prems(1) t(2) by (auto simp: m_def)
  ultimately show ?case by (auto simp: r_def [symmetric] m_def Let_def)
qed simp

definition utc_zone :: zone where
  "utc_zone = \<lparr>z_local = (\<lambda>t. t), z_utc = (\<lambda>t. t)\<rparr>"

definition held_env :: ledger_env where
  "held_env = sample_env\<lparr>le_tz := \<lambda>_. Some utc_zone\<rparr>"

definition held_events :: "ledger_event list" where
  "held_events = [open_event 100, order_event 10 (1 / 10), submit_event, fill_event 4 (2 / 5) (1 / 100)]"

definition held_store :: event_store where
  "held_store = empty_store\<lparr>st_ledger := rows_of length_digest genesis_chain_hash 1 held_events\<rparr>"

definition held_state :: ledger_state where
  "held_state = state_filled\<lparr>ls_orders := [(''b'', filled_part\<lparr>oa_fill_fingerprints :=
     [(''f'', length_digest (fill_payload (sample_fill 4 (2 / 5) (1 / 100))))]\<rparr>)]\<rparr>"

definition final_evidence :: resolution_evidence where
  "final_evidence = \<lparr>re_market_id = ''m'', re_condition_id = ''0x'' @ replicate 64 (CHR ''1''),
     re_source_name = ''s'', re_source_url = ''https://s'', re_declared_resolution_source = ''https://d'',
     re_retrieved_at = at_second 9, re_finalized_at = at_second 8, re_market_date = 0,
     re_market_timezone = ''UTC'', re_status = VERIFIED, re_resolution_value = ''20'',
     re_payouts = [\<lparr>op_outcome_id = ''y'', op_payout = 1\<rparr>, \<lparr>op_outcome_id = ''n'', op_payout = 0\<rparr>],
     re_payload_hash = replicate 64 (CHR ''a'')\<rparr>"

definition final_resolution :: market_resolution where
  "final_resolution = \<lparr>mr_market_id = ''m'', mr_payouts = re_payouts final_evidence, mr_resolved_at = at_second 8\<rparr>"

text \<open>The market is pending until its twentieth second, and final from then on.\<close>

definition final_source :: resolver where
  "final_source =
     \<lparr>rv_context = (\<lambda>st m. Inr \<lparr>rx_market_id = m, rx_condition_id = re_condition_id final_evidence,
        rx_market_date = re_market_date final_evidence, rx_market_timezone = ''UTC'',
        rx_bucket = \<lparr>tb_unit = CELSIUS, tb_lower = Some 20, tb_upper = Some 20\<rparr>, rx_declared_source = None\<rparr>),
      rv_poll = (\<lambda>c t. if dt_micros t < seconds 20
        then Inr \<lparr>po_market_id = rx_market_id c, po_status = POLL_PENDING, po_checked_at = t, po_reason = ''open'',
          po_evidence = None, po_resolution = None\<rparr>
        else Inr \<lparr>po_market_id = rx_market_id c, po_status = POLL_FINAL, po_checked_at = t, po_reason = ''final'',
          po_evidence = Some final_evidence, po_resolution = Some final_resolution\<rparr>),
      rv_fingerprint = (\<lambda>_. ''f'')\<rparr>"

lemma held_storable: "list_all (storable tz length_digest) held_events"
proof -
  have "storable tz length_digest (open_event 100)" "storable tz length_digest (order_event 10 (1 / 10))"
    using open_storable order_storable by (simp_all add: storable_def open_event_def order_event_def sample_event_def)
  moreover have "storable (\<lambda>_. None) length_digest submit_event"
    unfolding storable_def by (intro conjI; code_simp)
  moreover have "storable (\<lambda>_. None) length_digest (fill_event 4 (2 / 5) (1 / 100))"
    unfolding storable_def by (intro conjI; code_simp)
  ultimately show ?thesis
    by (simp add: held_events_def storable_def submit_event_def fill_event_def sample_event_def)
qed

lemma held_fill:
  "apply_event sha sample_fp (state_submitted 100 10 (1 / 10)) (fill_event 4 (2 / 5) (1 / 100)) =
     Inr (state_filled\<lparr>ls_orders := [(''b'', filled_part\<lparr>oa_fill_fingerprints :=
       [(''f'', sha (fill_payload (sample_fill 4 (2 / 5) (1 / 100))))]\<rparr>)]\<rparr>)"
  by code_simp

lemma held_replay: "rfold (apply_event length_digest sample_fp) state_empty held_events = Inr held_state"
proof -
  have "apply_event length_digest sample_fp (state_opened 100) (order_event 10 (1 / 10)) = Inr (state_ordered 100 10 (1 / 10))"
    by code_simp
  moreover have "apply_event length_digest sample_fp (state_ordered 100 10 (1 / 10)) submit_event = Inr (state_submitted 100 10 (1 / 10))"
    by code_simp
  ultimately show ?thesis
    by (simp add: held_events_def digest_opened held_fill held_state_def)
qed

lemma held_sound: "\<exists>p. sound_store held_env held_store p \<and> rp_state p = held_state"
proof -
  obtain p where p: "rfold (load_row held_env []) \<lparr>rp_events = [], rp_state = state_empty, rp_expected = 1,
      rp_hash = genesis_chain_hash\<rparr> (rows_of length_digest genesis_chain_hash 1 held_events) = Inr p"
    "rp_events p = held_events" "rp_state p = held_state"
    using load_rows_of [of held_env held_events "\<lparr>rp_events = [], rp_state = state_empty, rp_expected = 1,
      rp_hash = genesis_chain_hash\<rparr>" held_state] held_storable held_replay
    by (auto simp: held_env_def sample_env_def)
  have "load_all held_env held_store = Inr p"
    unfolding load_all_Inr using p(1) by (simp add: held_store_def empty_store_def sample_start)
  moreover have "distinct (map lr_event_id (st_ledger held_store))"
    by (simp add: held_store_def held_events_def Let_def event_row_def open_event_def order_event_def submit_event_def
        fill_event_def sample_event_def)
  ultimately have "sound_store held_env held_store p"
    using held_storable p(2) by (simp add: sound_store_def held_env_def)
  then show ?thesis using p(3) by blast
qed

lemma final_evidence_storable: "storable_evidence (\<lambda>_. Some utc_zone) final_evidence"
  unfolding storable_evidence_def by (intro conjI; code_simp)

lemma final_source_typed: "typed_polls (\<lambda>_. Some utc_zone) final_source"
proof -
  have "storable_resolution final_resolution" by code_simp
  then show ?thesis using final_evidence_storable by (simp add: typed_polls_def final_source_def)
qed

lemma held_market: "market_positions held_state ''m'' = [held_position]" "open_markets held_state = [''m'']"
  by code_simp+

lemma resolution_all_or_nothing_witness:
  "\<exists>q it. sound_store held_env held_store q \<and> market_positions (rp_state q) ''m'' = [held_position]
     \<and> run_once held_env final_source sample_clock (at_second 10) (at_second 11) held_store =
        (held_store, Inr \<lparr>cy_started_at = at_second 10, cy_finished_at = at_second 11, cy_items = [it]\<rparr>)
     \<and> ci_status it = POLL_PENDING \<and> ci_settled it = 0"
proof -
  obtain p where p: "sound_store held_env held_store p" "rp_state p = held_state" using held_sound by blast
  let ?it = "\<lparr>ci_market_id = ''m'', ci_status = POLL_PENDING, ci_reason = ''open'', ci_events = 0, ci_settled = 0\<rparr>"
  have load: "load_state held_env held_store = Inr held_state"
    using p by (simp add: sound_store_def load_state_def ensure_open_def held_store_def empty_store_def)
  have times: "dt_aware (at_second 10)" "dt_aware (at_second 11)" "dt_micros (at_second 10) < seconds 20"
    "valid_datetime (at_second 10)" "dict_get (ls_resolutions held_state) ''m'' = None"
    by code_simp+
  have run: "run_once held_env final_source sample_clock (at_second 10) (at_second 11) held_store =
      (held_store, Inr \<lparr>cy_started_at = at_second 10, cy_finished_at = at_second 11, cy_items = [?it]\<rparr>)"
    by (simp add: run_once_def load held_market times market_item_def settle_market_def final_source_def
        terminal_poll_def)
  have "typed_polls (le_tz held_env) final_source" using final_source_typed by (simp add: held_env_def)
  then obtain q where "sound_store held_env held_store q"
    "list_all2 (item_fits (rp_state p) (rp_state q)) (open_markets (rp_state p)) [?it]"
    using resolution_all_or_nothing [OF p(1) _ times(4) run] by auto
  then have "market_positions (rp_state q) ''m'' = [held_position]"
    by (simp add: p(2) held_market item_fits_def terminal_poll_def)
  then show ?thesis using \<open>sound_store held_env held_store q\<close> run by auto
qed

text \<open>
  The constructor of a poll refuses a pending poll that carries both evidence and resolution, and
  accepts one that carries evidence alone.
\<close>

theorem pending_poll_keeps_evidence:
  "poll_result_init \<lparr>po_market_id = ''m'', po_status = POLL_PENDING, po_checked_at = t, po_reason = ''open'',
      po_evidence = Some final_evidence, po_resolution = None\<rparr> =
    Inr \<lparr>po_market_id = ''m'', po_status = POLL_PENDING, po_checked_at = t, po_reason = ''open'',
      po_evidence = Some final_evidence, po_resolution = None\<rparr>"
proof -
  have "strip ''open'' \<noteq> []" by code_simp
  then show ?thesis by (simp add: poll_result_init_def terminal_poll_def final_evidence_def)
qed

end
