(* ===== verification/Spec2Isabelle.thy ===== *)
theory Spec2Isabelle
  imports Ledger_Witnesses Fingerprints Weather_Snapshot Sizing_Samples Portfolio_Samples
    Delivery_Claims Outbox_Samples Store_Samples Risk_Samples Temperature_Props
    Paper_Samples Resolution_Samples
begin

text \<open>
  Verification of the core of the Hermes WeatherBot, a Python program that sizes, checks, records and
  publishes trades on temperature markets.

  \<^bold>\<open>The program.\<close> A trade starts as a calibrated probability and an order book. The quote
  evaluator prices one executable buy (\<open>weatherbot/quoting\<close>), the sizing loop finds the largest budget
  the bankroll policy allows (\<open>weatherbot/risk/sizing.py\<close>), and the portfolio gate compares the
  proposal with the exposure of the ledger (\<open>weatherbot/risk/portfolio.py\<close>). What was decided becomes
  an order intent; intents, backend notices, fills, resolutions and settlements are the fourteen
  events of an append-only ledger, whose state is the replay of its events (\<open>weatherbot/domain\<close>).
  The event store keeps the events as a hash chain of JSON payloads in a database and verifies all
  of it whenever it loads (\<open>weatherbot/persistence\<close>). Signals leave the process through a durable
  outbox that is delivered at least once and acknowledged only on proof (\<open>weatherbot/pip\<close>).

  \<^bold>\<open>Values.\<close> \<open>Prelude\<close> has the exceptions as one datatype, results as a sum \<open>exc + 'a\<close> with
  \<open>rbind\<close>, \<open>rmap\<close> and \<open>rfold\<close> for sequencing and loops, ordered dictionaries as association lists,
  and the two machine interfaces: \<open>event_machine\<close> (a step relation with an invariant) and
  \<open>evolving_machine\<close> (an invariant and a preorder every step follows), interpreted by the ledger,
  the outbox and the event store. \<open>Decimals\<close> is \<^verbatim>\<open>decimal.Decimal\<close> under the default context
  of 28 digits with half-even rounding, as rationals rounded after every operation; quantization
  beyond 28 digits raises as in Python. Its equations marked \<open>code\<close> only speed the evaluation of
  concrete inputs. \<open>Money\<close>, \<open>Strict_Input\<close>, \<open>Text_Format\<close> and \<open>Wire_Text\<close> are
  \<open>domain/money.py\<close>, the strict decimal parser of the market modules, and the texts that identifiers
  and payloads are made of. A time is its instant in microseconds with an
  optional offset.

  \<^bold>\<open>The ledger.\<close> \<open>Domain_Model\<close>, \<open>Evidence\<close> and \<open>Events\<close> hold the records of \<open>domain/model.py\<close>,
  \<open>observation.py\<close>, \<open>resolution.py\<close>, \<open>risk.py\<close> and \<open>events.py\<close>, each with the checks of its
  constructor; \<open>Ledger_State\<close> the state and \<open>assert_invariants\<close> of \<open>state.py\<close>; \<open>Reducers\<close> the handlers
  of \<open>reducers.py\<close>. \<open>Ledger_Invariant\<close> proves the imperative check equivalent to a declarative
  invariant, \<open>Ledger_Spec\<close> states an abstract specification over exact rationals that every accepted
  event refines, and \<open>Ledger_Props\<close> lifts the consequences to replays: accounting, append-only
  histories, frozen closed orders, buys debited no more than their reservation covers, idempotent
  redelivery. \<open>Fingerprints\<close> is the canonical JSON and the fingerprint of \<open>events.py\<close>: the canonical
  text determines the event, so an identifier that returns with other contents is refused.
  \<open>Ledger_Samples\<close> and \<open>Ledger_Witnesses\<close>
  evaluate concrete histories, one of them a fill that is refused for one micro-unit of rounding.

  \<^bold>\<open>Trading decisions.\<close> \<open>Order_Book\<close> (\<open>markets/orderbook.py\<close>),
  \<open>Quoting\<close> and \<open>Evaluator\<close> (\<open>quoting/model.py\<close>, \<open>evaluator.py\<close>),
  \<open>Weather_Snapshot\<close> (\<open>forecasting/model.py\<close>), \<open>Sizing\<close>
  (\<open>risk/model.py\<close>, \<open>sizing.py\<close>) and \<open>Portfolio\<close>
  (\<open>risk/portfolio_model.py\<close>, \<open>portfolio.py\<close>) are followed by a \<open>_Props\<close> theory each:
  a quote is the cheapest allocation over the levels, an accepted evaluation is a sound trade and evaluation never raises on
  well-formed input of ordinary magnitude, sizing never spends more than the bankroll and the Kelly bound allow and
  converges, the gate approves exactly the proposals inside every limit. \<open>Temperature\<close>
  (\<open>markets/temperature.py\<close>) has the settlement buckets and the partition of a market's outcomes: every settled
  value falls in exactly one outcome, and every forecast in one whose documented interval contains it, half degrees below
  zero excepted, which the code rounds away from zero and so to the other side of the documented boundary. The sizing loop
  is a client of the evaluator through the locale \<open>quote_provider\<close>, which the evaluator interprets. The loop of
  \<open>size_executable_buy\<close> has the bound of the policy's iterations; \<open>sizing_converges\<close> shows how
  many suffice.

  \<^bold>\<open>Persistence.\<close> \<open>Json\<close> has JSON values, the printer of canonical JSON and a parser whose
  fuel is the length of the text, enough because every nested value consumes a character; \<open>Codec\<close> is
  \<open>persistence/codec.py\<close> with a proof in \<open>Codec_Props\<close> that decoding inverts encoding.
  \<open>Store\<close> and \<open>Store_Ops\<close> are the tables of \<open>migrations.py\<close> and the operations of
  \<open>store.py\<close> as functions on them; a transaction that raises leaves the tables as they were.
  \<open>Store_Props\<close>, \<open>Store_Runs\<close> and \<open>Store_Claims\<close> prove, over runs of all commands
  whose events are storable, that the database always opens again, that its ledger only grows, that what is appended is what
  is loaded, and that the tail of the hash chain determines the ledger. \<open>Store_Samples\<close> has concrete databases,
  two of which no longer open.

  \<open>Risk_Store\<close> (\<open>risk_store.py\<close>) composes the gate with the store in one transaction;
  \<open>Risk_Store_Props\<close> and \<open>Risk_Claims\<close> show that over runs of it and of every inherited operation
  each buy of the ledger was requested by a risk-checked commit of the run, whose own request,
  policy and valuation the gate approved on the ledger as it stood before that commit.

  \<^bold>\<open>Paper trading.\<close> \<open>Paper\<close> is \<open>paper/model.py\<close> and \<open>execution.py\<close>: the plan of an order over one
  book, its stored rendering, and the adapter that turns it into events and resumes it;
  \<open>Paper_Valuation\<close> is \<open>valuation.py\<close>. \<open>Paper_Props\<close> proves that a plan survives the store and that
  reconciliation after a crash emits exactly what is missing, over the histories of \<open>Ledger_History\<close>;
  \<open>Paper_Valuation_Props\<close> that the ledger accepts the valuations made for it. \<open>Paper_Samples\<close> has the
  plan whose fee the ledger refuses.

  \<^bold>\<open>Resolution.\<close> \<open>Resolution\<close> is \<open>resolution/model.py\<close>, \<open>context.py\<close> and \<open>worker.py\<close>: a cycle visits
  every market with an open position, polls its resolution and settles it over the event store.
  \<open>Resolution_Props\<close> proves, from what the store appends and the ledger's steps, that a cycle settles a
  market completely or leaves it alone, on every error path; \<open>Resolution_Samples\<close> has a store with an
  open position and a source that declares its market final.

  \<^bold>\<open>Publication.\<close> \<open>Outbox\<close> is \<open>pip/outbox.py\<close>: rows, leases, tokens, dead letters, audit;
  \<open>Delivery\<close> is one delivery attempt of \<open>pip/runtime.py\<close>. The \<open>_Props\<close> and \<open>_Claims\<close> theories prove
  the invariant and history of the table over runs, fencing by token and lease, the end of every
  delivery at its horizon, and that a row is acknowledged only on an acceptance of its own event.
\<close>

section \<open>Parameters of the model\<close>

text \<open>
  \<open>sha\<close> is SHA-256 as hexadecimal text; properties that need more say so (digests of 64 characters, no
  collision on the texts at hand). \<open>fp\<close>, \<open>le_event_fp\<close> and \<open>le_state_fp\<close> are the
  generic \<^verbatim>\<open>fingerprint\<close> of events and states; the ledger and the store are proved for any function
  of the event, and \<open>event_fingerprint\<close> of \<open>Fingerprints\<close> is the code's own. \<open>tz\<close> is
  the time zone database, \<open>loads\<close> the JSON reader of delivery replies, \<open>post\<close> the endpoint,
  \<open>jitter\<close> the random delay within its bounds, \<open>now\<close> the clock, \<open>resolve\<close> the
  execution adapters used at startup, the record \<open>resolver\<close> the source of resolutions, the context provider and
  the fingerprint of a resolution. Every property that constrains such a parameter is instantiated with a concrete function
  in its witness.
\<close>

section \<open>Not modelled\<close>

text \<open>
  Message texts keep their constant parts: the values a message interpolates are left out, except where the program reads
  them back. Connections, locks, files, backups, the migration runner and the schema versions of the databases are not
  modelled, nor are HTTP clients, command lines, the producer's file logs, the parsers of exchange payloads, the offline
  calibration in binary floating point, the wiring of the paper service, and the earlier single-file bots. Dictionaries
  built only for logs and reports (\<^verbatim>\<open>metadata()\<close> of quotes, sizes and snapshots) are left out.

  Decimals have no bound on their exponent and times no first or last year, so the overflow errors of
  extreme operands are not modelled: \<open>evaluation_total\<close> is stated for inputs of ordinary magnitude,
  where they cannot occur. Decimals that were never quantized print without trailing zeros, payload
  numbers with a fraction are refused where the paper plan would read a float, and ISO texts are read
  in the forms the program itself prints.
\<close>

end
